(* ===== verification/Prelude.thy ===== *)
theory Prelude
  imports Main
begin

text \<open>
  Shared prelude of the forklift development.

  \<^item> the collections of facts the component theories extend
    (\<open>go_simps\<close>, \<open>store_simps\<close>, \<open>inv_intros\<close>);
  \<^item> the types every component uses: Go strings as byte lists, instants and durations in
    nanoseconds, errors as the left side of a sum;
  \<^item> the 64-bit integer operations whose overflow is visible in the source
    (\<open>wrap64\<close> for multiplication, \<open>time_sub\<close> for the saturating
    \<^verbatim>\<open>time.Time.Sub\<close>);
  \<^item> the functions of the Go packages \<open>strings\<close> and \<open>path\<close> the source calls, over byte
    strings, with the lemmas the component proofs share.
\<close>

section \<open>Collections and types\<close>

named_theorems go_simps \<open>unfolding rules for the modelled Go string functions\<close>
named_theorems store_simps \<open>unfolding rules for the metadata store operations\<close>
named_theorems inv_intros \<open>operations preserve the store invariants\<close>

type_synonym bytes = string
type_synonym instant = int   \<comment> \<open>nanoseconds since Go's zero time; 0 is the zero \<open>time.Time\<close>\<close>
type_synonym duration = int  \<comment> \<open>nanoseconds\<close>

abbreviation Second :: duration where "Second \<equiv> 1000000000"
abbreviation Minute :: duration where "Minute \<equiv> 60000000000"
abbreviation Hour :: duration where "Hour \<equiv> 3600000000000"

section \<open>64-bit integers\<close>

definition min_int64 :: int where "min_int64 = - 9223372036854775808"
definition max_int64 :: int where "max_int64 = 9223372036854775807"

text \<open>Two's complement wrap-around of a result computed on unbounded integers.\<close>

definition wrap64 :: "int \<Rightarrow> int" where
  "wrap64 n = (n + 9223372036854775808) mod 18446744073709551616 - 9223372036854775808"

text \<open>\<^verbatim>\<open>t.Sub(u)\<close> saturates at the ends of the duration range.\<close>

definition time_sub :: "instant \<Rightarrow> instant \<Rightarrow> duration" where
  "time_sub t u = max min_int64 (min max_int64 (t - u))"

lemma wrap64_range: "min_int64 \<le> wrap64 n \<and> wrap64 n \<le> max_int64"
proof -
  have "0 \<le> (n + 9223372036854775808) mod 18446744073709551616"
    and "(n + 9223372036854775808) mod 18446744073709551616 < 18446744073709551616"
    by simp_all
  then show ?thesis
    by (simp add: wrap64_def min_int64_def max_int64_def)
qed

lemma wrap64_id: "min_int64 \<le> n \<Longrightarrow> n \<le> max_int64 \<Longrightarrow> wrap64 n = n"
  by (simp add: wrap64_def min_int64_def max_int64_def)

lemma time_sub_exact:
  "min_int64 \<le> t - u \<Longrightarrow> t - u \<le> max_int64 \<Longrightarrow> time_sub t u = t - u"
  by (simp add: time_sub_def)

lemma time_sub_less_iff:
  "min_int64 < d \<Longrightarrow> d \<le> max_int64 \<Longrightarrow> time_sub t u < d \<longleftrightarrow> t - u < d"
  by (auto simp: time_sub_def)

lemma time_sub_pos_iff: "0 < time_sub t u \<longleftrightarrow> u < t"
  by (auto simp: time_sub_def min_int64_def max_int64_def)

lemma time_sub_le: "0 \<le> t - u \<Longrightarrow> time_sub t u \<le> t - u"
  by (auto simp: time_sub_def min_int64_def)

section \<open>Package strings\<close>

definition has_prefix :: "string \<Rightarrow> string \<Rightarrow> bool" where
  [go_simps]: "has_prefix s p \<longleftrightarrow> take (length p) s = p"

definition has_suffix :: "string \<Rightarrow> string \<Rightarrow> bool" where
  [go_simps]: "has_suffix s q \<longleftrightarrow> length q \<le> length s \<and> drop (length s - length q) s = q"

definition trim_prefix :: "string \<Rightarrow> string \<Rightarrow> string" where
  [go_simps]: "trim_prefix s p = (if has_prefix s p then drop (length p) s else s)"

definition trim_suffix :: "string \<Rightarrow> string \<Rightarrow> string" where
  [go_simps]: "trim_suffix s q = (if has_suffix s q then take (length s - length q) s else s)"

text \<open>\<^verbatim>\<open>CutPrefix\<close> and \<^verbatim>\<open>CutSuffix\<close>: \<open>None\<close> when the affix is absent.\<close>

definition cut_prefix :: "string \<Rightarrow> string \<Rightarrow> string option" where
  [go_simps]: "cut_prefix s p = (if has_prefix s p then Some (drop (length p) s) else None)"

definition cut_suffix :: "string \<Rightarrow> string \<Rightarrow> string option" where
  [go_simps]: "cut_suffix s q =
     (if has_suffix s q then Some (take (length s - length q) s) else None)"

text \<open>\<^verbatim>\<open>strings.Index\<close>: the first position of a substring.\<close>

fun index_of :: "string \<Rightarrow> string \<Rightarrow> nat option" where
  "index_of [] sub = (if sub = [] then Some 0 else None)"
| "index_of (c # s) sub =
     (if has_prefix (c # s) sub then Some 0 else map_option Suc (index_of s sub))"

definition contains :: "string \<Rightarrow> string \<Rightarrow> bool" where
  [go_simps]: "contains s sub \<longleftrightarrow> index_of s sub \<noteq> None"

text \<open>\<^verbatim>\<open>strings.Split\<close> with the one-byte separators the source uses.\<close>

fun split_on :: "char \<Rightarrow> string \<Rightarrow> string list" where
  "split_on sep [] = [[]]"
| "split_on sep (c # s) =
     (if c = sep then [] # split_on sep s
      else case split_on sep s of [] \<Rightarrow> [[c]] | w # ws \<Rightarrow> (c # w) # ws)"

fun join_with :: "string \<Rightarrow> string list \<Rightarrow> string" where
  "join_with sep [] = []"
| "join_with sep [w] = w"
| "join_with sep (w # v # ws) = w @ sep @ join_with sep (v # ws)"

text \<open>\<^verbatim>\<open>strings.Cut\<close> at the first occurrence of a one-byte separator.\<close>

fun cut_at :: "char \<Rightarrow> string \<Rightarrow> (string \<times> string) option" where
  "cut_at sep [] = None"
| "cut_at sep (c # s) =
     (if c = sep then Some ([], s)
      else map_option (\<lambda>(a, b). (c # a, b)) (cut_at sep s))"

text \<open>\<^verbatim>\<open>TrimLeft\<close>, \<^verbatim>\<open>TrimRight\<close> and \<^verbatim>\<open>Trim\<close> with a one-byte cutset.\<close>

definition trim_left :: "char \<Rightarrow> string \<Rightarrow> string" where
  [go_simps]: "trim_left c s = dropWhile (\<lambda>x. x = c) s"

definition trim_right :: "char \<Rightarrow> string \<Rightarrow> string" where
  [go_simps]: "trim_right c s = rev (dropWhile (\<lambda>x. x = c) (rev s))"

definition trim_both :: "char \<Rightarrow> string \<Rightarrow> string" where
  [go_simps]: "trim_both c s = trim_right c (trim_left c s)"

text \<open>
  \<^verbatim>\<open>strings.TrimSpace\<close> on UTF-8 bytes. \<open>space_head\<close> is the byte length of the white-space
  rune a string starts with (0 when it starts with none); \<open>space_last\<close> the same for the
  reversed string, so it reads the encodings backwards.
\<close>

definition ascii_space :: "char \<Rightarrow> bool" where
  "ascii_space c \<longleftrightarrow> c \<in> set [CHR 0x09, CHR 0x0A, CHR 0x0B, CHR 0x0C, CHR 0x0D, CHR 0x20]"

definition wide_space :: "char \<Rightarrow> char \<Rightarrow> char \<Rightarrow> bool" where
  "wide_space a b c \<longleftrightarrow>
     (a, b, c) \<in> set [(CHR 0xE1, CHR 0x9A, CHR 0x80), (CHR 0xE2, CHR 0x80, CHR 0xA8),
       (CHR 0xE2, CHR 0x80, CHR 0xA9), (CHR 0xE2, CHR 0x80, CHR 0xAF),
       (CHR 0xE2, CHR 0x81, CHR 0x9F), (CHR 0xE3, CHR 0x80, CHR 0x80)] \<or>
     a = CHR 0xE2 \<and> b = CHR 0x80 \<and> 128 \<le> (of_char c :: nat) \<and> (of_char c :: nat) \<le> 138"

definition latin_space :: "char \<Rightarrow> char \<Rightarrow> bool" where
  "latin_space a b \<longleftrightarrow> a = CHR 0xC2 \<and> (b = CHR 0x85 \<or> b = CHR 0xA0)"

fun space_head :: "string \<Rightarrow> nat" where
  "space_head [] = 0"
| "space_head [a] = (if ascii_space a then 1 else 0)"
| "space_head [a, b] = (if ascii_space a then 1 else if latin_space a b then 2 else 0)"
| "space_head (a # b # c # s) =
     (if ascii_space a then 1 else if latin_space a b then 2
      else if wide_space a b c then 3 else 0)"

fun space_last :: "string \<Rightarrow> nat" where
  "space_last [] = 0"
| "space_last [a] = (if ascii_space a then 1 else 0)"
| "space_last [a, b] = (if ascii_space a then 1 else if latin_space b a then 2 else 0)"
| "space_last (a # b # c # s) =
     (if ascii_space a then 1 else if latin_space b a then 2
      else if wide_space c b a then 3 else 0)"

function drop_spaces :: "(string \<Rightarrow> nat) \<Rightarrow> string \<Rightarrow> string" where
  "drop_spaces w s =
     (if s = [] \<or> w s = 0 then s else drop_spaces w (drop (w s) s))"
  by pat_completeness auto
termination
  by (relation "measure (\<lambda>(w, s). length s)") auto

declare drop_spaces.simps [simp del]

definition trim_space :: "string \<Rightarrow> string" where
  "trim_space s = rev (drop_spaces space_last (rev (drop_spaces space_head s)))"

text \<open>\<^verbatim>\<open>strings.ToLower\<close> and \<^verbatim>\<open>ToUpper\<close> on ASCII; other bytes are left as they are.\<close>

definition lower_char :: "char \<Rightarrow> char" where
  "lower_char c = (if 65 \<le> (of_char c :: nat) \<and> (of_char c :: nat) \<le> 90
                   then char_of (of_char c + 32 :: nat) else c)"

definition to_lower :: "string \<Rightarrow> string" where
  "to_lower s = map lower_char s"

definition upper_char :: "char \<Rightarrow> char" where
  "upper_char c = (if 97 \<le> (of_char c :: nat) \<and> (of_char c :: nat) \<le> 122
                   then char_of (of_char c - 32 :: nat) else c)"

definition to_upper :: "string \<Rightarrow> string" where
  "to_upper s = map upper_char s"

section \<open>Package path\<close>

text \<open>\<^verbatim>\<open>path.Base\<close>: the last element, \<open>.\<close> for the empty path, \<open>/\<close> for slashes only.\<close>

definition path_base :: "string \<Rightarrow> string" where
  "path_base p =
     (if p = [] then ''.''
      else let q = trim_right (CHR ''/'') p
           in if q = [] then ''/''
              else rev (takeWhile (\<lambda>c. c \<noteq> CHR ''/'') (rev q)))"

section \<open>Byte order on strings\<close>

text \<open>Go's \<open><\<close> on strings and SQLite's BINARY collation: byte-wise lexicographic.\<close>

fun str_less :: "string \<Rightarrow> string \<Rightarrow> bool" where
  "str_less [] [] = False"
| "str_less [] (d # t) = True"
| "str_less (c # s) [] = False"
| "str_less (c # s) (d # t) =
     ((of_char c :: nat) < of_char d \<or> c = d \<and> str_less s t)"

definition str_le :: "string \<Rightarrow> string \<Rightarrow> bool" where
  "str_le s t \<longleftrightarrow> \<not> str_less t s"

text \<open>\<^verbatim>\<open>sort.Strings\<close> of a list without duplicates.\<close>

fun str_insert :: "string \<Rightarrow> string list \<Rightarrow> string list" where
  "str_insert x [] = [x]"
| "str_insert x (y # ys) = (if str_less y x then y # str_insert x ys else x # y # ys)"

definition str_sort :: "string list \<Rightarrow> string list" where
  "str_sort xs = foldr str_insert xs []"

lemma str_less_irrefl [simp]: "\<not> str_less s s"
  by (induction s) auto

lemma str_less_trans: "str_less s t \<Longrightarrow> str_less t u \<Longrightarrow> str_less s u"
proof (induction s t arbitrary: u rule: str_less.induct)
  case (2 d t)
  then show ?case by (cases u) auto
next
  case (4 c s d t)
  then show ?case by (cases u) auto
qed auto

lemma str_less_linear: "str_less s t \<or> s = t \<or> str_less t s"
proof (induction s t rule: str_less.induct)
  case (4 c s d t)
  then show ?case
    by (cases "(of_char c :: nat)" "(of_char d :: nat)" rule: linorder_cases) auto
qed auto

lemma str_less_asym: "str_less s t \<Longrightarrow> \<not> str_less t s"
  using str_less_trans by fastforce

lemma str_less_append: "str_less (p @ s) (p @ t) \<longleftrightarrow> str_less s t"
  by (induction p) auto

text \<open>Prefixes of one length decide the order where they differ.\<close>

lemma str_less_prefix:
  "length p = length q \<Longrightarrow> str_less p q \<Longrightarrow> str_less (p @ s) (q @ t)"
proof (induction p arbitrary: q)
  case Nil
  then show ?case by simp
next
  case (Cons c p)
  then show ?case by (cases q) auto
qed

lemma set_str_insert [simp]: "set (str_insert x ys) = insert x (set ys)"
  by (induction ys) auto

lemma set_str_sort [simp]: "set (str_sort xs) = set xs"
  by (induction xs) (auto simp: str_sort_def)

lemma sorted_str_insert:
  "sorted_wrt str_less ys \<Longrightarrow> x \<notin> set ys \<Longrightarrow> sorted_wrt str_less (str_insert x ys)"
proof (induction ys)
  case (Cons y ys)
  show ?case
  proof (cases "str_less y x")
    case True
    with Cons show ?thesis by auto
  next
    case False
    with Cons.prems have "str_less x y" using str_less_linear [of x y] by auto
    with False Cons.prems show ?thesis using str_less_trans [of x y] by auto
  qed
qed simp

lemma sorted_str_sort: "distinct xs \<Longrightarrow> sorted_wrt str_less (str_sort xs)"
  by (induction xs) (auto simp: str_sort_def sorted_str_insert set_str_sort [unfolded str_sort_def])

lemma str_sorted_distinct: "sorted_wrt str_less xs \<Longrightarrow> distinct xs"
  by (induction xs) auto

lemma str_sorted_unique:
  assumes "sorted_wrt str_less xs" and "sorted_wrt str_less ys" and "set xs = set ys"
  shows "xs = ys"
  using assms
proof (induction xs arbitrary: ys)
  case Nil
  then show ?case by simp
next
  case (Cons x xs)
  then obtain y zs where ys: "ys = y # zs" by (cases ys) auto
  have "x = y"
  proof (rule ccontr)
    assume "x \<noteq> y"
    with Cons.prems ys have "str_less y x" and "str_less x y" by auto
    then show False using str_less_asym by blast
  qed
  moreover from Cons.prems ys this have "set xs = set zs"
    using str_sorted_distinct [of "x # xs"] str_sorted_distinct [of ys] by auto
  ultimately show ?case using Cons.IH [of zs] Cons.prems ys by simp
qed

section \<open>Splitting and joining\<close>

lemma split_on_ne [simp]: "split_on c xs \<noteq> []"
  by (cases xs) (auto split: list.splits)

lemma split_on_parts: "split_on c (xs @ c # ys) = split_on c xs @ split_on c ys"
proof (induction xs)
  case (Cons x xs)
  then show ?case by (cases "split_on c xs") (auto dest: arg_cong [of _ _ "\<lambda>ws. ws = []"])
qed simp

lemma split_on_free: "c \<notin> set s \<Longrightarrow> split_on c s = [s]"
  by (induction s) auto

lemma split_on_append: "c \<notin> set s \<Longrightarrow> split_on c (s @ c # t) = s # split_on c t"
  by (induction s) auto

lemma split_on_join:
  "ws \<noteq> [] \<Longrightarrow> list_all (\<lambda>w. c \<notin> set w) ws \<Longrightarrow> split_on c (join_with [c] ws) = ws"
  by (induction "[c]" ws rule: join_with.induct) (auto simp: split_on_free split_on_append)

lemma join_with_snoc: "ws \<noteq> [] \<Longrightarrow> join_with sep (ws @ [w]) = join_with sep ws @ sep @ w"
proof (induction ws rule: induct_list012)
  case (3 x y zs)
  then show ?case by (cases zs) auto
qed auto

end
