(* ===== verification/Strconv.thy ===== *)
theory Strconv
  imports Prelude
begin

text \<open>
  Decimal integers as text: \<^verbatim>\<open>strconv.Itoa\<close> and \<^verbatim>\<open>strconv.Atoi\<close> of the standard library and the
  hand-written \<open>itoa\<close> of \<^verbatim>\<open>internal/repo/engine.go\<close>, with the round trip between them.
\<close>

definition digit :: "int \<Rightarrow> char" where
  "digit d = char_of (48 + nat d)"

definition is_digit :: "char \<Rightarrow> bool" where
  "is_digit c \<longleftrightarrow> 48 \<le> (of_char c :: nat) \<and> (of_char c :: nat) \<le> 57"

definition digit_val :: "char \<Rightarrow> int" where
  "digit_val c = int (of_char c) - 48"

definition dec_val :: "string \<Rightarrow> int" where
  "dec_val s = foldl (\<lambda>n c. n * 10 + digit_val c) 0 s"

text \<open>The digits of a positive number, most significant first; nothing for other numbers.\<close>

function digits :: "int \<Rightarrow> string" where
  "digits n = (if 0 < n then digits (n div 10) @ [digit (n mod 10)] else [])"
  by pat_completeness auto
termination
  by (relation "measure nat") auto

declare digits.simps [simp del]

definition Itoa :: "int \<Rightarrow> string" where
  "Itoa n = (if n = 0 then ''0'' else if n < 0 then CHR ''-'' # digits (- n) else digits n)"

definition Atoi :: "string \<Rightarrow> int option" where
  "Atoi s =
     (let neg = (s \<noteq> [] \<and> hd s = CHR ''-'');
          body = (if s \<noteq> [] \<and> (hd s = CHR ''-'' \<or> hd s = CHR ''+'') then tl s else s)
      in if body = [] \<or> \<not> list_all is_digit body then None
         else let n = (if neg then - dec_val body else dec_val body)
              in if min_int64 \<le> n \<and> n \<le> max_int64 then Some n else None)"

text \<open>
  The engine's \<open>itoa\<close> fills a 20-byte buffer from the right while \<open>n > 0\<close>. \<open>i\<close> is the index, \<open>acc\<close>
  the buffer from there on; an index below 0 would be the runtime's panic, \<open>None\<close>.
\<close>

function itoa_loop :: "int \<Rightarrow> nat \<Rightarrow> string \<Rightarrow> string option" where
  "itoa_loop n i acc =
     (if 0 < n then
        (case i of 0 \<Rightarrow> None | Suc j \<Rightarrow> itoa_loop (n div 10) j (digit (n mod 10) # acc))
      else Some acc)"
  by pat_completeness auto
termination
  by (relation "measure (\<lambda>(n, i, acc). i)") auto

declare itoa_loop.simps [simp del]

definition itoa :: "int \<Rightarrow> string option" where
  "itoa n = (if n = 0 then Some ''0'' else itoa_loop n 20 [])"

section \<open>Round trip\<close>

lemma of_char_digit: "0 \<le> d \<Longrightarrow> d < 10 \<Longrightarrow> (of_char (digit d) :: nat) = 48 + nat d"
  by (simp add: digit_def)

lemma is_digit_digit: "0 \<le> d \<Longrightarrow> d < 10 \<Longrightarrow> is_digit (digit d)"
  by (simp add: is_digit_def of_char_digit)

lemma digit_val_digit: "0 \<le> d \<Longrightarrow> d < 10 \<Longrightarrow> digit_val (digit d) = d"
  by (simp add: digit_val_def of_char_digit)

lemma dec_val_snoc: "dec_val (s @ [c]) = dec_val s * 10 + digit_val c"
  by (simp add: dec_val_def)

lemma digits_are_digits: "list_all is_digit (digits n)"
  by (induction n rule: digits.induct) (subst digits.simps, simp add: is_digit_digit)

lemma dec_val_digits: "0 \<le> n \<Longrightarrow> dec_val (digits n) = n"
proof (induction n rule: digits.induct)
  case (1 n)
  show ?case
  proof (cases "0 < n")
    case True
    with 1 have "dec_val (digits (n div 10)) = n div 10" by simp
    with True show ?thesis by (subst digits.simps) (simp add: dec_val_snoc digit_val_digit)
  next
    case False
    with 1(2) show ?thesis by (simp add: digits.simps dec_val_def)
  qed
qed

lemma digits_Nil: "digits n = [] \<longleftrightarrow> n \<le> 0"
  by (subst digits.simps) auto

lemma hd_digits: "0 < n \<Longrightarrow> is_digit (hd (digits n))"
  using digits_are_digits [of n] digits_Nil [of n] by (cases "digits n") auto

lemma not_sign: "is_digit c \<Longrightarrow> c \<noteq> CHR ''-'' \<and> c \<noteq> CHR ''+''"
  by (auto simp: is_digit_def)

lemma Atoi_Itoa:
  assumes "min_int64 \<le> n" and "n \<le> max_int64"
  shows "Atoi (Itoa n) = Some n"
proof (cases n "0 :: int" rule: linorder_cases)
  case less
  then have "dec_val (digits (- n)) = - n" and "digits (- n) \<noteq> []"
    by (simp_all add: dec_val_digits digits_Nil)
  with less assms show ?thesis by (simp add: Itoa_def Atoi_def Let_def digits_are_digits)
next
  case equal
  then show ?thesis
    by (simp add: Itoa_def Atoi_def is_digit_def dec_val_def digit_val_def min_int64_def max_int64_def)
next
  case greater
  then have "dec_val (digits n) = n" and "digits n \<noteq> []"
    by (simp_all add: dec_val_digits digits_Nil)
  with greater assms not_sign [OF hd_digits [OF greater]] show ?thesis
    by (simp add: Itoa_def Atoi_def Let_def digits_are_digits)
qed

lemma itoa_loop_digits:
  "n < 10 ^ i \<Longrightarrow> itoa_loop n i acc = Some (digits n @ acc)"
proof (induction n i acc rule: itoa_loop.induct)
  case (1 n i acc)
  show ?case
  proof (cases "0 < n")
    case False
    then show ?thesis by (subst itoa_loop.simps) (simp add: digits.simps)
  next
    case True
    with 1(2) obtain j where i: "i = Suc j" by (cases i) auto
    with 1(2) have "n div 10 < 10 ^ j" by auto
    with 1(1) [OF True i] have "itoa_loop (n div 10) j (digit (n mod 10) # acc) =
        Some (digits (n div 10) @ digit (n mod 10) # acc)" .
    with True i show ?thesis by (subst itoa_loop.simps, subst digits.simps) simp
  qed
qed

text \<open>
  The engine's hand-written \<open>itoa\<close> never leaves its 20-byte buffer on an \<open>int64\<close>, and on every
  size from 0 up it is the decimal text that \<open>strconv.Atoi\<close> reads back as the same number.
\<close>

theorem itoa_roundtrip:
  assumes "0 \<le> n" and "n \<le> max_int64"
  shows "itoa n = Some (Itoa n) \<and> Atoi (Itoa n) = Some n"
proof -
  have "n < 10 ^ 20" using assms(2) by (simp add: max_int64_def)
  then have "itoa n = Some (Itoa n)"
    using assms(1) by (simp add: itoa_def Itoa_def itoa_loop_digits)
  moreover have "Atoi (Itoa n) = Some n"
    using assms by (intro Atoi_Itoa) (simp_all add: min_int64_def)
  ultimately show ?thesis by simp
qed

theorem itoa_roundtrip_witness: "itoa 9223372036854775807 = Some ''9223372036854775807''"
proof -
  have "itoa 9223372036854775807 = Some (Itoa 9223372036854775807)"
    using itoa_roundtrip [of 9223372036854775807] by (simp add: max_int64_def)
  moreover have "Itoa 9223372036854775807 = ''9223372036854775807''" by code_simp
  ultimately show ?thesis by simp
qed

lemma itoa_negative: "n < 0 \<Longrightarrow> itoa n = Some []"
  by (simp add: itoa_def itoa_loop.simps)

end
