(* ===== verification/Authz.thy ===== *)
theory Authz
  imports Prelude
begin

text \<open>
  Authorization (\<^verbatim>\<open>internal/auth/authz.go\<close>): the repository glob matcher, the actions of role
  permissions and token scopes, and the decisions a principal gets from them.

  \<open>globMatch\<close> keeps the two-pointer loop of the source, with its four variables; the loop is
  proved equal to the declarative matcher \<open>glob_spec\<close> for every name without a star, which is
  what the repository names are.
\<close>

section \<open>Actions, permissions and principals\<close>

abbreviation ActionRead :: string where "ActionRead \<equiv> ''read''"
abbreviation ActionWrite :: string where "ActionWrite \<equiv> ''write''"
abbreviation ActionDelete :: string where "ActionDelete \<equiv> ''delete''"
abbreviation ActionApprove :: string where "ActionApprove \<equiv> ''approve''"
abbreviation ActionAudit :: string where "ActionAudit \<equiv> ''audit''"
abbreviation ActionAdmin :: string where "ActionAdmin \<equiv> ''admin''"

record permission =
  p_id :: nat
  p_role_id :: nat
  p_repo_pattern :: string
  p_actions :: string
  p_managed :: bool

record scope =
  s_repo_pattern :: string
  s_actions :: "string list"

record principal =
  pr_username :: string
  pr_source :: string
  pr_perms :: "permission list"
  pr_via_token :: bool
  pr_token_scopes :: "scope list"

section \<open>The glob matcher\<close>

text \<open>
  The loop of \<^verbatim>\<open>globMatch\<close>. The source keeps \<^verbatim>\<open>starIdx, sTmp = -1\<close> until it meets a star;
  here that is \<open>None\<close>, and \<open>Some (starIdx, sTmp)\<close> afterwards.
\<close>

fun glob_tail :: "string \<Rightarrow> nat \<Rightarrow> nat" where
  "glob_tail [] px = px"
| "glob_tail (c # p) px = (if c = CHR ''*'' then glob_tail p (Suc px) else px)"

function glob_loop :: "string \<Rightarrow> string \<Rightarrow> nat \<Rightarrow> nat \<Rightarrow> (nat \<times> nat) option \<Rightarrow> bool" where
  "glob_loop pat s sx px star =
     (if sx < length s then
        (if px < length pat \<and> pat ! px = s ! sx then glob_loop pat s (Suc sx) (Suc px) star
         else if px < length pat \<and> pat ! px = CHR ''*'' then
           glob_loop pat s sx (Suc px) (Some (px, sx))
         else case star of
                None \<Rightarrow> False
              | Some (starIdx, sTmp) \<Rightarrow>
                  glob_loop pat s (Suc sTmp) (Suc starIdx) (Some (starIdx, Suc sTmp)))
      else glob_tail (drop px pat) px = length pat)"
  by pat_completeness auto

text \<open>
  The loop ends from every state: a state the code can reach has \<open>starIdx < px\<close> and
  \<open>sTmp \<le> sx\<close> (\<open>glob_ok\<close>), and there the star moves right, or the backtracking point does, or
  the name is consumed; any other state is left for good by the next star or backtrack.
\<close>

fun glob_ok :: "nat \<Rightarrow> nat \<Rightarrow> (nat \<times> nat) option \<Rightarrow> bool" where
  "glob_ok sx px None = True"
| "glob_ok sx px (Some (starIdx, sTmp)) = (starIdx < px \<and> sTmp \<le> sx)"

definition glob_rank :: "(string \<times> string \<times> nat \<times> nat \<times> (nat \<times> nat) option) \<Rightarrow> nat list" where
  "glob_rank = (\<lambda>(pat, s, sx, px, star).
     [if glob_ok sx px star then 0 else 1,
      if glob_ok sx px star
        then (case star of None \<Rightarrow> length pat + 1 | Some (i, t) \<Rightarrow> length pat - i) else 0,
      if glob_ok sx px star
        then (case star of None \<Rightarrow> 0 | Some (i, t) \<Rightarrow> length s - t) else 0,
      length s - sx])"

termination glob_loop
proof (relation "measures [\<lambda>x. glob_rank x ! 0, \<lambda>x. glob_rank x ! 1,
    \<lambda>x. glob_rank x ! 2, \<lambda>x. glob_rank x ! 3]", goal_cases)
  case 1
  show ?case by simp
next
  case (2 pat s sx px star)
  then show ?case by (cases star) (auto simp: glob_rank_def)
next
  case (3 pat s sx px star)
  then show ?case by (cases star) (auto simp: glob_rank_def)
next
  case (4 pat s sx px star)
  then show ?case by (auto simp: glob_rank_def)
qed

declare glob_loop.simps [simp del]

definition globMatch :: "string \<Rightarrow> string \<Rightarrow> bool" where
  "globMatch pat s = glob_loop pat s 0 0 None"

definition matchGlob :: "string \<Rightarrow> string \<Rightarrow> bool" where
  "matchGlob pat name =
     (if pat = ''*'' then True else if name = [] then False else globMatch pat name)"

definition MatchRepoPattern :: "string \<Rightarrow> string \<Rightarrow> bool" where
  "MatchRepoPattern pat name = matchGlob pat name"

section \<open>What a principal may do\<close>

definition actionsContain :: "string \<Rightarrow> string \<Rightarrow> bool" where
  "actionsContain csv action =
     list_ex (\<lambda>a. trim_space a = ActionAdmin \<or> trim_space a = action) (split_on (CHR '','') csv)"

definition actionListContains :: "string list \<Rightarrow> string \<Rightarrow> bool" where
  "actionListContains l action = list_ex (\<lambda>a. a = ActionAdmin \<or> a = action) l"

definition scopesAllow :: "scope list \<Rightarrow> string \<Rightarrow> string \<Rightarrow> bool" where
  "scopesAllow scopes repo action =
     list_ex (\<lambda>sc. matchGlob (s_repo_pattern sc) repo \<and> actionListContains (s_actions sc) action)
       scopes"

definition rolesAllow :: "principal \<Rightarrow> string \<Rightarrow> string \<Rightarrow> bool" where
  "rolesAllow p repo action =
     list_ex (\<lambda>q. matchGlob (p_repo_pattern q) repo \<and> actionsContain (p_actions q) action)
       (pr_perms p)"

definition Can :: "principal \<Rightarrow> string \<Rightarrow> string \<Rightarrow> bool" where
  "Can p repo action =
     (if \<not> rolesAllow p repo action then False
      else if pr_via_token p \<and> 0 < length (pr_token_scopes p) \<and>
              \<not> scopesAllow (pr_token_scopes p) repo action then False
      else True)"

definition IsAdmin :: "principal \<Rightarrow> bool" where
  "IsAdmin p = Can p [] ActionAdmin"

definition CanApproveAny :: "principal \<Rightarrow> bool" where
  "CanApproveAny p =
     (if \<not> list_ex (\<lambda>q. actionsContain (p_actions q) ActionApprove) (pr_perms p) then False
      else if pr_via_token p \<and> 0 < length (pr_token_scopes p) then
        list_ex (\<lambda>sc. actionListContains (s_actions sc) ActionApprove) (pr_token_scopes p)
      else True)"

definition CanAuditAny :: "principal \<Rightarrow> bool" where
  "CanAuditAny p =
     (if \<not> list_ex (\<lambda>q. actionsContain (p_actions q) ActionAudit) (pr_perms p) then False
      else if pr_via_token p \<and> 0 < length (pr_token_scopes p) then False
      else True)"

section \<open>The declarative matcher\<close>

text \<open>A pattern matches when each star can be replaced by some run of characters.\<close>

fun glob_spec :: "string \<Rightarrow> string \<Rightarrow> bool" where
  "glob_spec [] s = (s = [])"
| "glob_spec (c # p) s =
     (if c = CHR ''*'' then \<exists>k \<le> length s. glob_spec p (drop k s)
      else case s of [] \<Rightarrow> False | d # t \<Rightarrow> c = d \<and> glob_spec p t)"

abbreviation star_free :: "string \<Rightarrow> bool" where
  "star_free s \<equiv> CHR ''*'' \<notin> set s"

lemma glob_spec_literal: "star_free q \<Longrightarrow> glob_spec (q @ p) s \<longleftrightarrow>
    length q \<le> length s \<and> take (length q) s = q \<and> glob_spec p (drop (length q) s)"
proof (induction q arbitrary: s)
  case Nil
  then show ?case by simp
next
  case (Cons c q)
  then show ?case by (cases s) auto
qed

lemma glob_spec_literal_star:
  assumes "star_free q" and "glob_spec (q @ CHR ''*'' # p) s"
  shows "\<exists>m. length q \<le> m \<and> m \<le> length s \<and> glob_spec p (drop m s)"
proof -
  from assms obtain k where "length q \<le> length s" "k \<le> length s - length q"
    and "glob_spec p (drop k (drop (length q) s))"
    by (auto simp: glob_spec_literal)
  then show ?thesis
    by (intro exI [of _ "length q + k"]) (simp add: add.commute)
qed

lemma glob_spec_star:
  assumes "n \<le> length s"
  shows "glob_spec (CHR ''*'' # p) (drop n s) \<longleftrightarrow>
    (\<exists>k. n \<le> k \<and> k \<le> length s \<and> glob_spec p (drop k s))"
proof
  assume "glob_spec (CHR ''*'' # p) (drop n s)"
  then obtain j where "j \<le> length s - n" "glob_spec p (drop (n + j) s)"
    by (auto simp: add.commute)
  with assms show "\<exists>k. n \<le> k \<and> k \<le> length s \<and> glob_spec p (drop k s)"
    by (intro exI [of _ "n + j"]) auto
next
  assume "\<exists>k. n \<le> k \<and> k \<le> length s \<and> glob_spec p (drop k s)"
  then obtain k where "n \<le> k" "k \<le> length s" "glob_spec p (drop k s)" by blast
  then show "glob_spec (CHR ''*'' # p) (drop n s)"
    by (auto intro: exI [of _ "k - n"])
qed

lemma glob_tail_all_stars: "glob_tail p px = px + length p \<longleftrightarrow> glob_spec p []"
proof (induction p arbitrary: px)
  case Nil
  show ?case by simp
next
  case (Cons c p)
  then show ?case using Cons.IH [of "Suc px"] by simp
qed

text \<open>
  What a loop state still has to decide: the rest of the pattern matches the rest of the name,
  or the last star can swallow more than it has so far.
\<close>

fun glob_alt :: "string \<Rightarrow> string \<Rightarrow> (nat \<times> nat) option \<Rightarrow> bool" where
  "glob_alt pat s None = False"
| "glob_alt pat s (Some (i, t)) =
     (\<exists>k. t < k \<and> k \<le> length s \<and> glob_spec (drop (Suc i) pat) (drop k s))"

fun glob_inv :: "string \<Rightarrow> string \<Rightarrow> nat \<Rightarrow> nat \<Rightarrow> (nat \<times> nat) option \<Rightarrow> bool" where
  "glob_inv pat s sx px None = (px \<le> length pat \<and> sx \<le> length s)"
| "glob_inv pat s sx px (Some (i, t)) =
     (px \<le> length pat \<and> sx \<le> length s \<and> t \<le> sx \<and> px = Suc i + (sx - t) \<and>
      star_free (take (sx - t) (drop (Suc i) pat)))"

lemma ex_above_split:
  assumes "t < (n::nat)"
  shows "P (Suc t) \<or> (\<exists>k. Suc t < k \<and> k \<le> n \<and> P k) \<longleftrightarrow> (\<exists>k. t < k \<and> k \<le> n \<and> P k)"
proof
  assume "P (Suc t) \<or> (\<exists>k. Suc t < k \<and> k \<le> n \<and> P k)"
  with assms show "\<exists>k. t < k \<and> k \<le> n \<and> P k" by (meson Suc_leI Suc_lessD lessI)
next
  assume "\<exists>k. t < k \<and> k \<le> n \<and> P k"
  then show "P (Suc t) \<or> (\<exists>k. Suc t < k \<and> k \<le> n \<and> P k)" by (metis Suc_lessI)
qed

lemma glob_alt_segment:
  assumes inv: "glob_inv pat s sx px (Some (i, t))" and alt: "glob_alt pat s (Some (i, t))"
  obtains k where "t < k" "k \<le> length s" "sx - t \<le> length s - k"
    "glob_spec (drop px pat) (drop (sx - t) (drop k s))"
proof -
  from alt obtain k where k: "t < k" "k \<le> length s"
    and m: "glob_spec (drop (Suc i) pat) (drop k s)" by auto
  let ?q = "take (sx - t) (drop (Suc i) pat)"
  have split: "drop (Suc i) pat = ?q @ drop px pat"
    using inv by (metis append_take_drop_id drop_drop glob_inv.simps(2) add.commute)
  have len: "length ?q = sx - t" using inv by auto
  have "star_free ?q" using inv by simp
  with m split have "length ?q \<le> length (drop k s)"
    and "glob_spec (drop px pat) (drop (length ?q) (drop k s))"
    by (metis glob_spec_literal)+
  with k len show thesis by (intro that [of k]) auto
qed

lemma glob_alt_exhausted:
  assumes "glob_inv pat s sx px star" and "\<not> sx < length s"
  shows "\<not> glob_alt pat s star"
proof (cases star)
  case None
  then show ?thesis by simp
next
  case (Some a)
  then obtain i t where st: "star = Some (i, t)" by (cases a) auto
  show ?thesis
  proof
    assume "glob_alt pat s star"
    with assms(1) st obtain k where "t < k" "k \<le> length s" "sx - t \<le> length s - k"
      by (metis glob_alt_segment)
    with assms st show False by auto
  qed
qed

lemma glob_alt_next_star:
  assumes inv: "glob_inv pat s sx px star" and star: "px < length pat" "pat ! px = CHR ''*''"
    and alt: "glob_alt pat s star"
  shows "\<exists>k. sx \<le> k \<and> k \<le> length s \<and> glob_spec (drop (Suc px) pat) (drop k s)"
proof (cases star)
  case None
  with alt show ?thesis by simp
next
  case (Some a)
  then obtain i t where st: "star = Some (i, t)" by (cases a) auto
  from glob_alt_segment [OF inv [unfolded st] alt [unfolded st]]
  obtain k where k: "t < k" "k \<le> length s" "sx - t \<le> length s - k"
    and m: "glob_spec (drop px pat) (drop (sx - t) (drop k s))" by blast
  have "drop px pat = CHR ''*'' # drop (Suc px) pat"
    using star by (metis Cons_nth_drop_Suc)
  with m obtain j where "j \<le> length s - (sx - t + k)"
    and "glob_spec (drop (Suc px) pat) (drop (j + (sx - t + k)) s)" by auto
  with k inv st show ?thesis
    by (intro exI [of _ "j + (sx - t + k)"]) auto
qed

lemma glob_loop_correct:
  assumes "star_free s" and "glob_inv pat s sx px star"
  shows "glob_loop pat s sx px star \<longleftrightarrow>
    glob_spec (drop px pat) (drop sx s) \<or> glob_alt pat s star"
  using assms
proof (induction pat s sx px star rule: glob_loop.induct)
  case (1 pat s sx px star)
  show ?case
  proof (cases "sx < length s")
    case False
    with "1.prems"(2) have "drop sx s = []" "px \<le> length pat" by (cases star; auto)+
    moreover have "glob_loop pat s sx px star \<longleftrightarrow> glob_tail (drop px pat) px = length pat"
      using False by (subst glob_loop.simps) simp
    ultimately show ?thesis
      using glob_tail_all_stars [of "drop px pat" px] glob_alt_exhausted [OF "1.prems"(2) False]
      by simp
  next
    case sx: True
    have dsx: "drop sx s = s ! sx # drop (Suc sx) s" using sx by (simp add: Cons_nth_drop_Suc)
    have nostar: "s ! sx \<noteq> CHR ''*''" using sx "1.prems"(1) by (metis nth_mem)
    have dpx: "px < length pat \<Longrightarrow> drop px pat = pat ! px # drop (Suc px) pat"
      by (simp add: Cons_nth_drop_Suc)
    consider (lit) "px < length pat" "pat ! px = s ! sx"
      | (star) "px < length pat" "pat ! px \<noteq> s ! sx" "pat ! px = CHR ''*''"
      | (miss) "\<not> (px < length pat \<and> pat ! px = s ! sx)"
               "\<not> (px < length pat \<and> pat ! px = CHR ''*'')" by blast
    then show ?thesis
    proof cases
      case lit
      have "glob_inv pat s (Suc sx) (Suc px) star"
        using "1.prems"(2) sx lit nostar
        by (cases star) (auto simp: Suc_diff_le take_Suc_conv_app_nth)
      with lit sx "1.IH"(1) "1.prems"(1) nostar show ?thesis
        by (subst glob_loop.simps) (simp add: dsx dpx)
    next
      case star
      have inv': "glob_inv pat s sx (Suc px) (Some (px, sx))"
        using "1.prems"(2) sx star by (cases star) auto
      have "glob_loop pat s sx px star \<longleftrightarrow>
          glob_spec (drop (Suc px) pat) (drop sx s) \<or> glob_alt pat s (Some (px, sx))"
        using star sx "1.IH"(2) [OF sx _ _ "1.prems"(1) inv']
        by (subst glob_loop.simps) auto
      also have "\<dots> \<longleftrightarrow>
          (\<exists>k. sx \<le> k \<and> k \<le> length s \<and> glob_spec (drop (Suc px) pat) (drop k s))"
        using sx by (auto simp: le_less)
      also have ex: "\<dots> \<longleftrightarrow> glob_spec (drop px pat) (drop sx s)"
        using star(1,3) sx by (simp only: dpx glob_spec_star less_imp_le)
      finally show ?thesis
        using glob_alt_next_star [OF "1.prems"(2) star(1,3)] ex by blast
    next
      case miss
      have nospec: "\<not> glob_spec (drop px pat) (drop sx s)"
        using miss dsx dpx by (cases "px < length pat") auto
      show ?thesis
      proof (cases star)
        case None
        with miss sx nospec show ?thesis by (subst glob_loop.simps) auto
      next
        case (Some a)
        then obtain i t where st: "star = Some (i, t)" by (cases a) auto
        have inv': "glob_inv pat s (Suc t) (Suc i) (Some (i, Suc t))"
          using "1.prems"(2) st sx by auto
        have "glob_loop pat s sx px star \<longleftrightarrow>
            glob_spec (drop (Suc i) pat) (drop (Suc t) s) \<or> glob_alt pat s (Some (i, Suc t))"
          using miss sx st "1.IH"(3) [OF sx miss st refl "1.prems"(1) inv']
          by (subst glob_loop.simps) auto
        also have "\<dots> \<longleftrightarrow> glob_alt pat s star"
          using ex_above_split [of t "length s" "\<lambda>k. glob_spec (drop (Suc i) pat) (drop k s)"]
            st "1.prems"(2) sx by simp
        finally show ?thesis using nospec by blast
      qed
    qed
  qed
qed

lemma globMatch_spec: "star_free s \<Longrightarrow> globMatch pat s \<longleftrightarrow> glob_spec pat s"
  by (simp add: globMatch_def glob_loop_correct)

section \<open>Properties\<close>

text \<open>
  C32: for every pattern and every name without a star character, the two-pointer loop of
  \<open>globMatch\<close> decides exactly the declarative glob relation (each star stands for any run of
  characters, the empty one included).
\<close>

theorem globMatch_correct: "star_free name \<Longrightarrow> globMatch pat name \<longleftrightarrow> glob_spec pat name"
  by (rule globMatch_spec)

theorem globMatch_correct_witness:
  "star_free ''maven-central'' \<and> globMatch ''mav*-*l'' ''maven-central'' \<and>
   glob_spec ''mav*-*l'' ''maven-central''"
proof -
  have h: "star_free ''maven-central''" by simp
  have m: "globMatch ''mav*-*l'' ''maven-central''" by code_simp
  show ?thesis using h m globMatch_correct [OF h, of "''mav*-*l''"] by blast
qed

text \<open>
  the restriction to names without a star is needed. The loop compares pattern and name
  byte by byte before it looks for a wildcard, so a star in the name uses up the pattern's star
  as a literal: the pattern \<open>a*\<close> does not match the name \<open>a*b\<close>.
\<close>

theorem globMatch_star_in_name:
  "\<not> globMatch ''a*'' ''a*b'' \<and> glob_spec ''a*'' ''a*b''"
proof
  show "\<not> globMatch ''a*'' ''a*b''" by code_simp
  show "glob_spec ''a*'' ''a*b''"
    by (simp, rule exI [of _ 2], simp add: numeral_2_eq_2)
qed

lemma matchGlob_empty: "matchGlob pat [] \<longleftrightarrow> pat = ''*''"
  by (simp add: matchGlob_def)

lemma matchGlob_star: "matchGlob ''*'' name"
  by (simp add: matchGlob_def)

lemma actionsContain_admin: "actionsContain csv ActionAdmin \<Longrightarrow> actionsContain csv action"
  by (auto simp: actionsContain_def list_ex_iff)

lemma actionListContains_admin: "actionListContains l ActionAdmin \<Longrightarrow> actionListContains l action"
  by (auto simp: actionListContains_def list_ex_iff)

lemma rolesAllow_admin: "rolesAllow p [] ActionAdmin \<Longrightarrow> rolesAllow p repo action"
  by (auto simp: rolesAllow_def list_ex_iff matchGlob_empty
      intro!: bexI matchGlob_star intro: actionsContain_admin)

lemma scopesAllow_admin: "scopesAllow sc [] ActionAdmin \<Longrightarrow> scopesAllow sc repo action"
  by (auto simp: scopesAllow_def list_ex_iff matchGlob_empty
      intro!: bexI matchGlob_star intro: actionListContains_admin)

text \<open>
  a global administrator may perform every action on every repository, whether it
  authenticated directly or with a token whose scopes carry admin on all repositories.
\<close>

theorem IsAdmin_implies_all: "IsAdmin p \<Longrightarrow> Can p repo action"
  by (auto simp: IsAdmin_def Can_def intro: rolesAllow_admin scopesAllow_admin split: if_splits)

definition admin_perm :: permission where
  "admin_perm = \<lparr>p_id = 1, p_role_id = 1, p_repo_pattern = ''*'', p_actions = ''admin'',
                 p_managed = False\<rparr>"

definition admin_principal :: principal where
  "admin_principal = \<lparr>pr_username = ''admin'', pr_source = ''local'', pr_perms = [admin_perm],
                      pr_via_token = False, pr_token_scopes = []\<rparr>"

lemma admin_principal_IsAdmin: "IsAdmin admin_principal"
  by code_simp

theorem IsAdmin_implies_all_witness:
  "IsAdmin admin_principal \<and> Can admin_principal ''npmjs'' ''delete''"
  using admin_principal_IsAdmin IsAdmin_implies_all [OF admin_principal_IsAdmin] by blast

text \<open>
  authenticating with a token never widens access. Whatever a token principal may do, the
  same user may do through roles alone, and a token that lists scopes only allows an action
  that one scope grants on a pattern matching the repository.
\<close>

theorem Can_token_restricts:
  assumes "Can p repo action"
  shows "Can (p\<lparr>pr_via_token := False\<rparr>) repo action \<and>
    (pr_via_token p \<and> pr_token_scopes p \<noteq> [] \<longrightarrow>
      (\<exists>sc \<in> set (pr_token_scopes p). matchGlob (s_repo_pattern sc) repo \<and>
        (ActionAdmin \<in> set (s_actions sc) \<or> action \<in> set (s_actions sc))))"
  using assms
  by (auto simp: Can_def rolesAllow_def scopesAllow_def actionListContains_def list_ex_iff
      split: if_splits)

definition ci_token :: principal where
  "ci_token = \<lparr>pr_username = ''ci'', pr_source = ''local'',
     pr_perms = [admin_perm], pr_via_token = True,
     pr_token_scopes = [\<lparr>s_repo_pattern = ''npm-*'', s_actions = [''read'', ''write'']\<rparr>]\<rparr>"

theorem Can_token_restricts_witness:
  "Can ci_token ''npm-hosted'' ''write'' \<and>
   Can (ci_token\<lparr>pr_via_token := False\<rparr>) ''npm-hosted'' ''write''"
proof -
  have h: "Can ci_token ''npm-hosted'' ''write''" by code_simp
  show ?thesis using h Can_token_restricts [OF h] by blast
qed

text \<open>
  the coarse approver check in front of the approvals API is complete: a principal that may
  approve on some repository passes \<open>CanApproveAny\<close>, so the middleware never turns away a
  principal the per-repository check would admit.
\<close>

theorem CanApproveAny_complete: "Can p repo ActionApprove \<Longrightarrow> CanApproveAny p"
  by (auto simp: Can_def CanApproveAny_def rolesAllow_def scopesAllow_def list_ex_iff
      split: if_splits)

theorem CanApproveAny_complete_witness:
  "Can admin_principal ''npmjs'' ActionApprove \<and> CanApproveAny admin_principal"
proof -
  have h: "Can admin_principal ''npmjs'' ActionApprove" by code_simp
  show ?thesis using h CanApproveAny_complete [OF h] by blast
qed

end
