(* ===== verification/Http.thy ===== *)
theory Http
  imports Strconv Authz
begin

text \<open>
  The part of \<open>net/http\<close> the handlers use. A request is a record of what the handlers read from it;
  a handler returns the operations it performs on its response writer in order, so that the same
  handler can run against the network writer, the group's buffering writer and the audit log's
  status recorder. \<open>net_response\<close> is what the client of the network writer sees.
\<close>

section \<open>Writers\<close>

datatype wop = SetHeader string string | DelHeader string | WriteHeader int | WriteBytes bytes

type_synonym headers = "(string \<times> string) list"

definition header_get :: "headers \<Rightarrow> string \<Rightarrow> string" where
  "header_get hs k = (case map_of hs k of None \<Rightarrow> [] | Some v \<Rightarrow> v)"

definition header_set :: "string \<Rightarrow> string \<Rightarrow> headers \<Rightarrow> headers" where
  "header_set k v hs = (k, v) # filter (\<lambda>h. fst h \<noteq> k) hs"

definition header_del :: "string \<Rightarrow> headers \<Rightarrow> headers" where
  "header_del k hs = filter (\<lambda>h. fst h \<noteq> k) hs"

text \<open>The response on the wire: the headers are those set when the status is written, and a body
  without a status is a 200.\<close>

record response =
  rs_status :: "int option"
  rs_headers :: headers
  rs_body :: bytes

definition fresh_response :: response where
  "fresh_response = \<lparr>rs_status = None, rs_headers = [], rs_body = []\<rparr>"

fun net_op :: "wop \<Rightarrow> response \<times> headers \<Rightarrow> response \<times> headers" where
  "net_op (SetHeader k v) (rs, hs) = (rs, header_set k v hs)"
| "net_op (DelHeader k) (rs, hs) = (rs, header_del k hs)"
| "net_op (WriteHeader code) (rs, hs) =
     (if rs_status rs = None then (rs\<lparr>rs_status := Some code, rs_headers := hs\<rparr>, hs) else (rs, hs))"
| "net_op (WriteBytes b) (rs, hs) =
     (let rs' = (if rs_status rs = None then rs\<lparr>rs_status := Some 200, rs_headers := hs\<rparr> else rs)
      in (rs'\<lparr>rs_body := rs_body rs' @ b\<rparr>, hs))"

definition net_run :: "wop list \<Rightarrow> response \<times> headers \<Rightarrow> response \<times> headers" where
  "net_run ops st = fold net_op ops st"

text \<open>A handler that returns without writing anything answers 200.\<close>

definition net_response :: "wop list \<Rightarrow> response" where
  "net_response ops =
     (let (rs, hs) = net_run ops (fresh_response, [])
      in if rs_status rs = None then rs\<lparr>rs_status := Some 200, rs_headers := hs\<rparr> else rs)"

definition status_of :: "wop list \<Rightarrow> int" where
  "status_of ops = the (rs_status (net_response ops))"

text \<open>\<^verbatim>\<open>http.Error\<close> and \<^verbatim>\<open>http.NotFound\<close>.\<close>

definition http_Error :: "string \<Rightarrow> int \<Rightarrow> wop list" where
  "http_Error msg code =
     [DelHeader ''Content-Length'', SetHeader ''Content-Type'' ''text/plain; charset=utf-8'',
      SetHeader ''X-Content-Type-Options'' ''nosniff'', WriteHeader code,
      WriteBytes (msg @ [CHR 0x0A])]"

definition http_NotFound :: "wop list" where
  "http_NotFound = http_Error ''404 page not found'' 404"

section \<open>Statuses of a sequence of writes\<close>

text \<open>The first status or body write decides.\<close>

fun first_status :: "wop list \<Rightarrow> int option" where
  "first_status [] = None"
| "first_status (SetHeader k v # ops) = first_status ops"
| "first_status (DelHeader k # ops) = first_status ops"
| "first_status (WriteHeader c # ops) = Some c"
| "first_status (WriteBytes b # ops) = Some 200"

lemma first_status_append:
  "first_status (xs @ ys) = (case first_status xs of None \<Rightarrow> first_status ys | Some c \<Rightarrow> Some c)"
  by (induction xs rule: first_status.induct) auto

lemma net_run_decided: "rs_status rs = Some c \<Longrightarrow> rs_status (fst (net_run ops (rs, hs))) = Some c"
proof (induction ops arbitrary: rs hs)
  case (Cons x ops)
  then show ?case by (cases x) (auto simp: net_run_def Let_def)
qed (simp add: net_run_def)

lemma net_run_status:
  "rs_status rs = None \<Longrightarrow> rs_status (fst (net_run ops (rs, hs))) = first_status ops"
proof (induction ops arbitrary: rs hs)
  case (Cons x ops)
  then show ?case
    using net_run_decided [of _ _ ops] by (cases x) (auto simp: net_run_def Let_def)
qed (simp add: net_run_def)

lemma status_of_first:
  "status_of ops = (case first_status ops of None \<Rightarrow> 200 | Some c \<Rightarrow> c)"
  using net_run_status [of fresh_response ops "[]"]
  by (auto simp: status_of_def net_response_def fresh_response_def split: prod.splits option.splits)

lemma status_of_Error [simp]: "status_of (http_Error msg code) = code"
  by (simp add: status_of_first http_Error_def)

lemma status_of_NotFound [simp]: "status_of http_NotFound = 404"
  by (simp add: http_NotFound_def)

section \<open>Requests\<close>

text \<open>
  \<open>rq_repo\<close> and \<open>rq_wild\<close> are the router's URL parameters \<open>repo\<close> and \<open>*\<close>; \<open>rq_via_group\<close> and
  \<open>rq_group_name\<close> are the context marks of a request routed through a group (the empty name for none);
  \<open>rq_principal\<close> what the authentication middleware put into the context; \<open>rq_host\<close> and \<open>rq_tls\<close> the
  request's \<^verbatim>\<open>Host\<close> and whether it came over TLS.
\<close>

record request =
  rq_method :: string
  rq_repo :: string
  rq_wild :: string
  rq_headers :: headers
  rq_remote_addr :: string
  rq_via_group :: bool
  rq_group_name :: string
  rq_principal :: "principal option"
  rq_body :: "bytes \<times> bool"
  rq_host :: string
  rq_tls :: bool

abbreviation MethodGet :: string where "MethodGet \<equiv> ''GET''"
abbreviation MethodHead :: string where "MethodHead \<equiv> ''HEAD''"
abbreviation MethodPut :: string where "MethodPut \<equiv> ''PUT''"
abbreviation MethodPost :: string where "MethodPost \<equiv> ''POST''"
abbreviation MethodDelete :: string where "MethodDelete \<equiv> ''DELETE''"

end
