(* ===== verification/Netip.thy ===== *)
theory Netip
  imports Strconv
begin

text \<open>
  The part of the Go package \<open>net/netip\<close> the source calls: addresses, prefixes, their parsers,
  and the address classes the SSRF guard of \<^verbatim>\<open>internal/repo/safedial.go\<close> tests. An address is a
  number of 32 or 128 bits, kept as an \<open>int\<close>; an IPv6 address also carries its zone (empty when it has none).
\<close>

section \<open>Addresses\<close>

datatype ip_addr = V4 int | V6 int string

definition hex_val :: "char \<Rightarrow> int option" where
  "hex_val c = (let n = of_char c :: int in
     if 48 \<le> n \<and> n \<le> 57 then Some (n - 48)
     else if 97 \<le> n \<and> n \<le> 102 then Some (n - 87)
     else if 65 \<le> n \<and> n \<le> 70 then Some (n - 55) else None)"

definition hex_group :: "string \<Rightarrow> int" where
  "hex_group s = foldl (\<lambda>n c. n * 16 + the (hex_val c)) 0 s"

definition ipv4_field :: "string \<Rightarrow> int option" where
  "ipv4_field f =
     (if f \<noteq> [] \<and> list_all is_digit f \<and> (length f = 1 \<or> hd f \<noteq> CHR ''0'') \<and> dec_val f \<le> 255
      then Some (dec_val f) else None)"

definition parse_ipv4 :: "string \<Rightarrow> int option" where
  "parse_ipv4 s =
     (case map ipv4_field (split_on (CHR ''.'') s) of
        [Some a, Some b, Some c, Some d] \<Rightarrow> Some (((a * 256 + b) * 256 + c) * 256 + d)
      | _ \<Rightarrow> None)"

text \<open>
  The loop of the IPv6 parser: the rest of the text, the 16-bit groups read so far, and where
  the ellipsis was. It stops with the unread text after eight groups.
\<close>

function v6_loop :: "string \<Rightarrow> int list \<Rightarrow> nat option \<Rightarrow> (string \<times> int list \<times> nat option) option" where
  "v6_loop s gs ell =
     (if 8 \<le> length gs then Some (s, gs, ell)
      else let h = takeWhile (\<lambda>c. hex_val c \<noteq> None) s;
               rest = drop (length h) s
           in if h = [] \<or> 4 < length h then None
              else if rest \<noteq> [] \<and> hd rest = CHR ''.'' then
                (if ell = None \<and> length gs \<noteq> 6 then None
                 else if 6 < length gs then None
                 else case parse_ipv4 s of
                        None \<Rightarrow> None
                      | Some v \<Rightarrow> Some ([], gs @ [v div 65536, v mod 65536], ell))
              else if rest = [] then Some ([], gs @ [hex_group h], ell)
              else if hd rest \<noteq> CHR '':'' \<or> length rest = 1 then None
              else if hd (tl rest) = CHR '':'' then
                (if ell \<noteq> None then None
                 else if tl (tl rest) = [] then Some ([], gs @ [hex_group h], Some (Suc (length gs)))
                 else v6_loop (tl (tl rest)) (gs @ [hex_group h]) (Some (Suc (length gs))))
              else v6_loop (tl rest) (gs @ [hex_group h]) ell)"
  by pat_completeness auto
termination
  by (relation "measure (\<lambda>(s, gs, ell). 8 - length gs)") auto

declare v6_loop.simps [simp del]

definition groups_val :: "int list \<Rightarrow> int" where
  "groups_val gs = foldl (\<lambda>n g. n * 65536 + g) 0 gs"

definition v6_finish :: "(string \<times> int list \<times> nat option) \<Rightarrow> int option" where
  "v6_finish = (\<lambda>(s, gs, ell).
     if s \<noteq> [] then None
     else if length gs < 8 then
       (case ell of None \<Rightarrow> None
        | Some k \<Rightarrow> Some (groups_val (take k gs @ replicate (8 - length gs) 0 @ drop k gs)))
     else if ell \<noteq> None then None else Some (groups_val gs))"

definition parse_ipv6 :: "string \<Rightarrow> ip_addr option" where
  "parse_ipv6 input =
     (let (s, zone) = (case cut_at (CHR ''%'') input of
                         None \<Rightarrow> (input, None) | Some (a, z) \<Rightarrow> (a, Some z))
      in if zone = Some [] then None
         else let z = (case zone of None \<Rightarrow> [] | Some z \<Rightarrow> z)
              in if has_prefix s ''::'' then
                   (if length s = 2 then Some (V6 0 z)
                    else map_option (\<lambda>n. V6 n z)
                      (Option.bind (v6_loop (drop 2 s) [] (Some 0)) v6_finish))
                 else map_option (\<lambda>n. V6 n z) (Option.bind (v6_loop s [] None) v6_finish))"

text \<open>\<^verbatim>\<open>ParseAddr\<close>: the first dot, colon or percent sign decides the family.\<close>

definition ParseAddr :: "string \<Rightarrow> ip_addr option" where
  "ParseAddr s =
     (case dropWhile (\<lambda>c. c \<notin> {CHR ''.'', CHR '':'', CHR ''%''}) s of
        [] \<Rightarrow> None
      | c # _ \<Rightarrow> if c = CHR ''.'' then map_option V4 (parse_ipv4 s)
                 else if c = CHR '':'' then parse_ipv6 s else None)"

text \<open>An IPv4-mapped IPv6 address becomes the IPv4 address.\<close>

fun Unmap :: "ip_addr \<Rightarrow> ip_addr" where
  "Unmap (V4 n) = V4 n"
| "Unmap (V6 n z) = (if n div 2 ^ 32 = 65535 then V4 (n mod 2 ^ 32) else V6 n z)"

section \<open>Prefixes\<close>

fun bit_len :: "ip_addr \<Rightarrow> nat" where
  "bit_len (V4 n) = 32"
| "bit_len (V6 n z) = 128"

fun addr_val :: "ip_addr \<Rightarrow> int" where
  "addr_val (V4 n) = n"
| "addr_val (V6 n z) = n"

fun has_zone :: "ip_addr \<Rightarrow> bool" where
  "has_zone (V4 n) = False"
| "has_zone (V6 n z) = (z \<noteq> [])"

text \<open>The text before and after the last slash.\<close>

definition cut_last_slash :: "string \<Rightarrow> (string \<times> string) option" where
  "cut_last_slash s =
     map_option (\<lambda>(a, b). (rev b, rev a)) (cut_at (CHR ''/'') (rev s))"

definition ParsePrefix :: "string \<Rightarrow> (ip_addr \<times> nat) option" where
  "ParsePrefix s =
     (case cut_last_slash s of
        None \<Rightarrow> None
      | Some (a, bits) \<Rightarrow>
          (case ParseAddr a of
             None \<Rightarrow> None
           | Some ip \<Rightarrow>
               if has_zone ip then None
               else if 1 < length bits \<and> (hd bits = CHR ''0'' \<or> \<not> is_digit (hd bits)) then None
               else if bits = [] \<or> \<not> list_all is_digit bits then None
               else if int (bit_len ip) < dec_val bits then None
               else Some (ip, nat (dec_val bits))))"

definition prefix_contains :: "ip_addr \<times> nat \<Rightarrow> ip_addr \<Rightarrow> bool" where
  "prefix_contains pfx ip = (case pfx of (pip, bits) \<Rightarrow>
     \<not> has_zone ip \<and> bit_len pip = bit_len ip \<and>
     addr_val pip div 2 ^ (bit_len ip - bits) = addr_val ip div 2 ^ (bit_len ip - bits))"

section \<open>Address classes\<close>

fun IsLoopback :: "ip_addr \<Rightarrow> bool" where
  "IsLoopback (V4 n) = (n div 2 ^ 24 = 127)"
| "IsLoopback (V6 n z) = (n = 1)"

fun IsPrivate :: "ip_addr \<Rightarrow> bool" where
  "IsPrivate (V4 n) =
     (n div 2 ^ 24 = 10 \<or> n div 2 ^ 20 = 172 * 16 + 1 \<or> n div 2 ^ 16 = 192 * 256 + 168)"
| "IsPrivate (V6 n z) = (n div 2 ^ 121 = 126)"

fun IsUnspecified :: "ip_addr \<Rightarrow> bool" where
  "IsUnspecified (V4 n) = (n = 0)"
| "IsUnspecified (V6 n z) = (n = 0 \<and> z = [])"

fun IsLinkLocalUnicast :: "ip_addr \<Rightarrow> bool" where
  "IsLinkLocalUnicast (V4 n) = (n div 2 ^ 16 = 169 * 256 + 254)"
| "IsLinkLocalUnicast (V6 n z) = (n div 2 ^ 118 = 1018)"

fun IsMulticast :: "ip_addr \<Rightarrow> bool" where
  "IsMulticast (V4 n) = (n div 2 ^ 28 = 14)"
| "IsMulticast (V6 n z) = (n div 2 ^ 120 = 255)"

fun IsLinkLocalMulticast :: "ip_addr \<Rightarrow> bool" where
  "IsLinkLocalMulticast (V4 n) = (n div 2 ^ 8 = 224 * 65536)"
| "IsLinkLocalMulticast (V6 n z) = (n div 2 ^ 120 = 255 \<and> (n div 2 ^ 112) mod 16 = 2)"

end
