(* ===== verification/Path_Match.thy ===== *)
theory Path_Match
  imports Prelude
begin

text \<open>
  Go's \<^verbatim>\<open>path.Match\<close>, which the approval gate and the validation of repository configurations call
  on the \<open>auto_approve\<close> patterns: the chunk scanner, the chunk matcher with character classes
  and escapes, and the outer loop. Runes are decoded from UTF-8 bytes.
\<close>

section \<open>Runes\<close>

definition cont_byte :: "nat \<Rightarrow> bool" where
  "cont_byte b \<longleftrightarrow> 128 \<le> b \<and> b \<le> 191"

text \<open>\<^verbatim>\<open>utf8.DecodeRuneInString\<close> on a non-empty string: the rune and its width; an ill-formed
  sequence gives the replacement rune 65533 and width 1.\<close>

definition decode_rune :: "string \<Rightarrow> nat \<times> nat" where
  "decode_rune s =
     (case map of_char (take 4 s) of
        [] \<Rightarrow> (65533, 0)
      | a # bs \<Rightarrow>
          if a < 128 then (a, 1)
          else if 194 \<le> a \<and> a \<le> 223 then
            (case bs of
               b # _ \<Rightarrow> if cont_byte b then ((a - 192) * 64 + (b - 128), 2) else (65533, 1)
             | [] \<Rightarrow> (65533, 1))
          else if 224 \<le> a \<and> a \<le> 239 then
            (case bs of
               b # c # _ \<Rightarrow>
                 if cont_byte b \<and> cont_byte c \<and> (a = 224 \<longrightarrow> 160 \<le> b) \<and> (a = 237 \<longrightarrow> b \<le> 159)
                 then ((a - 224) * 4096 + (b - 128) * 64 + (c - 128), 3) else (65533, 1)
             | _ \<Rightarrow> (65533, 1))
          else if 240 \<le> a \<and> a \<le> 244 then
            (case bs of
               b # c # d # _ \<Rightarrow>
                 if cont_byte b \<and> cont_byte c \<and> cont_byte d \<and> (a = 240 \<longrightarrow> 144 \<le> b) \<and>
                    (a = 244 \<longrightarrow> b \<le> 143)
                 then ((a - 240) * 262144 + (b - 128) * 4096 + (c - 128) * 64 + (d - 128), 4)
                 else (65533, 1)
             | _ \<Rightarrow> (65533, 1))
          else (65533, 1))"

lemma decode_rune_width: "s \<noteq> [] \<Longrightarrow> 0 < snd (decode_rune s)"
  by (cases s) (auto simp: decode_rune_def split: list.splits)

section \<open>Chunks\<close>

text \<open>\<open>getEsc\<close>: a possibly escaped rune of a character class; \<open>None\<close> is \<open>ErrBadPattern\<close>.\<close>

definition getEsc :: "string \<Rightarrow> (nat \<times> string) option" where
  "getEsc chunk =
     (case chunk of
        [] \<Rightarrow> None
      | c # rest \<Rightarrow>
          if c = CHR ''-'' \<or> c = CHR '']'' then None
          else let chunk' = (if c = CHR 0x5C then rest else chunk)
               in if chunk' = [] then None
                  else let (r, n) = decode_rune chunk'; nchunk = drop n chunk'
                       in if r = 65533 \<and> n = 1 \<or> nchunk = [] then None else Some (r, nchunk))"

lemma getEsc_shorter: "getEsc chunk = Some (r, rest) \<Longrightarrow> length rest < length chunk"
  using decode_rune_width [of chunk] decode_rune_width [of "tl chunk"]
  by (auto simp: getEsc_def Let_def split: list.splits if_splits prod.splits)

text \<open>The ranges of a character class, after the opening bracket and a caret.\<close>

function class_ranges :: "nat \<Rightarrow> nat \<Rightarrow> bool \<Rightarrow> string \<Rightarrow> (bool \<times> string) option" where
  "class_ranges r nrange found chunk =
     (if chunk \<noteq> [] \<and> hd chunk = CHR '']'' \<and> 0 < nrange then Some (found, tl chunk)
      else case getEsc chunk of
             None \<Rightarrow> None
           | Some (lo, c1) \<Rightarrow>
               if hd c1 = CHR ''-'' then
                 (case getEsc (tl c1) of
                    None \<Rightarrow> None
                  | Some (hi, c2) \<Rightarrow> class_ranges r (Suc nrange) (found \<or> lo \<le> r \<and> r \<le> hi) c2)
               else class_ranges r (Suc nrange) (found \<or> lo = r) c1)"
  by pat_completeness auto
termination
proof (relation "measure (\<lambda>(r, k, f, chunk). length chunk)", goal_cases)
  case (2 r nrange found chunk x lo c1 y hi c2)
  from 2(2,3) have "length c1 < length chunk" by (metis getEsc_shorter)
  moreover from 2(5,6) have "length c2 < length (tl c1)" by (metis getEsc_shorter)
  ultimately show ?case by simp
qed (use getEsc_shorter in auto)

declare class_ranges.simps [simp del]

lemma class_ranges_shorter:
  "class_ranges r k f chunk = Some (g, rest) \<Longrightarrow> length rest < length chunk"
proof (induction r k f chunk rule: class_ranges.induct)
  case (1 r k f chunk)
  show ?case
  proof (cases "chunk \<noteq> [] \<and> hd chunk = CHR '']'' \<and> 0 < k")
    case True
    with 1(3) show ?thesis by (cases chunk) (auto simp: class_ranges.simps)
  next
    case False
    with 1(3) obtain lo c1 where g: "getEsc chunk = Some (lo, c1)"
      by (auto simp: class_ranges.simps split: option.splits)
    note s1 = getEsc_shorter [OF g]
    show ?thesis
    proof (cases "hd c1 = CHR ''-''")
      case True
      with False 1(3) g obtain hi c2 where h: "getEsc (tl c1) = Some (hi, c2)"
        and eq: "class_ranges r (Suc k) (f \<or> lo \<le> r \<and> r \<le> hi) c2 = Some (g, rest)"
        by (subst (asm) class_ranges.simps) (auto split: option.splits)
      from 1(1) [OF False g refl True h refl eq] have "length rest < length c2" .
      with s1 getEsc_shorter [OF h] show ?thesis by simp
    next
      case nd: False
      with False 1(3) g have "class_ranges r (Suc k) (f \<or> lo = r) c1 = Some (g, rest)"
        by (subst (asm) class_ranges.simps) auto
      from 1(2) [OF False g refl nd this] s1 show ?thesis by simp
    qed
  qed
qed

text \<open>
  \<open>matchChunk\<close>: \<open>None\<close> is a malformed pattern, \<open>Some None\<close> a failed match, \<open>Some (Some rest)\<close> a
  match that leaves \<open>rest\<close> of the name. Once \<open>failed\<close> is set the name is no longer read.
\<close>

function matchChunk :: "bool \<Rightarrow> string \<Rightarrow> string \<Rightarrow> string option option" where
  "matchChunk failed chunk s =
     (if chunk = [] then Some (if failed then None else Some s)
      else let fl = (failed \<or> s = []) in
        if hd chunk = CHR ''['' then
          (let (r, n) = (if fl then (0, 0) else decode_rune s);
               c1 = tl chunk;
               negated = (c1 \<noteq> [] \<and> hd c1 = CHR ''^'');
               c2 = (if negated then tl c1 else c1)
           in case class_ranges r 0 False c2 of
                None \<Rightarrow> None
              | Some (found, c3) \<Rightarrow> matchChunk (fl \<or> found = negated) c3 (drop n s))
        else if hd chunk = CHR ''?'' then
          (if fl then matchChunk True (tl chunk) s
           else matchChunk (hd s = CHR ''/'') (tl chunk) (drop (snd (decode_rune s)) s))
        else if hd chunk = CHR 0x5C \<and> tl chunk = [] then None
        else let c1 = (if hd chunk = CHR 0x5C then tl chunk else chunk)
             in if fl then matchChunk True (tl c1) s
                else matchChunk (hd c1 \<noteq> hd s) (tl c1) (tl s))"
  by pat_completeness auto
termination
proof (relation "measure (\<lambda>(f, chunk, s). length chunk)", goal_cases)
  case (2 failed chunk s fl x r n c1 neg c2 y found c3)
  from 2(9,10) have "length c3 < length c2" by (metis class_ranges_shorter)
  moreover from 2(8) have "length c2 \<le> length c1" by simp
  moreover from 2(1,6) have "length c1 < length chunk" by (cases chunk) auto
  ultimately show ?case by simp
qed (auto simp: neq_Nil_conv split: if_splits)

declare matchChunk.simps [simp del]

section \<open>The pattern\<close>

text \<open>The end of the chunk: the first star outside a bracket.\<close>

fun scan_len :: "bool \<Rightarrow> string \<Rightarrow> nat" where
  "scan_len inr [] = 0"
| "scan_len inr (c # cs) =
     (if c = CHR 0x5C then (case cs of [] \<Rightarrow> 1 | d # ds \<Rightarrow> 2 + scan_len inr ds)
      else if c = CHR ''['' then Suc (scan_len True cs)
      else if c = CHR '']'' then Suc (scan_len False cs)
      else if c = CHR ''*'' \<and> \<not> inr then 0
      else Suc (scan_len inr cs))"

definition scanChunk :: "string \<Rightarrow> bool \<times> string \<times> string" where
  "scanChunk pat =
     (let p = dropWhile (\<lambda>c. c = CHR ''*'') pat; n = scan_len False p
      in (p \<noteq> pat, take n p, drop n p))"

lemma scan_len_pos: "p \<noteq> [] \<Longrightarrow> hd p \<noteq> CHR ''*'' \<Longrightarrow> 0 < scan_len b p"
  by (cases "(b, p)" rule: scan_len.cases) (auto split: list.splits)

lemma scanChunk_shorter: "pat \<noteq> [] \<Longrightarrow> length (snd (snd (scanChunk pat))) < length pat"
proof -
  assume ne: "pat \<noteq> []"
  let ?p = "dropWhile (\<lambda>c. c = CHR ''*'') pat"
  show ?thesis
  proof (cases "?p = []")
    case True
    show ?thesis unfolding scanChunk_def Let_def True using ne by simp
  next
    case False
    then have "hd ?p \<noteq> CHR ''*''" using hd_dropWhile by blast
    with False have "0 < scan_len False ?p" by (rule scan_len_pos)
    with False have "length (drop (scan_len False ?p) ?p) < length ?p" by (cases ?p) auto
    also have "\<dots> \<le> length pat" by (rule length_dropWhile_le)
    finally show ?thesis by (simp add: scanChunk_def Let_def)
  qed
qed

text \<open>After a mismatch the rest of the pattern is still checked for well-formedness.\<close>

function well_formed_rest :: "string \<Rightarrow> bool" where
  "well_formed_rest pat =
     (if pat = [] then True
      else let (star, chunk, rest) = scanChunk pat
           in matchChunk False chunk [] \<noteq> None \<and> well_formed_rest rest)"
  by pat_completeness auto
termination
  by (relation "measure length") (use scanChunk_shorter in \<open>auto simp: prod_eq_iff\<close>)

declare well_formed_rest.simps [simp del]

text \<open>The inner loop of a starred chunk: skip bytes that are not slashes.\<close>

fun skip_match :: "string \<Rightarrow> bool \<Rightarrow> string \<Rightarrow> string option option" where
  "skip_match chunk lastp [] = Some None"
| "skip_match chunk lastp (c # s) =
     (if c = CHR ''/'' then Some None
      else case matchChunk False chunk s of
             None \<Rightarrow> None
           | Some None \<Rightarrow> skip_match chunk lastp s
           | Some (Some t) \<Rightarrow>
               if lastp \<and> t \<noteq> [] then skip_match chunk lastp s else Some (Some t))"

text \<open>\<open>Some b\<close> is the verdict, \<open>None\<close> is \<open>ErrBadPattern\<close>.\<close>

function Match :: "string \<Rightarrow> string \<Rightarrow> bool option" where
  "Match pat name =
     (if pat = [] then Some (name = [])
      else let (star, chunk, rest) = scanChunk pat in
        if star \<and> chunk = [] then Some (CHR ''/'' \<notin> set name)
        else case matchChunk False chunk name of
               None \<Rightarrow> None
             | Some first \<Rightarrow>
                 (case (case first of
                          Some t \<Rightarrow> if t = [] \<or> rest \<noteq> [] then Some (Some t)
                                    else if star then skip_match chunk (rest = []) name
                                    else Some None
                        | None \<Rightarrow> if star then skip_match chunk (rest = []) name
                                  else Some None) of
                    None \<Rightarrow> None
                  | Some None \<Rightarrow> if well_formed_rest rest then Some False else None
                  | Some (Some t) \<Rightarrow> Match rest t))"
  by pat_completeness auto
termination
  by (relation "measure (\<lambda>(pat, name). length pat)") (use scanChunk_shorter in \<open>auto simp: prod_eq_iff\<close>)

declare Match.simps [simp del]

section \<open>Literal prefixes\<close>

text \<open>Patterns such as \<^verbatim>\<open>@company/*\<close>: plain characters and one star at the end.\<close>

definition literal :: "string \<Rightarrow> bool" where
  "literal p \<longleftrightarrow> list_all (\<lambda>c. c \<notin> set ''*?[]'' \<and> c \<noteq> CHR 0x5C) p"

lemma scan_len_literal: "literal p \<Longrightarrow> scan_len False (p @ CHR ''*'' # q) = length p"
  by (induction p) (auto simp: literal_def)

lemma scan_len_literal_end: "literal p \<Longrightarrow> scan_len False p = length p"
  by (induction p) (auto simp: literal_def)

lemma matchChunk_Nil: "matchChunk failed [] s = Some (if failed then None else Some s)"
  by (simp add: matchChunk.simps)

lemma matchChunk_plain:
  assumes "c \<notin> set ''?[''" and "c \<noteq> CHR 0x5C"
  shows "matchChunk failed (c # p) s =
    (if failed \<or> s = [] then matchChunk True p s else matchChunk (c \<noteq> hd s) p (tl s))"
  using assms by (subst matchChunk.simps) (simp add: Let_def)

lemma matchChunk_literal_failed: "literal p \<Longrightarrow> matchChunk True p s = Some None"
  by (induction p) (auto simp: literal_def matchChunk_Nil matchChunk_plain)

lemma matchChunk_literal:
  "literal p \<Longrightarrow> matchChunk False p s =
     Some (if has_prefix s p then Some (drop (length p) s) else None)"
proof (induction p arbitrary: s)
  case Nil
  then show ?case by (simp add: matchChunk_Nil has_prefix_def)
next
  case (Cons c p)
  then have l: "literal p" and c: "c \<notin> set ''?[''" "c \<noteq> CHR 0x5C"
    by (simp_all add: literal_def)
  have step: "matchChunk False (c # p) s =
      (if s = [] \<or> c \<noteq> hd s then Some None else matchChunk False p (tl s))"
    unfolding matchChunk_plain [OF c] by (simp add: matchChunk_literal_failed [OF l])
  show ?case
    unfolding step using Cons.IH [OF l, of "tl s"] by (cases s) (auto simp: has_prefix_def)
qed

lemma Match_star: "Match ''*'' name = Some (CHR ''/'' \<notin> set name)"
  by (simp add: Match.simps scanChunk_def)

lemma Match_literal_star:
  assumes "literal p" and "p \<noteq> []"
  shows "Match (p @ ''*'') name =
    Some (has_prefix name p \<and> CHR ''/'' \<notin> set (drop (length p) name))"
proof -
  have h: "hd p \<noteq> CHR ''*''" using assms by (cases p) (auto simp: literal_def)
  then have "dropWhile (\<lambda>c. c = CHR ''*'') (p @ ''*'') = p @ ''*''"
    using assms(2) by (cases p) auto
  then have sc: "scanChunk (p @ ''*'') = (False, p, ''*'')"
    using scan_len_literal [OF assms(1), of "[]"] by (simp add: scanChunk_def Let_def)
  have wf: "well_formed_rest ''*''"
    by (simp add: well_formed_rest.simps scanChunk_def matchChunk.simps)
  show ?thesis
    by (subst Match.simps) (simp add: sc matchChunk_literal [OF assms(1)] wf Match_star)
qed

end
