(* ===== verification/Repoconfig.thy ===== *)
theory Repoconfig
  imports Netip Path_Match
begin

text \<open>
  The per-repository configuration (\<^verbatim>\<open>internal/repoconfig/repoconfig.go\<close>): the nested structs, the
  defaults, the validation, the effective values of the optional fields, and the source-address
  access list.

  \<open>encoding/json\<close> is the parameter \<open>unmarshal raw c\<close>: the configuration \<open>c\<close> overwritten by the
  document \<open>raw\<close>, or \<open>None\<close> for a document it refuses. \<open>ParseDuration\<close> is inside it.
\<close>

section \<open>The structs\<close>

record cache_config =
  cc_enabled :: bool
  cc_artifact_ttl :: duration
  cc_metadata_ttl :: duration
  cc_negative_ttl :: duration
  cc_max_size_bytes :: int
  cc_eviction :: string

record age_policy_config =
  ag_enabled :: bool
  ag_min_age :: duration
  ag_max_age :: duration
  ag_action :: string

record approval_config =
  apc_enabled :: bool
  apc_mode :: string
  apc_auto_approve :: "string list"

record vuln_policy_config =
  vp_enabled :: bool
  vp_threshold :: string
  vp_action :: string
  vp_ignore :: "string list"
  vp_block_unscanned :: bool

record license_policy_config =
  lp_enabled :: bool
  lp_action :: string
  lp_deny :: "string list"
  lp_allow :: "string list"
  lp_block_unresolved :: bool

record ip_acl_config =
  ip_enabled :: bool
  ip_allow :: "string list"

record config =
  c_cache :: cache_config
  c_age_policy :: age_policy_config
  c_approval :: approval_config
  c_retention_idle_ttl :: duration
  c_vuln :: vuln_policy_config
  c_license :: license_policy_config
  c_group_members :: "string list"
  c_ip_acl :: ip_acl_config
  c_notify_receivers :: "string list"

abbreviation VulnActionBlock :: string where "VulnActionBlock \<equiv> ''block''"
abbreviation VulnActionWarn :: string where "VulnActionWarn \<equiv> ''warn''"
abbreviation VulnActionAudit :: string where "VulnActionAudit \<equiv> ''audit''"
abbreviation SeverityCritical :: string where "SeverityCritical \<equiv> ''critical''"
abbreviation SeverityHigh :: string where "SeverityHigh \<equiv> ''high''"
abbreviation SeverityMedium :: string where "SeverityMedium \<equiv> ''medium''"
abbreviation SeverityLow :: string where "SeverityLow \<equiv> ''low''"
abbreviation ModeEnforce :: string where "ModeEnforce \<equiv> ''enforce''"
abbreviation ModeAudit :: string where "ModeAudit \<equiv> ''audit''"
abbreviation ActionBlock :: string where "ActionBlock \<equiv> ''block''"
abbreviation ActionWarn :: string where "ActionWarn \<equiv> ''warn''"
abbreviation EvictionLRU :: string where "EvictionLRU \<equiv> ''lru''"

text \<open>\<open>EffectiveAction\<close> of the vulnerability and of the license policy, \<open>EffectiveThreshold\<close> and
  \<open>EffectiveMode\<close>.\<close>

definition vuln_EffectiveAction :: "vuln_policy_config \<Rightarrow> string" where
  "vuln_EffectiveAction v = (if vp_action v = [] then VulnActionAudit else vp_action v)"

definition EffectiveThreshold :: "vuln_policy_config \<Rightarrow> string" where
  "EffectiveThreshold v = (if vp_threshold v = [] then SeverityHigh else vp_threshold v)"

definition license_EffectiveAction :: "license_policy_config \<Rightarrow> string" where
  "license_EffectiveAction l = (if lp_action l = [] then VulnActionAudit else lp_action l)"

definition EffectiveMode :: "approval_config \<Rightarrow> string" where
  "EffectiveMode a = (if apc_mode a = [] then ModeEnforce else apc_mode a)"

definition Default :: config where
  "Default = \<lparr>
     c_cache = \<lparr>cc_enabled = True, cc_artifact_ttl = 0, cc_metadata_ttl = 15 * Minute,
                cc_negative_ttl = 5 * Minute, cc_max_size_bytes = 0, cc_eviction = EvictionLRU\<rparr>,
     c_age_policy = \<lparr>ag_enabled = False, ag_min_age = 0, ag_max_age = 0, ag_action = ActionBlock\<rparr>,
     c_approval = \<lparr>apc_enabled = False, apc_mode = [], apc_auto_approve = []\<rparr>,
     c_retention_idle_ttl = 0,
     c_vuln = \<lparr>vp_enabled = False, vp_threshold = [], vp_action = [], vp_ignore = [],
               vp_block_unscanned = False\<rparr>,
     c_license = \<lparr>lp_enabled = False, lp_action = [], lp_deny = [], lp_allow = [],
                  lp_block_unresolved = False\<rparr>,
     c_group_members = [],
     c_ip_acl = \<lparr>ip_enabled = False, ip_allow = []\<rparr>,
     c_notify_receivers = []\<rparr>"

section \<open>The access list\<close>

definition acl_entry_matches :: "ip_addr \<Rightarrow> string \<Rightarrow> bool" where
  "acl_entry_matches addr entry0 =
     (let entry = trim_space entry0 in
      if entry = [] then False
      else if contains entry ''/'' then
        (case ParsePrefix entry of None \<Rightarrow> False | Some pfx \<Rightarrow> prefix_contains pfx addr)
      else (case ParseAddr entry of None \<Rightarrow> False | Some got \<Rightarrow> Unmap got = addr))"

fun acl_loop :: "ip_addr \<Rightarrow> string list \<Rightarrow> bool" where
  "acl_loop addr [] = False"
| "acl_loop addr (e # es) = (if acl_entry_matches addr e then True else acl_loop addr es)"

definition Allowed :: "ip_acl_config \<Rightarrow> string \<Rightarrow> bool" where
  "Allowed a ip =
     (case ParseAddr ip of None \<Rightarrow> False | Some addr \<Rightarrow> acl_loop (Unmap addr) (ip_allow a))"

section \<open>Validation\<close>

datatype config_error =
    InvalidJSON | UnsupportedEviction string | NegativeMaxSize | NegativeIdleTTL
  | UnsupportedAgeAction string | UnsupportedMode string | InvalidPattern string
  | UnsupportedVulnAction string | UnsupportedThreshold string | UnsupportedLicenseAction string
  | InvalidACLEntry string

fun check_patterns :: "string list \<Rightarrow> config_error option" where
  "check_patterns [] = None"
| "check_patterns (p # ps) =
     (if Match p ''probe'' = None then Some (InvalidPattern p) else check_patterns ps)"

fun check_acl :: "string list \<Rightarrow> config_error option" where
  "check_acl [] = None"
| "check_acl (e # es) =
     (let entry = trim_space e in
      if entry = [] then check_acl es
      else if contains entry ''/'' then
        (if ParsePrefix entry = None then Some (InvalidACLEntry entry) else check_acl es)
      else if ParseAddr entry = None then Some (InvalidACLEntry entry) else check_acl es)"

text \<open>\<open>None\<close> is a nil error.\<close>

definition Validate :: "config \<Rightarrow> config_error option" where
  "Validate c =
     (if cc_eviction (c_cache c) \<noteq> [] \<and> cc_eviction (c_cache c) \<noteq> EvictionLRU
      then Some (UnsupportedEviction (cc_eviction (c_cache c)))
      else if cc_max_size_bytes (c_cache c) < 0 then Some NegativeMaxSize
      else if c_retention_idle_ttl c < 0 then Some NegativeIdleTTL
      else if ag_action (c_age_policy c) \<notin> set [[], ActionBlock, ActionWarn]
      then Some (UnsupportedAgeAction (ag_action (c_age_policy c)))
      else if apc_mode (c_approval c) \<notin> set [[], ModeEnforce, ModeAudit]
      then Some (UnsupportedMode (apc_mode (c_approval c)))
      else case check_patterns (apc_auto_approve (c_approval c)) of
             Some e \<Rightarrow> Some e
           | None \<Rightarrow>
      if vp_action (c_vuln c) \<notin> set [[], VulnActionBlock, VulnActionWarn, VulnActionAudit]
      then Some (UnsupportedVulnAction (vp_action (c_vuln c)))
      else if vp_threshold (c_vuln c) \<notin>
                set [[], SeverityCritical, SeverityHigh, SeverityMedium, SeverityLow]
      then Some (UnsupportedThreshold (vp_threshold (c_vuln c)))
      else if lp_action (c_license c) \<notin> set [[], VulnActionBlock, VulnActionWarn, VulnActionAudit]
      then Some (UnsupportedLicenseAction (lp_action (c_license c)))
      else check_acl (ip_allow (c_ip_acl c)))"

type_synonym unmarshal = "string \<Rightarrow> config \<Rightarrow> config option"

definition Parse :: "unmarshal \<Rightarrow> string \<Rightarrow> config_error + config" where
  "Parse unmarshal raw =
     (case (if trim_space raw \<noteq> [] \<and> raw \<noteq> ''{}'' then unmarshal raw Default else Some Default) of
        None \<Rightarrow> Inl InvalidJSON
      | Some c \<Rightarrow> (case Validate c of Some e \<Rightarrow> Inl e | None \<Rightarrow> Inr c))"

section \<open>What a parsed configuration satisfies\<close>

lemma acl_loop_iff: "acl_loop addr es \<longleftrightarrow> (\<exists>e \<in> set es. acl_entry_matches addr e)"
  by (induction es) auto

lemma check_patterns_None: "check_patterns ps = None \<longleftrightarrow> (\<forall>p \<in> set ps. Match p ''probe'' \<noteq> None)"
  by (induction ps) auto

definition acl_entry_ok :: "string \<Rightarrow> bool" where
  "acl_entry_ok e \<longleftrightarrow> trim_space e = [] \<or>
     (if contains (trim_space e) ''/'' then ParsePrefix (trim_space e) \<noteq> None
      else ParseAddr (trim_space e) \<noteq> None)"

lemma check_acl_None: "check_acl es = None \<longleftrightarrow> (\<forall>e \<in> set es. acl_entry_ok e)"
  by (induction es) (auto simp: acl_entry_ok_def Let_def)

lemma Validate_Default: "Validate Default = None"
  by (simp add: Validate_def Default_def)

lemma Parse_empty: "Parse unmarshal ''{}'' = Inr Default"
  by (simp add: Parse_def Validate_Default)

lemma Parse_Validate: "Parse unmarshal raw = Inr c \<Longrightarrow> Validate c = None"
  by (auto simp: Parse_def split: option.splits)

lemma Validate_modes:
  assumes "Validate c = None"
  shows "EffectiveMode (c_approval c) \<in> {ModeEnforce, ModeAudit}"
    and "vuln_EffectiveAction (c_vuln c) \<in> {VulnActionBlock, VulnActionWarn, VulnActionAudit}"
    and "license_EffectiveAction (c_license c) \<in> {VulnActionBlock, VulnActionWarn, VulnActionAudit}"
    and "EffectiveThreshold (c_vuln c) \<in>
      {SeverityCritical, SeverityHigh, SeverityMedium, SeverityLow}"
  using assms
  by (auto simp: Validate_def EffectiveMode_def vuln_EffectiveAction_def EffectiveThreshold_def
      license_EffectiveAction_def split: if_splits option.splits)

text \<open>
  A configuration that was stored and parses has only policy modes the gates know: the approval
  mode is enforce or audit, the vulnerability and license actions are block, warn or audit, the
  threshold is one of the four severities, every \<open>auto_approve\<close> pattern is well formed, and every
  non-blank access-list entry is an address or a prefix.
\<close>

theorem Parse_well_formed:
  assumes "Parse unmarshal raw = Inr c"
  shows "EffectiveMode (c_approval c) \<in> {ModeEnforce, ModeAudit} \<and>
    vuln_EffectiveAction (c_vuln c) \<in> {VulnActionBlock, VulnActionWarn, VulnActionAudit} \<and>
    license_EffectiveAction (c_license c) \<in> {VulnActionBlock, VulnActionWarn, VulnActionAudit} \<and>
    EffectiveThreshold (c_vuln c) \<in>
      {SeverityCritical, SeverityHigh, SeverityMedium, SeverityLow} \<and>
    0 \<le> c_retention_idle_ttl c \<and> 0 \<le> cc_max_size_bytes (c_cache c) \<and>
    (\<forall>p \<in> set (apc_auto_approve (c_approval c)). Match p ''probe'' \<noteq> None) \<and>
    (\<forall>e \<in> set (ip_allow (c_ip_acl c)). acl_entry_ok e)"
proof -
  have v: "Validate c = None" using assms by (rule Parse_Validate)
  then have "check_patterns (apc_auto_approve (c_approval c)) = None"
    and "check_acl (ip_allow (c_ip_acl c)) = None"
    and "0 \<le> c_retention_idle_ttl c" and "0 \<le> cc_max_size_bytes (c_cache c)"
    by (auto simp: Validate_def split: if_splits option.splits)
  then show ?thesis
    using Validate_modes [OF v] unfolding check_patterns_None check_acl_None by blast
qed

theorem Parse_well_formed_witness:
  "Parse (\<lambda>raw c. None) '' '' = Inr Default \<and> EffectiveMode (c_approval Default) = ModeEnforce"
proof -
  have p: "Parse (\<lambda>raw c. None) '' '' = Inr Default" by code_simp
  show ?thesis
    using Parse_well_formed [OF p] p by (simp add: Default_def EffectiveMode_def)
qed

section \<open>Addresses and the access list\<close>

lemma Unmap_not_mapped: "Unmap a = V6 n z \<Longrightarrow> n div 2 ^ 32 \<noteq> 65535"
  by (cases a) (auto split: if_splits)

text \<open>
  A prefix inside the IPv4-mapped range (such as \<open>::ffff:10.0.0.0/104\<close>) admits nobody: the
  client's address is unmapped before it is compared, the prefix is not. Every prefix of at least
  96 bits of the mapped range is affected.
\<close>

theorem mapped_prefix_admits_nobody:
  assumes "ParsePrefix (trim_space e) = Some (V6 n z, bits)"
    and "n div 2 ^ 32 = 65535" and "96 \<le> bits" and "bits \<le> 128"
    and "contains (trim_space e) ''/''" and "trim_space e \<noteq> []"
  shows "\<not> Allowed \<lparr>ip_enabled = True, ip_allow = [e]\<rparr> ip"
proof
  assume "Allowed \<lparr>ip_enabled = True, ip_allow = [e]\<rparr> ip"
  then obtain a where "acl_entry_matches (Unmap a) e"
    by (auto simp: Allowed_def split: option.splits if_splits)
  with assms(1,5,6) have pc: "prefix_contains (V6 n z, bits) (Unmap a)"
    by (simp add: acl_entry_matches_def)
  then obtain m z' where m: "Unmap a = V6 m z'"
    by (cases "Unmap a") (auto simp: prefix_contains_def)
  let ?k = "128 - bits"
  from pc m have eq: "n div 2 ^ ?k = m div 2 ^ ?k" by (simp add: prefix_contains_def)
  have split: "x div 2 ^ 32 = x div 2 ^ ?k div 2 ^ (32 - ?k)" for x :: int
    using assms(3) by (simp add: zdiv_zmult2_eq [symmetric] power_add [symmetric])
  have "m div 2 ^ 32 = n div 2 ^ 32" unfolding split [of m] split [of n] eq ..
  with assms(2) Unmap_not_mapped [OF m] show False by simp
qed

theorem mapped_prefix_admits_nobody_witness:
  "check_acl [''::ffff:10.0.0.0/104''] = None \<and>
   \<not> Allowed \<lparr>ip_enabled = True, ip_allow = [''::ffff:10.0.0.0/104'']\<rparr> ''10.1.2.3''"
proof -
  have t: "trim_space ''::ffff:10.0.0.0/104'' = ''::ffff:10.0.0.0/104''" by code_simp
  have p: "ParsePrefix ''::ffff:10.0.0.0/104'' = Some (V6 (0xFFFF0A000000) [], 104)" by code_simp
  have c: "contains ''::ffff:10.0.0.0/104'' ''/''" by code_simp
  have "\<not> Allowed \<lparr>ip_enabled = True, ip_allow = [''::ffff:10.0.0.0/104'']\<rparr> ''10.1.2.3''"
    by (rule mapped_prefix_admits_nobody [of _ "0xFFFF0A000000" "[]" 104])
      (simp_all only: t p c, simp_all)
  then show ?thesis by (simp add: t p c)
qed

end
