(* ===== verification/Cache_Policy.thy ===== *)
theory Cache_Policy
  imports Repoconfig
begin

text \<open>
  The small caches and policies of the repository engine: the expiring key set \<open>negCache\<close>
  (\<^verbatim>\<open>internal/repo/negcache.go\<close>), which is also the upstream cooldown and the suppression marks of the
  gates; the age policy (\<^verbatim>\<open>internal/repo/agepolicy.go\<close>); and the Retry-After arithmetic of
  \<^verbatim>\<open>internal/repo/engine.go\<close>.
\<close>

section \<open>Expiring keys\<close>

type_synonym negCache = "string \<Rightarrow> instant option"

definition newNegCache :: negCache where
  "newNegCache = (\<lambda>_. None)"

definition neg_has :: "instant \<Rightarrow> string \<Rightarrow> negCache \<Rightarrow> bool \<times> negCache" where
  "neg_has now key c =
     (case c key of
        None \<Rightarrow> (False, c)
      | Some exp \<Rightarrow> if exp < now then (False, c(key := None)) else (True, c))"

definition neg_remaining :: "instant \<Rightarrow> string \<Rightarrow> negCache \<Rightarrow> duration option \<times> negCache" where
  "neg_remaining now key c =
     (case c key of
        None \<Rightarrow> (None, c)
      | Some exp \<Rightarrow> let d = time_sub exp now
                    in if d \<le> 0 then (None, c(key := None)) else (Some d, c))"

definition neg_set :: "instant \<Rightarrow> string \<Rightarrow> duration \<Rightarrow> negCache \<Rightarrow> negCache" where
  "neg_set now key ttl c = (if ttl \<le> 0 then c else c(key \<mapsto> now + ttl))"

definition neg_clear :: "string \<Rightarrow> negCache \<Rightarrow> negCache" where
  "neg_clear key c = c(key := None)"

text \<open>
  The contract its clients rely on: a key is live exactly until its deadline, whatever is asked
  about it or done to other keys. \<open>live now key c\<close> is the deadline's verdict.
\<close>

locale expiring_keys =
  fixes has :: "instant \<Rightarrow> 'k \<Rightarrow> 'c \<Rightarrow> bool \<times> 'c"
    and add :: "instant \<Rightarrow> 'k \<Rightarrow> duration \<Rightarrow> 'c \<Rightarrow> 'c"
    and live :: "instant \<Rightarrow> 'k \<Rightarrow> 'c \<Rightarrow> bool"
  assumes has_live: "fst (has now k c) = live now k c"
    and has_keeps: "now \<le> t \<Longrightarrow> live t j (snd (has now k c)) = live t j c"
    and add_live: "0 < ttl \<Longrightarrow> live t k (add now k ttl c) \<longleftrightarrow> t \<le> now + ttl"
    and add_other: "j \<noteq> k \<Longrightarrow> live t j (add now k ttl c) = live t j c"
begin

text \<open>The gates' idiom: act and leave a mark unless the mark is live.\<close>

definition mark_once :: "instant \<Rightarrow> 'k \<Rightarrow> duration \<Rightarrow> 'c \<Rightarrow> bool \<times> 'c" where
  "mark_once now k ttl c =
     (let (h, c') = has now k c in if h then (False, c') else (True, add now k ttl c'))"

fun mark_run :: "'k \<Rightarrow> duration \<Rightarrow> instant list \<Rightarrow> 'c \<Rightarrow> instant list" where
  "mark_run k ttl [] c = []"
| "mark_run k ttl (t # ts) c =
     (case mark_once t k ttl c of (acted, c') \<Rightarrow> (if acted then [t] else []) @ mark_run k ttl ts c')"

lemma mark_once_acts: "fst (mark_once now k ttl c) \<longleftrightarrow> \<not> live now k c"
  by (cases "has now k c") (auto simp: mark_once_def has_live [symmetric])

lemma mark_once_live:
  assumes "0 < ttl" and "now \<le> t"
  shows "live t k (snd (mark_once now k ttl c)) \<longleftrightarrow>
    (if live now k c then live t k c else t \<le> now + ttl)"
  using has_live [of now k c] has_keeps [OF assms(2), of k k c] add_live [OF assms(1)]
  by (cases "has now k c") (auto simp: mark_once_def)

lemma mark_run_subset: "set (mark_run k ttl ts c) \<subseteq> set ts"
proof (induction ts arbitrary: c)
  case (Cons t ts)
  obtain acted c' where m: "mark_once t k ttl c = (acted, c')" by (cases "mark_once t k ttl c")
  from Cons [of c'] m show ?case by auto
qed simp

lemma mark_run_quiet:
  assumes "0 < ttl" and "sorted (s # ts)" and "\<forall>u. s \<le> u \<and> u \<le> deadline \<longrightarrow> live u k c"
  shows "\<forall>x \<in> set (mark_run k ttl ts c). deadline < x"
  using assms(2,3)
proof (induction ts arbitrary: s c)
  case (Cons t ts)
  obtain acted c' where m: "mark_once t k ttl c = (acted, c')" by (cases "mark_once t k ttl c")
  show ?case
  proof (cases "t \<le> deadline")
    case True
    with Cons.prems have "live t k c" by simp
    with m have "\<not> acted" and "\<And>u. t \<le> u \<Longrightarrow> live u k c' = live u k c"
      using mark_once_acts [of t k ttl c] mark_once_live [OF assms(1), of t _ k c] by auto
    then show ?thesis using Cons.IH [of t c'] Cons.prems m by simp
  next
    case False
    with Cons.prems mark_run_subset [of k ttl "t # ts" c] show ?thesis by fastforce
  qed
qed simp

text \<open>Two acts on one key are more than the suppression window apart.\<close>

lemma mark_run_spaced:
  assumes "0 < ttl" and "sorted ts"
  shows "sorted_wrt (\<lambda>s t. s + ttl < t) (mark_run k ttl ts c)"
  using assms(2)
proof (induction ts arbitrary: c)
  case (Cons t ts)
  obtain acted c' where m: "mark_once t k ttl c = (acted, c')" by (cases "mark_once t k ttl c")
  have "\<forall>x \<in> set (mark_run k ttl ts c'). t + ttl < x" if acted
  proof (rule mark_run_quiet [OF assms(1) Cons.prems])
    show "\<forall>u. t \<le> u \<and> u \<le> t + ttl \<longrightarrow> live u k c'"
      using that m mark_once_acts [of t k ttl c] mark_once_live [OF assms(1), of t _ k c] by auto
  qed
  with Cons m show ?case by auto
qed simp

end

definition neg_live :: "instant \<Rightarrow> string \<Rightarrow> negCache \<Rightarrow> bool" where
  "neg_live now key c = (case c key of None \<Rightarrow> False | Some exp \<Rightarrow> now \<le> exp)"

interpretation neg: expiring_keys neg_has neg_set neg_live
  by unfold_locales (auto simp: neg_has_def neg_set_def neg_live_def split: option.splits)

text \<open>
  The suppression marks of the gates bound how often demand is recorded: asking about one key at
  increasing instants and marking it for a window each time it is not marked, two recordings are
  always more than the window apart, and a key is live exactly until its deadline.
\<close>

theorem negCache_suppression:
  assumes "0 < ttl" and "sorted ts"
  shows "sorted_wrt (\<lambda>s t. s + ttl < t) (neg.mark_run key ttl ts c) \<and>
    (\<forall>t now. fst (neg_has t key (neg_set now key ttl c)) \<longleftrightarrow> t \<le> now + ttl)"
  using neg.mark_run_spaced [OF assms] neg.has_live neg.add_live [OF assms(1)] by blast

theorem negCache_suppression_witness:
  "neg.mark_run ''k'' 60 [0, 10, 61, 70] newNegCache = [0, 61] \<and>
   sorted_wrt (\<lambda>s t. s + 60 < t) (neg.mark_run ''k'' 60 [0, 10, 61, 70] newNegCache)"
proof -
  have "neg.mark_run ''k'' 60 [0, 10, 61, 70] newNegCache = [0, 61]"
    by (simp add: neg.mark_once_def neg_has_def neg_set_def newNegCache_def)
  moreover note negCache_suppression [of 60 "[0, 10, 61, 70]" "''k''" newNegCache]
  ultimately show ?thesis by simp
qed

text \<open>The cooldown's remaining time is positive and bounded by what was set.\<close>

lemma neg_remaining_set:
  assumes "0 < ttl" and "ttl \<le> max_int64" and "now \<le> t"
  shows "fst (neg_remaining t key (neg_set now key ttl c)) =
    (if t < now + ttl then Some (now + ttl - t) else None)"
  using assms by (auto simp: neg_remaining_def neg_set_def time_sub_def Let_def min_int64_def max_int64_def)

section \<open>The age policy\<close>

datatype ageDecision = ageAllow | ageWarn | ageBlock

definition evaluateAge ::
  "age_policy_config \<Rightarrow> instant option \<Rightarrow> instant \<Rightarrow> ageDecision \<times> string" where
  "evaluateAge cfg publishedAt now =
     (case publishedAt of
        None \<Rightarrow> (ageAllow, [])
      | Some pub \<Rightarrow>
          if \<not> ag_enabled cfg then (ageAllow, [])
          else let age = time_sub now pub;
                   v1 = (if 0 < ag_min_age cfg \<and> age < ag_min_age cfg
                         then ''release is newer than min_age cooldown'' else []);
                   violated = (if 0 < ag_max_age cfg \<and> ag_max_age cfg < age
                               then ''release is older than max_age'' else v1)
               in if violated = [] then (ageAllow, [])
                  else if ag_action cfg = ActionWarn then (ageWarn, violated)
                  else (ageBlock, violated))"

definition age_blocks :: "age_policy_config \<Rightarrow> instant option \<Rightarrow> instant \<Rightarrow> bool" where
  "age_blocks cfg pub now \<longleftrightarrow> fst (evaluateAge cfg pub now) = ageBlock"

lemma time_sub_mono: "t \<le> u \<Longrightarrow> time_sub t p \<le> time_sub u p"
  by (auto simp: time_sub_def)

text \<open>
  A release is blocked exactly when the policy is on, its release time is known, the action is
  not warn, and the release is younger than the cooldown or older than the maximum age; durations
  are Go's 64-bit ones, so the comparison is on the saturated difference, and it agrees with the
  exact difference for every cooldown.
\<close>

theorem evaluateAge_blocks_iff:
  assumes "ag_min_age cfg \<le> max_int64" and "ag_max_age cfg < max_int64"
  shows "fst (evaluateAge cfg pub now) = ageBlock \<longleftrightarrow>
    ag_enabled cfg \<and> ag_action cfg \<noteq> ActionWarn \<and>
    (\<exists>p. pub = Some p \<and> (0 < ag_min_age cfg \<and> now < p + ag_min_age cfg \<or>
                         0 < ag_max_age cfg \<and> p + ag_max_age cfg < now))"
proof -
  have min: "time_sub now p < ag_min_age cfg \<longleftrightarrow> now < p + ag_min_age cfg" if "0 < ag_min_age cfg" for p
    using time_sub_less_iff [of "ag_min_age cfg" now p] that assms(1)
    by (auto simp: min_int64_def)
  have max: "ag_max_age cfg < time_sub now p \<longleftrightarrow> p + ag_max_age cfg < now" if "0 < ag_max_age cfg" for p
    using that assms(2) by (auto simp: time_sub_def min_int64_def max_int64_def)
  show ?thesis
    by (cases pub) (auto simp: evaluateAge_def Let_def min max)
qed

theorem evaluateAge_blocks_iff_witness:
  "fst (evaluateAge \<lparr>ag_enabled = True, ag_min_age = 3 * Hour, ag_max_age = 0, ag_action = []\<rparr>
      (Some (10 * Hour)) (11 * Hour)) = ageBlock"
  using evaluateAge_blocks_iff [of
      "\<lparr>ag_enabled = True, ag_min_age = 3 * Hour, ag_max_age = 0, ag_action = []\<rparr>"
      "Some (10 * Hour)" "11 * Hour"]
  by (simp add: max_int64_def)

text \<open>Waiting lifts a cooldown and never starts one.\<close>

lemma cooldown_lifts:
  assumes "ag_max_age cfg \<le> 0" and "now \<le> later" and "fst (evaluateAge cfg pub now) = ageAllow"
  shows "fst (evaluateAge cfg pub later) = ageAllow"
proof (cases pub)
  case None
  then show ?thesis by (simp add: evaluateAge_def)
next
  case (Some p)
  have "time_sub now p \<le> time_sub later p" using assms(2) by (rule time_sub_mono)
  with assms(1,3) Some show ?thesis by (auto simp: evaluateAge_def Let_def split: if_splits)
qed

section \<open>Retry-After\<close>

abbreviation defaultUpstreamCooldown :: duration where "defaultUpstreamCooldown \<equiv> 15 * Second"
abbreviation maxUpstreamCooldown :: duration where "maxUpstreamCooldown \<equiv> 5 * Minute"

text \<open>\<open>parse_date\<close> is \<^verbatim>\<open>http.ParseTime\<close>; the product with a second wraps at 64 bits.\<close>

definition parseRetryAfter :: "(string \<Rightarrow> instant option) \<Rightarrow> string \<Rightarrow> instant \<Rightarrow> duration" where
  "parseRetryAfter parse_date h now =
     (let d0 = (if h = [] then defaultUpstreamCooldown
                else case Atoi h of
                       Some secs \<Rightarrow> wrap64 (secs * Second)
                     | None \<Rightarrow> (case parse_date h of
                                  Some t \<Rightarrow> time_sub t now
                                | None \<Rightarrow> defaultUpstreamCooldown));
          d1 = (if d0 < defaultUpstreamCooldown then defaultUpstreamCooldown else d0)
      in if maxUpstreamCooldown < d1 then maxUpstreamCooldown else d1)"

text \<open>\<^verbatim>\<open>Duration.Round(time.Second)\<close> away from the ends of the range.\<close>

definition round_second :: "duration \<Rightarrow> duration" where
  "round_second d =
     (let r = \<bar>d\<bar> mod Second
      in if r + r < Second then (if 0 \<le> d then d - r else d + r)
         else (if 0 \<le> d then d - r + Second else d + r - Second))"

definition retryAfterSeconds :: "duration \<Rightarrow> string" where
  "retryAfterSeconds d =
     (let q = round_second d;
          secs = (if 0 \<le> q then q div Second else - ((- q) div Second))
      in Itoa (if secs < 1 then 1 else secs))"

lemma parseRetryAfter_range:
  "defaultUpstreamCooldown \<le> parseRetryAfter pd h now \<and> parseRetryAfter pd h now \<le> maxUpstreamCooldown"
  by (simp add: parseRetryAfter_def Let_def)

lemma round_second_bounds:
  assumes "0 \<le> d"
  shows "\<exists>k. round_second d = k * Second \<and> 2 * (k * Second - d) \<le> Second \<and>
    2 * (d - k * Second) \<le> Second"
proof -
  obtain q r where d: "d = q * Second + r" and r: "0 \<le> r" "r < Second" and m: "d mod Second = r"
    by (metis div_mult_mod_eq pos_mod_bound pos_mod_sign zero_less_numeral)
  show ?thesis
  proof (cases "r + r < Second")
    case True
    with m assms have "round_second d = q * Second" by (simp add: round_second_def d)
    with True d r show ?thesis by (intro exI [of _ q]) simp
  next
    case False
    with m assms have "round_second d = (q + 1) * Second" by (simp add: round_second_def d)
    with False d r show ?thesis by (intro exI [of _ "q + 1"]) simp
  qed
qed

text \<open>
  Whatever Retry-After an upstream sends, the cooldown is between 15 seconds and 5 minutes, and
  the Retry-After relayed to the client is the decimal text of a number of seconds in that range.
\<close>

theorem parseRetryAfter_clamped:
  "defaultUpstreamCooldown \<le> parseRetryAfter parse_date h now \<and>
   parseRetryAfter parse_date h now \<le> maxUpstreamCooldown \<and>
   (\<exists>n. retryAfterSeconds (parseRetryAfter parse_date h now) = Itoa n \<and> 15 \<le> n \<and> n \<le> 300)"
proof -
  let ?d = "parseRetryAfter parse_date h now"
  note range = parseRetryAfter_range [of parse_date h now]
  then obtain k where k: "round_second ?d = k * Second" "2 * (k * Second - ?d) \<le> Second"
      "2 * (?d - k * Second) \<le> Second"
    using round_second_bounds [of ?d] by auto
  from k(3) conjunct1 [OF range] have "15 \<le> k" by simp
  moreover from k(2) conjunct2 [OF range] have "k \<le> 300" by simp
  moreover from \<open>15 \<le> k\<close> k(1) have "retryAfterSeconds ?d = Itoa k"
    by (simp add: retryAfterSeconds_def Let_def)
  ultimately show ?thesis using range by blast
qed

text \<open>
  The number of seconds is multiplied in 64 bits before it is clamped: values up to
  9223372036 give the clamped number, but 18446744074 wraps to a third of a second, so this longest
  of requests gets the shortest cooldown instead of the 5 minute cap.
\<close>

theorem parseRetryAfter_overflow:
  "(\<forall>secs. 0 \<le> secs \<and> secs \<le> 9223372036 \<longrightarrow>
      parseRetryAfter parse_date (Itoa secs) now =
        max defaultUpstreamCooldown (min maxUpstreamCooldown (secs * Second))) \<and>
   parseRetryAfter parse_date ''18446744074'' now = defaultUpstreamCooldown"
proof (intro conjI allI impI)
  fix secs :: int
  assume s: "0 \<le> secs \<and> secs \<le> 9223372036"
  then have "wrap64 (secs * Second) = secs * Second"
    by (intro wrap64_id) (simp_all add: min_int64_def max_int64_def)
  moreover have "Atoi (Itoa secs) = Some secs"
    using s by (intro Atoi_Itoa) (simp_all add: min_int64_def max_int64_def)
  moreover have "Itoa secs \<noteq> []" using s by (simp add: Itoa_def digits_Nil)
  ultimately show "parseRetryAfter parse_date (Itoa secs) now =
      max defaultUpstreamCooldown (min maxUpstreamCooldown (secs * Second))"
    by (auto simp: parseRetryAfter_def Let_def)
next
  have "Atoi ''18446744074'' = Some 18446744074" by code_simp
  then show "parseRetryAfter parse_date ''18446744074'' now = defaultUpstreamCooldown"
    by (simp add: parseRetryAfter_def wrap64_def)
qed

theorem parseRetryAfter_overflow_witness:
  "parseRetryAfter (\<lambda>_. None) (Itoa 60) 0 = Minute \<and>
   parseRetryAfter (\<lambda>_. None) ''18446744074'' 0 = 15 * Second"
  using parseRetryAfter_overflow [of "\<lambda>_. None" 0] by simp

end
