(* ===== verification/Storage.thy ===== *)
theory Storage
  imports Prelude
begin

text \<open>
  The content-addressed blob store (\<^verbatim>\<open>internal/storage/storage.go\<close>).

  \<^item> the interface \<open>BlobStore\<close> as the record \<open>blob_store\<close> of its four operations, and as the
    locale \<open>blob_store_laws\<close> of what its comments promise;
  \<^item> \<open>FSStore\<close>, the file-system implementation, over a model of the directory tree
    \<open>blobs/aa/bb/<digest>\<close> in which every system call may fail, and its interpretation of the
    locale;
  \<^item> \<open>WalkDigests\<close>, and that it enumerates the stored digests completely and in order.

  A reader is the bytes it delivers and whether it ends without an error. SHA-256 is the
  parameter \<open>sha\<close>. Temporary files are invisible to every operation but \<open>Put\<close>, which removes its
  own, so they are not part of the state; an empty shard directory is not one either.
\<close>

section \<open>The interface\<close>

datatype blob_error = BlobNotFound | BlobIO | BlobRead

type_synonym reader = "bytes \<times> bool"

record 'b blob_store =
  bs_put :: "reader \<Rightarrow> 'b \<Rightarrow> (blob_error + string \<times> int) \<times> 'b"
  bs_open :: "string \<Rightarrow> 'b \<Rightarrow> blob_error + bytes \<times> int"
  bs_exists :: "string \<Rightarrow> 'b \<Rightarrow> blob_error + bool"
  bs_delete :: "string \<Rightarrow> 'b \<Rightarrow> (blob_error + unit) \<times> 'b"

text \<open>
  The laws, over the contents \<open>view\<close> of a store and the states \<open>ok\<close> its operations reach: what is
  stored under a digest hashes to that digest, an operation that succeeds changes its own digest only,
  and one that fails has changed nothing or has done its work (an answer may get lost on the way).
\<close>

locale blob_store_laws =
  fixes bs :: "'b blob_store"
    and sha :: "bytes \<Rightarrow> string"
    and view :: "'b \<Rightarrow> string \<Rightarrow> bytes option"
    and ok :: "'b \<Rightarrow> bool"
  assumes addressed: "ok s \<Longrightarrow> view s d = Some b \<Longrightarrow> sha b = d"
    and put_ok: "ok s \<Longrightarrow> ok (snd (bs_put bs r s))"
    and delete_ok: "ok s \<Longrightarrow> ok (snd (bs_delete bs d s))"
    and put_result: "ok s \<Longrightarrow> bs_put bs r s = (Inr (d, n), s') \<Longrightarrow>
        snd r \<and> d = sha (fst r) \<and> n = int (length (fst r)) \<and> view s' d \<noteq> None \<and>
        (\<forall>x. x \<noteq> d \<longrightarrow> view s' x = view s x)"
    and put_failed: "ok s \<Longrightarrow> bs_put bs r s = (Inl e, s') \<Longrightarrow> view s' = view s \<or> view s' = (view s)(sha (fst r) \<mapsto> fst r)"
    and open_result: "ok s \<Longrightarrow> bs_open bs d s = Inr (b, n) \<Longrightarrow>
        view s d = Some b \<and> n = int (length b)"
    and exists_result: "ok s \<Longrightarrow> bs_exists bs d s = Inr found \<Longrightarrow>
        found = (view s d \<noteq> None)"
    and delete_result: "ok s \<Longrightarrow> bs_delete bs d s = (Inr u, s') \<Longrightarrow> view s' = (view s)(d := None)"
    and delete_failed: "ok s \<Longrightarrow> bs_delete bs d s = (Inl e, s') \<Longrightarrow> view s' = view s \<or> view s' = (view s)(d := None)"
begin

lemma put_reads_back:
  assumes "ok s" and "bs_put bs r s = (Inr (d, n), s')" and "bs_open bs d s' = Inr (b, m)"
  shows "sha b = sha (fst r)"
proof -
  have "ok s'" using put_ok [OF assms(1), of r] assms(2) by simp
  with assms(3) have "view s' d = Some b" by (simp add: open_result)
  with \<open>ok s'\<close> have "sha b = d" by (rule addressed)
  with put_result [OF assms(1,2)] show ?thesis by simp
qed

lemma put_keeps:
  assumes "ok s" and "view s x \<noteq> None"
  shows "view (snd (bs_put bs r s)) x \<noteq> None"
proof (cases "bs_put bs r s")
  case (Pair res s')
  show ?thesis
  proof (cases res)
    case (Inl e)
    with Pair put_failed [OF assms(1), of r e s'] assms(2) show ?thesis by auto
  next
    case (Inr v)
    obtain d n where v: "v = (d, n)" by (cases v)
    note res = put_result [OF assms(1) Pair [unfolded Inr v]]
    show ?thesis
    proof (cases "x = d")
      case True
      from res have "view s' d \<noteq> None" by blast
      with True Pair show ?thesis by simp
    next
      case False
      with res Pair assms(2) show ?thesis by simp
    qed
  qed
qed

lemma delete_other:
  assumes "ok s" and "x \<noteq> d"
  shows "view (snd (bs_delete bs d s)) x = view s x"
proof (cases "bs_delete bs d s")
  case (Pair res s')
  with assms show ?thesis
    using delete_result [OF assms(1), of d _ s'] delete_failed [OF assms(1), of d _ s'] by (cases res) auto
qed

end

section \<open>Digests\<close>

definition is_hex :: "char \<Rightarrow> bool" where
  "is_hex c \<longleftrightarrow> (let n = of_char c :: nat in
     48 \<le> n \<and> n \<le> 57 \<or> 97 \<le> n \<and> n \<le> 102 \<or> 65 \<le> n \<and> n \<le> 70)"

definition validDigest :: "string \<Rightarrow> bool" where
  "validDigest d \<longleftrightarrow> length d = 64 \<and> list_all is_hex d"

section \<open>The file system\<close>

datatype fs_call =
  CreateTemp | WriteTemp | SyncTemp | CloseTemp | MkdirAll | StatFile | RenameFile | OpenFile
  | RemoveFile | ReadDir

type_synonym fs_path = "string \<times> string \<times> string"

record fs =
  fs_files :: "(fs_path \<times> bytes) list"
  fs_fault :: "fs_call \<Rightarrow> bool"

definition path_of :: "string \<Rightarrow> fs_path" where
  "path_of digest = (take 2 digest, take 2 (drop 2 digest), digest)"

definition read_file :: "fs \<Rightarrow> fs_path \<Rightarrow> bytes option" where
  "read_file s p = map_of (fs_files s) p"

definition write_file :: "fs_path \<Rightarrow> bytes \<Rightarrow> fs \<Rightarrow> fs" where
  "write_file p b s = s\<lparr>fs_files := (p, b) # filter (\<lambda>e. fst e \<noteq> p) (fs_files s)\<rparr>"

definition remove_file :: "fs_path \<Rightarrow> fs \<Rightarrow> fs" where
  "remove_file p s = s\<lparr>fs_files := filter (\<lambda>e. fst e \<noteq> p) (fs_files s)\<rparr>"

lemma map_of_filter_key: "map_of (filter (\<lambda>e. fst e \<noteq> p) xs) = (map_of xs)(p := None)"
  by (induction xs) (auto simp: fun_eq_iff)

lemma read_write [simp]: "read_file (write_file p b s) = (read_file s)(p \<mapsto> b)"
  by (simp add: read_file_def write_file_def map_of_filter_key fun_eq_iff)

lemma read_remove [simp]: "read_file (remove_file p s) = (read_file s)(p := None)"
  by (simp add: read_file_def remove_file_def map_of_filter_key fun_eq_iff)

lemma fault_file [simp]:
  "fs_fault (write_file p b s) = fs_fault s" "fs_fault (remove_file p s) = fs_fault s"
  by (simp_all add: write_file_def remove_file_def)

lemma keys_write [simp]: "fst ` set (fs_files (write_file p b s)) = insert p (fst ` set (fs_files s))"
  by (auto simp: write_file_def)

lemma keys_remove [simp]: "fst ` set (fs_files (remove_file p s)) = fst ` set (fs_files s) - {p}"
  by (auto simp: remove_file_def)

section \<open>FSStore\<close>

definition fs_Put :: "(bytes \<Rightarrow> string) \<Rightarrow> reader \<Rightarrow> fs \<Rightarrow> (blob_error + string \<times> int) \<times> fs" where
  "fs_Put sha r s =
     (if fs_fault s CreateTemp then (Inl BlobIO, s)
      else if \<not> snd r then (Inl BlobRead, s)
      else if fs_fault s WriteTemp then (Inl BlobIO, s)
      else if fs_fault s SyncTemp then (Inl BlobIO, s)
      else if fs_fault s CloseTemp then (Inl BlobIO, s)
      else let digest = sha (fst r);
               n = int (length (fst r));
               dst = path_of digest
           in if fs_fault s MkdirAll then (Inl BlobIO, s)
              else if \<not> fs_fault s StatFile \<and> read_file s dst \<noteq> None then (Inr (digest, n), s)
              else if fs_fault s RenameFile then (Inl BlobIO, s)
              else (Inr (digest, n), write_file dst (fst r) s))"

definition fs_Open :: "string \<Rightarrow> fs \<Rightarrow> blob_error + bytes \<times> int" where
  "fs_Open digest s =
     (if \<not> validDigest digest then Inl BlobNotFound
      else if fs_fault s OpenFile then Inl BlobIO
      else case read_file s (path_of digest) of
             None \<Rightarrow> Inl BlobNotFound
           | Some b \<Rightarrow> if fs_fault s StatFile then Inl BlobIO else Inr (b, int (length b)))"

definition fs_Exists :: "string \<Rightarrow> fs \<Rightarrow> blob_error + bool" where
  "fs_Exists digest s =
     (if \<not> validDigest digest then Inr False
      else if fs_fault s StatFile then Inl BlobIO
      else Inr (read_file s (path_of digest) \<noteq> None))"

definition fs_Delete :: "string \<Rightarrow> fs \<Rightarrow> (blob_error + unit) \<times> fs" where
  "fs_Delete digest s =
     (if \<not> validDigest digest then (Inr (), s)
      else if fs_fault s RemoveFile then (Inl BlobIO, s)
      else (Inr (), remove_file (path_of digest) s))"

definition FSStore :: "(bytes \<Rightarrow> string) \<Rightarrow> fs blob_store" where
  "FSStore sha = \<lparr>bs_put = fs_Put sha, bs_open = fs_Open, bs_exists = fs_Exists,
                  bs_delete = fs_Delete\<rparr>"

text \<open>The digest of every input is 64 hexadecimal digits.\<close>

definition hex_digest :: "(bytes \<Rightarrow> string) \<Rightarrow> bool" where
  "hex_digest sha \<longleftrightarrow> (\<forall>b. validDigest (sha b))"

text \<open>The contents of the store, and the states it reaches from an empty directory.\<close>

definition fs_view :: "fs \<Rightarrow> string \<Rightarrow> bytes option" where
  "fs_view s d = (if validDigest d then read_file s (path_of d) else None)"

definition fs_ok :: "(bytes \<Rightarrow> string) \<Rightarrow> fs \<Rightarrow> bool" where
  "fs_ok sha s \<longleftrightarrow> hex_digest sha \<and>
     (\<forall>p b. read_file s p = Some b \<longrightarrow> validDigest (sha b) \<and> p = path_of (sha b))"

lemma path_of_inj [simp]: "path_of d = path_of e \<longleftrightarrow> d = e"
  by (auto simp: path_of_def)

lemma fs_view_write:
  "validDigest d \<Longrightarrow> fs_view (write_file (path_of d) b s) = (fs_view s)(d \<mapsto> b)"
  by (auto simp: fs_view_def fun_eq_iff)

lemma fs_view_remove:
  "validDigest d \<Longrightarrow> fs_view (remove_file (path_of d) s) = (fs_view s)(d := None)"
  by (auto simp: fs_view_def fun_eq_iff)

lemma fs_Put_disj:
  "(\<exists>e. fs_Put sha r s = (Inl e, s)) \<or>
   snd r \<and> fst (fs_Put sha r s) = Inr (sha (fst r), int (length (fst r))) \<and>
     (snd (fs_Put sha r s) = s \<and> read_file s (path_of (sha (fst r))) \<noteq> None \<or>
      snd (fs_Put sha r s) = write_file (path_of (sha (fst r))) (fst r) s)"
  unfolding fs_Put_def Let_def by simp

lemma fs_Put_cases:
  obtains e where "fs_Put sha r s = (Inl e, s)"
  | "snd r" and "fs_Put sha r s = (Inr (sha (fst r), int (length (fst r))), s)"
      and "read_file s (path_of (sha (fst r))) \<noteq> None"
  | "snd r" and "fs_Put sha r s = (Inr (sha (fst r), int (length (fst r))),
        write_file (path_of (sha (fst r))) (fst r) s)"
  using fs_Put_disj [of sha r s] by (metis prod.collapse)

lemma fs_Put_result:
  assumes "hex_digest sha" and "fs_Put sha r s = (Inr (d, n), s')"
  shows "snd r \<and> d = sha (fst r) \<and> n = int (length (fst r)) \<and> fs_view s' d \<noteq> None \<and>
    (\<forall>x. x \<noteq> d \<longrightarrow> fs_view s' x = fs_view s x)"
proof -
  have v: "validDigest (sha (fst r))" using assms(1) by (simp add: hex_digest_def)
  show ?thesis
    by (cases rule: fs_Put_cases [of sha r s])
      (use assms(2) v in \<open>auto simp: fs_view_write\<close>, simp add: fs_view_def)
qed

lemma fs_Put_ok: "fs_ok sha s \<Longrightarrow> fs_ok sha (snd (fs_Put sha r s))"
  by (cases rule: fs_Put_cases [of sha r s]) (auto simp: fs_ok_def hex_digest_def)

lemma fs_Put_failed: "fs_Put sha r s = (Inl e, s') \<Longrightarrow> s' = s"
  by (cases rule: fs_Put_cases [of sha r s]) auto

interpretation fs: blob_store_laws "FSStore sha" sha fs_view "fs_ok sha" for sha
proof (unfold_locales, goal_cases)
  case (1 s d b)
  then have "read_file s (path_of d) = Some b" by (simp add: fs_view_def split: if_splits)
  with 1(1) have "path_of d = path_of (sha b)" unfolding fs_ok_def by blast
  then show ?case by simp
next
  case (2 s r)
  then show ?case by (simp add: FSStore_def fs_Put_ok)
next
  case (3 s d)
  then show ?case by (auto simp: FSStore_def fs_Delete_def fs_ok_def)
next
  case (4 s r d n s')
  then have "hex_digest sha" by (simp add: fs_ok_def)
  from fs_Put_result [OF this] 4(2) show ?case by (simp add: FSStore_def)
next
  case (5 s r e s')
  then show ?case by (auto simp: FSStore_def dest: fs_Put_failed)
next
  case (6 s d b n)
  then show ?case
    by (auto simp: FSStore_def fs_Open_def fs_view_def split: if_splits option.splits)
next
  case (7 s d found)
  then show ?case by (auto simp: FSStore_def fs_Exists_def fs_view_def split: if_splits)
next
  case (8 s d u s')
  then show ?case
    by (auto simp: FSStore_def fs_Delete_def fs_view_remove split: if_splits)
      (auto simp: fs_view_def fun_eq_iff)
next
  case (9 s d e s')
  then show ?case by (auto simp: FSStore_def fs_Delete_def split: if_splits)
qed

section \<open>WalkDigests\<close>

text \<open>Directory listings come sorted by name.\<close>

definition dirs1 :: "fs \<Rightarrow> string list" where
  "dirs1 s = str_sort (remdups (map (\<lambda>e. fst (fst e)) (fs_files s)))"

definition dirs2 :: "fs \<Rightarrow> string \<Rightarrow> string list" where
  "dirs2 s d = str_sort (remdups (map (\<lambda>e. fst (snd (fst e)))
     (filter (\<lambda>e. fst (fst e) = d) (fs_files s))))"

definition names :: "fs \<Rightarrow> string \<Rightarrow> string \<Rightarrow> string list" where
  "names s d e = str_sort (remdups (map (\<lambda>f. snd (snd (fst f)))
     (filter (\<lambda>f. fst (fst f) = d \<and> fst (snd (fst f)) = e) (fs_files s))))"

datatype 'e walk_error = DirError | FnError 'e

text \<open>The three nested loops; \<open>fn\<close> is the callback with the state it carries.\<close>

fun walk_names ::
  "(string \<Rightarrow> 's \<Rightarrow> 'e option \<times> 's) \<Rightarrow> string list \<Rightarrow> 's \<Rightarrow> 'e walk_error option \<times> 's" where
  "walk_names fn [] acc = (None, acc)"
| "walk_names fn (n # ns) acc =
     (if \<not> validDigest n then walk_names fn ns acc
      else case fn n acc of
             (None, acc') \<Rightarrow> walk_names fn ns acc'
           | (Some e, acc') \<Rightarrow> (Some (FnError e), acc'))"

fun walk_dirs2 ::
  "fs \<Rightarrow> (string \<Rightarrow> 's \<Rightarrow> 'e option \<times> 's) \<Rightarrow> string \<Rightarrow> string list \<Rightarrow> 's \<Rightarrow> 'e walk_error option \<times> 's"
where
  "walk_dirs2 s fn d [] acc = (None, acc)"
| "walk_dirs2 s fn d (e # es) acc =
     (case walk_names fn (names s d e) acc of
        (None, acc') \<Rightarrow> walk_dirs2 s fn d es acc'
      | (Some err, acc') \<Rightarrow> (Some err, acc'))"

fun walk_dirs1 ::
  "fs \<Rightarrow> (string \<Rightarrow> 's \<Rightarrow> 'e option \<times> 's) \<Rightarrow> string list \<Rightarrow> 's \<Rightarrow> 'e walk_error option \<times> 's" where
  "walk_dirs1 s fn [] acc = (None, acc)"
| "walk_dirs1 s fn (d # ds) acc =
     (if d = ''tmp'' then walk_dirs1 s fn ds acc
      else case walk_dirs2 s fn d (dirs2 s d) acc of
             (None, acc') \<Rightarrow> walk_dirs1 s fn ds acc'
           | (Some err, acc') \<Rightarrow> (Some err, acc'))"

definition WalkDigests ::
  "fs \<Rightarrow> (string \<Rightarrow> 's \<Rightarrow> 'e option \<times> 's) \<Rightarrow> 's \<Rightarrow> 'e walk_error option \<times> 's" where
  "WalkDigests s fn acc =
     (if fs_fault s ReadDir then (Some DirError, acc) else walk_dirs1 s fn (dirs1 s) acc)"

text \<open>The digests in the order the loops visit them.\<close>

definition walk_list :: "fs \<Rightarrow> string list" where
  "walk_list s = concat (map (\<lambda>d. if d = ''tmp'' then []
     else concat (map (\<lambda>e. filter validDigest (names s d e)) (dirs2 s d))) (dirs1 s))"

text \<open>The callback applied along a list, up to its first error.\<close>

fun until_error :: "(string \<Rightarrow> 's \<Rightarrow> 'e option \<times> 's) \<Rightarrow> string list \<Rightarrow> 's \<Rightarrow> 'e option \<times> 's" where
  "until_error fn [] acc = (None, acc)"
| "until_error fn (n # ns) acc =
     (case fn n acc of (None, acc') \<Rightarrow> until_error fn ns acc' | (Some e, acc') \<Rightarrow> (Some e, acc'))"

lemma until_error_append:
  "until_error fn (xs @ ys) acc =
     (case until_error fn xs acc of (None, acc') \<Rightarrow> until_error fn ys acc'
      | (Some e, acc') \<Rightarrow> (Some e, acc'))"
  by (induction xs arbitrary: acc) (auto split: prod.splits option.splits)

lemma walk_names_list:
  "walk_names fn ns acc = map_prod (map_option FnError) id (until_error fn (filter validDigest ns) acc)"
  by (induction ns arbitrary: acc) (auto split: prod.splits option.splits)

lemma walk_dirs2_list:
  "walk_dirs2 s fn d es acc = map_prod (map_option FnError) id
     (until_error fn (concat (map (\<lambda>e. filter validDigest (names s d e)) es)) acc)"
  by (induction es arbitrary: acc)
    (auto simp: until_error_append walk_names_list split: prod.splits option.splits)

lemma walk_dirs1_list:
  "walk_dirs1 s fn ds acc = map_prod (map_option FnError) id
     (until_error fn (concat (map (\<lambda>d. if d = ''tmp'' then []
        else concat (map (\<lambda>e. filter validDigest (names s d e)) (dirs2 s d))) ds)) acc)"
  by (induction ds arbitrary: acc)
    (auto simp: until_error_append walk_dirs2_list split: prod.splits option.splits)

lemma WalkDigests_list:
  "\<not> fs_fault s ReadDir \<Longrightarrow> WalkDigests s fn acc =
     map_prod (map_option FnError) id (until_error fn (walk_list s) acc)"
  by (simp add: WalkDigests_def walk_list_def walk_dirs1_list)

subsection \<open>The order of the walk\<close>

lemma sorted_names: "sorted_wrt str_less (names s d e)"
  and sorted_dirs2: "sorted_wrt str_less (dirs2 s d)"
  and sorted_dirs1: "sorted_wrt str_less (dirs1 s)"
  by (simp_all add: names_def dirs2_def dirs1_def sorted_str_sort)

lemma sorted_concat:
  assumes "sorted_wrt str_less ds" and "\<And>d. d \<in> set ds \<Longrightarrow> sorted_wrt str_less (f d)"
    and "\<And>d e x y. d \<in> set ds \<Longrightarrow> e \<in> set ds \<Longrightarrow> str_less d e \<Longrightarrow> x \<in> set (f d) \<Longrightarrow> y \<in> set (f e) \<Longrightarrow> str_less x y"
  shows "sorted_wrt str_less (concat (map f ds))"
  using assms
proof (induction ds)
  case (Cons d ds)
  have "sorted_wrt str_less (concat (map f ds))"
    by (rule Cons.IH) (use Cons.prems in simp, use Cons.prems(2) in simp,
        use Cons.prems(3) in \<open>metis list.set_intros(2)\<close>)
  moreover have "\<forall>x \<in> set (f d). \<forall>y \<in> set (concat (map f ds)). str_less x y"
    using Cons.prems(1,3) by (auto; metis)
  ultimately show ?case using Cons.prems(2) by (simp add: sorted_wrt_append)
qed simp

text \<open>Every file of the tree is at the path of its own name.\<close>

definition fs_layout :: "fs \<Rightarrow> bool" where
  "fs_layout s \<longleftrightarrow> (\<forall>p \<in> fst ` set (fs_files s). p = path_of (snd (snd p)) \<and> validDigest (snd (snd p)))"

lemma fs_ok_layout: "fs_ok sha s \<Longrightarrow> fs_layout s"
proof -
  assume ok: "fs_ok sha s"
  have "p = path_of (snd (snd p)) \<and> validDigest (snd (snd p))" if "p \<in> fst ` set (fs_files s)" for p
  proof -
    from that obtain b where "read_file s p = Some b"
      by (metis map_of_eq_None_iff option.exhaust read_file_def)
    with ok have "p = path_of (sha b)" and "validDigest (sha b)" unfolding fs_ok_def by blast+
    then show ?thesis by (simp add: path_of_def)
  qed
  then show ?thesis unfolding fs_layout_def by blast
qed

lemma names_layout:
  assumes "fs_layout s" and "n \<in> set (names s d e)"
  shows "d = take 2 n \<and> e = take 2 (drop 2 n) \<and> validDigest n"
proof -
  from assms(2) obtain f where "f \<in> set (fs_files s)" and f: "fst f = (d, e, n)"
    by (auto simp: names_def)
  then have "(d, e, n) \<in> fst ` set (fs_files s)" by (metis imageI)
  with assms(1) have "(d, e, n) = path_of n \<and> validDigest n"
    unfolding fs_layout_def by (metis snd_conv)
  then show ?thesis by (simp add: path_of_def)
qed

lemma shard_less1:
  assumes "validDigest x" and "validDigest y" and "str_less (take 2 x) (take 2 y)"
  shows "str_less x y"
  using str_less_prefix [of "take 2 x" "take 2 y" "drop 2 x" "drop 2 y"] assms
  by (simp add: validDigest_def)

lemma shard_less2:
  assumes "validDigest x" and "validDigest y" and "take 2 x = take 2 y"
    and "str_less (take 2 (drop 2 x)) (take 2 (drop 2 y))"
  shows "str_less x y"
proof -
  have "str_less (drop 2 x) (drop 2 y)"
    using str_less_prefix [of "take 2 (drop 2 x)" "take 2 (drop 2 y)" "drop 2 (drop 2 x)"
        "drop 2 (drop 2 y)"] assms
    by (simp only: append_take_drop_id) (simp add: validDigest_def)
  then have "str_less (take 2 x @ drop 2 x) (take 2 y @ drop 2 y)"
    by (simp only: str_less_append assms(3))
  then show ?thesis by (simp only: append_take_drop_id)
qed

lemma walk_list_sorted:
  assumes "fs_layout s"
  shows "sorted_wrt str_less (walk_list s)"
  unfolding walk_list_def
proof (rule sorted_concat [OF sorted_dirs1])
  fix d
  show "sorted_wrt str_less (if d = ''tmp'' then []
      else concat (map (\<lambda>e. filter validDigest (names s d e)) (dirs2 s d)))"
    by (auto intro!: sorted_concat sorted_dirs2 sorted_wrt_filter sorted_names
        dest!: names_layout [OF assms] intro: shard_less2)
next
  fix d d' x y
  assume "str_less d d'"
    and "x \<in> set (if d = ''tmp'' then []
      else concat (map (\<lambda>e. filter validDigest (names s d e)) (dirs2 s d)))"
    and "y \<in> set (if d' = ''tmp'' then []
      else concat (map (\<lambda>e. filter validDigest (names s d' e)) (dirs2 s d')))"
  then show "str_less x y"
    by (auto split: if_splits dest!: names_layout [OF assms] intro: shard_less1)
qed

lemma walk_list_set:
  assumes "fs_layout s"
  shows "set (walk_list s) = {d. fs_view s d \<noteq> None}"
proof (intro set_eqI iffI)
  fix n
  assume "n \<in> set (walk_list s)"
  then obtain d e where n: "n \<in> set (names s d e)"
    by (auto simp: walk_list_def split: if_splits)
  from names_layout [OF assms n] have p: "(d, e, n) = path_of n" and v: "validDigest n"
    by (simp_all add: path_of_def)
  from n have "(d, e, n) \<in> fst ` set (fs_files s)" by (force simp: names_def)
  then have "map_of (fs_files s) (d, e, n) \<noteq> None" by (simp only: map_of_eq_None_iff not_not)
  with p v show "n \<in> {d. fs_view s d \<noteq> None}" by (simp add: fs_view_def read_file_def)
next
  fix n
  assume "n \<in> {d. fs_view s d \<noteq> None}"
  then have v: "validDigest n" and "map_of (fs_files s) (path_of n) \<noteq> None"
    by (auto simp: fs_view_def read_file_def split: if_splits)
  then have "path_of n \<in> fst ` set (fs_files s)" by (simp only: map_of_eq_None_iff not_not)
  then obtain f where f: "f \<in> set (fs_files s)" "fst f = path_of n" by auto
  then have "take 2 n \<in> set (dirs1 s)" and "take 2 (drop 2 n) \<in> set (dirs2 s (take 2 n))"
    and "n \<in> set (names s (take 2 n) (take 2 (drop 2 n)))"
    by (force simp: dirs1_def dirs2_def names_def path_of_def)+
  moreover have "take 2 n \<noteq> ''tmp''" using v by (auto simp: validDigest_def dest: arg_cong [of _ _ length])
  ultimately show "n \<in> set (walk_list s)" using v by (force simp: walk_list_def)
qed

text \<open>
  In every state the file store reaches, \<open>WalkDigests\<close> with a callback that does not fail calls
  it once for each stored digest and for nothing else, in lexicographic order: the sequence of
  digests is strictly increasing and its set is the set of stored digests.
\<close>

theorem WalkDigests_enumerates:
  assumes "fs_ok sha s" and "\<not> fs_fault s ReadDir"
  shows "\<exists>ds. WalkDigests s (\<lambda>d acc. (None :: unit option, acc @ [d])) [] = (None, ds) \<and>
    sorted_wrt str_less ds \<and> set ds = {d. fs_view s d \<noteq> None}"
proof -
  have "until_error (\<lambda>d acc. (None :: unit option, acc @ [d])) xs acc = (None, acc @ xs)" for xs acc
    by (induction xs arbitrary: acc) auto
  then have "WalkDigests s (\<lambda>d acc. (None :: unit option, acc @ [d])) [] = (None, walk_list s)"
    using assms(2) by (simp add: WalkDigests_list)
  with fs_ok_layout [OF assms(1)] show ?thesis
    using walk_list_sorted walk_list_set by blast
qed

text \<open>A digest function with two values, for concrete runs.\<close>

definition toy_sha :: "bytes \<Rightarrow> string" where
  "toy_sha b = (if b = [] then CHR ''0'' else CHR ''f'') # replicate 63 (CHR ''0'')"

lemma hex_digest_toy: "hex_digest toy_sha"
  unfolding hex_digest_def toy_sha_def validDigest_def
  by (simp add: list_all_length is_hex_def Let_def nth_Cons split: nat.splits)

definition no_files :: fs where
  "no_files = \<lparr>fs_files = [], fs_fault = (\<lambda>_. False)\<rparr>"

lemma fs_ok_no_files: "hex_digest sha \<Longrightarrow> fs_ok sha no_files"
  by (simp add: fs_ok_def no_files_def read_file_def)

theorem WalkDigests_enumerates_witness:
  "\<exists>ds. WalkDigests (snd (fs_Put toy_sha ([], True) (snd (fs_Put toy_sha (''x'', True) no_files))))
      (\<lambda>d acc. (None :: unit option, acc @ [d])) [] = (None, ds) \<and> sorted_wrt str_less ds \<and>
    set ds = {d. fs_view (snd (fs_Put toy_sha ([], True) (snd (fs_Put toy_sha (''x'', True) no_files))))
      d \<noteq> None}"
proof (rule WalkDigests_enumerates)
  show "fs_ok toy_sha (snd (fs_Put toy_sha ([], True) (snd (fs_Put toy_sha (''x'', True) no_files))))"
    by (intro fs_Put_ok fs_ok_no_files hex_digest_toy)
  show "\<not> fs_fault (snd (fs_Put toy_sha ([], True) (snd (fs_Put toy_sha (''x'', True) no_files)))) ReadDir"
    by code_simp
qed

text \<open>
  What the file store holds under a digest always hashes to it: after a \<open>Put\<close> that succeeds, the
  digest it returned is that of the bytes read, opening it succeeds unless a system call fails, and
  the bytes that come back have the same digest; every other digest is as before.
\<close>

theorem fs_Put_Open:
  assumes "fs_ok sha s" and "fs_Put sha r s = (Inr (d, n), s')"
    and "\<not> fs_fault s' OpenFile" and "\<not> fs_fault s' StatFile"
  shows "d = sha (fst r) \<and> snd r \<and> n = int (length (fst r)) \<and>
    (\<exists>b. fs_Open d s' = Inr (b, int (length b)) \<and> sha b = d) \<and>
    (\<forall>x. x \<noteq> d \<longrightarrow> fs_Open x s' = fs_Open x s)"
proof -
  have put: "bs_put (FSStore sha) r s = (Inr (d, n), s')" using assms(2) by (simp add: FSStore_def)
  note res = fs.put_result [OF assms(1) put]
  have v: "validDigest d" using res assms(1) by (simp add: fs_ok_def hex_digest_def)
  with res obtain b where b: "read_file s' (path_of d) = Some b"
    by (auto simp: fs_view_def)
  with v assms(3,4) have op: "fs_Open d s' = Inr (b, int (length b))" by (simp add: fs_Open_def)
  then have "bs_open (FSStore sha) d s' = Inr (b, int (length b))" by (simp add: FSStore_def)
  from fs.put_reads_back [OF assms(1) put this] res have "sha b = d" by simp
  moreover have "fs_Open x s' = fs_Open x s" if "x \<noteq> d" for x
  proof -
    have "fs_fault s' = fs_fault s"
      by (cases rule: fs_Put_cases [of sha r s]) (use assms(2) in auto)
    moreover have "validDigest x \<Longrightarrow> read_file s' (path_of x) = read_file s (path_of x)"
      using res that by (auto simp: fs_view_def dest!: spec [of _ x])
    ultimately show ?thesis 
      by (cases "validDigest x") (simp_all add: fs_Open_def cong: option.case_cong)
  qed
  ultimately show ?thesis using res op by blast
qed

theorem fs_Put_Open_witness:
  "\<exists>s'. fs_Put toy_sha (''x'', True) no_files = (Inr (toy_sha ''x'', 1), s') \<and>
     fs_Open (toy_sha ''x'') s' = Inr (''x'', 1)"
proof -
  let ?s = "snd (fs_Put toy_sha (''x'', True) no_files)"
  have "fst (fs_Put toy_sha (''x'', True) no_files) = Inr (toy_sha ''x'', 1)" by code_simp
  then have p: "fs_Put toy_sha (''x'', True) no_files = (Inr (toy_sha ''x'', 1), ?s)"
    by (metis prod.collapse)
  have "fs_Open (toy_sha ''x'') ?s = Inr (''x'', 1)" by code_simp
  moreover have "\<not> fs_fault ?s OpenFile" "\<not> fs_fault ?s StatFile" by code_simp+
  note fs_Put_Open [OF fs_ok_no_files [OF hex_digest_toy] p this]
  ultimately show ?thesis using p by blast
qed

section \<open>Concurrent writers\<close>

text \<open>
  \<open>Put\<close> as the sequence of its system calls, so that several callers, a caller that stops half way
  and the sweeper's \<open>Delete\<close> can interleave. A caller streams into its own temporary file, syncs and
  closes it, looks whether the destination exists, and renames.
\<close>

datatype put_pc =
    Streaming bytes bytes   \<comment> \<open>written so far, still to read\<close>
  | Closed bytes
  | Absent bytes            \<comment> \<open>the stat found no file at the destination\<close>
  | Returned string
  | Stopped

inductive put_step ::
  "(bytes \<Rightarrow> string) \<Rightarrow> fs \<times> (nat \<Rightarrow> put_pc) \<Rightarrow> fs \<times> (nat \<Rightarrow> put_pc) \<Rightarrow> bool"
  for sha :: "bytes \<Rightarrow> string" where
  step_write: "pcs i = Streaming w (c # r) \<Longrightarrow>
    put_step sha (s, pcs) (s, pcs(i := Streaming (w @ [c]) r))"
| step_close: "pcs i = Streaming w [] \<Longrightarrow> put_step sha (s, pcs) (s, pcs(i := Closed w))"
| step_present: "pcs i = Closed w \<Longrightarrow> read_file s (path_of (sha w)) \<noteq> None \<Longrightarrow>
    put_step sha (s, pcs) (s, pcs(i := Returned (sha w)))"
| step_absent: "pcs i = Closed w \<Longrightarrow> read_file s (path_of (sha w)) = None \<Longrightarrow>
    put_step sha (s, pcs) (s, pcs(i := Absent w))"
| step_rename: "pcs i = Absent w \<Longrightarrow>
    put_step sha (s, pcs) (write_file (path_of (sha w)) w s, pcs(i := Returned (sha w)))"
| step_stop: "put_step sha (s, pcs) (s, pcs(i := Stopped))"
| step_delete: "put_step sha (s, pcs) (snd (fs_Delete d s), pcs)"

inductive_cases put_stepE: "put_step sha x y"

definition put_runs :: "(bytes \<Rightarrow> string) \<Rightarrow> fs \<times> (nat \<Rightarrow> put_pc) \<Rightarrow> fs \<times> (nat \<Rightarrow> put_pc) \<Rightarrow> bool" where
  "put_runs sha = (put_step sha)\<^sup>*\<^sup>*"

lemma put_step_ok: "put_step sha x y \<Longrightarrow> fs_ok sha (fst x) \<Longrightarrow> fs_ok sha (fst y)"
proof (induction rule: put_step.induct)
  case (step_rename pcs i w s)
  then show ?case by (auto simp: fs_ok_def hex_digest_def)
next
  case (step_delete s pcs d)
  then show ?case using fs.delete_ok [of sha s d] by (simp add: FSStore_def)
qed simp_all

text \<open>
  C10: However many \<open>Put\<close>s run at once, wherever each of them stops, and whatever the sweeper deletes
  in between, a blob that can be opened is never a torn write: the bytes under a digest hash to it.
\<close>

theorem put_interleaving_addressed:
  assumes "hex_digest sha" and "put_runs sha (no_files, pcs) (s, pcs')"
    and "fs_Open d s = Inr (b, n)"
  shows "sha b = d \<and> n = int (length b)"
proof -
  have "fs_ok sha (fst (no_files, pcs))" using assms(1) by (simp add: fs_ok_no_files)
  from assms(2) [unfolded put_runs_def] this have ok: "fs_ok sha (fst (s, pcs'))"
    by (induction rule: rtranclp_induct) (auto intro: put_step_ok)
  have "bs_open (FSStore sha) d s = Inr (b, n)" using assms(3) by (simp add: FSStore_def)
  with fs.open_result [of sha s d b n] fs.addressed [of sha s d b] ok show ?thesis by simp
qed

theorem put_interleaving_addressed_witness:
  "\<exists>s pcs'. put_runs toy_sha (no_files, (\<lambda>_. Streaming [] ''x'')) (s, pcs') \<and>
     fs_Open (toy_sha ''x'') s = Inr (''x'', 1) \<and> toy_sha ''x'' = toy_sha ''x''"
proof -
  let ?p = "\<lambda>_. Streaming [] ''x''" and ?s = "write_file (path_of (toy_sha ''x'')) ''x'' no_files"
  have a: "read_file no_files (path_of (toy_sha ''x'')) = None"
    by (simp add: no_files_def read_file_def)
  have s1: "put_step toy_sha (no_files, ?p) (no_files, ?p(0 := Streaming ''x'' []))"
    using step_write [of ?p 0 "[]" "CHR ''x''" "[]" toy_sha no_files] by simp
  have s2: "put_step toy_sha (no_files, ?p(0 := Streaming ''x'' [])) (no_files, ?p(0 := Closed ''x''))"
    using step_close [of "?p(0 := Streaming ''x'' [])" 0 "''x''" toy_sha no_files] by simp
  have s3: "put_step toy_sha (no_files, ?p(0 := Closed ''x'')) (no_files, ?p(0 := Absent ''x''))"
    using step_absent [of "?p(0 := Closed ''x'')" 0 "''x''" no_files toy_sha] a by simp
  have s4: "put_step toy_sha (no_files, ?p(0 := Absent ''x'')) (?s, ?p(0 := Returned (toy_sha ''x'')))"
    using step_rename [of "?p(0 := Absent ''x'')" 0 "''x''" toy_sha no_files] by simp
  have run: "put_runs toy_sha (no_files, ?p) (?s, ?p(0 := Returned (toy_sha ''x'')))"
    unfolding put_runs_def
    by (rule converse_rtranclp_into_rtranclp, rule s1, rule converse_rtranclp_into_rtranclp, rule s2,
        rule converse_rtranclp_into_rtranclp, rule s3, rule r_into_rtranclp, rule s4)
  have op: "fs_Open (toy_sha ''x'') ?s = Inr (''x'', 1)" by code_simp
  from put_interleaving_addressed [OF hex_digest_toy run op] run op show ?thesis by blast
qed

end
