(* ===== verification/Meta_Schema.thy ===== *)
theory Meta_Schema
  imports Authz
begin

text \<open>
  The rows and tables of the metadata store (\<^verbatim>\<open>internal/meta/models.go\<close>, the structs of the other
  files of the package, and the schema of \<^verbatim>\<open>internal/meta/migrations\<close>).

  A table is the list of its rows in insertion order. Identifiers come from \<open>t_seq\<close>, the last
  identifier each AUTOINCREMENT table has given out. \<open>t_fault\<close> says for which tables the
  database driver currently fails: every operation that touches such a table returns
  \<open>ErrDB\<close> and, because multi-statement operations run in one transaction, changes nothing.

  SQLite keeps instants as RFC 3339 text with trailing zeros of the fraction removed, and the
  queries compare that text. \<open>time_text\<close> is the text's order: the part up to the seconds has a
  fixed width, so it orders like the number of seconds, and the rest is compared byte by byte.
\<close>

section \<open>Errors and tables\<close>

datatype store_error = ErrNotFound | ErrUnique | ErrForeignKey | ErrDB | ErrConflict

datatype table =
    TRepositories | TBlobs | TArtifacts | TUsers | TRoles | TPermissions | TUserRoles
  | TGroupMappings | TTokens | TApprovals | TDenies | TVulnScans | TLicenseScans
  | TReceivers | TAuditLogs

abbreviation FormatMaven :: string where "FormatMaven \<equiv> ''maven''"
abbreviation FormatNPM :: string where "FormatNPM \<equiv> ''npm''"
abbreviation FormatCargo :: string where "FormatCargo \<equiv> ''cargo''"
abbreviation FormatGo :: string where "FormatGo \<equiv> ''go''"
abbreviation FormatPyPI :: string where "FormatPyPI \<equiv> ''pypi''"

abbreviation TypeHosted :: string where "TypeHosted \<equiv> ''hosted''"
abbreviation TypeProxy :: string where "TypeProxy \<equiv> ''proxy''"
abbreviation TypeGroup :: string where "TypeGroup \<equiv> ''group''"

abbreviation SourceLocal :: string where "SourceLocal \<equiv> ''local''"
abbreviation SourceOIDC :: string where "SourceOIDC \<equiv> ''oidc''"

section \<open>Rows\<close>

record repository =
  r_id :: nat
  r_name :: string
  r_format :: string
  r_type :: string
  r_upstream_url :: string
  r_config_json :: string
  r_created_at :: instant
  r_updated_at :: instant
  r_disabled :: bool

record artifact =
  a_id :: nat
  a_repo_id :: nat
  a_path :: string
  a_version :: string
  a_blob_sha256 :: string
  a_size :: int
  a_content_type :: string
  a_metadata_json :: string
  a_published_at :: "instant option"
  a_cached_at :: instant
  a_last_accessed_at :: instant
  a_updated_at :: instant

record blob =
  b_sha256 :: string
  b_size :: int
  b_ref_count :: int
  b_created_at :: instant

text \<open>
  A user row also has the declarative \<open>managed\<close> mark, which the Go struct does not carry. A
  \<open>locked_at\<close> of 0 is the empty column (\<^verbatim>\<open>User.Locked\<close> is \<open>u_locked_at u \<noteq> 0\<close>).
\<close>

record user =
  u_id :: nat
  u_username :: string
  u_password_hash :: string
  u_source :: string
  u_email :: string
  u_disabled :: bool
  u_created_at :: instant
  u_updated_at :: instant
  u_last_login_at :: instant
  u_lockout_enabled :: bool
  u_failed_login_count :: int
  u_locked_at :: instant
  u_managed :: bool

definition Locked :: "user \<Rightarrow> bool" where
  "Locked u \<longleftrightarrow> u_locked_at u \<noteq> 0"

record role =
  ro_id :: nat
  ro_name :: string
  ro_description :: string
  ro_created_at :: instant
  ro_managed :: bool

text \<open>The \<open>managed\<close> column of an assignment: 0 interactive, 1 declarative, 2 login-synced.\<close>

record user_role =
  ur_user_id :: nat
  ur_role_id :: nat
  ur_managed :: nat

record group_mapping =
  gm_id :: nat
  gm_group_name :: string
  gm_role_id :: nat
  gm_managed :: bool

record token =
  t_id :: nat
  t_user_id :: nat
  t_name :: string
  t_description :: string
  t_hash :: string
  t_scopes_json :: string
  t_expires_at :: "instant option"
  t_last_used_at :: "instant option"
  t_created_at :: instant

record package_approval =
  ap_id :: nat
  ap_repo_name :: string
  ap_package :: string
  ap_status :: string
  ap_requested_by :: string
  ap_decided_by :: string
  ap_note :: string
  ap_request_count :: int
  ap_last_requested_version :: string
  ap_first_requested_at :: instant
  ap_last_requested_at :: instant
  ap_decided_at :: "instant option"

record version_deny =
  vd_id :: nat
  vd_repo_name :: string
  vd_package :: string
  vd_version :: string
  vd_reason :: string
  vd_created_by :: string
  vd_created_at :: instant

record vuln_scan =
  vs_ecosystem :: string
  vs_package :: string
  vs_version :: string
  vs_max_severity :: string
  vs_vuln_ids :: "string list"
  vs_severity_counts :: "(string \<times> int) list"
  vs_advisories :: "(string \<times> string \<times> string) list"
  vs_duration_ms :: int
  vs_source :: string
  vs_scanned_at :: instant

record license_scan =
  ls_system :: string
  ls_package :: string
  ls_version :: string
  ls_licenses :: "string list"
  ls_source :: string
  ls_resolved_at :: instant

record receiver =
  rv_id :: nat
  rv_name :: string
  rv_description :: string
  rv_webhook_url :: string
  rv_enabled :: bool
  rv_created_by :: string
  rv_created_at :: instant
  rv_updated_at :: instant

record audit_log =
  al_id :: nat
  al_repo_name :: string
  al_event :: string
  al_path :: string
  al_username :: string
  al_method :: string
  al_status :: int
  al_client_ip :: string
  al_user_agent :: string
  al_created_at :: instant

record store =
  st_repositories :: "repository list"
  st_blobs :: "blob list"
  st_artifacts :: "artifact list"
  st_users :: "user list"
  st_roles :: "role list"
  st_permissions :: "permission list"
  st_user_roles :: "user_role list"
  st_group_mappings :: "group_mapping list"
  st_tokens :: "token list"
  st_approvals :: "package_approval list"
  st_denies :: "version_deny list"
  st_vuln_scans :: "vuln_scan list"
  st_license_scans :: "license_scan list"
  st_receivers :: "receiver list"
  st_audit_logs :: "audit_log list"
  st_seq :: "table \<Rightarrow> nat"
  st_fault :: "table \<Rightarrow> bool"

definition empty_store :: store where
  "empty_store = \<lparr>st_repositories = [], st_blobs = [], st_artifacts = [], st_users = [],
     st_roles = [], st_permissions = [], st_user_roles = [], st_group_mappings = [],
     st_tokens = [], st_approvals = [], st_denies = [], st_vuln_scans = [],
     st_license_scans = [], st_receivers = [], st_audit_logs = [], st_seq = (\<lambda>_. 0), st_fault = (\<lambda>_. False)\<rparr>"

section \<open>Rows of a table\<close>

text \<open>UPDATE and DELETE with a WHERE clause.\<close>

definition update_where :: "('r \<Rightarrow> bool) \<Rightarrow> ('r \<Rightarrow> 'r) \<Rightarrow> 'r list \<Rightarrow> 'r list" where
  "update_where P f rows = map (\<lambda>r. if P r then f r else r) rows"

definition delete_where :: "('r \<Rightarrow> bool) \<Rightarrow> 'r list \<Rightarrow> 'r list" where
  "delete_where P rows = filter (\<lambda>r. \<not> P r) rows"

lemma set_update_where: "set (update_where P f rows) = (\<lambda>r. if P r then f r else r) ` set rows"
  by (simp add: update_where_def)

lemma set_delete_where [simp]: "set (delete_where P rows) = {r \<in> set rows. \<not> P r}"
  by (simp add: delete_where_def)

lemma subset_image_delete:
  assumes "A \<subseteq> k ` set rows" and "i \<notin> A"
  shows "A \<subseteq> k ` set (delete_where (\<lambda>r. k r = i) rows)"
proof
  fix y
  assume "y \<in> A"
  with assms obtain r where "r \<in> set rows" "y = k r" "y \<noteq> i" by blast
  then show "y \<in> k ` set (delete_where (\<lambda>r. k r = i) rows)" by auto
qed

lemma update_where_map_id:
  "(\<And>r. P r \<Longrightarrow> k (f r) = k r) \<Longrightarrow> map k (update_where P f rows) = map k rows"
  by (simp add: update_where_def)

lemma image_update_where:
  assumes "\<And>r. P r \<Longrightarrow> k (f r) = k r"
  shows "k ` set (update_where P f rows) = k ` set rows"
proof -
  from assms have "set (map k (update_where P f rows)) = set (map k rows)"
    by (subst update_where_map_id) auto
  then show ?thesis by simp
qed

lemma length_update_where [simp]: "length (update_where P f rows) = length rows"
  by (simp add: update_where_def)

lemma distinct_delete_where: "distinct (map k rows) \<Longrightarrow> distinct (map k (delete_where P rows))"
  by (simp add: delete_where_def distinct_map_filter)

lemma find_None_set: "List.find P xs = None \<longleftrightarrow> (\<forall>x \<in> set xs. \<not> P x)"
  by (auto simp: find_None_iff)

lemma find_Some_set: "List.find P xs = Some x \<Longrightarrow> x \<in> set xs \<and> P x"
  by (auto simp: find_Some_iff)

lemma find_not_None: "List.find P xs \<noteq> None \<longleftrightarrow> (\<exists>x \<in> set xs. P x)"
  by (metis find_None_set)

text \<open>With a unique key, the row found is the only row with that key.\<close>

lemma find_key_unique:
  assumes "distinct (map k rows)" and "r \<in> set rows"
  shows "List.find (\<lambda>x. k x = k r) rows = Some r"
  using assms
  by (induction rows) (auto simp: image_iff)

lemma distinct_key_eq:
  "distinct (map k rows) \<Longrightarrow> x \<in> set rows \<Longrightarrow> y \<in> set rows \<Longrightarrow> k x = k y \<Longrightarrow> x = y"
  by (auto simp: distinct_map dest: inj_onD)

section \<open>Instants as text\<close>

text \<open>
  The fraction of \<^verbatim>\<open>time.RFC3339Nano\<close>: nothing for whole seconds, otherwise a point and the nine
  digits of the nanoseconds without trailing zeros; then the zone letter.
\<close>

definition digit_char :: "nat \<Rightarrow> char" where
  "digit_char d = char_of (48 + d)"

fun nano_digits :: "nat \<Rightarrow> int \<Rightarrow> string" where
  "nano_digits 0 n = []"
| "nano_digits (Suc k) n = nano_digits k (n div 10) @ [digit_char (nat (n mod 10))]"

definition frac_suffix :: "int \<Rightarrow> string" where
  "frac_suffix n =
     (if n = 0 then ''Z'' else ''.'' @ trim_right (CHR ''0'') (nano_digits 9 n) @ ''Z'')"

type_synonym time_text = "int \<times> string"

definition format_time :: "instant \<Rightarrow> time_text" where
  "format_time t = (t div Second, frac_suffix (t mod Second))"

definition text_less :: "time_text \<Rightarrow> time_text \<Rightarrow> bool" where
  "text_less a b \<longleftrightarrow> fst a < fst b \<or> fst a = fst b \<and> str_less (snd a) (snd b)"

text \<open>Different seconds order as the instants do.\<close>

lemma text_less_seconds:
  assumes "s div Second \<noteq> t div Second"
  shows "text_less (format_time s) (format_time t) \<longleftrightarrow> s < t"
proof
  assume "text_less (format_time s) (format_time t)"
  with assms have "s div Second < t div Second"
    by (simp add: text_less_def format_time_def)
  then show "s < t" by (meson linorder_not_less zdiv_mono1 zero_less_numeral)
next
  assume "s < t"
  then have "s div Second \<le> t div Second" by (simp add: zdiv_mono1)
  with assms show "text_less (format_time s) (format_time t)"
    by (simp add: text_less_def format_time_def)
qed

lemma text_less_bound:
  assumes "text_less (format_time s) (format_time t)"
  shows "s < t + Second"
proof -
  from assms have "s div Second \<le> t div Second"
    by (auto simp: text_less_def format_time_def)
  then show ?thesis
    by linarith
qed

end
