(* ===== verification/Artifacts.thy ===== *)
theory Artifacts
  imports Meta_Schema
begin

text \<open>
  Artifacts, blobs and repositories in the metadata store (\<^verbatim>\<open>internal/meta/artifact.go\<close>,
  \<^verbatim>\<open>blob.go\<close>, \<^verbatim>\<open>repository.go\<close>): the operations, the reference-count invariant of the blob
  table, and what each operation does to it.

  The invariant is stated through \<open>gap\<close>: how far a blob's stored reference count is above the
  number of artifact rows that point at it. Every operation but \<open>DeleteRepository\<close> keeps the gap
  of every blob; \<open>DeleteRepository\<close> can only widen it.
\<close>

section \<open>Lookups\<close>

abbreviation art_key :: "artifact \<Rightarrow> nat \<times> string" where
  "art_key a \<equiv> (a_repo_id a, a_path a)"

definition find_artifact :: "store \<Rightarrow> nat \<Rightarrow> string \<Rightarrow> artifact option" where
  "find_artifact st rid p = List.find (\<lambda>a. art_key a = (rid, p)) (st_artifacts st)"

definition find_blob :: "store \<Rightarrow> string \<Rightarrow> blob option" where
  "find_blob st sha = List.find (\<lambda>b. b_sha256 b = sha) (st_blobs st)"

definition find_repo :: "store \<Rightarrow> nat \<Rightarrow> repository option" where
  "find_repo st i = List.find (\<lambda>r. r_id r = i) (st_repositories st)"

definition GetArtifact :: "store \<Rightarrow> nat \<Rightarrow> string \<Rightarrow> store_error + artifact" where
  "GetArtifact st rid p =
     (if st_fault st TArtifacts then Inl ErrDB
      else case find_artifact st rid p of None \<Rightarrow> Inl ErrNotFound | Some a \<Rightarrow> Inr a)"

definition GetBlob :: "store \<Rightarrow> string \<Rightarrow> store_error + blob" where
  "GetBlob st sha =
     (if st_fault st TBlobs then Inl ErrDB
      else case find_blob st sha of None \<Rightarrow> Inl ErrNotFound | Some b \<Rightarrow> Inr b)"

definition GetRepository :: "store \<Rightarrow> nat \<Rightarrow> store_error + repository" where
  "GetRepository st i =
     (if st_fault st TRepositories then Inl ErrDB
      else case find_repo st i of None \<Rightarrow> Inl ErrNotFound | Some r \<Rightarrow> Inr r)"

definition GetRepositoryByName :: "store \<Rightarrow> string \<Rightarrow> store_error + repository" where
  "GetRepositoryByName st n =
     (if st_fault st TRepositories then Inl ErrDB
      else case List.find (\<lambda>r. r_name r = n) (st_repositories st) of
             None \<Rightarrow> Inl ErrNotFound | Some r \<Rightarrow> Inr r)"

section \<open>Writes\<close>

definition ensure_blob_row :: "instant \<Rightarrow> string \<Rightarrow> int \<Rightarrow> store \<Rightarrow> store" where
  "ensure_blob_row now sha sz st =
     (case find_blob st sha of
        Some b \<Rightarrow> st
      | None \<Rightarrow> st\<lparr>st_blobs := st_blobs st @
          [\<lparr>b_sha256 = sha, b_size = sz, b_ref_count = 0, b_created_at = now\<rparr>]\<rparr>)"

definition EnsureBlob :: "instant \<Rightarrow> string \<Rightarrow> int \<Rightarrow> store \<Rightarrow> (store_error + unit) \<times> store" where
  "EnsureBlob now sha sz st =
     (if st_fault st TBlobs then (Inl ErrDB, st) else (Inr (), ensure_blob_row now sha sz st))"

definition adjustRef :: "string \<Rightarrow> int \<Rightarrow> store \<Rightarrow> store" where
  "adjustRef sha delta st = st\<lparr>st_blobs :=
     update_where (\<lambda>b. b_sha256 b = sha) (\<lambda>b. b\<lparr>b_ref_count := b_ref_count b + delta\<rparr>)
       (st_blobs st)\<rparr>"

text \<open>
  The row \<open>PutArtifact\<close> writes: defaults for an empty content type and metadata document, and
  \<open>now\<close> for the instants the caller left zero.
\<close>

definition put_row :: "instant \<Rightarrow> artifact \<Rightarrow> artifact" where
  "put_row now a = a\<lparr>
     a_content_type := (if a_content_type a = [] then ''application/octet-stream''
                        else a_content_type a),
     a_metadata_json := (if a_metadata_json a = [] then ''{}'' else a_metadata_json a),
     a_cached_at := (if a_cached_at a = 0 then now else a_cached_at a),
     a_last_accessed_at := (if a_last_accessed_at a = 0 then now else a_last_accessed_at a),
     a_updated_at := now\<rparr>"

text \<open>The upsert keeps the identifier of a row it overwrites.\<close>

definition upsert_artifact :: "artifact \<Rightarrow> store \<Rightarrow> store" where
  "upsert_artifact a st =
     (case find_artifact st (a_repo_id a) (a_path a) of
        Some old \<Rightarrow> st\<lparr>st_artifacts :=
          update_where (\<lambda>x. art_key x = art_key a) (\<lambda>x. a\<lparr>a_id := a_id x\<rparr>) (st_artifacts st)\<rparr>
      | None \<Rightarrow> (let i = Suc (st_seq st TArtifacts) in
          st\<lparr>st_artifacts := st_artifacts st @ [a\<lparr>a_id := i\<rparr>],
             st_seq := (st_seq st)(TArtifacts := i)\<rparr>))"

definition PutArtifact :: "instant \<Rightarrow> artifact \<Rightarrow> store \<Rightarrow> (store_error + artifact) \<times> store" where
  "PutArtifact now a0 st =
     (let a = put_row now a0 in
      if st_fault st TBlobs \<or> st_fault st TArtifacts then (Inl ErrDB, st)
      else if find_repo st (a_repo_id a) = None then (Inl ErrForeignKey, st)
      else let st1 = ensure_blob_row now (a_blob_sha256 a) (a_size a) st;
               old = find_artifact st1 (a_repo_id a) (a_path a);
               st2 = upsert_artifact a st1;
               st3 = (case old of
                        None \<Rightarrow> adjustRef (a_blob_sha256 a) 1 st2
                      | Some o' \<Rightarrow>
                          if a_blob_sha256 o' \<noteq> a_blob_sha256 a
                          then adjustRef (a_blob_sha256 o') (- 1) (adjustRef (a_blob_sha256 a) 1 st2)
                          else st2)
           in (GetArtifact st3 (a_repo_id a) (a_path a), st3))"

definition Touch :: "instant \<Rightarrow> nat \<Rightarrow> string \<Rightarrow> store \<Rightarrow> (store_error + unit) \<times> store" where
  "Touch now rid p st =
     (if st_fault st TArtifacts then (Inl ErrDB, st)
      else (Inr (), st\<lparr>st_artifacts := update_where (\<lambda>a. art_key a = (rid, p))
              (\<lambda>a. a\<lparr>a_last_accessed_at := now\<rparr>) (st_artifacts st)\<rparr>))"

definition DeleteArtifact :: "nat \<Rightarrow> string \<Rightarrow> store \<Rightarrow> (store_error + unit) \<times> store" where
  "DeleteArtifact rid p st =
     (if st_fault st TArtifacts then (Inl ErrDB, st)
      else case find_artifact st rid p of
             None \<Rightarrow> (Inl ErrNotFound, st)
           | Some a \<Rightarrow>
               if st_fault st TBlobs then (Inl ErrDB, st)
               else (Inr (), adjustRef (a_blob_sha256 a) (- 1)
                      (st\<lparr>st_artifacts := delete_where (\<lambda>x. art_key x = (rid, p))
                            (st_artifacts st)\<rparr>)))"

text \<open>Rows of one repository that point at a blob.\<close>

definition repo_refs :: "store \<Rightarrow> nat \<Rightarrow> string \<Rightarrow> nat" where
  "repo_refs st rid sha =
     length (filter (\<lambda>a. a_repo_id a = rid \<and> a_blob_sha256 a = sha) (st_artifacts st))"

definition PurgeArtifacts :: "nat \<Rightarrow> store \<Rightarrow> (store_error + nat) \<times> store" where
  "PurgeArtifacts rid st =
     (if st_fault st TArtifacts \<or> st_fault st TBlobs then (Inl ErrDB, st)
      else (Inr (length (filter (\<lambda>a. a_repo_id a = rid) (st_artifacts st))),
            st\<lparr>st_blobs := update_where
                 (\<lambda>b. \<exists>a \<in> set (st_artifacts st). a_repo_id a = rid \<and> a_blob_sha256 a = b_sha256 b)
                 (\<lambda>b. b\<lparr>b_ref_count := b_ref_count b - int (repo_refs st rid (b_sha256 b))\<rparr>)
                 (st_blobs st),
               st_artifacts := delete_where (\<lambda>a. a_repo_id a = rid) (st_artifacts st)\<rparr>))"

text \<open>\<^verbatim>\<open>DELETE FROM blobs WHERE sha256 = ? AND ref_count <= 0\<close>; the foreign key of \<open>artifacts\<close> refuses
  to delete a row that is still referenced.\<close>

definition DeleteBlobRecord :: "string \<Rightarrow> store \<Rightarrow> (store_error + unit) \<times> store" where
  "DeleteBlobRecord sha st =
     (if st_fault st TBlobs then (Inl ErrDB, st)
      else case find_blob st sha of
             None \<Rightarrow> (Inr (), st)
           | Some b \<Rightarrow>
               if 0 < b_ref_count b then (Inr (), st)
               else if \<exists>a \<in> set (st_artifacts st). a_blob_sha256 a = sha then (Inl ErrForeignKey, st)
               else (Inr (), st\<lparr>st_blobs :=
                       delete_where (\<lambda>x. b_sha256 x = sha \<and> b_ref_count x \<le> 0) (st_blobs st)\<rparr>))"

definition ListUnreferencedBlobs :: "store \<Rightarrow> nat \<Rightarrow> store_error + string list" where
  "ListUnreferencedBlobs st lim =
     (if st_fault st TBlobs then Inl ErrDB
      else Inr (take lim (map b_sha256 (filter (\<lambda>b. b_ref_count b \<le> 0) (st_blobs st)))))"

definition CreateRepository :: "instant \<Rightarrow> repository \<Rightarrow> store \<Rightarrow> (store_error + repository) \<times> store"
where
  "CreateRepository now r st =
     (if st_fault st TRepositories then (Inl ErrDB, st)
      else if \<exists>x \<in> set (st_repositories st). r_name x = r_name r then (Inl ErrUnique, st)
      else let i = Suc (st_seq st TRepositories);
               row = r\<lparr>r_id := i,
                       r_config_json := (if r_config_json r = [] then ''{}'' else r_config_json r),
                       r_created_at := now, r_updated_at := now, r_disabled := False\<rparr>;
               st' = st\<lparr>st_repositories := st_repositories st @ [row],
                        st_seq := (st_seq st)(TRepositories := i)\<rparr>
           in (GetRepository st' i, st'))"

text \<open>
  \<open>DeleteRepository\<close> subtracts one from every blob the repository references, whatever the number
  of its rows that reference it, and the foreign key cascade removes the rows.
\<close>

definition DeleteRepository :: "nat \<Rightarrow> store \<Rightarrow> (store_error + unit) \<times> store" where
  "DeleteRepository i st =
     (if st_fault st TBlobs \<or> st_fault st TArtifacts \<or> st_fault st TRepositories then (Inl ErrDB, st)
      else if find_repo st i = None then (Inl ErrNotFound, st)
      else (Inr (),
            st\<lparr>st_blobs := update_where
                 (\<lambda>b. \<exists>a \<in> set (st_artifacts st). a_repo_id a = i \<and> a_blob_sha256 a = b_sha256 b)
                 (\<lambda>b. b\<lparr>b_ref_count := b_ref_count b - 1\<rparr>) (st_blobs st),
               st_artifacts := delete_where (\<lambda>a. a_repo_id a = i) (st_artifacts st),
               st_repositories := delete_where (\<lambda>r. r_id r = i) (st_repositories st)\<rparr>))"

definition update_repo_row ::
  "nat \<Rightarrow> (repository \<Rightarrow> repository) \<Rightarrow> store \<Rightarrow> (store_error + unit) \<times> store" where
  "update_repo_row i f st =
     (if st_fault st TRepositories then (Inl ErrDB, st)
      else if find_repo st i = None then (Inl ErrNotFound, st)
      else (Inr (), st\<lparr>st_repositories :=
              update_where (\<lambda>r. r_id r = i) f (st_repositories st)\<rparr>))"

definition UpdateRepositoryConfig ::
  "instant \<Rightarrow> nat \<Rightarrow> string \<Rightarrow> string \<Rightarrow> store \<Rightarrow> (store_error + unit) \<times> store" where
  "UpdateRepositoryConfig now i url cfg st =
     update_repo_row i (\<lambda>r. r\<lparr>r_upstream_url := url, r_config_json := cfg, r_updated_at := now\<rparr>) st"

definition SetRepositoryDisabled ::
  "instant \<Rightarrow> nat \<Rightarrow> bool \<Rightarrow> store \<Rightarrow> (store_error + unit) \<times> store" where
  "SetRepositoryDisabled now i d st =
     update_repo_row i (\<lambda>r. r\<lparr>r_disabled := d, r_updated_at := now\<rparr>) st"

section \<open>Listings\<close>

text \<open>ORDER BY: a stable insertion sort by a strict order.\<close>

fun insert_by :: "('a \<Rightarrow> 'a \<Rightarrow> bool) \<Rightarrow> 'a \<Rightarrow> 'a list \<Rightarrow> 'a list" where
  "insert_by lt x [] = [x]"
| "insert_by lt x (y # ys) = (if lt y x then y # insert_by lt x ys else x # y # ys)"

definition order_by :: "('a \<Rightarrow> 'a \<Rightarrow> bool) \<Rightarrow> 'a list \<Rightarrow> 'a list" where
  "order_by lt xs = foldr (insert_by lt) xs []"

definition accessed_before :: "artifact \<Rightarrow> artifact \<Rightarrow> bool" where
  "accessed_before a b \<longleftrightarrow>
     text_less (format_time (a_last_accessed_at a)) (format_time (a_last_accessed_at b))"

definition repo_artifacts :: "store \<Rightarrow> nat \<Rightarrow> artifact list" where
  "repo_artifacts st rid = filter (\<lambda>a. a_repo_id a = rid) (st_artifacts st)"

definition ListExpiredArtifacts ::
  "store \<Rightarrow> nat \<Rightarrow> instant \<Rightarrow> nat \<Rightarrow> store_error + artifact list" where
  "ListExpiredArtifacts st rid cutoff lim =
     (if st_fault st TArtifacts then Inl ErrDB
      else Inr (take (if lim = 0 then 256 else lim) (order_by accessed_before
             (filter (\<lambda>a. text_less (format_time (a_last_accessed_at a)) (format_time cutoff))
               (repo_artifacts st rid)))))"

definition CountArtifacts :: "store \<Rightarrow> nat \<Rightarrow> store_error + nat" where
  "CountArtifacts st rid =
     (if st_fault st TArtifacts then Inl ErrDB else Inr (length (repo_artifacts st rid)))"

definition RepoSize :: "store \<Rightarrow> nat \<Rightarrow> store_error + int" where
  "RepoSize st rid =
     (if st_fault st TArtifacts then Inl ErrDB
      else Inr (sum_list (map a_size (repo_artifacts st rid))))"

text \<open>The deletions of \<open>EvictLRU\<close>: a missing row is skipped, any other error stops the loop.\<close>

fun delete_paths :: "nat \<Rightarrow> string list \<Rightarrow> store \<Rightarrow> (store_error + unit) \<times> store" where
  "delete_paths rid [] st = (Inr (), st)"
| "delete_paths rid (p # ps) st =
     (case DeleteArtifact rid p st of
        (Inr u, st') \<Rightarrow> delete_paths rid ps st'
      | (Inl e, st') \<Rightarrow> if e = ErrNotFound then delete_paths rid ps st' else (Inl e, st'))"

definition EvictLRU :: "nat \<Rightarrow> nat \<Rightarrow> store \<Rightarrow> (store_error + nat) \<times> store" where
  "EvictLRU rid lim st =
     (if st_fault st TArtifacts then (Inl ErrDB, st)
      else let paths = map a_path (take lim (order_by accessed_before (repo_artifacts st rid)))
           in case delete_paths rid paths st of
                (Inl e, st') \<Rightarrow> (Inl e, st')
              | (Inr u, st') \<Rightarrow> (Inr (length paths), st'))"

section \<open>The reference-count invariant\<close>

definition nrefs :: "store \<Rightarrow> string \<Rightarrow> nat" where
  "nrefs st sha = length (filter (\<lambda>a. a_blob_sha256 a = sha) (st_artifacts st))"

text \<open>How far the stored count of a recorded blob is above the number of rows that use it.\<close>

definition gap :: "store \<Rightarrow> string \<Rightarrow> int option" where
  "gap st sha = map_option (\<lambda>b. b_ref_count b - int (nrefs st sha)) (find_blob st sha)"

text \<open>The schema's UNIQUE and REFERENCES constraints, and identifiers below the sequence.\<close>

definition schema_ok :: "store \<Rightarrow> bool" where
  "schema_ok st \<longleftrightarrow>
     distinct (map b_sha256 (st_blobs st)) \<and>
     distinct (map art_key (st_artifacts st)) \<and>
     distinct (map r_id (st_repositories st)) \<and>
     distinct (map r_name (st_repositories st)) \<and>
     (\<forall>r \<in> set (st_repositories st). r_id r \<le> st_seq st TRepositories) \<and>
     a_blob_sha256 ` set (st_artifacts st) \<subseteq> b_sha256 ` set (st_blobs st) \<and>
     a_repo_id ` set (st_artifacts st) \<subseteq> r_id ` set (st_repositories st)"

lemma schema_ok_fk:
  "schema_ok st \<Longrightarrow> a_blob_sha256 ` set (st_artifacts st) \<subseteq> b_sha256 ` set (st_blobs st)"
  "schema_ok st \<Longrightarrow> a_repo_id ` set (st_artifacts st) \<subseteq> r_id ` set (st_repositories st)"
  by (simp_all add: schema_ok_def)

text \<open>No blob that is in use has a count that lets the sweeper reclaim it.\<close>

definition refs_safe :: "store \<Rightarrow> bool" where
  "refs_safe st \<longleftrightarrow> (\<forall>sha g. gap st sha = Some g \<longrightarrow> 0 \<le> g)"

text \<open>Every stored count is the number of rows that use the blob.\<close>

definition refs_exact :: "store \<Rightarrow> bool" where
  "refs_exact st \<longleftrightarrow> (\<forall>sha g. gap st sha = Some g \<longrightarrow> g = 0)"

lemma refs_exact_safe: "refs_exact st \<Longrightarrow> refs_safe st"
  by (force simp: refs_exact_def refs_safe_def)

subsection \<open>Finding rows after an update\<close>

lemma find_update_where:
  "(\<And>r. P r \<Longrightarrow> k (f r) = k r) \<Longrightarrow>
   List.find (\<lambda>r. k r = x) (update_where P f rows) =
     map_option (\<lambda>r. if P r then f r else r) (List.find (\<lambda>r. k r = x) rows)"
  by (induction rows) (auto simp: update_where_def)

lemma find_append:
  "List.find P (xs @ ys) = (case List.find P xs of None \<Rightarrow> List.find P ys | Some x \<Rightarrow> Some x)"
  by (induction xs) auto

lemma find_delete_where_other:
  "(\<And>r. r \<in> set rows \<Longrightarrow> k r = x \<Longrightarrow> \<not> P r) \<Longrightarrow>
   List.find (\<lambda>r. k r = x) (delete_where P rows) = List.find (\<lambda>r. k r = x) rows"
  by (induction rows) (auto simp: delete_where_def)

lemma find_delete_where_same:
  "(\<And>r. r \<in> set rows \<Longrightarrow> k r = x \<Longrightarrow> P r) \<Longrightarrow>
   List.find (\<lambda>r. k r = x) (delete_where P rows) = None"
  by (induction rows) (auto simp: delete_where_def)

lemma find_blob_adjustRef:
  "find_blob (adjustRef sha d st) x =
     map_option (\<lambda>b. if x = sha then b\<lparr>b_ref_count := b_ref_count b + d\<rparr> else b)
       (find_blob st x)"
  unfolding find_blob_def adjustRef_def
  by (auto simp: find_update_where dest: find_Some_set intro!: option.map_cong)

lemma find_blob_ensure:
  "find_blob (ensure_blob_row now sha sz st) x =
     (case find_blob st x of
        Some b \<Rightarrow> Some b
      | None \<Rightarrow> if x = sha then
          Some \<lparr>b_sha256 = sha, b_size = sz, b_ref_count = 0, b_created_at = now\<rparr> else None)"
  by (auto simp: find_blob_def ensure_blob_row_def find_append split: option.splits)

lemma find_blob_sha: "find_blob st sha = Some b \<Longrightarrow> b_sha256 b = sha \<and> b \<in> set (st_blobs st)"
  by (auto simp: find_blob_def dest: find_Some_set)

lemma find_blob_None: "find_blob st sha = None \<longleftrightarrow> sha \<notin> b_sha256 ` set (st_blobs st)"
  by (auto simp: find_blob_def find_None_set)

lemma find_repo_None: "find_repo st i = None \<longleftrightarrow> i \<notin> r_id ` set (st_repositories st)"
  by (auto simp: find_repo_def find_None_set)

lemma find_artifact_key:
  "find_artifact st rid p = Some a \<Longrightarrow> art_key a = (rid, p) \<and> a \<in> set (st_artifacts st)"
  by (auto simp: find_artifact_def dest: find_Some_set)

lemma find_artifact_iff:
  "distinct (map art_key (st_artifacts st)) \<Longrightarrow>
   find_artifact st rid p = Some a \<longleftrightarrow> a \<in> set (st_artifacts st) \<and> art_key a = (rid, p)"
  using find_key_unique [of art_key "st_artifacts st" a] find_artifact_key [of st rid p a]
  by (auto simp: find_artifact_def)

text \<open>The fields an operation leaves alone.\<close>

lemma adjustRef_other [simp]:
  "st_artifacts (adjustRef sha d st) = st_artifacts st"
  "st_repositories (adjustRef sha d st) = st_repositories st"
  "st_seq (adjustRef sha d st) = st_seq st"
  "st_fault (adjustRef sha d st) = st_fault st"
  by (simp_all add: adjustRef_def)

lemma ensure_other [simp]:
  "st_artifacts (ensure_blob_row now sha sz st) = st_artifacts st"
  "st_repositories (ensure_blob_row now sha sz st) = st_repositories st"
  "st_seq (ensure_blob_row now sha sz st) = st_seq st"
  "st_fault (ensure_blob_row now sha sz st) = st_fault st"
  by (simp_all add: ensure_blob_row_def split: option.splits)

lemma upsert_other [simp]:
  "st_blobs (upsert_artifact a st) = st_blobs st"
  "st_repositories (upsert_artifact a st) = st_repositories st"
  "st_fault (upsert_artifact a st) = st_fault st"
  "st_seq (upsert_artifact a st) TRepositories = st_seq st TRepositories"
  by (simp_all add: upsert_artifact_def Let_def split: option.splits)

lemma find_blob_upsert [simp]: "find_blob (upsert_artifact a st) sha = find_blob st sha"
  by (simp add: find_blob_def)

lemma find_blob_artifacts [simp]:
  "find_blob (st\<lparr>st_artifacts := as\<rparr>) sha = find_blob st sha"
  "find_blob (st\<lparr>st_repositories := rs\<rparr>) sha = find_blob st sha"
  by (simp_all add: find_blob_def)

lemma nrefs_cong [simp]:
  "nrefs (adjustRef sha d st) x = nrefs st x"
  "nrefs (ensure_blob_row now sha sz st) x = nrefs st x"
  "nrefs (st\<lparr>st_blobs := bs\<rparr>) x = nrefs st x"
  by (simp_all add: nrefs_def)

subsection \<open>Counting references\<close>

lemma length_filter_unique_update:
  assumes "distinct (map k rows)" and "row \<in> set rows" and "k row = x"
  shows "int (length (filter Q (update_where (\<lambda>r. k r = x) f rows))) =
    int (length (filter Q rows)) + (if Q (f row) then 1 else 0) - (if Q row then 1 else 0)"
  using assms
proof (induction rows)
  case Nil
  then show ?case by simp
next
  case (Cons r rows)
  show ?case
  proof (cases "k r = x")
    case True
    with Cons.prems have "row = r" by (auto simp: image_iff)
    moreover from True Cons.prems have "update_where (\<lambda>r. k r = x) f rows = rows"
      by (auto simp: update_where_def image_iff intro!: map_idI)
    ultimately show ?thesis using True by (simp add: update_where_def)
  next
    case False
    with Cons show ?thesis by (auto simp: update_where_def)
  qed
qed

lemma length_filter_unique_delete:
  assumes "distinct (map k rows)" and "row \<in> set rows" and "k row = x"
  shows "int (length (filter Q (delete_where (\<lambda>r. k r = x) rows))) =
    int (length (filter Q rows)) - (if Q row then 1 else 0)"
  using assms
proof (induction rows)
  case Nil
  then show ?case by simp
next
  case (Cons r rows)
  show ?case
  proof (cases "k r = x")
    case True
    with Cons.prems have "row = r" by (auto simp: image_iff)
    moreover from True Cons.prems have "delete_where (\<lambda>r. k r = x) rows = rows"
      by (auto simp: delete_where_def image_iff intro!: filter_True)
    ultimately show ?thesis using True by (simp add: delete_where_def)
  next
    case False
    with Cons show ?thesis by (auto simp: delete_where_def)
  qed
qed

lemma nrefs_pos: "0 < nrefs st sha \<longleftrightarrow> (\<exists>a \<in> set (st_artifacts st). a_blob_sha256 a = sha)"
  by (auto simp: nrefs_def filter_empty_conv)

lemma nrefs_split:
  "nrefs st sha = repo_refs st rid sha +
     length (filter (\<lambda>a. a_blob_sha256 a = sha) (delete_where (\<lambda>a. a_repo_id a = rid) (st_artifacts st)))"
proof -
  have "length (filter (\<lambda>a. a_blob_sha256 a = sha) as) =
      length (filter (\<lambda>a. a_repo_id a = rid \<and> a_blob_sha256 a = sha) as) +
      length (filter (\<lambda>a. a_blob_sha256 a = sha) (delete_where (\<lambda>a. a_repo_id a = rid) as))" for as
    by (induction as) (auto simp: delete_where_def)
  then show ?thesis by (simp add: nrefs_def repo_refs_def)
qed

subsection \<open>What each operation does to the gaps\<close>

lemma nrefs_upsert:
  assumes "distinct (map art_key (st_artifacts st))"
  shows "int (nrefs (upsert_artifact a st) x) = int (nrefs st x) +
    (if a_blob_sha256 a = x then 1 else 0) -
    (case find_artifact st (a_repo_id a) (a_path a) of
       None \<Rightarrow> 0 | Some old \<Rightarrow> if a_blob_sha256 old = x then 1 else 0)"
proof (cases "find_artifact st (a_repo_id a) (a_path a)")
  case None
  then show ?thesis by (simp add: upsert_artifact_def nrefs_def Let_def)
next
  case (Some old)
  then have old: "old \<in> set (st_artifacts st)" "art_key old = art_key a"
    by (auto dest: find_artifact_key)
  show ?thesis
    using length_filter_unique_update [where k = art_key and rows = "st_artifacts st" and row = old
        and x = "art_key a" and f = "\<lambda>y. a\<lparr>a_id := a_id y\<rparr>" and Q = "\<lambda>y. a_blob_sha256 y = x"]
      assms old Some
    by (simp add: upsert_artifact_def nrefs_def)
qed

lemma gap_adjustRef:
  "gap (adjustRef sha d st) x = map_option (\<lambda>g. if x = sha then g + d else g) (gap st x)"
  by (auto simp: gap_def find_blob_adjustRef option.map_comp o_def intro!: option.map_cong)

lemma gap_nrefs:
  assumes "st_blobs st' = st_blobs st" and "int (nrefs st' x) = int (nrefs st x) + d"
  shows "gap st' x = map_option (\<lambda>g. g - d) (gap st x)"
  using assms by (simp add: gap_def find_blob_def option.map_comp o_def diff_diff_eq)

lemma unrecorded_unused: "schema_ok st \<Longrightarrow> find_blob st sha = None \<Longrightarrow> nrefs st sha = 0"
  using nrefs_pos [of st sha] find_blob_None [of st sha] by (force simp: schema_ok_def)

lemma gap_ensure:
  assumes "schema_ok st"
  shows "gap (ensure_blob_row now sha sz st) =
    (if find_blob st sha = None then (gap st)(sha \<mapsto> 0) else gap st)"
proof
  fix x
  show "gap (ensure_blob_row now sha sz st) x =
      (if find_blob st sha = None then (gap st)(sha \<mapsto> 0) else gap st) x"
    using assms unrecorded_unused [of st sha]
    by (auto simp: gap_def find_blob_ensure split: option.splits)
qed

text \<open>The store a successful put leaves.\<close>

definition put_store :: "instant \<Rightarrow> artifact \<Rightarrow> store \<Rightarrow> store" where
  "put_store now a st =
     (let st1 = ensure_blob_row now (a_blob_sha256 a) (a_size a) st;
          st2 = upsert_artifact a st1
      in case find_artifact st1 (a_repo_id a) (a_path a) of
           None \<Rightarrow> adjustRef (a_blob_sha256 a) 1 st2
         | Some old \<Rightarrow>
             if a_blob_sha256 old \<noteq> a_blob_sha256 a
             then adjustRef (a_blob_sha256 old) (- 1) (adjustRef (a_blob_sha256 a) 1 st2)
             else st2)"

lemma PutArtifact_cases:
  "snd (PutArtifact now a0 st) =
     (if st_fault st TBlobs \<or> st_fault st TArtifacts \<or> find_repo st (a_repo_id a0) = None then st
      else put_store now (put_row now a0) st)"
  by (simp add: PutArtifact_def put_store_def put_row_def Let_def)

lemma find_artifact_ensure [simp]:
  "find_artifact (ensure_blob_row now sha sz st) rid p = find_artifact st rid p"
  by (simp add: find_artifact_def)

lemma put_gap:
  assumes "schema_ok st"
  shows "gap (put_store now a st) =
    (if find_blob st (a_blob_sha256 a) = None then (gap st)(a_blob_sha256 a \<mapsto> 0) else gap st)"
proof -
  let ?st1 = "ensure_blob_row now (a_blob_sha256 a) (a_size a) st"
  have d: "distinct (map art_key (st_artifacts ?st1))"
    using assms by (simp add: schema_ok_def)
  have "gap (upsert_artifact a ?st1) x = map_option (\<lambda>g. g - ((if a_blob_sha256 a = x then 1 else 0) -
      (case find_artifact st (a_repo_id a) (a_path a) of
         None \<Rightarrow> 0 | Some old \<Rightarrow> if a_blob_sha256 old = x then 1 else 0))) (gap ?st1 x)" for x
    using nrefs_upsert [OF d, of a x] by (intro gap_nrefs) (simp_all only: upsert_other, simp)
  then have "gap (put_store now a st) x = gap ?st1 x" for x
    by (cases "gap ?st1 x")
      (auto simp: put_store_def Let_def gap_adjustRef split: option.splits)
  then have "gap (put_store now a st) = gap ?st1" by (rule ext)
  then show ?thesis using gap_ensure [OF assms] by simp
qed

lemma delete_gap:
  assumes "schema_ok st" and "find_artifact st rid p = Some a"
  shows "gap (adjustRef (a_blob_sha256 a) (- 1)
      (st\<lparr>st_artifacts := delete_where (\<lambda>x. art_key x = (rid, p)) (st_artifacts st)\<rparr>)) = gap st"
    (is "gap (adjustRef _ _ ?st) = _")
proof
  fix x
  have "int (nrefs ?st x) = int (nrefs st x) + (if a_blob_sha256 a = x then - 1 else 0)"
    using length_filter_unique_delete [where k = art_key and rows = "st_artifacts st" and row = a
        and x = "(rid, p)" and Q = "\<lambda>y. a_blob_sha256 y = x"] assms find_artifact_key [OF assms(2)]
    by (simp add: nrefs_def schema_ok_def)
  then have "gap ?st x = map_option (\<lambda>g. g - (if a_blob_sha256 a = x then - 1 else 0)) (gap st x)"
    by (intro gap_nrefs) simp_all
  then show "gap (adjustRef (a_blob_sha256 a) (- 1) ?st) x = gap st x"
    by (cases "gap st x") (auto simp: gap_adjustRef)
qed

lemma find_blob_update_where:
  "(\<And>b. b_sha256 (f b) = b_sha256 b) \<Longrightarrow>
   find_blob (st\<lparr>st_blobs := update_where P f (st_blobs st)\<rparr>) x =
     map_option (\<lambda>b. if P b then f b else b) (find_blob st x)"
  by (simp add: find_blob_def find_update_where)

lemma repo_refs_pos:
  "0 < repo_refs st rid sha \<longleftrightarrow>
     (\<exists>a \<in> set (st_artifacts st). a_repo_id a = rid \<and> a_blob_sha256 a = sha)"
  by (auto simp: repo_refs_def filter_empty_conv)

text \<open>Removing a repository's rows while its blobs lose \<open>lost b\<close> references each.\<close>

definition drop_repo_rows :: "nat \<Rightarrow> (blob \<Rightarrow> int) \<Rightarrow> store \<Rightarrow> store" where
  "drop_repo_rows rid lost st = st\<lparr>st_blobs := update_where
       (\<lambda>b. \<exists>a \<in> set (st_artifacts st). a_repo_id a = rid \<and> a_blob_sha256 a = b_sha256 b)
       (\<lambda>b. b\<lparr>b_ref_count := b_ref_count b - lost b\<rparr>) (st_blobs st),
     st_artifacts := delete_where (\<lambda>a. a_repo_id a = rid) (st_artifacts st)\<rparr>"

lemma drop_repo_gap:
  assumes "\<And>b. b_sha256 b = x \<Longrightarrow> lost b = l"
  shows "gap (drop_repo_rows rid lost st) x =
    map_option (\<lambda>g. g + int (repo_refs st rid x) - (if 0 < repo_refs st rid x then l else 0))
      (gap st x)"
proof -
  have fb: "find_blob (drop_repo_rows rid lost st) x =
      map_option (\<lambda>b. if 0 < repo_refs st rid (b_sha256 b)
        then b\<lparr>b_ref_count := b_ref_count b - lost b\<rparr> else b) (find_blob st x)"
    using find_blob_update_where [where f = "\<lambda>b. b\<lparr>b_ref_count := b_ref_count b - lost b\<rparr>"
        and st = st and x = x]
    by (simp add: drop_repo_rows_def repo_refs_pos)
  have nr: "int (nrefs (drop_repo_rows rid lost st) x) = int (nrefs st x) - int (repo_refs st rid x)"
    using nrefs_split [of st x rid] by (simp add: drop_repo_rows_def nrefs_def)
  show ?thesis
  proof (cases "find_blob st x")
    case None
    then show ?thesis by (simp add: gap_def fb)
  next
    case (Some b)
    moreover from Some have "b_sha256 b = x" by (simp add: find_blob_sha)
    ultimately show ?thesis using assms [of b] by (simp add: gap_def fb nr)
  qed
qed

lemma PurgeArtifacts_store:
  "snd (PurgeArtifacts rid st) =
     (if st_fault st TArtifacts \<or> st_fault st TBlobs then st
      else drop_repo_rows rid (\<lambda>b. int (repo_refs st rid (b_sha256 b))) st)"
  by (simp add: PurgeArtifacts_def drop_repo_rows_def)

lemma purge_gap: "gap (drop_repo_rows rid (\<lambda>b. int (repo_refs st rid (b_sha256 b))) st) = gap st"
proof
  fix x
  have "gap (drop_repo_rows rid (\<lambda>b. int (repo_refs st rid (b_sha256 b))) st) x =
      map_option (\<lambda>g. g + int (repo_refs st rid x) -
        (if 0 < repo_refs st rid x then int (repo_refs st rid x) else 0)) (gap st x)"
    by (rule drop_repo_gap) simp
  then show "gap (drop_repo_rows rid (\<lambda>b. int (repo_refs st rid (b_sha256 b))) st) x = gap st x"
    by (cases "gap st x") auto
qed

lemma gap_repositories [simp]: "gap (st\<lparr>st_repositories := rs\<rparr>) = gap st"
  by (simp add: gap_def nrefs_def fun_eq_iff)

lemma gap_touch_rows:
  "(\<And>a. a_blob_sha256 (f a) = a_blob_sha256 a) \<Longrightarrow>
   gap (st\<lparr>st_artifacts := update_where P f (st_artifacts st)\<rparr>) = gap st"
proof -
  assume f: "\<And>a. a_blob_sha256 (f a) = a_blob_sha256 a"
  have "length (filter (\<lambda>a. a_blob_sha256 a = x) (update_where P f as)) =
      length (filter (\<lambda>a. a_blob_sha256 a = x) as)" for x as
    by (induction as) (auto simp: update_where_def f)
  then show ?thesis by (simp add: gap_def nrefs_def fun_eq_iff)
qed

lemma DeleteRepository_store:
  "snd (DeleteRepository i st) =
     (if st_fault st TBlobs \<or> st_fault st TArtifacts \<or> st_fault st TRepositories \<or>
         find_repo st i = None then st
      else (drop_repo_rows i (\<lambda>b. 1) st)\<lparr>st_repositories :=
             delete_where (\<lambda>r. r_id r = i) (st_repositories st)\<rparr>)"
  by (simp add: DeleteRepository_def drop_repo_rows_def)

lemma delete_repo_gap:
  "gap (drop_repo_rows i (\<lambda>b. 1) st) x =
     map_option (\<lambda>g. g + int (repo_refs st i x - 1)) (gap st x)"
proof -
  have "gap (drop_repo_rows i (\<lambda>b. 1) st) x =
      map_option (\<lambda>g. g + int (repo_refs st i x) - (if 0 < repo_refs st i x then 1 else 0)) (gap st x)"
    by (rule drop_repo_gap) simp
  then show ?thesis by (cases "gap st x") auto
qed

lemma DeleteBlobRecord_store:
  assumes "schema_ok st" and "refs_safe st"
  shows "snd (DeleteBlobRecord sha st) =
    (if st_fault st TBlobs then st
     else case find_blob st sha of
            None \<Rightarrow> st
          | Some b \<Rightarrow> if 0 < b_ref_count b then st
                      else st\<lparr>st_blobs := delete_where (\<lambda>x. b_sha256 x = sha) (st_blobs st)\<rparr>)"
proof (cases "find_blob st sha")
  case None
  then show ?thesis by (simp add: DeleteBlobRecord_def)
next
  case (Some b)
  show ?thesis
  proof (cases "0 < b_ref_count b")
    case True
    with Some show ?thesis by (simp add: DeleteBlobRecord_def)
  next
    case False
    from Some assms(2) have "int (nrefs st sha) \<le> b_ref_count b"
      by (force simp: refs_safe_def gap_def)
    with False have "\<not> (\<exists>a \<in> set (st_artifacts st). a_blob_sha256 a = sha)"
      by (metis linorder_not_less nrefs_pos of_nat_0_less_iff order_le_less_trans order_less_le_trans)
    moreover have "delete_where (\<lambda>x. b_sha256 x = sha \<and> b_ref_count x \<le> 0) (st_blobs st) =
        delete_where (\<lambda>x. b_sha256 x = sha) (st_blobs st)"
    proof -
      have "x = b" if "x \<in> set (st_blobs st)" "b_sha256 x = sha" for x
        using assms(1) find_blob_sha [OF Some] that
        by (intro distinct_key_eq [of b_sha256 "st_blobs st"]) (simp_all add: schema_ok_def)
      with False show ?thesis
        unfolding delete_where_def by (intro filter_cong refl) auto
    qed
    ultimately show ?thesis using Some False by (auto simp: DeleteBlobRecord_def)
  qed
qed

lemma delete_blob_gap:
  "gap (st\<lparr>st_blobs := delete_where (\<lambda>x. b_sha256 x = sha) (st_blobs st)\<rparr>) = (gap st)(sha := None)"
proof
  fix x
  show "gap (st\<lparr>st_blobs := delete_where (\<lambda>x. b_sha256 x = sha) (st_blobs st)\<rparr>) x =
      ((gap st)(sha := None)) x"
    by (cases "x = sha")
      (simp_all add: gap_def find_blob_def find_delete_where_same find_delete_where_other)
qed

subsection \<open>The schema constraints are kept\<close>

lemma map_sha_adjustRef [simp]:
  "map b_sha256 (st_blobs (adjustRef sha d st)) = map b_sha256 (st_blobs st)"
  by (simp add: adjustRef_def update_where_map_id)

lemma set_sha_adjustRef [simp]:
  "b_sha256 ` set (st_blobs (adjustRef sha d st)) = b_sha256 ` set (st_blobs st)"
  by (metis map_sha_adjustRef set_map)

lemma schema_ok_adjustRef [simp]: "schema_ok (adjustRef sha d st) \<longleftrightarrow> schema_ok st"
  by (simp add: schema_ok_def)

lemma schema_ok_ensure: "schema_ok st \<Longrightarrow> schema_ok (ensure_blob_row now sha sz st)"
  unfolding ensure_blob_row_def
  by (auto simp: schema_ok_def find_blob_None split: option.splits)

lemma find_artifact_None:
  "find_artifact st rid p = None \<longleftrightarrow> (rid, p) \<notin> art_key ` set (st_artifacts st)"
  by (auto simp: find_artifact_def find_None_set)

lemma upsert_artifact_rows:
  "map art_key (st_artifacts (upsert_artifact a st)) =
     (if find_artifact st (a_repo_id a) (a_path a) = None
      then map art_key (st_artifacts st) @ [art_key a] else map art_key (st_artifacts st))"
  by (auto simp: upsert_artifact_def Let_def update_where_def split: option.splits)

lemma upsert_artifact_set:
  "set (st_artifacts (upsert_artifact a st)) \<subseteq>
     set (st_artifacts st) \<union> range (\<lambda>i. a\<lparr>a_id := i\<rparr>)"
  by (auto simp: upsert_artifact_def Let_def set_update_where split: option.splits)

lemma upsert_artifact_image:
  assumes "\<And>i. k (a\<lparr>a_id := i\<rparr>) = k a"
  shows "k ` set (st_artifacts (upsert_artifact a st)) \<subseteq> insert (k a) (k ` set (st_artifacts st))"
proof
  fix y
  assume "y \<in> k ` set (st_artifacts (upsert_artifact a st))"
  then obtain x where "y = k x" and "x \<in> set (st_artifacts st) \<union> range (\<lambda>i. a\<lparr>a_id := i\<rparr>)"
    using upsert_artifact_set [of a st] by blast
  then show "y \<in> insert (k a) (k ` set (st_artifacts st))" using assms by auto
qed

lemma schema_ok_upsert:
  assumes "schema_ok st" and "a_blob_sha256 a \<in> b_sha256 ` set (st_blobs st)"
    and "a_repo_id a \<in> r_id ` set (st_repositories st)"
  shows "schema_ok (upsert_artifact a st)"
proof -
  have "distinct (map art_key (st_artifacts (upsert_artifact a st)))"
    using assms(1) find_artifact_None [of st "a_repo_id a" "a_path a"]
    by (simp add: upsert_artifact_rows schema_ok_def)
  moreover have "a_blob_sha256 ` set (st_artifacts (upsert_artifact a st)) \<subseteq>
      b_sha256 ` set (st_blobs st)"
    using upsert_artifact_image [of a_blob_sha256 a st]
      insert_subsetI [OF assms(2) schema_ok_fk(1) [OF assms(1)]] by (simp add: subset_trans)
  moreover have "a_repo_id ` set (st_artifacts (upsert_artifact a st)) \<subseteq> r_id ` set (st_repositories st)"
    using upsert_artifact_image [of a_repo_id a st]
      insert_subsetI [OF assms(3) schema_ok_fk(2) [OF assms(1)]] by (simp add: subset_trans)
  ultimately show ?thesis using assms(1) by (simp add: schema_ok_def)
qed

lemma schema_ok_put:
  assumes "schema_ok st" and "find_repo st (a_repo_id a) \<noteq> None"
  shows "schema_ok (put_store now a st)"
proof -
  let ?st1 = "ensure_blob_row now (a_blob_sha256 a) (a_size a) st"
  have "a_blob_sha256 a \<in> b_sha256 ` set (st_blobs ?st1)"
    using find_blob_None [of ?st1 "a_blob_sha256 a"]
    by (auto simp: find_blob_ensure split: option.splits)
  then have "schema_ok (upsert_artifact a ?st1)"
    using assms schema_ok_ensure [OF assms(1)] find_repo_None [of st]
    by (intro schema_ok_upsert) auto
  then show ?thesis by (auto simp: put_store_def Let_def split: option.splits)
qed

lemma schema_ok_artifact_subset:
  assumes "schema_ok st" and "set as \<subseteq> set (st_artifacts st)" and "distinct (map art_key as)"
  shows "schema_ok (st\<lparr>st_artifacts := as\<rparr>)"
proof -
  have "a_blob_sha256 ` set as \<subseteq> b_sha256 ` set (st_blobs st)"
    using image_mono [OF assms(2)] schema_ok_fk(1) [OF assms(1)] by (rule subset_trans)
  moreover have "a_repo_id ` set as \<subseteq> r_id ` set (st_repositories st)"
    using image_mono [OF assms(2)] schema_ok_fk(2) [OF assms(1)] by (rule subset_trans)
  ultimately show ?thesis using assms(1,3) by (simp add: schema_ok_def)
qed

lemma schema_ok_delete_rows:
  "schema_ok st \<Longrightarrow> schema_ok (st\<lparr>st_artifacts := delete_where P (st_artifacts st)\<rparr>)"
  by (rule schema_ok_artifact_subset) (auto simp: schema_ok_def intro: distinct_delete_where)

lemma schema_ok_blob_counts:
  "schema_ok st \<Longrightarrow> (\<And>b. b_sha256 (f b) = b_sha256 b) \<Longrightarrow>
   schema_ok (st\<lparr>st_blobs := update_where P f (st_blobs st)\<rparr>)"
  by (simp add: schema_ok_def update_where_map_id image_update_where)

lemma schema_ok_drop_repo: "schema_ok st \<Longrightarrow> schema_ok (drop_repo_rows rid lost st)"
proof -
  assume "schema_ok st"
  then have "schema_ok (st\<lparr>st_blobs := update_where
       (\<lambda>b. \<exists>a \<in> set (st_artifacts st). a_repo_id a = rid \<and> a_blob_sha256 a = b_sha256 b)
       (\<lambda>b. b\<lparr>b_ref_count := b_ref_count b - lost b\<rparr>) (st_blobs st)\<rparr>)"
    by (rule schema_ok_blob_counts) simp
  from schema_ok_delete_rows [OF this] show ?thesis by (simp add: drop_repo_rows_def)
qed

lemma schema_ok_touch:
  assumes "schema_ok st" and "\<And>a. art_key (f a) = art_key a" and "\<And>a. a_blob_sha256 (f a) = a_blob_sha256 a"
  shows "schema_ok (st\<lparr>st_artifacts := update_where P f (st_artifacts st)\<rparr>)"
proof -
  have "map art_key (update_where P f (st_artifacts st)) = map art_key (st_artifacts st)"
    and "a_blob_sha256 ` set (update_where P f (st_artifacts st)) = a_blob_sha256 ` set (st_artifacts st)"
    and "a_repo_id ` set (update_where P f (st_artifacts st)) = a_repo_id ` set (st_artifacts st)"
    using assms(2,3) by (simp_all add: update_where_map_id image_update_where)
  with assms(1) show ?thesis by (simp add: schema_ok_def)
qed

lemma schema_ok_delete_blob:
  assumes "schema_ok st" and "nrefs st sha = 0"
  shows "schema_ok (st\<lparr>st_blobs := delete_where (\<lambda>x. b_sha256 x = sha) (st_blobs st)\<rparr>)"
proof -
  have "sha \<notin> a_blob_sha256 ` set (st_artifacts st)"
    using assms(2) nrefs_pos [of st sha] by auto
  with schema_ok_fk(1) [OF assms(1)] have "a_blob_sha256 ` set (st_artifacts st) \<subseteq>
      b_sha256 ` set (delete_where (\<lambda>x. b_sha256 x = sha) (st_blobs st))"
    by (rule subset_image_delete)
  with assms(1) show ?thesis by (simp add: schema_ok_def distinct_delete_where)
qed

end
