(* ===== verification/Ref_Counts.thy ===== *)
theory Ref_Counts
  imports Artifacts
begin

text \<open>
  Blob reference counts over whole histories of the metadata store. The contract every store
  operation keeps is the locale \<open>ref_op\<close> (the schema constraints hold afterwards, and no blob's
  count drops below its number of uses); \<open>exact_ref_op\<close> adds that the count stays equal to it.
  Each operation of \<open>Artifacts\<close> is an interpretation, and the properties at the end rest on them.
\<close>

section \<open>The contracts\<close>

locale ref_op =
  fixes f :: "store \<Rightarrow> store"
  assumes keeps_schema: "schema_ok st \<Longrightarrow> refs_safe st \<Longrightarrow> schema_ok (f st)"
    and gap_grows: "schema_ok st \<Longrightarrow> refs_safe st \<Longrightarrow> gap (f st) x = Some g' \<Longrightarrow>
      g' = 0 \<or> (\<exists>g. gap st x = Some g \<and> g \<le> g')"
begin

lemma keeps_safe:
  assumes "schema_ok st" and "refs_safe st"
  shows "refs_safe (f st)"
  unfolding refs_safe_def
proof (intro allI impI)
  fix x g'
  assume "gap (f st) x = Some g'"
  then have "g' = 0 \<or> (\<exists>g. gap st x = Some g \<and> g \<le> g')"
    by (rule gap_grows [OF assms])
  with assms(2) show "0 \<le> g'" by (force simp: refs_safe_def)
qed

end

locale exact_ref_op = ref_op +
  assumes gap_kept: "schema_ok st \<Longrightarrow> refs_safe st \<Longrightarrow> gap (f st) x = Some g' \<Longrightarrow>
    g' = 0 \<or> gap st x = Some g'"
begin

lemma keeps_exact:
  assumes "schema_ok st" and "refs_exact st"
  shows "refs_exact (f st)"
  unfolding refs_exact_def
proof (intro allI impI)
  fix x g'
  assume "gap (f st) x = Some g'"
  then have "g' = 0 \<or> gap st x = Some g'"
    by (rule gap_kept [OF assms(1) refs_exact_safe [OF assms(2)]])
  with assms(2) show "g' = 0" by (auto simp: refs_exact_def)
qed

end

text \<open>An operation that leaves every gap alone meets both.\<close>

lemma exact_ref_opI:
  assumes "\<And>st. schema_ok st \<Longrightarrow> refs_safe st \<Longrightarrow> schema_ok (f st)"
    and "\<And>st x g'. schema_ok st \<Longrightarrow> refs_safe st \<Longrightarrow> gap (f st) x = Some g' \<Longrightarrow>
      g' = 0 \<or> gap st x = Some g'"
  shows "exact_ref_op f"
  using assms by unfold_locales blast+

section \<open>The operations meet them\<close>

lemma put_row_keys [simp]:
  "a_repo_id (put_row now a) = a_repo_id a" "a_path (put_row now a) = a_path a"
  "a_blob_sha256 (put_row now a) = a_blob_sha256 a" "a_size (put_row now a) = a_size a"
  by (simp_all add: put_row_def)

interpretation put: exact_ref_op "\<lambda>st. snd (PutArtifact now a st)" for now a
proof (rule exact_ref_opI)
  fix st x g'
  assume ok: "schema_ok st" "refs_safe st"
  then show "schema_ok (snd (PutArtifact now a st))"
    by (auto simp: PutArtifact_cases intro!: schema_ok_put)
  assume "gap (snd (PutArtifact now a st)) x = Some g'"
  then show "g' = 0 \<or> gap st x = Some g'"
    using ok put_gap [of st now "put_row now a"]
    by (auto simp: PutArtifact_cases split: if_splits)
qed

interpretation ensure: exact_ref_op "\<lambda>st. snd (EnsureBlob now sha sz st)" for now sha sz
proof (rule exact_ref_opI)
  fix st x g'
  assume ok: "schema_ok st" "refs_safe st"
  then show "schema_ok (snd (EnsureBlob now sha sz st))"
    by (simp add: EnsureBlob_def schema_ok_ensure)
  assume "gap (snd (EnsureBlob now sha sz st)) x = Some g'"
  then show "g' = 0 \<or> gap st x = Some g'"
    using ok gap_ensure [of st now sha sz] by (auto simp: EnsureBlob_def split: if_splits)
qed

interpretation touch: exact_ref_op "\<lambda>st. snd (Touch now rid p st)" for now rid p
proof (rule exact_ref_opI)
  fix st x g'
  assume ok: "schema_ok st" "refs_safe st"
  then show "schema_ok (snd (Touch now rid p st))"
    by (simp add: Touch_def schema_ok_touch)
  assume "gap (snd (Touch now rid p st)) x = Some g'"
  then show "g' = 0 \<or> gap st x = Some g'"
    by (simp add: Touch_def gap_touch_rows split: if_splits)
qed

lemma DeleteArtifact_store:
  "snd (DeleteArtifact rid p st) =
     (case find_artifact st rid p of
        None \<Rightarrow> st
      | Some a \<Rightarrow>
          if st_fault st TArtifacts \<or> st_fault st TBlobs then st
          else adjustRef (a_blob_sha256 a) (- 1)
            (st\<lparr>st_artifacts := delete_where (\<lambda>x. art_key x = (rid, p)) (st_artifacts st)\<rparr>))"
  by (simp add: DeleteArtifact_def split: option.splits)

lemma DeleteArtifact_ok:
  assumes "schema_ok st"
  shows "schema_ok (snd (DeleteArtifact rid p st))" and "gap (snd (DeleteArtifact rid p st)) = gap st"
  using assms delete_gap [OF assms] schema_ok_delete_rows [OF assms]
  by (simp_all add: DeleteArtifact_store split: option.splits)

interpretation delete: exact_ref_op "\<lambda>st. snd (DeleteArtifact rid p st)" for rid p
  by (rule exact_ref_opI) (simp_all add: DeleteArtifact_ok)

interpretation purge: exact_ref_op "\<lambda>st. snd (PurgeArtifacts rid st)" for rid
  by (rule exact_ref_opI)
    (simp_all add: PurgeArtifacts_store purge_gap schema_ok_drop_repo split: if_splits)

lemma delete_paths_ok:
  "schema_ok st \<Longrightarrow> schema_ok (snd (delete_paths rid ps st)) \<and> gap (snd (delete_paths rid ps st)) = gap st"
proof (induction ps arbitrary: st)
  case Nil
  then show ?case by simp
next
  case (Cons p ps)
  have d: "schema_ok (snd (DeleteArtifact rid p st))" "gap (snd (DeleteArtifact rid p st)) = gap st"
    using Cons.prems by (simp_all add: DeleteArtifact_ok)
  show ?case
    using Cons.IH [OF d(1)] d by (auto split: prod.splits sum.splits)
qed

lemma EvictLRU_store:
  "snd (EvictLRU rid lim st) =
     (if st_fault st TArtifacts then st
      else snd (delete_paths rid
             (map a_path (take lim (order_by accessed_before (repo_artifacts st rid)))) st))"
  by (simp add: EvictLRU_def Let_def split: prod.splits sum.splits)

interpretation evict: exact_ref_op "\<lambda>st. snd (EvictLRU rid lim st)" for rid lim
  by (rule exact_ref_opI) (simp_all add: EvictLRU_store delete_paths_ok split: if_splits)

lemma blob_count_unused:
  assumes "refs_safe st" and "find_blob st sha = Some b" and "b_ref_count b \<le> 0"
  shows "nrefs st sha = 0"
  using assms by (force simp: refs_safe_def gap_def)

interpretation delete_record: exact_ref_op "\<lambda>st. snd (DeleteBlobRecord sha st)" for sha
proof (rule exact_ref_opI)
  fix st x g'
  assume ok: "schema_ok st" "refs_safe st"
  then show "schema_ok (snd (DeleteBlobRecord sha st))"
    by (auto simp: DeleteBlobRecord_store blob_count_unused schema_ok_delete_blob split: option.splits)
  assume "gap (snd (DeleteBlobRecord sha st)) x = Some g'"
  then show "g' = 0 \<or> gap st x = Some g'"
    using ok by (auto simp: DeleteBlobRecord_store delete_blob_gap split: option.splits if_splits)
qed

lemma CreateRepository_store:
  "snd (CreateRepository now r st) =
     (if st_fault st TRepositories \<or> (\<exists>x \<in> set (st_repositories st). r_name x = r_name r) then st
      else st\<lparr>st_repositories := st_repositories st @
           [r\<lparr>r_id := Suc (st_seq st TRepositories),
              r_config_json := (if r_config_json r = [] then ''{}'' else r_config_json r),
              r_created_at := now, r_updated_at := now, r_disabled := False\<rparr>],
         st_seq := (st_seq st)(TRepositories := Suc (st_seq st TRepositories))\<rparr>)"
  by (simp add: CreateRepository_def Let_def)

lemma gap_seq [simp]: "gap (st\<lparr>st_seq := s\<rparr>) = gap st" "gap (st\<lparr>st_fault := ft\<rparr>) = gap st"
  by (simp_all add: gap_def find_blob_def nrefs_def fun_eq_iff)

lemma schema_ok_create:
  assumes "schema_ok st" and "r_name r \<notin> r_name ` set (st_repositories st)"
    and "r_id r = Suc (st_seq st TRepositories)"
  shows "schema_ok (st\<lparr>st_repositories := st_repositories st @ [r],
     st_seq := (st_seq st)(TRepositories := Suc (st_seq st TRepositories))\<rparr>)"
proof -
  have below: "\<forall>x \<in> set (st_repositories st). r_id x \<le> st_seq st TRepositories"
    using assms(1) by (simp add: schema_ok_def)
  then have "r_id r \<notin> r_id ` set (st_repositories st)"
    using assms(3) by (auto dest!: bspec)
  moreover have "a_repo_id ` set (st_artifacts st) \<subseteq> r_id ` set (st_repositories st @ [r])"
    using schema_ok_fk(2) [OF assms(1)] by auto
  ultimately show ?thesis using assms below by (simp add: schema_ok_def le_Suc_eq)
qed

interpretation create_repo: exact_ref_op "\<lambda>st. snd (CreateRepository now r st)" for now r
proof (rule exact_ref_opI)
  fix st x g'
  assume ok: "schema_ok st" "refs_safe st"
  then show "schema_ok (snd (CreateRepository now r st))"
    by (auto simp: CreateRepository_store intro!: schema_ok_create)
  assume "gap (snd (CreateRepository now r st)) x = Some g'"
  then show "g' = 0 \<or> gap st x = Some g'"
    by (simp add: CreateRepository_store split: if_splits)
qed

lemma update_repo_row_ok:
  assumes "schema_ok st" and "\<And>r. r_id (f r) = r_id r" and "\<And>r. r_name (f r) = r_name r"
  shows "schema_ok (snd (update_repo_row i f st))" and "gap (snd (update_repo_row i f st)) = gap st"
proof -
  have "\<forall>r \<in> set (update_where (\<lambda>r. r_id r = i) f (st_repositories st)). r_id r \<le> st_seq st TRepositories"
    using assms by (auto simp: schema_ok_def set_update_where)
  then show "schema_ok (snd (update_repo_row i f st))"
    using assms by (simp add: update_repo_row_def schema_ok_def update_where_map_id image_update_where)
  show "gap (snd (update_repo_row i f st)) = gap st" by (simp add: update_repo_row_def)
qed

interpretation update_config: exact_ref_op "\<lambda>st. snd (UpdateRepositoryConfig now i url cfg st)"
  for now i url cfg
  by (rule exact_ref_opI) (simp_all add: UpdateRepositoryConfig_def update_repo_row_ok)

interpretation set_disabled: exact_ref_op "\<lambda>st. snd (SetRepositoryDisabled now i d st)" for now i d
  by (rule exact_ref_opI) (simp_all add: SetRepositoryDisabled_def update_repo_row_ok)

lemma schema_ok_delete_repo:
  assumes "schema_ok st" and "i \<notin> a_repo_id ` set (st_artifacts st)"
  shows "schema_ok (st\<lparr>st_repositories := delete_where (\<lambda>r. r_id r = i) (st_repositories st)\<rparr>)"
proof -
  have "a_repo_id ` set (st_artifacts st) \<subseteq>
      r_id ` set (delete_where (\<lambda>r. r_id r = i) (st_repositories st))"
    using schema_ok_fk(2) [OF assms(1)] assms(2) by (rule subset_image_delete)
  with assms(1) show ?thesis by (simp add: schema_ok_def distinct_delete_where)
qed

text \<open>\<open>DeleteRepository\<close> meets only the weaker contract.\<close>

interpretation delete_repo: ref_op "\<lambda>st. snd (DeleteRepository i st)" for i
proof
  fix st x g'
  assume ok: "schema_ok st" "refs_safe st"
  have "i \<notin> a_repo_id ` set (st_artifacts (drop_repo_rows i (\<lambda>b. 1) st))"
    by (auto simp: drop_repo_rows_def)
  then have "schema_ok ((drop_repo_rows i (\<lambda>b. 1) st)\<lparr>st_repositories :=
      delete_where (\<lambda>r. r_id r = i) (st_repositories (drop_repo_rows i (\<lambda>b. 1) st))\<rparr>)"
    using schema_ok_drop_repo [OF ok(1)] by (intro schema_ok_delete_repo)
  then show "schema_ok (snd (DeleteRepository i st))"
    using ok by (simp add: DeleteRepository_store drop_repo_rows_def)
  assume "gap (snd (DeleteRepository i st)) x = Some g'"
  then show "g' = 0 \<or> (\<exists>g. gap st x = Some g \<and> g \<le> g')"
    by (auto simp: DeleteRepository_store delete_repo_gap split: if_splits)
qed

section \<open>Histories\<close>

datatype store_op =
    OpPut instant artifact | OpEnsureBlob instant string int | OpTouch instant nat string
  | OpDelete nat string | OpPurge nat | OpEvict nat nat | OpDeleteBlobRecord string
  | OpCreateRepo instant repository | OpUpdateConfig instant nat string string
  | OpSetDisabled instant nat bool | OpDeleteRepo nat | OpFault "table \<Rightarrow> bool"

fun apply_op :: "store_op \<Rightarrow> store \<Rightarrow> store" where
  "apply_op (OpPut now a) st = snd (PutArtifact now a st)"
| "apply_op (OpEnsureBlob now sha sz) st = snd (EnsureBlob now sha sz st)"
| "apply_op (OpTouch now rid p) st = snd (Touch now rid p st)"
| "apply_op (OpDelete rid p) st = snd (DeleteArtifact rid p st)"
| "apply_op (OpPurge rid) st = snd (PurgeArtifacts rid st)"
| "apply_op (OpEvict rid lim) st = snd (EvictLRU rid lim st)"
| "apply_op (OpDeleteBlobRecord sha) st = snd (DeleteBlobRecord sha st)"
| "apply_op (OpCreateRepo now r) st = snd (CreateRepository now r st)"
| "apply_op (OpUpdateConfig now i url cfg) st = snd (UpdateRepositoryConfig now i url cfg st)"
| "apply_op (OpSetDisabled now i d) st = snd (SetRepositoryDisabled now i d st)"
| "apply_op (OpDeleteRepo i) st = snd (DeleteRepository i st)"
| "apply_op (OpFault ft) st = st\<lparr>st_fault := ft\<rparr>"

definition run_ops :: "store_op list \<Rightarrow> store \<Rightarrow> store" where
  "run_ops ops st = fold apply_op ops st"

lemma schema_ok_fault [simp]: "schema_ok (st\<lparr>st_fault := ft\<rparr>) = schema_ok st"
  by (simp add: schema_ok_def)

lemma refs_safe_fault [simp]: "refs_safe (st\<lparr>st_fault := ft\<rparr>) = refs_safe st"
  by (simp add: refs_safe_def)

lemma refs_exact_fault [simp]: "refs_exact (st\<lparr>st_fault := ft\<rparr>) = refs_exact st"
  by (simp add: refs_exact_def)

lemmas op_keeps_schema =
  put.keeps_schema ensure.keeps_schema touch.keeps_schema delete.keeps_schema purge.keeps_schema
  evict.keeps_schema delete_record.keeps_schema create_repo.keeps_schema update_config.keeps_schema
  set_disabled.keeps_schema delete_repo.keeps_schema

lemmas op_keeps_safe =
  put.keeps_safe ensure.keeps_safe touch.keeps_safe delete.keeps_safe purge.keeps_safe
  evict.keeps_safe delete_record.keeps_safe create_repo.keeps_safe update_config.keeps_safe
  set_disabled.keeps_safe delete_repo.keeps_safe

lemmas op_keeps_exact =
  put.keeps_exact ensure.keeps_exact touch.keeps_exact delete.keeps_exact purge.keeps_exact
  evict.keeps_exact delete_record.keeps_exact create_repo.keeps_exact update_config.keeps_exact
  set_disabled.keeps_exact

lemma apply_op_ok:
  assumes "schema_ok st" and "refs_safe st"
  shows "schema_ok (apply_op oper st)" and "refs_safe (apply_op oper st)"
  using assms by (cases oper; simp add: op_keeps_schema op_keeps_safe)+

lemma empty_store_ok: "schema_ok empty_store" "refs_safe empty_store" "refs_exact empty_store"
  by (simp_all add: schema_ok_def refs_safe_def refs_exact_def gap_def find_blob_def empty_store_def)

lemma run_ops_ok:
  "schema_ok st \<Longrightarrow> refs_safe st \<Longrightarrow> schema_ok (run_ops ops st) \<and> refs_safe (run_ops ops st)"
  by (induction ops arbitrary: st) (auto simp: run_ops_def apply_op_ok)

lemma apply_op_exact:
  assumes "schema_ok st" and "refs_exact st" and "\<And>i. oper \<noteq> OpDeleteRepo i"
  shows "refs_exact (apply_op oper st)"
  using assms by (cases oper) (auto simp: op_keeps_exact)

lemma run_ops_exact:
  "schema_ok st \<Longrightarrow> refs_exact st \<Longrightarrow> \<forall>i. OpDeleteRepo i \<notin> set ops \<Longrightarrow> refs_exact (run_ops ops st)"
proof (induction ops arbitrary: st)
  case Nil
  then show ?case by (simp add: run_ops_def)
next
  case (Cons oper ops)
  have "schema_ok (apply_op oper st)" "refs_exact (apply_op oper st)"
    using Cons.prems by (auto intro!: apply_op_ok(1) apply_op_exact refs_exact_safe)
  then have "refs_exact (run_ops ops (apply_op oper st))"
    using Cons.prems(3) by (intro Cons.IH) auto
  then show ?case by (simp add: run_ops_def)
qed

section \<open>Properties\<close>

text \<open>
  C7: after any sequence of store operations from an empty database, driver failures included,
  the schema's uniqueness and reference constraints hold and no blob's reference count is below
  the number of artifact rows that use the blob.
\<close>

theorem run_ops_refs_safe:
  "schema_ok (run_ops ops empty_store) \<and> refs_safe (run_ops ops empty_store)"
  by (rule run_ops_ok) (rule empty_store_ok)+

definition demo_repo :: "string \<Rightarrow> repository" where
  "demo_repo n = \<lparr>r_id = 0, r_name = n, r_format = FormatMaven, r_type = TypeHosted,
     r_upstream_url = [], r_config_json = [], r_created_at = 0, r_updated_at = 0,
     r_disabled = False\<rparr>"

definition demo_artifact :: "nat \<Rightarrow> string \<Rightarrow> string \<Rightarrow> artifact" where
  "demo_artifact rid p sha = \<lparr>a_id = 0, a_repo_id = rid, a_path = p, a_version = [],
     a_blob_sha256 = sha, a_size = 1, a_content_type = [], a_metadata_json = [],
     a_published_at = None, a_cached_at = 0, a_last_accessed_at = 0, a_updated_at = 0\<rparr>"

definition demo_ops :: "store_op list" where
  "demo_ops = [OpCreateRepo 1 (demo_repo ''a''), OpPut 2 (demo_artifact 1 ''p'' ''s''),
     OpPut 3 (demo_artifact 1 ''q'' ''s''), OpDelete 1 ''p'', OpPut 4 (demo_artifact 1 ''q'' ''t'')]"

text \<open>
  what the sweeper is given to reclaim is never in use: after any history, a digest listed
  by \<open>ListUnreferencedBlobs\<close> is the blob of no artifact row.
\<close>

theorem listed_blob_unused:
  assumes "ListUnreferencedBlobs (run_ops ops empty_store) lim = Inr shas" and "sha \<in> set shas"
  shows "nrefs (run_ops ops empty_store) sha = 0"
proof -
  let ?st = "run_ops ops empty_store"
  have ok: "schema_ok ?st" "refs_safe ?st"
    using run_ops_ok [OF empty_store_ok(1,2)] by auto
  from assms obtain b where b: "b \<in> set (st_blobs ?st)" "b_ref_count b \<le> 0" "b_sha256 b = sha"
    by (auto simp: ListUnreferencedBlobs_def split: if_splits dest!: in_set_takeD)
  then have "find_blob ?st sha = Some b"
    using ok(1) find_key_unique [of b_sha256 "st_blobs ?st" b]
    by (simp add: schema_ok_def find_blob_def)
  from blob_count_unused [OF ok(2) this b(2)] show ?thesis .
qed

lemma demo_listing: "ListUnreferencedBlobs (run_ops demo_ops empty_store) 10 = Inr [''s'']"
  by code_simp

theorem listed_blob_unused_witness:
  "ListUnreferencedBlobs (run_ops demo_ops empty_store) 10 = Inr [''s''] \<and>
   nrefs (run_ops demo_ops empty_store) ''s'' = 0"
  using demo_listing listed_blob_unused [OF demo_listing, of "''s''"] by simp

text \<open>
  as long as no repository is deleted, every stored reference count is exactly the number
  of artifact rows that use the blob, so every unused blob is reclaimable.
\<close>

theorem run_ops_refs_exact:
  "\<forall>i. OpDeleteRepo i \<notin> set ops \<Longrightarrow> refs_exact (run_ops ops empty_store)"
  by (rule run_ops_exact) (simp_all add: empty_store_ok)

theorem run_ops_refs_exact_witness:
  "(\<forall>i. OpDeleteRepo i \<notin> set demo_ops) \<and> refs_exact (run_ops demo_ops empty_store)"
proof -
  have h: "\<forall>i. OpDeleteRepo i \<notin> set demo_ops" by (simp add: demo_ops_def)
  show ?thesis using h run_ops_refs_exact [OF h] by blast
qed

text \<open>
  deleting a repository leaks references. Every blob that \<open>n\<close> rows of the repository shared
  ends with a count \<open>n - 1\<close> above the number of rows that still use it, so with \<open>n > 1\<close> the
  sweeper can never reclaim it. \<open>PurgeArtifacts\<close> subtracts the number of rows instead.
\<close>

theorem DeleteRepository_leaks:
  assumes "schema_ok st" and "refs_exact st" and "fst (DeleteRepository i st) = Inr ()"
    and "0 < repo_refs st i sha"
  shows "gap (snd (DeleteRepository i st)) sha = Some (int (repo_refs st i sha) - 1)"
proof -
  from assms(4) obtain a where "a \<in> set (st_artifacts st)" "a_blob_sha256 a = sha"
    by (auto simp: repo_refs_pos)
  then have "find_blob st sha \<noteq> None"
    using schema_ok_fk(1) [OF assms(1)] by (auto simp: find_blob_None)
  then have "gap st sha = Some 0"
    using assms(2) by (force simp: refs_exact_def gap_def)
  moreover have "snd (DeleteRepository i st) = (drop_repo_rows i (\<lambda>b. 1) st)\<lparr>st_repositories :=
      delete_where (\<lambda>r. r_id r = i) (st_repositories st)\<rparr>"
  proof -
    have "\<not> (st_fault st TBlobs \<or> st_fault st TArtifacts \<or> st_fault st TRepositories \<or>
        find_repo st i = None)"
      using assms(3) by (auto simp: DeleteRepository_def split: if_splits)
    then show ?thesis unfolding DeleteRepository_store by (rule if_not_P)
  qed
  ultimately show ?thesis using assms(4) by (simp add: delete_repo_gap of_nat_diff)
qed

definition shared_ops :: "store_op list" where
  "shared_ops = [OpCreateRepo 1 (demo_repo ''a''), OpPut 2 (demo_artifact 1 ''p'' ''s''),
     OpPut 3 (demo_artifact 1 ''q'' ''s'')]"

theorem DeleteRepository_leaks_witness:
  "gap (snd (DeleteRepository 1 (run_ops shared_ops empty_store))) ''s'' = Some 1"
proof -
  let ?st = "run_ops shared_ops empty_store"
  have ok: "schema_ok ?st" using run_ops_ok [OF empty_store_ok(1,2)] by blast
  have ex: "refs_exact ?st" by (rule run_ops_exact) (simp_all add: empty_store_ok shared_ops_def)
  have dl: "fst (DeleteRepository 1 ?st) = Inr ()" by code_simp
  have n: "repo_refs ?st 1 ''s'' = 2" by code_simp
  show ?thesis using DeleteRepository_leaks [OF ok ex dl, of "''s''"] n by simp
qed

end
