(* ===== verification/Engine.thy ===== *)
theory Engine
  imports Http Cache_Policy Storage Ref_Counts
begin

text \<open>
  The repository engine (\<^verbatim>\<open>internal/repo/engine.go\<close>) and its sweeper
  (\<^verbatim>\<open>internal/repo/sweeper.go\<close>): serving a path from the cache or from upstream, storing uploads, the
  cache size cap, and the reclaiming of blobs.

  The engine's state is the metadata store, the blob store, the negative cache and the upstream
  cooldown, and the events it has emitted (counter increments and the \<open>onStore\<close> callback). What is
  outside is a parameter: \<open>env\<close> holds the blob store's operations, the upstream
  (\<open>fetch untrusted url\<close>, \<open>None\<close> for a transport error), the date parser and the clock, which is
  read once per request. Requests run one at a time here; \<open>Flight\<close> models the coalescing of
  concurrent fetches.
\<close>

section \<open>State and parameters\<close>

datatype engine_event =
    CacheHit string | CacheMiss string | AgeViolation string string | UpstreamErr string
  | BytesMoved string string int | OnStore repository string

record 'b engine =
  en_store :: store
  en_blobs :: 'b
  en_neg :: negCache
  en_cool :: negCache
  en_events :: "engine_event list"

record upstream_resp =
  ur_status :: int
  ur_headers :: headers
  ur_body :: reader

record 'b env =
  ev_blobs :: "'b blob_store"
  ev_fetch :: "bool \<Rightarrow> string \<Rightarrow> upstream_resp option"
  ev_parse_date :: "string \<Rightarrow> instant option"
  ev_now :: instant

datatype kind = kindArtifact | kindMetadata

record fetchSpec =
  sp_repo :: repository
  sp_cfg :: config
  sp_path :: string
  sp_upstreamURL :: string
  sp_untrustedURL :: bool
  sp_kind :: kind
  sp_version :: string
  sp_contentType :: string
  sp_extractPublished :: "(upstream_resp \<Rightarrow> instant option) option"

definition emit :: "engine_event \<Rightarrow> 'b engine \<Rightarrow> 'b engine" where
  "emit ev e = e\<lparr>en_events := en_events e @ [ev]\<rparr>"

definition upstreamGet :: "'b env \<Rightarrow> fetchSpec \<Rightarrow> upstream_resp option" where
  "upstreamGet env spec = ev_fetch env (sp_untrustedURL spec) (sp_upstreamURL spec)"

section \<open>Policies\<close>

definition fresh :: "instant \<Rightarrow> artifact \<Rightarrow> config \<Rightarrow> kind \<Rightarrow> bool" where
  "fresh now art cfg k =
     (if \<not> cc_enabled (c_cache cfg) then False
      else let ttl = (case k of kindMetadata \<Rightarrow> cc_metadata_ttl (c_cache cfg)
                              | kindArtifact \<Rightarrow> cc_artifact_ttl (c_cache cfg))
           in if ttl \<le> 0 then k = kindArtifact else time_sub now (a_cached_at art) < ttl)"

text \<open>\<open>evalAge\<close> counts and decides; \<open>ageGate\<close> also writes the refusal.\<close>

definition evalAge :: "instant \<Rightarrow> fetchSpec \<Rightarrow> instant option \<Rightarrow> 'b engine \<Rightarrow> bool \<times> 'b engine" where
  "evalAge now spec published e =
     (case fst (evaluateAge (c_age_policy (sp_cfg spec)) published now) of
        ageBlock \<Rightarrow> (True, emit (AgeViolation (r_name (sp_repo spec)) ''block'') e)
      | ageWarn \<Rightarrow> (False, emit (AgeViolation (r_name (sp_repo spec)) ''warn'') e)
      | ageAllow \<Rightarrow> (False, e))"

definition ageGate ::
  "instant \<Rightarrow> fetchSpec \<Rightarrow> instant option \<Rightarrow> 'b engine \<Rightarrow> bool \<times> wop list \<times> 'b engine" where
  "ageGate now spec published e =
     (case fst (evaluateAge (c_age_policy (sp_cfg spec)) published now) of
        ageBlock \<Rightarrow> (True, http_Error ''blocked by age policy'' 404,
                      emit (AgeViolation (r_name (sp_repo spec)) ''block'') e)
      | ageWarn \<Rightarrow> (False, [], emit (AgeViolation (r_name (sp_repo spec)) ''warn'') e)
      | ageAllow \<Rightarrow> (False, [], e))"

definition writeRetry :: "int \<Rightarrow> string \<Rightarrow> wop list" where
  "writeRetry status retryAfter =
     (let st = (if status \<noteq> 429 \<and> status \<noteq> 503 then 503 else status)
      in (if retryAfter \<noteq> [] then [SetHeader ''Retry-After'' retryAfter] else []) @
         http_Error ''upstream rate-limited, retry later'' st)"

section \<open>Storing\<close>

definition new_artifact ::
  "nat \<Rightarrow> string \<Rightarrow> string \<Rightarrow> string \<Rightarrow> int \<Rightarrow> string \<Rightarrow> instant option \<Rightarrow> instant \<Rightarrow> artifact" where
  "new_artifact rid p ver digest sz ctype published now =
     \<lparr>a_id = 0, a_repo_id = rid, a_path = p, a_version = ver, a_blob_sha256 = digest, a_size = sz,
      a_content_type = ctype, a_metadata_json = [], a_published_at = published,
      a_cached_at = now, a_last_accessed_at = now, a_updated_at = 0\<rparr>"

datatype store_fail = BlobFail blob_error | MetaFail store_error

definition storeArtifact ::
  "'b env \<Rightarrow> fetchSpec \<Rightarrow> reader \<Rightarrow> string \<Rightarrow> instant option \<Rightarrow> 'b engine \<Rightarrow>
   (store_fail + artifact) \<times> 'b engine" where
  "storeArtifact env spec body contentType published e =
     (case bs_put (ev_blobs env) body (en_blobs e) of
        (Inl err, bl) \<Rightarrow> (Inl (BlobFail err), e\<lparr>en_blobs := bl\<rparr>)
      | (Inr (digest, sz), bl) \<Rightarrow>
          (case PutArtifact (ev_now env)
                  (new_artifact (r_id (sp_repo spec)) (sp_path spec) (sp_version spec) digest sz
                     contentType published (ev_now env)) (en_store e) of
             (Inl err, st) \<Rightarrow> (Inl (MetaFail err), e\<lparr>en_blobs := bl, en_store := st\<rparr>)
           | (Inr art, st) \<Rightarrow> (Inr art, e\<lparr>en_blobs := bl, en_store := st\<rparr>)))"

definition recordUpload ::
  "'b env \<Rightarrow> repository \<Rightarrow> string \<Rightarrow> string \<Rightarrow> string \<Rightarrow> string \<Rightarrow> int \<Rightarrow> 'b engine \<Rightarrow>
   (store_error + unit) \<times> 'b engine" where
  "recordUpload env repo p ver contentType digest sz e =
     (case PutArtifact (ev_now env)
             (new_artifact (r_id repo) p ver digest sz contentType None (ev_now env)) (en_store e) of
        (Inl err, st) \<Rightarrow> (Inl err, e\<lparr>en_store := st\<rparr>)
      | (Inr art, st) \<Rightarrow>
          (Inr (), emit (BytesMoved ''ingress'' (r_format repo) sz)
             (e\<lparr>en_store := st, en_neg := neg_clear (r_name repo @ ''/'' @ p) (en_neg e)\<rparr>)))"

definition abandonBlob :: "'b env \<Rightarrow> string \<Rightarrow> int \<Rightarrow> 'b engine \<Rightarrow> 'b engine" where
  "abandonBlob env digest sz e =
     e\<lparr>en_store := snd (EnsureBlob (ev_now env) digest sz (en_store e))\<rparr>"

text \<open>The specification \<open>put\<close> builds for \<open>storeArtifact\<close>, which reads only these fields.\<close>

definition put_spec :: "repository \<Rightarrow> string \<Rightarrow> string \<Rightarrow> string \<Rightarrow> fetchSpec" where
  "put_spec repo p ver contentType =
     \<lparr>sp_repo = repo, sp_cfg = Default, sp_path = p, sp_upstreamURL = [], sp_untrustedURL = False,
      sp_kind = kindArtifact, sp_version = ver, sp_contentType = contentType,
      sp_extractPublished = None\<rparr>"

definition engine_put ::
  "'b env \<Rightarrow> repository \<Rightarrow> string \<Rightarrow> string \<Rightarrow> string \<Rightarrow> instant option \<Rightarrow> reader \<Rightarrow> 'b engine \<Rightarrow>
   (store_fail + unit) \<times> 'b engine" where
  "engine_put env repo p ver contentType published body e =
     (case storeArtifact env (put_spec repo p ver contentType) body contentType published e of
        (res, e1) \<Rightarrow>
          let e2 = e1\<lparr>en_neg := neg_clear (r_name repo @ ''/'' @ p) (en_neg e1)\<rparr>
          in case res of
               Inl err \<Rightarrow> (Inl err, e2)
             | Inr art \<Rightarrow> (Inr (), emit (BytesMoved ''ingress'' (r_format repo) (a_size art)) e2))"

section \<open>The size cap\<close>

text \<open>The bounded loop of \<open>maybeEvict\<close>, with the iterations left.\<close>

fun evict_loop :: "nat \<Rightarrow> nat \<Rightarrow> int \<Rightarrow> store \<Rightarrow> store" where
  "evict_loop 0 rid cap st = st"
| "evict_loop (Suc k) rid cap st =
     (case EvictLRU rid 16 st of
        (Inl err, st') \<Rightarrow> st'
      | (Inr n, st') \<Rightarrow>
          if n = 0 then st'
          else case RepoSize st' rid of
                 Inl err \<Rightarrow> st'
               | Inr sz \<Rightarrow> if sz \<le> cap then st' else evict_loop k rid cap st')"

definition maybeEvict :: "fetchSpec \<Rightarrow> store \<Rightarrow> store" where
  "maybeEvict spec st =
     (let cap = cc_max_size_bytes (c_cache (sp_cfg spec)); rid = r_id (sp_repo spec)
      in if cap \<le> 0 then st
         else case RepoSize st rid of
                Inl err \<Rightarrow> st
              | Inr sz \<Rightarrow> if sz \<le> cap then st else evict_loop 64 rid cap st)"

section \<open>Serving\<close>

definition serveArtifact :: "'b env \<Rightarrow> request \<Rightarrow> artifact \<Rightarrow> 'b engine \<Rightarrow> wop list \<times> int" where
  "serveArtifact env r art e =
     (case bs_open (ev_blobs env) (a_blob_sha256 art) (en_blobs e) of
        Inl err \<Rightarrow> (http_Error ''blob missing'' 500, 0)
      | Inr (b, sz) \<Rightarrow>
          let etag = ''\"'' @ a_blob_sha256 art @ ''\"'';
              hs = (if a_content_type art \<noteq> [] then [SetHeader ''Content-Type'' (a_content_type art)]
                    else []) @ [SetHeader ''ETag'' etag];
              m = header_get (rq_headers r) ''If-None-Match''
          in if m \<noteq> [] \<and> m = etag then (hs @ [WriteHeader 304], 0)
             else let hs' = hs @ [SetHeader ''Content-Length'' (case itoa sz of None \<Rightarrow> [] | Some t \<Rightarrow> t)]
                  in if rq_method r = MethodHead then (hs' @ [WriteHeader 200], 0)
                     else (hs' @ [WriteBytes b], int (length b)))"

datatype fetchKind = fetchStored | fetchNotFound | fetchAgeBlocked | fetchRetry | fetchError

record fetchOutcome =
  fo_kind :: fetchKind
  fo_status :: int
  fo_retryAfter :: string

definition outcome :: "fetchKind \<Rightarrow> fetchOutcome" where
  "outcome k = \<lparr>fo_kind = k, fo_status = 0, fo_retryAfter = []\<rparr>"

text \<open>What happens to a 429 or 503: the coordinate is shielded and the outcome relays it.\<close>

definition cool_down :: "'b env \<Rightarrow> fetchSpec \<Rightarrow> string \<Rightarrow> upstream_resp \<Rightarrow> 'b engine \<Rightarrow> duration \<times> 'b engine" where
  "cool_down env spec key resp e =
     (let d = parseRetryAfter (ev_parse_date env) (header_get (ur_headers resp) ''Retry-After'') (ev_now env)
      in (d, emit (UpstreamErr (r_name (sp_repo spec)))
               (e\<lparr>en_cool := neg_set (ev_now env) key d (en_cool e)\<rparr>)))"

definition published_of :: "fetchSpec \<Rightarrow> upstream_resp \<Rightarrow> instant option" where
  "published_of spec resp =
     (case sp_extractPublished spec of None \<Rightarrow> None | Some f \<Rightarrow> f resp)"

definition content_type_of :: "fetchSpec \<Rightarrow> upstream_resp \<Rightarrow> string" where
  "content_type_of spec resp =
     (if sp_contentType spec = [] then header_get (ur_headers resp) ''Content-Type''
      else sp_contentType spec)"

definition fetchAndStore ::
  "'b env \<Rightarrow> fetchSpec \<Rightarrow> string \<Rightarrow> 'b engine \<Rightarrow> fetchOutcome \<times> 'b engine" where
  "fetchAndStore env spec key e =
     (if (case GetArtifact (en_store e) (r_id (sp_repo spec)) (sp_path spec) of
            Inr art \<Rightarrow> fresh (ev_now env) art (sp_cfg spec) (sp_kind spec) | Inl err \<Rightarrow> False)
      then (outcome fetchStored, e)
      else case upstreamGet env spec of
             None \<Rightarrow> (outcome fetchError, emit (UpstreamErr (r_name (sp_repo spec))) e)
           | Some resp \<Rightarrow>
               if ur_status resp = 404 then
                 (outcome fetchNotFound,
                  e\<lparr>en_neg := neg_set (ev_now env) key (cc_negative_ttl (c_cache (sp_cfg spec))) (en_neg e)\<rparr>)
               else if ur_status resp = 429 \<or> ur_status resp = 503 then
                 (case cool_down env spec key resp e of
                    (d, e1) \<Rightarrow> (\<lparr>fo_kind = fetchRetry, fo_status = ur_status resp,
                                fo_retryAfter = retryAfterSeconds d\<rparr>, e1))
               else if ur_status resp < 200 \<or> 300 \<le> ur_status resp then
                 (outcome fetchError, emit (UpstreamErr (r_name (sp_repo spec))) e)
               else let published = published_of spec resp in
                 case evalAge (ev_now env) spec published e of
                   (True, e1) \<Rightarrow> (outcome fetchAgeBlocked, e1)
                 | (False, e1) \<Rightarrow>
                     (case storeArtifact env spec (ur_body resp) (content_type_of spec resp) published e1 of
                        (Inl err, e2) \<Rightarrow> (outcome fetchError, e2)
                      | (Inr art, e2) \<Rightarrow>
                          (outcome fetchStored,
                           emit (OnStore (sp_repo spec) (sp_path spec))
                             (e2\<lparr>en_store := maybeEvict spec (en_store e2)\<rparr>))))"

definition fetchPassthrough ::
  "'b env \<Rightarrow> request \<Rightarrow> fetchSpec \<Rightarrow> string \<Rightarrow> 'b engine \<Rightarrow> wop list \<times> 'b engine" where
  "fetchPassthrough env r spec key e =
     (case upstreamGet env spec of
        None \<Rightarrow> (http_Error ''upstream unreachable'' 502, emit (UpstreamErr (r_name (sp_repo spec))) e)
      | Some resp \<Rightarrow>
          if ur_status resp = 404 then (http_NotFound, e)
          else if ur_status resp = 429 \<or> ur_status resp = 503 then
            (case cool_down env spec key resp e of
               (d, e1) \<Rightarrow> (writeRetry (ur_status resp) (retryAfterSeconds d), e1))
          else if ur_status resp < 200 \<or> 300 \<le> ur_status resp then
            (http_Error ''upstream error'' 502, emit (UpstreamErr (r_name (sp_repo spec))) e)
          else case ageGate (ev_now env) spec (published_of spec resp) e of
                 (True, ops, e1) \<Rightarrow> (ops, e1)
               | (False, ops, e1) \<Rightarrow>
                   let ct = content_type_of spec resp;
                       hs = (if ct \<noteq> [] then [SetHeader ''Content-Type'' ct] else [])
                   in if rq_method r = MethodHead then (hs @ [WriteHeader 200], e1)
                      else (hs @ [WriteBytes (fst (ur_body resp))],
                            emit (BytesMoved ''egress'' (r_format (sp_repo spec))
                                    (int (length (fst (ur_body resp))))) e1))"

text \<open>A response served from the store, counted as egress.\<close>

definition serve_counted :: "'b env \<Rightarrow> request \<Rightarrow> fetchSpec \<Rightarrow> artifact \<Rightarrow> 'b engine \<Rightarrow> wop list \<times> 'b engine" where
  "serve_counted env r spec art e =
     (case serveArtifact env r art e of
        (ops, n) \<Rightarrow> (ops, emit (BytesMoved ''egress'' (r_format (sp_repo spec)) n) e))"

text \<open>How a caller renders the shared outcome of a fetch.\<close>

definition renderOutcome ::
  "'b env \<Rightarrow> request \<Rightarrow> fetchSpec \<Rightarrow> fetchOutcome \<times> 'b engine \<Rightarrow> wop list \<times> 'b engine" where
  "renderOutcome env r spec = (\<lambda>(out, e1).
     case fo_kind out of
       fetchStored \<Rightarrow>
         (case GetArtifact (en_store e1) (r_id (sp_repo spec)) (sp_path spec) of
            Inl err \<Rightarrow> (http_Error ''cache read failed'' 500, e1)
          | Inr art \<Rightarrow> serve_counted env r spec art e1)
     | fetchNotFound \<Rightarrow> (http_NotFound, e1)
     | fetchAgeBlocked \<Rightarrow> (http_Error ''blocked by age policy'' 404, e1)
     | fetchRetry \<Rightarrow> (writeRetry (fo_status out) (fo_retryAfter out), e1)
     | fetchError \<Rightarrow> (http_Error ''upstream error'' 502, e1))"

definition fetchAndServe ::
  "'b env \<Rightarrow> request \<Rightarrow> fetchSpec \<Rightarrow> string \<Rightarrow> 'b engine \<Rightarrow> wop list \<times> 'b engine" where
  "fetchAndServe env r spec key e0 =
     (case neg_remaining (ev_now env) key (en_cool e0) of
        (rem, cool) \<Rightarrow>
          let e = e0\<lparr>en_cool := cool\<rparr> in
          case rem of
            Some d \<Rightarrow> (writeRetry 503 (retryAfterSeconds d), e)
          | None \<Rightarrow>
              if \<not> cc_enabled (c_cache (sp_cfg spec)) then fetchPassthrough env r spec key e
              else renderOutcome env r spec (fetchAndStore env spec key e))"

definition repo_key :: "fetchSpec \<Rightarrow> string" where
  "repo_key spec = r_name (sp_repo spec) @ ''/'' @ sp_path spec"

text \<open>The part of \<open>serve\<close> after a miss.\<close>

definition serve_miss :: "'b env \<Rightarrow> request \<Rightarrow> fetchSpec \<Rightarrow> 'b engine \<Rightarrow> wop list \<times> 'b engine" where
  "serve_miss env r spec e =
     (if r_type (sp_repo spec) = TypeHosted then (http_NotFound, e)
      else case neg_has (ev_now env) (repo_key spec) (en_neg e) of
             (hit, neg) \<Rightarrow>
               let e1 = e\<lparr>en_neg := neg\<rparr>
               in if hit then (http_NotFound, e1)
                  else fetchAndServe env r spec (repo_key spec)
                         (emit (CacheMiss (r_name (sp_repo spec))) e1))"

definition serve :: "'b env \<Rightarrow> request \<Rightarrow> fetchSpec \<Rightarrow> 'b engine \<Rightarrow> wop list \<times> 'b engine" where
  "serve env r spec e =
     (case GetArtifact (en_store e) (r_id (sp_repo spec)) (sp_path spec) of
        Inl err \<Rightarrow> if err \<noteq> ErrNotFound then (http_Error ''metadata error'' 500, e)
                   else serve_miss env r spec e
      | Inr art \<Rightarrow>
          if r_type (sp_repo spec) = TypeHosted \<or> fresh (ev_now env) art (sp_cfg spec) (sp_kind spec) then
            (case ageGate (ev_now env) spec (a_published_at art) e of
               (True, ops, e1) \<Rightarrow> (ops, e1)
             | (False, ops, e1) \<Rightarrow>
                 let e2 = (if r_type (sp_repo spec) = TypeProxy
                           then emit (CacheHit (r_name (sp_repo spec))) e1 else e1);
                     e3 = e2\<lparr>en_store := snd (Touch (ev_now env) (r_id (sp_repo spec)) (sp_path spec)
                                               (en_store e2))\<rparr>
                 in serve_counted env r spec art e3)
          else serve_miss env r spec e)"

section \<open>The sweeper\<close>

fun sweep_list :: "'b env \<Rightarrow> string list \<Rightarrow> 'b engine \<Rightarrow> 'b engine" where
  "sweep_list env [] e = e"
| "sweep_list env (sha # shas) e =
     (case bs_delete (ev_blobs env) sha (en_blobs e) of
        (Inl err, bl) \<Rightarrow> sweep_list env shas (e\<lparr>en_blobs := bl\<rparr>)
      | (Inr u, bl) \<Rightarrow>
          sweep_list env shas
            (e\<lparr>en_blobs := bl, en_store := snd (DeleteBlobRecord sha (en_store e))\<rparr>))"

definition sweepOnce :: "'b env \<Rightarrow> 'b engine \<Rightarrow> 'b engine" where
  "sweepOnce env e =
     (case ListUnreferencedBlobs (en_store e) 256 of
        Inl err \<Rightarrow> e
      | Inr shas \<Rightarrow> sweep_list env shas e)"

end
