(* ===== verification/Blob_Safety.thy ===== *)
theory Blob_Safety
  imports Engine
begin

text \<open>
  No blob an artifact row points at is ever lost. The invariant ties the three stores together:
  the schema constraints and reference counts of the metadata, the well-addressed contents of the
  blob store, and that every row's digest is stored. It is proved once for every blob store that
  meets \<open>blob_store_laws\<close> and every engine operation, and instantiated with \<open>FSStore\<close>.
\<close>

section \<open>The digests in use\<close>

definition used_shas :: "store \<Rightarrow> string set" where
  "used_shas st = a_blob_sha256 ` set (st_artifacts st)"

lemma used_shas_fields [simp]:
  "used_shas (adjustRef sha d st) = used_shas st"
  "used_shas (ensure_blob_row now sha sz st) = used_shas st"
  "used_shas (st\<lparr>st_blobs := bs\<rparr>) = used_shas st"
  "used_shas (st\<lparr>st_repositories := rs\<rparr>) = used_shas st"
  "used_shas (st\<lparr>st_seq := sq\<rparr>) = used_shas st"
  "used_shas (st\<lparr>st_fault := ft\<rparr>) = used_shas st"
  by (simp_all add: used_shas_def)

lemma used_shas_delete: "used_shas (st\<lparr>st_artifacts := delete_where P (st_artifacts st)\<rparr>) \<subseteq> used_shas st"
  by (auto simp: used_shas_def)

lemma used_shas_put: "used_shas (snd (PutArtifact now a st)) \<subseteq> insert (a_blob_sha256 a) (used_shas st)"
proof -
  have "used_shas (upsert_artifact b st') \<subseteq> insert (a_blob_sha256 b) (used_shas st')" for b st'
    using upsert_artifact_image [of a_blob_sha256 b st'] by (simp add: used_shas_def)
  from this [of "put_row now a" "ensure_blob_row now (a_blob_sha256 a) (a_size a) st"]
  show ?thesis
    by (auto simp: PutArtifact_def Let_def split: option.splits)
qed

lemma used_shas_deleteArtifact: "used_shas (snd (DeleteArtifact rid p st)) \<subseteq> used_shas st"
  using used_shas_delete [where P = "\<lambda>x. art_key x = (rid, p)" and st = st]
  by (auto simp: DeleteArtifact_store split: option.splits)

lemma used_shas_delete_paths: "used_shas (snd (delete_paths rid ps st)) \<subseteq> used_shas st"
proof (induction ps arbitrary: st)
  case (Cons p ps)
  have "used_shas (snd (delete_paths rid (p # ps) st)) \<subseteq> used_shas (snd (DeleteArtifact rid p st))"
    using Cons [of "snd (DeleteArtifact rid p st)"] by (auto split: prod.splits sum.splits)
  then show ?case using used_shas_deleteArtifact [of rid p st] by blast
qed simp

lemma used_shas_evict: "used_shas (snd (EvictLRU rid lim st)) \<subseteq> used_shas st"
  by (simp add: EvictLRU_store used_shas_delete_paths)

lemma used_shas_drop: "used_shas (drop_repo_rows rid lost st) \<subseteq> used_shas st"
  by (auto simp: drop_repo_rows_def used_shas_def)

lemma used_shas_touch: "used_shas (snd (Touch now rid p st)) = used_shas st"
proof -
  have "a_blob_sha256 ` set (update_where P (\<lambda>a. a\<lparr>a_last_accessed_at := now\<rparr>) (st_artifacts st)) =
      a_blob_sha256 ` set (st_artifacts st)" for P
    by (rule image_update_where) simp
  then show ?thesis by (simp add: Touch_def used_shas_def)
qed

text \<open>Only \<open>PutArtifact\<close> brings a new digest into use.\<close>

lemma used_shas_apply:
  assumes "\<And>now a. oper \<noteq> OpPut now a"
  shows "used_shas (apply_op oper st) \<subseteq> used_shas st"
proof (cases oper)
  case (OpPut now a)
  with assms show ?thesis by blast
next
  case (OpDeleteBlobRecord sha)
  then show ?thesis by (simp add: DeleteBlobRecord_def split: option.splits)
next
  case (OpPurge rid)
  then show ?thesis by (simp add: PurgeArtifacts_store used_shas_drop)
next
  case (OpDeleteRepo i)
  then show ?thesis by (simp add: DeleteRepository_store used_shas_drop)
qed (simp_all add: EnsureBlob_def used_shas_touch used_shas_deleteArtifact used_shas_evict
    CreateRepository_store UpdateRepositoryConfig_def SetRepositoryDisabled_def update_repo_row_def)

lemma evict_loop_ok:
  "schema_ok st \<Longrightarrow> refs_safe st \<Longrightarrow>
   schema_ok (evict_loop k rid cap st) \<and> refs_safe (evict_loop k rid cap st) \<and>
   used_shas (evict_loop k rid cap st) \<subseteq> used_shas st"
proof (induction k arbitrary: st)
  case (Suc k)
  let ?st = "snd (EvictLRU rid 16 st)"
  have ok: "schema_ok ?st" "refs_safe ?st"
    using Suc.prems by (simp_all add: evict.keeps_schema evict.keeps_safe)
  note sub = used_shas_evict [of rid 16 st]
  have "evict_loop (Suc k) rid cap st = ?st \<or> evict_loop (Suc k) rid cap st = evict_loop k rid cap ?st"
    by (simp split: prod.splits sum.splits)
  with Suc.IH [OF ok] ok sub show ?case by (metis subset_trans)
qed simp

lemma maybeEvict_ok:
  assumes "schema_ok st" and "refs_safe st"
  shows "schema_ok (maybeEvict spec st)" and "refs_safe (maybeEvict spec st)"
    and "used_shas (maybeEvict spec st) \<subseteq> used_shas st"
  using assms evict_loop_ok [OF assms]
  by (simp_all add: maybeEvict_def Let_def split: sum.splits)

section \<open>The engine invariant\<close>

definition engine_inv :: "('b \<Rightarrow> string \<Rightarrow> bytes option) \<Rightarrow> ('b \<Rightarrow> bool) \<Rightarrow> 'b engine \<Rightarrow> bool" where
  "engine_inv view ok e \<longleftrightarrow> ok (en_blobs e) \<and> schema_ok (en_store e) \<and> refs_safe (en_store e) \<and>
     (\<forall>d \<in> used_shas (en_store e). view (en_blobs e) d \<noteq> None)"

lemma engine_inv_cong [simp]:
  "engine_inv view ok (emit ev e) = engine_inv view ok e"
  "engine_inv view ok (e\<lparr>en_neg := n\<rparr>) = engine_inv view ok e"
  "engine_inv view ok (e\<lparr>en_cool := n\<rparr>) = engine_inv view ok e"
  by (simp_all add: engine_inv_def emit_def)

lemma engine_inv_store:
  assumes "engine_inv view ok e" and "schema_ok st" and "refs_safe st"
    and "used_shas st \<subseteq> used_shas (en_store e)"
  shows "engine_inv view ok (e\<lparr>en_store := st\<rparr>)"
  using assms by (auto simp: engine_inv_def)

lemma engine_inv_op:
  assumes "engine_inv view ok e" and "\<And>now a. oper \<noteq> OpPut now a"
  shows "engine_inv view ok (e\<lparr>en_store := apply_op oper (en_store e)\<rparr>)"
  using assms apply_op_ok [of "en_store e" oper] used_shas_apply [OF assms(2)]
  by (intro engine_inv_store) (simp_all add: engine_inv_def)

context blob_store_laws
begin

lemma put_artifact_inv:
  assumes "engine_inv view ok e" and "view (en_blobs e) (a_blob_sha256 a) \<noteq> None"
  shows "engine_inv view ok (e\<lparr>en_store := snd (PutArtifact now a (en_store e))\<rparr>)"
  using assms used_shas_put [of now a "en_store e"] put.keeps_schema put.keeps_safe
  by (fastforce simp: engine_inv_def)

lemma put_blob_inv:
  assumes "engine_inv view ok e"
  shows "engine_inv view ok (e\<lparr>en_blobs := snd (bs_put bs r (en_blobs e))\<rparr>)"
  using assms put_ok put_keeps by (simp add: engine_inv_def)

lemma storeArtifact_inv:
  assumes "engine_inv view ok e" and "ev_blobs env = bs"
  shows "engine_inv view ok (snd (storeArtifact env spec body ct published e))"
proof (cases "bs_put bs body (en_blobs e)")
  case (Pair res bl)
  let ?e1 = "e\<lparr>en_blobs := bl\<rparr>"
  have inv1: "engine_inv view ok ?e1" using put_blob_inv [OF assms(1), of body] Pair by simp
  show ?thesis
  proof (cases res)
    case (Inl err)
    with Pair assms(2) inv1 show ?thesis by (simp add: storeArtifact_def)
  next
    case (Inr v)
    obtain d n where v: "v = (d, n)" by (cases v)
    let ?a = "new_artifact (r_id (sp_repo spec)) (sp_path spec) (sp_version spec) d n ct published (ev_now env)"
    have "ok (en_blobs e)" using assms(1) by (simp add: engine_inv_def)
    from put_result [OF this Pair [unfolded Inr v]] have "view bl d \<noteq> None" by blast
    then have "engine_inv view ok (?e1\<lparr>en_store := snd (PutArtifact (ev_now env) ?a (en_store ?e1))\<rparr>)"
      using inv1 by (intro put_artifact_inv) (simp_all add: new_artifact_def)
    with Pair Inr v assms(2) show ?thesis
      by (auto simp: storeArtifact_def split: prod.splits sum.splits)
  qed
qed

lemma evalAge_inv:
  "engine_inv view ok e \<Longrightarrow> engine_inv view ok (snd (evalAge now spec p e))"
  by (simp add: evalAge_def split: ageDecision.splits)

lemma ageGate_inv:
  "engine_inv view ok e \<Longrightarrow> engine_inv view ok (snd (snd (ageGate now spec p e)))"
  by (simp add: ageGate_def split: ageDecision.splits)

lemma cool_down_inv:
  "engine_inv view ok e \<Longrightarrow> engine_inv view ok (snd (cool_down env spec key resp e))"
  by (simp add: cool_down_def Let_def)

lemma maybeEvict_inv:
  assumes "engine_inv view ok e"
  shows "engine_inv view ok (e\<lparr>en_store := maybeEvict spec (en_store e)\<rparr>)"
  using assms maybeEvict_ok [of "en_store e" spec]
  by (intro engine_inv_store) (simp_all add: engine_inv_def)

lemma fetchAndStore_inv:
  assumes "engine_inv view ok e" and "ev_blobs env = bs"
  shows "engine_inv view ok (snd (fetchAndStore env spec key e))"
proof (cases "upstreamGet env spec")
  case None
  then show ?thesis using assms(1) by (simp add: fetchAndStore_def split: sum.splits)
next
  case (Some resp)
  let ?p = "published_of spec resp"
  let ?e1 = "snd (evalAge (ev_now env) spec ?p e)"
  let ?s = "storeArtifact env spec (ur_body resp) (content_type_of spec resp) ?p ?e1"
  have i1: "engine_inv view ok ?e1" using assms(1) by (rule evalAge_inv)
  have i2: "engine_inv view ok (snd ?s)" using i1 assms(2) by (rule storeArtifact_inv)
  have i3: "engine_inv view ok ((snd ?s)\<lparr>en_store := maybeEvict spec (en_store (snd ?s))\<rparr>)"
    using i2 by (rule maybeEvict_inv)
  have ok_part: "engine_inv view ok (snd (case evalAge (ev_now env) spec ?p e of
        (True, e1) \<Rightarrow> (outcome fetchAgeBlocked, e1)
      | (False, e1) \<Rightarrow>
          (case storeArtifact env spec (ur_body resp) (content_type_of spec resp) ?p e1 of
             (Inl err, e2) \<Rightarrow> (outcome fetchError, e2)
           | (Inr art, e2) \<Rightarrow> (outcome fetchStored, emit (OnStore (sp_repo spec) (sp_path spec))
               (e2\<lparr>en_store := maybeEvict spec (en_store e2)\<rparr>)))))"
  proof (cases "evalAge (ev_now env) spec ?p e")
    case (Pair blocked e1)
    with i1 i2 i3 show ?thesis
      by (cases blocked; cases ?s; cases "fst ?s") simp_all
  qed
  show ?thesis
    unfolding fetchAndStore_def Some option.case Let_def
    using assms(1) ok_part cool_down_inv [OF assms(1), of env spec key resp]
    by (simp only: if_split split_beta fst_conv snd_conv engine_inv_cong) simp
qed

lemma fetchPassthrough_inv:
  assumes "engine_inv view ok e"
  shows "engine_inv view ok (snd (fetchPassthrough env r spec key e))"
proof (cases "upstreamGet env spec")
  case None
  then show ?thesis using assms by (simp add: fetchPassthrough_def)
next
  case (Some resp)
  obtain b ops e1 where g: "ageGate (ev_now env) spec (published_of spec resp) e = (b, ops, e1)"
    by (cases "ageGate (ev_now env) spec (published_of spec resp) e")
  with ageGate_inv [OF assms, of "ev_now env" spec "published_of spec resp"]
  have "engine_inv view ok e1" by simp
  then show ?thesis
    using assms g Some cool_down_inv [OF assms, of env spec key resp]
    by (cases b) (auto simp: fetchPassthrough_def Let_def split: prod.splits)
qed

lemma serve_counted_inv:
  "engine_inv view ok e \<Longrightarrow> engine_inv view ok (snd (serve_counted env r spec art e))"
  by (simp add: serve_counted_def split: prod.splits)

lemma fetchAndServe_inv:
  assumes "engine_inv view ok e" and "ev_blobs env = bs"
  shows "engine_inv view ok (snd (fetchAndServe env r spec key e))"
proof -
  obtain rem cool where c: "neg_remaining (ev_now env) key (en_cool e) = (rem, cool)"
    by (cases "neg_remaining (ev_now env) key (en_cool e)")
  let ?e = "e\<lparr>en_cool := cool\<rparr>"
  have inv: "engine_inv view ok ?e" using assms(1) by simp
  obtain out e1 where f: "fetchAndStore env spec key ?e = (out, e1)"
    by (cases "fetchAndStore env spec key ?e")
  have "engine_inv view ok e1" using fetchAndStore_inv [OF inv assms(2), of spec key] f by simp
  then show ?thesis
    using inv fetchPassthrough_inv [OF inv] f c
    by (auto simp: fetchAndServe_def renderOutcome_def Let_def serve_counted_inv split: option.splits fetchKind.splits sum.splits)
qed

lemma serve_miss_inv:
  assumes "engine_inv view ok e" and "ev_blobs env = bs"
  shows "engine_inv view ok (snd (serve_miss env r spec e))"
  using assms by (auto simp: serve_miss_def Let_def intro!: fetchAndServe_inv split: prod.splits)

lemma serve_inv:
  assumes "engine_inv view ok e" and "ev_blobs env = bs"
  shows "engine_inv view ok (snd (serve env r spec e))"
proof (cases "GetArtifact (en_store e) (r_id (sp_repo spec)) (sp_path spec)")
  case (Inl err)
  then show ?thesis using assms by (simp add: serve_def serve_miss_inv)
next
  case (Inr art)
  obtain b ops e1 where g: "ageGate (ev_now env) spec (a_published_at art) e = (b, ops, e1)"
    by (cases "ageGate (ev_now env) spec (a_published_at art) e")
  with ageGate_inv [OF assms(1), of "ev_now env" spec "a_published_at art"]
  have "engine_inv view ok e1" by simp
  then have e2: "engine_inv view ok (if t then emit ev e1 else e1)" for t ev by simp
  have "engine_inv view ok (e2\<lparr>en_store := snd (Touch now rid p (en_store e2))\<rparr>)"
    if "engine_inv view ok e2" for e2 now rid p
    using engine_inv_op [OF that, of "OpTouch now rid p"] by simp
  note served = serve_counted_inv [OF this [OF e2]]
  show ?thesis
    using assms \<open>engine_inv view ok e1\<close> g Inr served
    by (cases b) (simp_all add: serve_def serve_miss_inv Let_def)
qed

lemma engine_put_inv:
  assumes "engine_inv view ok e" and "ev_blobs env = bs"
  shows "engine_inv view ok (snd (engine_put env repo p ver ct published body e))"
proof -
  let ?s = "storeArtifact env (put_spec repo p ver ct) body ct published e"
  have "engine_inv view ok (snd ?s)" using assms by (rule storeArtifact_inv)
  then show ?thesis
    by (cases ?s; cases "fst ?s") (simp_all add: engine_put_def)
qed

text \<open>An upload that streams first: the blob is stored and then recorded, or abandoned.\<close>

lemma upload_inv:
  assumes "engine_inv view ok e" and "bs_put bs body (en_blobs e) = (Inr (d, n), bl)"
  shows "engine_inv view ok (snd (recordUpload env repo p ver ct d n (e\<lparr>en_blobs := bl\<rparr>)))"
    and "engine_inv view ok (abandonBlob env d n (e\<lparr>en_blobs := bl\<rparr>))"
proof -
  let ?e = "e\<lparr>en_blobs := bl\<rparr>"
  let ?a = "new_artifact (r_id repo) p ver d n ct None (ev_now env)"
  have inv: "engine_inv view ok ?e" using put_blob_inv [OF assms(1), of body] assms(2) by simp
  have "ok (en_blobs e)" using assms(1) by (simp add: engine_inv_def)
  from put_result [OF this assms(2)] have "view bl d \<noteq> None" by blast
  then have "engine_inv view ok (?e\<lparr>en_store := snd (PutArtifact (ev_now env) ?a (en_store ?e))\<rparr>)"
    using inv by (intro put_artifact_inv) (simp_all add: new_artifact_def)
  then show "engine_inv view ok (snd (recordUpload env repo p ver ct d n ?e))"
    by (auto simp: recordUpload_def split: prod.splits sum.splits)
  show "engine_inv view ok (abandonBlob env d n ?e)"
    using engine_inv_op [OF inv, of "OpEnsureBlob (ev_now env) d n"] by (simp add: abandonBlob_def)
qed

lemma sweep_list_inv:
  assumes "engine_inv view ok e" and "ev_blobs env = bs" and "set shas \<inter> used_shas (en_store e) = {}"
  shows "engine_inv view ok (sweep_list env shas e)"
  using assms(1,3)
proof (induction shas arbitrary: e)
  case (Cons d shas)
  obtain res bl where del: "bs_delete bs d (en_blobs e) = (res, bl)" by (cases "bs_delete bs d (en_blobs e)")
  have okb: "ok (en_blobs e)" using Cons.prems(1) by (simp add: engine_inv_def)
  have "ok bl" using delete_ok [OF okb, of d] del by simp
  moreover have "view bl x = view (en_blobs e) x" if "x \<in> used_shas (en_store e)" for x
    using delete_other [OF okb, of x d] del that Cons.prems(2) by auto
  ultimately have inv: "engine_inv view ok (e\<lparr>en_blobs := bl\<rparr>)"
    using Cons.prems(1) by (simp add: engine_inv_def)
  have rec: "used_shas (snd (DeleteBlobRecord d st)) \<subseteq> used_shas st" for st
    using used_shas_apply [of "OpDeleteBlobRecord d" st] by simp
  have inv': "engine_inv view ok (e\<lparr>en_blobs := bl, en_store := snd (DeleteBlobRecord d (en_store e))\<rparr>)"
    using engine_inv_op [OF inv, of "OpDeleteBlobRecord d"] by simp
  show ?case
  proof (cases res)
    case (Inl err)
    then show ?thesis using Cons.IH [OF inv] Cons.prems(2) del assms(2) by simp
  next
    case (Inr u)
    have "set shas \<inter> used_shas (snd (DeleteBlobRecord d (en_store e))) = {}"
      using Cons.prems(2) rec [of "en_store e"] by auto
    then show ?thesis using Cons.IH [OF inv'] del assms(2) Inr by simp
  qed
qed simp

lemma unreferenced_unused:
  assumes "schema_ok st" and "refs_safe st" and "ListUnreferencedBlobs st lim = Inr shas"
  shows "set shas \<inter> used_shas st = {}"
proof -
  have "nrefs st sha = 0" if "sha \<in> set shas" for sha
  proof -
    from that assms(3) obtain b where b: "b \<in> set (st_blobs st)" "b_sha256 b = sha" "b_ref_count b \<le> 0"
      by (auto simp: ListUnreferencedBlobs_def split: if_splits dest!: in_set_takeD)
    then have "find_blob st sha = Some b"
      using assms(1) find_key_unique [of b_sha256 "st_blobs st" b] by (simp add: find_blob_def schema_ok_def)
    with b assms(2) show ?thesis by (intro blob_count_unused)
  qed
  moreover have "0 < nrefs st sha" if "sha \<in> used_shas st" for sha
    using that nrefs_pos [of st sha] by (auto simp: used_shas_def)
  ultimately show ?thesis by fastforce
qed

lemma sweepOnce_inv:
  assumes "engine_inv view ok e" and "ev_blobs env = bs"
  shows "engine_inv view ok (sweepOnce env e)"
proof (cases "ListUnreferencedBlobs (en_store e) 256")
  case (Inl err)
  then show ?thesis using assms(1) by (simp add: sweepOnce_def)
next
  case (Inr shas)
  with assms(1) have "set shas \<inter> used_shas (en_store e) = {}"
    by (intro unreferenced_unused [of _ 256]) (simp_all add: engine_inv_def)
  with assms Inr show ?thesis by (simp add: sweepOnce_def sweep_list_inv)
qed

end

section \<open>Histories of the engine\<close>

text \<open>
  One request or background task at a time, each with its own clock and upstream; the metadata
  operations include everything the administration interface does to artifacts and repositories,
  and changes of the fault state.
\<close>

inductive engine_step :: "'b blob_store \<Rightarrow> 'b engine \<Rightarrow> 'b engine \<Rightarrow> bool" for bs where
  st_serve: "ev_blobs env = bs \<Longrightarrow> engine_step bs e (snd (serve env r spec e))"
| st_put: "ev_blobs env = bs \<Longrightarrow>
    engine_step bs e (snd (engine_put env repo p ver ct published body e))"
| st_upload: "bs_put bs body (en_blobs e) = (Inr (d, n), bl) \<Longrightarrow>
    engine_step bs e (snd (recordUpload env repo p ver ct d n (e\<lparr>en_blobs := bl\<rparr>)))"
| st_abandon: "bs_put bs body (en_blobs e) = (Inr (d, n), bl) \<Longrightarrow>
    engine_step bs e (abandonBlob env d n (e\<lparr>en_blobs := bl\<rparr>))"
| st_sweep: "ev_blobs env = bs \<Longrightarrow> engine_step bs e (sweepOnce env e)"
| st_meta: "(\<And>now a. oper \<noteq> OpPut now a) \<Longrightarrow>
    engine_step bs e (e\<lparr>en_store := apply_op oper (en_store e)\<rparr>)"

inductive_cases engine_stepE: "engine_step bs e e'"

definition engine_runs :: "'b blob_store \<Rightarrow> 'b engine \<Rightarrow> 'b engine \<Rightarrow> bool" where
  "engine_runs bs = (engine_step bs)\<^sup>*\<^sup>*"

context blob_store_laws
begin

lemma engine_step_inv: "engine_step bs e e' \<Longrightarrow> engine_inv view ok e \<Longrightarrow> engine_inv view ok e'"
  by (induction rule: engine_step.induct)
    (simp_all add: serve_inv engine_put_inv upload_inv sweepOnce_inv engine_inv_op)

lemma engine_runs_inv: "engine_runs bs e e' \<Longrightarrow> engine_inv view ok e \<Longrightarrow> engine_inv view ok e'"
  unfolding engine_runs_def by (induction rule: rtranclp_induct) (auto intro: engine_step_inv)

end

definition empty_engine :: "'b \<Rightarrow> 'b engine" where
  "empty_engine bl = \<lparr>en_store = empty_store, en_blobs = bl, en_neg = newNegCache,
     en_cool = newNegCache, en_events = []\<rparr>"

lemma empty_engine_inv: "ok bl \<Longrightarrow> engine_inv view ok (empty_engine bl)"
  using empty_store_ok by (simp add: engine_inv_def empty_engine_def used_shas_def) (simp add: empty_store_def)


text \<open>A repository, an environment and an upload for concrete runs.\<close>

definition demo_repo :: repository where
  "demo_repo = \<lparr>r_id = 1, r_name = ''libs'', r_format = FormatMaven, r_type = TypeHosted,
     r_upstream_url = [], r_config_json = ''{}'', r_created_at = 0, r_updated_at = 0,
     r_disabled = False\<rparr>"

definition demo_env :: "instant \<Rightarrow> fs env" where
  "demo_env now = \<lparr>ev_blobs = FSStore toy_sha, ev_fetch = (\<lambda>_ _. None),
     ev_parse_date = (\<lambda>_. None), ev_now = now\<rparr>"

definition demo_start :: "fs engine" where
  "demo_start = (empty_engine no_files)\<lparr>en_store := snd (CreateRepository 1 demo_repo empty_store)\<rparr>"

definition demo_put :: "string \<Rightarrow> bytes \<Rightarrow> fs engine \<Rightarrow> fs engine" where
  "demo_put p b e = snd (engine_put (demo_env 5) demo_repo p ''1'' [] None (b, True) e)"

lemma demo_start_runs: "engine_runs (FSStore toy_sha) (empty_engine no_files) demo_start"
proof -
  have "engine_step (FSStore toy_sha) (empty_engine no_files) demo_start"
    using st_meta [of "OpCreateRepo 1 demo_repo" "FSStore toy_sha" "empty_engine no_files"]
    by (simp add: demo_start_def empty_engine_def)
  then show ?thesis by (simp add: engine_runs_def)
qed

lemma demo_put_runs:
  "engine_runs (FSStore toy_sha) e0 e \<Longrightarrow> engine_runs (FSStore toy_sha) e0 (demo_put p b e)"
  using st_put [of "demo_env 5" "FSStore toy_sha" e demo_repo p "''1''" "[]" None "(b, True)"]
  by (simp add: engine_runs_def demo_put_def demo_env_def)


text \<open>An upload that was deleted again and not yet swept.\<close>

definition race_state :: "fs engine" where
  "race_state = (let e = demo_put ''a'' ''x'' demo_start
                 in e\<lparr>en_store := snd (DeleteArtifact 1 ''a'' (en_store e))\<rparr>)"


end
