(* ===== verification/Audit_Log.thy ===== *)
theory Audit_Log
  imports Http
begin

text \<open>
  Audit events (\<^verbatim>\<open>internal/audit/audit.go\<close>): the event struct, the originating address of a request,
  and the recorder, a bounded queue that drops and counts what does not fit.
\<close>

section \<open>Events\<close>

record audit_event =
  ae_repo :: string
  ae_action :: string
  ae_path :: string
  ae_username :: string
  ae_method :: string
  ae_status :: int
  ae_client_ip :: string
  ae_user_agent :: string

abbreviation EventDownload :: string where "EventDownload \<equiv> ''download''"
abbreviation EventUpload :: string where "EventUpload \<equiv> ''upload''"
abbreviation EventDelete :: string where "EventDelete \<equiv> ''delete''"
abbreviation EventTTLExpire :: string where "EventTTLExpire \<equiv> ''ttl.expire''"
abbreviation EventVulnBlock :: string where "EventVulnBlock \<equiv> ''vuln.block''"
abbreviation EventLicenseBlock :: string where "EventLicenseBlock \<equiv> ''license.block''"

section \<open>The client's address\<close>

definition last_index :: "char \<Rightarrow> string \<Rightarrow> nat option" where
  "last_index c s = (if c \<in> set s then Some (length s - Suc (length (takeWhile (\<lambda>x. x \<noteq> c) (rev s)))) else None)"

text \<open>\<^verbatim>\<open>net.SplitHostPort\<close>: \<open>None\<close> is any of its address errors.\<close>

definition SplitHostPort :: "string \<Rightarrow> (string \<times> string) option" where
  "SplitHostPort hp =
     (case last_index (CHR '':'') hp of
        None \<Rightarrow> None
      | Some i \<Rightarrow>
          if hd hp = CHR ''['' then
            (case index_of hp '']'' of
               None \<Rightarrow> None
             | Some en \<Rightarrow>
                 if Suc en \<noteq> i then None
                 else if CHR ''['' \<in> set (drop 1 hp) \<or> CHR '']'' \<in> set (drop (Suc en) hp) then None
                 else Some (take (en - 1) (drop 1 hp), drop (Suc i) hp))
          else let host = take i hp
               in if CHR '':'' \<in> set host \<or> CHR ''['' \<in> set hp \<or> CHR '']'' \<in> set hp then None
                  else Some (host, drop (Suc i) hp))"

definition ClientIP :: "request \<Rightarrow> string" where
  "ClientIP r =
     (let xff = header_get (rq_headers r) ''X-Forwarded-For'' in
      if xff \<noteq> [] then
        (case cut_at (CHR '','') xff of
           Some (first, rest) \<Rightarrow> trim_space first
         | None \<Rightarrow> trim_space xff)
      else case SplitHostPort (rq_remote_addr r) of
             None \<Rightarrow> rq_remote_addr r
           | Some (host, port) \<Rightarrow> host)"

definition UserAgent :: "request \<Rightarrow> string" where
  "UserAgent r = header_get (rq_headers r) ''User-Agent''"

section \<open>The recorder\<close>

definition bufferSize :: nat where "bufferSize = 1024"

record recorder =
  rec_queue :: "(audit_event \<times> instant) list"
  rec_dropped :: nat
  rec_written :: "(audit_event \<times> instant) list"
  rec_failed :: nat

definition Record :: "instant \<Rightarrow> audit_event \<Rightarrow> recorder \<Rightarrow> recorder" where
  "Record now ev rc =
     (if length (rec_queue rc) < bufferSize then rc\<lparr>rec_queue := rec_queue rc @ [(ev, now)]\<rparr>
      else rc\<lparr>rec_dropped := Suc (rec_dropped rc)\<rparr>)"

text \<open>One turn of the background writer; \<open>insert_ok\<close> is whether the database took the row.\<close>

definition write_one :: "bool \<Rightarrow> recorder \<Rightarrow> recorder" where
  "write_one insert_ok rc =
     (case rec_queue rc of
        [] \<Rightarrow> rc
      | l # ls \<Rightarrow> if insert_ok then rc\<lparr>rec_queue := ls, rec_written := rec_written rc @ [l]\<rparr>
                  else rc\<lparr>rec_queue := ls, rec_failed := Suc (rec_failed rc)\<rparr>)"

definition empty_recorder :: recorder where
  "empty_recorder = \<lparr>rec_queue = [], rec_dropped = 0, rec_written = [], rec_failed = 0\<rparr>"

datatype recorder_step = Enqueue instant audit_event | Drain bool

fun recorder_do :: "recorder_step \<Rightarrow> recorder \<Rightarrow> recorder" where
  "recorder_do (Enqueue now ev) rc = Record now ev rc"
| "recorder_do (Drain ok) rc = write_one ok rc"

definition enqueued :: "recorder_step list \<Rightarrow> nat" where
  "enqueued steps = length (filter (\<lambda>s. case s of Enqueue now ev \<Rightarrow> True | Drain ok \<Rightarrow> False) steps)"

lemma recorder_do_count:
  "length (rec_queue (recorder_do s rc)) + rec_dropped (recorder_do s rc) +
     length (rec_written (recorder_do s rc)) + rec_failed (recorder_do s rc) =
   length (rec_queue rc) + rec_dropped rc + length (rec_written rc) + rec_failed rc + enqueued [s]"
  by (cases s) (auto simp: Record_def write_one_def enqueued_def split: list.splits)

lemma recorder_do_bound:
  "length (rec_queue rc) \<le> bufferSize \<Longrightarrow> length (rec_queue (recorder_do s rc)) \<le> bufferSize"
  by (cases s) (auto simp: Record_def write_one_def split: list.splits)

text \<open>
  Recording never waits: the queue holds at most 1024 events, and over any interleaving of
  requests and the background writer every event recorded is written, still queued, counted as
  dropped, or was refused by the database; none disappears silently.
\<close>

theorem recorder_accounts_for_every_event:
  "length (rec_queue (fold recorder_do steps empty_recorder)) \<le> 1024 \<and>
   enqueued steps = length (rec_queue (fold recorder_do steps empty_recorder)) +
     rec_dropped (fold recorder_do steps empty_recorder) +
     length (rec_written (fold recorder_do steps empty_recorder)) +
     rec_failed (fold recorder_do steps empty_recorder)"
proof -
  have "length (rec_queue rc) \<le> bufferSize \<Longrightarrow> length (rec_queue (fold recorder_do steps rc)) \<le> bufferSize \<and>
    length (rec_queue (fold recorder_do steps rc)) + rec_dropped (fold recorder_do steps rc) +
      length (rec_written (fold recorder_do steps rc)) + rec_failed (fold recorder_do steps rc) =
    length (rec_queue rc) + rec_dropped rc + length (rec_written rc) + rec_failed rc + enqueued steps" for rc
  proof (induction steps arbitrary: rc)
    case (Cons s steps)
    have "enqueued (s # steps) = enqueued [s] + enqueued steps" by (simp add: enqueued_def)
    with Cons.IH [of "recorder_do s rc"] recorder_do_bound [OF Cons.prems] recorder_do_count [of s rc]
    show ?case by simp
  qed (simp add: enqueued_def)
  from this [of empty_recorder] show ?thesis by (simp add: empty_recorder_def bufferSize_def)
qed

end
