(* ===== verification/Retention.thy ===== *)
theory Retention
  imports Blob_Safety Audit_Log
begin

text \<open>
  What leaves the cache: the least-recently-used eviction of \<^verbatim>\<open>internal/meta/artifact.go\<close> under the
  engine's size cap, and the idle reaper (\<^verbatim>\<open>internal/repo/reaper.go\<close>). Both order rows by the text of
  their last access, so the facts about that order come first.
\<close>

section \<open>Ordering\<close>

lemma set_insert_by [simp]: "set (insert_by lt x ys) = insert x (set ys)"
  by (induction ys) auto

lemma set_order_by [simp]: "set (order_by lt xs) = set xs"
  by (induction xs) (auto simp: order_by_def)

lemma length_insert_by [simp]: "length (insert_by lt x ys) = Suc (length ys)"
  by (induction ys) auto

lemma length_order_by [simp]: "length (order_by lt xs) = length xs"
  by (induction xs) (auto simp: order_by_def)

lemma distinct_insert_by: "distinct (map k (insert_by lt x ys)) \<longleftrightarrow> distinct (map k (x # ys))"
  by (induction ys) auto

lemma distinct_order_by: "distinct (map k (order_by lt xs)) \<longleftrightarrow> distinct (map k xs)"
proof (induction xs)
  case (Cons x xs)
  have "k ` set (order_by lt xs) = k ` set xs" by simp
  with Cons show ?case by (simp add: order_by_def distinct_insert_by)
qed (simp add: order_by_def)

text \<open>A listing puts no row after one that is strictly later.\<close>

lemma sorted_insert_by:
  assumes "\<And>x y z. lt x y \<Longrightarrow> lt y z \<Longrightarrow> lt x z" and "\<And>x y z. \<not> lt y x \<Longrightarrow> \<not> lt z y \<Longrightarrow> \<not> lt z x"
    and "\<And>x. \<not> lt x x" and "sorted_wrt (\<lambda>x y. \<not> lt y x) ys"
  shows "sorted_wrt (\<lambda>x y. \<not> lt y x) (insert_by lt x ys)"
  using assms(4)
proof (induction ys)
  case (Cons y ys)
  show ?case
  proof (cases "lt y x")
    case True
    then have "\<not> lt x y" using assms(1,3) by blast
    with True Cons show ?thesis by auto
  next
    case False
    with Cons.prems show ?thesis using assms(2) by auto
  qed
qed simp

lemma text_less_trans: "text_less a b \<Longrightarrow> text_less b c \<Longrightarrow> text_less a c"
  by (auto simp: text_less_def intro: str_less_trans)

lemma text_less_irrefl [simp]: "\<not> text_less a a"
  by (simp add: text_less_def)

lemma text_less_neg_trans: "\<not> text_less b a \<Longrightarrow> \<not> text_less c b \<Longrightarrow> \<not> text_less c a"
  using str_less_linear [of "snd a" "snd b"] str_less_linear [of "snd b" "snd c"]
  by (auto simp: text_less_def dest: str_less_trans str_less_asym)

lemma sorted_order_by_access:
  "sorted_wrt (\<lambda>x y. \<not> accessed_before y x) (order_by accessed_before xs)"
proof (induction xs)
  case (Cons x xs)
  then show ?case
    unfolding order_by_def foldr.simps o_apply
    by (intro sorted_insert_by)
      (auto simp: accessed_before_def intro: text_less_trans dest: text_less_neg_trans)
qed (simp add: order_by_def)

lemma access_text_bound: "\<not> accessed_before b a \<Longrightarrow> a_last_accessed_at a < a_last_accessed_at b + Second"
proof -
  assume "\<not> accessed_before b a"
  then have "a_last_accessed_at a div Second \<le> a_last_accessed_at b div Second"
    by (auto simp: accessed_before_def text_less_def format_time_def)
  then show ?thesis by linarith
qed

section \<open>Deleting a list of rows\<close>

lemma DeleteArtifact_found:
  assumes "\<not> st_fault st TArtifacts" and "\<not> st_fault st TBlobs" and "a \<in> set (st_artifacts st)"
    and "art_key a = (rid, p)"
  shows "\<exists>st'. DeleteArtifact rid p st = (Inr (), st') \<and> st_fault st' = st_fault st \<and>
    st_repositories st' = st_repositories st \<and>
    st_artifacts st' = delete_where (\<lambda>x. art_key x = (rid, p)) (st_artifacts st)"
proof -
  from assms(3,4) have "find_artifact st rid p \<noteq> None" by (auto simp: find_artifact_None image_iff)
  with assms(1,2) show ?thesis by (auto simp: DeleteArtifact_def)
qed

lemma delete_paths_step:
  assumes "fst (DeleteArtifact rid p st) = Inr () \<or> fst (DeleteArtifact rid p st) = Inl ErrNotFound"
  shows "delete_paths rid (p # ps) st = delete_paths rid ps (snd (DeleteArtifact rid p st))"
  using assms by (cases "DeleteArtifact rid p st") auto

lemma delete_paths_artifacts:
  assumes "\<not> st_fault st TArtifacts" and "\<not> st_fault st TBlobs"
  shows "\<exists>st'. delete_paths rid ps st = (Inr (), st') \<and> st_fault st' = st_fault st \<and>
    st_artifacts st' = delete_where (\<lambda>x. a_repo_id x = rid \<and> a_path x \<in> set ps) (st_artifacts st)"
  using assms
proof (induction ps arbitrary: st)
  case Nil
  then show ?case by (simp add: delete_where_def)
next
  case (Cons p ps)
  have "\<exists>st1. snd (DeleteArtifact rid p st) = st1 \<and> (fst (DeleteArtifact rid p st) = Inr () \<or>
      fst (DeleteArtifact rid p st) = Inl ErrNotFound) \<and> st_fault st1 = st_fault st \<and>
      st_artifacts st1 = delete_where (\<lambda>x. art_key x = (rid, p)) (st_artifacts st)"
  proof (cases "find_artifact st rid p")
    case None
    then have "delete_where (\<lambda>x. art_key x = (rid, p)) (st_artifacts st) = st_artifacts st"
      unfolding delete_where_def by (intro filter_True) (auto simp: find_artifact_None image_iff)
    with None Cons.prems show ?thesis by (simp add: DeleteArtifact_def)
  next
    case (Some a)
    then show ?thesis
      using Cons.prems DeleteArtifact_found [of st a rid p] find_artifact_key [OF Some] by auto
  qed
  then obtain st1 where d: "snd (DeleteArtifact rid p st) = st1" "fst (DeleteArtifact rid p st) = Inr () \<or>
      fst (DeleteArtifact rid p st) = Inl ErrNotFound" "st_fault st1 = st_fault st"
      "st_artifacts st1 = delete_where (\<lambda>x. art_key x = (rid, p)) (st_artifacts st)"
    by blast
  from Cons.IH [of st1] d(3) Cons.prems obtain st' where
    st': "delete_paths rid ps st1 = (Inr (), st')" "st_fault st' = st_fault st1"
      "st_artifacts st' = delete_where (\<lambda>x. a_repo_id x = rid \<and> a_path x \<in> set ps) (st_artifacts st1)"
    by auto
  have "delete_paths rid (p # ps) st = (Inr (), st')"
    using delete_paths_step [OF d(2), of ps] d(1) st'(1) by (simp only:)
  moreover have "st_artifacts st' = delete_where (\<lambda>x. a_repo_id x = rid \<and> a_path x \<in> set (p # ps)) (st_artifacts st)"
    unfolding st'(3) d(4) delete_where_def filter_filter by (intro filter_cong) auto
  moreover have "st_fault st' = st_fault st" using st'(2) d(3) by simp
  ultimately show ?case by (intro exI [of _ st'] conjI)
qed

text \<open>The rows \<open>EvictLRU\<close> picks.\<close>

definition victims :: "store \<Rightarrow> nat \<Rightarrow> nat \<Rightarrow> artifact list" where
  "victims st rid lim = take lim (order_by accessed_before (repo_artifacts st rid))"

lemma victims_subset: "set (victims st rid lim) \<subseteq> set (repo_artifacts st rid)"
  unfolding victims_def using set_take_subset by (metis set_order_by)

lemma EvictLRU_result:
  assumes "\<not> st_fault st TArtifacts" and "\<not> st_fault st TBlobs" and "schema_ok st"
  shows "\<exists>st'. EvictLRU rid lim st = (Inr (min lim (length (repo_artifacts st rid))), st') \<and>
    st_fault st' = st_fault st \<and>
    st_artifacts st' = filter (\<lambda>a. a \<notin> set (victims st rid lim)) (st_artifacts st)"
proof -
  let ?ps = "map a_path (victims st rid lim)"
  from delete_paths_artifacts [OF assms(1,2), of rid ?ps] obtain st' where
    st': "delete_paths rid ?ps st = (Inr (), st')" "st_fault st' = st_fault st"
      "st_artifacts st' = delete_where (\<lambda>x. a_repo_id x = rid \<and> a_path x \<in> set ?ps) (st_artifacts st)"
    by blast
  have key: "(a_repo_id a = rid \<and> a_path a \<in> set ?ps) \<longleftrightarrow> a \<in> set (victims st rid lim)"
    if "a \<in> set (st_artifacts st)" for a
  proof
    assume "a_repo_id a = rid \<and> a_path a \<in> set ?ps"
    then obtain v where v: "v \<in> set (victims st rid lim)" "a_path v = a_path a" "a_repo_id a = rid" by auto
    then have "v \<in> set (st_artifacts st)" "a_repo_id v = rid"
      using victims_subset [of st rid lim] by (auto simp: repo_artifacts_def)
    with v that assms(3) have "v = a"
      by (intro distinct_key_eq [of art_key "st_artifacts st"]) (simp_all add: schema_ok_def)
    with v show "a \<in> set (victims st rid lim)" by simp
  next
    assume "a \<in> set (victims st rid lim)"
    with victims_subset [of st rid lim] show "a_repo_id a = rid \<and> a_path a \<in> set ?ps"
      by (auto simp: repo_artifacts_def)
  qed
  then have "st_artifacts st' = filter (\<lambda>a. a \<notin> set (victims st rid lim)) (st_artifacts st)"
    unfolding st'(3) delete_where_def by (intro filter_cong) auto
  moreover have "EvictLRU rid lim st = (Inr (min lim (length (repo_artifacts st rid))), st')"
    using st'(1) assms(1) by (simp add: EvictLRU_def victims_def min.commute)
  ultimately show ?thesis using st'(2) by blast
qed

text \<open>
  Without failures, evicting removes exactly \<open>min limit n\<close> of a repository's \<open>n\<close> rows and nothing
  of other repositories, and the rows it removes are the least recently used up to the resolution of
  the text order: no row that stays was accessed a second or more before one that goes.
\<close>

theorem EvictLRU_removes_oldest:
  assumes "\<not> st_fault st TArtifacts" and "\<not> st_fault st TBlobs" and "schema_ok st"
  shows "\<exists>gone st'. EvictLRU rid lim st = (Inr (length gone), st') \<and>
    length gone = min lim (length (repo_artifacts st rid)) \<and> distinct gone \<and>
    set gone \<subseteq> set (repo_artifacts st rid) \<and>
    st_artifacts st' = filter (\<lambda>a. a \<notin> set gone) (st_artifacts st) \<and>
    (\<forall>v \<in> set gone. \<forall>k \<in> set (repo_artifacts st' rid). a_last_accessed_at v < a_last_accessed_at k + Second)"
proof -
  let ?gone = "victims st rid lim" and ?all = "order_by accessed_before (repo_artifacts st rid)"
  from EvictLRU_result [OF assms, of rid lim] obtain st' where
    st': "EvictLRU rid lim st = (Inr (min lim (length (repo_artifacts st rid))), st')"
      "st_artifacts st' = filter (\<lambda>a. a \<notin> set ?gone) (st_artifacts st)" by blast
  have len: "length ?gone = min lim (length (repo_artifacts st rid))"
    by (simp add: victims_def min.commute)
  have "distinct (map art_key (repo_artifacts st rid))"
    using assms(3) by (simp add: schema_ok_def repo_artifacts_def distinct_map_filter)
  then have "distinct (map art_key ?all)" by (simp only: distinct_order_by)
  then have dist: "distinct ?all" by (simp only: distinct_map)
  have "\<not> accessed_before k v" if "v \<in> set ?gone" "k \<in> set (repo_artifacts st' rid)" for v k
  proof -
    from that(2) st'(2) have "k \<in> set ?all" and "k \<notin> set ?gone" by (auto simp: repo_artifacts_def)
    then have "k \<in> set (drop lim ?all)" unfolding victims_def by (metis Un_iff append_take_drop_id set_append)
    moreover have "sorted_wrt (\<lambda>x y. \<not> accessed_before y x) (take lim ?all @ drop lim ?all)"
      using sorted_order_by_access [of "repo_artifacts st rid"] by (simp only: append_take_drop_id)
    ultimately show ?thesis using that(1) unfolding victims_def sorted_wrt_append by blast
  qed
  then have "\<forall>v \<in> set ?gone. \<forall>k \<in> set (repo_artifacts st' rid).
      a_last_accessed_at v < a_last_accessed_at k + Second"
    using access_text_bound by blast
  then show ?thesis
    using st' len dist victims_subset [of st rid lim] by (intro exI [of _ ?gone] exI [of _ st']) (simp add: victims_def)
qed

text \<open>A repository with one row per access instant, for concrete runs.\<close>

definition access_row :: "string \<times> instant \<Rightarrow> artifact" where
  "access_row = (\<lambda>(p, t). (new_artifact 1 p ''1'' (toy_sha p) 10 [] None t))"

definition access_store :: "(string \<times> instant) list \<Rightarrow> store" where
  "access_store rows = fold (\<lambda>r st. snd (PutArtifact (snd r) (access_row r) st)) rows
     (snd (CreateRepository 1 demo_repo empty_store))"

lemma access_store_ok: "schema_ok (access_store rows) \<and> refs_safe (access_store rows)"
proof -
  have "schema_ok (fold (\<lambda>r st. snd (PutArtifact (snd r) (access_row r) st)) rows st) \<and>
      refs_safe (fold (\<lambda>r st. snd (PutArtifact (snd r) (access_row r) st)) rows st)"
    if "schema_ok st" "refs_safe st" for st
    using that by (induction rows arbitrary: st) (simp_all add: put.keeps_schema put.keeps_safe)
  then show ?thesis
    unfolding access_store_def
    by (simp add: create_repo.keeps_schema create_repo.keeps_safe empty_store_ok)
qed

theorem EvictLRU_removes_oldest_witness:
  "fst (EvictLRU 1 1 (access_store [(''a'', 7 * Second), (''b'', 3 * Second)])) = Inr 1 \<and>
   map a_path (st_artifacts (snd (EvictLRU 1 1 (access_store [(''a'', 7 * Second), (''b'', 3 * Second)])))) = [''a'']"
proof -
  let ?st = "access_store [(''a'', 7 * Second), (''b'', 3 * Second)]"
  have f: "\<not> st_fault ?st TArtifacts" "\<not> st_fault ?st TBlobs" by code_simp+
  from EvictLRU_removes_oldest [OF f conjunct1 [OF access_store_ok], of 1 1] obtain n where
    "fst (EvictLRU 1 1 ?st) = Inr n" by auto
  moreover have "fst (EvictLRU 1 1 ?st) = Inr 1" and
    "map a_path (st_artifacts (snd (EvictLRU 1 1 ?st))) = [''a'']" by code_simp+
  ultimately show ?thesis by simp
qed

text \<open>
  Within one second the text order is not the order of time: trailing zeros of the fraction are
  dropped, so a row accessed half a second later sorts first. Eviction then removes the more
  recently used row, and the reaper's listing at a whole-second cutoff returns a row that was
  accessed after the cutoff.
\<close>

theorem text_order_not_chronological:
  "map a_path (st_artifacts (snd (EvictLRU 1 1 (access_store
       [(''old'', 5 * Second), (''new'', 5 * Second + 500000000)])))) = [''old''] \<and>
   map_sum id (map a_path) (ListExpiredArtifacts (access_store
       [(''old'', 5 * Second), (''new'', 5 * Second + 500000000)]) 1 (5 * Second) 256) = Inr [''new'']"
  by code_simp

section \<open>The size cap\<close>

lemma repo_artifacts_filter:
  "st_artifacts st' = filter P (st_artifacts st) \<Longrightarrow> repo_artifacts st' rid = filter P (repo_artifacts st rid)"
  by (simp add: repo_artifacts_def conj_commute)

lemma EvictLRU_empties:
  assumes "\<not> st_fault st TArtifacts" and "\<not> st_fault st TBlobs" and "schema_ok st"
    and "length (repo_artifacts st rid) \<le> lim"
  shows "repo_artifacts (snd (EvictLRU rid lim st)) rid = []"
proof -
  from EvictLRU_result [OF assms(1-3), of rid lim] obtain st' where
    "EvictLRU rid lim st = (Inr (min lim (length (repo_artifacts st rid))), st')"
    and art: "st_artifacts st' = filter (\<lambda>a. a \<notin> set (victims st rid lim)) (st_artifacts st)" by blast
  moreover have "set (victims st rid lim) = set (repo_artifacts st rid)"
    using assms(4) by (simp add: victims_def)
  ultimately show ?thesis using repo_artifacts_filter [OF art, of rid] by (simp add: filter_empty_conv)
qed

text \<open>
  A proxy repository that holds at most 16 artifacts and grows past its size cap loses all of
  them, the one just fetched included, however small the excess: eviction goes by batches of 16 and
  looks at the size only between batches.
\<close>

theorem maybeEvict_empties_small_repo:
  assumes "\<not> st_fault st TArtifacts" and "\<not> st_fault st TBlobs" and "schema_ok st"
    and "0 < cc_max_size_bytes (c_cache (sp_cfg spec))"
    and "RepoSize st (r_id (sp_repo spec)) = Inr sz" and "cc_max_size_bytes (c_cache (sp_cfg spec)) < sz"
    and "length (repo_artifacts st (r_id (sp_repo spec))) \<le> 16"
  shows "repo_artifacts (maybeEvict spec st) (r_id (sp_repo spec)) = []"
proof -
  let ?rid = "r_id (sp_repo spec)" and ?cap = "cc_max_size_bytes (c_cache (sp_cfg spec))"
  from EvictLRU_result [OF assms(1-3), of ?rid 16] obtain st' where
    ev: "EvictLRU ?rid 16 st = (Inr (min 16 (length (repo_artifacts st ?rid))), st')"
    and ft: "st_fault st' = st_fault st" by blast
  have "repo_artifacts st' ?rid = []"
    using EvictLRU_empties [OF assms(1-3,7)] ev by simp
  moreover from this ft assms(1) have "RepoSize st' ?rid = Inr 0" by (simp add: RepoSize_def)
  ultimately have "repo_artifacts (evict_loop 64 ?rid ?cap st) ?rid = []"
    using ev assms(4) by (simp add: eval_nat_numeral)
  with assms show ?thesis by (simp add: maybeEvict_def)
qed

definition demo_get :: "string \<Rightarrow> request" where
  "demo_get p = \<lparr>rq_method = MethodGet, rq_repo = ''libs'', rq_wild = p, rq_headers = [],
     rq_remote_addr = [], rq_via_group = False, rq_group_name = [], rq_principal = None,
     rq_body = ([], True), rq_host = [], rq_tls = False\<rparr>"

definition demo_proxy :: "int \<Rightarrow> string \<Rightarrow> fetchSpec" where
  "demo_proxy cap p = (put_spec (demo_repo\<lparr>r_type := TypeProxy\<rparr>) p ''1'' [])\<lparr>
     sp_cfg := Default\<lparr>c_cache := (c_cache Default)\<lparr>cc_max_size_bytes := cap\<rparr>\<rparr>\<rparr>"

definition demo_upstream :: "bytes \<Rightarrow> fs env" where
  "demo_upstream b = (demo_env (20 * Second))\<lparr>ev_fetch :=
     (\<lambda>_ _. Some \<lparr>ur_status = 200, ur_headers = [], ur_body = (b, True)\<rparr>)\<rparr>"

text \<open>The request that brings the repository over its cap is answered with 500.\<close>

theorem maybeEvict_empties_small_repo_witness:
  "repo_artifacts (maybeEvict (demo_proxy 15 ''b'') (access_store [(''a'', Second), (''b'', Minute)])) 1 = [] \<and>
   status_of (fst (serve (demo_upstream ''0123456789'') (demo_get ''b'') (demo_proxy 15 ''b'')
     ((empty_engine no_files)\<lparr>en_store := access_store [(''a'', Second)]\<rparr>))) = 500"
proof
  let ?st = "access_store [(''a'', Second), (''b'', Minute)]" and ?spec = "demo_proxy 15 ''b''"
  have id: "r_id (sp_repo ?spec) = 1" by code_simp
  have "repo_artifacts (maybeEvict ?spec ?st) (r_id (sp_repo ?spec)) = []"
  proof (rule maybeEvict_empties_small_repo)
    show "\<not> st_fault ?st TArtifacts" "\<not> st_fault ?st TBlobs" by code_simp+
    show "schema_ok ?st" using access_store_ok by blast
    show "0 < cc_max_size_bytes (c_cache (sp_cfg ?spec))" by code_simp
    show "RepoSize ?st (r_id (sp_repo ?spec)) = Inr 20" by code_simp
    show "cc_max_size_bytes (c_cache (sp_cfg ?spec)) < 20" by code_simp
    show "length (repo_artifacts ?st (r_id (sp_repo ?spec))) \<le> 16" by code_simp
  qed
  then show "repo_artifacts (maybeEvict ?spec ?st) 1 = []" by (simp only: id)
  show "status_of (fst (serve (demo_upstream ''0123456789'') (demo_get ''b'') ?spec
     ((empty_engine no_files)\<lparr>en_store := access_store [(''a'', Second)]\<rparr>))) = 500" by code_simp
qed

section \<open>The idle reaper\<close>

definition ListRepositories :: "store \<Rightarrow> store_error + repository list" where
  "ListRepositories st =
     (if st_fault st TRepositories then Inl ErrDB
      else Inr (order_by (\<lambda>a b. str_less (r_name a) (r_name b)) (st_repositories st)))"

abbreviation reapBatch :: nat where "reapBatch \<equiv> 256"

text \<open>The store, the running total and the audit events; the counter \<open>ttlExpired\<close> counts the events.\<close>

record reap =
  rp_store :: store
  rp_total :: nat
  rp_events :: "audit_event list"

definition reap_event :: "repository \<Rightarrow> artifact \<Rightarrow> audit_event" where
  "reap_event repo art = \<lparr>ae_repo = r_name repo, ae_action = EventTTLExpire, ae_path = a_path art,
     ae_username = ''system'', ae_method = [], ae_status = 200, ae_client_ip = [], ae_user_agent = []\<rparr>"

fun reap_list :: "repository \<Rightarrow> artifact list \<Rightarrow> reap \<Rightarrow> store_error option \<times> reap" where
  "reap_list repo [] s = (None, s)"
| "reap_list repo (art # arts) s =
     (case DeleteArtifact (r_id repo) (a_path art) (rp_store s) of
        (Inl err, st) \<Rightarrow> if err = ErrNotFound then reap_list repo arts (s\<lparr>rp_store := st\<rparr>)
                         else (Some err, s\<lparr>rp_store := st\<rparr>)
      | (Inr u, st) \<Rightarrow>
          reap_list repo arts (s\<lparr>rp_store := st, rp_total := Suc (rp_total s),
                                 rp_events := rp_events s @ [reap_event repo art]\<rparr>))"

lemma DeleteArtifact_length: "length (st_artifacts (snd (DeleteArtifact rid p st))) \<le> length (st_artifacts st)"
  by (simp add: DeleteArtifact_store delete_where_def split: option.splits)

lemma reap_list_length:
  "length (st_artifacts (rp_store (snd (reap_list repo arts s)))) \<le> length (st_artifacts (rp_store s))"
proof (induction arts arbitrary: s)
  case (Cons art arts)
  obtain res st where d: "DeleteArtifact (r_id repo) (a_path art) (rp_store s) = (res, st)"
    by (cases "DeleteArtifact (r_id repo) (a_path art) (rp_store s)")
  then have le: "length (st_artifacts st) \<le> length (st_artifacts (rp_store s))"
    using DeleteArtifact_length [of "r_id repo" "a_path art" "rp_store s"] by simp
  show ?case
    using Cons [of "s\<lparr>rp_store := st\<rparr>"] le d
      Cons [of "s\<lparr>rp_store := st, rp_total := Suc (rp_total s),
        rp_events := rp_events s @ [reap_event repo art]\<rparr>"]
    by (cases res) auto
qed simp

text \<open>A batch that was listed and deleted without an error makes the table shorter.\<close>

lemma reap_list_progress:
  assumes "ListExpiredArtifacts (rp_store s) (r_id repo) cutoff reapBatch = Inr arts" and "arts \<noteq> []"
    and "reap_list repo arts s = (None, s')"
  shows "length (st_artifacts (rp_store s')) < length (st_artifacts (rp_store s))"
proof -
  let ?st = "rp_store s"
  obtain a as where arts: "arts = a # as" using assms(2) by (cases arts) auto
  have "a \<in> set arts" by (simp add: arts)
  with assms(1) have a: "a \<in> set (st_artifacts ?st)" "a_repo_id a = r_id repo"
    by (auto simp: ListExpiredArtifacts_def repo_artifacts_def split: if_splits dest!: in_set_takeD)
  then have "(r_id repo, a_path a) \<in> art_key ` set (st_artifacts ?st)" by (force simp: image_iff)
  then obtain x where x: "find_artifact ?st (r_id repo) (a_path a) = Some x"
    using find_artifact_None [of ?st "r_id repo" "a_path a"] by (cases "find_artifact ?st (r_id repo) (a_path a)") simp_all
  obtain res st where d: "DeleteArtifact (r_id repo) (a_path a) ?st = (res, st)"
    by (cases "DeleteArtifact (r_id repo) (a_path a) ?st")
  with x have "res = Inl ErrDB \<or> res = Inr () \<and>
      st_artifacts st = delete_where (\<lambda>y. art_key y = (r_id repo, a_path a)) (st_artifacts ?st)"
    by (auto simp: DeleteArtifact_def split: if_splits)
  with assms(3) arts d have res: "res = Inr ()"
    and st: "st_artifacts st = delete_where (\<lambda>y. art_key y = (r_id repo, a_path a)) (st_artifacts ?st)"
    by auto
  have "length (st_artifacts st) < length (st_artifacts ?st)"
    unfolding st delete_where_def using a by (intro length_filter_less [of a]) auto
  moreover have "length (st_artifacts (rp_store s')) \<le> length (st_artifacts st)"
    using reap_list_length [of repo as "s\<lparr>rp_store := st, rp_total := Suc (rp_total s),
        rp_events := rp_events s @ [reap_event repo a]\<rparr>"] assms(3) arts d res by simp
  ultimately show ?thesis by simp
qed

function reap_repo :: "repository \<Rightarrow> instant \<Rightarrow> reap \<Rightarrow> store_error option \<times> reap" where
  "reap_repo repo cutoff s =
     (case ListExpiredArtifacts (rp_store s) (r_id repo) cutoff reapBatch of
        Inl err \<Rightarrow> (Some err, s)
      | Inr arts \<Rightarrow>
          if arts = [] then (None, s)
          else case reap_list repo arts s of
                 (Some err, s') \<Rightarrow> (Some err, s')
               | (None, s') \<Rightarrow>
                   if length arts < reapBatch then (None, s') else reap_repo repo cutoff s')"
  by pat_completeness auto
termination
  by (relation "measure (\<lambda>(repo, cutoff, s). length (st_artifacts (rp_store s)))")
    (auto intro: reap_list_progress)

declare reap_repo.simps [simp del]

fun reap_repos :: "unmarshal \<Rightarrow> instant \<Rightarrow> repository list \<Rightarrow> reap \<Rightarrow> store_error option \<times> reap" where
  "reap_repos unmarshal now [] s = (None, s)"
| "reap_repos unmarshal now (repo # repos) s =
     (case Parse unmarshal (r_config_json repo) of
        Inl err \<Rightarrow> reap_repos unmarshal now repos s
      | Inr cfg \<Rightarrow>
          if c_retention_idle_ttl cfg \<le> 0 then reap_repos unmarshal now repos s
          else case reap_repo repo (now - c_retention_idle_ttl cfg) s of
                 (Some err, s') \<Rightarrow> (Some err, s')
               | (None, s') \<Rightarrow> reap_repos unmarshal now repos s')"

definition reapOnce :: "unmarshal \<Rightarrow> instant \<Rightarrow> store \<Rightarrow> (store_error option \<times> nat) \<times> reap" where
  "reapOnce unmarshal now st =
     (case ListRepositories st of
        Inl err \<Rightarrow> ((Some err, 0), \<lparr>rp_store = st, rp_total = 0, rp_events = []\<rparr>)
      | Inr repos \<Rightarrow>
          (case reap_repos unmarshal now repos \<lparr>rp_store = st, rp_total = 0, rp_events = []\<rparr> of
             (err, s) \<Rightarrow> ((err, rp_total s), s)))"

subsection \<open>What is left after a pass\<close>

text \<open>The rows the reaper's query calls expired.\<close>

definition expired :: "nat \<Rightarrow> instant \<Rightarrow> artifact \<Rightarrow> bool" where
  "expired rid cutoff a \<longleftrightarrow>
     a_repo_id a = rid \<and> text_less (format_time (a_last_accessed_at a)) (format_time cutoff)"

lemma reap_list_result:
  assumes "\<not> st_fault (rp_store s) TArtifacts" and "\<not> st_fault (rp_store s) TBlobs"
    and "set arts \<subseteq> set (st_artifacts (rp_store s))" and "distinct (map art_key (st_artifacts (rp_store s)))"
    and "\<forall>a \<in> set arts. a_repo_id a = r_id repo" and "distinct arts"
  shows "\<exists>s'. reap_list repo arts s = (None, s') \<and> st_fault (rp_store s') = st_fault (rp_store s) \<and>
    st_repositories (rp_store s') = st_repositories (rp_store s) \<and>
    st_artifacts (rp_store s') = filter (\<lambda>a. a \<notin> set arts) (st_artifacts (rp_store s)) \<and>
    rp_total s' = rp_total s + length arts \<and> rp_events s' = rp_events s @ map (reap_event repo) arts"
  using assms
proof (induction arts arbitrary: s)
  case (Cons a arts)
  have a: "a \<in> set (st_artifacts (rp_store s))" "art_key a = (r_id repo, a_path a)"
    using Cons.prems by simp_all
  from DeleteArtifact_found [OF Cons.prems(1,2) a] obtain st where
    d: "DeleteArtifact (r_id repo) (a_path a) (rp_store s) = (Inr (), st)"
    and ft: "st_fault st = st_fault (rp_store s)" "st_repositories st = st_repositories (rp_store s)"
    and st: "st_artifacts st = delete_where (\<lambda>x. art_key x = (r_id repo, a_path a)) (st_artifacts (rp_store s))"
    by blast
  have "art_key x = (r_id repo, a_path a) \<longleftrightarrow> x = a" if "x \<in> set (st_artifacts (rp_store s))" for x
    using distinct_key_eq [OF Cons.prems(4) that a(1)] a(2) by auto
  then have st: "st_artifacts st = filter (\<lambda>x. x \<noteq> a) (st_artifacts (rp_store s))"
    unfolding st delete_where_def by (intro filter_cong) auto
  let ?s = "s\<lparr>rp_store := st, rp_total := Suc (rp_total s), rp_events := rp_events s @ [reap_event repo a]\<rparr>"
  have "\<exists>s'. reap_list repo arts ?s = (None, s') \<and> st_fault (rp_store s') = st_fault (rp_store ?s) \<and>
    st_repositories (rp_store s') = st_repositories (rp_store ?s) \<and>
    st_artifacts (rp_store s') = filter (\<lambda>a. a \<notin> set arts) (st_artifacts (rp_store ?s)) \<and>
    rp_total s' = rp_total ?s + length arts \<and> rp_events s' = rp_events ?s @ map (reap_event repo) arts"
    by (rule Cons.IH) (use Cons.prems ft st in \<open>auto simp: distinct_map_filter\<close>)
  then show ?case using d ft st by (force simp: conj_commute)
qed simp

lemma expired_batch:
  assumes "ListExpiredArtifacts st rid cutoff reapBatch = Inr arts"
  shows "arts = take reapBatch (order_by accessed_before (filter (expired rid cutoff) (st_artifacts st)))"
proof -
  have "filter (\<lambda>a. text_less (format_time (a_last_accessed_at a)) (format_time cutoff)) (repo_artifacts st rid) =
      filter (expired rid cutoff) (st_artifacts st)"
    unfolding repo_artifacts_def filter_filter by (intro filter_cong) (auto simp: expired_def)
  with assms show ?thesis by (simp add: ListExpiredArtifacts_def split: if_splits)
qed

lemma length_filter_notin:
  "distinct xs \<Longrightarrow> distinct ys \<Longrightarrow> set ys \<subseteq> set xs \<Longrightarrow>
   length (filter (\<lambda>x. x \<notin> set ys) xs) + length ys = length xs"
proof -
  assume d: "distinct xs" "distinct ys" "set ys \<subseteq> set xs"
  then have "card (set xs - set ys) + card (set ys) = card (set xs)"
    by (metis List.finite_set add.commute card_Diff_subset card_mono le_add_diff_inverse)
  moreover have "length (filter (\<lambda>x. x \<notin> set ys) xs) = card (set xs - set ys)"
    using d(1) by (metis distinct_card distinct_filter set_diff_eq set_filter)
  ultimately show ?thesis using d by (simp add: distinct_card)
qed

lemma reap_repo_result:
  assumes "\<not> st_fault (rp_store s) TArtifacts" and "\<not> st_fault (rp_store s) TBlobs"
    and "distinct (map art_key (st_artifacts (rp_store s)))"
  shows "\<exists>s'. reap_repo repo cutoff s = (None, s') \<and> st_fault (rp_store s') = st_fault (rp_store s) \<and>
    st_repositories (rp_store s') = st_repositories (rp_store s) \<and>
    st_artifacts (rp_store s') = filter (\<lambda>a. \<not> expired (r_id repo) cutoff a) (st_artifacts (rp_store s)) \<and>
    rp_total s' + length (st_artifacts (rp_store s')) = rp_total s + length (st_artifacts (rp_store s))"
  using assms
proof (induction repo cutoff s rule: reap_repo.induct)
  case (1 repo cutoff s)
  let ?A = "st_artifacts (rp_store s)" and ?ex = "expired (r_id repo) cutoff"
  let ?E = "order_by accessed_before (filter ?ex ?A)"
  obtain arts where l: "ListExpiredArtifacts (rp_store s) (r_id repo) cutoff reapBatch = Inr arts"
    using 1(2) by (simp add: ListExpiredArtifacts_def)
  note arts = expired_batch [OF l]
  have setE: "set ?E = {a \<in> set ?A. ?ex a}" by simp
  have sub: "set arts \<subseteq> {a \<in> set ?A. ?ex a}" unfolding arts using set_take_subset setE by metis
  have "distinct (map art_key ?E)" using 1(4) by (simp only: distinct_order_by distinct_map_filter)
  then have dist: "distinct arts" unfolding arts by (simp only: distinct_map distinct_take)
  have dA: "distinct ?A" using 1(4) by (simp only: distinct_map)
  show ?case
  proof (cases "arts = []")
    case True
    then have "?E = []" unfolding arts by simp
    then have "filter (\<lambda>a. \<not> ?ex a) ?A = ?A" using setE by (intro filter_True) auto
    with l True show ?thesis by (subst reap_repo.simps) simp
  next
    case False
    have "\<exists>s'. reap_list repo arts s = (None, s') \<and> st_fault (rp_store s') = st_fault (rp_store s) \<and>
      st_repositories (rp_store s') = st_repositories (rp_store s) \<and>
      st_artifacts (rp_store s') = filter (\<lambda>a. a \<notin> set arts) ?A \<and>
      rp_total s' = rp_total s + length arts \<and> rp_events s' = rp_events s @ map (reap_event repo) arts"
      by (rule reap_list_result) (use 1(2-4) sub dist in \<open>auto simp: expired_def\<close>)
    then obtain s' where s': "reap_list repo arts s = (None, s')"
      "st_fault (rp_store s') = st_fault (rp_store s)"
      "st_repositories (rp_store s') = st_repositories (rp_store s)"
      "st_artifacts (rp_store s') = filter (\<lambda>a. a \<notin> set arts) ?A" "rp_total s' = rp_total s + length arts"
      by blast
    have tot: "rp_total s' + length (st_artifacts (rp_store s')) = rp_total s + length ?A"
    proof -
      from sub have "set arts \<subseteq> set ?A" by blast
      from length_filter_notin [OF dA dist this] s'(4,5) show ?thesis by simp
    qed
    show ?thesis
    proof (cases "length arts < reapBatch")
      case True
      then have "length ?E < reapBatch" unfolding arts by simp
      then have "arts = ?E" unfolding arts by simp
      then have "set arts = {a \<in> set ?A. ?ex a}" using setE by simp
      then have "filter (\<lambda>a. a \<notin> set arts) ?A = filter (\<lambda>a. \<not> ?ex a) ?A" by (intro filter_cong) auto
      with l False s' True tot show ?thesis by (subst reap_repo.simps) simp
    next
      case big: False
      have "\<exists>s''. reap_repo repo cutoff s' = (None, s'') \<and> st_fault (rp_store s'') = st_fault (rp_store s') \<and>
        st_repositories (rp_store s'') = st_repositories (rp_store s') \<and>
        st_artifacts (rp_store s'') = filter (\<lambda>a. \<not> ?ex a) (st_artifacts (rp_store s')) \<and>
        rp_total s'' + length (st_artifacts (rp_store s'')) = rp_total s' + length (st_artifacts (rp_store s'))"
        by (rule 1(1) [OF l False s'(1) [symmetric] refl big])
          (use 1(2-4) s'(2,4) in \<open>simp_all add: distinct_map_filter\<close>)
      moreover have "filter (\<lambda>a. \<not> ?ex a) (filter (\<lambda>a. a \<notin> set arts) ?A) = filter (\<lambda>a. \<not> ?ex a) ?A"
        unfolding filter_filter using sub by (intro filter_cong) auto
      ultimately show ?thesis
        using l False s' big tot by (subst reap_repo.simps) auto
    qed
  qed
qed

text \<open>The rows a pass removes: those the query calls expired, in a repository with a positive TTL.\<close>

definition idle :: "unmarshal \<Rightarrow> instant \<Rightarrow> repository \<Rightarrow> artifact \<Rightarrow> bool" where
  "idle unmarshal now repo a \<longleftrightarrow>
     (case Parse unmarshal (r_config_json repo) of
        Inl err \<Rightarrow> False
      | Inr cfg \<Rightarrow> 0 < c_retention_idle_ttl cfg \<and>
                    expired (r_id repo) (now - c_retention_idle_ttl cfg) a)"

lemma reap_repos_result:
  assumes "\<not> st_fault (rp_store s) TArtifacts" and "\<not> st_fault (rp_store s) TBlobs"
    and "distinct (map art_key (st_artifacts (rp_store s)))"
  shows "\<exists>s'. reap_repos unmarshal now repos s = (None, s') \<and>
    st_artifacts (rp_store s') =
      filter (\<lambda>a. \<not> (\<exists>repo \<in> set repos. idle unmarshal now repo a)) (st_artifacts (rp_store s)) \<and>
    rp_total s' + length (st_artifacts (rp_store s')) = rp_total s + length (st_artifacts (rp_store s))"
  using assms
proof (induction repos arbitrary: s)
  case (Cons repo repos)
  show ?case
  proof (cases "\<exists>cfg. Parse unmarshal (r_config_json repo) = Inr cfg \<and> 0 < c_retention_idle_ttl cfg")
    case False
    then have "\<not> idle unmarshal now repo a" for a by (auto simp: idle_def split: sum.splits)
    moreover have "reap_repos unmarshal now (repo # repos) s = reap_repos unmarshal now repos s"
      using False by (auto split: sum.splits)
    ultimately show ?thesis using Cons.IH [OF Cons.prems] by simp
  next
    case True
    then obtain cfg where cfg: "Parse unmarshal (r_config_json repo) = Inr cfg" "0 < c_retention_idle_ttl cfg"
      by blast
    let ?cut = "now - c_retention_idle_ttl cfg"
    from reap_repo_result [OF Cons.prems, of repo ?cut] obtain s1 where
      s1: "reap_repo repo ?cut s = (None, s1)" "st_fault (rp_store s1) = st_fault (rp_store s)"
        "st_artifacts (rp_store s1) = filter (\<lambda>a. \<not> expired (r_id repo) ?cut a) (st_artifacts (rp_store s))"
        "rp_total s1 + length (st_artifacts (rp_store s1)) = rp_total s + length (st_artifacts (rp_store s))"
      by blast
    have "\<exists>s'. reap_repos unmarshal now repos s1 = (None, s') \<and> st_artifacts (rp_store s') =
        filter (\<lambda>a. \<not> (\<exists>repo \<in> set repos. idle unmarshal now repo a)) (st_artifacts (rp_store s1)) \<and>
      rp_total s' + length (st_artifacts (rp_store s')) = rp_total s1 + length (st_artifacts (rp_store s1))"
      by (rule Cons.IH) (use Cons.prems s1(2,3) in \<open>simp_all add: distinct_map_filter\<close>)
    moreover have "reap_repos unmarshal now (repo # repos) s = reap_repos unmarshal now repos s1"
      using cfg s1(1) by simp
    moreover have "idle unmarshal now repo a \<longleftrightarrow> expired (r_id repo) ?cut a" for a
      using cfg by (simp add: idle_def)
    ultimately show ?thesis using s1(3,4) by (auto simp: filter_filter)
  qed
qed simp

text \<open>
  A pass of the idle reaper ends, and without failures removes exactly the rows that are idle:
  those of a repository whose configuration parses and sets a positive idle TTL and whose last access
  is before the cutoff in the stored text's order. It reports how many went. No row accessed a second
  or more after the cutoff goes, and every row accessed more than a second before it does.
\<close>

theorem reapOnce_removes_exactly_idle:
  assumes "\<not> st_fault st TArtifacts" and "\<not> st_fault st TBlobs" and "\<not> st_fault st TRepositories"
    and "schema_ok st"
  shows "\<exists>s. reapOnce unmarshal now st = ((None, rp_total s), s) \<and>
    st_artifacts (rp_store s) =
      filter (\<lambda>a. \<not> (\<exists>repo \<in> set (st_repositories st). idle unmarshal now repo a)) (st_artifacts st) \<and>
    rp_total s + length (st_artifacts (rp_store s)) = length (st_artifacts st) \<and>
    (\<forall>repo cfg a. Parse unmarshal (r_config_json repo) = Inr cfg \<and> a_repo_id a = r_id repo \<and>
        0 < c_retention_idle_ttl cfg \<longrightarrow>
      (now - c_retention_idle_ttl cfg + Second \<le> a_last_accessed_at a \<longrightarrow> \<not> idle unmarshal now repo a) \<and>
      (a_last_accessed_at a + Second < now - c_retention_idle_ttl cfg \<longrightarrow> idle unmarshal now repo a))"
proof -
  let ?s = "\<lparr>rp_store = st, rp_total = 0, rp_events = []\<rparr>"
  let ?repos = "order_by (\<lambda>a b. str_less (r_name a) (r_name b)) (st_repositories st)"
  from reap_repos_result [of ?s unmarshal now ?repos] assms obtain s where
    s: "reap_repos unmarshal now ?repos ?s = (None, s)"
      "st_artifacts (rp_store s) = filter (\<lambda>a. \<not> (\<exists>repo \<in> set ?repos. idle unmarshal now repo a)) (st_artifacts st)"
      "rp_total s + length (st_artifacts (rp_store s)) = length (st_artifacts st)"
    by (auto simp: schema_ok_def)
  have "reapOnce unmarshal now st = ((None, rp_total s), s)"
    using s(1) assms(3) by (simp add: reapOnce_def ListRepositories_def)
  moreover have "\<not> text_less (format_time t) (format_time c)" if "c + Second \<le> t" for t c
    using text_less_bound [of t c] that by linarith
  moreover have "text_less (format_time t) (format_time c)" if "t + Second < c" for t c
  proof -
    from that have "t div Second < c div Second" by linarith
    then show ?thesis by (simp add: text_less_def format_time_def)
  qed
  ultimately show ?thesis
    using s(2,3) by (intro exI [of _ s]) (auto simp: idle_def expired_def)
qed

definition idle_store :: store where
  "idle_store = snd (UpdateRepositoryConfig 1 1 [] ''idle'' (access_store [(''a'', Second), (''b'', Hour)]))"

definition idle_json :: unmarshal where
  "idle_json raw c = Some (c\<lparr>c_retention_idle_ttl := Minute\<rparr>)"

theorem reapOnce_removes_exactly_idle_witness:
  "fst (reapOnce idle_json Hour idle_store) = (None, 1) \<and>
   map a_path (st_artifacts (rp_store (snd (reapOnce idle_json Hour idle_store)))) = [''b'']"
proof -
  have f: "\<not> st_fault idle_store TArtifacts" "\<not> st_fault idle_store TBlobs"
    "\<not> st_fault idle_store TRepositories" by code_simp+
  have "schema_ok idle_store"
    unfolding idle_store_def using access_store_ok by (simp add: update_config.keeps_schema)
  from reapOnce_removes_exactly_idle [OF f this, of idle_json Hour] obtain s where
    "reapOnce idle_json Hour idle_store = ((None, rp_total s), s)" by blast
  moreover have "snd (fst (reapOnce idle_json Hour idle_store)) = 1"
    "map a_path (st_artifacts (rp_store (snd (reapOnce idle_json Hour idle_store)))) = [''b'']"
    by (code_simp | simp)+
  ultimately show ?thesis by simp
qed

end
