(* ===== verification/Serving.thy ===== *)
theory Serving
  imports Retention
begin

text \<open>
  What a client of the engine sees: policy-blocked releases are not served, misses and rate limits
  are answered locally, uploads read back.
\<close>

section \<open>The age policy on every path\<close>

abbreviation spec_blocks :: "fetchSpec \<Rightarrow> instant option \<Rightarrow> instant \<Rightarrow> bool" where
  "spec_blocks spec pub now \<equiv> fst (evaluateAge (c_age_policy (sp_cfg spec)) pub now) = ageBlock"

lemma ageGate_blocked:
  "spec_blocks spec pub now \<Longrightarrow> ageGate now spec pub e =
     (True, http_Error ''blocked by age policy'' 404, emit (AgeViolation (r_name (sp_repo spec)) ''block'') e)"
  by (simp add: ageGate_def)

lemma evalAge_blocked:
  "spec_blocks spec pub now \<Longrightarrow>
   evalAge now spec pub e = (True, emit (AgeViolation (r_name (sp_repo spec)) ''block'') e)"
  by (simp add: evalAge_def)

lemma en_store_simps [simp]:
  "en_store (emit ev e) = en_store e" "en_blobs (emit ev e) = en_blobs e"
  "en_neg (emit ev e) = en_neg e" "en_cool (emit ev e) = en_cool e"
  by (simp_all add: emit_def)

lemma writeRetry_status [simp]: "status_of (writeRetry s ra) = (if s = 429 then 429 else 503)"
  by (simp add: writeRetry_def Let_def status_of_first first_status_append http_Error_def)

lemma fetchAndStore_blocked:
  assumes "\<forall>art. GetArtifact (en_store e) (r_id (sp_repo spec)) (sp_path spec) = Inr art \<longrightarrow>
      \<not> fresh (ev_now env) art (sp_cfg spec) (sp_kind spec)"
    and "\<forall>resp. upstreamGet env spec = Some resp \<longrightarrow> spec_blocks spec (published_of spec resp) (ev_now env)"
    and "fetchAndStore env spec key e = (out, e1)"
  shows "fo_kind out \<noteq> fetchStored \<and> en_store e1 = en_store e"
proof -
  have nf: "\<not> (case GetArtifact (en_store e) (r_id (sp_repo spec)) (sp_path spec) of
      Inr art \<Rightarrow> fresh (ev_now env) art (sp_cfg spec) (sp_kind spec) | Inl err \<Rightarrow> False)"
    using assms(1) by (simp split: sum.splits)
  show ?thesis
  proof (cases "upstreamGet env spec")
    case None
    with assms(3) nf show ?thesis by (auto simp: fetchAndStore_def outcome_def)
  next
    case (Some resp)
    with assms(2) have "spec_blocks spec (published_of spec resp) (ev_now env)" by simp
    with assms(3) nf Some show ?thesis
      by (auto simp: fetchAndStore_def outcome_def evalAge_blocked cool_down_def Let_def split: if_splits)
  qed
qed

lemma fetchPassthrough_blocked:
  assumes "\<forall>resp. upstreamGet env spec = Some resp \<longrightarrow> spec_blocks spec (published_of spec resp) (ev_now env)"
  shows "status_of (fst (fetchPassthrough env r spec key e)) \<notin> {200, 304} \<and>
    en_store (snd (fetchPassthrough env r spec key e)) = en_store e"
proof (cases "upstreamGet env spec")
  case None
  then show ?thesis by (simp add: fetchPassthrough_def)
next
  case (Some resp)
  then show ?thesis
    using assms
    by (auto simp: fetchPassthrough_def ageGate_blocked cool_down_def Let_def)
qed

lemma fetchAndServe_blocked:
  assumes "\<forall>art. GetArtifact (en_store e) (r_id (sp_repo spec)) (sp_path spec) = Inr art \<longrightarrow>
      \<not> fresh (ev_now env) art (sp_cfg spec) (sp_kind spec)"
    and "\<forall>resp. upstreamGet env spec = Some resp \<longrightarrow> spec_blocks spec (published_of spec resp) (ev_now env)"
  shows "status_of (fst (fetchAndServe env r spec key e)) \<notin> {200, 304} \<and>
    en_store (snd (fetchAndServe env r spec key e)) = en_store e"
proof -
  obtain rem cool where c: "neg_remaining (ev_now env) key (en_cool e) = (rem, cool)"
    by (cases "neg_remaining (ev_now env) key (en_cool e)")
  let ?e = "e\<lparr>en_cool := cool\<rparr>"
  obtain out e1 where f: "fetchAndStore env spec key ?e = (out, e1)"
    by (cases "fetchAndStore env spec key ?e")
  have o1: "fo_kind out \<noteq> fetchStored \<and> en_store e1 = en_store ?e"
    by (rule fetchAndStore_blocked [OF _ assms(2) f]) (use assms(1) in simp)
  show ?thesis
    using c f o1 fetchPassthrough_blocked [OF assms(2), of r key ?e]
    by (cases rem; cases "fo_kind out") (auto simp: fetchAndServe_def renderOutcome_def Let_def)
qed

text \<open>
  C5: The age policy cannot be walked around: when it blocks the stored copy of a path and whatever
  the upstream would answer for it, no request is answered with the artifact (200 or 304), whether
  from the cache, from a fresh fetch or through a repository that does not cache, and nothing is
  stored.
\<close>

theorem serve_age_blocked:
  assumes "\<forall>art. GetArtifact (en_store e) (r_id (sp_repo spec)) (sp_path spec) = Inr art \<longrightarrow>
      spec_blocks spec (a_published_at art) (ev_now env)"
    and "\<forall>resp. upstreamGet env spec = Some resp \<longrightarrow> spec_blocks spec (published_of spec resp) (ev_now env)"
  shows "status_of (fst (serve env r spec e)) \<notin> {200, 304} \<and>
    en_store (snd (serve env r spec e)) = en_store e"
proof -
  have miss: "status_of (fst (serve_miss env r spec e)) \<notin> {200, 304} \<and>
      en_store (snd (serve_miss env r spec e)) = en_store e"
    if "\<forall>art. GetArtifact (en_store e) (r_id (sp_repo spec)) (sp_path spec) = Inr art \<longrightarrow>
      \<not> fresh (ev_now env) art (sp_cfg spec) (sp_kind spec)"
  proof -
    obtain hit neg where n: "neg_has (ev_now env) (repo_key spec) (en_neg e) = (hit, neg)"
      by (cases "neg_has (ev_now env) (repo_key spec) (en_neg e)")
    let ?e = "emit (CacheMiss (r_name (sp_repo spec))) (e\<lparr>en_neg := neg\<rparr>)"
    have "status_of (fst (fetchAndServe env r spec (repo_key spec) ?e)) \<notin> {200, 304} \<and>
        en_store (snd (fetchAndServe env r spec (repo_key spec) ?e)) = en_store ?e"
      by (rule fetchAndServe_blocked [OF _ assms(2)]) (use that in simp)
    with n show ?thesis by (simp add: serve_miss_def Let_def)
  qed
  show ?thesis
  proof (cases "GetArtifact (en_store e) (r_id (sp_repo spec)) (sp_path spec)")
    case (Inl err)
    with miss show ?thesis by (simp add: serve_def)
  next
    case (Inr art)
    with assms(1) have "spec_blocks spec (a_published_at art) (ev_now env)" by simp
    with Inr miss show ?thesis by (simp add: serve_def ageGate_blocked)
  qed
qed

definition young :: fetchSpec where
  "young = (demo_proxy 0 ''b'')\<lparr>
     sp_cfg := Default\<lparr>c_age_policy := \<lparr>ag_enabled = True, ag_min_age = Hour, ag_max_age = 0, ag_action = ActionBlock\<rparr>\<rparr>,
     sp_extractPublished := Some (\<lambda>_. Some (19 * Second))\<rparr>"

theorem serve_age_blocked_witness:
  "status_of (fst (serve (demo_upstream ''x'') (demo_get ''b'') young demo_start)) = 404 \<and>
   status_of (fst (serve (demo_upstream ''x'') (demo_get ''b'') young demo_start)) \<notin> {200, 304}"
proof
  show "status_of (fst (serve (demo_upstream ''x'') (demo_get ''b'') young demo_start)) = 404" by code_simp
  have g: "GetArtifact (en_store demo_start) (r_id (sp_repo young)) (sp_path young) = Inl ErrNotFound" by code_simp
  have b: "spec_blocks young (published_of young resp) (ev_now (demo_upstream ''x''))" for resp
  proof -
    have "published_of young resp = Some (19 * Second)" by (simp add: published_of_def young_def)
    moreover have "spec_blocks young (Some (19 * Second)) (ev_now (demo_upstream ''x''))" by code_simp
    ultimately show ?thesis by simp
  qed
  have "status_of (fst (serve (demo_upstream ''x'') (demo_get ''b'') young demo_start)) \<notin> {200, 304} \<and>
      en_store (snd (serve (demo_upstream ''x'') (demo_get ''b'') young demo_start)) = en_store demo_start"
    by (rule serve_age_blocked) (use g b in simp_all)
  then show "status_of (fst (serve (demo_upstream ''x'') (demo_get ''b'') young demo_start)) \<notin> {200, 304}"
    by blast
qed

section \<open>Answers without the upstream\<close>

text \<open>A miss that reaches the upstream: a proxy path that is not stored, not shielded.\<close>

definition unshielded :: "'b env \<Rightarrow> fetchSpec \<Rightarrow> 'b engine \<Rightarrow> bool" where
  "unshielded env spec e \<longleftrightarrow>
     r_type (sp_repo spec) \<noteq> TypeHosted \<and> cc_enabled (c_cache (sp_cfg spec)) \<and>
     GetArtifact (en_store e) (r_id (sp_repo spec)) (sp_path spec) = Inl ErrNotFound \<and>
     \<not> neg_live (ev_now env) (repo_key spec) (en_neg e) \<and>
     fst (neg_remaining (ev_now env) (repo_key spec) (en_cool e)) = None"

lemma serve_unshielded:
  assumes "unshielded env spec e"
  shows "\<exists>neg cool. (\<forall>k t. ev_now env \<le> t \<longrightarrow> neg_live t k neg = neg_live t k (en_neg e)) \<and>
    serve env r spec e = renderOutcome env r spec (fetchAndStore env spec (repo_key spec)
      ((emit (CacheMiss (r_name (sp_repo spec))) (e\<lparr>en_neg := neg\<rparr>))\<lparr>en_cool := cool\<rparr>))"
proof -
  obtain neg where n: "neg_has (ev_now env) (repo_key spec) (en_neg e) = (False, neg)"
    using assms neg.has_live [of "ev_now env" "repo_key spec" "en_neg e"]
    by (cases "neg_has (ev_now env) (repo_key spec) (en_neg e)") (simp add: unshielded_def)
  obtain cool where c: "neg_remaining (ev_now env) (repo_key spec) (en_cool e) = (None, cool)"
    using assms by (cases "neg_remaining (ev_now env) (repo_key spec) (en_cool e)") (simp add: unshielded_def)
  have "\<forall>k t. ev_now env \<le> t \<longrightarrow> neg_live t k neg = neg_live t k (en_neg e)"
    using neg.has_keeps [of "ev_now env" _ _ "repo_key spec" "en_neg e"] n by simp
  then show ?thesis
    using assms n c
    by (intro exI [of _ neg] exI [of _ cool])
      (simp add: unshielded_def serve_def serve_miss_def fetchAndServe_def)
qed

text \<open>While a path is negatively cached the answer is 404 and does not depend on the upstream.\<close>

lemma serve_neg_live:
  assumes "r_type (sp_repo spec) \<noteq> TypeHosted"
    and "GetArtifact (en_store e) (r_id (sp_repo spec)) (sp_path spec) = Inl ErrNotFound"
    and "neg_live (ev_now env) (repo_key spec) (en_neg e)"
  shows "serve env r spec e = (http_NotFound, e\<lparr>en_neg := snd (neg_has (ev_now env) (repo_key spec) (en_neg e))\<rparr>)"
  using assms neg.has_live [of "ev_now env" "repo_key spec" "en_neg e"]
  by (cases "neg_has (ev_now env) (repo_key spec) (en_neg e)") (simp add: serve_def serve_miss_def)

lemma fetchAndStore_404:
  assumes "GetArtifact (en_store e) (r_id (sp_repo spec)) (sp_path spec) = Inl ErrNotFound"
    and "upstreamGet env spec = Some resp" and "ur_status resp = 404"
  shows "fetchAndStore env spec key e = (outcome fetchNotFound,
    e\<lparr>en_neg := neg_set (ev_now env) key (cc_negative_ttl (c_cache (sp_cfg spec))) (en_neg e)\<rparr>)"
  using assms by (simp add: fetchAndStore_def)

text \<open>
  An upstream 404 is remembered: until the negative TTL has passed, every further request for the
  path is answered 404 without the upstream being asked, whatever it would say now.
\<close>

theorem negative_cache_shields_upstream:
  assumes "unshielded env spec e" and "upstreamGet env spec = Some resp" and "ur_status resp = 404"
    and "0 < cc_negative_ttl (c_cache (sp_cfg spec))"
    and "ev_now env \<le> ev_now env'" and "ev_now env' \<le> ev_now env + cc_negative_ttl (c_cache (sp_cfg spec))"
  shows "status_of (fst (serve env r spec e)) = 404 \<and>
    (\<forall>fetch. fst (serve (env'\<lparr>ev_fetch := fetch\<rparr>) r' spec (snd (serve env r spec e))) = http_NotFound)"
proof -
  let ?ttl = "cc_negative_ttl (c_cache (sp_cfg spec))"
  from serve_unshielded [OF assms(1), of r] obtain neg cool where
    s: "serve env r spec e = renderOutcome env r spec (fetchAndStore env spec (repo_key spec)
      ((emit (CacheMiss (r_name (sp_repo spec))) (e\<lparr>en_neg := neg\<rparr>))\<lparr>en_cool := cool\<rparr>))"
    by blast
  let ?e0 = "(emit (CacheMiss (r_name (sp_repo spec))) (e\<lparr>en_neg := neg\<rparr>))\<lparr>en_cool := cool\<rparr>"
  let ?e1 = "?e0\<lparr>en_neg := neg_set (ev_now env) (repo_key spec) ?ttl (en_neg ?e0)\<rparr>"
  have u: "GetArtifact (en_store e) (r_id (sp_repo spec)) (sp_path spec) = Inl ErrNotFound"
    "r_type (sp_repo spec) \<noteq> TypeHosted" using assms(1) by (simp_all add: unshielded_def)
  have "fetchAndStore env spec (repo_key spec) ?e0 = (outcome fetchNotFound, ?e1)"
    by (rule fetchAndStore_404 [OF _ assms(2,3)]) (use u in simp)
  with s have s1: "serve env r spec e = (http_NotFound, ?e1)" by (simp add: outcome_def renderOutcome_def)
  have "neg_live (ev_now env') (repo_key spec) (en_neg ?e1)"
    using neg.add_live [OF assms(4), of "ev_now env'" "repo_key spec" "ev_now env"] assms(6) by simp
  then have "fst (serve (env'\<lparr>ev_fetch := fetch\<rparr>) r' spec ?e1) = http_NotFound" for fetch
    using serve_neg_live [of spec ?e1 "env'\<lparr>ev_fetch := fetch\<rparr>" r'] u by simp
  with s1 show ?thesis by simp
qed

theorem negative_cache_shields_upstream_witness:
  "fst (serve ((demo_env (2 * Minute))\<lparr>ev_fetch := (\<lambda>_ _. Some \<lparr>ur_status = 200, ur_headers = [], ur_body = (''x'', True)\<rparr>)\<rparr>)
     (demo_get ''b'') (demo_proxy 0 ''b'')
     (snd (serve ((demo_env Minute)\<lparr>ev_fetch := (\<lambda>_ _. Some \<lparr>ur_status = 404, ur_headers = [], ur_body = ([], True)\<rparr>)\<rparr>)
       (demo_get ''b'') (demo_proxy 0 ''b'') demo_start))) = http_NotFound"
proof -
  let ?env = "(demo_env Minute)\<lparr>ev_fetch := (\<lambda>_ _. Some \<lparr>ur_status = 404, ur_headers = [], ur_body = ([], True)\<rparr>)\<rparr>"
  let ?spec = "demo_proxy 0 ''b''"
  have "unshielded ?env ?spec demo_start" by code_simp
  moreover have "upstreamGet ?env ?spec = Some \<lparr>ur_status = 404, ur_headers = [], ur_body = ([], True)\<rparr>"
    by (simp add: upstreamGet_def)
  moreover have "0 < cc_negative_ttl (c_cache (sp_cfg ?spec))"
    "ev_now ?env \<le> ev_now (demo_env (2 * Minute))"
    "ev_now (demo_env (2 * Minute)) \<le> ev_now ?env + cc_negative_ttl (c_cache (sp_cfg ?spec))" by code_simp+
  ultimately show ?thesis
    using negative_cache_shields_upstream [of ?env ?spec demo_start _ "demo_env (2 * Minute)" "demo_get ''b''" "demo_get ''b''"]
    by simp
qed

text \<open>
  An upstream 429 or 503 starts a cooldown of at least 15 seconds: the client gets the upstream's
  status with a Retry-After, and until the cooldown ends every further request for the path is
  answered 503 without the upstream being asked.
\<close>

theorem cooldown_shields_upstream:
  assumes "unshielded env spec e" and "upstreamGet env spec = Some resp"
    and "ur_status resp = 429 \<or> ur_status resp = 503"
    and "ev_now env \<le> ev_now env'" and "ev_now env' < ev_now env + 15 * Second"
  shows "status_of (fst (serve env r spec e)) = ur_status resp \<and>
    (\<forall>fetch. \<exists>ra. ra \<noteq> [] \<and>
      fst (serve (env'\<lparr>ev_fetch := fetch\<rparr>) r' spec (snd (serve env r spec e))) = writeRetry 503 ra)"
proof -
  let ?d = "parseRetryAfter (ev_parse_date env) (header_get (ur_headers resp) ''Retry-After'') (ev_now env)"
  from serve_unshielded [OF assms(1), of r] obtain neg cool where
    live: "\<forall>k t. ev_now env \<le> t \<longrightarrow> neg_live t k neg = neg_live t k (en_neg e)" and
    s: "serve env r spec e = renderOutcome env r spec (fetchAndStore env spec (repo_key spec)
      ((emit (CacheMiss (r_name (sp_repo spec))) (e\<lparr>en_neg := neg\<rparr>))\<lparr>en_cool := cool\<rparr>))"
    by blast
  let ?e0 = "(emit (CacheMiss (r_name (sp_repo spec))) (e\<lparr>en_neg := neg\<rparr>))\<lparr>en_cool := cool\<rparr>"
  let ?e1 = "emit (UpstreamErr (r_name (sp_repo spec)))
    (?e0\<lparr>en_cool := neg_set (ev_now env) (repo_key spec) ?d cool\<rparr>)"
  have u: "GetArtifact (en_store e) (r_id (sp_repo spec)) (sp_path spec) = Inl ErrNotFound"
    "r_type (sp_repo spec) \<noteq> TypeHosted" using assms(1) by (simp_all add: unshielded_def)
  have "fetchAndStore env spec (repo_key spec) ?e0 =
      (\<lparr>fo_kind = fetchRetry, fo_status = ur_status resp, fo_retryAfter = retryAfterSeconds ?d\<rparr>, ?e1)"
    using u assms(2,3) by (auto simp: fetchAndStore_def cool_down_def Let_def)
  with s have s1: "serve env r spec e = (writeRetry (ur_status resp) (retryAfterSeconds ?d), ?e1)"
    by (simp add: renderOutcome_def)
  have range: "15 * Second \<le> ?d" "?d \<le> 5 * Minute"
    using parseRetryAfter_range [of "ev_parse_date env" "header_get (ur_headers resp) ''Retry-After''" "ev_now env"]
    by simp_all
  let ?left = "ev_now env + ?d - ev_now env'"
  have rem: "fst (neg_remaining (ev_now env') (repo_key spec) (neg_set (ev_now env) (repo_key spec) ?d cool)) = Some ?left"
    using neg_remaining_set [of ?d "ev_now env" "ev_now env'" "repo_key spec" cool] range assms(4,5)
    by (simp add: max_int64_def)
  have ne: "retryAfterSeconds ?left \<noteq> []"
    by (simp add: retryAfterSeconds_def Let_def Itoa_def digits_Nil)
  have "\<exists>ra. ra \<noteq> [] \<and> fst (serve (env'\<lparr>ev_fetch := fetch\<rparr>) r' spec ?e1) = writeRetry 503 ra" for fetch
  proof -
    let ?env = "env'\<lparr>ev_fetch := fetch\<rparr>"
    show ?thesis
    proof (cases "neg_live (ev_now env') (repo_key spec) (en_neg ?e1)")
      case True
      then have "neg_live (ev_now env') (repo_key spec) (en_neg e)" using live assms(4) by simp
      moreover have "\<not> neg_live (ev_now env) (repo_key spec) (en_neg e)" using assms(1) by (simp add: unshielded_def)
      ultimately show ?thesis using assms(4) by (auto simp: neg_live_def split: option.splits)
    next
      case False
      obtain c where c: "neg_remaining (ev_now env') (repo_key spec) (neg_set (ev_now env) (repo_key spec) ?d cool) = (Some ?left, c)"
        using rem by (metis prod.collapse)
      have "fst (serve ?env r' spec ?e1) = writeRetry 503 (retryAfterSeconds ?left)"
        using u False neg.has_live [of "ev_now env'" "repo_key spec" neg] c
        by (cases "neg_has (ev_now env') (repo_key spec) neg")
          (simp add: serve_def serve_miss_def fetchAndServe_def Let_def)
      with ne show ?thesis by blast
    qed
  qed
  with s1 assms(3) show ?thesis by auto
qed

theorem cooldown_shields_upstream_witness:
  "\<exists>ra. ra \<noteq> [] \<and> fst (serve ((demo_env (Minute + 14 * Second))\<lparr>ev_fetch := (\<lambda>_ _. None)\<rparr>)
     (demo_get ''b'') (demo_proxy 0 ''b'')
     (snd (serve ((demo_env Minute)\<lparr>ev_fetch := (\<lambda>_ _. Some \<lparr>ur_status = 429, ur_headers = [], ur_body = ([], True)\<rparr>)\<rparr>)
       (demo_get ''b'') (demo_proxy 0 ''b'') demo_start))) = writeRetry 503 ra"
proof -
  let ?env = "(demo_env Minute)\<lparr>ev_fetch := (\<lambda>_ _. Some \<lparr>ur_status = 429, ur_headers = [], ur_body = ([], True)\<rparr>)\<rparr>"
  let ?spec = "demo_proxy 0 ''b''"
  have "unshielded ?env ?spec demo_start" by code_simp
  moreover have "upstreamGet ?env ?spec = Some \<lparr>ur_status = 429, ur_headers = [], ur_body = ([], True)\<rparr>"
    by (simp add: upstreamGet_def)
  moreover have "ev_now ?env \<le> ev_now (demo_env (Minute + 14 * Second))"
    "ev_now (demo_env (Minute + 14 * Second)) < ev_now ?env + 15 * Second" by code_simp+
  ultimately show ?thesis
    using cooldown_shields_upstream [of ?env ?spec demo_start _ "demo_env (Minute + 14 * Second)"
        "demo_get ''b''" "demo_get ''b''"] by simp
qed

section \<open>Uploads read back\<close>

lemma find_artifact_upsert:
  "\<exists>i. find_artifact (upsert_artifact a st) (a_repo_id a) (a_path a) = Some (a\<lparr>a_id := i\<rparr>)"
proof (cases "find_artifact st (a_repo_id a) (a_path a)")
  case None
  then show ?thesis
    unfolding find_artifact_def by (simp add: upsert_artifact_def find_artifact_def Let_def find_append) blast
next
  case (Some old)
  have "find_artifact (upsert_artifact a st) (a_repo_id a) (a_path a) =
      map_option (\<lambda>x. if art_key x = art_key a then a\<lparr>a_id := a_id x\<rparr> else x)
        (find_artifact st (a_repo_id a) (a_path a))"
    using Some find_update_where [where k = art_key and x = "art_key a" and P = "\<lambda>x. art_key x = art_key a"
        and f = "\<lambda>x. a\<lparr>a_id := a_id x\<rparr>" and rows = "st_artifacts st"]
    by (simp add: upsert_artifact_def find_artifact_def)
  with Some find_artifact_key [OF Some] show ?thesis by auto
qed

lemma PutArtifact_reads_back:
  assumes "PutArtifact now a st = (Inr art, st')"
  shows "GetArtifact st' (a_repo_id a) (a_path a) = Inr art \<and>
    (\<exists>i. art = (put_row now a)\<lparr>a_id := i\<rparr>) \<and> st_fault st' = st_fault st"
proof -
  let ?a = "put_row now a"
  let ?st2 = "upsert_artifact ?a (ensure_blob_row now (a_blob_sha256 a) (a_size a) st)"
  from assms have g: "GetArtifact st' (a_repo_id a) (a_path a) = Inr art"
    and arts: "st_artifacts st' = st_artifacts ?st2" and ft: "st_fault st' = st_fault st"
    by (auto simp: PutArtifact_def Let_def split: if_splits option.splits)
  have "find_artifact st' (a_repo_id a) (a_path a) = find_artifact ?st2 (a_repo_id a) (a_path a)"
    using arts by (simp add: find_artifact_def)
  moreover obtain i where "find_artifact ?st2 (a_repo_id ?a) (a_path ?a) = Some (?a\<lparr>a_id := i\<rparr>)"
    using find_artifact_upsert by blast
  ultimately have "art = ?a\<lparr>a_id := i\<rparr>" using g by (simp add: GetArtifact_def split: if_splits)
  with g ft show ?thesis by blast
qed

lemma engine_put_reads_back:
  assumes "engine_put env repo p ver ct published body e = (Inr (), e1)"
  shows "\<exists>digest n bl art. bs_put (ev_blobs env) body (en_blobs e) = (Inr (digest, n), bl) \<and>
    en_blobs e1 = bl \<and> GetArtifact (en_store e1) (r_id repo) p = Inr art \<and>
    a_blob_sha256 art = digest \<and> a_published_at art = published"
proof -
  obtain res bl where b: "bs_put (ev_blobs env) body (en_blobs e) = (res, bl)"
    by (cases "bs_put (ev_blobs env) body (en_blobs e)")
  with assms obtain digest n where res: "res = Inr (digest, n)"
    by (cases res) (auto simp: engine_put_def storeArtifact_def)
  let ?a = "new_artifact (r_id repo) p ver digest n ct published (ev_now env)"
  obtain pres st where p: "PutArtifact (ev_now env) ?a (en_store e) = (pres, st)"
    by (cases "PutArtifact (ev_now env) ?a (en_store e)")
  with assms b res obtain art where art: "pres = Inr art"
    and e1: "en_blobs e1 = bl" "en_store e1 = st"
    by (cases pres) (auto simp: engine_put_def storeArtifact_def put_spec_def)
  from PutArtifact_reads_back [OF p [unfolded art]]
  have "GetArtifact st (r_id repo) p = Inr art" "a_blob_sha256 art = digest" "a_published_at art = published"
    by (auto simp: new_artifact_def put_row_def)
  with b res e1 show ?thesis by simp
qed

text \<open>
  C9: What is uploaded to a hosted repository can be downloaded: after a successful \<open>put\<close>, a GET of
  the path that the age policy lets through and that is not conditional is answered 200 with bytes
  of the uploaded digest, under the entity tag of that digest.
\<close>

theorem upload_download_roundtrip:
  assumes "fs_ok sha (en_blobs e)" and "ev_blobs env = FSStore sha" and "ev_blobs env' = FSStore sha"
    and "engine_put env repo p ver ct published body e = (Inr (), e1)"
    and "\<not> fs_fault (en_blobs e1) OpenFile" and "\<not> fs_fault (en_blobs e1) StatFile"
    and "r_type (sp_repo spec) = TypeHosted" and "r_id (sp_repo spec) = r_id repo" and "sp_path spec = p"
    and "\<not> spec_blocks spec published (ev_now env')"
    and "rq_method r = MethodGet" and "header_get (rq_headers r) ''If-None-Match'' = []"
  shows "\<exists>b. sha b = sha (fst body) \<and> rs_status (net_response (fst (serve env' r spec e1))) = Some 200 \<and>
    rs_body (net_response (fst (serve env' r spec e1))) = b \<and>
    header_get (rs_headers (net_response (fst (serve env' r spec e1)))) ''ETag'' = ''\"'' @ sha b @ ''\"''"
proof -
  from engine_put_reads_back [OF assms(4)] obtain d n bl art where
    put: "bs_put (FSStore sha) body (en_blobs e) = (Inr (d, n), bl)" and bl: "en_blobs e1 = bl"
    and g: "GetArtifact (en_store e1) (r_id repo) p = Inr art" and art: "a_blob_sha256 art = d"
      "a_published_at art = published"
    using assms(2) by auto
  have "fs_Put sha body (en_blobs e) = (Inr (d, n), bl)" using put by (simp add: FSStore_def)
  then obtain b where b: "fs_Open d bl = Inr (b, int (length b))" "sha b = d" and d: "d = sha (fst body)"
    using fs_Put_Open [OF assms(1)] assms(5,6) bl by blast
  have open1: "bs_open (ev_blobs env') d bl = Inr (b, int (length b))"
    using b assms(3) by (simp add: FSStore_def)
  obtain ops e2 where gate: "ageGate (ev_now env') spec published e1 = (False, [], e2)" and e2: "en_blobs e2 = bl"
    using assms(10) bl
    by (cases "fst (evaluateAge (c_age_policy (sp_cfg spec)) published (ev_now env'))") (auto simp: ageGate_def)
  have "\<exists>hs. fst (serve env' r spec e1) = hs @ [SetHeader ''ETag'' (''\"'' @ d @ ''\"''),
      SetHeader ''Content-Length'' (case itoa (int (length b)) of None \<Rightarrow> [] | Some t \<Rightarrow> t), WriteBytes b] \<and>
      (hs = [] \<or> (\<exists>c. hs = [SetHeader ''Content-Type'' c]))"
    using g art gate e2 open1 assms(7-9,11,12)
    by (auto simp: serve_def serve_counted_def serveArtifact_def Let_def split: prod.splits)
  then obtain hs where hs: "fst (serve env' r spec e1) = hs @ [SetHeader ''ETag'' (''\"'' @ d @ ''\"''),
      SetHeader ''Content-Length'' (case itoa (int (length b)) of None \<Rightarrow> [] | Some t \<Rightarrow> t), WriteBytes b]"
    "hs = [] \<or> (\<exists>c. hs = [SetHeader ''Content-Type'' c])" by blast
  from hs(2) b d show ?thesis
    unfolding hs(1)
    by (auto simp: net_response_def net_run_def fresh_response_def header_set_def header_get_def Let_def)
qed

theorem upload_download_roundtrip_witness:
  "\<exists>b. toy_sha b = toy_sha ''x'' \<and>
     rs_body (net_response (fst (serve (demo_env 9) (demo_get ''a'') (put_spec demo_repo ''a'' ''1'' [])
       (demo_put ''a'' ''x'' demo_start)))) = b"
proof -
  let ?e1 = "demo_put ''a'' ''x'' demo_start" and ?spec = "put_spec demo_repo ''a'' ''1'' []"
  have "fst (engine_put (demo_env 5) demo_repo ''a'' ''1'' [] None (''x'', True) demo_start) = Inr ()" by code_simp
  then have p: "engine_put (demo_env 5) demo_repo ''a'' ''1'' [] None (''x'', True) demo_start = (Inr (), ?e1)"
    unfolding demo_put_def by (metis prod.collapse)
  have "\<exists>b. toy_sha b = toy_sha (fst (''x'', True)) \<and>
      rs_status (net_response (fst (serve (demo_env 9) (demo_get ''a'') ?spec ?e1))) = Some 200 \<and>
      rs_body (net_response (fst (serve (demo_env 9) (demo_get ''a'') ?spec ?e1))) = b \<and>
      header_get (rs_headers (net_response (fst (serve (demo_env 9) (demo_get ''a'') ?spec ?e1)))) ''ETag'' =
        ''\"'' @ toy_sha b @ ''\"''"
  proof (rule upload_download_roundtrip [OF _ _ _ p])
    show "fs_ok toy_sha (en_blobs demo_start)"
      using fs_ok_no_files [OF hex_digest_toy] by (simp add: demo_start_def empty_engine_def)
    show "ev_blobs (demo_env 5) = FSStore toy_sha" "ev_blobs (demo_env 9) = FSStore toy_sha"
      by (simp_all add: demo_env_def)
    show "\<not> fs_fault (en_blobs ?e1) OpenFile" "\<not> fs_fault (en_blobs ?e1) StatFile" by code_simp+
    show "\<not> spec_blocks ?spec None (ev_now (demo_env 9))" by code_simp
    show "r_type (sp_repo ?spec) = TypeHosted" "r_id (sp_repo ?spec) = r_id demo_repo"
      "sp_path ?spec = ''a''" "rq_method (demo_get ''a'') = MethodGet"
      "header_get (rq_headers (demo_get ''a'')) ''If-None-Match'' = []" by code_simp+
  qed
  then show ?thesis by auto
qed

end
