(* ===== verification/Flight.thy ===== *)
theory Flight
  imports Engine
begin

text \<open>
  Coalescing of concurrent fetches (\<^verbatim>\<open>internal/repo/flight.go\<close>) as a step relation over any number of
  goroutines. Each step is one critical section or one wait-group operation of \<open>do\<close>: joining a call
  that is registered, registering one, running \<open>fn\<close>, unregistering, signalling, waking. \<open>fn\<close> may
  return any outcome, or panic; the HTTP server recovers the panic and the goroutine is gone.
\<close>

datatype flight_pc =
    Arrived string              \<comment> \<open>about to take the lock, for a key\<close>
  | Waiting nat string          \<comment> \<open>blocked on the wait group of a call\<close>
  | Leading nat string          \<comment> \<open>running \<open>fn\<close>\<close>
  | Ran nat string              \<comment> \<open>\<open>fn\<close> has returned, the call is still registered\<close>
  | Unregistered nat string
  | Answered nat string fetchOutcome
  | Panicked

record flight =
  fl_calls :: "string \<Rightarrow> nat option"
  fl_res :: "nat \<Rightarrow> fetchOutcome option"
  fl_done :: "nat \<Rightarrow> bool"
  fl_next :: nat
  fl_pcs :: "nat \<Rightarrow> flight_pc"

definition newFlight :: "(nat \<Rightarrow> flight_pc) \<Rightarrow> flight" where
  "newFlight pcs = \<lparr>fl_calls = (\<lambda>_. None), fl_res = (\<lambda>_. None), fl_done = (\<lambda>_. False), fl_next = 0,
     fl_pcs = pcs\<rparr>"

definition at :: "nat \<Rightarrow> flight_pc \<Rightarrow> flight \<Rightarrow> flight" where
  "at i pc f = f\<lparr>fl_pcs := (fl_pcs f)(i := pc)\<rparr>"

inductive flight_step :: "flight \<Rightarrow> flight \<Rightarrow> bool" where
  join: "fl_pcs f i = Arrived key \<Longrightarrow> fl_calls f key = Some c \<Longrightarrow> flight_step f (at i (Waiting c key) f)"
| lead: "fl_pcs f i = Arrived key \<Longrightarrow> fl_calls f key = None \<Longrightarrow>
    flight_step f (at i (Leading (fl_next f) key)
      (f\<lparr>fl_calls := (fl_calls f)(key \<mapsto> fl_next f), fl_next := Suc (fl_next f)\<rparr>))"
| run: "fl_pcs f i = Leading c key \<Longrightarrow>
    flight_step f (at i (Ran c key) (f\<lparr>fl_res := (fl_res f)(c \<mapsto> out)\<rparr>))"
| panic: "fl_pcs f i = Leading c key \<Longrightarrow> flight_step f (at i Panicked f)"
| unregister: "fl_pcs f i = Ran c key \<Longrightarrow>
    flight_step f (at i (Unregistered c key) (f\<lparr>fl_calls := (fl_calls f)(key := None)\<rparr>))"
| signal: "fl_pcs f i = Unregistered c key \<Longrightarrow> fl_res f c = Some out \<Longrightarrow>
    flight_step f (at i (Answered c key out) (f\<lparr>fl_done := (fl_done f)(c := True)\<rparr>))"
| wake: "fl_pcs f i = Waiting c key \<Longrightarrow> fl_done f c \<Longrightarrow> fl_res f c = Some out \<Longrightarrow>
    flight_step f (at i (Answered c key out) f)"

inductive_cases flight_stepE: "flight_step f f'"

definition flight_runs :: "flight \<Rightarrow> flight \<Rightarrow> bool" where
  "flight_runs = flight_step\<^sup>*\<^sup>*"

section \<open>The invariant\<close>

text \<open>The call a goroutine works on or waits for, and whether it owns it.\<close>

fun call_of :: "flight_pc \<Rightarrow> (nat \<times> string) option" where
  "call_of (Waiting c k) = Some (c, k)"
| "call_of (Leading c k) = Some (c, k)"
| "call_of (Ran c k) = Some (c, k)"
| "call_of (Unregistered c k) = Some (c, k)"
| "call_of (Answered c k out) = Some (c, k)"
| "call_of _ = None"

fun owns :: "flight_pc \<Rightarrow> nat option" where
  "owns (Leading c k) = Some c"
| "owns (Ran c k) = Some c"
| "owns (Unregistered c k) = Some c"
| "owns _ = None"

text \<open>Running \<open>fn\<close>, or about to unregister: the call is in the table.\<close>

fun registered :: "flight_pc \<Rightarrow> (nat \<times> string) option" where
  "registered (Leading c k) = Some (c, k)"
| "registered (Ran c k) = Some (c, k)"
| "registered _ = None"

definition flight_inv :: "flight \<Rightarrow> bool" where
  "flight_inv f \<longleftrightarrow>
     (\<forall>k c. fl_calls f k = Some c \<longrightarrow> c < fl_next f) \<and>
     (\<forall>i c k. call_of (fl_pcs f i) = Some (c, k) \<longrightarrow> c < fl_next f) \<and>
     (\<forall>i c k. registered (fl_pcs f i) = Some (c, k) \<longrightarrow> fl_calls f k = Some c) \<and>
     (\<forall>i j c. owns (fl_pcs f i) = Some c \<and> owns (fl_pcs f j) = Some c \<longrightarrow> i = j) \<and>
     (\<forall>i c k. fl_pcs f i = Ran c k \<or> fl_pcs f i = Unregistered c k \<longrightarrow> fl_res f c \<noteq> None) \<and>
     (\<forall>i c k out. fl_pcs f i = Answered c k out \<longrightarrow> fl_res f c = Some out) \<and>
     (\<forall>i c k. fl_pcs f i = Leading c k \<longrightarrow> fl_res f c = None) \<and>
     (\<forall>c. fl_next f \<le> c \<longrightarrow> fl_res f c = None \<and> \<not> fl_done f c)"

lemma flight_inv_new: "(\<And>i. \<exists>k. pcs i = Arrived k) \<Longrightarrow> flight_inv (newFlight pcs)"
proof -
  assume a: "\<And>i. \<exists>k. pcs i = Arrived k"
  have "call_of (pcs i) = None" "owns (pcs i) = None" "registered (pcs i) = None" for i
    using a [of i] by auto
  moreover have "pcs i \<noteq> Ran c k" "pcs i \<noteq> Unregistered c k" "pcs i \<noteq> Answered c k out" "pcs i \<noteq> Leading c k"
    for i c k out using a [of i] by auto
  ultimately show ?thesis by (simp add: flight_inv_def newFlight_def)
qed

lemma flight_invD:
  assumes "flight_inv f"
  shows "fl_calls f k = Some c \<Longrightarrow> c < fl_next f"
    and "call_of (fl_pcs f i) = Some (c, k) \<Longrightarrow> c < fl_next f"
    and "registered (fl_pcs f i) = Some (c, k) \<Longrightarrow> fl_calls f k = Some c"
    and "owns (fl_pcs f i) = Some c \<Longrightarrow> owns (fl_pcs f j) = Some c \<Longrightarrow> i = j"
    and "fl_pcs f i = Ran c k \<or> fl_pcs f i = Unregistered c k \<Longrightarrow> fl_res f c \<noteq> None"
    and "fl_pcs f i = Answered c k out \<Longrightarrow> fl_res f c = Some out"
    and "fl_pcs f i = Leading c k \<Longrightarrow> fl_res f c = None"
    and "fl_next f \<le> c \<Longrightarrow> fl_res f c = None \<and> \<not> fl_done f c"
  using assms unfolding flight_inv_def by (-, (elim conjE, (blast | metis))+)

lemma flight_invI:
  assumes "\<And>k c. fl_calls f k = Some c \<Longrightarrow> c < fl_next f"
    and "\<And>i c k. call_of (fl_pcs f i) = Some (c, k) \<Longrightarrow> c < fl_next f"
    and "\<And>i c k. registered (fl_pcs f i) = Some (c, k) \<Longrightarrow> fl_calls f k = Some c"
    and "\<And>i j c. owns (fl_pcs f i) = Some c \<Longrightarrow> owns (fl_pcs f j) = Some c \<Longrightarrow> i = j"
    and "\<And>i c k. fl_pcs f i = Ran c k \<or> fl_pcs f i = Unregistered c k \<Longrightarrow> fl_res f c \<noteq> None"
    and "\<And>i c k out. fl_pcs f i = Answered c k out \<Longrightarrow> fl_res f c = Some out"
    and "\<And>i c k. fl_pcs f i = Leading c k \<Longrightarrow> fl_res f c = None"
    and "\<And>c. fl_next f \<le> c \<Longrightarrow> fl_res f c = None \<and> \<not> fl_done f c"
  shows "flight_inv f"
  using assms unfolding flight_inv_def by blast

lemma owns_call: "owns pc = Some c \<Longrightarrow> \<exists>k. call_of pc = Some (c, k)"
  by (cases pc) auto

lemma registered_owns: "registered pc = Some (c, k) \<Longrightarrow> owns pc = Some c"
  by (cases pc) auto

lemma flight_inv_registered_unique:
  assumes "flight_inv f" and "registered (fl_pcs f i) = Some (c, k)" and "registered (fl_pcs f j) = Some (d, k)"
  shows "i = j"
proof -
  from assms have "c = d" by (metis flight_invD(3) option.inject)
  with assms show ?thesis by (meson flight_invD(4) registered_owns)
qed

lemma flight_step_inv: "flight_step f f' \<Longrightarrow> flight_inv f \<Longrightarrow> flight_inv f'"
proof (induction rule: flight_step.induct)
  case (join f i key c)
  note D = flight_invD [OF join(3)]
  show ?case by (rule flight_invI) (use join(1,2) D in \<open>auto simp: at_def split: if_splits\<close>)
next
  case (lead f i key)
  note D = flight_invD [OF lead(3)]
  have own: "owns (fl_pcs f j) \<noteq> Some (fl_next f)" for j
    using owns_call [of "fl_pcs f j" "fl_next f"] D(2) by fastforce
  have new: "fl_res f (fl_next f) = None" using D(8) by simp
  show ?case
    by (rule flight_invI)
      (use lead(1,2) D own new in \<open>auto simp: at_def less_Suc_eq Suc_le_eq split: if_splits\<close>)
next
  case (run f i c key out)
  note D = flight_invD [OF run(2)]
  have i: "c < fl_next f" "fl_calls f key = Some c" "fl_res f c = None" "\<And>j. owns (fl_pcs f j) = Some c \<Longrightarrow> j = i"
    using run(1) D(2) [of i c key] D(3) [of i c key] D(4) [of _ c i] D(7) [of i c key] by simp_all
  have "fl_pcs f j \<noteq> Answered c k out'" for j k out' using D(6) [of j c k out'] i(3) by auto
  note ans = this
  show ?case
  proof (rule flight_invI, goal_cases)
    case (8 d)
    then have "d \<noteq> c" using i(1) by (auto simp: at_def)
    with 8 D(8) show ?case by (simp add: at_def)
  qed (use run(1) D i ans in \<open>auto simp: at_def split: if_splits\<close>)
next
  case (panic f i c key)
  note D = flight_invD [OF panic(2)]
  show ?case by (rule flight_invI) (use panic(1) D in \<open>auto simp: at_def split: if_splits\<close>)
next
  case (unregister f i c key)
  note D = flight_invD [OF unregister(2)]
  have u: "registered (fl_pcs f j) = Some (d, key) \<Longrightarrow> j = i" for j d
    using flight_inv_registered_unique [OF unregister(2), of i c key j d] unregister(1) by simp
  have i: "c < fl_next f" "\<And>j. owns (fl_pcs f j) = Some c \<Longrightarrow> j = i" "fl_res f c \<noteq> None"
    using unregister(1) D(2) [of i c key] D(4) [of _ c i] D(5) [of i c key] by simp_all
  show ?case
    by (rule flight_invI) (use unregister(1) D u i in \<open>auto simp: at_def split: if_splits\<close>)
next
  case (signal f i c key out)
  note D = flight_invD [OF signal(3)]
  have i: "c < fl_next f" using signal(1) D(2) [of i c key] by simp
  show ?case by (rule flight_invI) (use signal(1,2) D i in \<open>auto simp: at_def split: if_splits\<close>)
next
  case (wake f i c key out)
  note D = flight_invD [OF wake(4)]
  have i: "c < fl_next f" using wake(1) D(2) [of i c key] by simp
  show ?case by (rule flight_invI) (use wake(1-3) D i in \<open>auto simp: at_def split: if_splits\<close>)
qed

lemma flight_runs_inv: "flight_runs f f' \<Longrightarrow> flight_inv f \<Longrightarrow> flight_inv f'"
  unfolding flight_runs_def by (induction rule: rtranclp_induct) (auto intro: flight_step_inv)

section \<open>One fetch, one result\<close>

text \<open>The goroutines that start by calling \<open>do\<close>.\<close>

definition all_arrived :: "(nat \<Rightarrow> flight_pc) \<Rightarrow> bool" where
  "all_arrived pcs \<longleftrightarrow> (\<forall>i. \<exists>k. pcs i = Arrived k)"

lemma flight_reachable_inv: "all_arrived pcs \<Longrightarrow> flight_runs (newFlight pcs) f \<Longrightarrow> flight_inv f"
  by (erule flight_runs_inv, rule flight_inv_new) (simp add: all_arrived_def)

text \<open>
  C11: However many goroutines ask for one key at once, at most one of them is in the upstream fetch
  for it, and all callers of one call return the same outcome, the one its fetch returned.
\<close>

theorem flight_coalesces:
  assumes "all_arrived pcs" and "flight_runs (newFlight pcs) f"
  shows "(\<forall>i j c d key. fl_pcs f i = Leading c key \<and> fl_pcs f j = Leading d key \<longrightarrow> i = j) \<and>
    (\<forall>i j c k l out out'. fl_pcs f i = Answered c k out \<and> fl_pcs f j = Answered c l out' \<longrightarrow> out = out') \<and>
    (\<forall>i c k out. fl_pcs f i = Answered c k out \<longrightarrow> fl_res f c = Some out)"
proof -
  have inv: "flight_inv f" using assms by (rule flight_reachable_inv)
  have "i = j" if "fl_pcs f i = Leading c key" "fl_pcs f j = Leading d key" for i j c d key
    using flight_inv_registered_unique [OF inv, of i c key j d] that by simp
  moreover have "fl_res f c = Some out" if "fl_pcs f i = Answered c k out" for i c k out
    using flight_invD(6) [OF inv that] .
  ultimately show ?thesis by (metis option.inject)
qed

definition two_callers :: "nat \<Rightarrow> flight_pc" where
  "two_callers = (\<lambda>_. Arrived ''k'')"

lemma two_callers_run:
  "\<exists>f. flight_runs (newFlight two_callers) f \<and> fl_pcs f 0 = Answered 0 ''k'' out \<and> fl_pcs f 1 = Answered 0 ''k'' out"
proof -
  let ?f = "newFlight two_callers"
  let ?f1 = "at 0 (Leading 0 ''k'') (?f\<lparr>fl_calls := (fl_calls ?f)(''k'' \<mapsto> 0), fl_next := 1\<rparr>)"
  let ?f2 = "at 1 (Waiting 0 ''k'') ?f1"
  let ?f3 = "at 0 (Ran 0 ''k'') (?f2\<lparr>fl_res := (fl_res ?f2)(0 \<mapsto> out)\<rparr>)"
  let ?f4 = "at 0 (Unregistered 0 ''k'') (?f3\<lparr>fl_calls := (fl_calls ?f3)(''k'' := None)\<rparr>)"
  let ?f5 = "at 0 (Answered 0 ''k'' out) (?f4\<lparr>fl_done := (fl_done ?f4)(0 := True)\<rparr>)"
  let ?f6 = "at 1 (Answered 0 ''k'' out) ?f5"
  have s1: "flight_step ?f ?f1"
    using flight_step.lead [of ?f 0 "''k''"] by (simp add: newFlight_def two_callers_def)
  have s2: "flight_step ?f1 ?f2"
    by (rule flight_step.join) (simp_all add: newFlight_def two_callers_def at_def)
  have s3: "flight_step ?f2 ?f3" by (rule flight_step.run) (simp add: at_def)
  have s4: "flight_step ?f3 ?f4" by (rule flight_step.unregister) (simp add: at_def)
  have s5: "flight_step ?f4 ?f5" by (rule flight_step.signal) (simp_all add: at_def)
  have s6: "flight_step ?f5 ?f6" by (rule flight_step.wake) (simp_all add: at_def)
  have "flight_runs ?f ?f6"
    unfolding flight_runs_def using s1 s2 s3 s4 s5 s6
    by (meson rtranclp.rtrancl_into_rtrancl rtranclp.rtrancl_refl)
  moreover have "fl_pcs ?f6 0 = Answered 0 ''k'' out" "fl_pcs ?f6 1 = Answered 0 ''k'' out"
    by (simp_all add: at_def)
  ultimately show ?thesis by blast
qed

theorem flight_coalesces_witness:
  "\<exists>f. flight_runs (newFlight two_callers) f \<and>
     fl_pcs f 0 = Answered 0 ''k'' (outcome fetchStored) \<and> fl_res f 0 = Some (outcome fetchStored)"
proof -
  obtain f where f: "flight_runs (newFlight two_callers) f" "fl_pcs f 0 = Answered 0 ''k'' (outcome fetchStored)"
    using two_callers_run by blast
  have "all_arrived two_callers" by (simp add: all_arrived_def two_callers_def)
  from flight_coalesces [OF this f(1)] f show ?thesis by blast
qed

section \<open>Progress\<close>

text \<open>A call that is registered or signalled has an owner, unless its goroutine panicked.\<close>

definition served :: "flight \<Rightarrow> nat \<Rightarrow> bool" where
  "served f c \<longleftrightarrow> fl_done f c \<or> (\<exists>i. owns (fl_pcs f i) = Some c)"

definition calm_step :: "flight \<Rightarrow> flight \<Rightarrow> bool" where
  "calm_step f f' \<longleftrightarrow> flight_step f f' \<and> (\<forall>i. fl_pcs f' i = Panicked \<longrightarrow> fl_pcs f i = Panicked)"

lemma served_at:
  assumes "served f c" and "fl_pcs g = fl_pcs f" and "\<And>d. fl_done f d \<Longrightarrow> fl_done g d"
    and "owns (fl_pcs f i) = Some c \<Longrightarrow> owns pc = Some c \<or> fl_done g c"
  shows "served (at i pc g) c"
proof -
  from assms(1) consider "fl_done f c" | j where "owns (fl_pcs f j) = Some c" by (auto simp: served_def)
  then show ?thesis
  proof cases
    case 1
    then show ?thesis using assms(3) by (simp add: served_def at_def)
  next
    case (2 j)
    show ?thesis
    proof (cases "j = i")
      case True
      with 2 assms(4) have "owns (fl_pcs (at i pc g) i) = Some c \<or> fl_done g c" by (simp add: at_def)
      then show ?thesis by (auto simp: served_def at_def)
    next
      case False
      with 2 assms(2) have "owns (fl_pcs (at i pc g) j) = Some c" by (simp add: at_def)
      then show ?thesis unfolding served_def by blast
    qed
  qed
qed

lemma served_step: "calm_step f f' \<Longrightarrow> served f c \<Longrightarrow> served f' c"
proof -
  assume "calm_step f f'" and s: "served f c"
  then have step: "flight_step f f'" and calm: "\<And>i. fl_pcs f' i = Panicked \<Longrightarrow> fl_pcs f i = Panicked"
    by (simp_all add: calm_step_def)
  from step show ?thesis
  proof cases
    case (panic i d key)
    with calm [of i] show ?thesis by (simp add: at_def)
  qed (use s in \<open>auto intro!: served_at\<close>)
qed

definition calm_inv :: "flight \<Rightarrow> bool" where
  "calm_inv f \<longleftrightarrow> (\<forall>k c. fl_calls f k = Some c \<longrightarrow> served f c) \<and>
     (\<forall>i c k. fl_pcs f i = Waiting c k \<longrightarrow> served f c)"

lemma calm_step_inv: "calm_step f f' \<Longrightarrow> calm_inv f \<Longrightarrow> calm_inv f'"
proof -
  assume st: "calm_step f f'" and inv: "calm_inv f"
  then have "flight_step f f'" by (simp add: calm_step_def)
  then have "(fl_calls f' k = Some c \<longrightarrow> fl_calls f k = Some c \<or> served f' c) \<and>
      (fl_pcs f' i = Waiting c k \<longrightarrow> fl_pcs f i = Waiting c k \<or> fl_calls f k = Some c)" for i c k
  proof cases
    case (lead j key)
    then have "owns (fl_pcs f' j) = Some (fl_next f)" by (simp add: at_def)
    then have "served f' (fl_next f)" unfolding served_def by blast
    with lead show ?thesis by (auto simp: at_def)
  qed (auto simp: at_def)
  with inv served_step [OF st] show ?thesis unfolding calm_inv_def by blast
qed



section \<open>A panic blocks the key\<close>

definition orphaned :: "flight \<Rightarrow> nat \<Rightarrow> string \<Rightarrow> bool" where
  "orphaned f c key \<longleftrightarrow> fl_calls f key = Some c \<and> fl_res f c = None \<and> (\<forall>i. owns (fl_pcs f i) \<noteq> Some c)"

lemma orphaned_step:
  assumes "flight_step f f'" and "flight_inv f" and "orphaned f c key"
  shows "orphaned f' c key"
  using assms(1)
proof cases
  case (unregister i d k)
  with flight_invD(3) [OF assms(2), of i d k] assms(3) have "k \<noteq> key"
    unfolding orphaned_def by (metis option.inject owns.simps(2) registered.simps(2))
  with unregister assms(3) show ?thesis by (auto simp: orphaned_def at_def dest: spec [of _ i])
next
  case (run i d k out)
  with assms(3) have "d \<noteq> c" unfolding orphaned_def by (metis owns.simps(1))
  with run assms(3) show ?thesis by (auto simp: orphaned_def at_def)
next
  case (lead i k)
  have "c < fl_next f" using flight_invD(1) [OF assms(2)] assms(3) by (auto simp: orphaned_def)
  with lead assms(3) show ?thesis by (auto simp: orphaned_def at_def)
qed (use assms(3) in \<open>auto simp: orphaned_def at_def split: if_splits\<close>)

text \<open>
  When the goroutine that leads a call panics in its fetch, the key is lost for as long as the
  process runs: the call stays registered, so whoever asks for the key from then on joins it, and no
  goroutine that joined it is ever answered. Nothing in \<open>do\<close> runs on a panic.
\<close>

theorem flight_panic_blocks_key:
  assumes "all_arrived pcs" and "flight_runs (newFlight pcs) f" and "fl_pcs f i = Leading c key"
    and "flight_runs (at i Panicked f) f'"
  shows "fl_calls f' key = Some c \<and> (\<forall>j k out. fl_pcs f' j \<noteq> Answered c k out)"
proof -
  have inv: "flight_inv f" using assms(1,2) by (rule flight_reachable_inv)
  have step: "flight_step f (at i Panicked f)" using assms(3) by (rule flight_step.panic)
  have others: "owns (fl_pcs f j) = Some c \<Longrightarrow> j = i" for j
    using flight_invD(4) [OF inv, of j c i] assms(3) by simp
  then have "\<forall>j. owns (fl_pcs (at i Panicked f) j) \<noteq> Some c" by (auto simp: at_def)
  moreover have "fl_calls f key = Some c" "fl_res f c = None"
    using flight_invD(3) [OF inv, of i c key] flight_invD(7) [OF inv assms(3)] assms(3) by simp_all
  ultimately have orph: "orphaned (at i Panicked f) c key" by (simp add: orphaned_def at_def)
  have inv1: "flight_inv (at i Panicked f)" using step inv by (rule flight_step_inv)
  from assms(4) [unfolded flight_runs_def] orph inv1 have "flight_inv f' \<and> orphaned f' c key"
    by (induction rule: rtranclp_induct) (auto intro: flight_step_inv orphaned_step)
  then show ?thesis using flight_invD(6) [of f'] by (fastforce simp: orphaned_def)
qed

theorem flight_panic_blocks_key_witness:
  "\<exists>f. flight_runs (newFlight two_callers) f \<and> fl_pcs f 0 = Leading 0 ''k'' \<and>
     fl_calls (at 0 Panicked f) ''k'' = Some 0"
proof -
  let ?f = "newFlight two_callers"
  let ?f1 = "at 0 (Leading 0 ''k'') (?f\<lparr>fl_calls := (fl_calls ?f)(''k'' \<mapsto> 0), fl_next := 1\<rparr>)"
  have "flight_step ?f ?f1"
    using flight_step.lead [of ?f 0 "''k''"] by (simp add: newFlight_def two_callers_def)
  then have run: "flight_runs ?f ?f1" by (simp add: flight_runs_def)
  have l: "fl_pcs ?f1 0 = Leading 0 ''k''" by (simp add: at_def)
  have "all_arrived two_callers" by (simp add: all_arrived_def two_callers_def)
  from flight_panic_blocks_key [OF this run l, of "at 0 Panicked ?f1"] run l show ?thesis
    by (auto simp: flight_runs_def)
qed

end
