(* ===== verification/Safedial.thy ===== *)
theory Safedial
  imports Audit_Log Netip
begin

text \<open>
  The guard against server-side request forgery (\<^verbatim>\<open>internal/repo/safedial.go\<close>): the check every
  connection attempt of the client for client-supplied URLs goes through, after name resolution.
\<close>

datatype dial_error = BadHostPort | UnparseableAddress | NonPublicAddress

text \<open>\<open>None\<close> lets the dial go on. A parsed address is always valid.\<close>

definition publicOnlyDialControl :: "string \<Rightarrow> dial_error option" where
  "publicOnlyDialControl address =
     (case SplitHostPort address of
        None \<Rightarrow> Some BadHostPort
      | Some (host, port) \<Rightarrow>
          (case ParseAddr host of
             None \<Rightarrow> Some UnparseableAddress
           | Some ip0 \<Rightarrow>
               let ip = Unmap ip0
               in if IsLoopback ip \<or> IsPrivate ip \<or> IsUnspecified ip \<or> IsLinkLocalUnicast ip \<or>
                     IsLinkLocalMulticast ip \<or> IsMulticast ip
                  then Some NonPublicAddress else None))"

text \<open>The ranges the guard promises to keep out, as numbers.\<close>

definition ipv4_net :: "int \<Rightarrow> int \<Rightarrow> int \<Rightarrow> int \<Rightarrow> nat \<Rightarrow> int set" where
  "ipv4_net a b c d bits =
     {n. n div 2 ^ (32 - bits) = (((a * 256 + b) * 256 + c) * 256 + d) div 2 ^ (32 - bits)}"

definition forbidden4 :: "int set" where
  "forbidden4 = ipv4_net 127 0 0 0 8 \<union> ipv4_net 10 0 0 0 8 \<union> ipv4_net 172 16 0 0 12 \<union>
     ipv4_net 192 168 0 0 16 \<union> ipv4_net 169 254 0 0 16 \<union> ipv4_net 224 0 0 0 4 \<union> {0}"

text \<open>
  A connection the guard lets through goes to an address that parses, that is outside 127/8,
  10/8, 172.16/12, 192.168/16, 169.254/16, 224/4 and 0.0.0.0 also when it is written as an
  IPv4-mapped IPv6 address, and is not the IPv6 loopback, a unique local, a link-local or a
  multicast address.
\<close>

theorem dial_only_public:
  assumes "publicOnlyDialControl address = None"
  shows "\<exists>host port ip. SplitHostPort address = Some (host, port) \<and> ParseAddr host = Some ip \<and>
    (case ip of
       V4 n \<Rightarrow> n \<notin> forbidden4
     | V6 n z \<Rightarrow> (n div 2 ^ 32 = 65535 \<longrightarrow> n mod 2 ^ 32 \<notin> forbidden4) \<and> n \<noteq> 1 \<and>
                 n div 2 ^ 121 \<noteq> 0x7E \<and> n div 2 ^ 118 \<noteq> 0x3FA \<and> n div 2 ^ 120 \<noteq> 0xFF)"
proof -
  from assms obtain host port ip where ip: "SplitHostPort address = Some (host, port)"
      "ParseAddr host = Some ip"
    and ok: "\<not> IsLoopback (Unmap ip)" "\<not> IsPrivate (Unmap ip)" "\<not> IsUnspecified (Unmap ip)"
      "\<not> IsLinkLocalUnicast (Unmap ip)" "\<not> IsMulticast (Unmap ip)"
    by (auto simp: publicOnlyDialControl_def Let_def split: option.splits prod.splits if_splits)
  have v4: "n \<notin> forbidden4" if "Unmap ip = V4 n" for n
    using ok that by (simp add: forbidden4_def ipv4_net_def)
  have "case ip of V4 n \<Rightarrow> n \<notin> forbidden4
     | V6 n z \<Rightarrow> (n div 2 ^ 32 = 65535 \<longrightarrow> n mod 2 ^ 32 \<notin> forbidden4) \<and> n \<noteq> 1 \<and>
                 n div 2 ^ 121 \<noteq> 0x7E \<and> n div 2 ^ 118 \<noteq> 0x3FA \<and> n div 2 ^ 120 \<noteq> 0xFF"
  proof (cases ip)
    case (V4 n)
    then show ?thesis using v4 by simp
  next
    case (V6 n z)
    show ?thesis
    proof (cases "n div 2 ^ 32 = 65535")
      case True
      then have n: "1 < n" "n < 281474976710656" by simp_all
      then have "n div 2 ^ k = 0" if "48 \<le> k" for k
        using power_increasing [OF that, of "2 :: int"] by (intro div_pos_pos_trivial) simp_all
      from this [of 118] this [of 120] this [of 121] n True V6 v4 [of "n mod 2 ^ 32"]
      show ?thesis by simp
    next
      case False
      with V6 ok show ?thesis by simp
    qed
  qed
  with ip show ?thesis by blast
qed

theorem dial_only_public_witness:
  "publicOnlyDialControl ''[2606:4700::1111]:443'' = None \<and>
   (\<exists>host port ip. SplitHostPort ''[2606:4700::1111]:443'' = Some (host, port) \<and> ParseAddr host = Some ip)"
proof -
  have p: "publicOnlyDialControl ''[2606:4700::1111]:443'' = None" by code_simp
  from dial_only_public [OF p] p show ?thesis by blast
qed

text \<open>
  The guard is described as refusing every non-global destination, and it does refuse the
  metadata service of a cloud instance; but shared address space (100.64.0.0/10), which is not
  globally reachable, and IPv4 addresses embedded in the NAT64 prefix are dialled.
\<close>

theorem dial_non_global_gaps:
  "publicOnlyDialControl ''169.254.169.254:80'' = Some NonPublicAddress \<and>
   publicOnlyDialControl ''[::ffff:127.0.0.1]:80'' = Some NonPublicAddress \<and>
   publicOnlyDialControl ''100.64.0.1:80'' = None \<and>
   publicOnlyDialControl ''[64:ff9b::7f00:1]:80'' = None"
  by code_simp

end
