(* ===== verification/Coordinates.thy ===== *)
theory Coordinates
  imports Engine Audit_Log
begin

text \<open>
  Package coordinates: how each format handler reads the kind, the package name and the version of
  a request from its path (\<^verbatim>\<open>maven.go\<close>, \<^verbatim>\<open>gomod.go\<close>, \<^verbatim>\<open>cargo.go\<close>, \<^verbatim>\<open>npm.go\<close>, \<^verbatim>\<open>pypi.go\<close>), and the
  coordinates under which scans and licenses are stored (\<^verbatim>\<open>vulnscan.go\<close>, \<^verbatim>\<open>licensescan.go\<close>). The gates
  decide by these names alone.
\<close>

section \<open>Maven\<close>

definition mavenKind :: "string \<Rightarrow> kind" where
  "mavenKind p = (if has_prefix (path_base p) ''maven-metadata.xml'' then kindMetadata else kindArtifact)"

definition mavenVersion :: "string \<Rightarrow> string" where
  "mavenVersion p =
     (if mavenKind p = kindMetadata then []
      else let parts = split_on (CHR ''/'') p
           in if 2 \<le> length parts then parts ! (length parts - 2) else [])"

definition maven_join :: "string list \<Rightarrow> string" where
  "maven_join parts =
     (if length parts < 2 then [] else join_with ''.'' (butlast parts) @ '':'' @ last parts)"

definition mavenPackage :: "string \<Rightarrow> string" where
  "mavenPackage p =
     (let parts = split_on (CHR ''/'') (trim_both (CHR ''/'') p)
      in if has_prefix (path_base p) ''maven-metadata.xml'' then
           (let parts1 = butlast parts
            in maven_join (if parts1 \<noteq> [] \<and> has_suffix (last parts1) ''-SNAPSHOT''
                           then butlast parts1 else parts1))
         else if 2 \<le> length parts then maven_join (take (length parts - 2) parts)
         else [])"

definition mavenContentType :: "string \<Rightarrow> string" where
  "mavenContentType p =
     (if has_suffix p ''.xml'' \<or> has_suffix p ''.pom'' then ''application/xml''
      else if has_suffix p ''.jar'' \<or> has_suffix p ''.war'' then ''application/java-archive''
      else if has_suffix p ''.module'' \<or> has_suffix p ''.json'' then ''application/json''
      else if has_suffix p ''.sha1'' \<or> has_suffix p ''.md5'' \<or> has_suffix p ''.sha256'' \<or>
              has_suffix p ''.sha512'' then ''text/plain''
      else ''application/octet-stream'')"

section \<open>Go modules\<close>

definition goKind :: "string \<Rightarrow> kind" where
  "goKind p = (if has_suffix p ''/@v/list'' \<or> has_suffix p ''/@latest'' \<or> has_suffix p ''.info''
               then kindMetadata else kindArtifact)"

definition goPackage :: "string \<Rightarrow> string" where
  "goPackage p =
     (case index_of p ''/@v/'' of
        Some i \<Rightarrow> take i p
      | None \<Rightarrow> (case cut_suffix p ''/@latest'' of Some md \<Rightarrow> md | None \<Rightarrow> []))"

definition goVersion :: "string \<Rightarrow> string" where
  "goVersion p =
     (case index_of p ''/@v/'' of
        None \<Rightarrow> []
      | Some i \<Rightarrow>
          let rest = drop (i + 4) p
          in if has_suffix rest ''.info'' then trim_suffix rest ''.info''
             else if has_suffix rest ''.mod'' then trim_suffix rest ''.mod''
             else if has_suffix rest ''.zip'' then trim_suffix rest ''.zip''
             else [])"

definition goContentType :: "string \<Rightarrow> string" where
  "goContentType p =
     (if has_suffix p ''.info'' \<or> has_suffix p ''/@latest'' then ''application/json''
      else if has_suffix p ''.mod'' then ''text/plain; charset=utf-8''
      else if has_suffix p ''.zip'' then ''application/zip''
      else ''text/plain; charset=utf-8'')"

section \<open>Cargo\<close>

definition cargoKind :: "string \<Rightarrow> kind" where
  "cargoKind p = (if contains p ''api/v1/crates/'' \<and> has_suffix p ''/download''
                  then kindArtifact else kindMetadata)"

definition cargoVersion :: "string \<Rightarrow> string" where
  "cargoVersion p =
     (case index_of p ''api/v1/crates/'' of
        None \<Rightarrow> []
      | Some i \<Rightarrow>
          let parts = split_on (CHR ''/'') (trim_suffix (drop (i + 14) p) ''/download'')
          in if length parts = 2 then parts ! 1 else [])"

definition cargoPackage :: "string \<Rightarrow> string" where
  "cargoPackage p =
     (if p = ''config.json'' then []
      else case index_of p ''api/v1/crates/'' of
             Some i \<Rightarrow> to_lower (case cut_at (CHR ''/'') (drop (i + 14) p) of
                                   Some (crate, rest) \<Rightarrow> crate
                                 | None \<Rightarrow> drop (i + 14) p)
           | None \<Rightarrow> to_lower (path_base p))"

definition cargoContentType :: "string \<Rightarrow> string" where
  "cargoContentType p =
     (if cargoKind p = kindArtifact then ''application/gzip'' else ''text/plain; charset=utf-8'')"

section \<open>npm\<close>

text \<open>\<^verbatim>\<open>url.PathUnescape\<close>: \<open>None\<close> is its escape error.\<close>

definition unhex :: "char \<Rightarrow> nat option" where
  "unhex c = (let n = (of_char c :: nat) in
     if 48 \<le> n \<and> n \<le> 57 then Some (n - 48)
     else if 97 \<le> n \<and> n \<le> 102 then Some (n - 87)
     else if 65 \<le> n \<and> n \<le> 70 then Some (n - 55)
     else None)"

fun PathUnescape :: "string \<Rightarrow> string option" where
  "PathUnescape [] = Some []"
| "PathUnescape (c # s) =
     (if c = CHR ''%'' then
        (case s of
           a # b # t \<Rightarrow>
             (case (unhex a, unhex b) of
                (Some h, Some l) \<Rightarrow> map_option (\<lambda>u. char_of (16 * h + l) # u) (PathUnescape t)
              | _ \<Rightarrow> None)
         | _ \<Rightarrow> None)
      else map_option (\<lambda>u. c # u) (PathUnescape s))"

definition decodeNpmPath :: "string \<Rightarrow> string" where
  "decodeNpmPath p = (case PathUnescape p of Some dec \<Rightarrow> dec | None \<Rightarrow> p)"

definition npmPackage :: "string \<Rightarrow> string" where
  "npmPackage p =
     (let q = (case index_of p ''/-/'' of Some i \<Rightarrow> take i p | None \<Rightarrow> p)
      in to_lower (trim_both (CHR ''/'') (decodeNpmPath q)))"

definition npmVersion :: "string \<Rightarrow> string" where
  "npmVersion p =
     (case index_of p ''/-/'' of
        None \<Rightarrow> []
      | Some i \<Rightarrow>
          let pkg = npmPackage p; file = to_lower (path_base p); base = path_base pkg
          in case cut_prefix (trim_suffix file ''.tgz'') (base @ ''-'') of
               None \<Rightarrow> []
             | Some v \<Rightarrow> if v = [] \<or> \<not> has_suffix file ''.tgz'' then [] else v)"

text \<open>Stable versions; the three components are \<open>int\<close>s.\<close>

definition parseSemver :: "string \<Rightarrow> (int \<times> int \<times> int) option" where
  "parseSemver v0 =
     (let v = trim_prefix v0 ''v'' in
      if CHR ''-'' \<in> set v \<or> CHR ''+'' \<in> set v then None
      else case split_on (CHR ''.'') v of
             [a, b, c] \<Rightarrow>
               (case (Atoi a, Atoi b, Atoi c) of
                  (Some x, Some y, Some z) \<Rightarrow>
                    if x < 0 \<or> y < 0 \<or> z < 0 then None else Some (x, y, z)
                | _ \<Rightarrow> None)
           | _ \<Rightarrow> None)"

text \<open>The loop over the version keys, in the order the map yields them.\<close>

fun semver_gt :: "int \<times> int \<times> int \<Rightarrow> int \<times> int \<times> int \<Rightarrow> bool" where
  "semver_gt (a0, a1, a2) (b0, b1, b2) \<longleftrightarrow>
     b0 < a0 \<or> (a0 = b0 \<and> (b1 < a1 \<or> (a1 = b1 \<and> b2 < a2)))"

fun highest_loop :: "string list \<Rightarrow> string \<Rightarrow> int \<times> int \<times> int \<Rightarrow> string" where
  "highest_loop [] best bestN = best"
| "highest_loop (ver # vs) best bestN =
     (case parseSemver ver of
        None \<Rightarrow> highest_loop vs best bestN
      | Some n \<Rightarrow> if best = [] \<or> semver_gt n bestN then highest_loop vs ver n
                  else highest_loop vs best bestN)"

definition highestStableVersion :: "string list \<Rightarrow> string" where
  "highestStableVersion versions = highest_loop versions [] (0, 0, 0)"

section \<open>PyPI\<close>

definition pypi_sep :: "char \<Rightarrow> bool" where
  "pypi_sep c \<longleftrightarrow> c = CHR ''-'' \<or> c = CHR ''_'' \<or> c = CHR ''.''"

text \<open>\<^verbatim>\<open>pypiNormRe.ReplaceAllString\<close>: every maximal run of separators becomes one dash.\<close>

function dash_runs :: "string \<Rightarrow> string" where
  "dash_runs [] = []"
| "dash_runs (c # s) =
     (if pypi_sep c then CHR ''-'' # dash_runs (dropWhile pypi_sep s) else c # dash_runs s)"
  by pat_completeness auto
termination
  by (relation "measure length") (auto simp: le_imp_less_Suc length_dropWhile_le)

definition normalizePyPI :: "string \<Rightarrow> string" where
  "normalizePyPI name = to_lower (dash_runs name)"

fun split_n :: "nat \<Rightarrow> char \<Rightarrow> string \<Rightarrow> string list" where
  "split_n 0 sep s = []"
| "split_n (Suc 0) sep s = [s]"
| "split_n (Suc (Suc n)) sep s =
     (case cut_at sep s of None \<Rightarrow> [s] | Some (a, b) \<Rightarrow> a # split_n (Suc n) sep b)"

definition sdist_name :: "string \<Rightarrow> string" where
  "sdist_name stem =
     (case last_index (CHR ''-'') stem of
        Some i \<Rightarrow> if 0 < i then normalizePyPI (take i stem) else []
      | None \<Rightarrow> [])"

function pypiPackageFromFilename :: "string \<Rightarrow> string" where
  "pypiPackageFromFilename f =
     (if has_suffix f ''.metadata'' then pypiPackageFromFilename (trim_suffix f ''.metadata'')
      else if has_suffix f ''.whl'' then
        (let parts = split_n 3 (CHR ''-'') (trim_suffix f ''.whl'')
         in if 2 \<le> length parts then normalizePyPI (hd parts) else [])
      else if has_suffix f ''.tar.gz'' then sdist_name (trim_suffix f ''.tar.gz'')
      else if has_suffix f ''.zip'' then sdist_name (trim_suffix f ''.zip'')
      else [])"
  by pat_completeness auto
termination
  by (relation "measure length") (auto simp: trim_suffix_def has_suffix_def)

declare pypiPackageFromFilename.simps [simp del]

definition after_last_dash :: "string \<Rightarrow> string" where
  "after_last_dash stem =
     (case last_index (CHR ''-'') stem of Some i \<Rightarrow> drop (Suc i) stem | None \<Rightarrow> [])"

definition pypiVersion :: "string \<Rightarrow> string" where
  "pypiVersion f =
     (if has_suffix f ''.whl'' then
        (let parts = split_on (CHR ''-'') (trim_suffix f ''.whl'')
         in if 2 \<le> length parts then parts ! 1 else [])
      else if has_suffix f ''.tar.gz'' then after_last_dash (trim_suffix f ''.tar.gz'')
      else if has_suffix f ''.zip'' then after_last_dash (trim_suffix f ''.zip'')
      else [])"

section \<open>Coordinates of stored artifacts\<close>

definition osvEcosystem :: "string \<Rightarrow> string" where
  "osvEcosystem format =
     (if format = FormatMaven then ''Maven'' else if format = FormatNPM then ''npm''
      else if format = FormatCargo then ''crates.io'' else if format = FormatGo then ''Go''
      else if format = FormatPyPI then ''PyPI'' else [])"

definition VulnCoordinate :: "string \<Rightarrow> string \<Rightarrow> string \<times> string" where
  "VulnCoordinate format p =
     (let eco = osvEcosystem format in
      if eco = [] then ([], [])
      else if format = FormatMaven then (eco, mavenPackage p)
      else if format = FormatNPM then (eco, npmPackage p)
      else if format = FormatCargo then (eco, cargoPackage p)
      else if format = FormatGo then (eco, goPackage p)
      else if format = FormatPyPI then (eco, pypiPackageFromFilename (path_base p))
      else ([], []))"

definition depsDevSystem :: "string \<Rightarrow> string" where
  "depsDevSystem format =
     (if format = FormatMaven then ''maven'' else if format = FormatNPM then ''npm''
      else if format = FormatCargo then ''cargo'' else if format = FormatGo then ''go''
      else if format = FormatPyPI then ''pypi'' else [])"

definition LicenseCoordinate :: "string \<Rightarrow> string \<Rightarrow> string \<times> string" where
  "LicenseCoordinate format p =
     (let system = depsDevSystem format in
      if system = [] then ([], [])
      else if format = FormatMaven then (system, mavenPackage p)
      else if format = FormatNPM then (system, npmPackage p)
      else if format = FormatCargo then (system, cargoPackage p)
      else if format = FormatGo then (system, goPackage p)
      else if format = FormatPyPI then (system, pypiPackageFromFilename (path_base p))
      else ([], []))"

definition versionForPath :: "string \<Rightarrow> string \<Rightarrow> string" where
  "versionForPath format p =
     (if format = FormatMaven then mavenVersion p
      else if format = FormatNPM then npmVersion p
      else if format = FormatCargo then cargoVersion p
      else if format = FormatGo then goVersion p
      else if format = FormatPyPI then pypiVersion (path_base p)
      else [])"

section \<open>Upstream addresses and release times\<close>

definition joinUpstream :: "string \<Rightarrow> string \<Rightarrow> string" where
  "joinUpstream base p = trim_right (CHR ''/'') base @ ''/'' @ trim_left (CHR ''/'') p"

definition lastModified :: "(string \<Rightarrow> instant option) \<Rightarrow> upstream_resp \<Rightarrow> instant option" where
  "lastModified parse resp =
     (let v = header_get (ur_headers resp) ''Last-Modified''
      in if v = [] then None else parse v)"

section \<open>Taking paths apart\<close>

abbreviation slash :: char where "slash \<equiv> CHR 0x2F"

definition seg :: "string \<Rightarrow> bool" where
  "seg s \<longleftrightarrow> s \<noteq> [] \<and> slash \<notin> set s"

lemma cut_at_append: "c \<notin> set s \<Longrightarrow> cut_at c (s @ c # t) = Some (s, t)"
  by (induction s) auto

lemma has_suffix_iff: "has_suffix s q \<longleftrightarrow> (\<exists>p. s = p @ q)"
proof
  assume "has_suffix s q"
  then have "s = take (length s - length q) s @ q" by (metis has_suffix_def append_take_drop_id)
  then show "\<exists>p. s = p @ q" ..
qed (auto simp: has_suffix_def)

lemma has_suffix_rev: "has_suffix s q \<longleftrightarrow> take (length q) (rev s) = rev q"
proof
  assume "take (length q) (rev s) = rev q"
  then have "rev s = rev q @ drop (length q) (rev s)" by (metis append_take_drop_id)
  then have "s = rev (drop (length q) (rev s)) @ q" by (metis rev_append rev_rev_ident)
  then show "has_suffix s q" unfolding has_suffix_iff ..
qed (auto simp: has_suffix_iff)

lemma trim_suffix_append [simp]: "trim_suffix (s @ t) t = s"
  by (simp add: trim_suffix_def has_suffix_def)

lemma trim_right_id: "last s \<noteq> c \<Longrightarrow> trim_right c s = s"
  by (cases s rule: rev_cases) (auto simp: trim_right_def)

lemma trim_left_id: "hd s \<noteq> c \<Longrightarrow> trim_left c s = s"
  by (cases s) (auto simp: trim_left_def)

lemma trim_both_id: "hd s \<noteq> c \<Longrightarrow> last s \<noteq> c \<Longrightarrow> trim_both c s = s"
  by (simp add: trim_both_def trim_left_id trim_right_id)

lemma seg_ends: "seg s \<Longrightarrow> hd s \<noteq> slash \<and> last s \<noteq> slash"
  by (metis seg_def hd_in_set last_in_set)

lemma path_base_append:
  assumes "seg f"
  shows "path_base (p @ slash # f) = f"
proof -
  have "last (p @ slash # f) \<noteq> slash" using seg_ends [OF assms] assms by (simp add: seg_def)
  moreover have "takeWhile (\<lambda>c. c \<noteq> slash) (rev f @ slash # rev p) = rev f"
    using assms by (simp add: seg_def takeWhile_append)
  ultimately show ?thesis by (simp add: path_base_def Let_def trim_right_id)
qed

lemma path_base_seg:
  assumes "seg f"
  shows "path_base f = f"
proof -
  have "takeWhile (\<lambda>c. c \<noteq> slash) (rev f) = rev f"
    using assms by (subst takeWhile_eq_all_conv) (auto simp: seg_def)
  then have "rev (takeWhile (\<lambda>c. c \<noteq> slash) (rev f)) = f" by (metis rev_rev_ident)
  then show ?thesis
    using seg_ends [OF assms] assms by (simp add: path_base_def Let_def trim_right_id seg_def)
qed

lemma hd_join: "ws \<noteq> [] \<Longrightarrow> hd ws \<noteq> [] \<Longrightarrow> hd (join_with sep ws) = hd (hd ws)"
  by (induction sep ws rule: join_with.induct) auto

lemma join_Nil_iff: "list_all seg ws \<Longrightarrow> join_with sep ws = [] \<longleftrightarrow> ws = []"
  by (induction sep ws rule: join_with.induct) (auto simp: seg_def)

lemma index_of_free: "c \<notin> set a \<Longrightarrow>
    index_of (a @ s) (c # sub) = map_option (\<lambda>i. length a + i) (index_of s (c # sub))"
proof (induction a)
  case Nil
  then show ?case by (cases "index_of s (c # sub)") auto
next
  case (Cons x a)
  then have "\<not> has_prefix (x # a @ s) (c # sub)" by (auto simp: has_prefix_def)
  with Cons show ?case by (cases "index_of s (c # sub)") auto
qed

lemma index_of_second_free: "d \<notin> set a \<Longrightarrow> c \<noteq> d \<Longrightarrow>
    index_of (a @ c # d # s) (c # d # sub) =
      (if has_prefix s sub then Some (length a) else
       map_option (\<lambda>i. length a + i) (index_of (c # d # s) (c # d # sub)))"
proof (induction a)
  case Nil
  then show ?case
    by (cases "index_of s (c # d # sub)") (auto simp: has_prefix_def)
next
  case (Cons x a)
  have "\<not> has_prefix (x # a @ c # d # s) (c # d # sub)"
    using Cons.prems by (cases a) (auto simp: has_prefix_def)
  with Cons show ?case
    by (cases "index_of (c # d # s) (c # d # sub)") (auto simp del: index_of.simps simp: index_of.simps(2) [of x])
qed

lemma of_char_slash: "(of_char slash :: nat) = 47"
  by simp

lemma lower_slash [simp]: "lower_char c = slash \<longleftrightarrow> c = slash"
proof
  assume a: "lower_char c = slash"
  show "c = slash"
  proof (rule ccontr)
    assume "c \<noteq> slash"
    with a have "65 \<le> (of_char c :: nat)" and "char_of (of_char c + 32 :: nat) = slash"
      by (auto simp: lower_char_def split: if_splits)
    then have "(of_char c + 32 :: nat) mod 256 = 47" by (metis of_char_of of_char_slash)
    moreover have "(of_char c :: nat) \<le> 90" using a \<open>c \<noteq> slash\<close> by (auto simp: lower_char_def split: if_splits)
    ultimately show False using \<open>65 \<le> (of_char c :: nat)\<close> by simp
  qed
qed (simp add: lower_char_def)

lemma seg_lower: "seg s \<Longrightarrow> seg (to_lower s)"
proof -
  assume s: "seg s"
  have "slash \<notin> lower_char ` set s"
  proof
    assume "slash \<in> lower_char ` set s"
    then obtain c where "c \<in> set s" and "lower_char c = slash" by (metis imageE)
    then show False using s by (auto simp: seg_def)
  qed
  then show ?thesis using s by (simp add: seg_def to_lower_def)
qed

lemma PathUnescape_plain: "CHR ''%'' \<notin> set s \<Longrightarrow> PathUnescape s = Some s"
  by (induction s rule: PathUnescape.induct) auto

lemma drop_after: "drop (Suc (length n)) (n @ c # v) = v"
  by (induction n) auto

lemma last_index_append: "c \<notin> set v \<Longrightarrow> last_index c (n @ c # v) = Some (length n)"
  by (simp add: last_index_def takeWhile_append)

section \<open>Paths of coordinates\<close>

text \<open>The files the five protocols serve, and the paths clients fetch them at.\<close>

datatype coordinate =
    MavenFile "string list" string string string
  | GoFile string string string
  | CrateFile string string
  | NpmTarball "string option" string string
  | Wheel string string string string
  | Sdist string string string

fun coord_format :: "coordinate \<Rightarrow> string" where
  "coord_format (MavenFile gs a v f) = FormatMaven"
| "coord_format (GoFile m v ext) = FormatGo"
| "coord_format (CrateFile c v) = FormatCargo"
| "coord_format (NpmTarball sc n v) = FormatNPM"
| "coord_format (Wheel ref n v tags) = FormatPyPI"
| "coord_format (Sdist ref n v) = FormatPyPI"

fun npm_name :: "string option \<Rightarrow> string \<Rightarrow> string" where
  "npm_name None n = n"
| "npm_name (Some sc) n = sc @ slash # n"

fun coord_path :: "coordinate \<Rightarrow> string" where
  "coord_path (MavenFile gs a v f) = join_with [slash] (gs @ [a, v, f])"
| "coord_path (GoFile m v ext) = m @ ''/@v/'' @ v @ ext"
| "coord_path (CrateFile c v) = ''api/v1/crates/'' @ c @ slash # v @ ''/download''"
| "coord_path (NpmTarball sc n v) = npm_name sc n @ ''/-/'' @ n @ CHR ''-'' # v @ ''.tgz''"
| "coord_path (Wheel ref n v tags) =
     ''packages/'' @ ref @ slash # n @ CHR ''-'' # v @ CHR ''-'' # tags @ ''.whl''"
| "coord_path (Sdist ref n v) = ''packages/'' @ ref @ slash # n @ CHR ''-'' # v @ ''.tar.gz''"

fun coord_pkg :: "coordinate \<Rightarrow> string" where
  "coord_pkg (MavenFile gs a v f) = join_with ''.'' gs @ '':'' @ a"
| "coord_pkg (GoFile m v ext) = m"
| "coord_pkg (CrateFile c v) = to_lower c"
| "coord_pkg (NpmTarball sc n v) = to_lower (npm_name sc n)"
| "coord_pkg (Wheel ref n v tags) = normalizePyPI n"
| "coord_pkg (Sdist ref n v) = normalizePyPI n"

fun coord_version :: "coordinate \<Rightarrow> string" where
  "coord_version (MavenFile gs a v f) = v"
| "coord_version (GoFile m v ext) = v"
| "coord_version (CrateFile c v) = v"
| "coord_version (NpmTarball sc n v) = to_lower v"
| "coord_version (Wheel ref n v tags) = v"
| "coord_version (Sdist ref n v) = v"

text \<open>What the registries allow in the parts of a name.\<close>

fun coord_ok :: "coordinate \<Rightarrow> bool" where
  "coord_ok (MavenFile gs a v f) \<longleftrightarrow>
     gs \<noteq> [] \<and> list_all seg (gs @ [a, v, f]) \<and> \<not> has_prefix f ''maven-metadata.xml''"
| "coord_ok (GoFile m v ext) \<longleftrightarrow> CHR ''@'' \<notin> set m \<and> ext \<in> set [''.info'', ''.mod'', ''.zip'']"
| "coord_ok (CrateFile c v) \<longleftrightarrow> seg c \<and> seg v"
| "coord_ok (NpmTarball sc n v) \<longleftrightarrow>
     seg n \<and> hd n \<noteq> CHR ''-'' \<and> seg v \<and> CHR ''%'' \<notin> set (npm_name sc n) \<and>
     (case sc of None \<Rightarrow> True | Some s \<Rightarrow> seg s)"
| "coord_ok (Wheel ref n v tags) \<longleftrightarrow> CHR ''-'' \<notin> set (n @ v) \<and> seg n \<and> slash \<notin> set (v @ tags)"
| "coord_ok (Sdist ref n v) \<longleftrightarrow> seg n \<and> CHR ''-'' \<notin> set v \<and> slash \<notin> set v"

lemma maven_coordinate:
  assumes "gs \<noteq> []" and segs: "list_all seg (gs @ [a, v, f])" and nf: "\<not> has_prefix f ''maven-metadata.xml''"
  shows "mavenPackage (join_with [slash] (gs @ [a, v, f])) = join_with ''.'' gs @ '':'' @ a \<and>
         mavenVersion (join_with [slash] (gs @ [a, v, f])) = v"
proof -
  let ?p = "join_with [slash] (gs @ [a, v, f])"
  have p: "?p = join_with [slash] (gs @ [a, v]) @ slash # f"
    using join_with_snoc [of "gs @ [a, v]" "[slash]" f] by simp
  have f: "seg f" and base: "path_base ?p = f" using segs path_base_append p by simp_all
  have sp: "split_on slash ?p = gs @ [a, v, f]"
    using segs by (intro split_on_join) (auto simp: seg_def list_all_iff)
  have "hd gs \<in> set gs" using assms(1) by simp
  then have "seg (hd gs)" using segs by (simp add: list_all_iff)
  then have "hd ?p \<noteq> slash"
    using hd_join [of "gs @ [a, v, f]" "[slash]"] assms(1) seg_ends [of "hd gs"] by (simp add: seg_def)
  moreover have "last ?p \<noteq> slash" using p f seg_ends [OF f] by (simp add: seg_def)
  ultimately have tr: "trim_both slash ?p = ?p" by (rule trim_both_id)
  have "mavenPackage ?p = maven_join (gs @ [a])"
    using base nf sp tr by (simp add: mavenPackage_def)
  moreover have "maven_join (gs @ [a]) = join_with ''.'' gs @ '':'' @ a"
    using assms(1) by (cases gs) (simp_all add: maven_join_def)
  moreover have "mavenVersion ?p = v" using base nf sp by (simp add: mavenVersion_def mavenKind_def nth_append)
  ultimately show ?thesis by simp
qed

lemma go_coordinate:
  assumes "CHR ''@'' \<notin> set m" and "ext \<in> set [''.info'', ''.mod'', ''.zip'']"
  shows "goPackage (m @ ''/@v/'' @ v @ ext) = m \<and> goVersion (m @ ''/@v/'' @ v @ ext) = v"
proof -
  have "index_of (m @ ''/@v/'' @ v @ ext) ''/@v/'' = Some (length m)"
    using index_of_second_free [of "CHR ''@''" m slash "''v/'' @ v @ ext" "''v/''"] assms(1)
    by (simp add: has_prefix_def)
  then show ?thesis
    using assms(2) by (auto simp: goPackage_def goVersion_def has_suffix_rev trim_suffix_append trim_suffix_def)
qed

lemma crate_coordinate:
  assumes "seg c" and "seg v"
  shows "cargoPackage (coord_path (CrateFile c v)) = to_lower c \<and>
         cargoVersion (coord_path (CrateFile c v)) = v"
proof -
  have i: "index_of (coord_path (CrateFile c v)) ''api/v1/crates/'' = Some 0" by (simp add: has_prefix_def)
  have "trim_suffix (c @ slash # v @ ''/download'') ''/download'' = c @ slash # v"
    using trim_suffix_append [of "c @ slash # v" "''/download''"] by simp
  moreover have "split_on slash (c @ slash # v) = [c, v]"
    using assms by (simp add: split_on_append split_on_free seg_def)
  ultimately have "cargoVersion (coord_path (CrateFile c v)) = v"
    using i by (simp add: cargoVersion_def)
  moreover have "cargoPackage (coord_path (CrateFile c v)) = to_lower c"
    using i assms cut_at_append [of slash c] by (simp add: cargoPackage_def seg_def)
  ultimately show ?thesis by simp
qed

lemma npm_index:
  assumes "seg n" and "hd n \<noteq> CHR ''-''" and "case sc of None \<Rightarrow> True | Some s \<Rightarrow> seg s"
  shows "index_of (npm_name sc n @ ''/-/'' @ t) ''/-/'' = Some (length (npm_name sc n))"
proof -
  have n: "index_of (n @ ''/-/'' @ t) ''/-/'' = Some (length n)"
    using assms(1) index_of_free [of slash n "''/-/'' @ t" "''-/''"] by (simp add: seg_def has_prefix_def)
  show ?thesis
  proof (cases sc)
    case None
    with n show ?thesis by simp
  next
    case (Some s)
    obtain x xs where x: "n = x # xs" using assms(1) by (cases n) (auto simp: seg_def)
    have "\<not> has_prefix (slash # n @ ''/-/'' @ t) ''/-/''" using assms(2) x by (simp add: has_prefix_def)
    then have "index_of (slash # n @ ''/-/'' @ t) ''/-/'' = Some (Suc (length n))"
      using n by simp
    then show ?thesis
      using Some assms(3) index_of_free [of slash s "slash # n @ ''/-/'' @ t" "''-/''"]
      by (simp add: seg_def)
  qed
qed

lemma to_lower_append: "to_lower (s @ t) = to_lower s @ to_lower t"
  by (simp add: to_lower_def)

lemma npm_name_ends:
  "seg n \<Longrightarrow> case sc of None \<Rightarrow> True | Some s \<Rightarrow> seg s \<Longrightarrow>
   hd (npm_name sc n) \<noteq> slash \<and> last (npm_name sc n) \<noteq> slash"
  using seg_ends by (cases sc) (auto simp: seg_def)

lemma npm_base: "seg n \<Longrightarrow> path_base (to_lower (npm_name sc n)) = to_lower n"
proof (cases sc)
  case (Some s)
  assume "seg n"
  then have "path_base (to_lower s @ slash # to_lower n) = to_lower n"
    by (intro path_base_append seg_lower)
  then show ?thesis using Some by (simp add: to_lower_def lower_char_def)
qed (simp add: path_base_seg seg_lower)

lemma npm_coordinate:
  assumes n: "seg n" and d: "hd n \<noteq> CHR ''-''" and v: "seg v"
    and pc: "CHR ''%'' \<notin> set (npm_name sc n)" and sc: "case sc of None \<Rightarrow> True | Some s \<Rightarrow> seg s"
  shows "npmPackage (coord_path (NpmTarball sc n v)) = to_lower (npm_name sc n) \<and>
         npmVersion (coord_path (NpmTarball sc n v)) = to_lower v"
proof -
  let ?p = "coord_path (NpmTarball sc n v)"
  have i: "index_of ?p ''/-/'' = Some (length (npm_name sc n))"
    using npm_index [OF n d sc, of "n @ CHR ''-'' # v @ ''.tgz''"] by simp
  have pkg: "npmPackage ?p = to_lower (npm_name sc n)"
    using i npm_name_ends [OF n sc]
    by (simp add: npmPackage_def decodeNpmPath_def PathUnescape_plain [OF pc] trim_both_id)
  have "seg (n @ CHR ''-'' # v @ ''.tgz'')" using n v by (simp add: seg_def)
  from path_base_append [OF this, of "npm_name sc n @ ''/-''"]
  have "path_base ?p = n @ CHR ''-'' # v @ ''.tgz''" by simp
  then have fl: "to_lower (path_base ?p) = (to_lower n @ ''-'' @ to_lower v) @ ''.tgz''"
    by (simp add: to_lower_def lower_char_def)
  have sf: "has_suffix ((to_lower n @ ''-'' @ to_lower v) @ ''.tgz'') ''.tgz''"
    unfolding has_suffix_iff by blast
  have "to_lower v \<noteq> []" using v by (simp add: seg_def to_lower_def)
  then have "npmVersion ?p = to_lower v"
    unfolding npmVersion_def i option.case Let_def pkg npm_base [OF n] fl trim_suffix_append
    using sf by (simp add: cut_prefix_def has_prefix_def)
  with pkg show ?thesis by simp
qed

lemma pypi_base:
  "seg f \<Longrightarrow> path_base (''packages/'' @ ref @ slash # f) = f"
  using path_base_append [of f "''packages/'' @ ref"] by simp

lemma wheel_filename:
  "has_suffix f ''.whl'' \<Longrightarrow> \<not> has_suffix f ''.metadata'' \<Longrightarrow> trim_suffix f ''.whl'' = stem \<Longrightarrow>
   pypiPackageFromFilename f =
     (if 2 \<le> length (split_n 3 (CHR ''-'') stem) then normalizePyPI (hd (split_n 3 (CHR ''-'') stem)) else []) \<and>
   pypiVersion f =
     (if 2 \<le> length (split_on (CHR ''-'') stem) then split_on (CHR ''-'') stem ! 1 else [])"
  by (simp add: pypiPackageFromFilename.simps [of f] pypiVersion_def Let_def)

lemma sdist_filename:
  "has_suffix f ''.tar.gz'' \<Longrightarrow> \<not> has_suffix f ''.metadata'' \<Longrightarrow> \<not> has_suffix f ''.whl'' \<Longrightarrow>
   trim_suffix f ''.tar.gz'' = stem \<Longrightarrow>
   pypiPackageFromFilename f = sdist_name stem \<and> pypiVersion f = after_last_dash stem"
  by (simp add: pypiPackageFromFilename.simps [of f] pypiVersion_def)

lemma wheel_coordinate:
  assumes "CHR ''-'' \<notin> set n" and "CHR ''-'' \<notin> set v"
  shows "pypiPackageFromFilename (n @ CHR ''-'' # v @ CHR ''-'' # tags @ ''.whl'') = normalizePyPI n \<and>
         pypiVersion (n @ CHR ''-'' # v @ CHR ''-'' # tags @ ''.whl'') = v"
proof -
  let ?s = "n @ CHR ''-'' # v @ CHR ''-'' # tags"
  have w: "has_suffix (?s @ ''.whl'') ''.whl''" unfolding has_suffix_iff by blast
  have m: "\<not> has_suffix (?s @ ''.whl'') ''.metadata''" by (simp add: has_suffix_rev)
  have "split_n 3 (CHR ''-'') ?s = [n, v, tags]"
    using assms by (simp add: numeral_3_eq_3 cut_at_append)
  then have "pypiPackageFromFilename (?s @ ''.whl'') = normalizePyPI n"
    using wheel_filename [OF w m trim_suffix_append] by simp
  moreover have "split_on (CHR ''-'') ?s = n # v # split_on (CHR ''-'') tags"
    using assms by (simp add: split_on_append)
  then have "pypiVersion (?s @ ''.whl'') = v"
    using wheel_filename [OF w m trim_suffix_append] by simp
  ultimately show ?thesis by simp
qed

lemma sdist_coordinate:
  assumes "n \<noteq> []" and "CHR ''-'' \<notin> set v"
  shows "pypiPackageFromFilename (n @ CHR ''-'' # v @ ''.tar.gz'') = normalizePyPI n \<and>
         pypiVersion (n @ CHR ''-'' # v @ ''.tar.gz'') = v"
proof -
  let ?s = "n @ CHR ''-'' # v"
  have t: "has_suffix (?s @ ''.tar.gz'') ''.tar.gz''" unfolding has_suffix_iff by blast
  have o: "\<not> has_suffix (?s @ ''.tar.gz'') ''.metadata''" "\<not> has_suffix (?s @ ''.tar.gz'') ''.whl''"
    by (simp_all add: has_suffix_rev)
  have "sdist_name ?s = normalizePyPI n" and "after_last_dash ?s = v"
    using assms by (simp_all add: sdist_name_def after_last_dash_def last_index_append drop_after)
  then have "pypiPackageFromFilename (?s @ ''.tar.gz'') = normalizePyPI n"
    and "pypiVersion (?s @ ''.tar.gz'') = v"
    using sdist_filename [OF t o trim_suffix_append] by simp_all
  then show ?thesis by simp
qed

text \<open>
  The gates see the package a client fetches: for every file the five protocols serve, at the path
  the protocol gives it, the coordinate read back from the path is the ecosystem, the package and the
  version the path was made from (lower-cased for cargo and npm, normalised for PyPI), and the same
  package under the name of the license source.
\<close>

theorem coordinate_roundtrip:
  assumes "coord_ok c"
  shows "VulnCoordinate (coord_format c) (coord_path c) = (osvEcosystem (coord_format c), coord_pkg c) \<and>
         LicenseCoordinate (coord_format c) (coord_path c) = (depsDevSystem (coord_format c), coord_pkg c) \<and>
         versionForPath (coord_format c) (coord_path c) = coord_version c"
proof (cases c)
  case (MavenFile gs a v f)
  then show ?thesis using assms maven_coordinate [of gs a v f]
    by (simp add: VulnCoordinate_def LicenseCoordinate_def versionForPath_def osvEcosystem_def depsDevSystem_def)
next
  case (GoFile m v ext)
  then show ?thesis using assms go_coordinate [of m ext v]
    by (simp add: VulnCoordinate_def LicenseCoordinate_def versionForPath_def osvEcosystem_def depsDevSystem_def)
next
  case (CrateFile c v)
  then show ?thesis using assms crate_coordinate [of c v]
    by (simp add: VulnCoordinate_def LicenseCoordinate_def versionForPath_def osvEcosystem_def depsDevSystem_def)
next
  case (NpmTarball sc n v)
  then show ?thesis using assms npm_coordinate [of n v sc]
    by (simp add: VulnCoordinate_def LicenseCoordinate_def versionForPath_def osvEcosystem_def depsDevSystem_def)
next
  case (Wheel ref n v tags)
  then have "seg (n @ CHR ''-'' # v @ CHR ''-'' # tags @ ''.whl'')" using assms by (auto simp: seg_def)
  then show ?thesis using Wheel assms wheel_coordinate [of n v tags] pypi_base
    by (simp add: VulnCoordinate_def LicenseCoordinate_def versionForPath_def osvEcosystem_def depsDevSystem_def)
next
  case (Sdist ref n v)
  then have "seg (n @ CHR ''-'' # v @ ''.tar.gz'')" using assms by (auto simp: seg_def)
  then show ?thesis using Sdist assms sdist_coordinate [of n v] pypi_base
    by (simp add: VulnCoordinate_def LicenseCoordinate_def versionForPath_def osvEcosystem_def depsDevSystem_def seg_def)
qed

theorem coordinate_roundtrip_witness:
  "VulnCoordinate FormatNPM ''@Babel/core/-/core-7.0.0-beta.1.tgz'' = (''npm'', ''@babel/core'') \<and>
   versionForPath FormatNPM ''@Babel/core/-/core-7.0.0-beta.1.tgz'' = ''7.0.0-beta.1''"
proof -
  have babel: "to_lower ''@Babel/core'' = ''@babel/core''" "to_lower ''7.0.0-beta.1'' = ''7.0.0-beta.1''"
    by code_simp+
  have "coord_ok (NpmTarball (Some ''@Babel'') ''core'' ''7.0.0-beta.1'')" by (simp add: seg_def)
  from coordinate_roundtrip [OF this] show ?thesis
    by (simp add: osvEcosystem_def babel)
qed

text \<open>
  The coordinate is read from the path as it was sent, and equivalent spellings of a path read
  differently: with a doubled slash before the file name the version of a Maven artifact is empty and
  its package is another one, so no rule on the artifact's coordinate is found for the request, while
  \<open>joinUpstream\<close> passes the doubled slash on to the upstream.
\<close>

theorem maven_double_slash_hides_version:
  assumes "gs \<noteq> []" and "list_all seg (gs @ [a, v, f])" and "\<not> has_prefix f ''maven-metadata.xml''"
  shows "mavenVersion (join_with [slash] (gs @ [a, v]) @ ''//'' @ f) = [] \<and>
         mavenPackage (join_with [slash] (gs @ [a, v]) @ ''//'' @ f) = join_with ''.'' (gs @ [a]) @ '':'' @ v"
proof -
  let ?p = "join_with [slash] (gs @ [a, v, [], f])"
  have p: "?p = join_with [slash] (gs @ [a, v]) @ ''//'' @ f"
    using join_with_snoc [of "gs @ [a, v, []]" "[slash]" f] join_with_snoc [of "gs @ [a, v]" "[slash]" "[]"] by simp
  have f: "seg f" and base: "path_base ?p = f"
    using assms(2) path_base_append [of f "join_with [slash] (gs @ [a, v]) @ ''/''"] unfolding p by simp_all
  have sp: "split_on slash ?p = gs @ [a, v, [], f]"
    using assms(2) by (intro split_on_join) (auto simp: seg_def list_all_iff)
  have "seg (hd gs)" using assms(1,2) by (simp add: list_all_iff)
  then have "hd ?p \<noteq> slash"
    using hd_join [of "gs @ [a, v, [], f]" "[slash]"] assms(1) seg_ends [of "hd gs"] by (simp add: seg_def)
  moreover have "last ?p \<noteq> slash" using seg_ends [OF f] f unfolding p by (simp add: seg_def)
  ultimately have tr: "trim_both slash ?p = ?p" by (rule trim_both_id)
  have "mavenVersion ?p = []"
    using base assms(3) sp by (simp add: mavenVersion_def mavenKind_def nth_append)
  moreover have "mavenPackage ?p = join_with ''.'' (gs @ [a]) @ '':'' @ v"
    using base assms(3) sp tr by (simp add: mavenPackage_def maven_join_def butlast_append)
  ultimately show ?thesis using p by simp
qed

theorem maven_double_slash_hides_version_witness:
  "mavenVersion ''org/evil/lib/1.0//lib-1.0.jar'' = [] \<and>
   mavenPackage ''org/evil/lib/1.0//lib-1.0.jar'' = ''org.evil.lib:1.0''"
proof -
  have "list_all seg ([''org'', ''evil''] @ [''lib'', ''1.0'', ''lib-1.0.jar''])" by (simp add: seg_def)
  moreover have "\<not> has_prefix ''lib-1.0.jar'' ''maven-metadata.xml''" by (simp add: has_prefix_def)
  ultimately show ?thesis
    using maven_double_slash_hides_version [of "[''org'', ''evil'']" "''lib''" "''1.0''" "''lib-1.0.jar''"] by simp
qed

end
