(* ===== verification/Approvals.thy ===== *)
theory Approvals
  imports Artifacts
begin

text \<open>
  Package approvals, per-version denies, and stored scan results in the metadata store
  (\<^verbatim>\<open>internal/meta/approval.go\<close>, \<^verbatim>\<open>versiondeny.go\<close>, \<^verbatim>\<open>vuln.go\<close>, \<^verbatim>\<open>license.go\<close>).

  Each table has a unique key, so an upsert either appends a row or changes the one that has the
  key. The interface the gates rely on is the locale \<open>keyed_table\<close>: what a lookup returns after an
  upsert. It is interpreted once per table.
\<close>

section \<open>Keyed tables\<close>

definition find_key :: "('r \<Rightarrow> 'k) \<Rightarrow> 'k \<Rightarrow> 'r list \<Rightarrow> 'r option" where
  "find_key k x rows = List.find (\<lambda>r. k r = x) rows"

text \<open>INSERT \<open>row\<close>, ON CONFLICT of its key DO UPDATE with \<open>f\<close>.\<close>

definition upsert :: "('r \<Rightarrow> 'k) \<Rightarrow> 'r \<Rightarrow> ('r \<Rightarrow> 'r) \<Rightarrow> 'r list \<Rightarrow> 'r list" where
  "upsert k row f rows =
     (case find_key k (k row) rows of
        None \<Rightarrow> rows @ [row]
      | Some old \<Rightarrow> update_where (\<lambda>r. k r = k row) f rows)"

text \<open>The laws of an upsert whose update keeps the key: \<open>put row f\<close> on a table of rows.\<close>

locale keyed_table =
  fixes k :: "'r \<Rightarrow> 'k"
    and look :: "'k \<Rightarrow> 't \<Rightarrow> 'r option"
    and put :: "'r \<Rightarrow> ('r \<Rightarrow> 'r) \<Rightarrow> 't \<Rightarrow> 't"
  assumes look_key: "look x t = Some r \<Longrightarrow> k r = x"
    and look_put_same: "(\<And>r. k r = k row \<Longrightarrow> k (f r) = k r) \<Longrightarrow>
      look (k row) (put row f t) = Some (case look (k row) t of None \<Rightarrow> row | Some r \<Rightarrow> f r)"
    and look_put_other: "(\<And>r. k r = k row \<Longrightarrow> k (f r) = k r) \<Longrightarrow> x \<noteq> k row \<Longrightarrow> look x (put row f t) = look x t"
begin

lemma put_present: "(\<And>r. k r = k row \<Longrightarrow> k (f r) = k r) \<Longrightarrow> look (k row) (put row f t) \<noteq> None"
  by (simp add: look_put_same)

lemma put_twice_other:
  assumes "\<And>r. k r = k row \<Longrightarrow> k (f r) = k r" and "\<And>r. k r = k row' \<Longrightarrow> k (g r) = k r"
    and "k row \<noteq> k row'"
  shows "look (k row) (put row' g (put row f t)) = look (k row) (put row f t)"
  using look_put_other [OF assms(2)] assms(3) by blast

end

lemma find_key_update:
  "(\<And>r. P r \<Longrightarrow> k (f r) = k r) \<Longrightarrow>
   find_key k x (update_where P f rows) = map_option (\<lambda>r. if P r then f r else r) (find_key k x rows)"
  by (simp add: find_key_def find_update_where)

lemma find_key_Some: "find_key k x rows = Some r \<Longrightarrow> k r = x"
  by (auto simp: find_key_def dest: find_Some_set)

interpretation keyed: keyed_table k "find_key k" "upsert k" for k
proof (unfold_locales, goal_cases)
  case (1 x t r)
  then show ?case by (rule find_key_Some)
next
  case (2 row f t)
  show ?case
  proof (cases "find_key k (k row) t")
    case None
    then show ?thesis by (simp add: upsert_def find_key_def find_append)
  next
    case (Some r)
    then have "k r = k row" by (rule find_key_Some)
    moreover have "find_key k (k row) (update_where (\<lambda>r. k r = k row) f t) =
        map_option (\<lambda>r. if k r = k row then f r else r) (find_key k (k row) t)"
      by (rule find_key_update) (rule 2)
    ultimately show ?thesis using Some by (simp add: upsert_def)
  qed
next
  case (3 row f x t)
  show ?case
  proof (cases "find_key k (k row) t")
    case None
    with 3(2) show ?thesis by (simp add: upsert_def find_key_def find_append split: option.splits)
  next
    case (Some r)
    have "find_key k x (update_where (\<lambda>r. k r = k row) f t) =
        map_option (\<lambda>r. if k r = k row then f r else r) (find_key k x t)"
      by (rule find_key_update) (rule 3(1))
    also have "\<dots> = find_key k x t"
      using 3(2) by (cases "find_key k x t") (auto dest: find_key_Some)
    finally show ?thesis using Some by (simp add: upsert_def)
  qed
qed

section \<open>Package approvals\<close>

abbreviation ApprovalPending :: string where "ApprovalPending \<equiv> ''pending''"
abbreviation ApprovalApproved :: string where "ApprovalApproved \<equiv> ''approved''"
abbreviation ApprovalRejected :: string where "ApprovalRejected \<equiv> ''rejected''"

abbreviation ap_key :: "package_approval \<Rightarrow> string \<times> string" where
  "ap_key a \<equiv> (ap_repo_name a, ap_package a)"

definition next_id :: "table \<Rightarrow> store \<Rightarrow> nat" where
  "next_id t st = Suc (st_seq st t)"

definition GetApprovalStatus :: "store \<Rightarrow> string \<Rightarrow> string \<Rightarrow> store_error + string" where
  "GetApprovalStatus st repo pkg =
     (if st_fault st TApprovals then Inl ErrDB
      else case find_key ap_key (repo, pkg) (st_approvals st) of
             None \<Rightarrow> Inl ErrNotFound | Some a \<Rightarrow> Inr (ap_status a))"

text \<open>Store an upserted approval table; a new row takes the next identifier.\<close>

definition put_approval :: "package_approval \<Rightarrow> (package_approval \<Rightarrow> package_approval) \<Rightarrow> store \<Rightarrow> store" where
  "put_approval row f st =
     st\<lparr>st_approvals := upsert ap_key (row\<lparr>ap_id := next_id TApprovals st\<rparr>) f (st_approvals st),
        st_seq := (if find_key ap_key (ap_key row) (st_approvals st) = None
                   then (st_seq st)(TApprovals := next_id TApprovals st) else st_seq st)\<rparr>"

definition pending_row :: "instant \<Rightarrow> string \<Rightarrow> string \<Rightarrow> string \<Rightarrow> string \<Rightarrow> package_approval" where
  "pending_row now repo pkg username version =
     \<lparr>ap_id = 0, ap_repo_name = repo, ap_package = pkg, ap_status = ApprovalPending,
      ap_requested_by = username, ap_decided_by = [], ap_note = [], ap_request_count = 1,
      ap_last_requested_version = version, ap_first_requested_at = now, ap_last_requested_at = now,
      ap_decided_at = None\<rparr>"

text \<open>\<open>Inr created\<close>: an approved row is left alone and counts as not created.\<close>

definition UpsertPendingApproval ::
  "instant \<Rightarrow> string \<Rightarrow> string \<Rightarrow> string \<Rightarrow> string \<Rightarrow> store \<Rightarrow> (store_error + bool) \<times> store" where
  "UpsertPendingApproval now repo pkg username version st =
     (if st_fault st TApprovals then (Inl ErrDB, st)
      else if (case find_key ap_key (repo, pkg) (st_approvals st) of
                 None \<Rightarrow> False | Some a \<Rightarrow> ap_status a = ApprovalApproved) then (Inr False, st)
      else let st' = put_approval (pending_row now repo pkg username version)
                       (\<lambda>a. a\<lparr>ap_request_count := ap_request_count a + 1, ap_last_requested_at := now,
                              ap_last_requested_version := (if version \<noteq> [] then version
                                                            else ap_last_requested_version a)\<rparr>) st
           in (Inr (case find_key ap_key (repo, pkg) (st_approvals st') of
                      None \<Rightarrow> False | Some a \<Rightarrow> ap_request_count a = 1), st'))"

definition GetApproval :: "store \<Rightarrow> nat \<Rightarrow> store_error + package_approval" where
  "GetApproval st i =
     (if st_fault st TApprovals then Inl ErrDB
      else case find_key ap_id i (st_approvals st) of None \<Rightarrow> Inl ErrNotFound | Some a \<Rightarrow> Inr a)"

definition approval_matches :: "string \<Rightarrow> string \<Rightarrow> package_approval \<Rightarrow> bool" where
  "approval_matches repo status a \<longleftrightarrow>
     (repo = [] \<or> ap_repo_name a = repo) \<and> (status = [] \<or> ap_status a = status)"

definition ListApprovals ::
  "store \<Rightarrow> string \<Rightarrow> string \<Rightarrow> nat \<Rightarrow> nat \<Rightarrow> store_error + package_approval list" where
  "ListApprovals st repo status lim offset =
     (if st_fault st TApprovals then Inl ErrDB
      else Inr (take lim (drop offset (order_by (\<lambda>a b. ap_id b < ap_id a)
             (filter (approval_matches repo status) (st_approvals st))))))"

definition CountApprovals :: "store \<Rightarrow> string \<Rightarrow> string \<Rightarrow> store_error + nat" where
  "CountApprovals st repo status =
     (if st_fault st TApprovals then Inl ErrDB
      else Inr (length (filter (approval_matches repo status) (st_approvals st))))"

definition PendingApprovalCountByRepo :: "store \<Rightarrow> store_error + (string \<times> nat) list" where
  "PendingApprovalCountByRepo st =
     (if st_fault st TApprovals then Inl ErrDB
      else let pend = filter (\<lambda>a. ap_status a = ApprovalPending) (st_approvals st)
           in Inr (map (\<lambda>n. (n, length (filter (\<lambda>a. ap_repo_name a = n) pend)))
                     (remdups (map ap_repo_name pend))))"

definition DecideApproval ::
  "instant \<Rightarrow> nat \<Rightarrow> string \<Rightarrow> string \<Rightarrow> string \<Rightarrow> store \<Rightarrow> (store_error + unit) \<times> store" where
  "DecideApproval now i status decidedBy note st =
     (if st_fault st TApprovals then (Inl ErrDB, st)
      else if find_key ap_id i (st_approvals st) = None then (Inl ErrNotFound, st)
      else (Inr (), st\<lparr>st_approvals := update_where (\<lambda>a. ap_id a = i)
              (\<lambda>a. a\<lparr>ap_status := status, ap_decided_by := decidedBy, ap_note := note,
                     ap_decided_at := Some now\<rparr>) (st_approvals st)\<rparr>))"

definition approve_row :: "instant \<Rightarrow> string \<Rightarrow> string \<Rightarrow> package_approval \<Rightarrow> package_approval" where
  "approve_row now decidedBy note a =
     a\<lparr>ap_status := ApprovalApproved, ap_decided_by := decidedBy, ap_note := note, ap_decided_at := Some now\<rparr>"

definition ApproveAllPending ::
  "instant \<Rightarrow> string \<Rightarrow> string \<Rightarrow> string \<Rightarrow> store \<Rightarrow> (store_error + package_approval list) \<times> store" where
  "ApproveAllPending now repo decidedBy note st =
     (if st_fault st TApprovals then (Inl ErrDB, st)
      else let P = (\<lambda>a. ap_repo_name a = repo \<and> ap_status a = ApprovalPending)
           in (Inr (map (approve_row now decidedBy note) (filter P (st_approvals st))),
               st\<lparr>st_approvals := update_where P (approve_row now decidedBy note) (st_approvals st)\<rparr>))"

definition UpsertApprovalDecision ::
  "instant \<Rightarrow> string \<Rightarrow> string \<Rightarrow> string \<Rightarrow> string \<Rightarrow> string \<Rightarrow> store \<Rightarrow>
   (store_error + package_approval) \<times> store" where
  "UpsertApprovalDecision now repo pkg status decidedBy note st =
     (if st_fault st TApprovals then (Inl ErrDB, st)
      else let st' = put_approval
                 ((pending_row now repo pkg [] [])\<lparr>ap_status := status, ap_decided_by := decidedBy,
                    ap_note := note, ap_request_count := 0, ap_decided_at := Some now\<rparr>)
                 (\<lambda>a. a\<lparr>ap_status := status, ap_decided_by := decidedBy, ap_note := note,
                        ap_decided_at := Some now\<rparr>) st
           in (case find_key ap_key (repo, pkg) (st_approvals st') of
                 None \<Rightarrow> Inl ErrNotFound | Some a \<Rightarrow> Inr a, st'))"

definition DeleteApprovalsForRepo :: "string \<Rightarrow> store \<Rightarrow> (store_error + unit) \<times> store" where
  "DeleteApprovalsForRepo repo st =
     (if st_fault st TApprovals then (Inl ErrDB, st)
      else (Inr (), st\<lparr>st_approvals := delete_where (\<lambda>a. ap_repo_name a = repo) (st_approvals st)\<rparr>))"

section \<open>Version denies\<close>

abbreviation vd_key :: "version_deny \<Rightarrow> string \<times> string \<times> string" where
  "vd_key d \<equiv> (vd_repo_name d, vd_package d, vd_version d)"

definition IsVersionDenied :: "store \<Rightarrow> string \<Rightarrow> string \<Rightarrow> string \<Rightarrow> store_error + bool" where
  "IsVersionDenied st repo pkg version =
     (if st_fault st TDenies then Inl ErrDB
      else Inr (find_key vd_key (repo, pkg, version) (st_denies st) \<noteq> None))"

definition UpsertVersionDeny ::
  "instant \<Rightarrow> string \<Rightarrow> string \<Rightarrow> string \<Rightarrow> string \<Rightarrow> string \<Rightarrow> store \<Rightarrow> (store_error + version_deny) \<times> store"
where
  "UpsertVersionDeny now repo pkg version reason createdBy st =
     (if st_fault st TDenies then (Inl ErrDB, st)
      else let row = \<lparr>vd_id = next_id TDenies st, vd_repo_name = repo, vd_package = pkg,
                      vd_version = version, vd_reason = reason, vd_created_by = createdBy,
                      vd_created_at = now\<rparr>;
               st' = st\<lparr>st_denies := upsert vd_key row
                            (\<lambda>d. d\<lparr>vd_reason := reason, vd_created_by := createdBy\<rparr>) (st_denies st),
                        st_seq := (if find_key vd_key (repo, pkg, version) (st_denies st) = None
                                   then (st_seq st)(TDenies := next_id TDenies st) else st_seq st)\<rparr>
           in (case find_key vd_key (repo, pkg, version) (st_denies st') of
                 None \<Rightarrow> Inl ErrNotFound | Some d \<Rightarrow> Inr d, st'))"

definition GetVersionDeny :: "store \<Rightarrow> nat \<Rightarrow> store_error + version_deny" where
  "GetVersionDeny st i =
     (if st_fault st TDenies then Inl ErrDB
      else case find_key vd_id i (st_denies st) of None \<Rightarrow> Inl ErrNotFound | Some d \<Rightarrow> Inr d)"

definition ListVersionDenies :: "store \<Rightarrow> string \<Rightarrow> nat \<Rightarrow> nat \<Rightarrow> store_error + version_deny list" where
  "ListVersionDenies st repo lim offset =
     (if st_fault st TDenies then Inl ErrDB
      else Inr (take lim (drop offset (order_by (\<lambda>a b. vd_id b < vd_id a)
             (filter (\<lambda>d. repo = [] \<or> vd_repo_name d = repo) (st_denies st))))))"

definition CountVersionDenies :: "store \<Rightarrow> string \<Rightarrow> store_error + nat" where
  "CountVersionDenies st repo =
     (if st_fault st TDenies then Inl ErrDB
      else Inr (length (filter (\<lambda>d. repo = [] \<or> vd_repo_name d = repo) (st_denies st))))"

definition DeleteVersionDeny :: "nat \<Rightarrow> store \<Rightarrow> (store_error + unit) \<times> store" where
  "DeleteVersionDeny i st =
     (if st_fault st TDenies then (Inl ErrDB, st)
      else if find_key vd_id i (st_denies st) = None then (Inl ErrNotFound, st)
      else (Inr (), st\<lparr>st_denies := delete_where (\<lambda>d. vd_id d = i) (st_denies st)\<rparr>))"

definition DeleteVersionDeniesForRepo :: "string \<Rightarrow> store \<Rightarrow> (store_error + unit) \<times> store" where
  "DeleteVersionDeniesForRepo repo st =
     (if st_fault st TDenies then (Inl ErrDB, st)
      else (Inr (), st\<lparr>st_denies := delete_where (\<lambda>d. vd_repo_name d = repo) (st_denies st)\<rparr>))"

section \<open>Stored scans\<close>

abbreviation vs_key :: "vuln_scan \<Rightarrow> string \<times> string \<times> string" where
  "vs_key v \<equiv> (vs_ecosystem v, vs_package v, vs_version v)"

abbreviation ls_key :: "license_scan \<Rightarrow> string \<times> string \<times> string" where
  "ls_key v \<equiv> (ls_system v, ls_package v, ls_version v)"

definition UpsertVulnScan :: "instant \<Rightarrow> vuln_scan \<Rightarrow> store \<Rightarrow> (store_error + unit) \<times> store" where
  "UpsertVulnScan now v0 st =
     (if st_fault st TVulnScans then (Inl ErrDB, st)
      else let v = v0\<lparr>vs_source := (if vs_source v0 = [] then ''OSV'' else vs_source v0), vs_scanned_at := now\<rparr>
           in (Inr (), st\<lparr>st_vuln_scans := upsert vs_key v (\<lambda>_. v) (st_vuln_scans st)\<rparr>))"

definition GetVulnScan :: "store \<Rightarrow> string \<Rightarrow> string \<Rightarrow> string \<Rightarrow> store_error + vuln_scan" where
  "GetVulnScan st eco pkg version =
     (if st_fault st TVulnScans then Inl ErrDB
      else case find_key vs_key (eco, pkg, version) (st_vuln_scans st) of
             None \<Rightarrow> Inl ErrNotFound | Some v \<Rightarrow> Inr v)"

definition scanned_before :: "vuln_scan \<Rightarrow> vuln_scan \<Rightarrow> bool" where
  "scanned_before a b \<longleftrightarrow> text_less (format_time (vs_scanned_at a)) (format_time (vs_scanned_at b))"

definition ListStaleVulnScans :: "store \<Rightarrow> instant \<Rightarrow> nat \<Rightarrow> store_error + vuln_scan list" where
  "ListStaleVulnScans st before lim =
     (if st_fault st TVulnScans then Inl ErrDB
      else Inr (take lim (order_by scanned_before
             (filter (\<lambda>v. text_less (format_time (vs_scanned_at v)) (format_time before)) (st_vuln_scans st)))))"

text \<open>The keys are joined with NUL bytes.\<close>

definition nul_key :: "string \<Rightarrow> string \<Rightarrow> string \<Rightarrow> string" where
  "nul_key a b c = a @ [CHR 0x00] @ b @ [CHR 0x00] @ c"

definition ScannedKeys :: "store \<Rightarrow> store_error + string list" where
  "ScannedKeys st =
     (if st_fault st TVulnScans then Inl ErrDB
      else Inr (map (\<lambda>v. nul_key (vs_ecosystem v) (vs_package v) (vs_version v)) (st_vuln_scans st)))"

definition UpsertLicenseScan ::
  "instant \<Rightarrow> string \<Rightarrow> string \<Rightarrow> string \<Rightarrow> string list \<Rightarrow> string \<Rightarrow> store \<Rightarrow> (store_error + unit) \<times> store"
where
  "UpsertLicenseScan now sys pkg version licenses source st =
     (if st_fault st TLicenseScans then (Inl ErrDB, st)
      else let v = \<lparr>ls_system = sys, ls_package = pkg, ls_version = version, ls_licenses = licenses,
                    ls_source = (if source = [] then ''deps.dev'' else source), ls_resolved_at = now\<rparr>
           in (Inr (), st\<lparr>st_license_scans := upsert ls_key v (\<lambda>_. v) (st_license_scans st)\<rparr>))"

definition GetLicenseScan :: "store \<Rightarrow> string \<Rightarrow> string \<Rightarrow> string \<Rightarrow> store_error + license_scan" where
  "GetLicenseScan st sys pkg version =
     (if st_fault st TLicenseScans then Inl ErrDB
      else case find_key ls_key (sys, pkg, version) (st_license_scans st) of
             None \<Rightarrow> Inl ErrNotFound | Some v \<Rightarrow> Inr v)"

definition ListStaleLicenseScans :: "store \<Rightarrow> instant \<Rightarrow> nat \<Rightarrow> store_error + license_scan list" where
  "ListStaleLicenseScans st before lim =
     (if st_fault st TLicenseScans then Inl ErrDB
      else Inr (take lim (order_by (\<lambda>a b. text_less (format_time (ls_resolved_at a)) (format_time (ls_resolved_at b)))
             (filter (\<lambda>v. text_less (format_time (ls_resolved_at v)) (format_time before)) (st_license_scans st)))))"

definition ResolvedLicenseKeys :: "store \<Rightarrow> store_error + string list" where
  "ResolvedLicenseKeys st =
     (if st_fault st TLicenseScans then Inl ErrDB
      else Inr (map (\<lambda>v. nul_key (ls_system v) (ls_package v) (ls_version v)) (st_license_scans st)))"

section \<open>What a lookup sees\<close>

lemma pending_row_key [simp]:
  "ap_repo_name (pending_row now repo pkg u v) = repo" "ap_package (pending_row now repo pkg u v) = pkg"
  "ap_status (pending_row now repo pkg u v) = ApprovalPending" "ap_request_count (pending_row now repo pkg u v) = 1"
  by (simp_all add: pending_row_def)

lemma put_approval_fault [simp]: "st_fault (put_approval row f st) = st_fault st"
  by (simp add: put_approval_def)

lemma find_put_approval:
  assumes "\<And>a. ap_key (f a) = ap_key a"
  shows "find_key ap_key key (st_approvals (put_approval row f st)) =
    (if key = ap_key row
     then Some (case find_key ap_key (ap_key row) (st_approvals st) of
                  None \<Rightarrow> row\<lparr>ap_id := next_id TApprovals st\<rparr> | Some a \<Rightarrow> f a)
     else find_key ap_key key (st_approvals st))"
  using keyed.look_put_same [of ap_key "row\<lparr>ap_id := next_id TApprovals st\<rparr>" f "st_approvals st"]
    keyed.look_put_other [of ap_key "row\<lparr>ap_id := next_id TApprovals st\<rparr>" f key "st_approvals st"] assms
  by (simp add: put_approval_def)

text \<open>
  Demand never becomes trust: recording a request for a package leaves the approval status of
  every package as it was, except that a package with no row becomes pending; in particular no
  package becomes approved and no rejection is lost.
\<close>

theorem UpsertPendingApproval_never_approves:
  "GetApprovalStatus (snd (UpsertPendingApproval now repo pkg user version st)) repo' pkg' =
     (if (repo', pkg') = (repo, pkg) \<and> GetApprovalStatus st repo pkg = Inl ErrNotFound
      then Inr ApprovalPending else GetApprovalStatus st repo' pkg')"
  by (auto simp: UpsertPendingApproval_def GetApprovalStatus_def find_put_approval Let_def
      split: option.splits)

text \<open>
  \<open>UpsertPendingApproval\<close> reports a new request by the counter being 1 afterwards. A package that
  was decided before anyone asked for it has the counter 0, so the first request for a package that
  was rejected in advance is reported as a new pending row although the row exists and stays rejected.
\<close>

theorem pre_rejected_reported_as_created:
  assumes "\<not> st_fault st TApprovals" and "find_key ap_key (repo, pkg) (st_approvals st) = None"
  shows "let st1 = snd (UpsertApprovalDecision now repo pkg ApprovalRejected by note st);
             (created, st2) = UpsertPendingApproval later repo pkg user version st1
         in created = Inr True \<and> length (st_approvals st2) = length (st_approvals st1) \<and>
            GetApprovalStatus st2 repo pkg = Inr ApprovalRejected"
proof -
  let ?st1 = "snd (UpsertApprovalDecision now repo pkg ApprovalRejected by note st)"
  let ?f = "\<lambda>a. a\<lparr>ap_request_count := ap_request_count a + 1, ap_last_requested_at := later,
      ap_last_requested_version := (if version \<noteq> [] then version else ap_last_requested_version a)\<rparr>"
  have f1: "\<not> st_fault ?st1 TApprovals" using assms(1) by (simp add: UpsertApprovalDecision_def Let_def)
  have "find_key ap_key (repo, pkg) (st_approvals ?st1) \<noteq> None \<and>
      (\<forall>a. find_key ap_key (repo, pkg) (st_approvals ?st1) = Some a \<longrightarrow>
        ap_status a = ApprovalRejected \<and> ap_request_count a = 0)"
    using assms by (simp add: UpsertApprovalDecision_def find_put_approval Let_def)
  then obtain a where a: "find_key ap_key (repo, pkg) (st_approvals ?st1) = Some a"
    "ap_status a = ApprovalRejected" "ap_request_count a = 0" by auto
  have len: "length (st_approvals (put_approval (pending_row later repo pkg user version) ?f ?st1)) =
      length (st_approvals ?st1)"
    using a(1) by (simp add: put_approval_def upsert_def)
  show ?thesis
    using a f1 len
    by (auto simp: UpsertPendingApproval_def GetApprovalStatus_def find_put_approval Let_def)
qed

theorem pre_rejected_reported_as_created_witness:
  "fst (UpsertPendingApproval 9 ''r'' ''p'' ''u'' [] (snd (UpsertApprovalDecision 5 ''r'' ''p'' ApprovalRejected ''admin'' [] empty_store)))
     = Inr True"
proof -
  have "\<not> st_fault empty_store TApprovals" "find_key ap_key (''r'', ''p'') (st_approvals empty_store) = None"
    by (simp_all add: empty_store_def find_key_def)
  from pre_rejected_reported_as_created [OF this, of 5 "''admin''" "[]" 9 "''u''" "[]"] show ?thesis
    by (auto simp: Let_def split: prod.splits)
qed

lemma deny_upserted:
  "UpsertVersionDeny now repo pkg version reason by st = (Inr d, st') \<Longrightarrow>
   IsVersionDenied st' repo pkg version = Inr True"
  using keyed.put_present [of vd_key]
  by (auto simp: UpsertVersionDeny_def IsVersionDenied_def Let_def split: if_splits option.splits)

end
