(* ===== verification/Json.thy ===== *)
theory Json
  imports Prelude
begin

text \<open>
  JSON documents as Go's \<^verbatim>\<open>encoding/json\<close> presents them to the handlers: a value decoded into
  \<^verbatim>\<open>any\<close>, and objects as association lists with distinct keys in the order a range over the map would
  visit them. A document variable of type \<^verbatim>\<open>map[string]any\<close> is \<open>None\<close> when it is the nil map, which is
  what decoding \<^verbatim>\<open>null\<close> leaves. The text syntax is not modelled: \<open>codec\<close> holds the decoders, the
  encoder and the RFC 3339 parser as functions.
\<close>

datatype json = JNull | JBool bool | JNum string | JStr string | JArr "json list" | JObj "(string \<times> json) list"

type_synonym object = "(string \<times> json) list"
type_synonym doc = "object option"

text \<open>
  \<open>cx_decode\<close> is \<^verbatim>\<open>json.NewDecoder(r).Decode(&doc)\<close>, \<open>cx_unmarshal\<close> \<^verbatim>\<open>json.Unmarshal(b, &doc)\<close>,
  \<open>cx_times\<close> the decoding of a packument into a struct with its \<open>time\<close> map only, \<open>cx_files\<close> that of a simple
  index into the file names, addresses, digests and Python requirements it lists (nothing on an error,
  which the caller ignores), \<open>cx_marshal\<close> \<^verbatim>\<open>json.Marshal\<close>; \<open>None\<close> is an error.
\<close>

record codec =
  cx_decode :: "bytes \<Rightarrow> doc option"
  cx_unmarshal :: "bytes \<Rightarrow> doc option"
  cx_times :: "bytes \<Rightarrow> (string \<times> string) list option"
  cx_files :: "bytes \<Rightarrow> (string \<times> string \<times> string \<times> string) list"
  cx_marshal :: "doc \<Rightarrow> bytes option"
  cx_rfc3339 :: "string \<Rightarrow> instant option"

text \<open>Reading the nil map finds nothing.\<close>

definition entries :: "doc \<Rightarrow> object" where
  "entries d = (case d of None \<Rightarrow> [] | Some ob \<Rightarrow> ob)"

definition doc_get :: "doc \<Rightarrow> string \<Rightarrow> json option" where
  "doc_get d k = map_of (entries d) k"

text \<open>The two-valued type assertions \<^verbatim>\<open>v.(map[string]any)\<close>, \<^verbatim>\<open>v.(string)\<close> and \<^verbatim>\<open>v.([]any)\<close>.\<close>

fun as_object :: "json option \<Rightarrow> object option" where
  "as_object (Some (JObj ob)) = Some ob"
| "as_object v = None"

fun as_string :: "json option \<Rightarrow> string option" where
  "as_string (Some (JStr s)) = Some s"
| "as_string v = None"

fun as_array :: "json option \<Rightarrow> json list option" where
  "as_array (Some (JArr a)) = Some a"
| "as_array v = None"

text \<open>Assigning to a key keeps the place of a key that is there.\<close>

fun obj_set :: "string \<Rightarrow> json \<Rightarrow> object \<Rightarrow> object" where
  "obj_set k v [] = [(k, v)]"
| "obj_set k v ((j, w) # ob) = (if j = k then (k, v) # ob else (j, w) # obj_set k v ob)"

definition obj_del :: "string \<Rightarrow> object \<Rightarrow> object" where
  "obj_del k ob = filter (\<lambda>e. fst e \<noteq> k) ob"

lemma map_of_obj_set: "map_of (obj_set k v ob) j = (if j = k then Some v else map_of ob j)"
  by (induction k v ob rule: obj_set.induct) auto

lemma keys_obj_set: "set (map fst (obj_set k v ob)) = insert k (set (map fst ob))"
  by (induction k v ob rule: obj_set.induct) auto

lemma distinct_obj_set: "distinct (map fst ob) \<Longrightarrow> distinct (map fst (obj_set k v ob))"
proof (induction k v ob rule: obj_set.induct)
  case (2 k v j w ob)
  then show ?case using keys_obj_set [of k v ob] by auto
qed simp

lemma as_string_Some: "as_string v = Some s \<longleftrightarrow> v = Some (JStr s)"
  by (cases v rule: as_string.cases) auto

lemma as_object_Some: "as_object v = Some ob \<longleftrightarrow> v = Some (JObj ob)"
  by (cases v rule: as_object.cases) auto

end
