(* ===== verification/Manager.thy ===== *)
theory Manager
  imports Coordinates Approvals Retention Json
begin

text \<open>
  The manager that the format handlers share (\<^verbatim>\<open>internal/repo/router.go\<close>) and its two background
  queues (\<^verbatim>\<open>vulnscan.go\<close>, \<^verbatim>\<open>licensescan.go\<close>): repository resolution, role-based and address-based
  admission, audit records, and the scan and license jobs with their suppression marks.

  \<open>manager\<close> is what a request changes: the engine, the audit recorder (if there is one), the marks,
  the two channels of capacity 1024, and the emitted events (metrics and the approval alarm).
  \<open>deps\<close> is what is fixed when the manager is built: the engine's surroundings, whether there is an
  authorization service and whether it lets anonymous clients read, the advisory and the license
  source, whether an alarm callback is set, the external URL, the decoders, and whether a request that
  has to rewrite a document gets a slot on the rewrite gate before its client goes away.
\<close>

section \<open>Severities and findings\<close>

abbreviation SevNone :: int where "SevNone \<equiv> 0"
abbreviation SevLow :: int where "SevLow \<equiv> 1"
abbreviation SevMedium :: int where "SevMedium \<equiv> 2"
abbreviation SevHigh :: int where "SevHigh \<equiv> 3"
abbreviation SevCritical :: int where "SevCritical \<equiv> 4"

definition Severity_String :: "int \<Rightarrow> string" where
  "Severity_String s =
     (if s = SevCritical then ''critical'' else if s = SevHigh then ''high''
      else if s = SevMedium then ''medium'' else if s = SevLow then ''low'' else ''none'')"

definition ParseSeverity :: "string \<Rightarrow> int" where
  "ParseSeverity s =
     (if s = ''critical'' then SevCritical else if s = ''high'' then SevHigh
      else if s = ''medium'' then SevMedium else if s = ''low'' then SevLow else SevNone)"

text \<open>\<open>fi_counts\<close> is the array of five counters, indexed by severity.\<close>

record finding =
  fi_ids :: "string list"
  fi_advisories :: "(string \<times> string \<times> string) list"
  fi_max :: int
  fi_counts :: "int list"

definition SeverityCounts :: "finding \<Rightarrow> (string \<times> int) list" where
  "SeverityCounts f =
     [(Severity_String s, fi_counts f ! nat s). s \<leftarrow> [SevLow, SevMedium, SevHigh, SevCritical],
        0 < fi_counts f ! nat s]"

section \<open>State\<close>

record scanJob =
  sj_ecosystem :: string
  sj_pkg :: string
  sj_version :: string

record resolveJob =
  rj_system :: string
  rj_pkg :: string
  rj_version :: string

datatype manager_event =
    ApprovalBlocked string string | DenyBlocked string | VulnBlocked string string
  | LicenseBlocked string string | IPBlocked string | VulnScans string | LicenseResolves string
  | OnApproval string string string string "string list"

record 'b manager =
  mg_engine :: "'b engine"
  mg_rec :: "recorder option"
  mg_marks :: negCache
  mg_scanQueue :: "scanJob list"
  mg_resolveQueue :: "resolveJob list"
  mg_events :: "manager_event list"

record scanner =
  sc_query :: "string \<Rightarrow> string \<Rightarrow> string \<Rightarrow> finding option"
  sc_source :: string

record resolver =
  rs_resolve :: "string \<Rightarrow> string \<Rightarrow> string \<Rightarrow> string list option"
  rs_source :: string

record 'b deps =
  dp_env :: "'b env"
  dp_authz :: "bool option"
  dp_scanner :: "scanner option"
  dp_resolver :: "resolver option"
  dp_notifier :: bool
  dp_externalURL :: string
  dp_unmarshal :: unmarshal
  dp_codec :: codec
  dp_rewrite :: bool

abbreviation mg_store :: "'b manager \<Rightarrow> store" where
  "mg_store m \<equiv> en_store (mg_engine m)"

abbreviation dp_now :: "'b deps \<Rightarrow> instant" where
  "dp_now d \<equiv> ev_now (dp_env d)"

definition set_store :: "store \<Rightarrow> 'b manager \<Rightarrow> 'b manager" where
  "set_store st m = m\<lparr>mg_engine := (mg_engine m)\<lparr>en_store := st\<rparr>\<rparr>"

definition count :: "manager_event \<Rightarrow> 'b manager \<Rightarrow> 'b manager" where
  "count ev m = m\<lparr>mg_events := mg_events m @ [ev]\<rparr>"

text \<open>\<^verbatim>\<open>if m.rec != nil { m.rec.Record(...) }\<close>.\<close>

definition record_event :: "'b deps \<Rightarrow> audit_event \<Rightarrow> 'b manager \<Rightarrow> 'b manager" where
  "record_event d ev m =
     (case mg_rec m of None \<Rightarrow> m | Some rc \<Rightarrow> m\<lparr>mg_rec := Some (Record (dp_now d) ev rc)\<rparr>)"

definition username_of :: "request \<Rightarrow> string" where
  "username_of r = (case rq_principal r of None \<Rightarrow> [] | Some p \<Rightarrow> pr_username p)"

section \<open>The scan and license queues\<close>

definition pendingMarkTTL :: duration where "pendingMarkTTL = Minute"

definition queueCap :: nat where "queueCap = 1024"

definition nul :: string where "nul = [CHR 0x00]"

definition enqueueScan :: "'b deps \<Rightarrow> string \<Rightarrow> string \<Rightarrow> string \<Rightarrow> 'b manager \<Rightarrow> 'b manager" where
  "enqueueScan d eco pkg version m =
     (if dp_scanner d = None \<or> eco = [] \<or> pkg = [] then m
      else let key = ''scan'' @ nul @ eco @ nul @ pkg @ nul @ version
           in case neg_has (dp_now d) key (mg_marks m) of
                (True, mk) \<Rightarrow> m\<lparr>mg_marks := mk\<rparr>
              | (False, mk) \<Rightarrow>
                  let m1 = m\<lparr>mg_marks := neg_set (dp_now d) key pendingMarkTTL mk\<rparr>
                  in if length (mg_scanQueue m1) < queueCap
                     then m1\<lparr>mg_scanQueue := mg_scanQueue m1 @
                               [\<lparr>sj_ecosystem = eco, sj_pkg = pkg, sj_version = version\<rparr>]\<rparr>
                     else m1)"

definition enqueueResolve :: "'b deps \<Rightarrow> string \<Rightarrow> string \<Rightarrow> string \<Rightarrow> 'b manager \<Rightarrow> 'b manager" where
  "enqueueResolve d system pkg version m =
     (if dp_resolver d = None \<or> system = [] \<or> pkg = [] \<or> version = [] then m
      else let key = ''license'' @ nul @ system @ nul @ pkg @ nul @ version
           in case neg_has (dp_now d) key (mg_marks m) of
                (True, mk) \<Rightarrow> m\<lparr>mg_marks := mk\<rparr>
              | (False, mk) \<Rightarrow>
                  let m1 = m\<lparr>mg_marks := neg_set (dp_now d) key pendingMarkTTL mk\<rparr>
                  in if length (mg_resolveQueue m1) < queueCap
                     then m1\<lparr>mg_resolveQueue := mg_resolveQueue m1 @
                               [\<lparr>rj_system = system, rj_pkg = pkg, rj_version = version\<rparr>]\<rparr>
                     else m1)"

definition scanStored :: "'b deps \<Rightarrow> repository \<Rightarrow> string \<Rightarrow> 'b manager \<Rightarrow> 'b manager" where
  "scanStored d repo p m =
     (if dp_scanner d = None then m
      else case VulnCoordinate (r_format repo) p of
             (eco, pkg) \<Rightarrow>
               if pkg = [] then m
               else let version = versionForPath (r_format repo) p
                    in if version = [] then m else enqueueScan d eco pkg version m)"

definition resolveStored :: "'b deps \<Rightarrow> repository \<Rightarrow> string \<Rightarrow> 'b manager \<Rightarrow> 'b manager" where
  "resolveStored d repo p m =
     (if dp_resolver d = None then m
      else case LicenseCoordinate (r_format repo) p of
             (system, pkg) \<Rightarrow>
               if pkg = [] then m
               else let version = versionForPath (r_format repo) p
                    in if version = [] then m else enqueueResolve d system pkg version m)"

text \<open>
  One job of the scan worker. \<open>duration\<close> is the time the lookup took; the stored row is built by
  \<open>UpsertVulnScan\<close>.
\<close>

definition runScan :: "'b deps \<Rightarrow> scanner \<Rightarrow> int \<Rightarrow> scanJob \<Rightarrow> 'b manager \<Rightarrow> 'b manager" where
  "runScan d sc duration job m =
     (case sc_query sc (sj_ecosystem job) (sj_pkg job) (sj_version job) of
        None \<Rightarrow> count (VulnScans ''error'') m
      | Some f \<Rightarrow>
          let m1 = count (VulnScans (if fi_ids f = [] then ''clean'' else ''vulnerable'')) m;
              row = \<lparr>vs_ecosystem = sj_ecosystem job, vs_package = sj_pkg job,
                     vs_version = sj_version job, vs_max_severity = Severity_String (fi_max f),
                     vs_vuln_ids = fi_ids f, vs_severity_counts = SeverityCounts f,
                     vs_advisories = fi_advisories f, vs_duration_ms = duration,
                     vs_source = sc_source sc, vs_scanned_at = dp_now d\<rparr>
          in set_store (snd (UpsertVulnScan (dp_now d) row (mg_store m1))) m1)"

definition runResolve :: "'b deps \<Rightarrow> resolver \<Rightarrow> resolveJob \<Rightarrow> 'b manager \<Rightarrow> 'b manager" where
  "runResolve d rs job m =
     (case rs_resolve rs (rj_system job) (rj_pkg job) (rj_version job) of
        None \<Rightarrow> count (LicenseResolves ''error'') m
      | Some licenses \<Rightarrow>
          let m1 = count (LicenseResolves (if licenses = [] then ''unknown'' else ''resolved'')) m
          in set_store (snd (UpsertLicenseScan (dp_now d) (rj_system job) (rj_pkg job) (rj_version job)
                               licenses (rs_source rs) (mg_store m1))) m1)"

text \<open>A turn of \<open>RunVulnWorker\<close> and of \<open>RunLicenseWorker\<close>: receive a job and run it.\<close>

definition vuln_worker_turn :: "'b deps \<Rightarrow> int \<Rightarrow> 'b manager \<Rightarrow> 'b manager" where
  "vuln_worker_turn d duration m =
     (case (dp_scanner d, mg_scanQueue m) of
        (Some sc, job # jobs) \<Rightarrow> runScan d sc duration job (m\<lparr>mg_scanQueue := jobs\<rparr>)
      | _ \<Rightarrow> m)"

definition license_worker_turn :: "'b deps \<Rightarrow> 'b manager \<Rightarrow> 'b manager" where
  "license_worker_turn d m =
     (case (dp_resolver d, mg_resolveQueue m) of
        (Some rs, job # jobs) \<Rightarrow> runResolve d rs job (m\<lparr>mg_resolveQueue := jobs\<rparr>)
      | _ \<Rightarrow> m)"

text \<open>The passes of the two rescanners: stale results are queued again.\<close>

definition reapBatch :: nat where "reapBatch = 256"

definition vuln_rescan_pass :: "'b deps \<Rightarrow> duration \<Rightarrow> 'b manager \<Rightarrow> 'b manager" where
  "vuln_rescan_pass d ttl m =
     (case ListStaleVulnScans (mg_store m) (dp_now d - ttl) reapBatch of
        Inl err \<Rightarrow> m
      | Inr stale \<Rightarrow>
          fold (\<lambda>s. enqueueScan d (vs_ecosystem s) (vs_package s) (vs_version s)) stale m)"

definition license_rescan_pass :: "'b deps \<Rightarrow> duration \<Rightarrow> 'b manager \<Rightarrow> 'b manager" where
  "license_rescan_pass d ttl m =
     (case ListStaleLicenseScans (mg_store m) (dp_now d - ttl) reapBatch of
        Inl err \<Rightarrow> m
      | Inr stale \<Rightarrow>
          fold (\<lambda>s. enqueueResolve d (ls_system s) (ls_package s) (ls_version s)) stale m)"

text \<open>
  The backfill: stored artifacts that carry a version, by id in pages of \<open>reapBatch\<close>, whose
  coordinate has no result yet. Queuing leaves the store alone, so the pages are of one list.
\<close>

definition scan_targets :: "store \<Rightarrow> (string \<times> string \<times> string) list" where
  "scan_targets st =
     List.map_filter (\<lambda>a. case List.find (\<lambda>r. r_id r = a_repo_id a) (st_repositories st) of
          None \<Rightarrow> None | Some r \<Rightarrow> Some (r_format r, a_path a, a_version a))
       (order_by (\<lambda>a b. a_id a < a_id b) (filter (\<lambda>a. a_version a \<noteq> []) (st_artifacts st)))"

definition ListScanTargets :: "store \<Rightarrow> nat \<Rightarrow> nat \<Rightarrow> store_error + (string \<times> string \<times> string) list" where
  "ListScanTargets st lim off =
     (if st_fault st TArtifacts then Inl ErrDB else Inr (take lim (drop off (scan_targets st))))"

definition backfill_target ::
  "'b deps \<Rightarrow> string list \<Rightarrow> string \<times> string \<times> string \<Rightarrow> 'b manager \<Rightarrow> 'b manager" where
  "backfill_target d scanned t m =
     (case t of (format, p, version) \<Rightarrow>
        (case VulnCoordinate format p of
           (eco, pkg) \<Rightarrow>
             if pkg = [] then m
             else if nul_key eco pkg version \<in> set scanned then m
             else enqueueScan d eco pkg version m))"

definition license_backfill_target ::
  "'b deps \<Rightarrow> string list \<Rightarrow> string \<times> string \<times> string \<Rightarrow> 'b manager \<Rightarrow> 'b manager" where
  "license_backfill_target d resolved t m =
     (case t of (format, p, version) \<Rightarrow>
        (case LicenseCoordinate format p of
           (system, pkg) \<Rightarrow>
             if pkg = [] then m
             else if nul_key system pkg version \<in> set resolved then m
             else enqueueResolve d system pkg version m))"

lemma enqueueScan_engine [simp]: "mg_engine (enqueueScan d eco pkg v m) = mg_engine m"
  by (simp add: enqueueScan_def Let_def split: prod.split bool.split)

lemma enqueueResolve_engine [simp]: "mg_engine (enqueueResolve d sys pkg v m) = mg_engine m"
  by (simp add: enqueueResolve_def Let_def split: prod.split bool.split)

lemma backfill_target_engine [simp]:
  "mg_engine (backfill_target d sc t m) = mg_engine m"
  "mg_engine (license_backfill_target d sc t m) = mg_engine m"
  by (simp_all add: backfill_target_def license_backfill_target_def split: prod.split)

lemma fold_engine: "(\<And>x m. mg_engine (f x m) = mg_engine m) \<Longrightarrow> mg_engine (fold f xs m) = mg_engine m"
  by (induction xs arbitrary: m) auto

lemmas backfill_fold_engine [simp] =
  fold_engine [of "backfill_target d sc" for d sc, OF backfill_target_engine(1)]
  fold_engine [of "license_backfill_target d sc" for d sc, OF backfill_target_engine(2)]

text \<open>A full page leaves at least that many fewer targets.\<close>

lemma full_page_less:
  "ListScanTargets st reapBatch off = Inr ts \<Longrightarrow> \<not> length ts < reapBatch \<Longrightarrow>
   length (scan_targets st) - (off + reapBatch) < length (scan_targets st) - off"
  by (auto simp: ListScanTargets_def reapBatch_def split: if_splits)

function backfill_loop :: "'b deps \<Rightarrow> string list \<Rightarrow> nat \<Rightarrow> 'b manager \<Rightarrow> 'b manager" where
  "backfill_loop d known off m =
     (case ListScanTargets (mg_store m) reapBatch off of
        Inl err \<Rightarrow> m
      | Inr ts \<Rightarrow>
          let m1 = fold (backfill_target d known) ts m
          in if length ts < reapBatch then m1 else backfill_loop d known (off + reapBatch) m1)"
  by pat_completeness auto
termination
  by (relation "measure (\<lambda>(d, known, off, m). length (scan_targets (mg_store m)) - off)")
    (auto dest: full_page_less)

declare backfill_loop.simps [simp del]

function license_backfill_loop :: "'b deps \<Rightarrow> string list \<Rightarrow> nat \<Rightarrow> 'b manager \<Rightarrow> 'b manager" where
  "license_backfill_loop d known off m =
     (case ListScanTargets (mg_store m) reapBatch off of
        Inl err \<Rightarrow> m
      | Inr ts \<Rightarrow>
          let m1 = fold (license_backfill_target d known) ts m
          in if length ts < reapBatch then m1 else license_backfill_loop d known (off + reapBatch) m1)"
  by pat_completeness auto
termination
  by (relation "measure (\<lambda>(d, known, off, m). length (scan_targets (mg_store m)) - off)")
    (auto dest: full_page_less)

declare license_backfill_loop.simps [simp del]

definition backfillOnce :: "'b deps \<Rightarrow> 'b manager \<Rightarrow> 'b manager" where
  "backfillOnce d m =
     (case ScannedKeys (mg_store m) of
        Inl err \<Rightarrow> m | Inr scanned \<Rightarrow> backfill_loop d scanned 0 m)"

definition licenseBackfillOnce :: "'b deps \<Rightarrow> 'b manager \<Rightarrow> 'b manager" where
  "licenseBackfillOnce d m =
     (case ResolvedLicenseKeys (mg_store m) of
        Inl err \<Rightarrow> m | Inr resolved \<Rightarrow> license_backfill_loop d resolved 0 m)"

section \<open>Running the engine\<close>

text \<open>
  The engine calls \<open>onStore\<close> when it has cached an artifact; \<open>NewManager\<close> sets it to queue a scan and
  a license resolution. \<open>with_engine\<close> runs an engine operation and the callbacks of the events it added.
\<close>

definition on_store :: "'b deps \<Rightarrow> engine_event \<Rightarrow> 'b manager \<Rightarrow> 'b manager" where
  "on_store d ev m =
     (case ev of OnStore repo p \<Rightarrow> resolveStored d repo p (scanStored d repo p m) | _ \<Rightarrow> m)"

definition with_engine ::
  "'b deps \<Rightarrow> ('b engine \<Rightarrow> 'x \<times> 'b engine) \<Rightarrow> 'b manager \<Rightarrow> 'x \<times> 'b manager" where
  "with_engine d f m =
     (case f (mg_engine m) of
        (x, e) \<Rightarrow> (x, fold (on_store d) (drop (length (en_events (mg_engine m))) (en_events e))
                       (m\<lparr>mg_engine := e\<rparr>)))"

section \<open>Admission\<close>

definition UnauthorizedBasic :: "wop list" where
  "UnauthorizedBasic =
     SetHeader ''WWW-Authenticate'' (''Basic realm='' @ [CHR 0x22] @ ''forklift'' @ [CHR 0x22]) #
     http_Error ''unauthorized'' 401"

text \<open>\<open>None\<close> is admission; \<open>Some\<close> is the refusal that was written.\<close>

definition authorize :: "'b deps \<Rightarrow> request \<Rightarrow> string \<Rightarrow> string \<Rightarrow> wop list option" where
  "authorize d r repoName action =
     (case dp_authz d of
        None \<Rightarrow> None
      | Some anonymousRead \<Rightarrow>
          if rq_via_group r then None
          else case rq_principal r of
                 None \<Rightarrow> if action = ActionRead \<and> anonymousRead then None else Some UnauthorizedBasic
               | Some p \<Rightarrow> if \<not> Can p repoName action then Some (http_Error ''forbidden'' 403) else None)"

definition ipAllowed ::
  "request \<Rightarrow> string \<Rightarrow> config \<Rightarrow> 'b manager \<Rightarrow> wop list option \<times> 'b manager" where
  "ipAllowed r repoName cfg m =
     (if \<not> ip_enabled (c_ip_acl cfg) then (None, m)
      else if rq_via_group r then (None, m)
      else if Allowed (c_ip_acl cfg) (ClientIP r) then (None, m)
      else (Some (http_Error ''forbidden: source IP not allowed'' 403), count (IPBlocked repoName) m))"

definition actionForMethod :: "string \<Rightarrow> string" where
  "actionForMethod mth =
     (if mth = MethodPut \<or> mth = MethodPost then ActionWrite
      else if mth = MethodDelete then ActionDelete else ActionRead)"

definition eventForMethod :: "string \<Rightarrow> string" where
  "eventForMethod mth =
     (if mth = MethodPut \<or> mth = MethodPost then EventUpload
      else if mth = MethodDelete then EventDelete else EventDownload)"

section \<open>Resolution\<close>

record resolved =
  re_repo :: repository
  re_cfg :: config
  re_path :: string

definition resolveRepo ::
  "'b deps \<Rightarrow> request \<Rightarrow> string \<Rightarrow> 'b manager \<Rightarrow> (wop list + resolved) \<times> 'b manager" where
  "resolveRepo d r format m =
     (case GetRepositoryByName (mg_store m) (rq_repo r) of
        Inl err \<Rightarrow> (Inl (if err = ErrNotFound then http_Error ''repository not found'' 404
                         else http_Error ''metadata error'' 500), m)
      | Inr repo \<Rightarrow>
          if r_format repo \<noteq> format then (Inl (http_Error ''repository format mismatch'' 404), m)
          else if r_disabled repo then (Inl (http_Error ''repository disabled'' 503), m)
          else case Parse (dp_unmarshal d) (r_config_json repo) of
                 Inl err \<Rightarrow> (Inl (http_Error ''invalid repository config'' 500), m)
               | Inr cfg \<Rightarrow>
                   (case ipAllowed r (r_name repo) cfg m of
                      (Some ops, m1) \<Rightarrow> (Inl ops, m1)
                    | (None, m1) \<Rightarrow>
                        let p = trim_prefix (rq_wild r) ''/''
                        in if contains p ''..'' then (Inl (http_Error ''invalid path'' 400), m1)
                           else (Inr \<lparr>re_repo = repo, re_cfg = cfg, re_path = p\<rparr>, m1)))"

definition resolve ::
  "'b deps \<Rightarrow> request \<Rightarrow> string \<Rightarrow> 'b manager \<Rightarrow> (wop list + resolved) \<times> 'b manager" where
  "resolve d r format m =
     (case resolveRepo d r format m of
        (Inl ops, m1) \<Rightarrow> (Inl ops, m1)
      | (Inr res, m1) \<Rightarrow> if re_path res = [] then (Inl (http_Error ''invalid path'' 400), m1)
                         else (Inr res, m1))"

definition externalBase :: "'b deps \<Rightarrow> request \<Rightarrow> string" where
  "externalBase d r =
     (if dp_externalURL d \<noteq> [] then dp_externalURL d
      else let scheme = (if rq_tls r \<or> header_get (rq_headers r) ''X-Forwarded-Proto'' = ''https''
                         then ''https'' else ''http'');
               fwd = header_get (rq_headers r) ''X-Forwarded-Host'';
               host = (if fwd \<noteq> [] then fwd else rq_host r)
           in scheme @ ''://'' @ host)"

section \<open>Audited handlers\<close>

type_synonym 'b handler = "request \<Rightarrow> 'b manager \<Rightarrow> wop list \<times> 'b manager"

text \<open>\<open>statusWriter\<close>: the status kept for the record, and whether one was written.\<close>

fun sw_op :: "wop \<Rightarrow> int \<times> bool \<Rightarrow> int \<times> bool" where
  "sw_op (WriteHeader code) (st, wrote) = (if \<not> wrote then (code, True) else (st, wrote))"
| "sw_op (WriteBytes b) (st, wrote) = (if \<not> wrote then (200, True) else (st, wrote))"
| "sw_op (SetHeader k v) sw = sw"
| "sw_op (DelHeader k) sw = sw"

definition sw_status :: "wop list \<Rightarrow> int" where
  "sw_status ops = fst (fold sw_op ops (200, False))"

definition access_event :: "request \<Rightarrow> int \<Rightarrow> audit_event" where
  "access_event r st =
     \<lparr>ae_repo = rq_repo r, ae_action = eventForMethod (rq_method r),
      ae_path = trim_prefix (rq_wild r) ''/'', ae_username = username_of r, ae_method = rq_method r,
      ae_status = st, ae_client_ip = ClientIP r, ae_user_agent = UserAgent r\<rparr>"

definition audited :: "'b deps \<Rightarrow> 'b handler \<Rightarrow> 'b handler" where
  "audited d next r m =
     (if mg_rec m = None then next r m
      else case next r m of
             (ops, m1) \<Rightarrow> (ops, record_event d (access_event r (sw_status ops)) m1))"

section \<open>What is recorded\<close>

lemma fold_sw_wrote: "fold sw_op ops (st, True) = (st, True)"
proof (induction ops)
  case (Cons x ops)
  then show ?case by (cases x) auto
qed simp

lemma sw_status_first: "sw_status ops = (case first_status ops of None \<Rightarrow> 200 | Some c \<Rightarrow> c)"
proof -
  have "fst (fold sw_op ops (200, False)) = (case first_status ops of None \<Rightarrow> 200 | Some c \<Rightarrow> c)"
    by (induction ops rule: first_status.induct) (auto simp: fold_sw_wrote)
  then show ?thesis by (simp add: sw_status_def)
qed

text \<open>
  The audit log tells what the client saw: a handler under \<open>audited\<close> sends exactly what it would
  send without it, and with a recorder present one access event is recorded after everything the
  handler recorded, under the repository, the user and the address of the request and with the status
  of the response on the wire.
\<close>

theorem audited_records_final_status:
  "audited d next r m =
     (fst (next r m),
      if mg_rec m = None then snd (next r m)
      else record_event d (access_event r (status_of (fst (next r m)))) (snd (next r m)))"
  by (simp add: audited_def sw_status_first status_of_first split: prod.split)

section \<open>The backfill visits every target once\<close>

lemma fold_pages:
  assumes "take n (drop off xs) = ts" and "\<not> length ts < n"
  shows "drop off xs = ts @ drop (off + n) xs"
  using assms by (metis append_take_drop_id drop_drop add.commute)

lemma backfill_loop_all:
  assumes "\<not> st_fault (mg_store m) TArtifacts"
  shows "backfill_loop d known off m = fold (backfill_target d known) (drop off (scan_targets (mg_store m))) m"
  using assms
proof (induction d known off m rule: backfill_loop.induct)
  case (1 d known off m)
  let ?ts = "take reapBatch (drop off (scan_targets (mg_store m)))"
  have l: "ListScanTargets (mg_store m) reapBatch off = Inr ?ts"
    using "1.prems" by (simp add: ListScanTargets_def)
  show ?case
  proof (cases "length ?ts < reapBatch")
    case True
    then have "?ts = drop off (scan_targets (mg_store m))" by simp
    with True l show ?thesis by (simp add: backfill_loop.simps [of d known off m] Let_def)
  next
    case False
    have "fold (backfill_target d known) (drop off (scan_targets (mg_store m))) m =
        fold (backfill_target d known) (?ts @ drop (off + reapBatch) (scan_targets (mg_store m))) m"
      using fold_pages [OF refl False] by (rule arg_cong)
    then have "fold (backfill_target d known) (drop off (scan_targets (mg_store m))) m =
        fold (backfill_target d known) (drop (off + reapBatch) (scan_targets (mg_store m)))
          (fold (backfill_target d known) ?ts m)"
      by (simp only: fold_append o_apply)
    moreover have "backfill_loop d known (off + reapBatch) (fold (backfill_target d known) ?ts m) =
        fold (backfill_target d known) (drop (off + reapBatch) (scan_targets (mg_store m)))
          (fold (backfill_target d known) ?ts m)"
      using "1.IH" [OF l refl False] "1.prems" by simp
    ultimately show ?thesis
      using False l by (simp add: backfill_loop.simps [of d known off m] Let_def del: drop_drop length_take length_drop)
  qed
qed

text \<open>
  A backfill pass ends and looks at every stored versioned artifact exactly once, in the order of
  their identifiers: going by pages is the same as one run over the whole listing, whatever the number
  of artifacts, and nothing but the marks and the scan queue changes.
\<close>

theorem backfill_is_one_pass:
  assumes "\<not> st_fault (mg_store m) TArtifacts" and "ScannedKeys (mg_store m) = Inr scanned"
  shows "backfillOnce d m = fold (backfill_target d scanned) (scan_targets (mg_store m)) m \<and>
         mg_engine (backfillOnce d m) = mg_engine m"
  using assms by (simp add: backfillOnce_def backfill_loop_all)

text \<open>A small deployment for the concrete cases: one repository, a scanner, no authorization service.\<close>

definition NewManager :: "'b engine \<Rightarrow> recorder option \<Rightarrow> 'b manager" where
  "NewManager e rc = \<lparr>mg_engine = e, mg_rec = rc, mg_marks = newNegCache, mg_scanQueue = [],
     mg_resolveQueue = [], mg_events = []\<rparr>"

definition demo_codec :: codec where
  "demo_codec = \<lparr>cx_decode = (\<lambda>_. None), cx_unmarshal = (\<lambda>_. None), cx_times = (\<lambda>_. None),
     cx_files = (\<lambda>_. []), cx_marshal = (\<lambda>_. None), cx_rfc3339 = (\<lambda>_. None)\<rparr>"

definition demo_deps :: "instant \<Rightarrow> fs deps" where
  "demo_deps now = \<lparr>dp_env = demo_env now, dp_authz = None,
     dp_scanner = Some \<lparr>sc_query = (\<lambda>_ _ _. None), sc_source = ''OSV''\<rparr>,
     dp_resolver = Some \<lparr>rs_resolve = (\<lambda>_ _ _. None), rs_source = ''deps.dev''\<rparr>,
     dp_notifier = True, dp_externalURL = [], dp_unmarshal = (\<lambda>_ c. Some c),
     dp_codec = demo_codec, dp_rewrite = True\<rparr>"

definition demo_manager :: "fs engine \<Rightarrow> fs manager" where
  "demo_manager e = NewManager e (Some empty_recorder)"

theorem backfill_is_one_pass_witness:
  "mg_scanQueue (backfillOnce (demo_deps 9) (demo_manager (demo_put ''org/acme/lib/1/lib.jar'' ''x'' demo_start))) =
     [\<lparr>sj_ecosystem = ''Maven'', sj_pkg = ''org.acme:lib'', sj_version = ''1''\<rparr>]"
proof -
  let ?m = "demo_manager (demo_put ''org/acme/lib/1/lib.jar'' ''x'' demo_start)"
  have "\<not> st_fault (mg_store ?m) TArtifacts" and "ScannedKeys (mg_store ?m) = Inr []" by code_simp+
  then have "backfillOnce (demo_deps 9) ?m = fold (backfill_target (demo_deps 9) []) (scan_targets (mg_store ?m)) ?m"
    by (rule conjunct1 [OF backfill_is_one_pass])
  moreover have "mg_scanQueue (fold (backfill_target (demo_deps 9) []) (scan_targets (mg_store ?m)) ?m) =
     [\<lparr>sj_ecosystem = ''Maven'', sj_pkg = ''org.acme:lib'', sj_version = ''1''\<rparr>]" by code_simp
  ultimately show ?thesis by simp
qed

end
