(* ===== verification/Gates.thy ===== *)
theory Gates
  imports Manager
begin

text \<open>
  The policy gates in front of the engine: the version deny list and the package approval workflow
  (\<^verbatim>\<open>internal/repo/approvalgate.go\<close>), the vulnerability policy (\<^verbatim>\<open>vulngate.go\<close>) and the license
  policy (\<^verbatim>\<open>licensegate.go\<close>). A gate returns the refusal it wrote, if any. \<open>policy_gate\<close> is what the
  handlers rely on; every gate and the sequence of all of them interpret it.
\<close>

type_synonym 'b gate =
  "'b deps \<Rightarrow> request \<Rightarrow> resolved \<Rightarrow> string \<Rightarrow> string \<Rightarrow> 'b manager \<Rightarrow> wop list option \<times> 'b manager"

section \<open>The gates\<close>

abbreviation EventDenyBlock :: string where "EventDenyBlock \<equiv> ''deny.block''"
abbreviation EventApprovalRequest :: string where "EventApprovalRequest \<equiv> ''approval.request''"

definition is_read :: "request \<Rightarrow> bool" where
  "is_read r \<longleftrightarrow> rq_method r = MethodGet \<or> rq_method r = MethodHead"

text \<open>The event a gate records: always with status 403.\<close>

definition gate_event :: "request \<Rightarrow> string \<Rightarrow> string \<Rightarrow> string \<Rightarrow> audit_event" where
  "gate_event r repo action p =
     \<lparr>ae_repo = repo, ae_action = action, ae_path = p, ae_username = username_of r,
      ae_method = rq_method r, ae_status = 403, ae_client_ip = ClientIP r, ae_user_agent = UserAgent r\<rparr>"

definition versionDenyGate :: "'b gate" where
  "versionDenyGate d r res pkg version m =
     (if pkg = [] \<or> version = [] then (None, m)
      else let repo = r_name (re_repo res) in
        case IsVersionDenied (mg_store m) repo pkg version of
          Inl err \<Rightarrow> (Some (http_Error ''deny check failed'' 503), m)
        | Inr denied \<Rightarrow>
            if \<not> denied then (None, m)
            else let mark = ''deny'' @ nul @ repo @ nul @ pkg @ nul @ version;
                     m1 = (case neg_has (dp_now d) mark (mg_marks m) of
                             (True, mk) \<Rightarrow> m\<lparr>mg_marks := mk\<rparr>
                           | (False, mk) \<Rightarrow>
                               record_event d (gate_event r repo EventDenyBlock (pkg @ ''@'' @ version))
                                 (m\<lparr>mg_marks := neg_set (dp_now d) mark pendingMarkTTL mk\<rparr>))
                 in (Some (http_Error (''version denied: '' @ pkg @ ''@'' @ version) 403),
                     count (DenyBlocked repo) m1))"

text \<open>Recording demand for an unapproved package, at most once per mark.\<close>

definition request_approval :: "'b deps \<Rightarrow> request \<Rightarrow> resolved \<Rightarrow> string \<Rightarrow> string \<Rightarrow> 'b manager \<Rightarrow> 'b manager" where
  "request_approval d r res pkg version m =
     (let repo = r_name (re_repo res); mark = repo @ nul @ pkg
      in case neg_has (dp_now d) mark (mg_marks m) of
           (True, mk) \<Rightarrow> m\<lparr>mg_marks := mk\<rparr>
         | (False, mk) \<Rightarrow>
             let m1 = m\<lparr>mg_marks := neg_set (dp_now d) mark pendingMarkTTL mk\<rparr>;
                 m2 = enqueueScan d (osvEcosystem (r_format (re_repo res))) pkg version m1
             in case UpsertPendingApproval (dp_now d) repo pkg (username_of r) version (mg_store m2) of
                  (Inl uerr, st) \<Rightarrow> set_store st m2
                | (Inr created, st) \<Rightarrow>
                    let m3 = set_store st m2 in
                    if \<not> created then m3
                    else let m4 = record_event d (gate_event r repo EventApprovalRequest pkg) m3
                         in if dp_notifier d
                            then count (OnApproval repo pkg version (username_of r)
                                          (c_notify_receivers (re_cfg res))) m4
                            else m4)"

definition approvalGate :: "'b gate" where
  "approvalGate d r res pkg version m =
     (if r_type (re_repo res) \<noteq> TypeProxy then (None, m)
      else if \<not> is_read r then (None, m)
      else case versionDenyGate d r res pkg version m of
        (Some ops, m1) \<Rightarrow> (Some ops, m1)
      | (None, m1) \<Rightarrow>
          let acfg = c_approval (re_cfg res); repo = r_name (re_repo res) in
          if \<not> apc_enabled acfg then (None, m1)
          else if pkg = [] then (None, m1)
          else if list_ex (\<lambda>pat. Match pat pkg = Some True) (apc_auto_approve acfg) then (None, m1)
          else let mode = EffectiveMode acfg; lookup = GetApprovalStatus (mg_store m1) repo pkg in
            if (case lookup of Inl err \<Rightarrow> err \<noteq> ErrNotFound | Inr st \<Rightarrow> False) then
              (if mode = ModeEnforce then (Some (http_Error ''approval check failed'' 503), m1)
               else (None, m1))
            else if lookup = Inr ApprovalApproved then (None, m1)
            else let m2 = count (ApprovalBlocked repo mode) (request_approval d r res pkg version m1)
                 in if mode = ModeAudit then (None, m2)
                    else (Some (http_Error (''package pending approval: '' @ pkg) 403), m2))"

definition allIgnored :: "string list \<Rightarrow> string list \<Rightarrow> bool" where
  "allIgnored ids ignore =
     (if length ignore = 0 then False else list_all (\<lambda>i. i \<in> set ignore) ids)"

definition vulnGate :: "'b gate" where
  "vulnGate d r res pkg version m =
     (if dp_scanner d = None \<or> r_type (re_repo res) \<noteq> TypeProxy then (None, m)
      else if \<not> is_read r then (None, m)
      else let cfg = c_vuln (re_cfg res); repo = r_name (re_repo res);
               eco = osvEcosystem (r_format (re_repo res)) in
        if \<not> vp_enabled cfg \<or> pkg = [] \<or> version = [] then (None, m)
        else if eco = [] then (None, m)
        else case GetVulnScan (mg_store m) eco pkg version of
          Inl err \<Rightarrow>
            if err = ErrNotFound then
              (let m1 = enqueueScan d eco pkg version m
               in if vuln_EffectiveAction cfg = VulnActionBlock \<and> vp_block_unscanned cfg
                  then (Some (http_Error (''package pending vulnerability scan: '' @ pkg) 403), m1)
                  else (None, m1))
            else (None, m)
        | Inr scan \<Rightarrow>
            if length (vs_vuln_ids scan) = 0 \<or> allIgnored (vs_vuln_ids scan) (vp_ignore cfg) then (None, m)
            else if ParseSeverity (vs_max_severity scan) < ParseSeverity (EffectiveThreshold cfg) then (None, m)
            else let action = vuln_EffectiveAction cfg; m1 = count (VulnBlocked repo action) m
                 in if action = VulnActionAudit \<or> action = VulnActionWarn then (None, m1)
                    else (Some (http_Error (''blocked: known vulnerabilities ('' @ vs_max_severity scan @
                                  '') in '' @ pkg @ ''@'' @ version) 403),
                          record_event d (gate_event r repo EventVulnBlock (pkg @ ''@'' @ version)) m1))"

definition lowerSet :: "string list \<Rightarrow> string list" where
  "lowerSet items = map to_lower (filter (\<lambda>it. it \<noteq> []) (map trim_space items))"

text \<open>\<open>None\<close> when the policy is kept, otherwise the reason; the loops stop at the first violation.\<close>

definition licenseViolation :: "string list \<Rightarrow> string list \<Rightarrow> string list \<Rightarrow> string option" where
  "licenseViolation licenses deny allow =
     (case List.find (\<lambda>l. to_lower l \<in> set (lowerSet deny)) licenses of
        Some l \<Rightarrow> Some (''denied license '' @ l)
      | None \<Rightarrow>
          if 0 < length allow \<and> 0 < length licenses then
            (case List.find (\<lambda>l. to_lower l \<notin> set (lowerSet allow)) licenses of
               Some l \<Rightarrow> Some (''license '' @ l @ '' not in allow list'')
             | None \<Rightarrow> None)
          else None)"

definition licenseGate :: "'b gate" where
  "licenseGate d r res pkg version m =
     (if dp_resolver d = None \<or> r_type (re_repo res) \<noteq> TypeProxy then (None, m)
      else if \<not> is_read r then (None, m)
      else let cfg = c_license (re_cfg res); repo = r_name (re_repo res);
               system = depsDevSystem (r_format (re_repo res)) in
        if \<not> lp_enabled cfg \<or> pkg = [] \<or> version = [] then (None, m)
        else if system = [] then (None, m)
        else case GetLicenseScan (mg_store m) system pkg version of
          Inl err \<Rightarrow>
            if err = ErrNotFound then
              (let m1 = enqueueResolve d system pkg version m
               in if license_EffectiveAction cfg = VulnActionBlock \<and> lp_block_unresolved cfg
                  then (Some (http_Error (''package pending license resolution: '' @ pkg) 403), m1)
                  else (None, m1))
            else (None, m)
        | Inr scan \<Rightarrow>
            (case licenseViolation (ls_licenses scan) (lp_deny cfg) (lp_allow cfg) of
               None \<Rightarrow> (None, m)
             | Some reason \<Rightarrow>
                 let action = license_EffectiveAction cfg; m1 = count (LicenseBlocked repo action) m
                 in if action = VulnActionAudit \<or> action = VulnActionWarn then (None, m1)
                    else (Some (http_Error (''blocked: license policy ('' @ reason @ '') for '' @
                                  pkg @ ''@'' @ version) 403),
                          record_event d (gate_event r repo EventLicenseBlock (pkg @ ''@'' @ version)) m1)))"

text \<open>The handlers call the gates one after the other and stop at the first refusal.\<close>

definition gate_seq :: "'b gate \<Rightarrow> 'b gate \<Rightarrow> 'b gate" where
  "gate_seq g h d r res pkg version m =
     (case g d r res pkg version m of
        (Some ops, m1) \<Rightarrow> (Some ops, m1)
      | (None, m1) \<Rightarrow> h d r res pkg version m1)"

definition run_gates :: "'b gate" where
  "run_gates = gate_seq approvalGate (gate_seq vulnGate licenseGate)"

section \<open>The contract of a gate\<close>

text \<open>What a gate may not touch: the cached artifacts and everything the engine keeps about them.\<close>

definition same_cache :: "'b manager \<Rightarrow> 'b manager \<Rightarrow> bool" where
  "same_cache m m' \<longleftrightarrow>
     en_blobs (mg_engine m') = en_blobs (mg_engine m) \<and> en_neg (mg_engine m') = en_neg (mg_engine m) \<and>
     en_cool (mg_engine m') = en_cool (mg_engine m) \<and> en_events (mg_engine m') = en_events (mg_engine m) \<and>
     st_artifacts (mg_store m') = st_artifacts (mg_store m) \<and> st_blobs (mg_store m') = st_blobs (mg_store m) \<and>
     st_repositories (mg_store m') = st_repositories (mg_store m)"

lemma same_cache_refl [simp]: "same_cache m m"
  by (simp add: same_cache_def)

lemma same_cache_trans: "same_cache a b \<Longrightarrow> same_cache b c \<Longrightarrow> same_cache a c"
  by (simp add: same_cache_def)

lemma same_cache_engine: "mg_engine m' = mg_engine m \<Longrightarrow> same_cache m m'"
  by (simp add: same_cache_def)

locale policy_gate =
  fixes gate :: "'b gate"
  assumes keeps_cache: "same_cache m (snd (gate d r res pkg version m))"
    and refuses: "fst (gate d r res pkg version m) = Some ops \<Longrightarrow> status_of ops \<in> {403, 503}"
    and only_proxy_reads:
      "r_type (re_repo res) \<noteq> TypeProxy \<or> \<not> is_read r \<Longrightarrow> gate d r res pkg version m = (None, m)"
begin

text \<open>A refusal is never a 404, which a group would take for a miss.\<close>

lemma never_a_miss: "fst (gate d r res pkg version m) = Some ops \<Longrightarrow> status_of ops \<noteq> 404"
  using refuses by fastforce

lemma blocks_only_proxy: "fst (gate d r res pkg version m) = Some ops \<Longrightarrow> r_type (re_repo res) = TypeProxy \<and> is_read r"
  using only_proxy_reads by (metis fst_conv option.distinct(1))

end


lemma policy_gate_seq:
  assumes "policy_gate g" and "policy_gate h"
  shows "policy_gate (gate_seq g h)"
proof (unfold_locales, goal_cases)
  case (1 m d r res pkg version)
  show ?case
    using policy_gate.keeps_cache [OF assms(1), of m d r res pkg version]
      policy_gate.keeps_cache [OF assms(2)] same_cache_trans
    by (fastforce simp: gate_seq_def split: prod.split option.split)
next
  case (2 d r res pkg version m ops)
  then show ?case
    using policy_gate.refuses [OF assms(1), of d r res pkg version m] policy_gate.refuses [OF assms(2)]
    by (auto simp: gate_seq_def split: prod.splits option.splits)
next
  case (3 res r d pkg version m)
  then show ?case
    using policy_gate.only_proxy_reads [OF assms(1)] policy_gate.only_proxy_reads [OF assms(2)]
    by (simp add: gate_seq_def)
qed

section \<open>The gates keep it\<close>

lemma record_event_engine [simp]: "mg_engine (record_event d ev m) = mg_engine m"
  by (simp add: record_event_def split: option.split)

lemma count_engine [simp]: "mg_engine (count ev m) = mg_engine m"
  by (simp add: count_def)

lemma marks_engine [simp]: "mg_engine (m\<lparr>mg_marks := mk\<rparr>) = mg_engine m"
  by simp

lemma versionDenyGate_engine [simp]: "mg_engine (snd (versionDenyGate d r res pkg v m)) = mg_engine m"
  by (simp add: versionDenyGate_def Let_def split: sum.split prod.split bool.split)

lemma UpsertPendingApproval_others:
  "UpsertPendingApproval now repo pkg user v st = (x, st') \<Longrightarrow>
   st_artifacts st' = st_artifacts st \<and> st_blobs st' = st_blobs st \<and> st_repositories st' = st_repositories st"
  by (auto simp: UpsertPendingApproval_def put_approval_def Let_def split: if_splits option.splits)

lemma same_cache_set_store:
  "st_artifacts st = st_artifacts (mg_store m) \<Longrightarrow> st_blobs st = st_blobs (mg_store m) \<Longrightarrow>
   st_repositories st = st_repositories (mg_store m) \<Longrightarrow> same_cache m (set_store st m)"
  by (simp add: same_cache_def set_store_def)

lemma same_cache_upsert:
  assumes "UpsertPendingApproval now repo pkg user v (mg_store m) = (x, st)" and "mg_engine m0 = mg_engine m"
  shows "same_cache m0 (set_store st m)"
  using UpsertPendingApproval_others [OF assms(1)] same_cache_set_store [of st m] assms(2)
  by (simp add: same_cache_def)

lemma same_cache_via: "same_cache m m1 \<Longrightarrow> mg_engine m2 = mg_engine m1 \<Longrightarrow> same_cache m m2"
  by (simp add: same_cache_def)

lemma request_approval_cache: "same_cache m (request_approval d r res pkg v m)"
proof -
  obtain h mk where h: "neg_has (dp_now d) (r_name (re_repo res) @ nul @ pkg) (mg_marks m) = (h, mk)"
    by fastforce
  let ?m2 = "enqueueScan d (osvEcosystem (r_format (re_repo res))) pkg v
    (m\<lparr>mg_marks := neg_set (dp_now d) (r_name (re_repo res) @ nul @ pkg) pendingMarkTTL mk\<rparr>)"
  obtain x st where u: "UpsertPendingApproval (dp_now d) (r_name (re_repo res)) pkg (username_of r) v
      (mg_store ?m2) = (x, st)" by fastforce
  have "same_cache m (set_store st ?m2)" using same_cache_upsert [OF u] by simp
  then show ?thesis
    using h u by (auto simp: request_approval_def Let_def intro: same_cache_engine same_cache_via
        split: sum.split bool.split)
qed

lemma approvalGate_cache: "same_cache m (snd (approvalGate d r res pkg v m))"
proof (cases "versionDenyGate d r res pkg v m")
  case (Pair x m1)
  have "mg_engine m1 = mg_engine m" using versionDenyGate_engine [of d r res pkg v m] Pair by simp
  then have "same_cache m m1" and "same_cache m (request_approval d r res pkg v m1)"
    using request_approval_cache [of m1 d r res pkg v] by (simp_all add: same_cache_def)
  then show ?thesis
    using Pair by (auto simp: approvalGate_def Let_def intro: same_cache_via split: option.split)
qed

lemma versionDenyGate_refuses:
  "fst (versionDenyGate d r res pkg v m) = Some ops \<Longrightarrow> status_of ops \<in> {403, 503}"
  by (auto simp: versionDenyGate_def Let_def split: if_splits sum.splits)

interpretation approval: policy_gate approvalGate
proof (unfold_locales, goal_cases)
  case (2 d r res pkg v m ops)
  then show ?case
    using versionDenyGate_refuses [of d r res pkg v m]
    by (auto simp: approvalGate_def Let_def split: if_splits prod.splits option.splits)
next
  case (3 res r d pkg v m)
  then show ?case by (auto simp: approvalGate_def)
qed (rule approvalGate_cache)

interpretation vuln: policy_gate vulnGate
proof (unfold_locales, goal_cases)
  case (1 m d r res pkg v)
  show ?case by (rule same_cache_engine) (simp add: vulnGate_def Let_def split: sum.split)
next
  case (2 d r res pkg v m ops)
  then show ?case by (auto simp: vulnGate_def Let_def split: if_splits sum.splits)
qed (auto simp: vulnGate_def)

interpretation license: policy_gate licenseGate
proof (unfold_locales, goal_cases)
  case (1 m d r res pkg v)
  show ?case by (rule same_cache_engine) (simp add: licenseGate_def Let_def split: sum.split option.split)
next
  case (2 d r res pkg v m ops)
  then show ?case by (auto simp: licenseGate_def Let_def split: if_splits sum.splits option.splits)
qed (auto simp: licenseGate_def)

interpretation gates: policy_gate run_gates
  unfolding run_gates_def
  by (intro policy_gate_seq approval.policy_gate_axioms vuln.policy_gate_axioms license.policy_gate_axioms)

section \<open>When the gates refuse\<close>

definition auto_approved :: "approval_config \<Rightarrow> string \<Rightarrow> bool" where
  "auto_approved a pkg \<longleftrightarrow> (\<exists>pat \<in> set (apc_auto_approve a). Match pat pkg = Some True)"

lemma versionDenyGate_None:
  "versionDenyGate d r res pkg v m = (None, m1) \<Longrightarrow>
   m1 = m \<and> (pkg = [] \<or> v = [] \<or> IsVersionDenied (mg_store m) (r_name (re_repo res)) pkg v = Inr False)"
  by (auto simp: versionDenyGate_def Let_def split: if_splits sum.splits)

lemma versionDenyGate_Some:
  "versionDenyGate d r res pkg v m = (Some ops, m1) \<Longrightarrow>
   pkg \<noteq> [] \<and> v \<noteq> [] \<and> IsVersionDenied (mg_store m) (r_name (re_repo res)) pkg v \<noteq> Inr False"
  by (auto simp: versionDenyGate_def Let_def split: if_splits sum.splits)

lemma approvalGate_after_deny:
  assumes "versionDenyGate d r res pkg v m = (None, m)" and "Validate (re_cfg res) = None"
    and "r_type (re_repo res) = TypeProxy" and "is_read r"
  shows "fst (approvalGate d r res pkg v m) \<noteq> None \<longleftrightarrow>
    pkg \<noteq> [] \<and> apc_enabled (c_approval (re_cfg res)) \<and> \<not> auto_approved (c_approval (re_cfg res)) pkg \<and>
    EffectiveMode (c_approval (re_cfg res)) = ModeEnforce \<and>
    GetApprovalStatus (mg_store m) (r_name (re_repo res)) pkg \<noteq> Inr ApprovalApproved"
proof -
  have "list_ex (\<lambda>pat. Match pat pkg = Some True) (apc_auto_approve (c_approval (re_cfg res))) =
      auto_approved (c_approval (re_cfg res)) pkg" by (auto simp: auto_approved_def list_ex_iff)
  then show ?thesis
    using Validate_modes(1) [OF assms(2)] assms(1,3,4)
    by (auto simp: approvalGate_def Let_def split: sum.splits)
qed

lemma approvalGate_decides:
  assumes "Validate (re_cfg res) = None"
  shows "fst (approvalGate d r res pkg v m) \<noteq> None \<longleftrightarrow>
    r_type (re_repo res) = TypeProxy \<and> is_read r \<and> pkg \<noteq> [] \<and>
    (v \<noteq> [] \<and> IsVersionDenied (mg_store m) (r_name (re_repo res)) pkg v \<noteq> Inr False \<or>
     apc_enabled (c_approval (re_cfg res)) \<and> \<not> auto_approved (c_approval (re_cfg res)) pkg \<and>
     EffectiveMode (c_approval (re_cfg res)) = ModeEnforce \<and>
     GetApprovalStatus (mg_store m) (r_name (re_repo res)) pkg \<noteq> Inr ApprovalApproved)"
proof (cases "r_type (re_repo res) = TypeProxy \<and> is_read r")
  case True
  obtain x m1 where dg: "versionDenyGate d r res pkg v m = (x, m1)" by fastforce
  show ?thesis
  proof (cases x)
    case None
    then have "m1 = m" using versionDenyGate_None dg by blast
    with None dg True show ?thesis
      using approvalGate_after_deny [OF _ assms, of d r pkg v m] versionDenyGate_None [of d r res pkg v m m1] by auto
  next
    case (Some ops)
    then show ?thesis
      using dg True versionDenyGate_Some [of d r res pkg v m ops m1] by (simp add: approvalGate_def)
  qed
next
  case False
  then have "approvalGate d r res pkg v m = (None, m)" by (intro approval.only_proxy_reads) blast
  with False show ?thesis by auto
qed

text \<open>
  The approval gate refuses exactly what it must, on a configuration that passed validation: a
  read of a proxy repository whose package is known and whose version is denied or cannot be checked
  against the deny list, approved or not and whatever the approval settings; and, with approval
  enabled and enforced, a package that no auto-approve pattern matches and whose status is not
  approved or cannot be read. In audit mode, on writes, and on hosted repositories it lets through
  whatever the deny list lets through.
\<close>

theorem approvalGate_blocks_iff:
  assumes "Validate (re_cfg res) = None"
  shows "fst (approvalGate d r res pkg v m) \<noteq> None \<longleftrightarrow>
    r_type (re_repo res) = TypeProxy \<and> is_read r \<and> pkg \<noteq> [] \<and>
    (v \<noteq> [] \<and> IsVersionDenied (mg_store m) (r_name (re_repo res)) pkg v \<noteq> Inr False \<or>
     apc_enabled (c_approval (re_cfg res)) \<and> \<not> auto_approved (c_approval (re_cfg res)) pkg \<and>
     EffectiveMode (c_approval (re_cfg res)) = ModeEnforce \<and>
     GetApprovalStatus (mg_store m) (r_name (re_repo res)) pkg \<noteq> Inr ApprovalApproved)"
  by (rule approvalGate_decides [OF assms])

definition quarantine_res :: resolved where
  "quarantine_res = \<lparr>re_repo = demo_repo\<lparr>r_type := TypeProxy\<rparr>,
     re_cfg = Default\<lparr>c_approval := \<lparr>apc_enabled = True, apc_mode = [], apc_auto_approve = [''org.ok:*'']\<rparr>\<rparr>,
     re_path = []\<rparr>"

theorem approvalGate_blocks_iff_witness:
  "fst (approvalGate (demo_deps 9) (demo_get []) quarantine_res ''org.evil:lib'' ''1'' (demo_manager demo_start)) \<noteq> None \<and>
   fst (approvalGate (demo_deps 9) (demo_get []) quarantine_res ''org.ok:lib'' ''1'' (demo_manager demo_start)) = None"
proof -
  have V: "Validate (re_cfg quarantine_res) = None" by code_simp
  have a: "auto_approved (c_approval (re_cfg quarantine_res)) ''org.ok:lib''"
    "\<not> auto_approved (c_approval (re_cfg quarantine_res)) ''org.evil:lib''" by code_simp+
  have b: "IsVersionDenied (mg_store (demo_manager demo_start)) (r_name (re_repo quarantine_res)) ''org.ok:lib'' ''1'' = Inr False"
    by code_simp
  have c: "r_type (re_repo quarantine_res) = TypeProxy" "is_read (demo_get [])"
    "apc_enabled (c_approval (re_cfg quarantine_res))"
    "EffectiveMode (c_approval (re_cfg quarantine_res)) = ModeEnforce" by code_simp+
  have e: "GetApprovalStatus (mg_store (demo_manager demo_start)) (r_name (re_repo quarantine_res)) ''org.evil:lib'' =
      Inl ErrNotFound" by code_simp
  show ?thesis
    using approvalGate_blocks_iff [OF V, of "demo_deps 9" "demo_get []" "''org.evil:lib''" "''1''" "demo_manager demo_start"]
      approvalGate_blocks_iff [OF V, of "demo_deps 9" "demo_get []" "''org.ok:lib''" "''1''" "demo_manager demo_start"]
      a b c e by auto
qed

text \<open>
  The vulnerability gate refuses exactly a read of a known version from a proxy repository whose
  policy is on and blocking, when the coordinate was scanned with a worst severity at or above the
  threshold and not every advisory is ignored, or was never scanned and unscanned packages are
  refused. A failed lookup and the warn and audit actions let the request through.
\<close>

theorem vulnGate_blocks_iff:
  assumes "Validate (re_cfg res) = None" and "dp_scanner d \<noteq> None"
    and "osvEcosystem (r_format (re_repo res)) = eco" and "eco \<noteq> []" and "c_vuln (re_cfg res) = cfg"
  shows "fst (vulnGate d r res pkg v m) \<noteq> None \<longleftrightarrow>
    r_type (re_repo res) = TypeProxy \<and> is_read r \<and> pkg \<noteq> [] \<and> v \<noteq> [] \<and>
    vp_enabled cfg \<and> vuln_EffectiveAction cfg = VulnActionBlock \<and>
    (case GetVulnScan (mg_store m) eco pkg v of
       Inl err \<Rightarrow> err = ErrNotFound \<and> vp_block_unscanned cfg
     | Inr scan \<Rightarrow> (\<exists>i \<in> set (vs_vuln_ids scan). i \<notin> set (vp_ignore cfg)) \<and>
                   ParseSeverity (EffectiveThreshold cfg) \<le> ParseSeverity (vs_max_severity scan))"
proof -
  have ig: "ids = [] \<or> allIgnored ids ign \<longleftrightarrow> \<not> (\<exists>i \<in> set ids. i \<notin> set ign)" for ids ign
    by (cases ids) (auto simp: allIgnored_def list_all_iff)
  show ?thesis
    using Validate_modes(2) [OF assms(1)] assms(2-5)
    by (cases "GetVulnScan (mg_store m) eco pkg v")
      (simp_all add: vulnGate_def Let_def ig not_less, auto)
qed


definition scanned_store :: "string list \<Rightarrow> string \<Rightarrow> store" where
  "scanned_store ids worst = snd (UpsertVulnScan 1
     \<lparr>vs_ecosystem = ''Maven'', vs_package = ''g:a'', vs_version = ''1'', vs_max_severity = worst,
      vs_vuln_ids = ids, vs_severity_counts = [(''critical'', 1), (''low'', 1)],
      vs_advisories = [(''CVE-1'', ''critical'', ''9.8''), (''CVE-2'', ''low'', ''2.0'')],
      vs_duration_ms = 3, vs_source = [], vs_scanned_at = 0\<rparr> (en_store demo_start))"

definition vuln_res :: "string list \<Rightarrow> resolved" where
  "vuln_res ign = \<lparr>re_repo = demo_repo\<lparr>r_type := TypeProxy\<rparr>,
     re_cfg = Default\<lparr>c_vuln := \<lparr>vp_enabled = True, vp_threshold = ''high'', vp_action = ''block'',
       vp_ignore = ign, vp_block_unscanned = False\<rparr>\<rparr>, re_path = []\<rparr>"

definition scanned_manager :: "string list \<Rightarrow> string \<Rightarrow> fs manager" where
  "scanned_manager ids worst = set_store (scanned_store ids worst) (demo_manager demo_start)"

theorem vulnGate_blocks_iff_witness:
  "fst (vulnGate (demo_deps 9) (demo_get []) (vuln_res []) ''g:a'' ''1'' (scanned_manager [''CVE-1''] ''critical'')) \<noteq> None"
proof -
  have V: "Validate (re_cfg (vuln_res [])) = None" by code_simp
  have s: "dp_scanner (demo_deps 9) \<noteq> None" by (simp add: demo_deps_def)
  have e: "osvEcosystem (r_format (re_repo (vuln_res []))) = ''Maven''" by code_simp
  obtain scan where g: "GetVulnScan (mg_store (scanned_manager [''CVE-1''] ''critical'')) ''Maven'' ''g:a'' ''1'' = Inr scan"
    and scan: "vs_vuln_ids scan = [''CVE-1'']" "vs_max_severity scan = ''critical''"
  proof -
    let ?g = "GetVulnScan (mg_store (scanned_manager [''CVE-1''] ''critical'')) ''Maven'' ''g:a'' ''1''"
    have "isl ?g = False" "vs_vuln_ids (projr ?g) = [''CVE-1'']" "vs_max_severity (projr ?g) = ''critical''"
      by code_simp+
    then show ?thesis using that [of "projr ?g"] by (metis sum.collapse(2))
  qed
  have c: "r_type (re_repo (vuln_res [])) = TypeProxy" "is_read (demo_get [])"
    "vp_enabled (c_vuln (re_cfg (vuln_res [])))" "vp_ignore (c_vuln (re_cfg (vuln_res []))) = []"
    "vuln_EffectiveAction (c_vuln (re_cfg (vuln_res []))) = VulnActionBlock"
    "ParseSeverity (EffectiveThreshold (c_vuln (re_cfg (vuln_res [])))) \<le> ParseSeverity ''critical''"
    by code_simp+
  show ?thesis
    using vulnGate_blocks_iff [OF V s e _ refl, of "demo_get []" "''g:a''" "''1''" "scanned_manager [''CVE-1''] ''critical''"]
      c scan g by simp
qed

text \<open>
  The worst severity is that of all advisories, the ignored ones included: as long as one
  advisory of a coordinate is not ignored, the ignore list has no effect on the decision. A
  coordinate whose one critical advisory is ignored is refused because of its other advisory, however
  mild.
\<close>

theorem vulnGate_ignores_ignore_list:
  assumes "GetVulnScan (mg_store m) (osvEcosystem (r_format repo)) pkg v = Inr scan"
    and "\<exists>i \<in> set (vs_vuln_ids scan). i \<notin> set (vp_ignore (c_vuln cfg))"
  shows "vulnGate d r \<lparr>re_repo = repo, re_cfg = cfg, re_path = p\<rparr> pkg v m =
         vulnGate d r \<lparr>re_repo = repo, re_cfg = cfg\<lparr>c_vuln := (c_vuln cfg)\<lparr>vp_ignore := []\<rparr>\<rparr>, re_path = p\<rparr> pkg v m"
proof -
  have "vs_vuln_ids scan \<noteq> []" using assms(2) by auto
  moreover have "\<not> allIgnored (vs_vuln_ids scan) (vp_ignore (c_vuln cfg))"
    using assms(2) by (auto simp: allIgnored_def list_all_iff)
  moreover have "\<not> allIgnored (vs_vuln_ids scan) []" by (simp add: allIgnored_def)
  ultimately show ?thesis
    using assms(1) by (simp add: vulnGate_def Let_def vuln_EffectiveAction_def EffectiveThreshold_def)
qed

theorem vulnGate_ignores_ignore_list_witness:
  "fst (vulnGate (demo_deps 9) (demo_get []) (vuln_res [''CVE-1'']) ''g:a'' ''1''
     (scanned_manager [''CVE-1'', ''CVE-2''] ''critical'')) \<noteq> None"
proof -
  let ?m = "scanned_manager [''CVE-1'', ''CVE-2''] ''critical''" and ?res = "vuln_res [''CVE-1'']"
  let ?g = "GetVulnScan (mg_store ?m) (osvEcosystem (r_format (re_repo ?res))) ''g:a'' ''1''"
  have "isl ?g = False" and i: "vs_vuln_ids (projr ?g) = [''CVE-1'', ''CVE-2'']" by code_simp+
  then have g: "?g = Inr (projr ?g)" by (metis sum.collapse(2))
  have "vp_ignore (c_vuln (re_cfg ?res)) = [''CVE-1'']" by code_simp
  with i have "\<exists>i \<in> set (vs_vuln_ids (projr ?g)). i \<notin> set (vp_ignore (c_vuln (re_cfg ?res)))" by simp
  from vulnGate_ignores_ignore_list [OF g this, of "demo_deps 9" "demo_get []" "[]"]
  have "vulnGate (demo_deps 9) (demo_get []) ?res ''g:a'' ''1'' ?m =
      vulnGate (demo_deps 9) (demo_get []) (vuln_res []) ''g:a'' ''1'' ?m"
    by (simp add: vuln_res_def)
  moreover have "fst (vulnGate (demo_deps 9) (demo_get []) (vuln_res []) ''g:a'' ''1'' ?m) \<noteq> None"
    by code_simp
  ultimately show ?thesis by simp
qed

text \<open>
  The license policy is the one described: a coordinate violates it exactly when one of its
  licenses is on the deny list, or there is an allow list and one of them is not on it; list entries
  are trimmed, blank ones do not count, case does not matter, and a coordinate without a resolved
  license violates nothing.
\<close>

theorem licenseViolation_iff:
  "licenseViolation licenses deny allow \<noteq> None \<longleftrightarrow>
   (\<exists>l \<in> set licenses. \<exists>x \<in> set deny. trim_space x \<noteq> [] \<and> to_lower (trim_space x) = to_lower l) \<or>
   (allow \<noteq> [] \<and> (\<exists>l \<in> set licenses. \<forall>x \<in> set allow. trim_space x = [] \<or> to_lower (trim_space x) \<noteq> to_lower l))"
proof -
  have mem: "to_lower l \<in> set (lowerSet xs) \<longleftrightarrow>
      (\<exists>x \<in> set xs. trim_space x \<noteq> [] \<and> to_lower (trim_space x) = to_lower l)" for l xs
    unfolding lowerSet_def set_map set_filter by (fastforce simp: image_iff)
  have f: "List.find P ys = None \<longleftrightarrow> \<not> (\<exists>y \<in> set ys. P y)" for P and ys :: "string list"
    by (auto simp: find_None_iff)
  show ?thesis
  proof (cases "List.find (\<lambda>l. to_lower l \<in> set (lowerSet deny)) licenses")
    case None
    then have "\<not> (\<exists>l \<in> set licenses. \<exists>x \<in> set deny. trim_space x \<noteq> [] \<and> to_lower (trim_space x) = to_lower l)"
      unfolding f mem by simp
    moreover have "licenseViolation licenses deny allow \<noteq> None \<longleftrightarrow>
        allow \<noteq> [] \<and> licenses \<noteq> [] \<and> List.find (\<lambda>l. to_lower l \<notin> set (lowerSet allow)) licenses \<noteq> None"
      using None by (simp add: licenseViolation_def split: option.split)
    ultimately show ?thesis unfolding f mem by auto
  next
    case (Some l)
    then have "\<exists>l \<in> set licenses. \<exists>x \<in> set deny. trim_space x \<noteq> [] \<and> to_lower (trim_space x) = to_lower l"
      using f [of "\<lambda>l. to_lower l \<in> set (lowerSet deny)" licenses] unfolding mem by auto
    with Some show ?thesis by (simp add: licenseViolation_def)
  qed
qed

theorem licenseViolation_iff_witness:
  "licenseViolation [''MIT''] [''GPL-3.0''] ['' mit ''] = None \<and>
   licenseViolation [''MIT'', ''GPL-3.0''] ['' gpl-3.0''] [] \<noteq> None"
proof
  have "\<not> licenseViolation [''MIT''] [''GPL-3.0''] ['' mit ''] \<noteq> None"
    unfolding licenseViolation_iff by code_simp
  then show "licenseViolation [''MIT''] [''GPL-3.0''] ['' mit ''] = None" by simp
  show "licenseViolation [''MIT'', ''GPL-3.0''] ['' gpl-3.0''] [] \<noteq> None"
    unfolding licenseViolation_iff by code_simp
qed

end
