(* ===== verification/Handlers.thy ===== *)
theory Handlers
  imports Gates
begin

text \<open>
  The format handlers for Maven, Go modules and Cargo (\<^verbatim>\<open>handleMaven\<close>, \<^verbatim>\<open>handleGo\<close>,
  \<^verbatim>\<open>handleCargo\<close>). \<open>format_handler\<close> is the contract the handlers of all formats with one coordinate
  per path keep: a request that does not resolve, is not authorized or is stopped by a gate is answered
  with an error and leaves the cache alone.
\<close>

section \<open>Serving and uploading\<close>

definition file_spec ::
  "'b deps \<Rightarrow> resolved \<Rightarrow> kind \<Rightarrow> string \<Rightarrow> string \<Rightarrow> fetchSpec" where
  "file_spec d res k version contentType =
     \<lparr>sp_repo = re_repo res, sp_cfg = re_cfg res, sp_path = re_path res,
      sp_upstreamURL = joinUpstream (r_upstream_url (re_repo res)) (re_path res),
      sp_untrustedURL = False, sp_kind = k, sp_version = version, sp_contentType = contentType,
      sp_extractPublished = Some (lastModified (ev_parse_date (dp_env d)))\<rparr>"

definition method_not_allowed :: "wop list" where
  "method_not_allowed = http_Error ''method not allowed'' 405"

definition upload_refused :: "wop list" where
  "upload_refused = http_Error ''uploads are only allowed on local repositories'' 405"

text \<open>\<^verbatim>\<open>m.scanStored(...)\<close> and \<^verbatim>\<open>m.resolveStored(...)\<close> after an upload.\<close>

definition stored_hooks :: "'b deps \<Rightarrow> repository \<Rightarrow> string \<Rightarrow> 'b manager \<Rightarrow> 'b manager" where
  "stored_hooks d repo p m = resolveStored d repo p (scanStored d repo p m)"

definition serve_or_put ::
  "'b deps \<Rightarrow> request \<Rightarrow> resolved \<Rightarrow> kind \<Rightarrow> string \<Rightarrow> string \<Rightarrow> 'b manager \<Rightarrow> wop list \<times> 'b manager" where
  "serve_or_put d r res k version contentType m =
     (if rq_method r = MethodGet \<or> rq_method r = MethodHead then
        with_engine d (serve (dp_env d) r (file_spec d res k version contentType)) m
      else if rq_method r = MethodPut then
        (if r_type (re_repo res) \<noteq> TypeHosted then (upload_refused, m)
         else case with_engine d (engine_put (dp_env d) (re_repo res) (re_path res) version contentType
                                    None (rq_body r)) m of
                (Inl err, m1) \<Rightarrow> (http_Error ''store failed'' 500, m1)
              | (Inr u, m1) \<Rightarrow> ([WriteHeader 201], stored_hooks d (re_repo res) (re_path res) m1))
      else (method_not_allowed, m))"

section \<open>The handlers\<close>

definition handleMaven :: "'b deps \<Rightarrow> 'b handler" where
  "handleMaven d r m =
     (case resolve d r FormatMaven m of
        (Inl ops, m1) \<Rightarrow> (ops, m1)
      | (Inr res, m1) \<Rightarrow>
          (case authorize d r (r_name (re_repo res)) (actionForMethod (rq_method r)) of
             Some ops \<Rightarrow> (ops, m1)
           | None \<Rightarrow>
               (case run_gates d r res (mavenPackage (re_path res)) (mavenVersion (re_path res)) m1 of
                  (Some ops, m2) \<Rightarrow> (ops, m2)
                | (None, m2) \<Rightarrow>
                    serve_or_put d r res (mavenKind (re_path res)) (mavenVersion (re_path res))
                      (mavenContentType (re_path res)) m2)))"

definition handleGo :: "'b deps \<Rightarrow> 'b handler" where
  "handleGo d r m =
     (case resolve d r FormatGo m of
        (Inl ops, m1) \<Rightarrow> (ops, m1)
      | (Inr res, m1) \<Rightarrow>
          (case authorize d r (r_name (re_repo res)) (actionForMethod (rq_method r)) of
             Some ops \<Rightarrow> (ops, m1)
           | None \<Rightarrow>
               (case run_gates d r res (goPackage (re_path res)) (goVersion (re_path res)) m1 of
                  (Some ops, m2) \<Rightarrow> (ops, m2)
                | (None, m2) \<Rightarrow>
                    serve_or_put d r res (goKind (re_path res)) (goVersion (re_path res))
                      (goContentType (re_path res)) m2)))"

definition quote :: string where "quote = [CHR 0x22]"

definition cargoConfig :: "'b deps \<Rightarrow> request \<Rightarrow> resolved \<Rightarrow> wop list" where
  "cargoConfig d r res =
     (let base = externalBase d r @ ''/cargo/'' @ r_name (re_repo res);
          hs = [SetHeader ''Content-Type'' ''application/json'']
      in if rq_method r = MethodHead then hs @ [WriteHeader 200]
         else hs @ [WriteBytes (''{'' @ quote @ ''dl'' @ quote @ '':'' @ quote @ base @
                      ''/api/v1/crates/{crate}/{version}/download'' @ quote @ '','' @ quote @ ''api'' @
                      quote @ '':'' @ quote @ base @ quote @ ''}'' @ [CHR 0x0A])])"

definition handleCargo :: "'b deps \<Rightarrow> 'b handler" where
  "handleCargo d r m =
     (case resolve d r FormatCargo m of
        (Inl ops, m1) \<Rightarrow> (ops, m1)
      | (Inr res, m1) \<Rightarrow>
          (case authorize d r (r_name (re_repo res)) (actionForMethod (rq_method r)) of
             Some ops \<Rightarrow> (ops, m1)
           | None \<Rightarrow>
               if re_path res = ''config.json'' \<and> (rq_method r = MethodGet \<or> rq_method r = MethodHead)
               then (cargoConfig d r res, m1)
               else (case run_gates d r res (cargoPackage (re_path res)) (cargoVersion (re_path res)) m1 of
                       (Some ops, m2) \<Rightarrow> (ops, m2)
                     | (None, m2) \<Rightarrow>
                         serve_or_put d r res (cargoKind (re_path res)) (cargoVersion (re_path res))
                           (cargoContentType (re_path res)) m2)))"

section \<open>The contract of a format handler\<close>

text \<open>The statuses of a refusal: bad request, no or wrong credentials, a gate, a failed check.\<close>

definition refusal :: "int \<Rightarrow> bool" where
  "refusal s \<longleftrightarrow> s \<in> {400, 401, 403, 503}"

lemma refusal_simps [simp]: "refusal 400" "refusal 401" "refusal 403" "refusal 503" "\<not> refusal 404" "\<not> refusal 200"
  by (simp_all add: refusal_def)

locale format_handler =
  fixes handle :: "'b deps \<Rightarrow> 'b handler"
    and fmt :: string
    and package version_of :: "string \<Rightarrow> string"
  assumes unauthorized: "resolve d r fmt m = (Inr res, m1) \<Longrightarrow>
      authorize d r (r_name (re_repo res)) (actionForMethod (rq_method r)) \<noteq> None \<Longrightarrow>
      refusal (status_of (fst (handle d r m))) \<and> snd (handle d r m) = m1"
    and gated: "resolve d r fmt m = (Inr res, m1) \<Longrightarrow>
      authorize d r (r_name (re_repo res)) (actionForMethod (rq_method r)) = None \<Longrightarrow>
      run_gates d r res (package (re_path res)) (version_of (re_path res)) m1 = (Some ops, m2) \<Longrightarrow>
      refusal (status_of (fst (handle d r m))) \<and> same_cache m1 (snd (handle d r m))"

lemma ipAllowed_engine: "ipAllowed r repo cfg m = (x, m1) \<Longrightarrow> mg_engine m1 = mg_engine m"
  by (auto simp: ipAllowed_def split: if_splits)

lemma resolveRepo_engine: "resolveRepo d r fmt m = (x, m1) \<Longrightarrow> mg_engine m1 = mg_engine m"
  using ipAllowed_engine by (fastforce simp: resolveRepo_def Let_def split: sum.splits if_splits prod.splits option.splits)

lemma resolve_engine: "resolve d r fmt m = (x, m1) \<Longrightarrow> mg_engine m1 = mg_engine m"
  using resolveRepo_engine by (fastforce simp: resolve_def split: sum.splits if_splits prod.splits)

lemma resolve_Inr:
  "resolve d r fmt m = (Inr res, m1) \<Longrightarrow>
   GetRepositoryByName (mg_store m) (rq_repo r) = Inr (re_repo res) \<and> r_format (re_repo res) = fmt \<and>
   \<not> r_disabled (re_repo res) \<and> Validate (re_cfg res) = None \<and> re_path res \<noteq> [] \<and> \<not> contains (re_path res) ''..''"
  by (auto simp: resolve_def resolveRepo_def Let_def dest: Parse_Validate
      split: sum.splits if_splits prod.splits option.splits)

lemma authorize_status: "authorize d r repo action = Some ops \<Longrightarrow> refusal (status_of ops)"
  by (auto simp: authorize_def refusal_def UnauthorizedBasic_def status_of_first http_Error_def split: option.splits if_splits)

lemma gate_status: "run_gates d r res pkg v m = (Some ops, m1) \<Longrightarrow> refusal (status_of ops)"
  using gates.refuses [of d r res pkg v m] by (auto simp: refusal_def)

lemma gate_cache: "run_gates d r res pkg v m = (x, m1) \<Longrightarrow> same_cache m m1"
  using gates.keeps_cache [of m d r res pkg v] by simp

lemma run_gates_approval:
  "fst (approvalGate d r res pkg v m) = Some ops \<Longrightarrow> \<exists>ops' m'. run_gates d r res pkg v m = (Some ops', m')"
  by (cases "approvalGate d r res pkg v m") (auto simp: run_gates_def gate_seq_def)

context format_handler
begin

text \<open>A package the approval gate stops is not served, whoever asks and however it is cached.\<close>

lemma quarantined:
  assumes "resolve d r fmt m = (Inr res, m1)"
    and "fst (approvalGate d r res (package (re_path res)) (version_of (re_path res)) m1) \<noteq> None"
  shows "refusal (status_of (fst (handle d r m))) \<and> same_cache m (snd (handle d r m))"
proof -
  have m1: "same_cache m m1" using resolve_engine [OF assms(1)] by (rule same_cache_engine)
  obtain ops m2 where "run_gates d r res (package (re_path res)) (version_of (re_path res)) m1 = (Some ops, m2)"
    using assms(2) run_gates_approval by blast
  then show ?thesis
    using gated [OF assms(1)] unauthorized [OF assms(1)] m1 same_cache_trans [OF m1] by blast
qed

lemma refused:
  assumes "resolve d r fmt m = (Inr res, m1)"
    and "authorize d r (r_name (re_repo res)) (actionForMethod (rq_method r)) \<noteq> None"
  shows "refusal (status_of (fst (handle d r m))) \<and> mg_engine (snd (handle d r m)) = mg_engine m"
  using unauthorized [OF assms] resolve_engine [OF assms(1)] by simp

end

interpretation maven: format_handler handleMaven FormatMaven mavenPackage mavenVersion
  by unfold_locales
    (auto simp: handleMaven_def dest: authorize_status gate_status gate_cache split: option.splits)

interpretation go: format_handler handleGo FormatGo goPackage goVersion
  by unfold_locales
    (auto simp: handleGo_def dest: authorize_status gate_status gate_cache split: option.splits)

lemma run_gates_unnamed: "run_gates d r res [] v m = (None, m)"
  by (simp add: run_gates_def gate_seq_def approvalGate_def versionDenyGate_def vulnGate_def licenseGate_def Let_def)

interpretation cargo: format_handler handleCargo FormatCargo cargoPackage cargoVersion
proof (unfold_locales, goal_cases)
  case (2 d r m res m1 ops m2)
  have "re_path res \<noteq> ''config.json''"
  proof
    assume "re_path res = ''config.json''"
    then have "cargoPackage (re_path res) = []" by (simp add: cargoPackage_def)
    with 2(3) run_gates_unnamed [of d r res "cargoVersion (re_path res)" m1] show False by simp
  qed
  with 2 show ?case by (auto simp: handleCargo_def dest: gate_status gate_cache)
next
  case (1 d r m res m1)
  then obtain ops where a: "authorize d r (r_name (re_repo res)) (actionForMethod (rq_method r)) = Some ops" by blast
  with authorize_status [OF a] 1 show ?case by (auto simp: handleCargo_def)
qed

end
