(* ===== verification/Group.thy ===== *)
theory Group
  imports Handlers
begin

text \<open>
  Group repositories (\<^verbatim>\<open>internal/repo/group.go\<close>): a read of a group is tried on its members in order,
  each answering into a buffering writer that swallows a 404, and \<open>wrap\<close>, the middleware every format
  endpoint runs under.
\<close>

section \<open>The buffering writer\<close>

record groupWriter =
  gw_header :: headers
  gw_decided :: bool
  gw_missed :: bool
  gw_dst :: "wop list"

definition gw_WriteHeader :: "int \<Rightarrow> groupWriter \<Rightarrow> groupWriter" where
  "gw_WriteHeader code g =
     (if gw_decided g then g
      else if code = 404 then g\<lparr>gw_decided := True, gw_missed := True\<rparr>
      else g\<lparr>gw_decided := True,
             gw_dst := gw_dst g @ map (\<lambda>(k, v). SetHeader k v) (gw_header g) @ [WriteHeader code]\<rparr>)"

definition gw_Write :: "bytes \<Rightarrow> groupWriter \<Rightarrow> groupWriter" where
  "gw_Write b g =
     (let g1 = (if \<not> gw_decided g then gw_WriteHeader 200 g else g)
      in if gw_missed g1 then g1 else g1\<lparr>gw_dst := gw_dst g1 @ [WriteBytes b]\<rparr>)"

fun gw_op :: "wop \<Rightarrow> groupWriter \<Rightarrow> groupWriter" where
  "gw_op (SetHeader k v) g = g\<lparr>gw_header := header_set k v (gw_header g)\<rparr>"
| "gw_op (DelHeader k) g = g\<lparr>gw_header := header_del k (gw_header g)\<rparr>"
| "gw_op (WriteHeader code) g = gw_WriteHeader code g"
| "gw_op (WriteBytes b) g = gw_Write b g"

definition new_groupWriter :: groupWriter where
  "new_groupWriter = \<lparr>gw_header = [], gw_decided = False, gw_missed = False, gw_dst = []\<rparr>"

definition gw_run :: "wop list \<Rightarrow> groupWriter" where
  "gw_run ops = fold gw_op ops new_groupWriter"

section \<open>Fan-out\<close>

definition requestWithRepoParam :: "request \<Rightarrow> string \<Rightarrow> request" where
  "requestWithRepoParam r repo = r\<lparr>rq_repo := repo\<rparr>"

definition servingRepoName :: "request \<Rightarrow> string \<Rightarrow> string" where
  "servingRepoName r fallback = (if rq_group_name r \<noteq> [] then rq_group_name r else fallback)"

fun fan_out :: "'b handler \<Rightarrow> request \<Rightarrow> string list \<Rightarrow> 'b handler" where
  "fan_out next ctx [] r m = (http_NotFound, m)"
| "fan_out next ctx (member # members) r m =
     (case next (requestWithRepoParam ctx member) m of
        (ops, m1) \<Rightarrow>
          let gw = gw_run ops
          in if \<not> gw_missed gw then (gw_dst gw, m1) else fan_out next ctx members r m1)"

definition grouped :: "'b deps \<Rightarrow> 'b handler \<Rightarrow> 'b handler" where
  "grouped d next r m =
     (case GetRepositoryByName (mg_store m) (rq_repo r) of
        Inl err \<Rightarrow> next r m
      | Inr repo \<Rightarrow>
          if r_type repo \<noteq> TypeGroup then next r m
          else if rq_method r \<noteq> MethodGet \<and> rq_method r \<noteq> MethodHead then
            (http_Error ''group repositories are read-only'' 405, m)
          else case authorize d r (rq_repo r) ActionRead of
                 Some ops \<Rightarrow> (ops, m)
               | None \<Rightarrow>
                   (case Parse (dp_unmarshal d) (r_config_json repo) of
                      Inl err \<Rightarrow> (http_Error ''invalid repository config'' 500, m)
                    | Inr cfg \<Rightarrow>
                        (case ipAllowed r (rq_repo r) cfg m of
                           (Some ops, m1) \<Rightarrow> (ops, m1)
                         | (None, m1) \<Rightarrow>
                             fan_out next (r\<lparr>rq_via_group := True, rq_group_name := rq_repo r\<rparr>)
                               (c_group_members cfg) r m1)))"

definition wrap :: "'b deps \<Rightarrow> 'b handler \<Rightarrow> 'b handler" where
  "wrap d h = audited d (grouped d h)"

datatype member_error =
    NoMembers | DuplicateMember string | MemberNotFound string | LookupFailed store_error
  | FormatMismatch string | NestedGroup string

fun check_members :: "store \<Rightarrow> string \<Rightarrow> string list \<Rightarrow> string list \<Rightarrow> member_error option" where
  "check_members st format seen [] = None"
| "check_members st format seen (name # rest) =
     (if name \<in> set seen then Some (DuplicateMember name)
      else case GetRepositoryByName st name of
             Inl err \<Rightarrow> Some (if err = ErrNotFound then MemberNotFound name else LookupFailed err)
           | Inr member \<Rightarrow>
               if r_format member \<noteq> format then Some (FormatMismatch name)
               else if r_type member = TypeGroup then Some (NestedGroup name)
               else check_members st format (name # seen) rest)"

definition ValidateGroupMembers :: "store \<Rightarrow> string \<Rightarrow> string list \<Rightarrow> member_error option" where
  "ValidateGroupMembers st format members =
     (if length members = 0 then Some NoMembers else check_members st format [] members)"

section \<open>What the buffering writer passes on\<close>

text \<open>The same response up to the order in which headers were set.\<close>

definition same_response :: "response \<Rightarrow> response \<Rightarrow> bool" where
  "same_response a b \<longleftrightarrow> rs_status a = rs_status b \<and> rs_body a = rs_body b \<and>
     (\<forall>k. header_get (rs_headers a) k = header_get (rs_headers b) k)"

lemma header_get_set: "header_get (header_set k v hs) j = (if j = k then v else header_get hs j)"
proof -
  have "map_of (filter (\<lambda>h. fst h \<noteq> k) hs) j = map_of hs j" if "j \<noteq> k"
    using that by (induction hs) auto
  then show ?thesis by (auto simp: header_get_def header_set_def)
qed

lemma distinct_header_set: "distinct (map fst hs) \<Longrightarrow> distinct (map fst (header_set k v hs))"
  by (auto simp: header_set_def distinct_map_filter)

lemma net_run_append: "net_run (a @ b) st = net_run b (net_run a st)"
  by (simp add: net_run_def)

lemma net_run_headers:
  assumes "distinct (map fst hs)"
  shows "\<exists>hs'. net_run (map (\<lambda>(k, v). SetHeader k v) hs) (rs, hs0) = (rs, hs') \<and>
    (\<forall>k. header_get hs' k = (case map_of hs k of Some v \<Rightarrow> v | None \<Rightarrow> header_get hs0 k))"
  using assms
proof (induction hs arbitrary: hs0)
  case (Cons h hs)
  obtain k v where h: "h = (k, v)" by fastforce
  from Cons.IH [of "header_set k v hs0"] Cons.prems obtain hs' where
    r: "net_run (map (\<lambda>(k, v). SetHeader k v) hs) (rs, header_set k v hs0) = (rs, hs')"
    and g: "\<And>j. header_get hs' j = (case map_of hs j of Some v \<Rightarrow> v | None \<Rightarrow> header_get (header_set k v hs0) j)"
    by auto
  have "map_of hs k = None" using Cons.prems h by (simp add: map_of_eq_None_iff)
  then have "\<forall>j. header_get hs' j = (case map_of (h # hs) j of Some v \<Rightarrow> v | None \<Rightarrow> header_get hs0 j)"
    using g h by (auto simp: header_get_set split: option.split)
  with r h show ?case by (simp add: net_run_def)
qed (simp add: net_run_def)

text \<open>Running the operations on the network and through the buffering writer, side by side.\<close>

definition gw_rel :: "response \<times> headers \<Rightarrow> groupWriter \<Rightarrow> bool" where
  "gw_rel n g \<longleftrightarrow> (case n of (rs, hs) \<Rightarrow>
     if \<not> gw_decided g then rs = fresh_response \<and> gw_header g = hs \<and> distinct (map fst hs) \<and>
        gw_dst g = [] \<and> \<not> gw_missed g
     else gw_missed g = (rs_status rs = Some 404) \<and> rs_status rs \<noteq> None \<and>
        (\<not> gw_missed g \<longrightarrow> same_response (fst (net_run (gw_dst g) (fresh_response, []))) rs))"

lemma gw_rel_header:
  assumes "gw_rel (rs, hs) g" and "\<not> gw_decided g"
  shows "gw_rel (rs\<lparr>rs_status := Some c, rs_headers := hs\<rparr>, hs) (gw_WriteHeader c g)"
proof -
  from assms have rs: "rs = fresh_response" and g: "gw_header g = hs" "distinct (map fst hs)" "gw_dst g = []"
    by (auto simp: gw_rel_def)
  obtain hs' where r: "net_run (map (\<lambda>(k, v). SetHeader k v) hs) (fresh_response, []) = (fresh_response, hs')"
    and h: "\<And>k. header_get hs' k = (case map_of hs k of Some v \<Rightarrow> v | None \<Rightarrow> header_get [] k)"
    using net_run_headers [OF g(2)] by blast
  have "header_get hs' k = header_get hs k" for k
    using h [of k] by (simp add: header_get_def split: option.split)
  then have "same_response (fst (net_run (map (\<lambda>(k, v). SetHeader k v) hs @ [WriteHeader c]) (fresh_response, [])))
      (rs\<lparr>rs_status := Some c, rs_headers := hs\<rparr>)"
    using rs by (simp add: net_run_append r) (simp add: net_run_def fresh_response_def same_response_def)
  then show ?thesis using assms g by (simp add: gw_rel_def gw_WriteHeader_def)
qed

lemma gw_rel_body:
  assumes "gw_rel (rs, hs) g" and "gw_decided g"
  shows "gw_rel (rs\<lparr>rs_body := rs_body rs @ b\<rparr>, hs)
    (if gw_missed g then g else g\<lparr>gw_dst := gw_dst g @ [WriteBytes b]\<rparr>)"
proof -
  obtain rs' hs' where n: "net_run (gw_dst g) (fresh_response, []) = (rs', hs')" by fastforce
  have "same_response (fst (net_run (gw_dst g @ [WriteBytes b]) (fresh_response, []))) (rs\<lparr>rs_body := rs_body rs @ b\<rparr>)"
    if "\<not> gw_missed g"
    using assms that n by (auto simp: gw_rel_def net_run_append same_response_def net_run_def Let_def)
  then show ?thesis using assms by (auto simp: gw_rel_def)
qed

lemma gw_rel_step: "gw_rel n g \<Longrightarrow> gw_rel (net_op x n) (gw_op x g)"
proof (cases n)
  case (Pair rs hs)
  assume rel: "gw_rel n g"
  show ?thesis
  proof (cases "gw_decided g")
    case True
    then have "rs_status rs \<noteq> None" using rel Pair by (simp add: gw_rel_def)
    with rel Pair True show ?thesis
      using gw_rel_body [of rs hs g] by (cases x) (auto simp: gw_rel_def gw_WriteHeader_def gw_Write_def Let_def)
  next
    case False
    then have rs: "rs_status rs = None" using rel Pair by (simp add: gw_rel_def fresh_response_def)
    have h: "gw_rel (rs\<lparr>rs_status := Some c, rs_headers := hs\<rparr>, hs) (gw_WriteHeader c g)" for c
      using gw_rel_header rel Pair False by blast
    have d: "gw_decided (gw_WriteHeader c g)" for c by (simp add: gw_WriteHeader_def)
    show ?thesis
    proof (cases x)
      case (WriteBytes b)
      then show ?thesis using gw_rel_body [OF h d, of 200 b] rs Pair False by (simp add: gw_Write_def Let_def)
    qed (use rel Pair False rs h in \<open>auto simp: gw_rel_def distinct_header_set header_del_def distinct_map_filter\<close>)
  qed
qed

lemma gw_rel_run: "gw_rel (net_run ops (fresh_response, [])) (gw_run ops)"
proof (induction ops rule: rev_induct)
  case (snoc x ops)
  then show ?case using gw_rel_step by (simp add: net_run_def gw_run_def)
qed (simp add: net_run_def gw_run_def gw_rel_def new_groupWriter_def)

lemma gw_missed_iff: "gw_missed (gw_run ops) \<longleftrightarrow> status_of ops = 404"
proof -
  obtain rs hs where n: "net_run ops (fresh_response, []) = (rs, hs)" by fastforce
  have "rs_status rs = first_status ops"
    using net_run_status [of fresh_response ops "[]"] n by (simp add: fresh_response_def)
  then show ?thesis
    using gw_rel_run [of ops] n
    by (auto simp: gw_rel_def status_of_first fresh_response_def split: if_splits option.splits)
qed

lemma gw_passes:
  assumes "status_of ops \<noteq> 404" and "first_status ops \<noteq> None"
  shows "same_response (net_response (gw_dst (gw_run ops))) (net_response ops)"
proof -
  obtain rs hs where n: "net_run ops (fresh_response, []) = (rs, hs)" by fastforce
  obtain rs' hs' where n': "net_run (gw_dst (gw_run ops)) (fresh_response, []) = (rs', hs')" by fastforce
  have st: "rs_status rs = first_status ops"
    using net_run_status [of fresh_response ops "[]"] n by (simp add: fresh_response_def)
  have "gw_decided (gw_run ops)"
    using gw_rel_run [of ops] n st assms(2) by (auto simp: gw_rel_def fresh_response_def split: if_splits)
  then have "same_response rs' rs"
    using gw_rel_run [of ops] n n' gw_missed_iff [of ops] assms(1) by (simp add: gw_rel_def)
  moreover have "rs_status rs \<noteq> None" using st assms(2) by simp
  ultimately show ?thesis using n n' by (auto simp: net_response_def same_response_def)
qed

section \<open>The first member that has an answer gives it\<close>

text \<open>Running members that all miss; \<open>None\<close> when one of them does not.\<close>

fun all_miss :: "'b handler \<Rightarrow> request \<Rightarrow> string list \<Rightarrow> 'b manager \<Rightarrow> 'b manager option" where
  "all_miss next ctx [] m = Some m"
| "all_miss next ctx (x # xs) m =
     (case next (requestWithRepoParam ctx x) m of
        (ops, m1) \<Rightarrow> if status_of ops = 404 then all_miss next ctx xs m1 else None)"

lemma fan_out_skip:
  "all_miss next ctx xs m = Some m1 \<Longrightarrow> fan_out next ctx (xs @ ys) r m = fan_out next ctx ys r m1"
  by (induction xs arbitrary: m) (auto simp: gw_missed_iff Let_def split: prod.splits if_splits)

lemma fan_out_hit:
  assumes "all_miss next ctx before m = Some m1" and "next (requestWithRepoParam ctx x) m1 = (ops, m2)"
    and "status_of ops \<noteq> 404"
  shows "fan_out next ctx (before @ x # after) r m = (gw_dst (gw_run ops), m2)"
  using assms by (simp add: fan_out_skip gw_missed_iff Let_def)

lemma gw_dst_silent: "first_status ops = None \<Longrightarrow> gw_dst (gw_run ops) = []"
proof -
  assume none: "first_status ops = None"
  obtain rs hs where n: "net_run ops (fresh_response, []) = (rs, hs)" by fastforce
  then have "rs_status rs = None"
    using net_run_status [of fresh_response ops "[]"] none by (simp add: fresh_response_def)
  then show ?thesis using gw_rel_run [of ops] n by (auto simp: gw_rel_def split: if_splits)
qed

lemma gw_status:
  assumes "status_of ops \<noteq> 404"
  shows "status_of (gw_dst (gw_run ops)) = status_of ops"
proof (cases "first_status ops")
  case None
  then show ?thesis by (simp add: gw_dst_silent status_of_first)
next
  case (Some c)
  then show ?thesis using gw_passes [OF assms] by (simp add: same_response_def status_of_def)
qed

text \<open>
  The members of a group are asked in order, and the first that answers anything but 404 gives the
  group's answer: the client gets its status, its body and its headers, and the members after it are
  not asked, so they change nothing. Only when every member misses is the answer 404.
\<close>

theorem fan_out_first_answer:
  assumes "all_miss next ctx before m = Some m1"
  shows "fan_out next ctx before r m = (http_NotFound, m1) \<and>
    (\<forall>x after ops m2. next (requestWithRepoParam ctx x) m1 = (ops, m2) \<and> status_of ops \<noteq> 404 \<longrightarrow>
      snd (fan_out next ctx (before @ x # after) r m) = m2 \<and>
      status_of (fst (fan_out next ctx (before @ x # after) r m)) = status_of ops \<and>
      (first_status ops \<noteq> None \<longrightarrow>
        same_response (net_response (fst (fan_out next ctx (before @ x # after) r m))) (net_response ops)))"
  using fan_out_skip [OF assms, of "[]" r] fan_out_hit [OF assms] gw_status gw_passes by simp

definition three_members :: "fs handler" where
  "three_members r m =
     (if rq_repo r = ''b'' then ([SetHeader ''ETag'' ''e'', WriteHeader 200, WriteBytes ''jar''], m)
      else (http_NotFound, m))"

theorem fan_out_first_answer_witness:
  "rs_body (net_response (fst (fan_out three_members (demo_get ''p'') [''a'', ''b'', ''c''] (demo_get ''p'')
     (demo_manager demo_start)))) = ''jar''"
proof -
  let ?m = "demo_manager demo_start" and ?r = "demo_get ''p''"
  let ?ops = "[SetHeader ''ETag'' ''e'', WriteHeader 200, WriteBytes ''jar'']"
  have "all_miss three_members ?r [''a''] ?m = Some ?m"
    by (simp add: three_members_def requestWithRepoParam_def)
  moreover have "three_members (requestWithRepoParam ?r ''b'') ?m = (?ops, ?m)"
    by (simp add: three_members_def requestWithRepoParam_def)
  moreover have "status_of ?ops = 200" by (simp add: status_of_first)
  ultimately have "same_response (net_response (fst (fan_out three_members ?r ([''a''] @ ''b'' # [''c'']) ?r ?m)))
      (net_response ?ops)"
    using fan_out_first_answer [of three_members ?r "[''a'']" ?m ?m ?r] by simp
  moreover have "rs_body (net_response ?ops) = ''jar''" by code_simp
  ultimately show ?thesis by (simp add: same_response_def)
qed

section \<open>Gates and groups\<close>

text \<open>A member whose gate stops the request ends the fan-out: the contract of the format handlers
  makes the refusal one of 400, 401, 403 and 503.\<close>

context format_handler
begin

lemma group_stops:
  assumes "all_miss (handle d) ctx before m = Some m1"
    and "resolve d (requestWithRepoParam ctx x) fmt m1 = (Inr res, m2)"
    and "fst (approvalGate d (requestWithRepoParam ctx x) res (package (re_path res)) (version_of (re_path res)) m2) \<noteq> None"
  shows "refusal (status_of (fst (fan_out (handle d) ctx (before @ x # after) r m))) \<and>
    same_cache m1 (snd (fan_out (handle d) ctx (before @ x # after) r m))"
proof -
  obtain ops m3 where h: "handle d (requestWithRepoParam ctx x) m1 = (ops, m3)" by fastforce
  then have q: "refusal (status_of ops)" "same_cache m1 m3" using quarantined [OF assms(2,3)] by simp_all
  then have "status_of ops \<noteq> 404" using refusal_simps(5) by metis
  with fan_out_hit [OF assms(1) h this] gw_status q show ?thesis by simp
qed

end

lemma check_members_None:
  "check_members st format seen ms = None \<longleftrightarrow>
   distinct ms \<and> set ms \<inter> set seen = {} \<and>
   (\<forall>n \<in> set ms. \<exists>r. GetRepositoryByName st n = Inr r \<and> r_format r = format \<and> r_type r \<noteq> TypeGroup)"
proof (induction ms arbitrary: seen)
  case (Cons n ms)
  then show ?case by (cases "GetRepositoryByName st n") auto
qed simp

text \<open>
  A member list is accepted exactly when it names at least one repository, none twice, and every
  member exists, has the group's format and is no group itself, so that fan-out is never nested.
\<close>

theorem ValidateGroupMembers_iff:
  "ValidateGroupMembers st format members = None \<longleftrightarrow>
   members \<noteq> [] \<and> distinct members \<and>
   (\<forall>n \<in> set members. \<exists>r. GetRepositoryByName st n = Inr r \<and> r_format r = format \<and> r_type r \<noteq> TypeGroup)"
  by (auto simp: ValidateGroupMembers_def check_members_None)

theorem ValidateGroupMembers_iff_witness:
  "ValidateGroupMembers (en_store demo_start) FormatMaven [''libs''] = None"
proof -
  have "GetRepositoryByName (en_store demo_start) ''libs'' = Inr (demo_repo\<lparr>r_created_at := 1, r_updated_at := 1\<rparr>)"
    by code_simp
  then show ?thesis unfolding ValidateGroupMembers_iff by (simp add: demo_repo_def)
qed

end
