(* ===== verification/Base64.thy ===== *)
theory Base64
  imports Prelude
begin

text \<open>
  Package \<^verbatim>\<open>encoding/base64\<close> as far as the handlers use it: \<^verbatim>\<open>RawURLEncoding\<close> for the upstream
  addresses inside PyPI file paths, and decoding \<^verbatim>\<open>StdEncoding\<close> for the tarballs in npm publish
  documents. Decoding skips line breaks and ignores trailing bits, as the non-strict encodings do.
\<close>

section \<open>Alphabets\<close>

text \<open>The first argument is whether the URL alphabet is meant.\<close>

definition b64_char :: "bool \<Rightarrow> nat \<Rightarrow> char" where
  "b64_char url n =
     (if n < 26 then char_of (65 + n) else if n < 52 then char_of (71 + n)
      else if n < 62 then char_of (n - 4)
      else if n = 62 then (if url then CHR ''-'' else CHR ''+'')
      else (if url then CHR ''_'' else CHR ''/''))"

definition b64_val :: "bool \<Rightarrow> char \<Rightarrow> nat option" where
  "b64_val url c =
     (let n = (of_char c :: nat) in
      if 65 \<le> n \<and> n \<le> 90 then Some (n - 65) else if 97 \<le> n \<and> n \<le> 122 then Some (n - 71)
      else if 48 \<le> n \<and> n \<le> 57 then Some (n + 4)
      else if c = (if url then CHR ''-'' else CHR ''+'') then Some 62
      else if c = (if url then CHR ''_'' else CHR ''/'') then Some 63
      else None)"

section \<open>Encoding and decoding\<close>

abbreviation byte :: "char \<Rightarrow> nat" where "byte c \<equiv> of_char c"

fun encode_raw :: "bool \<Rightarrow> bytes \<Rightarrow> string" where
  "encode_raw u [] = []"
| "encode_raw u [a] = [b64_char u (byte a div 4), b64_char u (byte a mod 4 * 16)]"
| "encode_raw u [a, b] =
     [b64_char u (byte a div 4), b64_char u (byte a mod 4 * 16 + byte b div 16), b64_char u (byte b mod 16 * 4)]"
| "encode_raw u (a # b # c # s) =
     b64_char u (byte a div 4) # b64_char u (byte a mod 4 * 16 + byte b div 16) #
     b64_char u (byte b mod 16 * 4 + byte c div 64) # b64_char u (byte c mod 64) # encode_raw u s"

definition out1 :: "nat \<Rightarrow> nat \<Rightarrow> char" where "out1 w x = char_of (w * 4 + x div 16)"
definition out2 :: "nat \<Rightarrow> nat \<Rightarrow> char" where "out2 x y = char_of (x mod 16 * 16 + y div 4)"
definition out3 :: "nat \<Rightarrow> nat \<Rightarrow> char" where "out3 y z = char_of (y mod 4 * 64 + z)"

definition quad :: "bool \<Rightarrow> char \<Rightarrow> char \<Rightarrow> char \<Rightarrow> char \<Rightarrow> bytes option" where
  "quad u w x y z =
     (case (b64_val u w, b64_val u x, b64_val u y, b64_val u z) of
        (Some a, Some b, Some c, Some d) \<Rightarrow> Some [out1 a b, out2 b c, out3 c d] | _ \<Rightarrow> None)"

definition pair :: "bool \<Rightarrow> char \<Rightarrow> char \<Rightarrow> bytes option" where
  "pair u w x = (case (b64_val u w, b64_val u x) of (Some a, Some b) \<Rightarrow> Some [out1 a b] | _ \<Rightarrow> None)"

definition triple :: "bool \<Rightarrow> char \<Rightarrow> char \<Rightarrow> char \<Rightarrow> bytes option" where
  "triple u w x y =
     (case (b64_val u w, b64_val u x, b64_val u y) of
        (Some a, Some b, Some c) \<Rightarrow> Some [out1 a b, out2 b c] | _ \<Rightarrow> None)"

fun decode_quads :: "bool \<Rightarrow> string \<Rightarrow> bytes option" where
  "decode_quads u [] = Some []"
| "decode_quads u [w] = None"
| "decode_quads u [w, x] = pair u w x"
| "decode_quads u [w, x, y] = triple u w x y"
| "decode_quads u (w # x # y # z # s) =
     (case quad u w x y z of
        None \<Rightarrow> None | Some b \<Rightarrow> map_option (\<lambda>t. b @ t) (decode_quads u s))"

definition no_breaks :: "string \<Rightarrow> string" where
  "no_breaks s = filter (\<lambda>c. c \<noteq> CHR 0x0D \<and> c \<noteq> CHR 0x0A) s"

definition RawURL_Encode :: "bytes \<Rightarrow> string" where
  "RawURL_Encode b = encode_raw True b"

definition RawURL_Decode :: "string \<Rightarrow> bytes option" where
  "RawURL_Decode s = decode_quads True (no_breaks s)"

text \<open>The padded encoding: a quantum that ends in one or two equals signs is the last one.\<close>

fun decode_padded :: "string \<Rightarrow> bytes option" where
  "decode_padded [] = Some []"
| "decode_padded (w # x # y # z # s) =
     (if s = [] \<and> z = CHR ''='' then (if y = CHR ''='' then pair False w x else triple False w x y)
      else case quad False w x y z of
             None \<Rightarrow> None | Some b \<Rightarrow> map_option (\<lambda>t. b @ t) (decode_padded s))"
| "decode_padded s = None"

definition Std_Decode :: "string \<Rightarrow> bytes option" where
  "Std_Decode s = decode_padded (no_breaks s)"

section \<open>The round trip\<close>

lemma char_of_eq: "k < 256 \<Longrightarrow> char_of k = c \<longleftrightarrow> k = byte c"
  by (metis of_char_of char_of_char mod_less)

lemma b64_val_char: "n < 64 \<Longrightarrow> b64_val u (b64_char u n) = Some n"
proof -
  assume n: "n < 64"
  then consider "n < 26" | "26 \<le> n" "n < 52" | "52 \<le> n" "n < 62" | "n = 62" | "n = 63" by linarith
  then show ?thesis by cases (auto simp: b64_char_def b64_val_def Let_def)
qed

lemma b64_char_plain:
  "n < 64 \<Longrightarrow> b64_char True n \<noteq> CHR 0x0D \<and> b64_char True n \<noteq> CHR 0x0A \<and> b64_char True n \<noteq> CHR ''/''"
  by (auto simp: b64_char_def char_of_eq)

lemma sextets:
  "byte a div 4 < 64" "byte a mod 4 * 16 + byte b div 16 < 64" "byte a mod 4 * 16 < 64"
  "byte b mod 16 * 4 + byte c div 64 < 64" "byte b mod 16 * 4 < 64" "byte c mod 64 < 64"
proof -
  have b: "byte x < 256" for x by simp
  have "byte b div 16 < 16" and "byte c div 64 < 4" and "byte a div 4 < 64"
    using b by (simp_all add: less_mult_imp_div_less)
  moreover have "byte a mod 4 \<le> 3" and "byte b mod 16 \<le> 15" by simp_all
  ultimately show "byte a div 4 < 64" "byte a mod 4 * 16 + byte b div 16 < 64" "byte a mod 4 * 16 < 64"
    "byte b mod 16 * 4 + byte c div 64 < 64" "byte b mod 16 * 4 < 64" "byte c mod 64 < 64" by linarith+
qed

lemma join_parts: "(k :: nat) < m \<Longrightarrow> (n * m + k) div m = n" "(k :: nat) < m \<Longrightarrow> (n * m + k) mod m = k"
  by simp_all

lemma outs [simp]:
  "out1 (byte a div 4) (byte a mod 4 * 16 + byte b div 16) = a"
  "out1 (byte a div 4) (byte a mod 4 * 16) = a"
  "out2 (byte a mod 4 * 16 + byte b div 16) (byte b mod 16 * 4 + byte c div 64) = b"
  "out2 (byte a mod 4 * 16 + byte b div 16) (byte b mod 16 * 4) = b"
  "out3 (byte b mod 16 * 4 + byte c div 64) (byte c mod 64) = c"
proof -
  have b: "byte b div 16 < 16" and c: "byte c div 64 < 4" by (simp_all add: less_mult_imp_div_less)
  show "out1 (byte a div 4) (byte a mod 4 * 16 + byte b div 16) = a"
    "out1 (byte a div 4) (byte a mod 4 * 16) = a"
    by (simp_all only: out1_def join_parts(1) [OF b] nonzero_mult_div_cancel_right zero_neq_numeral
        not_False_eq_True div_mult_mod_eq char_of_char)
  show "out2 (byte a mod 4 * 16 + byte b div 16) (byte b mod 16 * 4 + byte c div 64) = b"
    "out2 (byte a mod 4 * 16 + byte b div 16) (byte b mod 16 * 4) = b"
    "out3 (byte b mod 16 * 4 + byte c div 64) (byte c mod 64) = c"
    by (simp_all only: out2_def out3_def join_parts(2) [OF b] join_parts [OF c] nonzero_mult_div_cancel_right
        zero_neq_numeral not_False_eq_True div_mult_mod_eq char_of_char)
qed

lemma decode_encode: "decode_quads u (encode_raw u b) = Some b"
  by (induction u b rule: encode_raw.induct)
    (simp_all add: quad_def pair_def triple_def b64_val_char sextets del: of_char_of)

lemma encode_plain:
  assumes "c \<in> set (encode_raw True b)"
  shows "c \<noteq> CHR 0x0D \<and> c \<noteq> CHR 0x0A \<and> c \<noteq> CHR ''/''"
proof -
  have "\<forall>x \<in> set (encode_raw u b). \<exists>n < 64. x = b64_char u n" for u
    by (induction u b rule: encode_raw.induct) (auto intro: sextets)
  then obtain n where "n < 64" and "c = b64_char True n" using assms by blast
  then show ?thesis using b64_char_plain by simp
qed

lemma RawURL_roundtrip: "RawURL_Decode (RawURL_Encode b) = Some b"
proof -
  have "no_breaks (encode_raw True b) = encode_raw True b"
    unfolding no_breaks_def using encode_plain by (intro filter_True) blast
  then show ?thesis by (simp add: RawURL_Decode_def RawURL_Encode_def decode_encode)
qed

lemma RawURL_Encode_seg: "CHR ''/'' \<notin> set (RawURL_Encode b)"
  using encode_plain unfolding RawURL_Encode_def by blast

end
