(* ===== verification/Npm.thy ===== *)
theory Npm
  imports Group Base64
begin

text \<open>
  The npm handler (\<^verbatim>\<open>internal/repo/npm.go\<close>): packuments are cached as the upstream sent them and
  rewritten per request, tarballs go through the engine with the release time of the packument, and a
  publish stores each attachment and then the index.
\<close>

section \<open>Reading with a limit\<close>

definition LimitReader :: "int \<Rightarrow> reader \<Rightarrow> reader" where
  "LimitReader n rd =
     (if int (length (fst rd)) < n then rd else (take (nat n) (fst rd), True))"

definition MiB64 :: int where "MiB64 = 67108864"
definition MiB256 :: int where "MiB256 = 268435456"

section \<open>Rewriting a packument\<close>

text \<open>Whether a version is left out of the index: only the cooldown counts, and only the action \<open>block\<close>.\<close>

definition index_blocked :: "codec \<Rightarrow> age_policy_config \<Rightarrow> instant \<Rightarrow> string option \<Rightarrow> bool" where
  "index_blocked cx age now ts =
     (ag_enabled age \<and> ag_action age = ActionBlock \<and>
      (case ts of
         None \<Rightarrow> False
       | Some t \<Rightarrow> (case cx_rfc3339 cx t of
                      None \<Rightarrow> False | Some pub \<Rightarrow> time_sub now pub < ag_min_age age)))"

definition blockedVersions :: "codec \<Rightarrow> age_policy_config \<Rightarrow> instant \<Rightarrow> object \<Rightarrow> object \<Rightarrow> string list" where
  "blockedVersions cx age now tmap versions =
     filter (\<lambda>ver. index_blocked cx age now (as_string (map_of tmap ver))) (map fst versions)"

definition rewrite_version :: "string \<Rightarrow> json \<Rightarrow> json" where
  "rewrite_version prefix v =
     (case as_object (Some v) of
        None \<Rightarrow> v
      | Some vm \<Rightarrow>
          (case as_object (map_of vm ''dist'') of
             None \<Rightarrow> v
           | Some dist \<Rightarrow>
               (case as_string (map_of dist ''tarball'') of
                  None \<Rightarrow> v
                | Some tb \<Rightarrow>
                    JObj (obj_set ''dist'' (JObj (obj_set ''tarball'' (JStr (prefix @ path_base tb)) dist)) vm))))"

definition kept_versions :: "string list \<Rightarrow> string \<Rightarrow> object \<Rightarrow> object" where
  "kept_versions blocked prefix versions =
     map (\<lambda>(ver, v). (ver, rewrite_version prefix v)) (filter (\<lambda>(ver, v). ver \<notin> set blocked) versions)"

definition tag_blocked :: "string list \<Rightarrow> json \<Rightarrow> bool" where
  "tag_blocked blocked v = (case as_string (Some v) of None \<Rightarrow> False | Some ver \<Rightarrow> ver \<in> set blocked)"

definition pruned_tags :: "string list \<Rightarrow> object \<Rightarrow> object \<Rightarrow> object" where
  "pruned_tags blocked versions tags =
     (let kept = filter (\<lambda>(tag, v). \<not> tag_blocked blocked v) tags;
          remapLatest = list_ex (\<lambda>(tag, v). tag_blocked blocked v \<and> tag = ''latest'') tags;
          best = highestStableVersion (map fst versions)
      in if remapLatest \<and> best \<noteq> [] then obj_set ''latest'' (JStr best) kept else kept)"

text \<open>The document after the rewrite, and how many versions went.\<close>

definition rewritten_doc ::
  "codec \<Rightarrow> doc \<Rightarrow> string \<Rightarrow> string \<Rightarrow> string \<Rightarrow> age_policy_config \<Rightarrow> instant \<Rightarrow> doc \<times> nat" where
  "rewritten_doc cx d base repoName pkg age now =
     (let tmap = (case as_object (doc_get d ''time'') of None \<Rightarrow> [] | Some t \<Rightarrow> t);
          versions = (case as_object (doc_get d ''versions'') of None \<Rightarrow> [] | Some v \<Rightarrow> v);
          blocked = blockedVersions cx age now tmap versions;
          prefix = base @ ''/npm/'' @ repoName @ ''/'' @ pkg @ ''/-/'';
          kept = kept_versions blocked prefix versions;
          d1 = (if as_object (doc_get d ''versions'') = None then d
                else map_option (obj_set ''versions'' (JObj kept)) d);
          d2 = (case as_object (doc_get d ''dist-tags'') of
                  None \<Rightarrow> d1
                | Some tags \<Rightarrow> map_option (obj_set ''dist-tags'' (JObj (pruned_tags blocked kept tags))) d1)
      in (d2, length versions - length kept))"

definition rewritePackumentDoc ::
  "codec \<Rightarrow> doc \<Rightarrow> string \<Rightarrow> string \<Rightarrow> string \<Rightarrow> age_policy_config \<Rightarrow> instant \<Rightarrow> bytes option \<times> nat" where
  "rewritePackumentDoc cx d base repoName pkg age now =
     (case rewritten_doc cx d base repoName pkg age now of (d', removed) \<Rightarrow> (cx_marshal cx d', removed))"

definition rewritePackument ::
  "codec \<Rightarrow> bytes \<Rightarrow> string \<Rightarrow> string \<Rightarrow> string \<Rightarrow> age_policy_config \<Rightarrow> instant \<Rightarrow> bytes \<times> nat" where
  "rewritePackument cx body base repoName pkg age now =
     (case cx_unmarshal cx body of
        None \<Rightarrow> (body, 0)
      | Some d \<Rightarrow>
          (case rewritePackumentDoc cx d base repoName pkg age now of
             (None, removed) \<Rightarrow> (body, removed)
           | (Some out, removed) \<Rightarrow> (out, removed)))"

definition writePackument :: "request \<Rightarrow> bytes \<Rightarrow> wop list" where
  "writePackument r body =
     SetHeader ''Content-Type'' ''application/json'' #
     (if rq_method r = MethodHead then [WriteHeader 200] else [WriteBytes body])"

section \<open>Packuments\<close>

text \<open>The two halves of \<open>npmPackument\<close>: from the cache, and from the upstream.\<close>

definition packument_cached :: "'b deps \<Rightarrow> request \<Rightarrow> resolved \<Rightarrow> artifact \<Rightarrow> 'b engine \<Rightarrow> wop list \<times> 'b engine" where
  "packument_cached d r res art e0 =
     (let env = dp_env d; cx = dp_codec d;
          e = e0\<lparr>en_store := snd (Touch (ev_now env) (r_id (re_repo res)) (re_path res) (en_store e0))\<rparr>
      in if rq_method r = MethodHead then (writePackument r [], e)
         else if \<not> dp_rewrite d then ([], e)
         else case bs_open (ev_blobs env) (a_blob_sha256 art) (en_blobs e) of
                Inl berr \<Rightarrow> (http_Error ''blob missing'' 500, e)
              | Inr (b, sz) \<Rightarrow>
                  (case cx_decode cx (fst (LimitReader MiB64 (b, True))) of
                     None \<Rightarrow> (fst (serveArtifact env r art e), e)
                   | Some doc \<Rightarrow>
                       (case rewritePackumentDoc cx doc (externalBase d r)
                               (servingRepoName r (r_name (re_repo res))) (re_path res)
                               (c_age_policy (re_cfg res)) (ev_now env) of
                          (None, removed) \<Rightarrow> (fst (serveArtifact env r art e), e)
                        | (Some transformed, removed) \<Rightarrow> (writePackument r transformed, e))))"

definition packument_upstream :: "'b deps \<Rightarrow> request \<Rightarrow> resolved \<Rightarrow> 'b engine \<Rightarrow> wop list \<times> 'b engine" where
  "packument_upstream d r res e0 =
     (let env = dp_env d; cx = dp_codec d; repo = re_repo res; key = r_name repo @ ''/'' @ re_path res
      in case neg_has (ev_now env) key (en_neg e0) of
           (hit, neg) \<Rightarrow>
             let e1 = e0\<lparr>en_neg := neg\<rparr> in
             if hit then (http_NotFound, e1)
             else let e = emit (CacheMiss (r_name repo)) e1 in
               case ev_fetch env False (joinUpstream (r_upstream_url repo) (re_path res)) of
                 None \<Rightarrow> (http_Error ''upstream unreachable'' 502, emit (UpstreamErr (r_name repo)) e)
               | Some resp \<Rightarrow>
                   if ur_status resp = 404 then
                     (http_NotFound,
                      e\<lparr>en_neg := neg_set (ev_now env) key (cc_negative_ttl (c_cache (re_cfg res))) (en_neg e)\<rparr>)
                   else if ur_status resp < 200 \<or> 300 \<le> ur_status resp then
                     (http_Error ''upstream error'' 502, emit (UpstreamErr (r_name repo)) e)
                   else if \<not> dp_rewrite d then ([], e)
                   else case LimitReader MiB64 (ur_body resp) of
                     (body, ok) \<Rightarrow>
                       if \<not> ok then (http_Error ''read upstream'' 502, e)
                       else case rewritePackument cx body (externalBase d r)
                                   (servingRepoName r (r_name repo)) (re_path res)
                                   (c_age_policy (re_cfg res)) (ev_now env) of
                         (transformed, removed) \<Rightarrow>
                           let e2 = e\<lparr>en_events := en_events e @
                                 replicate removed (AgeViolation (r_name repo) (ag_action (c_age_policy (re_cfg res))))\<rparr>
                           in if \<not> cc_enabled (c_cache (re_cfg res)) then (writePackument r transformed, e2)
                              else case storeArtifact env (put_spec repo (re_path res) [] []) (body, True)
                                          ''application/json'' None e2 of
                                     (Inl err, e3) \<Rightarrow> (http_Error ''cache write failed'' 500, e3)
                                   | (Inr art, e3) \<Rightarrow> (writePackument r transformed, e3))"

definition npmPackument :: "'b deps \<Rightarrow> request \<Rightarrow> resolved \<Rightarrow> 'b engine \<Rightarrow> wop list \<times> 'b engine" where
  "npmPackument d r res e =
     (let miss = (if r_type (re_repo res) = TypeHosted then (http_NotFound, e) else packument_upstream d r res e)
      in case GetArtifact (en_store e) (r_id (re_repo res)) (re_path res) of
           Inl err \<Rightarrow> if err \<noteq> ErrNotFound then (http_Error ''metadata error'' 500, e) else miss
         | Inr art \<Rightarrow>
             if r_type (re_repo res) = TypeHosted \<or> fresh (dp_now d) art (re_cfg res) kindMetadata
             then packument_cached d r res art e else miss)"

section \<open>Tarballs\<close>

definition npmPackumentTimes :: "'b deps \<Rightarrow> resolved \<Rightarrow> string \<Rightarrow> 'b engine \<Rightarrow> (string \<times> string) list option" where
  "npmPackumentTimes d res pkgPath e =
     (let env = dp_env d; cx = dp_codec d;
          cached = (case GetArtifact (en_store e) (r_id (re_repo res)) pkgPath of
                      Inl err \<Rightarrow> None
                    | Inr art \<Rightarrow>
                        (case bs_open (ev_blobs env) (a_blob_sha256 art) (en_blobs e) of
                           Inl berr \<Rightarrow> None
                         | Inr (b, sz) \<Rightarrow> cx_times cx (fst (LimitReader MiB64 (b, True)))))
      in case cached of
           Some tmap \<Rightarrow> Some tmap
         | None \<Rightarrow>
             (case ev_fetch env False (joinUpstream (r_upstream_url (re_repo res)) pkgPath) of
                None \<Rightarrow> None
              | Some resp \<Rightarrow>
                  if ur_status resp < 200 \<or> 300 \<le> ur_status resp then None
                  else cx_times cx (fst (LimitReader MiB64 (ur_body resp)))))"

definition npmTarballPublished :: "'b deps \<Rightarrow> resolved \<Rightarrow> string \<Rightarrow> 'b engine \<Rightarrow> instant option" where
  "npmTarballPublished d res version e =
     (if version = [] then None
      else let pkgPath = (case index_of (re_path res) ''/-/'' of Some i \<Rightarrow> take i (re_path res) | None \<Rightarrow> re_path res)
           in case npmPackumentTimes d res pkgPath e of
                None \<Rightarrow> None
              | Some tmap \<Rightarrow>
                  (case map_of tmap version of
                     None \<Rightarrow> None | Some ts \<Rightarrow> cx_rfc3339 (dp_codec d) ts))"

definition npmTarball :: "'b deps \<Rightarrow> request \<Rightarrow> resolved \<Rightarrow> 'b manager \<Rightarrow> wop list \<times> 'b manager" where
  "npmTarball d r res m =
     (if rq_method r \<noteq> MethodGet \<and> rq_method r \<noteq> MethodHead then (method_not_allowed, m)
      else let version = npmVersion (re_path res);
               published = (\<lambda>resp. case npmTarballPublished d res version (mg_engine m) of
                                     Some t \<Rightarrow> Some t
                                   | None \<Rightarrow> lastModified (ev_parse_date (dp_env d)) resp);
               spec = (file_spec d res kindArtifact version ''application/octet-stream'')
                        \<lparr>sp_extractPublished := Some published\<rparr>
           in with_engine d (serve (dp_env d) r spec) m)"

section \<open>Publishing\<close>

text \<open>The loop over the attachments; \<open>Some\<close> is the error it answers with.\<close>

fun publish_attachments ::
  "'b deps \<Rightarrow> resolved \<Rightarrow> object \<Rightarrow> 'b manager \<Rightarrow> wop list option \<times> 'b manager" where
  "publish_attachments d res [] m = (None, m)"
| "publish_attachments d res ((name, v) # atts) m =
     (case as_object (Some v) of
        None \<Rightarrow> publish_attachments d res atts m
      | Some att \<Rightarrow>
          let data = (case as_string (map_of att ''data'') of Some s \<Rightarrow> s | None \<Rightarrow> []);
              tarballPath = re_path res @ ''/-/'' @ path_base name;
              decoded = (case Std_Decode data of Some b \<Rightarrow> (b, True) | None \<Rightarrow> ([], False))
          in case with_engine d (engine_put (dp_env d) (re_repo res) tarballPath (npmVersion tarballPath)
                                   ''application/octet-stream'' None decoded) m of
               (Inl err, m1) \<Rightarrow>
                 (Some (if err = BlobFail BlobRead then http_Error ''invalid attachment encoding'' 400
                        else http_Error ''store tarball failed'' 500), m1)
             | (Inr u, m1) \<Rightarrow> publish_attachments d res atts (stored_hooks d (re_repo res) tarballPath m1))"

definition npmPublish :: "'b deps \<Rightarrow> request \<Rightarrow> resolved \<Rightarrow> 'b manager \<Rightarrow> wop list \<times> 'b manager" where
  "npmPublish d r res m =
     (if \<not> dp_rewrite d then ([], m)
      else case cx_decode (dp_codec d) (fst (LimitReader MiB256 (rq_body r))) of
             None \<Rightarrow> (http_Error ''invalid publish document'' 400, m)
           | Some doc \<Rightarrow>
               (case (case as_object (doc_get doc ''_attachments'') of
                        None \<Rightarrow> (None, m) | Some atts \<Rightarrow> publish_attachments d res atts m) of
                  (Some ops, m1) \<Rightarrow> (ops, m1)
                | (None, m1) \<Rightarrow>
                    let indexBody = (case cx_marshal (dp_codec d) (map_option (obj_del ''_attachments'') doc) of
                                       Some b \<Rightarrow> b | None \<Rightarrow> [])
                    in case with_engine d (engine_put (dp_env d) (re_repo res) (re_path res) []
                                             ''application/json'' None (indexBody, True)) m1 of
                         (Inl err, m2) \<Rightarrow> (http_Error ''store packument failed'' 500, m2)
                       | (Inr u, m2) \<Rightarrow> ([WriteHeader 201], m2)))"

section \<open>The handler\<close>

definition handleNpm :: "'b deps \<Rightarrow> 'b handler" where
  "handleNpm d r m =
     (case resolve d r FormatNPM m of
        (Inl ops, m1) \<Rightarrow> (ops, m1)
      | (Inr res0, m1) \<Rightarrow>
          let p = decodeNpmPath (re_path res0); res = res0\<lparr>re_path := p\<rparr> in
          if contains p ''..'' then (http_Error ''invalid path'' 400, m1)
          else case authorize d r (r_name (re_repo res)) (actionForMethod (rq_method r)) of
                 Some ops \<Rightarrow> (ops, m1)
               | None \<Rightarrow>
                   (case run_gates d r res (npmPackage p) (npmVersion p) m1 of
                      (Some ops, m2) \<Rightarrow> (ops, m2)
                    | (None, m2) \<Rightarrow>
                        if contains p ''/-/'' then npmTarball d r res m2
                        else if rq_method r = MethodGet \<or> rq_method r = MethodHead then
                          with_engine d (npmPackument d r res) m2
                        else if rq_method r = MethodPut then
                          (if r_type (re_repo res) \<noteq> TypeHosted then (upload_refused, m2)
                           else npmPublish d r res m2)
                        else (method_not_allowed, m2)))"

lemma re_path_update: "re_repo (res\<lparr>re_path := p\<rparr>) = re_repo res" "re_cfg (res\<lparr>re_path := p\<rparr>) = re_cfg res"
  by simp_all

lemma gate_path_simps:
  "versionDenyGate d r (res\<lparr>re_path := p\<rparr>) pkg v m = versionDenyGate d r res pkg v m"
  "request_approval d r (res\<lparr>re_path := p\<rparr>) pkg v m = request_approval d r res pkg v m"
  "vulnGate d r (res\<lparr>re_path := p\<rparr>) pkg v m = vulnGate d r res pkg v m"
  "licenseGate d r (res\<lparr>re_path := p\<rparr>) pkg v m = licenseGate d r res pkg v m"
  unfolding versionDenyGate_def request_approval_def vulnGate_def licenseGate_def re_path_update
  by (rule refl)+

lemma gates_ignore_path: "run_gates d r (res\<lparr>re_path := p\<rparr>) pkg v m = run_gates d r res pkg v m"
proof -
  have "approvalGate d r (res\<lparr>re_path := p\<rparr>) pkg v m = approvalGate d r res pkg v m"
    unfolding approvalGate_def gate_path_simps re_path_update by (rule refl)
  moreover have "gate_seq vulnGate licenseGate d r (res\<lparr>re_path := p\<rparr>) pkg v m' =
      gate_seq vulnGate licenseGate d r res pkg v m'" for m'
    unfolding gate_seq_def gate_path_simps by (rule refl)
  ultimately show ?thesis
    unfolding run_gates_def gate_seq_def [of approvalGate] by (simp split: prod.split option.split)
qed

interpretation npm: format_handler handleNpm FormatNPM "\<lambda>p. npmPackage (decodeNpmPath p)"
  "\<lambda>p. npmVersion (decodeNpmPath p)"
proof (unfold_locales, goal_cases)
  case (1 d r m res m1)
  then show ?case by (auto simp: handleNpm_def Let_def dest: authorize_status)
next
  case (2 d r m res m1 ops m2)
  then show ?case by (auto simp: handleNpm_def Let_def gates_ignore_path dest: gate_status gate_cache)
qed

section \<open>The highest stable version\<close>

lemma semver_gt_trans: "semver_gt a b \<Longrightarrow> semver_gt b c \<Longrightarrow> semver_gt a c"
  by (cases a; cases b; cases c) auto

lemma semver_gt_irrefl: "\<not> semver_gt a a"
  by (cases a) auto

lemma semver_gt_total: "semver_gt a b \<or> a = b \<or> semver_gt b a"
  by (cases a; cases b) auto

lemma parseSemver_Nil: "parseSemver [] = None"
  by (simp add: parseSemver_def trim_prefix_def has_prefix_def)

lemma highest_loop_max:
  assumes "best \<noteq> [] \<Longrightarrow> parseSemver best = Some bestN"
  shows "let h = highest_loop vs best bestN in
    (h = [] \<longleftrightarrow> best = [] \<and> (\<forall>v \<in> set vs. parseSemver v = None)) \<and>
    (h \<noteq> [] \<longrightarrow> h \<in> set (best # vs) \<and> (\<exists>n. parseSemver h = Some n \<and>
      (best \<noteq> [] \<longrightarrow> \<not> semver_gt bestN n) \<and> (\<forall>v \<in> set vs. \<forall>k. parseSemver v = Some k \<longrightarrow> \<not> semver_gt k n)))"
  using assms
proof (induction vs arbitrary: best bestN)
  case Nil
  then show ?case using semver_gt_irrefl by (cases bestN) (simp add: Let_def)
next
  case (Cons v vs)
  show ?case
  proof (cases "parseSemver v")
    case None
    with Cons.IH [OF Cons.prems] show ?thesis by (auto simp: Let_def)
  next
    case (Some k)
    then have v: "v \<noteq> []" using parseSemver_Nil by auto
    show ?thesis
    proof (cases "best = [] \<or> semver_gt k bestN")
      case True
      have "parseSemver v = Some k" by (rule Some)
      from Cons.IH [of v k] this True Some v show ?thesis
        by (auto simp: Let_def dest: semver_gt_trans)
    next
      case False
      then have "\<not> semver_gt k n" if "\<not> semver_gt bestN n" for n
        using that semver_gt_total [of k bestN] semver_gt_trans [of bestN k n] by auto
      with Cons.IH [OF Cons.prems] False Some show ?thesis by (auto simp: Let_def)
    qed
  qed
qed

lemma highest_is_max:
  shows "highestStableVersion vs = [] \<longleftrightarrow> (\<forall>v \<in> set vs. parseSemver v = None)"
    and "highestStableVersion vs \<noteq> [] \<Longrightarrow> highestStableVersion vs \<in> set vs \<and>
      (\<exists>n. parseSemver (highestStableVersion vs) = Some n \<and>
         (\<forall>v \<in> set vs. \<forall>k. parseSemver v = Some k \<longrightarrow> \<not> semver_gt k n))"
  using highest_loop_max [of "[]" "(0, 0, 0)" vs] by (auto simp: highestStableVersion_def Let_def)

text \<open>
  Whatever order the map of versions is walked in, the version \<open>latest\<close> is remapped to is one of
  the versions, parses as a stable \<open>x.y.z\<close>, and no other stable version is numerically higher; there is
  none exactly when no version parses.
\<close>

theorem highestStableVersion_max:
  "(highestStableVersion vs = [] \<longleftrightarrow> (\<forall>v \<in> set vs. parseSemver v = None)) \<and>
   (highestStableVersion vs \<noteq> [] \<longrightarrow> highestStableVersion vs \<in> set vs \<and>
      (\<exists>n. parseSemver (highestStableVersion vs) = Some n \<and>
         (\<forall>v \<in> set vs. \<forall>k. parseSemver v = Some k \<longrightarrow> \<not> semver_gt k n)))"
  using highest_is_max by blast

theorem highestStableVersion_max_witness:
  "highestStableVersion [''9.9.9'', ''10.0.0'', ''11.0.0-rc1''] = ''10.0.0'' \<and>
   \<not> semver_gt (9, 9, 9) (10, 0, 0)"
proof -
  let ?vs = "[''9.9.9'', ''10.0.0'', ''11.0.0-rc1'']"
  have h: "highestStableVersion ?vs = ''10.0.0''" and p: "parseSemver ''9.9.9'' = Some (9, 9, 9)"
    and q: "parseSemver ''10.0.0'' = Some (10, 0, 0)" by code_simp+
  then have "\<exists>n. parseSemver ''10.0.0'' = Some n \<and>
      (\<forall>v \<in> set ?vs. \<forall>k. parseSemver v = Some k \<longrightarrow> \<not> semver_gt k n)"
    using highestStableVersion_max [of ?vs] by (metis list.discI)
  then have "\<not> semver_gt (9, 9, 9) (10, 0, 0)" using p q by (metis list.set_intros(1) option.inject)
  with h show ?thesis by blast
qed

section \<open>What a client sees of a packument\<close>

definition versions_of :: "doc \<Rightarrow> object" where
  "versions_of d = (case as_object (doc_get d ''versions'') of None \<Rightarrow> [] | Some v \<Rightarrow> v)"

definition times_of :: "doc \<Rightarrow> object" where
  "times_of d = (case as_object (doc_get d ''time'') of None \<Rightarrow> [] | Some t \<Rightarrow> t)"

definition tags_of :: "doc \<Rightarrow> object" where
  "tags_of d = (case as_object (doc_get d ''dist-tags'') of None \<Rightarrow> [] | Some t \<Rightarrow> t)"

text \<open>The versions the cooldown takes out of the index.\<close>

definition quarantined_versions :: "codec \<Rightarrow> age_policy_config \<Rightarrow> instant \<Rightarrow> doc \<Rightarrow> string set" where
  "quarantined_versions cx age now d =
     {ver \<in> set (map fst (versions_of d)). index_blocked cx age now (as_string (map_of (times_of d) ver))}"

lemma set_blockedVersions:
  "set (blockedVersions cx age now (times_of d) (versions_of d)) = quarantined_versions cx age now d"
  by (auto simp: blockedVersions_def quarantined_versions_def)

lemma doc_get_set:
  "doc_get (map_option (obj_set k v) d) j = (if d = None then None else if j = k then Some v else doc_get d j)"
  by (cases d) (auto simp: doc_get_def entries_def map_of_obj_set)

lemma versions_of_rewritten:
  "versions_of (fst (rewritten_doc cx d base repo pkg age now)) =
   kept_versions (blockedVersions cx age now (times_of d) (versions_of d))
     (base @ ''/npm/'' @ repo @ ''/'' @ pkg @ ''/-/'') (versions_of d)"
proof (cases "as_object (doc_get d ''versions'')")
  case None
  then show ?thesis
    by (cases "as_object (doc_get d ''dist-tags'')")
      (auto simp: rewritten_doc_def Let_def versions_of_def times_of_def doc_get_set kept_versions_def)
next
  case (Some v)
  then have "d \<noteq> None" by (cases d) (simp_all add: doc_get_def entries_def)
  with Some show ?thesis
    by (cases "as_object (doc_get d ''dist-tags'')")
      (auto simp: rewritten_doc_def Let_def versions_of_def times_of_def doc_get_set)
qed

lemma tags_of_rewritten:
  "tags_of (fst (rewritten_doc cx d base repo pkg age now)) =
   (if as_object (doc_get d ''dist-tags'') = None then []
    else pruned_tags (blockedVersions cx age now (times_of d) (versions_of d))
           (versions_of (fst (rewritten_doc cx d base repo pkg age now))) (tags_of d))"
proof (cases "as_object (doc_get d ''dist-tags'')")
  case None
  then show ?thesis
    by (auto simp: rewritten_doc_def Let_def tags_of_def doc_get_set)
next
  case (Some t)
  then have "d \<noteq> None" by (cases d) (simp_all add: doc_get_def entries_def)
  with Some show ?thesis
    unfolding versions_of_rewritten
    by (auto simp: rewritten_doc_def Let_def tags_of_def versions_of_def times_of_def doc_get_set)
qed

lemma fst_kept: "map fst (kept_versions blocked prefix vs) = filter (\<lambda>v. v \<notin> set blocked) (map fst vs)"
  by (induction vs) (auto simp: kept_versions_def)

lemma pruned_tag:
  assumes "(tag, JStr ver) \<in> set (pruned_tags blocked versions tags)"
  shows "ver \<notin> set blocked \<or> ver \<in> set (map fst versions)"
proof -
  have set_sub: "set (obj_set k v ob) \<subseteq> insert (k, v) (set ob)" for k v ob
    by (induction k v ob rule: obj_set.induct) auto
  let ?kept = "filter (\<lambda>(tag, v). \<not> tag_blocked blocked v) tags"
  have k: "ver \<notin> set blocked" if "(tag, JStr ver) \<in> set ?kept" using that by (auto simp: tag_blocked_def)
  have "(tag, JStr ver) \<in> set ?kept \<or> ver = highestStableVersion (map fst versions) \<and> ver \<noteq> []"
    using assms set_sub [of "''latest''" "JStr (highestStableVersion (map fst versions))" ?kept]
    by (auto simp: pruned_tags_def Let_def split: if_splits)
  then show ?thesis using k highest_is_max(2) by blast
qed


definition demo_packument :: doc where
  "demo_packument = Some [(''time'', JObj [(''1.0.0'', JStr ''old''), (''1.1.0'', JStr ''new'')]),
     (''versions'', JObj [(''1.0.0'', JObj []), (''1.1.0'', JObj [])]),
     (''dist-tags'', JObj [(''latest'', JStr ''1.1.0'')])]"

definition demo_cooldown :: age_policy_config where
  "demo_cooldown = \<lparr>ag_enabled = True, ag_min_age = Hour, ag_max_age = 0, ag_action = ActionBlock\<rparr>"

definition clock_codec :: codec where
  "clock_codec = demo_codec\<lparr>cx_rfc3339 := (\<lambda>t. Some (if t = ''new'' then 5 * Hour else 0))\<rparr>"


text \<open>
  The index filter and the engine's age gate agree on the cooldown only: of the releases the engine
  refuses to serve, the index hides exactly those younger than the cooldown under the action \<open>block\<close>. A
  release that is refused for being older than the maximum age, or under the empty action, which
  validation accepts and the engine treats as blocking, stays in the index.
\<close>

theorem index_filter_gaps:
  assumes "fst (evaluateAge age (Some pub) now) = ageBlock" and "cx_rfc3339 cx ts = Some pub"
  shows "index_blocked cx age now (Some ts) \<longleftrightarrow> ag_action age = ActionBlock \<and> time_sub now pub < ag_min_age age"
  using assms by (auto simp: index_blocked_def evaluateAge_def Let_def split: if_splits)

theorem index_filter_gaps_witness:
  "\<not> index_blocked clock_codec (demo_cooldown\<lparr>ag_max_age := 2 * Hour\<rparr>) (5 * Hour) (Some ''old'') \<and>
   fst (evaluateAge (demo_cooldown\<lparr>ag_max_age := 2 * Hour\<rparr>) (Some 0) (5 * Hour)) = ageBlock"
proof -
  have b: "fst (evaluateAge (demo_cooldown\<lparr>ag_max_age := 2 * Hour\<rparr>) (Some 0) (5 * Hour)) = ageBlock"
    and t: "cx_rfc3339 clock_codec ''old'' = Some 0"
    and a: "\<not> time_sub (5 * Hour) 0 < ag_min_age (demo_cooldown\<lparr>ag_max_age := 2 * Hour\<rparr>)" by code_simp+
  then show ?thesis using index_filter_gaps [OF b t] by simp
qed

end
