(* ===== verification/Listings.thy ===== *)
theory Listings
  imports Approvals Retention
begin

text \<open>
  The remaining queries of the metadata store (\<^verbatim>\<open>internal/meta/artifact.go\<close>, \<^verbatim>\<open>blob.go\<close>): listings by
  path prefix, statistics, and the pages of digests a standby mirrors. Prefixes go through SQL's
  \<^verbatim>\<open>LIKE\<close>, in which \<open>%\<close> stands for any run of characters and \<open>_\<close> for any one, and letters match in
  either case.
\<close>

section \<open>LIKE\<close>

function like :: "string \<Rightarrow> string \<Rightarrow> bool" where
  "like [] s = (s = [])"
| "like (p # ps) s =
     (if p = CHR ''%'' then (like ps s \<or> (case s of [] \<Rightarrow> False | c # t \<Rightarrow> like (p # ps) t))
      else case s of
             [] \<Rightarrow> False
           | c # t \<Rightarrow> (p = CHR ''_'' \<or> lower_char p = lower_char c) \<and> like ps t)"
  by pat_completeness auto
termination
  by (relation "measures [\<lambda>(p, s). length s, \<lambda>(p, s). length p]") auto

declare like.simps(2) [simp del]

lemma like_percent_end: "like [CHR ''%''] s"
  by (induction s) (simp_all add: like.simps(2))

text \<open>A prefix pattern without wildcards of its own is a comparison without regard to case.\<close>

lemma like_prefix:
  "CHR ''%'' \<notin> set p \<Longrightarrow> CHR ''_'' \<notin> set p \<Longrightarrow>
   like (p @ ''%'') s \<longleftrightarrow> has_prefix (to_lower s) (to_lower p)"
proof (induction p arbitrary: s)
  case Nil
  then show ?case by (simp add: like_percent_end has_prefix_def to_lower_def)
next
  case (Cons x p)
  then show ?case by (cases s) (auto simp: like.simps(2) has_prefix_def to_lower_def)
qed

section \<open>Queries\<close>

definition ListArtifacts :: "store \<Rightarrow> nat \<Rightarrow> string \<Rightarrow> store_error + artifact list" where
  "ListArtifacts st rid prefix =
     (if st_fault st TArtifacts then Inl ErrDB
      else Inr (order_by (\<lambda>a b. str_less (a_path a) (a_path b))
             (filter (\<lambda>a. a_repo_id a = rid \<and> like (prefix @ ''%'') (a_path a)) (st_artifacts st))))"

definition ListRepoArtifacts :: "store \<Rightarrow> nat \<Rightarrow> string \<Rightarrow> int \<Rightarrow> store_error + artifact list" where
  "ListRepoArtifacts st rid prefix lim =
     (if st_fault st TArtifacts then Inl ErrDB
      else Inr (take (if lim \<le> 0 then 500 else nat lim)
             (order_by (\<lambda>a b. accessed_before b a)
               (filter (\<lambda>a. a_repo_id a = rid \<and> like (prefix @ ''%'') (a_path a)) (st_artifacts st)))))"

text \<open>Count and total size of every repository that has artifacts.\<close>

definition AllRepoStats :: "store \<Rightarrow> store_error + (nat \<times> nat \<times> int) list" where
  "AllRepoStats st =
     (if st_fault st TArtifacts then Inl ErrDB
      else Inr (map (\<lambda>rid. (rid, length (repo_artifacts st rid), sum_list (map a_size (repo_artifacts st rid))))
             (remdups (map a_repo_id (st_artifacts st)))))"

definition BlobStats :: "store \<Rightarrow> store_error + nat \<times> int" where
  "BlobStats st =
     (if st_fault st TBlobs then Inl ErrDB
      else Inr (length (st_blobs st), sum_list (map b_size (st_blobs st))))"

definition ListBlobDigests :: "store \<Rightarrow> string \<Rightarrow> nat \<Rightarrow> store_error + string list" where
  "ListBlobDigests st after lim =
     (if st_fault st TBlobs then Inl ErrDB
      else Inr (take lim (str_sort (filter (\<lambda>d. str_less after d) (map b_sha256 (st_blobs st))))))"

section \<open>Listing by prefix\<close>

lemma ListArtifacts_exact:
  assumes "\<not> st_fault st TArtifacts" and "CHR ''%'' \<notin> set p" and "CHR ''_'' \<notin> set p"
  shows "\<exists>arts. ListArtifacts st rid p = Inr arts \<and>
    set arts = {a \<in> set (st_artifacts st). a_repo_id a = rid \<and> has_prefix (to_lower (a_path a)) (to_lower p)}"
  using assms like_prefix [OF assms(2,3)] by (auto simp: ListArtifacts_def)

text \<open>A percent sign in the prefix is a wildcard: it lists the whole repository.\<close>

lemma ListArtifacts_percent:
  "\<not> st_fault st TArtifacts \<Longrightarrow>
   \<exists>arts. ListArtifacts st rid ''%'' = Inr arts \<and> set arts = {a \<in> set (st_artifacts st). a_repo_id a = rid}"
proof -
  have "like ''%%'' s" for s by (subst like.simps(2)) (simp add: like_percent_end)
  moreover assume "\<not> st_fault st TArtifacts"
  ultimately show ?thesis by (simp add: ListArtifacts_def)
qed

end
