(* ===== verification/Pypi.thy ===== *)
theory Pypi
  imports Npm Listings
begin

text \<open>
  The PyPI handler (\<^verbatim>\<open>internal/repo/pypi.go\<close>): the simple index of a proxy is cached as the upstream
  sent it and rewritten per request, the address of a file travels base64-encoded in the path that
  index gives it, a hosted repository's index is built from its artifacts, and twine uploads arrive as
  a multipart form.

  A parsed URL is a parameter (\<open>parse_url\<close>, with the scheme, the host name and the text of the URL),
  and so are the parts of a multipart body. A panic while rewriting unwinds to the server's recoverer,
  which answers 500; the handlers answer that directly.
\<close>

section \<open>Parameters\<close>

record purl =
  pu_scheme :: string
  pu_host :: string
  pu_text :: string

type_synonym parse_url = "string \<Rightarrow> purl option"

text \<open>A part of a form: its field name, its file name and its content; \<open>None\<close> is a part that cannot be read.\<close>

type_synonym form_part = "(string \<times> string \<times> reader) option"

definition pypiJSONType :: string where
  "pypiJSONType = ''application/vnd.pypi.simple.v1+json''"

section \<open>The simple index\<close>

datatype 'a rewrite = RewritePanics | RewriteFails | Rewritten 'a

definition rewrite_file :: "codec \<Rightarrow> string \<Rightarrow> age_policy_config \<Rightarrow> instant \<Rightarrow> json \<Rightarrow> json option" where
  "rewrite_file cx prefix age now v =
     (case as_object (Some v) of
        None \<Rightarrow> Some v
      | Some fm \<Rightarrow>
          if index_blocked cx age now (as_string (map_of fm ''upload-time'')) then None
          else case as_string (map_of fm ''url'') of
                 None \<Rightarrow> Some v
               | Some u \<Rightarrow>
                   let fname = (case as_string (map_of fm ''filename'') of Some f \<Rightarrow> f | None \<Rightarrow> []);
                       name = (if fname = [] then path_base u else fname)
                   in Some (JObj (obj_set ''url'' (JStr (prefix @ RawURL_Encode u @ ''/'' @ name)) fm)))"

definition index_files :: "doc \<Rightarrow> json list" where
  "index_files d = (case as_array (doc_get d ''files'') of None \<Rightarrow> [] | Some fs \<Rightarrow> fs)"

text \<open>The assignment to \<open>files\<close> panics on the nil map that decoding \<^verbatim>\<open>null\<close> leaves.\<close>

definition rewriteSimpleIndexDoc ::
  "codec \<Rightarrow> doc \<Rightarrow> string \<Rightarrow> string \<Rightarrow> age_policy_config \<Rightarrow> instant \<Rightarrow> (bytes \<times> nat) rewrite" where
  "rewriteSimpleIndexDoc cx d base repoName age now =
     (let prefix = base @ ''/pypi/'' @ repoName @ ''/packages/'';
          kept = List.map_filter (rewrite_file cx prefix age now) (index_files d)
      in case d of
           None \<Rightarrow> RewritePanics
         | Some ob \<Rightarrow>
             (case cx_marshal cx (Some (obj_set ''files'' (JArr kept) ob)) of
                None \<Rightarrow> RewriteFails
              | Some out \<Rightarrow> Rewritten (out, length (index_files d) - length kept)))"

definition rewriteSimpleIndex ::
  "codec \<Rightarrow> bytes \<Rightarrow> string \<Rightarrow> string \<Rightarrow> age_policy_config \<Rightarrow> instant \<Rightarrow> (bytes \<times> nat) rewrite" where
  "rewriteSimpleIndex cx body base repoName age now =
     (case cx_unmarshal cx body of
        None \<Rightarrow> RewriteFails | Some d \<Rightarrow> rewriteSimpleIndexDoc cx d base repoName age now)"

text \<open>\<^verbatim>\<open>html.EscapeString\<close>.\<close>

definition escape_char :: "char \<Rightarrow> string" where
  "escape_char c =
     (if c = CHR ''&'' then ''&amp;'' else if c = CHR 0x27 then ''&#39;'' else if c = CHR ''<'' then ''&lt;''
      else if c = CHR ''>'' then ''&gt;'' else if c = CHR 0x22 then ''&#34;'' else [c])"

definition EscapeString :: "string \<Rightarrow> string" where
  "EscapeString s = concat (map escape_char s)"

abbreviation nl :: string where "nl \<equiv> [CHR 0x0A]"

definition file_link :: "string \<times> string \<times> string \<times> string \<Rightarrow> string" where
  "file_link = (\<lambda>(fname, url, sha, requires).
     let href = (if sha \<noteq> [] then url @ ''#sha256='' @ sha else url)
     in ''<a href='' @ quote @ EscapeString href @ quote @
        (if requires \<noteq> [] then '' data-requires-python='' @ quote @ EscapeString requires @ quote else []) @
        ''>'' @ EscapeString fname @ ''</a><br/>'' @ nl)"

definition simpleHTML :: "codec \<Rightarrow> bytes \<Rightarrow> string \<Rightarrow> bytes" where
  "simpleHTML cx jsonBody project =
     (let title = EscapeString (''Links for '' @ project)
      in ''<!DOCTYPE html>'' @ nl @ ''<html>'' @ nl @ ''<head><meta name='' @ quote @ ''pypi:repository-version'' @
         quote @ '' content='' @ quote @ ''1.0'' @ quote @ ''><title>'' @ title @ ''</title></head>'' @ nl @
         ''<body>'' @ nl @ ''<h1>'' @ title @ ''</h1>'' @ nl @
         concat (map file_link (cx_files cx jsonBody)) @ ''</body>'' @ nl @ ''</html>'' @ nl)"

definition writeSimple :: "codec \<Rightarrow> request \<Rightarrow> bytes \<Rightarrow> string \<Rightarrow> wop list" where
  "writeSimple cx r jsonBody project =
     (if contains (header_get (rq_headers r) ''Accept'') pypiJSONType then
        SetHeader ''Content-Type'' pypiJSONType #
        (if rq_method r = MethodHead then [WriteHeader 200] else [WriteBytes jsonBody])
      else
        SetHeader ''Content-Type'' ''text/html; charset=utf-8'' #
        (if rq_method r = MethodHead then [WriteHeader 200] else [WriteBytes (simpleHTML cx jsonBody project)]))"

definition recovered :: "wop list" where
  "recovered = http_Error ''internal server error'' 500"

text \<open>\<open>Some\<close> when the request was handled; \<open>None\<close> falls through to the upstream.\<close>

definition pypiServeCachedSimple ::
  "'b deps \<Rightarrow> request \<Rightarrow> resolved \<Rightarrow> string \<Rightarrow> string \<Rightarrow> artifact \<Rightarrow> 'b engine \<Rightarrow>
   wop list option \<times> 'b engine" where
  "pypiServeCachedSimple d r res project key art e =
     (let env = dp_env d; cx = dp_codec d in
      if \<not> dp_rewrite d then (Some [], e)
      else case bs_open (ev_blobs env) (a_blob_sha256 art) (en_blobs e) of
             Inl err \<Rightarrow> (None, e)
           | Inr (b, sz) \<Rightarrow>
               (case cx_decode cx (fst (LimitReader MiB64 (b, True))) of
                  None \<Rightarrow> (None, e)
                | Some doc \<Rightarrow>
                    (case rewriteSimpleIndexDoc cx doc (externalBase d r) (r_name (re_repo res))
                            (c_age_policy (re_cfg res)) (ev_now env) of
                       RewritePanics \<Rightarrow> (Some recovered, e)
                     | RewriteFails \<Rightarrow> (None, e)
                     | Rewritten (out, removed) \<Rightarrow>
                         (Some (writeSimple (dp_codec d) r out project),
                          e\<lparr>en_store := snd (Touch (ev_now env) (r_id (re_repo res)) key (en_store e))\<rparr>))))"

definition simple_upstream ::
  "'b deps \<Rightarrow> request \<Rightarrow> resolved \<Rightarrow> string \<Rightarrow> string \<Rightarrow> 'b engine \<Rightarrow>
   wop list \<times> 'b engine" where
  "simple_upstream d r res project key e0 =
     (let env = dp_env d; cx = dp_codec d; repo = re_repo res; negKey = r_name repo @ ''/'' @ key
      in case neg_has (ev_now env) negKey (en_neg e0) of
           (hit, neg) \<Rightarrow>
             let e1 = e0\<lparr>en_neg := neg\<rparr> in
             if hit then (http_NotFound, e1)
             else let e = emit (CacheMiss (r_name repo)) e1 in
               case ev_fetch env False (joinUpstream (r_upstream_url repo) project @ ''/'') of
                 None \<Rightarrow> (http_Error ''upstream unreachable'' 502, emit (UpstreamErr (r_name repo)) e)
               | Some resp \<Rightarrow>
                   if ur_status resp = 404 then
                     (http_NotFound,
                      e\<lparr>en_neg := neg_set (ev_now env) negKey (cc_negative_ttl (c_cache (re_cfg res))) (en_neg e)\<rparr>)
                   else if ur_status resp < 200 \<or> 300 \<le> ur_status resp then
                     (http_Error ''upstream error'' 502, emit (UpstreamErr (r_name repo)) e)
                   else if \<not> dp_rewrite d then ([], e)
                   else case LimitReader MiB64 (ur_body resp) of
                     (body, ok) \<Rightarrow>
                       if \<not> ok then (http_Error ''read upstream'' 502, e)
                       else case rewriteSimpleIndex cx body (externalBase d r) (r_name repo)
                                   (c_age_policy (re_cfg res)) (ev_now env) of
                         RewritePanics \<Rightarrow> (recovered, e)
                       | RewriteFails \<Rightarrow> (http_Error ''upstream simple index is not PEP 691 JSON'' 502, e)
                       | Rewritten (out, removed) \<Rightarrow>
                           let e2 = e\<lparr>en_events := en_events e @
                                 replicate removed (AgeViolation (r_name repo) (ag_action (c_age_policy (re_cfg res))))\<rparr>
                           in if \<not> cc_enabled (c_cache (re_cfg res)) then (writeSimple (dp_codec d) r out project, e2)
                              else case storeArtifact env (put_spec repo key [] []) (body, True) pypiJSONType None e2 of
                                     (Inl err, e3) \<Rightarrow> (http_Error ''cache write failed'' 500, e3)
                                   | (Inr art, e3) \<Rightarrow> (writeSimple (dp_codec d) r out project, e3))"

text \<open>The index of a hosted repository.\<close>

definition local_file :: "string \<Rightarrow> artifact \<Rightarrow> json" where
  "local_file base a =
     JObj [(''filename'', JStr (path_base (a_path a))), (''url'', JStr (base @ a_path a)),
           (''hashes'', JObj [(''sha256'', JStr (a_blob_sha256 a))])]"

definition pypiLocalSimple ::
  "'b deps \<Rightarrow> request \<Rightarrow> resolved \<Rightarrow> string \<Rightarrow> store \<Rightarrow> wop list" where
  "pypiLocalSimple d r res project st =
     (case ListArtifacts st (r_id (re_repo res)) (''packages/'' @ project @ ''/'') of
        Inl err \<Rightarrow> http_Error ''metadata error'' 500
      | Inr arts \<Rightarrow>
          if length arts = 0 then http_NotFound
          else let files = map (local_file (externalBase d r @ ''/pypi/'' @ r_name (re_repo res) @ ''/'')) arts;
                   versions = str_sort (remdups (filter (\<lambda>v. v \<noteq> []) (map a_version arts)))
               in case cx_marshal (dp_codec d)
                         (Some [(''meta'', JObj [(''api-version'', JStr ''1.1'')]), (''name'', JStr project),
                                (''files'', JArr files), (''versions'', JArr (map JStr versions))]) of
                    None \<Rightarrow> http_Error ''encode index'' 500
                  | Some out \<Rightarrow> writeSimple (dp_codec d) r out project)"

definition simple_proxy ::
  "'b deps \<Rightarrow> request \<Rightarrow> resolved \<Rightarrow> string \<Rightarrow> 'b engine \<Rightarrow> wop list \<times> 'b engine" where
  "simple_proxy d r res project e =
     (let key = ''simple/'' @ project; rid = r_id (re_repo res) in
      case GetArtifact (en_store e) rid key of
        Inl err \<Rightarrow> if err \<noteq> ErrNotFound then (http_Error ''metadata error'' 500, e)
                   else simple_upstream d r res project key e
      | Inr art \<Rightarrow>
          if \<not> fresh (dp_now d) art (re_cfg res) kindMetadata then simple_upstream d r res project key e
          else if rq_method r = MethodHead then
            (writeSimple (dp_codec d) r [] project, e\<lparr>en_store := snd (Touch (dp_now d) rid key (en_store e))\<rparr>)
          else case pypiServeCachedSimple d r res project key art e of
                 (Some ops, e1) \<Rightarrow> (ops, e1)
               | (None, e1) \<Rightarrow> simple_upstream d r res project key e1)"

definition pypiSimple ::
  "'b deps \<Rightarrow> request \<Rightarrow> resolved \<Rightarrow> 'b manager \<Rightarrow> wop list \<times> 'b manager" where
  "pypiSimple d r res m =
     (let project = normalizePyPI (trim_both (CHR ''/'') (trim_prefix (re_path res) ''simple/'')) in
      if project = [] then (http_NotFound, m)
      else case approvalGate d r res project [] m of
             (Some ops, m1) \<Rightarrow> (ops, m1)
           | (None, m1) \<Rightarrow>
               if r_type (re_repo res) = TypeHosted
               then (pypiLocalSimple d r res project (mg_store m1), m1)
               else with_engine d (simple_proxy d r res project) m1)"

section \<open>Files\<close>

definition sameHost :: "parse_url \<Rightarrow> purl \<Rightarrow> string \<Rightarrow> bool" where
  "sameHost parse u upstream =
     (case parse upstream of None \<Rightarrow> False | Some up \<Rightarrow> to_lower (pu_host u) = to_lower (pu_host up))"

definition pypi_spec :: "'b deps \<Rightarrow> resolved \<Rightarrow> fetchSpec" where
  "pypi_spec d res =
     (file_spec d res kindArtifact (pypiVersion (path_base (re_path res))) ''application/octet-stream'')
       \<lparr>sp_upstreamURL := []\<rparr>"

text \<open>The upstream address of a file and whether it is another host's; \<open>None\<close> is a bad reference.\<close>

definition file_ref :: "parse_url \<Rightarrow> resolved \<Rightarrow> (string \<times> bool) option" where
  "file_ref parse res =
     (let rest = trim_prefix (re_path res) ''packages/'';
          (ref, filename) = (case cut_at (CHR ''/'') rest of Some (a, b) \<Rightarrow> (a, b) | None \<Rightarrow> (rest, []))
      in case RawURL_Decode ref of
           None \<Rightarrow> None
         | Some raw \<Rightarrow>
             (case parse raw of
                None \<Rightarrow> None
              | Some fileURL \<Rightarrow>
                  if pu_scheme fileURL \<noteq> ''http'' \<and> pu_scheme fileURL \<noteq> ''https'' \<or> pu_host fileURL = [] then None
                  else let u = pu_text fileURL;
                           u1 = (if has_suffix filename ''.metadata'' \<and> \<not> has_suffix u ''.metadata''
                                 then u @ ''.metadata'' else u)
                       in Some (u1, \<not> sameHost parse fileURL (r_upstream_url (re_repo res)))))"

definition pypiFile :: "parse_url \<Rightarrow> 'b deps \<Rightarrow> request \<Rightarrow> resolved \<Rightarrow> 'b manager \<Rightarrow> wop list \<times> 'b manager" where
  "pypiFile parse d r res m =
     (let base = path_base (re_path res);
          pypiPkg = pypiPackageFromFilename base;
          pypiVer = pypiVersion (trim_suffix base ''.metadata'')
      in case run_gates d r res pypiPkg pypiVer m of
           (Some ops, m1) \<Rightarrow> (ops, m1)
         | (None, m1) \<Rightarrow>
             if r_type (re_repo res) = TypeProxy then
               (case file_ref parse res of
                  None \<Rightarrow> (http_Error ''invalid package reference'' 400, m1)
                | Some (u, untrusted) \<Rightarrow>
                    with_engine d (serve (dp_env d) r
                      ((pypi_spec d res)\<lparr>sp_upstreamURL := u, sp_untrustedURL := untrusted\<rparr>)) m1)
             else with_engine d (serve (dp_env d) r (pypi_spec d res)) m1)"

section \<open>Uploads\<close>

text \<open>What the loop over the parts has read: the fields, and the stored content if there was any.\<close>

record upload =
  ul_fields :: "(string \<times> string) list"
  ul_content :: "(string \<times> string \<times> int) option"

fun upload_parts ::
  "'b env \<Rightarrow> form_part list \<Rightarrow> upload \<Rightarrow> 'b engine \<Rightarrow> (wop list + upload) \<times> 'b engine" where
  "upload_parts env [] ul e = (Inr ul, e)"
| "upload_parts env (None # parts) ul e = (Inl (http_Error ''invalid multipart form'' 400), e)"
| "upload_parts env (Some (name, filename, rd) # parts) ul e =
     (if name = ''content'' then
        (if ul_content ul \<noteq> None then (Inl (http_Error ''duplicate content field'' 400), e)
         else case bs_put (ev_blobs env) (LimitReader (MiB256 + 1) rd) (en_blobs e) of
                (Inl err, bl) \<Rightarrow> (Inl (http_Error ''store failed'' 500), e\<lparr>en_blobs := bl\<rparr>)
              | (Inr (digest, sz), bl) \<Rightarrow>
                  let e1 = e\<lparr>en_blobs := bl\<rparr> in
                  if MiB256 < sz then
                    (Inl (http_Error ''file too large'' 413), abandonBlob env digest sz e1)
                  else upload_parts env parts
                         (ul\<lparr>ul_content := Some (path_base filename, digest, sz)\<rparr>) e1)
      else case LimitReader 1048576 rd of
             (val, ok) \<Rightarrow>
               if \<not> ok then (Inl (http_Error ''invalid multipart form'' 400), e)
               else upload_parts env parts
                      (if map_of (ul_fields ul) name = None
                       then ul\<lparr>ul_fields := ul_fields ul @ [(name, val)]\<rparr> else ul) e)"

definition field :: "upload \<Rightarrow> string \<Rightarrow> string" where
  "field ul k = (case map_of (ul_fields ul) k of Some v \<Rightarrow> v | None \<Rightarrow> [])"

definition finish_upload ::
  "'b deps \<Rightarrow> resolved \<Rightarrow> upload \<Rightarrow> 'b manager \<Rightarrow> wop list \<times> 'b manager" where
  "finish_upload d res ul m =
     (let name = normalizePyPI (field ul ''name''); env = dp_env d;
          abandon = (\<lambda>digest sz. m\<lparr>mg_engine := abandonBlob env digest sz (mg_engine m)\<rparr>)
      in case ul_content ul of
           None \<Rightarrow> (http_Error ''missing name or content field'' 400, m)
         | Some (filename, digest, sz) \<Rightarrow>
             if name = [] then (http_Error ''missing name or content field'' 400, abandon digest sz)
             else if filename = [] \<or> filename = ''.'' \<or> filename = ''/'' then
               (http_Error ''invalid filename'' 400, abandon digest sz)
             else let p = ''packages/'' @ name @ ''/'' @ filename in
               case with_engine d (recordUpload env (re_repo res) p (field ul ''version'')
                                     ''application/octet-stream'' digest sz) m of
                 (Inl err, m1) \<Rightarrow> (http_Error ''store failed'' 500, m1)
               | (Inr u, m1) \<Rightarrow> ([WriteHeader 201], stored_hooks d (re_repo res) p m1))"

definition pypiUpload ::
  "('b deps \<Rightarrow> request \<Rightarrow> form_part list option) \<Rightarrow> 'b deps \<Rightarrow> request \<Rightarrow> resolved \<Rightarrow> 'b manager \<Rightarrow>
   wop list \<times> 'b manager" where
  "pypiUpload multipart d r res m =
     (case multipart d r of
        None \<Rightarrow> (http_Error ''invalid multipart form'' 400, m)
      | Some parts \<Rightarrow>
          (case with_engine d (upload_parts (dp_env d) parts \<lparr>ul_fields = [], ul_content = None\<rparr>) m of
             (Inl ops, m1) \<Rightarrow> (ops, m1)
           | (Inr ul, m1) \<Rightarrow> finish_upload d res ul m1))"

section \<open>The handler\<close>

record 'b pypi_params =
  pp_parse :: parse_url
  pp_multipart :: "'b deps \<Rightarrow> request \<Rightarrow> form_part list option"

definition handlePyPI :: "'b pypi_params \<Rightarrow> 'b deps \<Rightarrow> 'b handler" where
  "handlePyPI pp d r m =
     (case resolveRepo d r FormatPyPI m of
        (Inl ops, m1) \<Rightarrow> (ops, m1)
      | (Inr res, m1) \<Rightarrow>
          (case authorize d r (r_name (re_repo res)) (actionForMethod (rq_method r)) of
             Some ops \<Rightarrow> (ops, m1)
           | None \<Rightarrow>
               let reading = rq_method r = MethodGet \<or> rq_method r = MethodHead in
               if re_path res = [] then
                 (if rq_method r \<noteq> MethodPost then (method_not_allowed, m1)
                  else if r_type (re_repo res) \<noteq> TypeHosted then (upload_refused, m1)
                  else pypiUpload (pp_multipart pp) d r res m1)
               else if has_prefix (re_path res) ''simple/'' then
                 (if \<not> reading then (method_not_allowed, m1) else pypiSimple d r res m1)
               else if has_prefix (re_path res) ''packages/'' then
                 (if \<not> reading then (method_not_allowed, m1) else pypiFile (pp_parse pp) d r res m1)
               else (http_NotFound, m1)))"

section \<open>The handler keeps the contract\<close>

definition pypi_package :: "string \<Rightarrow> string" where
  "pypi_package p =
     (if has_prefix p ''simple/'' then normalizePyPI (trim_both (CHR ''/'') (trim_prefix p ''simple/''))
      else if has_prefix p ''packages/'' then pypiPackageFromFilename (path_base p) else [])"

definition pypi_version :: "string \<Rightarrow> string" where
  "pypi_version p =
     (if has_prefix p ''simple/'' then []
      else if has_prefix p ''packages/'' then pypiVersion (trim_suffix (path_base p) ''.metadata'') else [])"

lemma run_gates_no_version: "run_gates d r res pkg [] m = approvalGate d r res pkg [] m"
proof -
  have "vulnGate d r res pkg [] m' = (None, m')" and "licenseGate d r res pkg [] m' = (None, m')" for m'
    by (simp_all add: vulnGate_def licenseGate_def Let_def)
  then show ?thesis by (simp add: run_gates_def gate_seq_def split: prod.split option.split)
qed

lemma run_gates_reads: "run_gates d r res pkg v m = (Some ops, m1) \<Longrightarrow> is_read r"
  using gates.blocks_only_proxy [of d r res pkg v m] by simp

lemma resolve_resolveRepo: "resolve d r fmt m = (Inr res, m1) \<Longrightarrow> resolveRepo d r fmt m = (Inr res, m1)"
  by (auto simp: resolve_def split: sum.splits prod.splits if_splits)

interpretation pypi: format_handler "handlePyPI pp" FormatPyPI pypi_package pypi_version
proof (unfold_locales, goal_cases)
  case (1 d r m res m1)
  then obtain ops where a: "authorize d r (r_name (re_repo res)) (actionForMethod (rq_method r)) = Some ops" by blast
  with authorize_status [OF a] resolve_resolveRepo [OF 1(1)] show ?case by (simp add: handlePyPI_def)
next
  case (2 d r m res m1 ops m2)
  let ?p = "re_path res"
  have rr: "resolveRepo d r FormatPyPI m = (Inr res, m1)" and ne: "?p \<noteq> []"
    using resolve_resolveRepo [OF 2(1)] resolve_Inr [OF 2(1)] by simp_all
  have rd: "rq_method r = MethodGet \<or> rq_method r = MethodHead" using run_gates_reads [OF 2(3)] by (simp add: is_read_def)
  have pk: "pypi_package ?p \<noteq> []" using 2(3) run_gates_unnamed by (metis option.distinct(1) prod.inject)
  consider (index) "has_prefix ?p ''simple/''" | (dist) "\<not> has_prefix ?p ''simple/''" "has_prefix ?p ''packages/''"
    using pk by (auto simp: pypi_package_def split: if_splits)
  then have "handlePyPI pp d r m = (ops, m2)"
  proof cases
    case index
    then have "approvalGate d r res (pypi_package ?p) [] m1 = (Some ops, m2)"
      using 2(3) by (simp add: pypi_version_def run_gates_no_version)
    with index rr ne rd pk 2(2) show ?thesis
      by (auto simp: handlePyPI_def pypiSimple_def pypi_package_def Let_def)
  next
    case dist
    then have "run_gates d r res (pypiPackageFromFilename (path_base ?p))
        (pypiVersion (trim_suffix (path_base ?p) ''.metadata'')) m1 = (Some ops, m2)"
      using 2(3) by (simp add: pypi_package_def pypi_version_def)
    with dist rr ne rd 2(2) show ?thesis by (auto simp: handlePyPI_def pypiFile_def Let_def)
  qed
  then show ?case using gate_status [OF 2(3)] gate_cache [OF 2(3)] by simp
qed

section \<open>References\<close>

lemma file_ref_path:
  assumes "parse u = Some fu" and "pu_scheme fu = ''http'' \<or> pu_scheme fu = ''https''" and "pu_host fu \<noteq> []"
    and "\<not> has_suffix name ''.metadata''"
  shows "file_ref parse (res\<lparr>re_path := ''packages/'' @ RawURL_Encode u @ ''/'' @ name\<rparr>) =
    Some (pu_text fu, \<not> sameHost parse fu (r_upstream_url (re_repo res)))"
proof -
  have "trim_prefix (''packages/'' @ RawURL_Encode u @ ''/'' @ name) ''packages/'' = RawURL_Encode u @ CHR ''/'' # name"
    by (simp add: trim_prefix_def has_prefix_def)
  then show ?thesis
    using assms by (auto simp: file_ref_def cut_at_append [OF RawURL_Encode_seg] RawURL_roundtrip Let_def)
qed

text \<open>
  A file in a rewritten index leads back to the file: when a client follows the address the index
  gives, the upstream address recovered from the path is the one the index had, and the engine is told
  to guard the fetch exactly when its host is not the configured upstream's.
\<close>

theorem pypi_ref_roundtrip:
  assumes "as_string (map_of fm ''url'') = Some u" and "as_string (map_of fm ''filename'') = Some name" and "name \<noteq> []"
    and "\<not> index_blocked cx age now (as_string (map_of fm ''upload-time''))"
    and "\<not> has_suffix name ''.metadata''"
    and "parse u = Some \<lparr>pu_scheme = ''https'', pu_host = host, pu_text = u\<rparr>" and "host \<noteq> []"
  shows "\<exists>fm' p. rewrite_file cx (base @ ''/pypi/'' @ repo @ ''/'' @ ''packages/'') age now (JObj fm) = Some (JObj fm') \<and>
    as_string (map_of fm' ''url'') = Some (base @ ''/pypi/'' @ repo @ ''/'' @ p) \<and>
    file_ref parse (res\<lparr>re_path := p\<rparr>) =
      Some (u, \<not> sameHost parse \<lparr>pu_scheme = ''https'', pu_host = host, pu_text = u\<rparr> (r_upstream_url (re_repo res)))"
proof -
  let ?p = "''packages/'' @ RawURL_Encode u @ ''/'' @ name"
  let ?fm = "obj_set ''url'' (JStr (base @ ''/pypi/'' @ repo @ ''/'' @ ?p)) fm"
  have "rewrite_file cx (base @ ''/pypi/'' @ repo @ ''/'' @ ''packages/'') age now (JObj fm) = Some (JObj ?fm)"
    using assms(1-4) by (simp add: rewrite_file_def Let_def)
  moreover have "as_string (map_of ?fm ''url'') = Some (base @ ''/pypi/'' @ repo @ ''/'' @ ?p)"
    by (simp add: map_of_obj_set)
  moreover have "file_ref parse (res\<lparr>re_path := ?p\<rparr>) =
      Some (u, \<not> sameHost parse \<lparr>pu_scheme = ''https'', pu_host = host, pu_text = u\<rparr> (r_upstream_url (re_repo res)))"
    using file_ref_path [of parse u "\<lparr>pu_scheme = ''https'', pu_host = host, pu_text = u\<rparr>" name res] assms by simp
  ultimately show ?thesis by blast
qed

text \<open>
  The gates of a file go by the file name in the request, the fetch by the reference, and nothing
  ties the two together: whatever name a client puts behind a reference, the same upstream file is
  fetched. A release that is denied under its own name is served under a name no coordinate can be read
  from.
\<close>

theorem pypi_name_is_not_checked:
  assumes "parse u = Some fu" and "pu_scheme fu = ''http'' \<or> pu_scheme fu = ''https''" and "pu_host fu \<noteq> []"
    and "\<not> has_suffix name ''.metadata''" and "\<not> has_suffix other ''.metadata''"
  shows "file_ref parse (res\<lparr>re_path := ''packages/'' @ RawURL_Encode u @ ''/'' @ name\<rparr>) =
         file_ref parse (res\<lparr>re_path := ''packages/'' @ RawURL_Encode u @ ''/'' @ other\<rparr>)"
  using assms file_ref_path [of parse u fu name res] file_ref_path [of parse u fu other res] by simp

text \<open>A proxy with one denied release, an upstream that serves it, and a parser that knows one reference.\<close>

definition evil_parse :: parse_url where
  "evil_parse s = (if s = ''u'' then Some \<lparr>pu_scheme = ''https'', pu_host = ''h'', pu_text = ''https://h/evil-1.0.tar.gz''\<rparr>
                   else None)"

definition evil_params :: "fs pypi_params" where
  "evil_params = \<lparr>pp_parse = evil_parse, pp_multipart = (\<lambda>_ _. None)\<rparr>"

definition evil_repo :: repository where
  "evil_repo = demo_repo\<lparr>r_name := ''py'', r_format := FormatPyPI, r_type := TypeProxy\<rparr>"

definition evil_manager :: "fs manager" where
  "evil_manager = demo_manager ((empty_engine no_files)\<lparr>en_store :=
     snd (UpsertVersionDeny 2 ''py'' ''evil'' ''1.0'' [] [] (snd (CreateRepository 1 evil_repo empty_store)))\<rparr>)"

definition evil_deps :: "fs deps" where
  "evil_deps = (demo_deps 9)\<lparr>dp_env := demo_upstream ''bad''\<rparr>"

definition evil_get :: "string \<Rightarrow> request" where
  "evil_get name = (demo_get (''packages/dQ/'' @ name))\<lparr>rq_repo := ''py''\<rparr>"

theorem pypi_name_is_not_checked_witness:
  "status_of (fst (handlePyPI evil_params evil_deps (evil_get ''evil-1.0.tar.gz'') evil_manager)) = 403 \<and>
   status_of (fst (handlePyPI evil_params evil_deps (evil_get ''x'') evil_manager)) = 200 \<and>
   file_ref evil_parse (quarantine_res\<lparr>re_path := ''packages/dQ/evil-1.0.tar.gz''\<rparr>) =
   file_ref evil_parse (quarantine_res\<lparr>re_path := ''packages/dQ/x''\<rparr>)"
proof -
  have e: "RawURL_Encode ''u'' = ''dQ''" by code_simp
  have "file_ref evil_parse (quarantine_res\<lparr>re_path := ''packages/'' @ RawURL_Encode ''u'' @ ''/'' @ ''evil-1.0.tar.gz''\<rparr>) =
      file_ref evil_parse (quarantine_res\<lparr>re_path := ''packages/'' @ RawURL_Encode ''u'' @ ''/'' @ ''x''\<rparr>)"
    by (rule pypi_name_is_not_checked [of evil_parse "''u''" "the (evil_parse ''u'')"])
      (simp_all add: evil_parse_def has_suffix_def)
  moreover have "status_of (fst (handlePyPI evil_params evil_deps (evil_get ''evil-1.0.tar.gz'') evil_manager)) = 403"
    by code_simp
  moreover have "status_of (fst (handlePyPI evil_params evil_deps (evil_get ''x'') evil_manager)) = 200" by code_simp
  ultimately show ?thesis by (simp add: e)
qed

theorem pypi_ref_roundtrip_witness:
  "\<exists>fm' p. rewrite_file demo_codec (''http://f'' @ ''/pypi/'' @ ''py'' @ ''/'' @ ''packages/'') demo_cooldown 9
      (JObj [(''url'', JStr ''https://h/a.whl''), (''filename'', JStr ''a.whl'')]) = Some (JObj fm') \<and>
    as_string (map_of fm' ''url'') = Some (''http://f'' @ ''/pypi/'' @ ''py'' @ ''/'' @ p) \<and>
    file_ref (\<lambda>s. Some \<lparr>pu_scheme = ''https'', pu_host = ''h'', pu_text = s\<rparr>) (quarantine_res\<lparr>re_path := p\<rparr>) =
      Some (''https://h/a.whl'', \<not> sameHost (\<lambda>s. Some \<lparr>pu_scheme = ''https'', pu_host = ''h'', pu_text = s\<rparr>)
        \<lparr>pu_scheme = ''https'', pu_host = ''h'', pu_text = ''https://h/a.whl''\<rparr> (r_upstream_url (re_repo quarantine_res)))"
  by (rule pypi_ref_roundtrip [where name = "''a.whl''"]) (simp_all add: index_blocked_def has_suffix_def)

section \<open>Uploads that break off\<close>

text \<open>
  A form that breaks off after its content leaves the stored blob behind without a row: the sweeper
  works from the rows, so nothing reclaims it. The branches after the loop call \<open>abandonBlob\<close> for exactly
  this reason.
\<close>

lemma broken_form_orphans_blob:
  assumes "ul_content ul = None" and "bs_put (ev_blobs env) (LimitReader (MiB256 + 1) rd) (en_blobs e) = (Inr (digest, sz), bl)"
    and "sz \<le> MiB256"
  shows "upload_parts env [Some (''content'', filename, rd), None] ul e =
    (Inl (http_Error ''invalid multipart form'' 400), e\<lparr>en_blobs := bl\<rparr>)"
  using assms by (simp add: Let_def)

end
