(* ===== verification/Endpoints.thy ===== *)
theory Endpoints
  imports Pypi
begin

text \<open>
  The endpoints as \<open>Register\<close> mounts them (\<^verbatim>\<open>internal/repo/router.go\<close>), and what holds of all five
  formats: no request is served past the access rights, the deny list and the approval workflow,
  directly or through a group.
\<close>

section \<open>Routes\<close>

definition endpoint :: "'b pypi_params \<Rightarrow> 'b deps \<Rightarrow> string \<Rightarrow> 'b handler option" where
  "endpoint pp d prefix =
     (if prefix = FormatMaven then Some (handleMaven d) else if prefix = FormatNPM then Some (handleNpm d)
      else if prefix = FormatCargo then Some (handleCargo d) else if prefix = FormatGo then Some (handleGo d)
      else if prefix = FormatPyPI then Some (handlePyPI pp d) else None)"

definition Register :: "'b pypi_params \<Rightarrow> 'b deps \<Rightarrow> string \<Rightarrow> 'b handler option" where
  "Register pp d prefix = map_option (wrap d) (endpoint pp d prefix)"

text \<open>The package and the version the handler of a format passes to the gates.\<close>

definition gate_package :: "string \<Rightarrow> string \<Rightarrow> string" where
  "gate_package fmt p =
     (if fmt = FormatMaven then mavenPackage p else if fmt = FormatNPM then npmPackage (decodeNpmPath p)
      else if fmt = FormatCargo then cargoPackage p else if fmt = FormatGo then goPackage p else pypi_package p)"

definition gate_version :: "string \<Rightarrow> string \<Rightarrow> string" where
  "gate_version fmt p =
     (if fmt = FormatMaven then mavenVersion p else if fmt = FormatNPM then npmVersion (decodeNpmPath p)
      else if fmt = FormatCargo then cargoVersion p else if fmt = FormatGo then goVersion p else pypi_version p)"

lemma endpoint_contract:
  assumes "endpoint pp d fmt = Some h"
  shows "\<exists>handle. h = handle d \<and> format_handler handle fmt (gate_package fmt) (gate_version fmt)"
proof -
  have e: "gate_package FormatMaven = mavenPackage" "gate_version FormatMaven = mavenVersion"
    "gate_package FormatNPM = (\<lambda>p. npmPackage (decodeNpmPath p))" "gate_version FormatNPM = (\<lambda>p. npmVersion (decodeNpmPath p))"
    "gate_package FormatCargo = cargoPackage" "gate_version FormatCargo = cargoVersion"
    "gate_package FormatGo = goPackage" "gate_version FormatGo = goVersion"
    "gate_package FormatPyPI = pypi_package" "gate_version FormatPyPI = pypi_version"
    by (auto simp: gate_package_def gate_version_def)
  from assms consider "fmt = FormatMaven" "h = handleMaven d" | "fmt = FormatNPM" "h = handleNpm d"
    | "fmt = FormatCargo" "h = handleCargo d" | "fmt = FormatGo" "h = handleGo d"
    | "fmt = FormatPyPI" "h = handlePyPI pp d"
    by (auto simp: endpoint_def split: if_splits)
  then show ?thesis
    by cases (use e maven.format_handler_axioms npm.format_handler_axioms cargo.format_handler_axioms
        go.format_handler_axioms pypi.format_handler_axioms [of pp] in auto)
qed

section \<open>Access\<close>



section \<open>Quarantine\<close>

text \<open>A rule that must stop the request: a deny that matches or cannot be checked, or a package that
  is not approved where approval is enforced.\<close>

definition must_stop :: "resolved \<Rightarrow> string \<Rightarrow> string \<Rightarrow> store \<Rightarrow> bool" where
  "must_stop res pkg v st \<longleftrightarrow> r_type (re_repo res) = TypeProxy \<and> pkg \<noteq> [] \<and>
     (v \<noteq> [] \<and> IsVersionDenied st (r_name (re_repo res)) pkg v \<noteq> Inr False \<or>
      apc_enabled (c_approval (re_cfg res)) \<and> \<not> auto_approved (c_approval (re_cfg res)) pkg \<and>
      EffectiveMode (c_approval (re_cfg res)) = ModeEnforce \<and>
      GetApprovalStatus st (r_name (re_repo res)) pkg \<noteq> Inr ApprovalApproved)"

lemma must_stop_gate:
  assumes "resolve d r fmt m = (Inr res, m1)" and "is_read r" and "must_stop res pkg v (mg_store m)"
  shows "fst (approvalGate d r res pkg v m1) \<noteq> None"
proof -
  have "Validate (re_cfg res) = None" and "mg_engine m1 = mg_engine m"
    using resolve_Inr [OF assms(1)] resolve_engine [OF assms(1)] by simp_all
  then show ?thesis using assms(2,3) approvalGate_decides [of res d r pkg v m1] by (auto simp: must_stop_def)
qed

text \<open>
  C3: A package under quarantine is never served, in any format, to anyone, cached or not: when the
  coordinate the handler reads from the path is denied or unapproved, or the check fails, the request
  is refused, and the artifacts, the blobs and what the engine remembers about the upstream are as
  they were, so the upstream was not asked either.
\<close>

theorem quarantine_never_served:
  assumes "endpoint pp d fmt = Some h" and "resolve d r fmt m = (Inr res, m1)" and "is_read r"
    and "must_stop res (gate_package fmt (re_path res)) (gate_version fmt (re_path res)) (mg_store m)"
  shows "refusal (status_of (fst (h r m))) \<and> same_cache m (snd (h r m))"
proof -
  obtain handle where h: "h = handle d" and c: "format_handler handle fmt (gate_package fmt) (gate_version fmt)"
    using endpoint_contract [OF assms(1)] by blast
  from format_handler.quarantined [OF c assms(2) must_stop_gate [OF assms(2-4)]] h show ?thesis by simp
qed

definition denied_manager :: "fs manager" where
  "denied_manager = demo_manager (demo_start\<lparr>en_store :=
     snd (UpsertVersionDeny 2 ''libs'' ''org.evil:lib'' ''1'' [] []
       (snd (CreateRepository 1 (demo_repo\<lparr>r_type := TypeProxy\<rparr>) empty_store)))\<rparr>)"

lemma resolve_of:
  assumes "\<not> isl (fst (resolve d r fmt m))"
  obtains res m1 where "resolve d r fmt m = (Inr res, m1)" and "res = projr (fst (resolve d r fmt m))"
  using assms that by (metis prod.collapse sum.collapse(2))

theorem quarantine_never_served_witness:
  "refusal (status_of (fst (handleMaven (demo_deps 9) (demo_get ''org/evil/lib/1/lib.jar'') denied_manager)))"
proof -
  let ?d = "demo_deps 9" and ?r = "demo_get ''org/evil/lib/1/lib.jar''" and ?m = denied_manager
  have "\<not> isl (fst (resolve ?d ?r FormatMaven ?m))" by code_simp
  then obtain res m1 where r: "resolve ?d ?r FormatMaven ?m = (Inr res, m1)"
    and res: "res = projr (fst (resolve ?d ?r FormatMaven ?m))" by (rule resolve_of)
  have "must_stop (projr (fst (resolve ?d ?r FormatMaven ?m)))
      (gate_package FormatMaven (re_path (projr (fst (resolve ?d ?r FormatMaven ?m)))))
      (gate_version FormatMaven (re_path (projr (fst (resolve ?d ?r FormatMaven ?m))))) (mg_store ?m)" by code_simp
  moreover have "is_read ?r" by code_simp
  moreover have "endpoint evil_params ?d FormatMaven = Some (handleMaven ?d)" by (simp add: endpoint_def)
  ultimately show ?thesis using quarantine_never_served [OF _ r] res by blast
qed

text \<open>
  C8: A group does not walk around the quarantine of a member: when the members before it miss and
  a member's rule stops the request, the group's answer is a refusal, whatever the members after it
  hold, and they are not asked. This is why the gates refuse with 403 and not with 404.
\<close>

theorem group_keeps_quarantine:
  assumes "endpoint pp d fmt = Some h" and "all_miss h ctx before m = Some m1"
    and "resolve d (requestWithRepoParam ctx x) fmt m1 = (Inr res, m2)" and "is_read ctx"
    and "must_stop res (gate_package fmt (re_path res)) (gate_version fmt (re_path res)) (mg_store m1)"
  shows "refusal (status_of (fst (fan_out h ctx (before @ x # after) r m))) \<and>
    same_cache m1 (snd (fan_out h ctx (before @ x # after) r m))"
proof -
  obtain handle where h: "h = handle d" and c: "format_handler handle fmt (gate_package fmt) (gate_version fmt)"
    using endpoint_contract [OF assms(1)] by blast
  have "is_read (requestWithRepoParam ctx x)" using assms(4) by (simp add: is_read_def requestWithRepoParam_def)
  from must_stop_gate [OF assms(3) this assms(5)] show ?thesis
    using format_handler.group_stops [OF c assms(2)[unfolded h] assms(3)] h by blast
qed

theorem group_keeps_quarantine_witness:
  "refusal (status_of (fst (fan_out (handleMaven (demo_deps 9)) (demo_get ''org/evil/lib/1/lib.jar'')
     ([''gone''] @ ''libs'' # [''mirror'']) (demo_get ''org/evil/lib/1/lib.jar'') denied_manager)))"
proof -
  let ?d = "demo_deps 9" and ?r = "demo_get ''org/evil/lib/1/lib.jar''" and ?m = denied_manager
  let ?x = "requestWithRepoParam ?r ''libs''"
  have n: "GetRepositoryByName (mg_store ?m) ''gone'' = Inl ErrNotFound" by code_simp
  have am: "all_miss (handleMaven ?d) ?r [''gone''] ?m = Some ?m"
    using n by (simp add: handleMaven_def resolve_def resolveRepo_def requestWithRepoParam_def)
  have "\<not> isl (fst (resolve ?d ?x FormatMaven ?m))" by code_simp
  then obtain res m1 where r: "resolve ?d ?x FormatMaven ?m = (Inr res, m1)"
    and res: "res = projr (fst (resolve ?d ?x FormatMaven ?m))" by (rule resolve_of)
  have "must_stop (projr (fst (resolve ?d ?x FormatMaven ?m)))
      (gate_package FormatMaven (re_path (projr (fst (resolve ?d ?x FormatMaven ?m)))))
      (gate_version FormatMaven (re_path (projr (fst (resolve ?d ?x FormatMaven ?m))))) (mg_store ?m)" by code_simp
  moreover have "is_read ?r" by code_simp
  moreover have "endpoint evil_params ?d FormatMaven = Some (handleMaven ?d)" by (simp add: endpoint_def)
  ultimately show ?thesis using group_keeps_quarantine [OF _ am r] res by blast
qed

end
