(* ===== verification/Users.thy ===== *)
theory Users
  imports Listings
begin

text \<open>
  Users, roles, permissions, group mappings and tokens in the metadata store
  (\<^verbatim>\<open>internal/meta/auth.go\<close>). The foreign keys cascade: deleting a user takes its assignments and
  tokens, deleting a role takes its permissions, assignments and mappings. \<open>auth_ok\<close> is what the
  schema's keys promise, and every operation keeps it.
\<close>

section \<open>Users\<close>

abbreviation find_user :: "nat \<Rightarrow> store \<Rightarrow> user option" where
  "find_user i st \<equiv> find_key u_id i (st_users st)"

definition GetUser :: "store \<Rightarrow> nat \<Rightarrow> store_error + user" where
  "GetUser st i =
     (if st_fault st TUsers then Inl ErrDB
      else case find_key u_id i (st_users st) of None \<Rightarrow> Inl ErrNotFound | Some u \<Rightarrow> Inr u)"

definition GetUserByUsername :: "store \<Rightarrow> string \<Rightarrow> store_error + user" where
  "GetUserByUsername st name =
     (if st_fault st TUsers then Inl ErrDB
      else case find_key u_username name (st_users st) of None \<Rightarrow> Inl ErrNotFound | Some u \<Rightarrow> Inr u)"

text \<open>The columns the INSERT does not name take the schema's defaults.\<close>

definition new_user :: "nat \<Rightarrow> string \<Rightarrow> string \<Rightarrow> string \<Rightarrow> string \<Rightarrow> bool \<Rightarrow> bool \<Rightarrow> instant \<Rightarrow> user" where
  "new_user i name hash source email disabled managed now =
     \<lparr>u_id = i, u_username = name, u_password_hash = hash, u_source = source, u_email = email,
      u_disabled = disabled, u_created_at = now, u_updated_at = now, u_last_login_at = 0,
      u_lockout_enabled = False, u_failed_login_count = 0, u_locked_at = 0, u_managed = managed\<rparr>"

definition insert_user :: "user \<Rightarrow> store \<Rightarrow> store" where
  "insert_user row st =
     st\<lparr>st_users := st_users st @ [row], st_seq := (st_seq st)(TUsers := next_id TUsers st)\<rparr>"

definition CreateUser :: "instant \<Rightarrow> user \<Rightarrow> store \<Rightarrow> (store_error + user) \<times> store" where
  "CreateUser now u st =
     (let source = (if u_source u = [] then SourceLocal else u_source u);
          i = next_id TUsers st
      in if st_fault st TUsers then (Inl ErrDB, st)
         else if find_key u_username (u_username u) (st_users st) \<noteq> None then (Inl ErrUnique, st)
         else let st' = insert_user (new_user i (u_username u) (u_password_hash u) source (u_email u)
                                       (u_disabled u) False now) st
              in (GetUser st' i, st'))"

definition blank_user :: user where
  "blank_user = new_user 0 [] [] [] [] False False 0"

definition EnsureUser :: "instant \<Rightarrow> string \<Rightarrow> string \<Rightarrow> string \<Rightarrow> store \<Rightarrow> (store_error + user) \<times> store" where
  "EnsureUser now username email source st =
     (case GetUserByUsername st username of
        Inr u \<Rightarrow> (Inr u, st)
      | Inl err \<Rightarrow>
          if err \<noteq> ErrNotFound then (Inl err, st)
          else CreateUser now (blank_user\<lparr>u_username := username, u_email := email, u_source := source\<rparr>) st)"

definition ListUsers :: "store \<Rightarrow> store_error + user list" where
  "ListUsers st =
     (if st_fault st TUsers then Inl ErrDB
      else Inr (order_by (\<lambda>a b. str_less (u_username a) (u_username b)) (st_users st)))"

definition CountUsers :: "store \<Rightarrow> store_error + nat" where
  "CountUsers st = (if st_fault st TUsers then Inl ErrDB else Inr (length (st_users st)))"

text \<open>UPDATE of one user, with the check that a row was affected.\<close>

definition update_user :: "nat \<Rightarrow> (user \<Rightarrow> user) \<Rightarrow> store \<Rightarrow> (store_error + unit) \<times> store" where
  "update_user i f st =
     (if st_fault st TUsers then (Inl ErrDB, st)
      else if find_user i st = None then (Inl ErrNotFound, st)
      else (Inr (), st\<lparr>st_users := update_where (\<lambda>u. u_id u = i) f (st_users st)\<rparr>))"

definition SetPassword :: "instant \<Rightarrow> nat \<Rightarrow> string \<Rightarrow> store \<Rightarrow> (store_error + unit) \<times> store" where
  "SetPassword now i hash = update_user i (\<lambda>u. u\<lparr>u_password_hash := hash, u_updated_at := now\<rparr>)"

definition TouchLastLogin :: "instant \<Rightarrow> nat \<Rightarrow> store \<Rightarrow> (store_error + unit) \<times> store" where
  "TouchLastLogin now i = update_user i (\<lambda>u. u\<lparr>u_last_login_at := now\<rparr>)"

definition SetUserDisabled :: "instant \<Rightarrow> nat \<Rightarrow> bool \<Rightarrow> store \<Rightarrow> (store_error + unit) \<times> store" where
  "SetUserDisabled now i disabled = update_user i (\<lambda>u. u\<lparr>u_disabled := disabled, u_updated_at := now\<rparr>)"

definition SetLockoutEnabled :: "instant \<Rightarrow> nat \<Rightarrow> bool \<Rightarrow> store \<Rightarrow> (store_error + unit) \<times> store" where
  "SetLockoutEnabled now i enabled =
     (if enabled then update_user i (\<lambda>u. u\<lparr>u_lockout_enabled := True, u_updated_at := now\<rparr>)
      else update_user i (\<lambda>u. u\<lparr>u_lockout_enabled := False, u_failed_login_count := 0,
                                 u_locked_at := 0, u_updated_at := now\<rparr>))"

definition failed_login :: "instant \<Rightarrow> int \<Rightarrow> user \<Rightarrow> user" where
  "failed_login now threshold u =
     u\<lparr>u_failed_login_count := u_failed_login_count u + 1,
       u_locked_at := (if u_lockout_enabled u \<and> threshold \<le> u_failed_login_count u + 1 \<and> u_locked_at u = 0
                       then now else u_locked_at u),
       u_updated_at := now\<rparr>"

definition RegisterFailedLogin :: "instant \<Rightarrow> nat \<Rightarrow> int \<Rightarrow> store \<Rightarrow> (store_error + unit) \<times> store" where
  "RegisterFailedLogin now i threshold = update_user i (failed_login now threshold)"

definition ResetFailedLogin :: "instant \<Rightarrow> nat \<Rightarrow> store \<Rightarrow> (store_error + unit) \<times> store" where
  "ResetFailedLogin now i =
     update_user i (\<lambda>u. u\<lparr>u_failed_login_count := 0, u_locked_at := 0, u_updated_at := now\<rparr>)"

definition DeleteUser :: "nat \<Rightarrow> store \<Rightarrow> (store_error + unit) \<times> store" where
  "DeleteUser i st =
     (if st_fault st TUsers \<or> st_fault st TUserRoles \<or> st_fault st TTokens then (Inl ErrDB, st)
      else if find_user i st = None then (Inl ErrNotFound, st)
      else (Inr (), st\<lparr>st_users := delete_where (\<lambda>u. u_id u = i) (st_users st),
                       st_user_roles := delete_where (\<lambda>x. ur_user_id x = i) (st_user_roles st),
                       st_tokens := delete_where (\<lambda>t. t_user_id t = i) (st_tokens st)\<rparr>))"

section \<open>Roles and permissions\<close>

abbreviation find_role :: "nat \<Rightarrow> store \<Rightarrow> role option" where
  "find_role i st \<equiv> find_key ro_id i (st_roles st)"

definition new_role :: "nat \<Rightarrow> string \<Rightarrow> string \<Rightarrow> instant \<Rightarrow> bool \<Rightarrow> role" where
  "new_role i name desc now managed =
     \<lparr>ro_id = i, ro_name = name, ro_description = desc, ro_created_at = now, ro_managed = managed\<rparr>"

text \<open>The role given back is the caller's with its identifier set.\<close>

definition CreateRole :: "instant \<Rightarrow> role \<Rightarrow> store \<Rightarrow> (store_error + role) \<times> store" where
  "CreateRole now r st =
     (let i = next_id TRoles st in
      if st_fault st TRoles then (Inl ErrDB, st)
      else if find_key ro_name (ro_name r) (st_roles st) \<noteq> None then (Inl ErrUnique, st)
      else (Inr (r\<lparr>ro_id := i\<rparr>),
            st\<lparr>st_roles := st_roles st @ [new_role i (ro_name r) (ro_description r) now False],
               st_seq := (st_seq st)(TRoles := i)\<rparr>))"

definition GetRoleByName :: "store \<Rightarrow> string \<Rightarrow> store_error + role" where
  "GetRoleByName st name =
     (if st_fault st TRoles then Inl ErrDB
      else case find_key ro_name name (st_roles st) of None \<Rightarrow> Inl ErrNotFound | Some r \<Rightarrow> Inr r)"

definition ListRoles :: "store \<Rightarrow> store_error + role list" where
  "ListRoles st =
     (if st_fault st TRoles then Inl ErrDB
      else Inr (order_by (\<lambda>a b. str_less (ro_name a) (ro_name b)) (st_roles st)))"

text \<open>The cascade of the roles that satisfy a condition.\<close>

definition drop_roles :: "(nat \<Rightarrow> bool) \<Rightarrow> store \<Rightarrow> store" where
  "drop_roles gone st =
     st\<lparr>st_roles := delete_where (\<lambda>r. gone (ro_id r)) (st_roles st),
        st_permissions := delete_where (\<lambda>p. gone (p_role_id p)) (st_permissions st),
        st_user_roles := delete_where (\<lambda>x. gone (ur_role_id x)) (st_user_roles st),
        st_group_mappings := delete_where (\<lambda>g. gone (gm_role_id g)) (st_group_mappings st)\<rparr>"

definition role_fault :: "store \<Rightarrow> bool" where
  "role_fault st \<longleftrightarrow> st_fault st TRoles \<or> st_fault st TPermissions \<or> st_fault st TUserRoles \<or> st_fault st TGroupMappings"

definition DeleteRole :: "nat \<Rightarrow> store \<Rightarrow> (store_error + unit) \<times> store" where
  "DeleteRole i st =
     (if role_fault st then (Inl ErrDB, st)
      else if find_role i st = None then (Inl ErrNotFound, st)
      else (Inr (), drop_roles (\<lambda>j. j = i) st))"

definition AddPermission :: "permission \<Rightarrow> store \<Rightarrow> (store_error + permission) \<times> store" where
  "AddPermission p st =
     (let i = next_id TPermissions st; row = p\<lparr>p_id := i, p_managed := False\<rparr> in
      if st_fault st TPermissions \<or> st_fault st TRoles then (Inl ErrDB, st)
      else if find_role (p_role_id p) st = None then (Inl ErrForeignKey, st)
      else (Inr (p\<lparr>p_id := i\<rparr>),
            st\<lparr>st_permissions := st_permissions st @ [row], st_seq := (st_seq st)(TPermissions := i)\<rparr>))"

definition ListPermissions :: "store \<Rightarrow> store_error + permission list" where
  "ListPermissions st =
     (if st_fault st TPermissions then Inl ErrDB
      else Inr (order_by (\<lambda>a b. p_id a < p_id b) (st_permissions st)))"

definition DeletePermission :: "nat \<Rightarrow> nat \<Rightarrow> store \<Rightarrow> (store_error + unit) \<times> store" where
  "DeletePermission roleID i st =
     (let P = (\<lambda>p. p_id p = i \<and> p_role_id p = roleID) in
      if st_fault st TPermissions then (Inl ErrDB, st)
      else if \<not> list_ex P (st_permissions st) then (Inl ErrNotFound, st)
      else (Inr (), st\<lparr>st_permissions := delete_where P (st_permissions st)\<rparr>))"

definition RolesByUser :: "store \<Rightarrow> store_error + (nat \<times> role list) list" where
  "RolesByUser st =
     (if st_fault st TUserRoles \<or> st_fault st TRoles then Inl ErrDB
      else Inr (map (\<lambda>uid. (uid,
             map (\<lambda>r. r\<lparr>ro_managed := False\<rparr>)
               (order_by (\<lambda>a b. str_less (ro_name a) (ro_name b))
                 (filter (\<lambda>r. list_ex (\<lambda>x. ur_user_id x = uid \<and> ur_role_id x = ro_id r) (st_user_roles st))
                   (st_roles st)))))
             (remdups (map ur_user_id (st_user_roles st)))))"

abbreviation ur_key :: "user_role \<Rightarrow> nat \<times> nat" where
  "ur_key x \<equiv> (ur_user_id x, ur_role_id x)"

text \<open>ON CONFLICT covers the key of the table; a missing user or role is still refused.\<close>

definition AssignRole :: "nat \<Rightarrow> nat \<Rightarrow> store \<Rightarrow> (store_error + unit) \<times> store" where
  "AssignRole uid rid st =
     (if st_fault st TUserRoles \<or> st_fault st TUsers \<or> st_fault st TRoles then (Inl ErrDB, st)
      else if find_key ur_key (uid, rid) (st_user_roles st) \<noteq> None then (Inr (), st)
      else if find_user uid st = None \<or> find_role rid st = None then (Inl ErrForeignKey, st)
      else (Inr (), st\<lparr>st_user_roles := st_user_roles st @
                 [\<lparr>ur_user_id = uid, ur_role_id = rid, ur_managed = 0\<rparr>]\<rparr>))"

definition RemoveRole :: "nat \<Rightarrow> nat \<Rightarrow> store \<Rightarrow> (store_error + unit) \<times> store" where
  "RemoveRole uid rid st =
     (if st_fault st TUserRoles then (Inl ErrDB, st)
      else (Inr (), st\<lparr>st_user_roles := delete_where (\<lambda>x. ur_key x = (uid, rid)) (st_user_roles st)\<rparr>))"

definition PermissionsForUser :: "store \<Rightarrow> nat \<Rightarrow> store_error + permission list" where
  "PermissionsForUser st uid =
     (if st_fault st TPermissions \<or> st_fault st TUserRoles then Inl ErrDB
      else Inr (filter (\<lambda>p. list_ex (\<lambda>x. ur_user_id x = uid \<and> ur_role_id x = p_role_id p) (st_user_roles st))
             (st_permissions st)))"

definition PermissionsForRoleNames :: "store \<Rightarrow> string list \<Rightarrow> store_error + permission list" where
  "PermissionsForRoleNames st rnames =
     (if length rnames = 0 then Inr []
      else if st_fault st TPermissions \<or> st_fault st TRoles then Inl ErrDB
      else Inr (filter (\<lambda>p. list_ex (\<lambda>r. ro_id r = p_role_id p \<and> ro_name r \<in> set rnames) (st_roles st))
             (st_permissions st)))"

section \<open>Group mappings\<close>

definition put_mapping :: "group_mapping \<Rightarrow> (group_mapping \<Rightarrow> group_mapping) \<Rightarrow> store \<Rightarrow> store" where
  "put_mapping row f st =
     st\<lparr>st_group_mappings := upsert gm_group_name (row\<lparr>gm_id := next_id TGroupMappings st\<rparr>) f (st_group_mappings st),
        st_seq := (if find_key gm_group_name (gm_group_name row) (st_group_mappings st) = None
                   then (st_seq st)(TGroupMappings := next_id TGroupMappings st) else st_seq st)\<rparr>"

definition CreateGroupMapping :: "string \<Rightarrow> nat \<Rightarrow> store \<Rightarrow> (store_error + unit) \<times> store" where
  "CreateGroupMapping g rid st =
     (if st_fault st TGroupMappings \<or> st_fault st TRoles then (Inl ErrDB, st)
      else if find_role rid st = None then (Inl ErrForeignKey, st)
      else (Inr (), put_mapping \<lparr>gm_id = 0, gm_group_name = g, gm_role_id = rid, gm_managed = False\<rparr>
                      (\<lambda>m. m\<lparr>gm_role_id := rid\<rparr>) st))"

definition ListGroupMappings :: "store \<Rightarrow> store_error + group_mapping list" where
  "ListGroupMappings st =
     (if st_fault st TGroupMappings then Inl ErrDB
      else Inr (order_by (\<lambda>a b. str_less (gm_group_name a) (gm_group_name b)) (st_group_mappings st)))"

definition DeleteGroupMapping :: "nat \<Rightarrow> store \<Rightarrow> (store_error + unit) \<times> store" where
  "DeleteGroupMapping i st =
     (if st_fault st TGroupMappings then (Inl ErrDB, st)
      else if find_key gm_id i (st_group_mappings st) = None then (Inl ErrNotFound, st)
      else (Inr (), st\<lparr>st_group_mappings := delete_where (\<lambda>g. gm_id g = i) (st_group_mappings st)\<rparr>))"

definition RoleNamesForGroups :: "store \<Rightarrow> string list \<Rightarrow> store_error + string list" where
  "RoleNamesForGroups st groups =
     (if length groups = 0 then Inr []
      else if st_fault st TGroupMappings \<or> st_fault st TRoles then Inl ErrDB
      else Inr (List.map_filter (\<lambda>m. map_option ro_name (find_role (gm_role_id m) st))
             (filter (\<lambda>m. gm_group_name m \<in> set groups) (st_group_mappings st))))"

section \<open>Tokens\<close>

definition CreateToken :: "instant \<Rightarrow> token \<Rightarrow> store \<Rightarrow> (store_error + token) \<times> store" where
  "CreateToken now t st =
     (let i = next_id TTokens st in
      if st_fault st TTokens \<or> st_fault st TUsers then (Inl ErrDB, st)
      else if find_key t_hash (t_hash t) (st_tokens st) \<noteq> None then (Inl ErrUnique, st)
      else if find_user (t_user_id t) st = None then (Inl ErrForeignKey, st)
      else (Inr (t\<lparr>t_id := i\<rparr>),
            st\<lparr>st_tokens := st_tokens st @ [t\<lparr>t_id := i, t_last_used_at := None, t_created_at := now\<rparr>],
               st_seq := (st_seq st)(TTokens := i)\<rparr>))"

text \<open>The query does not read the description.\<close>

definition GetTokenByHash :: "store \<Rightarrow> string \<Rightarrow> store_error + token" where
  "GetTokenByHash st hash =
     (if st_fault st TTokens then Inl ErrDB
      else case find_key t_hash hash (st_tokens st) of
             None \<Rightarrow> Inl ErrNotFound | Some t \<Rightarrow> Inr (t\<lparr>t_description := []\<rparr>))"

definition created_later :: "token \<Rightarrow> token \<Rightarrow> bool" where
  "created_later a b = text_less (format_time (t_created_at b)) (format_time (t_created_at a))"

definition ListTokens :: "store \<Rightarrow> nat \<Rightarrow> store_error + token list" where
  "ListTokens st uid =
     (if st_fault st TTokens then Inl ErrDB
      else Inr (map (\<lambda>t. t\<lparr>t_hash := []\<rparr>)
             (order_by created_later (filter (\<lambda>t. t_user_id t = uid) (st_tokens st)))))"

definition ListAllTokens :: "store \<Rightarrow> store_error + token list" where
  "ListAllTokens st =
     (if st_fault st TTokens then Inl ErrDB
      else Inr (map (\<lambda>t. t\<lparr>t_hash := []\<rparr>) (order_by created_later (st_tokens st))))"

definition TouchToken :: "instant \<Rightarrow> nat \<Rightarrow> store \<Rightarrow> (store_error + unit) \<times> store" where
  "TouchToken now i st =
     (if st_fault st TTokens then (Inl ErrDB, st)
      else (Inr (), st\<lparr>st_tokens := update_where (\<lambda>t. t_id t = i) (\<lambda>t. t\<lparr>t_last_used_at := Some now\<rparr>)
                                     (st_tokens st)\<rparr>))"

definition DeleteToken :: "nat \<Rightarrow> nat \<Rightarrow> store \<Rightarrow> (store_error + unit) \<times> store" where
  "DeleteToken uid i st =
     (let P = (\<lambda>t. t_id t = i \<and> t_user_id t = uid) in
      if st_fault st TTokens then (Inl ErrDB, st)
      else if \<not> list_ex P (st_tokens st) then (Inl ErrNotFound, st)
      else (Inr (), st\<lparr>st_tokens := delete_where P (st_tokens st)\<rparr>))"

section \<open>What the schema promises\<close>

text \<open>Keys of a table with an AUTOINCREMENT identifier: unique, and none above the sequence.\<close>

definition ids_ok :: "('r \<Rightarrow> nat) \<Rightarrow> 'r list \<Rightarrow> nat \<Rightarrow> bool" where
  "ids_ok k rows n \<longleftrightarrow> distinct (map k rows) \<and> (\<forall>r \<in> set rows. k r \<le> n)"

lemma ids_ok_append: "ids_ok k rows n \<Longrightarrow> k row = Suc n \<Longrightarrow> ids_ok k (rows @ [row]) (Suc n)"
  by (auto simp: ids_ok_def)

lemma ids_ok_delete: "ids_ok k rows n \<Longrightarrow> ids_ok k (delete_where P rows) n"
  by (simp add: ids_ok_def distinct_delete_where)

lemma ids_ok_update:
  assumes "ids_ok k rows n" and "\<And>r. P r \<Longrightarrow> k (f r) = k r"
  shows "ids_ok k (update_where P f rows) n"
  using assms update_where_map_id [of P k f rows] unfolding ids_ok_def set_update_where by auto

definition auth_ok :: "store \<Rightarrow> bool" where
  "auth_ok st \<longleftrightarrow>
     ids_ok u_id (st_users st) (st_seq st TUsers) \<and> distinct (map u_username (st_users st)) \<and>
     ids_ok ro_id (st_roles st) (st_seq st TRoles) \<and> distinct (map ro_name (st_roles st)) \<and>
     ids_ok p_id (st_permissions st) (st_seq st TPermissions) \<and>
     ids_ok gm_id (st_group_mappings st) (st_seq st TGroupMappings) \<and>
     distinct (map gm_group_name (st_group_mappings st)) \<and>
     ids_ok t_id (st_tokens st) (st_seq st TTokens) \<and> distinct (map t_hash (st_tokens st)) \<and>
     distinct (map ur_key (st_user_roles st)) \<and>
     ur_user_id ` set (st_user_roles st) \<subseteq> u_id ` set (st_users st) \<and>
     ur_role_id ` set (st_user_roles st) \<subseteq> ro_id ` set (st_roles st) \<and>
     p_role_id ` set (st_permissions st) \<subseteq> ro_id ` set (st_roles st) \<and>
     gm_role_id ` set (st_group_mappings st) \<subseteq> ro_id ` set (st_roles st) \<and>
     t_user_id ` set (st_tokens st) \<subseteq> u_id ` set (st_users st)"

lemma auth_ok_keys:
  assumes "auth_ok st"
  shows "distinct (map u_id (st_users st))" "distinct (map u_username (st_users st))"
    "distinct (map ro_id (st_roles st))" "distinct (map ro_name (st_roles st))"
    "distinct (map gm_group_name (st_group_mappings st))" "distinct (map ur_key (st_user_roles st))"
    "distinct (map t_hash (st_tokens st))"
  using assms by (simp_all add: auth_ok_def ids_ok_def)

lemma find_key_None: "find_key k x rows = None \<longleftrightarrow> x \<notin> k ` set rows"
  by (auto simp: find_key_def find_None_set)

lemma find_key_in: "find_key k x rows = Some r \<Longrightarrow> r \<in> set rows \<and> k r = x"
  by (auto simp: find_key_def dest: find_Some_set)

lemma find_key_row: "distinct (map k rows) \<Longrightarrow> r \<in> set rows \<Longrightarrow> find_key k (k r) rows = Some r"
  by (simp add: find_key_def find_key_unique)

text \<open>The three shapes of change to a table.\<close>

lemma auth_ok_update_user:
  assumes "auth_ok st" and "\<And>u. u_id (f u) = u_id u" and "\<And>u. u_username (f u) = u_username u"
  shows "auth_ok (snd (update_user i f st))"
proof -
  have "u_id ` set (update_where (\<lambda>u. u_id u = i) f (st_users st)) = u_id ` set (st_users st)"
    by (rule image_update_where) (rule assms(2))
  moreover have "map u_username (update_where (\<lambda>u. u_id u = i) f (st_users st)) = map u_username (st_users st)"
    by (rule update_where_map_id) (rule assms(3))
  ultimately show ?thesis
    using assms(1) by (auto simp: update_user_def auth_ok_def assms(2) intro!: ids_ok_update)
qed

lemma auth_ok_insert_user:
  assumes "auth_ok st" and "u_username row \<notin> u_username ` set (st_users st)" and "u_id row = next_id TUsers st"
  shows "auth_ok (insert_user row st)"
proof -
  have "ids_ok u_id (st_users st @ [row]) (next_id TUsers st)"
    using assms(1,3) unfolding next_id_def by (intro ids_ok_append) (auto simp: auth_ok_def)
  with assms show ?thesis by (auto simp: auth_ok_def insert_user_def)
qed

lemma auth_ok_drop_roles: "auth_ok st \<Longrightarrow> auth_ok (drop_roles gone st)"
  by (auto simp: auth_ok_def drop_roles_def intro!: ids_ok_delete distinct_delete_where)

lemma auth_ok_put_mapping:
  assumes "auth_ok st" and "gm_role_id row \<in> ro_id ` set (st_roles st)"
    and "\<And>m. gm_group_name (f m) = gm_group_name m" and "\<And>m. gm_id (f m) = gm_id m"
    and "\<And>m. gm_role_id (f m) = gm_role_id row"
  shows "auth_ok (put_mapping row f st)"
proof (cases "find_key gm_group_name (gm_group_name row) (st_group_mappings st)")
  case None
  let ?row = "row\<lparr>gm_id := next_id TGroupMappings st\<rparr>"
  have "ids_ok gm_id (st_group_mappings st @ [?row]) (next_id TGroupMappings st)"
    using assms(1) unfolding next_id_def by (intro ids_ok_append) (auto simp: auth_ok_def)
  moreover have "distinct (map gm_group_name (st_group_mappings st @ [?row]))"
    using assms(1) None by (auto simp: auth_ok_def find_key_None)
  ultimately show ?thesis
    using assms(1,2) None by (auto simp: auth_ok_def put_mapping_def upsert_def)
next
  case (Some m)
  let ?rows = "update_where (\<lambda>r. gm_group_name r = gm_group_name row) f (st_group_mappings st)"
  have "ids_ok gm_id ?rows (st_seq st TGroupMappings)"
    using assms(1,4) by (intro ids_ok_update) (auto simp: auth_ok_def)
  moreover have "distinct (map gm_group_name ?rows)"
    using assms(1) update_where_map_id [of "\<lambda>r. gm_group_name r = gm_group_name row" gm_group_name f] assms(3)
    by (simp add: auth_ok_def)
  moreover have "gm_role_id ` set ?rows \<subseteq> ro_id ` set (st_roles st)"
    using assms(1,2,5) by (auto simp: auth_ok_def set_update_where)
  ultimately show ?thesis
    using assms(1) Some by (simp add: auth_ok_def put_mapping_def upsert_def)
qed

end
