(* ===== verification/Rbac.thy ===== *)
theory Rbac
  imports Users
begin

text \<open>
  The declarative access policy in the metadata store (\<^verbatim>\<open>internal/meta/rbac.go\<close>). Rows the policy
  owns carry the mark \<open>managed\<close>; assignments that come from the groups of a login carry the mark 2.
  Both reconciliations run in one transaction, so an error leaves the store as it was.
\<close>

section \<open>The desired state\<close>

record managed_role =
  mr_name :: string
  mr_description :: string
  mr_permissions :: "permission list"

record managed_grant =
  gr_subject :: string
  gr_role :: string

record managed_local_user =
  ml_username :: string
  ml_password_hash :: string
  ml_email :: string

record managed_rbac =
  rb_roles :: "managed_role list"
  rb_group_roles :: "managed_grant list"
  rb_user_roles :: "managed_grant list"
  rb_local_users :: "managed_local_user list"

datatype rbac_error = RbacStore store_error | UnknownUser string | UnknownRole string

section \<open>Statements in sequence\<close>

fun each :: "('a \<Rightarrow> 's \<Rightarrow> 'e + 's) \<Rightarrow> 'a list \<Rightarrow> 's \<Rightarrow> 'e + 's" where
  "each f [] s = Inr s"
| "each f (x # xs) s = (case f x s of Inl e \<Rightarrow> Inl e | Inr s' \<Rightarrow> each f xs s')"

section \<open>Users\<close>

definition rbac_ensureUser ::
  "instant \<Rightarrow> string \<Rightarrow> string \<Rightarrow> string \<Rightarrow> string \<Rightarrow> store \<Rightarrow> rbac_error + store" where
  "rbac_ensureUser now username hash email source st =
     (if st_fault st TUsers then Inl (RbacStore ErrDB)
      else case find_key u_username username (st_users st) of
             Some u \<Rightarrow> Inr st
           | None \<Rightarrow> Inr (insert_user (new_user (next_id TUsers st) username hash source email False True now) st))"

definition ensureManagedUsers :: "instant \<Rightarrow> managed_rbac \<Rightarrow> store \<Rightarrow> rbac_error + store" where
  "ensureManagedUsers now d st =
     (case each (\<lambda>u. rbac_ensureUser now (ml_username u) (ml_password_hash u) (ml_email u) SourceLocal)
             (rb_local_users d) st of
        Inl e \<Rightarrow> Inl e
      | Inr st1 \<Rightarrow> each (\<lambda>g. rbac_ensureUser now (gr_subject g) [] [] SourceOIDC) (rb_user_roles d) st1)"

definition lookupUserID :: "string \<Rightarrow> store \<Rightarrow> rbac_error + nat" where
  "lookupUserID username st =
     (if st_fault st TUsers then Inl (RbacStore ErrDB)
      else case find_key u_username username (st_users st) of
             None \<Rightarrow> Inl (UnknownUser username) | Some u \<Rightarrow> Inr (u_id u))"

section \<open>Roles\<close>

type_synonym role_cache = "string \<rightharpoonup> nat"

text \<open>INSERT of a role, or the update of the row that has the name.\<close>

definition put_role :: "instant \<Rightarrow> managed_role \<Rightarrow> store \<Rightarrow> store" where
  "put_role now r st =
     st\<lparr>st_roles := upsert ro_name (new_role (next_id TRoles st) (mr_name r) (mr_description r) now True)
          (\<lambda>x. x\<lparr>ro_description := mr_description r, ro_managed := True\<rparr>) (st_roles st),
        st_seq := (if find_key ro_name (mr_name r) (st_roles st) = None
                   then (st_seq st)(TRoles := next_id TRoles st) else st_seq st)\<rparr>"

definition upsert_role ::
  "instant \<Rightarrow> managed_role \<Rightarrow> role_cache \<times> store \<Rightarrow> rbac_error + (role_cache \<times> store)" where
  "upsert_role now r = (\<lambda>(cache, st).
     if st_fault st TRoles then Inl (RbacStore ErrDB)
     else let st1 = put_role now r st
          in case find_key ro_name (mr_name r) (st_roles st1) of
               None \<Rightarrow> Inl (RbacStore ErrDB)
             | Some x \<Rightarrow> Inr (cache(mr_name r \<mapsto> ro_id x), st1))"

definition lookupRoleID :: "string \<Rightarrow> role_cache \<times> store \<Rightarrow> rbac_error + (nat \<times> role_cache)" where
  "lookupRoleID name = (\<lambda>(cache, st).
     case cache name of
       Some i \<Rightarrow> Inr (i, cache)
     | None \<Rightarrow>
         if st_fault st TRoles then Inl (RbacStore ErrDB)
         else case find_key ro_name name (st_roles st) of
                None \<Rightarrow> Inl (UnknownRole name)
              | Some x \<Rightarrow> Inr (ro_id x, cache(name \<mapsto> ro_id x)))"

definition stale_role :: "string list \<Rightarrow> store \<Rightarrow> nat \<Rightarrow> bool" where
  "stale_role keep st i = list_ex (\<lambda>r. ro_id r = i \<and> ro_managed r \<and> ro_name r \<notin> set keep) (st_roles st)"

definition deleteManagedRolesExcept :: "string list \<Rightarrow> store \<Rightarrow> rbac_error + store" where
  "deleteManagedRolesExcept keep st =
     (if role_fault st then Inl (RbacStore ErrDB) else Inr (drop_roles (stale_role keep st) st))"

section \<open>Permissions, assignments, mappings\<close>

definition add_managed_permission :: "role_cache \<Rightarrow> string \<Rightarrow> permission \<Rightarrow> store \<Rightarrow> rbac_error + store" where
  "add_managed_permission cache role p st =
     (let i = next_id TPermissions st; rid = (case cache role of Some j \<Rightarrow> j | None \<Rightarrow> 0) in
      if st_fault st TPermissions \<or> st_fault st TRoles then Inl (RbacStore ErrDB)
      else if find_role rid st = None then Inl (RbacStore ErrForeignKey)
      else Inr (st\<lparr>st_permissions := st_permissions st @
                    [\<lparr>p_id = i, p_role_id = rid, p_repo_pattern = p_repo_pattern p, p_actions = p_actions p,
                      p_managed = True\<rparr>],
                  st_seq := (st_seq st)(TPermissions := i)\<rparr>))"

definition rebuild_permissions :: "role_cache \<Rightarrow> managed_role list \<Rightarrow> store \<Rightarrow> rbac_error + store" where
  "rebuild_permissions cache roles st =
     (if st_fault st TPermissions then Inl (RbacStore ErrDB)
      else each (\<lambda>r. each (add_managed_permission cache (mr_name r)) (mr_permissions r)) roles
             (st\<lparr>st_permissions := delete_where p_managed (st_permissions st)\<rparr>))"

definition put_user_role :: "nat \<Rightarrow> nat \<Rightarrow> nat \<Rightarrow> store \<Rightarrow> store" where
  "put_user_role uid rid mark st =
     st\<lparr>st_user_roles := upsert ur_key \<lparr>ur_user_id = uid, ur_role_id = rid, ur_managed = mark\<rparr>
          (\<lambda>x. x\<lparr>ur_managed := mark\<rparr>) (st_user_roles st)\<rparr>"

definition assign_managed :: "managed_grant \<Rightarrow> role_cache \<times> store \<Rightarrow> rbac_error + (role_cache \<times> store)" where
  "assign_managed g = (\<lambda>(cache, st).
     case lookupUserID (gr_subject g) st of
       Inl e \<Rightarrow> Inl e
     | Inr uid \<Rightarrow>
         (case lookupRoleID (gr_role g) (cache, st) of
            Inl e \<Rightarrow> Inl e
          | Inr (rid, cache1) \<Rightarrow>
              if st_fault st TUserRoles \<or> st_fault st TUsers \<or> st_fault st TRoles then Inl (RbacStore ErrDB)
              else if find_user uid st = None \<or> find_role rid st = None then Inl (RbacStore ErrForeignKey)
              else Inr (cache1, put_user_role uid rid 1 st)))"

definition rebuild_user_roles ::
  "managed_grant list \<Rightarrow> role_cache \<times> store \<Rightarrow> rbac_error + (role_cache \<times> store)" where
  "rebuild_user_roles gs = (\<lambda>(cache, st).
     if st_fault st TUserRoles then Inl (RbacStore ErrDB)
     else each assign_managed gs
            (cache, st\<lparr>st_user_roles := delete_where (\<lambda>x. ur_managed x = 1) (st_user_roles st)\<rparr>))"

definition map_managed :: "managed_grant \<Rightarrow> role_cache \<times> store \<Rightarrow> rbac_error + (role_cache \<times> store)" where
  "map_managed g = (\<lambda>(cache, st).
     case lookupRoleID (gr_role g) (cache, st) of
       Inl e \<Rightarrow> Inl e
     | Inr (rid, cache1) \<Rightarrow>
         if st_fault st TGroupMappings \<or> st_fault st TRoles then Inl (RbacStore ErrDB)
         else if find_role rid st = None then Inl (RbacStore ErrForeignKey)
         else Inr (cache1, put_mapping \<lparr>gm_id = 0, gm_group_name = gr_subject g, gm_role_id = rid, gm_managed = True\<rparr>
                             (\<lambda>m. m\<lparr>gm_role_id := rid, gm_managed := True\<rparr>) st))"

definition rebuild_mappings ::
  "managed_grant list \<Rightarrow> role_cache \<times> store \<Rightarrow> rbac_error + (role_cache \<times> store)" where
  "rebuild_mappings gs = (\<lambda>(cache, st).
     if st_fault st TGroupMappings then Inl (RbacStore ErrDB)
     else each map_managed gs
            (cache, st\<lparr>st_group_mappings := delete_where gm_managed (st_group_mappings st)\<rparr>))"

section \<open>Reconciliation\<close>

definition rbac_transaction :: "instant \<Rightarrow> managed_rbac \<Rightarrow> store \<Rightarrow> rbac_error + store" where
  "rbac_transaction now d st =
     (case ensureManagedUsers now d st of
        Inl e \<Rightarrow> Inl e
      | Inr st1 \<Rightarrow>
          (case each (upsert_role now) (rb_roles d) (Map.empty, st1) of
             Inl e \<Rightarrow> Inl e
           | Inr (cache, st2) \<Rightarrow>
               (case deleteManagedRolesExcept (map mr_name (rb_roles d)) st2 of
                  Inl e \<Rightarrow> Inl e
                | Inr st3 \<Rightarrow>
                    (case rebuild_permissions cache (rb_roles d) st3 of
                       Inl e \<Rightarrow> Inl e
                     | Inr st4 \<Rightarrow>
                         (case rebuild_user_roles (rb_user_roles d) (cache, st4) of
                            Inl e \<Rightarrow> Inl e
                          | Inr cs \<Rightarrow> map_sum id snd (rebuild_mappings (rb_group_roles d) cs))))))"

definition ApplyManagedRBAC :: "instant \<Rightarrow> managed_rbac \<Rightarrow> store \<Rightarrow> (rbac_error + unit) \<times> store" where
  "ApplyManagedRBAC now d st =
     (case rbac_transaction now d st of Inl e \<Rightarrow> (Inl e, st) | Inr st' \<Rightarrow> (Inr (), st'))"

section \<open>Groups of a login\<close>

abbreviation (input) managedLoginSync :: nat where "managedLoginSync \<equiv> 2"

definition groupRoleIDs :: "string list \<Rightarrow> store \<Rightarrow> store_error + nat list" where
  "groupRoleIDs groups st =
     (if length groups = 0 then Inr []
      else if st_fault st TGroupMappings then Inl ErrDB
      else Inr (remdups (map gm_role_id (filter (\<lambda>m. gm_group_name m \<in> set groups) (st_group_mappings st)))))"

definition sync_role :: "nat \<Rightarrow> nat \<Rightarrow> store \<Rightarrow> store_error + store" where
  "sync_role uid rid st =
     (if st_fault st TUsers \<or> st_fault st TRoles then Inl ErrDB
      else if find_key ur_key (uid, rid) (st_user_roles st) \<noteq> None then Inr st
      else if find_user uid st = None \<or> find_role rid st = None then Inl ErrForeignKey
      else Inr (st\<lparr>st_user_roles := st_user_roles st @
                   [\<lparr>ur_user_id = uid, ur_role_id = rid, ur_managed = managedLoginSync\<rparr>]\<rparr>))"

definition SyncOIDCGroupRoles :: "nat \<Rightarrow> string list \<Rightarrow> store \<Rightarrow> (store_error + unit) \<times> store" where
  "SyncOIDCGroupRoles uid groups st =
     (case groupRoleIDs groups st of
        Inl e \<Rightarrow> (Inl e, st)
      | Inr rids \<Rightarrow>
          if st_fault st TUserRoles then (Inl ErrDB, st)
          else let st1 = st\<lparr>st_user_roles := delete_where
                   (\<lambda>x. ur_user_id x = uid \<and> ur_managed x = managedLoginSync \<and> ur_role_id x \<notin> set rids)
                   (st_user_roles st)\<rparr>
               in case each (sync_role uid) rids st1 of Inl e \<Rightarrow> (Inl e, st) | Inr st' \<Rightarrow> (Inr (), st'))"

section \<open>Marks\<close>

definition managed_mark :: "bool \<Rightarrow> bool option \<Rightarrow> store_error + bool" where
  "managed_mark fault row =
     (if fault then Inl ErrDB else case row of None \<Rightarrow> Inr False | Some m \<Rightarrow> Inr m)"

definition RoleManaged :: "store \<Rightarrow> nat \<Rightarrow> store_error + bool" where
  "RoleManaged st i = managed_mark (st_fault st TRoles) (map_option ro_managed (find_role i st))"

definition PermissionManaged :: "store \<Rightarrow> nat \<Rightarrow> store_error + bool" where
  "PermissionManaged st i =
     managed_mark (st_fault st TPermissions) (map_option p_managed (find_key p_id i (st_permissions st)))"

definition GroupMappingManaged :: "store \<Rightarrow> nat \<Rightarrow> store_error + bool" where
  "GroupMappingManaged st i =
     managed_mark (st_fault st TGroupMappings) (map_option gm_managed (find_key gm_id i (st_group_mappings st)))"

definition IsManagedUserRole :: "store \<Rightarrow> nat \<Rightarrow> nat \<Rightarrow> store_error + bool" where
  "IsManagedUserRole st uid rid =
     managed_mark (st_fault st TUserRoles)
       (map_option (\<lambda>x. ur_managed x \<noteq> 0) (find_key ur_key (uid, rid) (st_user_roles st)))"

section \<open>Rules for sequences\<close>

lemma each_hist_gen:
  assumes "\<And>ys x t t'. P ys t \<Longrightarrow> x \<in> set xs \<Longrightarrow> f x t = Inr t' \<Longrightarrow> P (ys @ [x]) t'"
  shows "each f zs t = Inr s' \<Longrightarrow> set zs \<subseteq> set xs \<Longrightarrow> P ys t \<Longrightarrow> P (ys @ zs) s'"
proof (induction zs arbitrary: ys t)
  case Nil
  then show ?case by simp
next
  case (Cons z zs)
  from Cons.prems(1) obtain t' where t': "f z t = Inr t'" "each f zs t' = Inr s'"
    by (auto split: sum.splits)
  have "P (ys @ [z]) t'" using assms Cons.prems(2,3) t'(1) by simp
  from Cons.IH [OF t'(2) _ this] Cons.prems(2) show ?case by simp
qed

text \<open>What holds of the statements run so far.\<close>

lemma each_hist:
  assumes "each f xs s = Inr s'" and "P [] s"
    and "\<And>ys x t t'. P ys t \<Longrightarrow> x \<in> set xs \<Longrightarrow> f x t = Inr t' \<Longrightarrow> P (ys @ [x]) t'"
  shows "P xs s'"
  using each_hist_gen [of P xs f xs s s' "[]"] assms by simp

lemma each_inv:
  assumes "each f xs s = Inr s'" and "P s" and "\<And>x t t'. P t \<Longrightarrow> x \<in> set xs \<Longrightarrow> f x t = Inr t' \<Longrightarrow> P t'"
  shows "P s'"
  using each_hist [of f xs s s' "\<lambda>_. P"] assms by blast

section \<open>The policy's rows\<close>

definition role_named :: "store \<Rightarrow> nat \<Rightarrow> string \<Rightarrow> bool" where
  "role_named st i n \<longleftrightarrow> (\<exists>r \<in> set (st_roles st). ro_id r = i \<and> ro_name r = n)"

definition user_named :: "store \<Rightarrow> nat \<Rightarrow> string \<Rightarrow> bool" where
  "user_named st i n \<longleftrightarrow> (\<exists>u \<in> set (st_users st). u_id u = i \<and> u_username u = n)"

definition managed_roles :: "store \<Rightarrow> string set" where
  "managed_roles st = {n. \<exists>r \<in> set (st_roles st). ro_managed r \<and> ro_name r = n}"

definition managed_permissions :: "store \<Rightarrow> (string \<times> string \<times> string) set" where
  "managed_permissions st = {(n, pat, acts). \<exists>p \<in> set (st_permissions st).
     p_managed p \<and> role_named st (p_role_id p) n \<and> p_repo_pattern p = pat \<and> p_actions p = acts}"

definition managed_grants :: "store \<Rightarrow> (string \<times> string) set" where
  "managed_grants st = {(u, n). \<exists>x \<in> set (st_user_roles st).
     ur_managed x = 1 \<and> user_named st (ur_user_id x) u \<and> role_named st (ur_role_id x) n}"

definition managed_mappings :: "store \<Rightarrow> (string \<times> string) set" where
  "managed_mappings st = {(g, n). \<exists>m \<in> set (st_group_mappings st).
     gm_managed m \<and> gm_group_name m = g \<and> role_named st (gm_role_id m) n}"

lemma named_unique:
  assumes "auth_ok st"
  shows "role_named st i n \<Longrightarrow> role_named st i n' \<Longrightarrow> n = n'"
    and "role_named st i n \<Longrightarrow> role_named st j n \<Longrightarrow> i = j"
    and "user_named st i n \<Longrightarrow> user_named st i n' \<Longrightarrow> n = n'"
    and "user_named st i n \<Longrightarrow> user_named st j n \<Longrightarrow> i = j"
  unfolding role_named_def user_named_def
  using distinct_key_eq [OF auth_ok_keys(3) [OF assms]] apply metis
  using distinct_key_eq [OF auth_ok_keys(4) [OF assms]] apply metis
  using distinct_key_eq [OF auth_ok_keys(1) [OF assms]] apply metis
  using distinct_key_eq [OF auth_ok_keys(2) [OF assms]] by metis

lemma role_named_find: "find_key ro_name n (st_roles st) = Some x \<Longrightarrow> role_named st (ro_id x) n"
  using find_key_in by (fastforce simp: role_named_def)

definition cache_ok :: "role_cache \<Rightarrow> store \<Rightarrow> bool" where
  "cache_ok cache st \<longleftrightarrow> (\<forall>n i. cache n = Some i \<longrightarrow> role_named st i n)"

lemma lookupRoleID_named:
  assumes "cache_ok cache st" and "lookupRoleID name (cache, st) = Inr (i, cache')"
  shows "role_named st i name" and "cache_ok cache' st"
  using assms by (auto simp: lookupRoleID_def cache_ok_def intro: role_named_find
      split: option.splits if_splits)

lemma lookupUserID_named: "lookupUserID name st = Inr i \<Longrightarrow> user_named st i name"
  using find_key_in by (fastforce simp: lookupUserID_def user_named_def split: option.splits if_splits)

section \<open>Users stay\<close>

definition only_users :: "store \<Rightarrow> store \<Rightarrow> bool" where
  "only_users st st' \<longleftrightarrow>
     st_roles st' = st_roles st \<and> st_permissions st' = st_permissions st \<and>
     st_user_roles st' = st_user_roles st \<and> st_group_mappings st' = st_group_mappings st \<and>
     st_tokens st' = st_tokens st \<and> (\<exists>new. st_users st' = st_users st @ new \<and> (\<forall>u \<in> set new. u_managed u))"

lemma rbac_ensureUser_keeps:
  assumes "auth_ok st" and "rbac_ensureUser now n h e s st = Inr st'"
  shows "auth_ok st'" and "only_users st st'"
proof -
  let ?row = "new_user (next_id TUsers st) n h s e False True now"
  have "st' = st \<or> find_key u_username n (st_users st) = None \<and> st' = insert_user ?row st"
    using assms(2) by (auto simp: rbac_ensureUser_def split: if_splits option.splits)
  then consider "st' = st" | "st' = insert_user ?row st" "u_username ?row \<notin> u_username ` set (st_users st)"
    by (auto simp: find_key_None new_user_def)
  then show "auth_ok st'" "only_users st st'"
    by (cases; use assms(1) auth_ok_insert_user [of st ?row] in
        \<open>auto simp: only_users_def insert_user_def new_user_def\<close>)+
qed

lemma only_users_trans: "only_users a b \<Longrightarrow> only_users b c \<Longrightarrow> only_users a c"
  unfolding only_users_def by (metis append.assoc Un_iff set_append)

lemma each_ensureUser_keeps:
  assumes "auth_ok st" and "each (\<lambda>x. rbac_ensureUser now (n x) (h x) (e x) s) xs st = Inr st'"
  shows "auth_ok st' \<and> only_users st st'"
  using assms(2)
proof (rule each_inv)
  show "auth_ok st \<and> only_users st st" using assms(1) by (simp add: only_users_def)
  show "auth_ok t' \<and> only_users st t'"
    if "auth_ok t \<and> only_users st t" "rbac_ensureUser now (n x) (h x) (e x) s t = Inr t'" for x t t'
    using that rbac_ensureUser_keeps [of t now "n x" "h x" "e x" s t'] only_users_trans by blast
qed

lemma ensureManagedUsers_keeps:
  assumes "auth_ok st" and "ensureManagedUsers now d st = Inr st'"
  shows "auth_ok st'" and "only_users st st'"
proof -
  from assms(2) obtain st1 where
    1: "each (\<lambda>u. rbac_ensureUser now (ml_username u) (ml_password_hash u) (ml_email u) SourceLocal)
          (rb_local_users d) st = Inr st1"
    and 2: "each (\<lambda>g. rbac_ensureUser now (gr_subject g) [] [] SourceOIDC) (rb_user_roles d) st1 = Inr st'"
    by (auto simp: ensureManagedUsers_def split: sum.splits)
  have "auth_ok st1 \<and> only_users st st1" by (rule each_ensureUser_keeps [OF assms(1) 1])
  moreover from this have "auth_ok st' \<and> only_users st1 st'" by (intro each_ensureUser_keeps [OF _ 2]) simp
  ultimately show "auth_ok st'" "only_users st st'" using only_users_trans by blast+
qed

section \<open>Roles\<close>

lemma set_upsert:
  "set (upsert k row f rows) =
     (if k row \<in> k ` set rows then (\<lambda>r. if k r = k row then f r else r) ` set rows else insert row (set rows))"
  by (cases "find_key k (k row) rows")
    (use find_key_None [of k "k row" rows] in \<open>auto simp: upsert_def set_update_where\<close>)

lemma bex_upsert:
  "(\<exists>r \<in> set (upsert k row f rows). Q r) \<longleftrightarrow>
     (\<exists>r \<in> set rows. k r \<noteq> k row \<and> Q r) \<or>
     (if k row \<in> k ` set rows then \<exists>r \<in> set rows. k r = k row \<and> Q (f r) else Q row)"
proof (cases "k row \<in> k ` set rows")
  case True
  have "Q (if k x = k row then f x else x) \<longleftrightarrow> k x \<noteq> k row \<and> Q x \<or> k x = k row \<and> Q (f x)" for x by simp
  with True show ?thesis unfolding set_upsert by (simp only: if_True bex_simps) blast
next
  case False
  then have "\<forall>r \<in> set rows. k r \<noteq> k row" by (metis image_eqI)
  with False show ?thesis unfolding set_upsert by (simp only: if_False bex_simps) blast
qed

text \<open>Upserts that set a mark: the marked keys are those there were and the new one.\<close>

lemma bex_upsert_marked:
  assumes "\<And>r. k (f r) = k r" and "\<And>r. M (f r)" and "M row"
  shows "(\<exists>r \<in> set (upsert k row f rows). M r \<and> P (k r)) \<longleftrightarrow> P (k row) \<or> (\<exists>r \<in> set rows. M r \<and> P (k r))"
proof (cases "k row \<in> k ` set rows")
  case True
  then obtain y where "y \<in> set rows" "k y = k row" by force
  with True show ?thesis unfolding bex_upsert assms(1) using assms(2) by (simp only: if_True) metis
next
  case False
  then have "\<forall>r \<in> set rows. k r \<noteq> k row" by (metis image_eqI)
  with False assms(3) show ?thesis unfolding bex_upsert by (simp only: if_False) blast
qed

lemma map_key_upsert:
  assumes "\<And>r. k' (f r) = k' r"
  shows "map k' (upsert k row f rows) = map k' rows @ (if k row \<in> k ` set rows then [] else [k' row])"
proof (cases "find_key k (k row) rows")
  case None
  then have "k row \<notin> k ` set rows" using find_key_None [of k "k row" rows] by simp
  then show ?thesis using None by (simp add: upsert_def)
next
  case (Some r)
  then have "k row \<in> k ` set rows" using find_key_None [of k "k row" rows] by simp
  then show ?thesis using Some assms by (simp add: upsert_def update_where_map_id)
qed

definition same_but_roles :: "store \<Rightarrow> store \<Rightarrow> bool" where
  "same_but_roles st st' \<longleftrightarrow>
     st_users st' = st_users st \<and> st_permissions st' = st_permissions st \<and>
     st_user_roles st' = st_user_roles st \<and> st_group_mappings st' = st_group_mappings st \<and>
     st_tokens st' = st_tokens st"

lemma put_role_keeps:
  assumes "auth_ok st"
  shows "auth_ok (put_role now r st)" and "same_but_roles st (put_role now r st)"
    and "role_named st i n \<Longrightarrow> role_named (put_role now r st) i n"
    and "managed_roles (put_role now r st) = insert (mr_name r) (managed_roles st)"
proof -
  let ?row = "new_role (next_id TRoles st) (mr_name r) (mr_description r) now True"
  let ?f = "\<lambda>x. x\<lparr>ro_description := mr_description r, ro_managed := True\<rparr>"
  let ?rows = "upsert ro_name ?row ?f (st_roles st)"
  have ids: "map ro_id ?rows = map ro_id (st_roles st) @
      (if mr_name r \<in> ro_name ` set (st_roles st) then [] else [next_id TRoles st])"
    by (subst map_key_upsert) (simp_all add: new_role_def)
  have nm: "map ro_name ?rows = map ro_name (st_roles st) @
      (if mr_name r \<in> ro_name ` set (st_roles st) then [] else [mr_name r])"
    by (subst map_key_upsert) (simp_all add: new_role_def)
  have img: "ro_id ` set ?rows = set (map ro_id ?rows)" by simp
  let ?new = "mr_name r \<notin> ro_name ` set (st_roles st)"
  have old: "ids_ok ro_id (st_roles st) (st_seq st TRoles)" using assms by (simp add: auth_ok_def)
  have "ids_ok ro_id ?rows (if ?new then next_id TRoles st else st_seq st TRoles)"
  proof -
    have "\<forall>j \<in> set (map ro_id ?rows). j \<le> (if ?new then next_id TRoles st else st_seq st TRoles)"
      using old unfolding ids by (auto simp: ids_ok_def next_id_def)
    moreover have "distinct (map ro_id ?rows)"
      using old unfolding ids by (auto simp: ids_ok_def next_id_def)
    ultimately show ?thesis by (simp add: ids_ok_def)
  qed
  moreover have "distinct (map ro_name ?rows)"
    unfolding nm using auth_ok_keys(4) [OF assms] by auto
  moreover have "A \<subseteq> ro_id ` set ?rows" if "A \<subseteq> ro_id ` set (st_roles st)" for A
    using that unfolding img ids by auto
  ultimately show "auth_ok (put_role now r st)"
    using assms by (cases "mr_name r \<in> ro_name ` set (st_roles st)") (simp_all add: auth_ok_def put_role_def find_key_None)
  show "same_but_roles st (put_role now r st)" by (simp add: same_but_roles_def put_role_def)
  have rows: "set (st_roles (put_role now r st)) = set ?rows" by (simp add: put_role_def)
  let ?g = "\<lambda>x. if ro_name x = mr_name r then ?f x else x"
  have set: "set ?rows = (if ?new then insert ?row (set (st_roles st)) else ?g ` set (st_roles st))"
    by (subst set_upsert) (simp add: new_role_def)
  have key: "ro_id (?g x) = ro_id x" "ro_name (?g x) = ro_name x"
    "ro_managed (?g x) \<longleftrightarrow> ro_managed x \<or> ro_name x = mr_name r" for x by simp_all
  show "role_named (put_role now r st) i n" if "role_named st i n"
    using that unfolding role_named_def rows set by (cases ?new) (simp_all only: if_True if_False bex_simps key, auto)
  show "managed_roles (put_role now r st) = insert (mr_name r) (managed_roles st)"
  proof (cases ?new)
    case True
    then show ?thesis unfolding managed_roles_def rows set by (auto simp: new_role_def)
  next
    case False
    then obtain x where "x \<in> set (st_roles st)" "ro_name x = mr_name r" by auto
    with False show ?thesis
      unfolding managed_roles_def rows set by (simp_all only: if_False bex_simps key) auto
  qed
qed

definition roles_done :: "store \<Rightarrow> managed_role list \<Rightarrow> role_cache \<times> store \<Rightarrow> bool" where
  "roles_done st ys = (\<lambda>(cache, t).
     auth_ok t \<and> same_but_roles st t \<and> cache_ok cache t \<and> dom cache = mr_name ` set ys \<and>
     managed_roles t = managed_roles st \<union> mr_name ` set ys)"

lemma upsert_roles_done:
  assumes "auth_ok st" and "each (upsert_role now) roles (Map.empty, st) = Inr cs"
  shows "roles_done st roles cs"
  using assms(2)
proof (rule each_hist)
  show "roles_done st [] (Map.empty, st)"
    using assms(1) by (simp add: roles_done_def same_but_roles_def cache_ok_def)
  fix ys r t t'
  assume P: "roles_done st ys t" and u: "upsert_role now r t = Inr t'"
  obtain cache s where t: "t = (cache, s)" by (cases t)
  from u obtain x where x: "find_key ro_name (mr_name r) (st_roles (put_role now r s)) = Some x"
    and t': "t' = (cache(mr_name r \<mapsto> ro_id x), put_role now r s)"
    by (auto simp: upsert_role_def t Let_def split: if_splits option.splits)
  from P t have s: "auth_ok s" "same_but_roles st s" "cache_ok cache s" by (auto simp: roles_done_def)
  note k = put_role_keeps [OF s(1), where now = now and r = r]
  have "cache_ok (cache(mr_name r \<mapsto> ro_id x)) (put_role now r s)"
    using s(3) k(3) role_named_find [OF x] by (auto simp: cache_ok_def)
  moreover have "same_but_roles st (put_role now r s)"
    using s(2) k(2) by (simp add: same_but_roles_def)
  ultimately show "roles_done st (ys @ [r]) t'"
    using P k(1,4) unfolding roles_done_def t t' by auto
qed

lemma drop_stale:
  assumes "roles_done st roles (cache, st1)"
    and "deleteManagedRolesExcept (map mr_name roles) st1 = Inr st2"
  shows "auth_ok st2" and "cache_ok cache st2" and "managed_roles st2 = mr_name ` set roles"
    and "st_users st2 = st_users st1"
proof -
  let ?gone = "stale_role (map mr_name roles) st1"
  have st2: "st2 = drop_roles ?gone st1" and ok: "auth_ok st1"
    using assms by (auto simp: deleteManagedRolesExcept_def roles_done_def split: if_splits)
  show "auth_ok st2" unfolding st2 by (rule auth_ok_drop_roles) (rule ok)
  show "st_users st2 = st_users st1" by (simp add: st2 drop_roles_def)
  have stale: "?gone (ro_id r) \<longleftrightarrow> ro_managed r \<and> ro_name r \<notin> mr_name ` set roles"
    if "r \<in> set (st_roles st1)" for r
    using that distinct_key_eq [OF auth_ok_keys(3) [OF ok]] by (auto simp: stale_role_def list_ex_iff)
  have rows: "set (st_roles st2) = {r \<in> set (st_roles st1). \<not> (ro_managed r \<and> ro_name r \<notin> mr_name ` set roles)}"
    using stale by (auto simp: st2 drop_roles_def)
  have m: "managed_roles st1 = managed_roles st \<union> mr_name ` set roles" and c: "cache_ok cache st1"
    and d: "dom cache = mr_name ` set roles"
    using assms(1) by (simp_all add: roles_done_def)
  from m rows show "managed_roles st2 = mr_name ` set roles"
    unfolding managed_roles_def by blast
  show "cache_ok cache st2"
    unfolding cache_ok_def
  proof (intro allI impI)
    fix n j
    assume n: "cache n = Some j"
    then have "n \<in> mr_name ` set roles" using d by blast
    moreover obtain r where "r \<in> set (st_roles st1)" "ro_id r = j" "ro_name r = n"
      using c n unfolding cache_ok_def role_named_def by blast
    ultimately show "role_named st2 j n" unfolding role_named_def rows by auto
  qed
qed

section \<open>Permissions\<close>

lemma each_append: "each f (xs @ ys) s = (case each f xs s of Inl e \<Rightarrow> Inl e | Inr t \<Rightarrow> each f ys t)"
  by (induction xs arbitrary: s) (auto split: sum.splits)

lemma each_map: "each f (map h xs) s = each (\<lambda>x. f (h x)) xs s"
  by (induction xs arbitrary: s) (auto split: sum.splits)

lemma each_nested:
  "each (\<lambda>r. each (g r) (ps r)) rs s = each (\<lambda>(r, p). g r p) (concat (map (\<lambda>r. map (Pair r) (ps r)) rs)) s"
  by (induction rs arbitrary: s) (auto simp: each_append each_map split: sum.splits)

definition permissions_done :: "store \<Rightarrow> (managed_role \<times> permission) list \<Rightarrow> store \<Rightarrow> bool" where
  "permissions_done st ys t \<longleftrightarrow>
     auth_ok t \<and> st_roles t = st_roles st \<and> st_users t = st_users st \<and>
     managed_permissions t = (\<lambda>(r, p). (mr_name r, p_repo_pattern p, p_actions p)) ` set ys"

lemma managed_permissions_add:
  assumes "auth_ok st" and "role_named st i n"
  shows "managed_permissions (st\<lparr>st_permissions := st_permissions st @
      [\<lparr>p_id = j, p_role_id = i, p_repo_pattern = pat, p_actions = acts, p_managed = True\<rparr>], st_seq := sq\<rparr>) =
    insert (n, pat, acts) (managed_permissions st)" (is "managed_permissions ?t = _")
proof -
  have "role_named ?t = role_named st" by (intro ext) (simp add: role_named_def)
  moreover have "role_named st i n' \<longleftrightarrow> n' = n" for n' using assms named_unique(1) [OF assms(1)] by blast
  ultimately show ?thesis by (auto simp: managed_permissions_def)
qed

lemma rebuild_permissions_done:
  assumes "auth_ok st" and "cache_ok cache st" and "dom cache = mr_name ` set roles"
    and "rebuild_permissions cache roles st = Inr st'"
  shows "auth_ok st'" and "st_roles st' = st_roles st" and "st_users st' = st_users st"
    and "managed_permissions st' =
      {(mr_name r, p_repo_pattern p, p_actions p) | r p. r \<in> set roles \<and> p \<in> set (mr_permissions r)}"
proof -
  let ?st0 = "st\<lparr>st_permissions := delete_where p_managed (st_permissions st)\<rparr>"
  let ?rps = "concat (map (\<lambda>r. map (Pair r) (mr_permissions r)) roles)"
  have run: "each (\<lambda>(r, p). add_managed_permission cache (mr_name r) p) ?rps ?st0 = Inr st'"
    using assms(4) by (simp add: rebuild_permissions_def each_nested split: if_splits)
  have "permissions_done st ?rps st'"
    using run
  proof (rule each_hist)
    have "auth_ok ?st0" using assms(1) by (auto simp: auth_ok_def intro!: ids_ok_delete)
    then show "permissions_done st [] ?st0"
      by (simp add: permissions_done_def managed_permissions_def)
    fix ys x t t'
    assume P: "permissions_done st ys t" and x: "x \<in> set ?rps"
      and f: "(\<lambda>(r, p). add_managed_permission cache (mr_name r) p) x t = Inr t'"
    obtain r p where rp: "x = (r, p)" by (cases x)
    from x rp have "mr_name r \<in> dom cache" using assms(3) by auto
    then obtain i where i: "cache (mr_name r) = Some i" by auto
    from P have t: "auth_ok t" "st_roles t = st_roles st" "st_users t = st_users st"
      by (simp_all add: permissions_done_def)
    from assms(2) i t(2) have named: "role_named t i (mr_name r)" by (simp add: cache_ok_def role_named_def)
    let ?new = "\<lparr>p_id = next_id TPermissions t, p_role_id = i, p_repo_pattern = p_repo_pattern p,
                  p_actions = p_actions p, p_managed = True\<rparr>"
    from f i rp have t': "t' = t\<lparr>st_permissions := st_permissions t @ [?new],
        st_seq := (st_seq t)(TPermissions := next_id TPermissions t)\<rparr>"
      by (auto simp: add_managed_permission_def Let_def split: if_splits)
    have "ids_ok p_id (st_permissions t @ [?new]) (next_id TPermissions t)"
      using t(1) unfolding next_id_def by (intro ids_ok_append) (auto simp: auth_ok_def)
    with t(1) named have "auth_ok t'" by (auto simp: t' auth_ok_def role_named_def)
    moreover have "managed_permissions t' =
        insert (mr_name r, p_repo_pattern p, p_actions p) (managed_permissions t)"
      unfolding t' by (rule managed_permissions_add [OF t(1) named])
    ultimately show "permissions_done st (ys @ [x]) t'"
      using P t by (simp add: permissions_done_def rp t')
  qed
  moreover have "(\<lambda>(r, p). (mr_name r, p_repo_pattern p, p_actions p)) ` set ?rps =
      {(mr_name r, p_repo_pattern p, p_actions p) | r p. r \<in> set roles \<and> p \<in> set (mr_permissions r)}"
    by (force simp: image_iff)
  ultimately show "auth_ok st'" "st_roles st' = st_roles st" "st_users st' = st_users st"
    "managed_permissions st' =
      {(mr_name r, p_repo_pattern p, p_actions p) | r p. r \<in> set roles \<and> p \<in> set (mr_permissions r)}"
    by (simp_all add: permissions_done_def)
qed

section \<open>Assignments\<close>

lemma put_user_role_keeps:
  assumes "auth_ok st" and "user_named st uid u" and "role_named st rid n"
  shows "auth_ok (put_user_role uid rid 1 st)"
    and "managed_grants (put_user_role uid rid 1 st) = insert (u, n) (managed_grants st)"
proof -
  let ?row = "\<lparr>ur_user_id = uid, ur_role_id = rid, ur_managed = 1\<rparr>" and ?f = "\<lambda>x. x\<lparr>ur_managed := 1\<rparr>"
  let ?rows = "upsert ur_key ?row ?f (st_user_roles st)" and ?t = "put_user_role uid rid 1 st"
  have keys: "map ur_key ?rows = map ur_key (st_user_roles st) @
      (if (uid, rid) \<in> ur_key ` set (st_user_roles st) then [] else [(uid, rid)])"
    by (subst map_key_upsert) simp_all
  have d: "distinct (map ur_key ?rows)" unfolding keys using auth_ok_keys(6) [OF assms(1)] by auto
  have sub: "ur_key ` set ?rows \<subseteq> insert (uid, rid) (ur_key ` set (st_user_roles st))"
    using arg_cong [OF keys, of set] by auto
  have "uid \<in> u_id ` set (st_users st)" "rid \<in> ro_id ` set (st_roles st)"
    using assms(2,3) by (auto simp: user_named_def role_named_def)
  moreover have "ur_user_id x \<in> u_id ` set (st_users st)" "ur_role_id x \<in> ro_id ` set (st_roles st)"
    if "x \<in> set (st_user_roles st)" for x
    using assms(1) that by (auto simp: auth_ok_def)
  ultimately have fk: "ur_user_id x \<in> u_id ` set (st_users st) \<and> ur_role_id x \<in> ro_id ` set (st_roles st)"
    if "ur_key x \<in> insert (uid, rid) (ur_key ` set (st_user_roles st))" for x
    using that by force
  have "ur_user_id ` set ?rows \<subseteq> u_id ` set (st_users st)"
    "ur_role_id ` set ?rows \<subseteq> ro_id ` set (st_roles st)"
    using fk sub by blast+
  with d assms(1) show "auth_ok ?t" by (simp add: auth_ok_def put_user_role_def)
  have nm: "role_named ?t = role_named st" "user_named ?t = user_named st"
    by (intro ext; simp add: role_named_def user_named_def put_user_role_def)+
  have un: "user_named st uid u' \<longleftrightarrow> u' = u" "role_named st rid n' \<longleftrightarrow> n' = n" for u' n'
    using assms(2,3) named_unique(1,3) [OF assms(1)] by blast+
  have rows: "st_user_roles ?t = ?rows" by (simp add: put_user_role_def)
  have ex: "(\<exists>x \<in> set (st_user_roles ?t). ur_managed x = 1 \<and> P (ur_key x)) \<longleftrightarrow>
      P (uid, rid) \<or> (\<exists>x \<in> set (st_user_roles st). ur_managed x = 1 \<and> P (ur_key x))" for P
    unfolding rows by (subst bex_upsert_marked) simp_all
  have "x \<in> managed_grants ?t \<longleftrightarrow> x \<in> insert (u, n) (managed_grants st)" for x
    unfolding managed_grants_def nm
    using ex [of "\<lambda>(i, j). user_named st i (fst x) \<and> role_named st j (snd x)"] by (cases x) (simp add: un)
  then show "managed_grants ?t = insert (u, n) (managed_grants st)" by blast
qed

definition grants_done :: "store \<Rightarrow> managed_grant list \<Rightarrow> role_cache \<times> store \<Rightarrow> bool" where
  "grants_done st ys = (\<lambda>(cache, t).
     auth_ok t \<and> cache_ok cache t \<and> st_roles t = st_roles st \<and> st_users t = st_users st \<and>
     st_permissions t = st_permissions st \<and>
     managed_grants t = (\<lambda>g. (gr_subject g, gr_role g)) ` set ys)"

lemma rebuild_user_roles_done:
  assumes "auth_ok st" and "cache_ok cache st" and "rebuild_user_roles gs (cache, st) = Inr cs"
  shows "grants_done st gs cs"
proof -
  let ?st0 = "st\<lparr>st_user_roles := delete_where (\<lambda>x. ur_managed x = 1) (st_user_roles st)\<rparr>"
  have "each assign_managed gs (cache, ?st0) = Inr cs"
    using assms(3) by (simp add: rebuild_user_roles_def split: if_splits)
  then show ?thesis
  proof (rule each_hist)
    have "auth_ok ?st0" using assms(1) by (auto simp: auth_ok_def intro!: distinct_delete_where)
    then show "grants_done st [] (cache, ?st0)"
      using assms(2) by (simp add: grants_done_def managed_grants_def cache_ok_def role_named_def)
    fix ys g ct ct'
    assume P: "grants_done st ys ct" and f: "assign_managed g ct = Inr ct'"
    obtain c t where ct: "ct = (c, t)" by (cases ct)
    from f obtain uid rid c' where u: "lookupUserID (gr_subject g) t = Inr uid"
      and r: "lookupRoleID (gr_role g) (c, t) = Inr (rid, c')" and ct': "ct' = (c', put_user_role uid rid 1 t)"
      by (auto simp: assign_managed_def ct split: sum.splits if_splits)
    from P ct have t: "auth_ok t" "cache_ok c t" by (auto simp: grants_done_def)
    note k = put_user_role_keeps [OF t(1) lookupUserID_named [OF u] lookupRoleID_named(1) [OF t(2) r]]
    have "cache_ok c' (put_user_role uid rid 1 t)"
      using lookupRoleID_named(2) [OF t(2) r] by (simp add: cache_ok_def role_named_def put_user_role_def)
    with P k show "grants_done st (ys @ [g]) ct'"
      unfolding ct ct' grants_done_def by (simp add: put_user_role_def)
  qed
qed

section \<open>Mappings\<close>

lemma map_managed_step:
  fixes g :: string
  assumes "auth_ok st" and "role_named st rid n"
  defines "row \<equiv> \<lparr>gm_id = 0, gm_group_name = g, gm_role_id = rid, gm_managed = True\<rparr>"
  defines "t \<equiv> put_mapping row (\<lambda>m. m\<lparr>gm_role_id := rid, gm_managed := True\<rparr>) st"
  shows "auth_ok t" and "managed_mappings t = insert (g, n) {(g', n') \<in> managed_mappings st. g' \<noteq> g}"
proof -
  let ?f = "\<lambda>m. m\<lparr>gm_role_id := rid, gm_managed := True\<rparr>"
  show "auth_ok t"
    unfolding t_def using assms(1,2) by (intro auth_ok_put_mapping) (auto simp: role_named_def row_def)
  have nm: "role_named t = role_named st"
    by (intro ext) (simp add: role_named_def t_def put_mapping_def)
  have un: "role_named st rid n' \<longleftrightarrow> n' = n" for n' using assms(2) named_unique(1) [OF assms(1)] by blast
  have rows: "set (st_group_mappings t) =
      (if g \<in> gm_group_name ` set (st_group_mappings st)
       then (\<lambda>m. if gm_group_name m = g then ?f m else m) ` set (st_group_mappings st)
       else insert (row\<lparr>gm_id := next_id TGroupMappings st\<rparr>) (set (st_group_mappings st)))"
    by (simp add: t_def put_mapping_def set_upsert row_def)
  have ex: "(\<exists>m \<in> set (st_group_mappings t). gm_managed m \<and> gm_group_name m = g' \<and> P (gm_role_id m)) \<longleftrightarrow>
      (if g' = g then P rid
       else \<exists>m \<in> set (st_group_mappings st). gm_managed m \<and> gm_group_name m = g' \<and> P (gm_role_id m))" for g' P
  proof (cases "g \<in> gm_group_name ` set (st_group_mappings st)")
    case True
    then obtain x where "x \<in> set (st_group_mappings st)" "gm_group_name x = g" by auto
    with True show ?thesis unfolding rows by (simp only: if_True bex_simps) auto
  next
    case False
    then show ?thesis unfolding rows by (auto simp: row_def)
  qed
  have "x \<in> managed_mappings t \<longleftrightarrow> x \<in> insert (g, n) {(g', n') \<in> managed_mappings st. g' \<noteq> g}" for x
    unfolding managed_mappings_def nm
    using ex [of "fst x" "\<lambda>i. role_named st i (snd x)"] by (cases x) (simp add: un)
  then show "managed_mappings t = insert (g, n) {(g', n') \<in> managed_mappings st. g' \<noteq> g}" by blast
qed

definition mapping_of :: "managed_grant list \<Rightarrow> string \<rightharpoonup> string" where
  "mapping_of gs = map_of (rev (map (\<lambda>g. (gr_subject g, gr_role g)) gs))"

definition mappings_done :: "store \<Rightarrow> managed_grant list \<Rightarrow> role_cache \<times> store \<Rightarrow> bool" where
  "mappings_done st ys = (\<lambda>(cache, t).
     auth_ok t \<and> cache_ok cache t \<and> st_roles t = st_roles st \<and> st_users t = st_users st \<and>
     st_permissions t = st_permissions st \<and> st_user_roles t = st_user_roles st \<and>
     managed_mappings t = {(g, n). mapping_of ys g = Some n})"

lemma rebuild_mappings_done:
  assumes "auth_ok st" and "cache_ok cache st" and "rebuild_mappings gs (cache, st) = Inr cs"
  shows "mappings_done st gs cs"
proof -
  let ?st0 = "st\<lparr>st_group_mappings := delete_where gm_managed (st_group_mappings st)\<rparr>"
  have "each map_managed gs (cache, ?st0) = Inr cs"
    using assms(3) by (simp add: rebuild_mappings_def split: if_splits)
  then show ?thesis
  proof (rule each_hist)
    have "auth_ok ?st0" using assms(1) by (auto simp: auth_ok_def intro!: distinct_delete_where ids_ok_delete)
    then show "mappings_done st [] (cache, ?st0)"
      using assms(2)
      by (simp add: mappings_done_def managed_mappings_def cache_ok_def role_named_def mapping_of_def)
    fix ys g ct ct'
    assume P: "mappings_done st ys ct" and f: "map_managed g ct = Inr ct'"
    obtain c t where ct: "ct = (c, t)" by (cases ct)
    let ?put = "\<lambda>rid. put_mapping \<lparr>gm_id = 0, gm_group_name = gr_subject g, gm_role_id = rid, gm_managed = True\<rparr>
                   (\<lambda>m. m\<lparr>gm_role_id := rid, gm_managed := True\<rparr>) t"
    from f obtain rid c' where r: "lookupRoleID (gr_role g) (c, t) = Inr (rid, c')" and ct': "ct' = (c', ?put rid)"
      by (auto simp: map_managed_def ct split: sum.splits if_splits)
    from P ct have t: "auth_ok t" "cache_ok c t" and m: "managed_mappings t = {(g, n). mapping_of ys g = Some n}"
      by (auto simp: mappings_done_def)
    note k = map_managed_step [OF t(1) lookupRoleID_named(1) [OF t(2) r], where g = "gr_subject g"]
    have "cache_ok c' (?put rid)"
      using lookupRoleID_named(2) [OF t(2) r] by (simp add: cache_ok_def role_named_def put_mapping_def)
    moreover have "managed_mappings (?put rid) = {(g', n). mapping_of (ys @ [g]) g' = Some n}"
      unfolding k(2) m by (auto simp: mapping_of_def split: if_splits)
    ultimately show "mappings_done st (ys @ [g]) ct'"
      using P k(1) unfolding ct ct' mappings_done_def by (simp add: put_mapping_def)
  qed
qed

section \<open>What a reconciliation leaves\<close>

lemma rbac_transaction_done:
  assumes "auth_ok st" and "rbac_transaction now d st = Inr st'"
  shows "auth_ok st'" and "managed_roles st' = mr_name ` set (rb_roles d)"
    and "managed_permissions st' =
      {(mr_name r, p_repo_pattern p, p_actions p) | r p. r \<in> set (rb_roles d) \<and> p \<in> set (mr_permissions r)}"
    and "managed_grants st' = (\<lambda>g. (gr_subject g, gr_role g)) ` set (rb_user_roles d)"
    and "managed_mappings st' = {(g, n). mapping_of (rb_group_roles d) g = Some n}"
    and "\<exists>new. st_users st' = st_users st @ new \<and> (\<forall>u \<in> set new. u_managed u)"
proof -
  from assms(2) obtain st1 cache st2 st3 st4 c5 st5 c6 where
    1: "ensureManagedUsers now d st = Inr st1"
    and 2: "each (upsert_role now) (rb_roles d) (Map.empty, st1) = Inr (cache, st2)"
    and 3: "deleteManagedRolesExcept (map mr_name (rb_roles d)) st2 = Inr st3"
    and 4: "rebuild_permissions cache (rb_roles d) st3 = Inr st4"
    and 5: "rebuild_user_roles (rb_user_roles d) (cache, st4) = Inr (c5, st5)"
    and 6: "rebuild_mappings (rb_group_roles d) (c5, st5) = Inr (c6, st')"
    by (auto simp: rbac_transaction_def map_sum_def split: sum.splits)
  note u = ensureManagedUsers_keeps [OF assms(1) 1]
  have r: "roles_done st1 (rb_roles d) (cache, st2)" by (rule upsert_roles_done [OF u(1) 2])
  note s3 = drop_stale [OF r 3]
  have "dom cache = mr_name ` set (rb_roles d)" using r by (simp add: roles_done_def)
  note s4 = rebuild_permissions_done [OF s3(1,2) this 4]
  have c4: "cache_ok cache st4" using s3(2) s4(2) by (simp add: cache_ok_def role_named_def)
  have g: "grants_done st4 (rb_user_roles d) (c5, st5)" by (rule rebuild_user_roles_done [OF s4(1) c4 5])
  then have "auth_ok st5" "cache_ok c5 st5" by (simp_all add: grants_done_def)
  from rebuild_mappings_done [OF this 6] have m: "mappings_done st5 (rb_group_roles d) (c6, st')" .
  have roles: "st_roles st' = st_roles st3" and users: "st_users st' = st_users st1"
    using g m s4(2,3) s3(4) r by (simp_all add: grants_done_def mappings_done_def roles_done_def same_but_roles_def)
  then have rn: "role_named st' = role_named st4" and un: "user_named st' = user_named st5"
    using g m s4(2) by (auto simp: role_named_def user_named_def grants_done_def mappings_done_def intro!: ext)
  show "auth_ok st'" using m by (simp add: mappings_done_def)
  show "managed_roles st' = mr_name ` set (rb_roles d)" using s3(3) roles by (simp add: managed_roles_def)
  have "managed_permissions st' = managed_permissions st4"
    using g m rn by (simp add: managed_permissions_def grants_done_def mappings_done_def)
  then show "managed_permissions st' =
      {(mr_name r, p_repo_pattern p, p_actions p) | r p. r \<in> set (rb_roles d) \<and> p \<in> set (mr_permissions r)}"
    using s4(4) by simp
  have "managed_grants st' = managed_grants st5"
    using m un by (simp add: managed_grants_def mappings_done_def role_named_def)
  then show "managed_grants st' = (\<lambda>g. (gr_subject g, gr_role g)) ` set (rb_user_roles d)"
    using g by (simp add: grants_done_def)
  show "managed_mappings st' = {(g, n). mapping_of (rb_group_roles d) g = Some n}"
    using m by (simp add: mappings_done_def)
  show "\<exists>new. st_users st' = st_users st @ new \<and> (\<forall>u \<in> set new. u_managed u)"
    using u(2) users by (simp add: only_users_def)
qed

lemma ApplyManagedRBAC_success:
  "ApplyManagedRBAC now d st = (Inr (), st') \<Longrightarrow> rbac_transaction now d st = Inr st'"
  by (auto simp: ApplyManagedRBAC_def split: sum.splits)

text \<open>
  C17: Reconciliation makes the store what the policy says: the managed roles are exactly those it
  declares, their managed permissions exactly the declared ones, the managed assignments exactly its
  user grants, and the managed group mappings those of its group grants, where the last grant of a
  group counts. Existing accounts stay as they are, new ones carry the mark, and the keys of the schema hold.
\<close>

theorem ApplyManagedRBAC_exact:
  assumes "auth_ok st" and "ApplyManagedRBAC now d st = (Inr (), st')"
  shows "auth_ok st' \<and> managed_roles st' = mr_name ` set (rb_roles d) \<and>
    managed_permissions st' =
      {(mr_name r, p_repo_pattern p, p_actions p) | r p. r \<in> set (rb_roles d) \<and> p \<in> set (mr_permissions r)} \<and>
    managed_grants st' = (\<lambda>g. (gr_subject g, gr_role g)) ` set (rb_user_roles d) \<and>
    managed_mappings st' = {(g, n). mapping_of (rb_group_roles d) g = Some n} \<and>
    (\<exists>new. st_users st' = st_users st @ new \<and> (\<forall>u \<in> set new. u_managed u))"
  using rbac_transaction_done [OF assms(1) ApplyManagedRBAC_success [OF assms(2)]] by blast

definition demo_policy :: managed_rbac where
  "demo_policy =
     \<lparr>rb_roles = [\<lparr>mr_name = ''dev'', mr_description = [],
        mr_permissions = [\<lparr>p_id = 0, p_role_id = 0, p_repo_pattern = ''maven-*'', p_actions = ''read,write'', p_managed = False\<rparr>]\<rparr>],
      rb_group_roles = [\<lparr>gr_subject = ''team'', gr_role = ''dev''\<rparr>],
      rb_user_roles = [\<lparr>gr_subject = ''alice'', gr_role = ''dev''\<rparr>],
      rb_local_users = [\<lparr>ml_username = ''alice'', ml_password_hash = ''h'', ml_email = []\<rparr>]\<rparr>"

lemma auth_ok_empty: "auth_ok empty_store"
  by (simp add: auth_ok_def empty_store_def ids_ok_def)

theorem ApplyManagedRBAC_exact_witness:
  "\<exists>st'. ApplyManagedRBAC 5 demo_policy empty_store = (Inr (), st') \<and>
     managed_permissions st' = {(''dev'', ''maven-*'', ''read,write'')} \<and>
     managed_grants st' = {(''alice'', ''dev'')}"
proof -
  let ?st' = "snd (ApplyManagedRBAC 5 demo_policy empty_store)"
  have "isl (fst (ApplyManagedRBAC 5 demo_policy empty_store)) = False" by code_simp
  then have "ApplyManagedRBAC 5 demo_policy empty_store = (Inr (), ?st')"
    by (metis (full_types) prod.collapse sum.collapse(2) old.unit.exhaust)
  with ApplyManagedRBAC_exact [OF auth_ok_empty this] show ?thesis
    by (intro exI [of _ ?st']) (simp add: demo_policy_def)
qed

section \<open>Rows the policy takes over\<close>

text \<open>
  A role created by hand becomes the policy's when the policy declares one of that name. When the
  policy drops it, the cascade deletes the permissions and assignments made by hand with it.
\<close>

definition hand_made :: store where
  "hand_made =
     (let st1 = snd (CreateUser 1 (blank_user\<lparr>u_username := ''bob''\<rparr>) empty_store);
          st2 = snd (CreateRole 1 (new_role 0 ''dev'' [] 0 False) st1);
          st3 = snd (AddPermission \<lparr>p_id = 0, p_role_id = 1, p_repo_pattern = ''npm'', p_actions = ''read'', p_managed = False\<rparr> st2)
      in snd (AssignRole 1 1 st3))"

definition no_policy :: managed_rbac where
  "no_policy = \<lparr>rb_roles = [], rb_group_roles = [], rb_user_roles = [], rb_local_users = []\<rparr>"

theorem adopted_role_loses_hand_made_rows:
  "map p_managed (st_permissions hand_made) = [False] \<and> map ur_managed (st_user_roles hand_made) = [0] \<and>
   st_permissions (snd (ApplyManagedRBAC 3 no_policy (snd (ApplyManagedRBAC 2 demo_policy hand_made)))) = [] \<and>
   st_user_roles (snd (ApplyManagedRBAC 3 no_policy (snd (ApplyManagedRBAC 2 demo_policy hand_made)))) = []"
  by code_simp

section \<open>Groups of a login\<close>

definition assigned :: "store \<Rightarrow> nat \<Rightarrow> nat set" where
  "assigned st uid = {rid. \<exists>x \<in> set (st_user_roles st). ur_user_id x = uid \<and> ur_role_id x = rid}"

definition synced :: "store \<Rightarrow> nat \<Rightarrow> nat list \<Rightarrow> store \<Rightarrow> bool" where
  "synced st uid ys t \<longleftrightarrow>
     assigned t uid = assigned st uid \<union> set ys \<and>
     filter (\<lambda>x. ur_managed x \<noteq> 2 \<or> ur_user_id x \<noteq> uid) (st_user_roles t) =
       filter (\<lambda>x. ur_managed x \<noteq> 2 \<or> ur_user_id x \<noteq> uid) (st_user_roles st)"

lemma sync_roles_done:
  assumes "each (sync_role uid) rids st = Inr st'"
  shows "synced st uid rids st'"
  using assms
proof (rule each_hist)
  show "synced st uid [] st" by (simp add: synced_def)
  fix ys rid t t'
  assume P: "synced st uid ys t" and f: "sync_role uid rid t = Inr t'"
  let ?row = "\<lparr>ur_user_id = uid, ur_role_id = rid, ur_managed = managedLoginSync\<rparr>"
  from f consider "t' = t" "(uid, rid) \<in> ur_key ` set (st_user_roles t)"
    | "t' = t\<lparr>st_user_roles := st_user_roles t @ [?row]\<rparr>"
    by (auto simp: sync_role_def find_key_None split: if_splits)
  then show "synced st uid (ys @ [rid]) t'"
  proof cases
    case 1
    then have "rid \<in> assigned t uid" by (auto simp: assigned_def)
    with P 1(1) show ?thesis by (auto simp: synced_def)
  next
    case 2
    then have "assigned t' uid = insert rid (assigned t uid)" by (auto simp: assigned_def)
    with P 2 show ?thesis by (simp add: synced_def)
  qed
qed

lemma sync_exact:
  assumes "SyncOIDCGroupRoles uid groups st = (Inr (), st')"
  shows "assigned st' uid =
      {ur_role_id x | x. x \<in> set (st_user_roles st) \<and> ur_user_id x = uid \<and> ur_managed x \<noteq> 2} \<union>
      {gm_role_id m | m. m \<in> set (st_group_mappings st) \<and> gm_group_name m \<in> set groups} \<and>
    filter (\<lambda>x. ur_managed x \<noteq> 2 \<or> ur_user_id x \<noteq> uid) (st_user_roles st') =
      filter (\<lambda>x. ur_managed x \<noteq> 2 \<or> ur_user_id x \<noteq> uid) (st_user_roles st)"
proof -
  from assms obtain rids where g: "groupRoleIDs groups st = Inr rids"
    by (auto simp: SyncOIDCGroupRoles_def split: sum.splits)
  let ?st1 = "st\<lparr>st_user_roles := delete_where
      (\<lambda>x. ur_user_id x = uid \<and> ur_managed x = 2 \<and> ur_role_id x \<notin> set rids) (st_user_roles st)\<rparr>"
  from assms g have run: "each (sync_role uid) rids ?st1 = Inr st'"
    by (auto simp: SyncOIDCGroupRoles_def Let_def split: sum.splits if_splits)
  have rids: "set rids = {gm_role_id m | m. m \<in> set (st_group_mappings st) \<and> gm_group_name m \<in> set groups}"
    using g by (auto simp: groupRoleIDs_def split: if_splits)
  have "filter (\<lambda>x. ur_managed x \<noteq> 2 \<or> ur_user_id x \<noteq> uid) (st_user_roles ?st1) =
      filter (\<lambda>x. ur_managed x \<noteq> 2 \<or> ur_user_id x \<noteq> uid) (st_user_roles st)"
    by (auto simp: delete_where_def intro!: filter_cong)
  moreover have "assigned ?st1 uid \<union> set rids =
      {ur_role_id x | x. x \<in> set (st_user_roles st) \<and> ur_user_id x = uid \<and> ur_managed x \<noteq> 2} \<union> set rids"
    by (auto simp: assigned_def)
  ultimately show ?thesis
    using sync_roles_done [OF run] unfolding synced_def rids by simp
qed

text \<open>
  After a login the roles of a user are those assigned by hand or by the policy and those mapped
  from the groups the identity provider names now: no role of a group the user has left remains, and
  assignments that are not login-synced, or are another user's, stay as they are.
\<close>

theorem SyncOIDCGroupRoles_exact:
  assumes "SyncOIDCGroupRoles uid groups st = (Inr (), st')"
  shows "assigned st' uid =
      {ur_role_id x | x. x \<in> set (st_user_roles st) \<and> ur_user_id x = uid \<and> ur_managed x \<noteq> 2} \<union>
      {gm_role_id m | m. m \<in> set (st_group_mappings st) \<and> gm_group_name m \<in> set groups} \<and>
    filter (\<lambda>x. ur_managed x \<noteq> 2 \<or> ur_user_id x \<noteq> uid) (st_user_roles st') =
      filter (\<lambda>x. ur_managed x \<noteq> 2 \<or> ur_user_id x \<noteq> uid) (st_user_roles st)"
  by (rule sync_exact [OF assms])

definition left_group :: store where
  "left_group = (snd (ApplyManagedRBAC 2 demo_policy hand_made))\<lparr>st_user_roles :=
     [\<lparr>ur_user_id = 2, ur_role_id = 1, ur_managed = 2\<rparr>]\<rparr>"

theorem SyncOIDCGroupRoles_exact_witness:
  "assigned (snd (SyncOIDCGroupRoles 2 [''other''] left_group)) 2 = {} \<and>
   assigned (snd (SyncOIDCGroupRoles 2 [''team''] left_group)) 2 = {1}"
proof -
  have r: "isl (fst (SyncOIDCGroupRoles 2 [''other''] left_group)) = False"
    "isl (fst (SyncOIDCGroupRoles 2 [''team''] left_group)) = False" by code_simp+
  have ok: "SyncOIDCGroupRoles 2 gs left_group = (Inr (), snd (SyncOIDCGroupRoles 2 gs left_group))"
    if "isl (fst (SyncOIDCGroupRoles 2 gs left_group)) = False" for gs
    using that by (metis (full_types) prod.collapse sum.collapse(2) old.unit.exhaust)
  have m: "map (\<lambda>m. (gm_group_name m, gm_role_id m)) (st_group_mappings left_group) = [(''team'', 1)]"
    by code_simp
  then have m: "{gm_role_id m | m. m \<in> set (st_group_mappings left_group) \<and> gm_group_name m \<in> set gs} =
      (if ''team'' \<in> set gs then {1} else {})" for gs
    by (auto simp: map_eq_Cons_conv)
  have u: "st_user_roles left_group = [\<lparr>ur_user_id = 2, ur_role_id = 1, ur_managed = 2\<rparr>]"
    by (simp add: left_group_def)
  show ?thesis
    using SyncOIDCGroupRoles_exact [OF ok [OF r(1)]] SyncOIDCGroupRoles_exact [OF ok [OF r(2)]]
    unfolding m u by simp
qed

section \<open>Every history\<close>

datatype auth_op =
    OpCreateUser instant user | OpEnsureUser instant string string string | OpSetPassword instant nat string
  | OpTouchLastLogin instant nat | OpSetUserDisabled instant nat bool | OpSetLockout instant nat bool
  | OpFailedLogin instant nat int | OpResetLogin instant nat | OpDeleteUser nat
  | OpCreateRole instant role | OpDeleteRole nat | OpAddPermission permission | OpDeletePermission nat nat
  | OpAssignRole nat nat | OpRemoveRole nat nat | OpCreateMapping string nat | OpDeleteMapping nat
  | OpCreateToken instant token | OpTouchToken instant nat | OpDeleteToken nat nat
  | OpApplyPolicy instant managed_rbac | OpSyncGroups nat "string list" | OpFault "table \<Rightarrow> bool"

fun apply_auth :: "auth_op \<Rightarrow> store \<Rightarrow> store" where
  "apply_auth (OpCreateUser now u) st = snd (CreateUser now u st)"
| "apply_auth (OpEnsureUser now n e s) st = snd (EnsureUser now n e s st)"
| "apply_auth (OpSetPassword now i h) st = snd (SetPassword now i h st)"
| "apply_auth (OpTouchLastLogin now i) st = snd (TouchLastLogin now i st)"
| "apply_auth (OpSetUserDisabled now i d) st = snd (SetUserDisabled now i d st)"
| "apply_auth (OpSetLockout now i e) st = snd (SetLockoutEnabled now i e st)"
| "apply_auth (OpFailedLogin now i n) st = snd (RegisterFailedLogin now i n st)"
| "apply_auth (OpResetLogin now i) st = snd (ResetFailedLogin now i st)"
| "apply_auth (OpDeleteUser i) st = snd (DeleteUser i st)"
| "apply_auth (OpCreateRole now r) st = snd (CreateRole now r st)"
| "apply_auth (OpDeleteRole i) st = snd (DeleteRole i st)"
| "apply_auth (OpAddPermission p) st = snd (AddPermission p st)"
| "apply_auth (OpDeletePermission r i) st = snd (DeletePermission r i st)"
| "apply_auth (OpAssignRole u r) st = snd (AssignRole u r st)"
| "apply_auth (OpRemoveRole u r) st = snd (RemoveRole u r st)"
| "apply_auth (OpCreateMapping g r) st = snd (CreateGroupMapping g r st)"
| "apply_auth (OpDeleteMapping i) st = snd (DeleteGroupMapping i st)"
| "apply_auth (OpCreateToken now t) st = snd (CreateToken now t st)"
| "apply_auth (OpTouchToken now i) st = snd (TouchToken now i st)"
| "apply_auth (OpDeleteToken u i) st = snd (DeleteToken u i st)"
| "apply_auth (OpApplyPolicy now d) st = snd (ApplyManagedRBAC now d st)"
| "apply_auth (OpSyncGroups u gs) st = snd (SyncOIDCGroupRoles u gs st)"
| "apply_auth (OpFault f) st = st\<lparr>st_fault := f\<rparr>"

lemma auth_ok_CreateUser: "auth_ok st \<Longrightarrow> auth_ok (snd (CreateUser now u st))"
  by (auto simp: CreateUser_def Let_def find_key_None new_user_def intro!: auth_ok_insert_user)

lemma auth_ok_DeleteUser: "auth_ok st \<Longrightarrow> auth_ok (snd (DeleteUser i st))"
  by (auto simp: DeleteUser_def auth_ok_def intro!: ids_ok_delete distinct_delete_where)

lemma find_key_mem: "find_key k x rows \<noteq> None \<longleftrightarrow> x \<in> k ` set rows"
  by (simp add: find_key_None)

lemma auth_ok_CreateRole: "auth_ok st \<Longrightarrow> auth_ok (snd (CreateRole now r st))"
  by (auto simp: CreateRole_def Let_def auth_ok_def find_key_None new_role_def next_id_def intro!: ids_ok_append)

lemma auth_ok_AddPermission: "auth_ok st \<Longrightarrow> auth_ok (snd (AddPermission p st))"
  by (auto simp: AddPermission_def Let_def auth_ok_def find_key_None next_id_def intro!: ids_ok_append)

lemma auth_ok_DeletePermission: "auth_ok st \<Longrightarrow> auth_ok (snd (DeletePermission r i st))"
  by (auto simp: DeletePermission_def Let_def auth_ok_def intro!: ids_ok_delete)

lemma auth_ok_assign:
  assumes "auth_ok st" and "(uid, rid) \<notin> ur_key ` set (st_user_roles st)"
    and "uid \<in> u_id ` set (st_users st)" and "rid \<in> ro_id ` set (st_roles st)"
  shows "auth_ok (st\<lparr>st_user_roles := st_user_roles st @ [\<lparr>ur_user_id = uid, ur_role_id = rid, ur_managed = m\<rparr>]\<rparr>)"
  using assms by (auto simp: auth_ok_def)

lemma auth_ok_AssignRole: "auth_ok st \<Longrightarrow> auth_ok (snd (AssignRole u r st))"
  by (simp add: AssignRole_def find_key_None auth_ok_assign)

lemma auth_ok_unassign: "auth_ok st \<Longrightarrow> auth_ok (st\<lparr>st_user_roles := delete_where P (st_user_roles st)\<rparr>)"
  by (auto simp: auth_ok_def intro!: distinct_delete_where)

lemma auth_ok_DeleteGroupMapping: "auth_ok st \<Longrightarrow> auth_ok (snd (DeleteGroupMapping i st))"
  by (auto simp: DeleteGroupMapping_def auth_ok_def intro!: ids_ok_delete distinct_delete_where)

lemma auth_ok_CreateGroupMapping: "auth_ok st \<Longrightarrow> auth_ok (snd (CreateGroupMapping g r st))"
  by (auto simp: CreateGroupMapping_def find_key_None intro!: auth_ok_put_mapping)

lemma auth_ok_CreateToken: "auth_ok st \<Longrightarrow> auth_ok (snd (CreateToken now t st))"
  by (auto simp: CreateToken_def Let_def auth_ok_def find_key_None next_id_def intro!: ids_ok_append)

lemma auth_ok_TouchToken: "auth_ok st \<Longrightarrow> auth_ok (snd (TouchToken now i st))"
  by (simp add: TouchToken_def auth_ok_def ids_ok_update update_where_map_id image_update_where)

lemma auth_ok_DeleteToken: "auth_ok st \<Longrightarrow> auth_ok (snd (DeleteToken u i st))"
  by (auto simp: DeleteToken_def Let_def auth_ok_def intro!: ids_ok_delete distinct_delete_where)

lemma auth_ok_sync:
  assumes "auth_ok st"
  shows "auth_ok (snd (SyncOIDCGroupRoles uid groups st))"
proof -
  have "auth_ok t'" if "each (sync_role uid) rids t = Inr t'" "auth_ok t" for rids t t'
    using that
    by (rule each_inv) (auto simp: sync_role_def find_key_None split: if_splits intro!: auth_ok_assign)
  then show ?thesis
    using assms by (auto simp: SyncOIDCGroupRoles_def Let_def auth_ok_unassign split: sum.splits)
qed

lemma auth_ok_policy: "auth_ok st \<Longrightarrow> auth_ok (snd (ApplyManagedRBAC now d st))"
  using rbac_transaction_done(1) by (auto simp: ApplyManagedRBAC_def split: sum.splits)

lemmas auth_ok_ops =
  auth_ok_CreateUser auth_ok_DeleteUser auth_ok_CreateRole auth_ok_AddPermission auth_ok_DeletePermission
  auth_ok_AssignRole auth_ok_unassign auth_ok_DeleteGroupMapping auth_ok_CreateGroupMapping auth_ok_CreateToken
  auth_ok_TouchToken auth_ok_DeleteToken auth_ok_sync auth_ok_policy auth_ok_drop_roles

lemma apply_auth_ok: "auth_ok st \<Longrightarrow> auth_ok (apply_auth op st)"
proof (cases op)
  case (OpFault f)
  assume "auth_ok st"
  then show ?thesis by (simp add: OpFault auth_ok_def)
qed (auto simp: EnsureUser_def SetPassword_def TouchLastLogin_def SetUserDisabled_def SetLockoutEnabled_def
    RegisterFailedLogin_def ResetFailedLogin_def failed_login_def DeleteRole_def RemoveRole_def
    intro!: auth_ok_ops auth_ok_update_user split: sum.splits)

text \<open>
  C27: Whatever operations run on users, roles, permissions, assignments, group mappings and tokens,
  with whatever database faults in between, the keys of the schema hold: identifiers, user names, role
  names, group names and token hashes are unique, an identifier is never given out twice while its row
  exists, and no permission, assignment, mapping or token refers to a role or user that is gone.
\<close>

theorem auth_histories_ok: "auth_ok (fold apply_auth ops empty_store)"
proof (induction ops rule: rev_induct)
  case Nil
  then show ?case by (simp add: auth_ok_empty)
next
  case (snoc op ops)
  then show ?case by (simp add: apply_auth_ok)
qed

section \<open>Rows the policy does not own\<close>

definition unowned_from :: "store \<Rightarrow> store \<Rightarrow> bool" where
  "unowned_from st t \<longleftrightarrow>
     (\<forall>p \<in> set (st_permissions t). p_managed p \<or> p \<in> set (st_permissions st)) \<and>
     (\<forall>x \<in> set (st_user_roles t). ur_managed x = 1 \<or> x \<in> set (st_user_roles st))"

lemma unowned_same:
  "unowned_from st t \<Longrightarrow> st_permissions t' = st_permissions t \<Longrightarrow> st_user_roles t' = st_user_roles t \<Longrightarrow> unowned_from st t'"
  by (simp add: unowned_from_def)

lemma unowned_each:
  assumes "each f xs s = Inr s'" and "unowned_from st (snd s)"
    and "\<And>x t t'. f x t = Inr t' \<Longrightarrow> unowned_from st (snd t) \<Longrightarrow> unowned_from st (snd t')"
  shows "unowned_from st (snd s')"
  using assms(1,2) by (rule each_inv) (use assms(3) in blast)

lemma unowned_put_user_role: "unowned_from st t \<Longrightarrow> unowned_from st (put_user_role uid rid 1 t)"
  by (auto simp: unowned_from_def put_user_role_def set_upsert split: if_splits)

lemma unowned_assign:
  assumes "assign_managed g ct = Inr ct'" and "unowned_from st (snd ct)"
  shows "unowned_from st (snd ct')"
proof -
  obtain uid rid where "snd ct' = put_user_role uid rid 1 (snd ct)"
    using assms(1) by (cases ct) (auto simp: assign_managed_def split: sum.splits if_splits)
  then show ?thesis using unowned_put_user_role [OF assms(2)] by simp
qed

lemma unowned_put_mapping: "unowned_from st t \<Longrightarrow> unowned_from st (put_mapping row f t)"
  by (simp add: unowned_from_def put_mapping_def)

lemma unowned_map: "map_managed g ct = Inr ct' \<Longrightarrow> unowned_from st (snd ct) \<Longrightarrow> unowned_from st (snd ct')"
  by (cases ct) (auto simp: map_managed_def unowned_put_mapping split: sum.splits if_splits)

lemma rbac_unowned:
  assumes "auth_ok st" and "rbac_transaction now d st = Inr st'"
  shows "unowned_from st st'"
proof -
  from assms(2) obtain st1 cache st2 st3 st4 c5 st5 c6 where
    1: "ensureManagedUsers now d st = Inr st1"
    and 2: "each (upsert_role now) (rb_roles d) (Map.empty, st1) = Inr (cache, st2)"
    and 3: "deleteManagedRolesExcept (map mr_name (rb_roles d)) st2 = Inr st3"
    and 4: "rebuild_permissions cache (rb_roles d) st3 = Inr st4"
    and 5: "rebuild_user_roles (rb_user_roles d) (cache, st4) = Inr (c5, st5)"
    and 6: "rebuild_mappings (rb_group_roles d) (c5, st5) = Inr (c6, st')"
    by (auto simp: rbac_transaction_def map_sum_def split: sum.splits)
  have u1: "unowned_from st st1"
    using ensureManagedUsers_keeps(2) [OF assms(1) 1] by (simp add: only_users_def unowned_from_def)
  have "roles_done st1 (rb_roles d) (cache, st2)"
    by (rule upsert_roles_done [OF ensureManagedUsers_keeps(1) [OF assms(1) 1] 2])
  with u1 have u2: "unowned_from st st2" by (simp add: roles_done_def same_but_roles_def unowned_from_def)
  from 3 u2 have u3: "unowned_from st st3"
    by (auto simp: deleteManagedRolesExcept_def drop_roles_def unowned_from_def split: if_splits)
  from 4 have run: "each (\<lambda>(r, p). add_managed_permission cache (mr_name r) p)
      (concat (map (\<lambda>r. map (Pair r) (mr_permissions r)) (rb_roles d)))
      (st3\<lparr>st_permissions := delete_where p_managed (st_permissions st3)\<rparr>) = Inr st4"
    by (simp add: rebuild_permissions_def each_nested split: if_splits)
  have u4: "unowned_from st st4"
    using run
  proof (rule each_inv)
    show "unowned_from st (st3\<lparr>st_permissions := delete_where p_managed (st_permissions st3)\<rparr>)"
      using u3 by (auto simp: unowned_from_def)
    show "unowned_from st t'" if "unowned_from st t" "(\<lambda>(r, p). add_managed_permission cache (mr_name r) p) x t = Inr t'" for x t t'
      using that by (auto simp: unowned_from_def add_managed_permission_def Let_def split: if_splits prod.splits)
  qed
  from 5 have "each assign_managed (rb_user_roles d)
      (cache, st4\<lparr>st_user_roles := delete_where (\<lambda>x. ur_managed x = 1) (st_user_roles st4)\<rparr>) = Inr (c5, st5)"
    by (simp add: rebuild_user_roles_def split: if_splits)
  moreover have "unowned_from st (st4\<lparr>st_user_roles := delete_where (\<lambda>x. ur_managed x = 1) (st_user_roles st4)\<rparr>)"
    using u4 by (auto simp: unowned_from_def)
  ultimately have u5: "unowned_from st st5"
    using unowned_each [of assign_managed, OF _ _ unowned_assign] by fastforce
  from 6 have "each map_managed (rb_group_roles d)
      (c5, st5\<lparr>st_group_mappings := delete_where gm_managed (st_group_mappings st5)\<rparr>) = Inr (c6, st')"
    by (simp add: rebuild_mappings_def split: if_splits)
  moreover have "unowned_from st (st5\<lparr>st_group_mappings := delete_where gm_managed (st_group_mappings st5)\<rparr>)"
    using u5 by (simp add: unowned_from_def)
  ultimately show ?thesis
    using unowned_each [of map_managed, OF _ _ unowned_map] by fastforce
qed

end
