(* ===== verification/Policy.thy ===== *)
theory Policy
  imports Rbac "HOL-Library.AList"
begin

text \<open>
  The text of the declarative access policy (\<^verbatim>\<open>internal/auth/policy.go\<close>): permission lines \<open>p\<close> and grant
  lines \<open>g\<close>, parsed into the desired state that \<open>Rbac\<close> reconciles the store to. The maps the code
  builds are association lists; it sorts their keys before it uses them, so their order does not show.
\<close>

section \<open>Lines\<close>

datatype policy_error =
    PermissionForm | EmptyRoleOrObject | UnsupportedResource string | UnsupportedEffect string
  | InvalidAction string | GrantForm | EmptySubjectOrRole | EmptyAfterPrefix | UnknownStatement string

abbreviation subjectUserPrefix :: string where "subjectUserPrefix \<equiv> ''user:''"
abbreviation subjectGroupPrefix :: string where "subjectGroupPrefix \<equiv> ''group:''"

definition splitCSV :: "string \<Rightarrow> string list" where
  "splitCSV line = map trim_space (split_on (CHR '','') line)"

definition validRoleAction :: "string \<Rightarrow> bool" where
  "validRoleAction action \<longleftrightarrow>
     action \<in> {ActionRead, ActionWrite, ActionDelete, ActionApprove, ActionAudit, ActionAdmin}"

definition parsePermissionLine :: "string list \<Rightarrow> policy_error + (string \<times> string \<times> string)" where
  "parsePermissionLine fs =
     (if length fs < 5 \<or> 6 < length fs then Inl PermissionForm
      else let role = fs ! 1; resource = fs ! 2; action = fs ! 3; pattern = fs ! 4;
               effect = (if length fs = 6 then fs ! 5 else ''allow'')
           in if role = [] \<or> pattern = [] then Inl EmptyRoleOrObject
              else if resource \<noteq> ''repo'' \<and> resource \<noteq> ''*'' then Inl (UnsupportedResource resource)
              else if effect \<noteq> ''allow'' then Inl (UnsupportedEffect effect)
              else let action1 = (if action = ''*'' then ActionAdmin else action)
                   in if \<not> validRoleAction action1 then Inl (InvalidAction action1)
                      else Inr (role, pattern, action1))"

definition parseGrantLine :: "string list \<Rightarrow> policy_error + (string \<times> string)" where
  "parseGrantLine fs =
     (if length fs \<noteq> 3 then Inl GrantForm
      else let subject = fs ! 1; role = fs ! 2
           in if subject = [] \<or> role = [] then Inl EmptySubjectOrRole
              else if subject = subjectUserPrefix \<or> subject = subjectGroupPrefix then Inl EmptyAfterPrefix
              else Inr (subject, role))"

definition appendUnique :: "string list \<Rightarrow> string \<Rightarrow> string list" where
  "appendUnique l v = (if v \<in> set l then l else l @ [v])"

section \<open>The parser's state\<close>

type_synonym actions_map = "(string \<times> (string \<times> string list) list) list"

record policy_state =
  po_actions :: actions_map
  po_seen :: "string list"
  po_groups :: "managed_grant list"
  po_users :: "managed_grant list"

definition actions_of :: "actions_map \<Rightarrow> string \<Rightarrow> (string \<times> string list) list" where
  "actions_of m role = (case map_of m role of None \<Rightarrow> [] | Some pm \<Rightarrow> pm)"

definition pattern_actions :: "(string \<times> string list) list \<Rightarrow> string \<Rightarrow> string list" where
  "pattern_actions pm pat = (case map_of pm pat of None \<Rightarrow> [] | Some acts \<Rightarrow> acts)"

definition add_action :: "string \<Rightarrow> string \<Rightarrow> string \<Rightarrow> policy_state \<Rightarrow> policy_state" where
  "add_action role pattern action ps =
     (let pm = actions_of (po_actions ps) role;
          acts = appendUnique (pattern_actions pm pattern) action
      in ps\<lparr>po_seen := List.insert role (po_seen ps),
            po_actions := AList.update role (AList.update pattern acts pm) (po_actions ps)\<rparr>)"

definition add_grant :: "string \<Rightarrow> string \<Rightarrow> policy_state \<Rightarrow> policy_state" where
  "add_grant subject role ps =
     (case cut_prefix subject subjectGroupPrefix of
        Some name \<Rightarrow> ps\<lparr>po_groups := po_groups ps @ [\<lparr>gr_subject = name, gr_role = role\<rparr>]\<rparr>
      | None \<Rightarrow> ps\<lparr>po_users := po_users ps @
                    [\<lparr>gr_subject = trim_prefix subject subjectUserPrefix, gr_role = role\<rparr>]\<rparr>)"

definition policy_line :: "string \<Rightarrow> policy_state \<Rightarrow> policy_error + policy_state" where
  "policy_line raw ps =
     (let line = trim_space raw in
      if line = [] \<or> has_prefix line ''#'' then Inr ps
      else let fs = splitCSV line in
        if fs ! 0 = ''p'' then
          (case parsePermissionLine fs of
             Inl e \<Rightarrow> Inl e
           | Inr (role, pattern, action) \<Rightarrow> Inr (add_action role pattern action ps))
        else if fs ! 0 = ''g'' then
          (case parseGrantLine fs of
             Inl e \<Rightarrow> Inl e
           | Inr (subject, role) \<Rightarrow> Inr (add_grant subject role ps))
        else Inl (UnknownStatement (fs ! 0)))"

fun policy_lines :: "nat \<Rightarrow> string list \<Rightarrow> policy_state \<Rightarrow> (nat \<times> policy_error) + policy_state" where
  "policy_lines i [] ps = Inr ps"
| "policy_lines i (raw # rest) ps =
     (case policy_line raw ps of
        Inl e \<Rightarrow> Inl (Suc i, e)
      | Inr ps' \<Rightarrow> policy_lines (Suc i) rest ps')"

section \<open>The desired state\<close>

definition role_permissions :: "(string \<times> string list) list \<Rightarrow> permission list" where
  "role_permissions pm =
     map (\<lambda>pat. \<lparr>p_id = 0, p_role_id = 0, p_repo_pattern = pat,
                 p_actions = join_with '','' (pattern_actions pm pat), p_managed = False\<rparr>)
       (str_sort (map fst pm))"

definition buildRoles :: "string list \<Rightarrow> actions_map \<Rightarrow> managed_role list" where
  "buildRoles seen actions =
     map (\<lambda>name. \<lparr>mr_name = name, mr_description = ''Managed by declarative RBAC policy'',
                  mr_permissions = role_permissions (actions_of actions name)\<rparr>)
       (str_sort seen)"

definition empty_policy_state :: policy_state where
  "empty_policy_state = \<lparr>po_actions = [], po_seen = [], po_groups = [], po_users = []\<rparr>"

definition ParsePolicy :: "string \<Rightarrow> (nat \<times> policy_error) + managed_rbac" where
  "ParsePolicy text =
     (case policy_lines 0 (split_on (CHR 0x0A) text) empty_policy_state of
        Inl e \<Rightarrow> Inl e
      | Inr ps \<Rightarrow> Inr \<lparr>rb_roles = buildRoles (po_seen ps) (po_actions ps), rb_group_roles = po_groups ps,
                       rb_user_roles = po_users ps, rb_local_users = []\<rparr>)"

section \<open>What a policy says\<close>

text \<open>The statement of a line, when it is a well-formed one.\<close>

definition line_fields :: "string \<Rightarrow> string list option" where
  "line_fields raw =
     (let line = trim_space raw in if line = [] \<or> has_prefix line ''#'' then None else Some (splitCSV line))"

definition line_permission :: "string \<Rightarrow> (string \<times> string \<times> string) option" where
  "line_permission raw =
     (case line_fields raw of
        None \<Rightarrow> None
      | Some fs \<Rightarrow> if fs ! 0 \<noteq> ''p'' then None
                   else case parsePermissionLine fs of Inl e \<Rightarrow> None | Inr x \<Rightarrow> Some x)"

definition line_grant :: "string \<Rightarrow> (string \<times> string) option" where
  "line_grant raw =
     (case line_fields raw of
        None \<Rightarrow> None
      | Some fs \<Rightarrow> if fs ! 0 \<noteq> ''g'' then None
                   else case parseGrantLine fs of Inl e \<Rightarrow> None | Inr x \<Rightarrow> Some x)"

definition policy_permits :: "string \<Rightarrow> string \<Rightarrow> string \<Rightarrow> string \<Rightarrow> bool" where
  "policy_permits text role pat act \<longleftrightarrow>
     (\<exists>raw \<in> set (split_on (CHR 0x0A) text). line_permission raw = Some (role, pat, act))"

definition policy_grants_user :: "string \<Rightarrow> string \<Rightarrow> string \<Rightarrow> bool" where
  "policy_grants_user text name role \<longleftrightarrow>
     (\<exists>raw \<in> set (split_on (CHR 0x0A) text). \<exists>subject. line_grant raw = Some (subject, role) \<and>
        cut_prefix subject subjectGroupPrefix = None \<and> trim_prefix subject subjectUserPrefix = name)"

definition has_action :: "policy_state \<Rightarrow> string \<Rightarrow> string \<Rightarrow> string \<Rightarrow> bool" where
  "has_action ps role pat act \<longleftrightarrow> act \<in> set (pattern_actions (actions_of (po_actions ps) role) pat)"

definition actions_ok :: "policy_state \<Rightarrow> bool" where
  "actions_ok ps \<longleftrightarrow>
     set (po_seen ps) = fst ` set (po_actions ps) \<and>
     (\<forall>role pat acts. map_of (actions_of (po_actions ps) role) pat = Some acts \<longrightarrow>
        acts \<noteq> [] \<and> (\<forall>a \<in> set acts. validRoleAction a))"

lemma actions_of_add:
  "actions_of (po_actions (add_action role pat act ps)) r =
     (if r = role
      then AList.update pat (appendUnique (pattern_actions (actions_of (po_actions ps) role) pat) act)
             (actions_of (po_actions ps) role)
      else actions_of (po_actions ps) r)"
  by (simp add: add_action_def Let_def actions_of_def update_conv)

lemma has_action_add:
  "has_action (add_action role pat act ps) r q a \<longleftrightarrow> has_action ps r q a \<or> (r, q, a) = (role, pat, act)"
  by (auto simp: has_action_def actions_of_add pattern_actions_def update_conv appendUnique_def)

lemma actions_ok_add:
  assumes "actions_ok ps" and "validRoleAction act"
  shows "actions_ok (add_action role pat act ps)"
proof -
  have old: "acts \<noteq> [] \<and> (\<forall>a \<in> set acts. validRoleAction a)"
    if "map_of (actions_of (po_actions ps) r) q = Some acts" for r q acts
    using assms(1) that unfolding actions_ok_def by blast
  have "\<forall>a \<in> set (pattern_actions (actions_of (po_actions ps) role) pat). validRoleAction a"
    using old [of role pat] by (cases "map_of (actions_of (po_actions ps) role) pat") (auto simp: pattern_actions_def)
  with assms(2) have new: "appendUnique (pattern_actions (actions_of (po_actions ps) role) pat) act \<noteq> []"
    "\<forall>a \<in> set (appendUnique (pattern_actions (actions_of (po_actions ps) role) pat) act). validRoleAction a"
    by (auto simp: appendUnique_def)
  have "set (po_seen (add_action role pat act ps)) = fst ` set (po_actions (add_action role pat act ps))"
    using assms(1) by (simp add: add_action_def Let_def actions_ok_def dom_update)
  moreover have "acts \<noteq> [] \<and> (\<forall>a \<in> set acts. validRoleAction a)"
    if "map_of (actions_of (po_actions (add_action role pat act ps)) r) q = Some acts" for r q acts
    using that old new unfolding actions_of_add by (auto simp: update_conv split: if_splits)
  ultimately show ?thesis by (simp add: actions_ok_def)
qed

lemma parsePermissionLine_valid: "parsePermissionLine fs = Inr (role, pat, act) \<Longrightarrow> validRoleAction act"
  by (auto simp: parsePermissionLine_def Let_def split: if_splits)

lemma policy_line_effect:
  assumes "policy_line raw ps = Inr ps'" and "actions_ok ps"
  shows "actions_ok ps'"
    and "has_action ps' r q a \<longleftrightarrow> has_action ps r q a \<or> line_permission raw = Some (r, q, a)"
    and "\<lparr>gr_subject = n, gr_role = r\<rparr> \<in> set (po_users ps') \<longleftrightarrow>
      \<lparr>gr_subject = n, gr_role = r\<rparr> \<in> set (po_users ps) \<or>
      (\<exists>subject. line_grant raw = Some (subject, r) \<and> cut_prefix subject subjectGroupPrefix = None \<and>
         trim_prefix subject subjectUserPrefix = n)"
proof -
  from assms(1) consider
      (blank) "line_fields raw = None" "ps' = ps"
    | (perm) fs role pat act where "line_fields raw = Some fs" "fs ! 0 = ''p''"
        "parsePermissionLine fs = Inr (role, pat, act)" "ps' = add_action role pat act ps"
    | (grant) fs subject role where "line_fields raw = Some fs" "fs ! 0 = ''g''"
        "parseGrantLine fs = Inr (subject, role)" "ps' = add_grant subject role ps"
    by (auto simp: policy_line_def line_fields_def Let_def split: if_splits sum.splits prod.splits)
  then have all: "actions_ok ps' \<and>
      (has_action ps' r q a \<longleftrightarrow> has_action ps r q a \<or> line_permission raw = Some (r, q, a)) \<and>
      (\<lparr>gr_subject = n, gr_role = r\<rparr> \<in> set (po_users ps') \<longleftrightarrow>
        \<lparr>gr_subject = n, gr_role = r\<rparr> \<in> set (po_users ps) \<or>
        (\<exists>subject. line_grant raw = Some (subject, r) \<and> cut_prefix subject subjectGroupPrefix = None \<and>
           trim_prefix subject subjectUserPrefix = n))"
  proof cases
    case blank
    with assms(2) show ?thesis by (simp add: line_permission_def line_grant_def)
  next
    case perm
    have "po_users ps' = po_users ps" by (simp add: perm(4) add_action_def Let_def)
    with perm assms(2) show ?thesis
      by (auto simp: line_permission_def line_grant_def has_action_add
          intro!: actions_ok_add parsePermissionLine_valid)
  next
    case grant
    have "po_actions ps' = po_actions ps" "po_seen ps' = po_seen ps"
      by (simp_all add: grant(4) add_grant_def split: option.splits)
    with grant assms(2) show ?thesis
      by (auto simp: line_permission_def line_grant_def has_action_def actions_ok_def add_grant_def
          split: option.splits)
  qed
  from all show "actions_ok ps'"
    "has_action ps' r q a \<longleftrightarrow> has_action ps r q a \<or> line_permission raw = Some (r, q, a)"
    "\<lparr>gr_subject = n, gr_role = r\<rparr> \<in> set (po_users ps') \<longleftrightarrow>
      \<lparr>gr_subject = n, gr_role = r\<rparr> \<in> set (po_users ps) \<or>
      (\<exists>subject. line_grant raw = Some (subject, r) \<and> cut_prefix subject subjectGroupPrefix = None \<and>
         trim_prefix subject subjectUserPrefix = n)" by blast+
qed

lemma policy_lines_effect:
  assumes "policy_lines i raws ps = Inr ps'" and "actions_ok ps"
  shows "actions_ok ps' \<and>
    (has_action ps' r q a \<longleftrightarrow> has_action ps r q a \<or> (\<exists>raw \<in> set raws. line_permission raw = Some (r, q, a))) \<and>
    (\<lparr>gr_subject = n, gr_role = r\<rparr> \<in> set (po_users ps') \<longleftrightarrow>
      \<lparr>gr_subject = n, gr_role = r\<rparr> \<in> set (po_users ps) \<or>
      (\<exists>raw \<in> set raws. \<exists>subject. line_grant raw = Some (subject, r) \<and>
         cut_prefix subject subjectGroupPrefix = None \<and> trim_prefix subject subjectUserPrefix = n))"
  using assms
proof (induction raws arbitrary: i ps)
  case Nil
  then show ?case by simp
next
  case (Cons raw raws)
  then obtain ps1 where 1: "policy_line raw ps = Inr ps1" and 2: "policy_lines (Suc i) raws ps1 = Inr ps'"
    by (auto split: sum.splits)
  note e = policy_line_effect [OF 1 Cons.prems(2)]
  show ?case using Cons.IH [OF 2 e(1)] unfolding e(2,3) by auto
qed

section \<open>Lists of actions\<close>

lemma valid_action_word:
  assumes "validRoleAction a"
  shows "trim_space a = a" and "CHR '','' \<notin> set a"
proof -
  have t: "trim_space ActionRead = ActionRead" "trim_space ActionWrite = ActionWrite"
    "trim_space ActionDelete = ActionDelete" "trim_space ActionApprove = ActionApprove"
    "trim_space ActionAudit = ActionAudit" "trim_space ActionAdmin = ActionAdmin"
    by (simp_all add: trim_space_def drop_spaces.simps ascii_space_def latin_space_def wide_space_def)
  from assms show "trim_space a = a" unfolding validRoleAction_def using t by fastforce
  from assms show "CHR '','' \<notin> set a" unfolding validRoleAction_def by fastforce
qed

lemma actionsContain_join:
  assumes "acts \<noteq> []" and "\<forall>a \<in> set acts. validRoleAction a"
  shows "actionsContain (join_with '','' acts) a \<longleftrightarrow> ActionAdmin \<in> set acts \<or> a \<in> set acts"
proof -
  have "split_on (CHR '','') (join_with '','' acts) = acts"
    using assms valid_action_word(2) by (intro split_on_join) (auto simp: list_all_iff)
  moreover have "\<forall>x \<in> set acts. trim_space x = x" using assms(2) valid_action_word(1) by blast
  ultimately show ?thesis by (auto simp: actionsContain_def list_ex_iff)
qed

section \<open>Parsing is faithful\<close>

definition desired_allows :: "managed_rbac \<Rightarrow> string \<Rightarrow> string \<Rightarrow> string \<Rightarrow> bool" where
  "desired_allows d role pat a \<longleftrightarrow>
     (\<exists>r \<in> set (rb_roles d). mr_name r = role \<and>
        (\<exists>p \<in> set (mr_permissions r). p_repo_pattern p = pat \<and> actionsContain (p_actions p) a))"

lemma buildRoles_allows:
  assumes "actions_ok ps" and "rb_roles d = buildRoles (po_seen ps) (po_actions ps)"
  shows "desired_allows d role pat a \<longleftrightarrow> has_action ps role pat ActionAdmin \<or> has_action ps role pat a"
proof -
  let ?pm = "actions_of (po_actions ps) role"
  have seen: "role \<in> set (po_seen ps)" if "?pm \<noteq> []"
    using that assms(1) by (cases "map_of (po_actions ps) role")
      (auto simp: actions_ok_def actions_of_def intro: rev_image_eqI dest: map_of_SomeD)
  have "desired_allows d role pat a \<longleftrightarrow>
      role \<in> set (po_seen ps) \<and> pat \<in> fst ` set ?pm \<and>
      actionsContain (join_with '','' (pattern_actions ?pm pat)) a"
    by (auto simp: desired_allows_def assms(2) buildRoles_def role_permissions_def)
  also have "\<dots> \<longleftrightarrow> has_action ps role pat ActionAdmin \<or> has_action ps role pat a"
  proof (cases "map_of ?pm pat")
    case None
    then have "pat \<notin> fst ` set ?pm" by (simp add: map_of_eq_None_iff)
    with None show ?thesis by (simp add: has_action_def pattern_actions_def)
  next
    case (Some acts)
    then have "pat \<in> fst ` set ?pm" "?pm \<noteq> []" by (auto simp: rev_image_eqI dest: map_of_SomeD)
    moreover have "acts \<noteq> []" "\<forall>x \<in> set acts. validRoleAction x"
      using assms(1) Some unfolding actions_ok_def by blast+
    ultimately show ?thesis
      using seen Some actionsContain_join [of acts a] by (auto simp: has_action_def pattern_actions_def)
  qed
  finally show ?thesis .
qed

lemma ParsePolicy_effect:
  assumes "ParsePolicy text = Inr d"
  shows "desired_allows d role pat a \<longleftrightarrow>
      policy_permits text role pat ActionAdmin \<or> policy_permits text role pat a"
    and "\<lparr>gr_subject = n, gr_role = r\<rparr> \<in> set (rb_user_roles d) \<longleftrightarrow> policy_grants_user text n r"
    and "rb_local_users d = []"
proof -
  from assms obtain ps where run: "policy_lines 0 (split_on (CHR 0x0A) text) empty_policy_state = Inr ps"
    and d: "rb_roles d = buildRoles (po_seen ps) (po_actions ps)" "rb_user_roles d = po_users ps"
      "rb_local_users d = []"
    by (auto simp: ParsePolicy_def split: sum.splits)
  have "actions_ok empty_policy_state" by (simp add: actions_ok_def empty_policy_state_def actions_of_def)
  note e = policy_lines_effect [OF run this]
  have empty: "\<not> has_action empty_policy_state r q a" "po_users empty_policy_state = []" for r q a
    by (simp_all add: has_action_def empty_policy_state_def actions_of_def pattern_actions_def)
  have ok: "actions_ok ps" using e by blast
  have "has_action ps r q a \<longleftrightarrow> policy_permits text r q a" for r q a
    using e [of r q a] empty(1) by (simp add: policy_permits_def)
  then show "desired_allows d role pat a \<longleftrightarrow>
      policy_permits text role pat ActionAdmin \<or> policy_permits text role pat a"
    unfolding buildRoles_allows [OF ok d(1)] by simp
  show "\<lparr>gr_subject = n, gr_role = r\<rparr> \<in> set (rb_user_roles d) \<longleftrightarrow> policy_grants_user text n r"
    using e [of r _ _ n] empty(2) d(2) by (simp add: policy_grants_user_def)
  show "rb_local_users d = []" by (rule d(3))
qed

end
