(* ===== verification/Auth_Service.thy ===== *)
theory Auth_Service
  imports Policy Base64 Http Json
begin

text \<open>
  Authentication (\<^verbatim>\<open>internal/auth\<close>: \<^verbatim>\<open>credentials.go\<close>, \<^verbatim>\<open>session.go\<close>, \<^verbatim>\<open>service.go\<close>, \<^verbatim>\<open>middleware.go\<close>,
  \<^verbatim>\<open>reconcile.go\<close>, \<^verbatim>\<open>oidc.go\<close>): signed session cookies, passwords with lockout, personal access tokens,
  bearer tokens of an identity provider, and the permissions of the principal they give.

  The cryptography, the encoding of the session payload and of token scopes, and the identity provider
  are parameters. The functions that change the store give it back beside their result; what they
  return is the principal, or \<open>None\<close> for an anonymous request, or the database error that the middleware
  logs before it treats the request as anonymous.
\<close>

section \<open>Parameters\<close>

record sessionData =
  sd_username :: string
  sd_source :: string
  sd_groups :: "string list"
  sd_expires :: int

text \<open>
  \<open>cr_verify\<close> compares a password with its bcrypt hash, \<open>cr_hash\<close> makes a hash (\<open>None\<close> for a password bcrypt
  refuses), \<open>cr_sha256\<close> is the hexadecimal SHA-256, \<open>cr_hmac\<close> the HMAC under the session secret;
  \<open>cr_marshal\<close> and \<open>cr_unmarshal\<close> are the JSON of a session, \<open>cr_scopes\<close> what decoding the scopes of a
  token leaves in the slice, whatever error it reports.
\<close>

record crypto =
  cr_verify :: "string \<Rightarrow> string \<Rightarrow> bool"
  cr_hash :: "string \<Rightarrow> string option"
  cr_sha256 :: "bytes \<Rightarrow> string"
  cr_hmac :: "bytes \<Rightarrow> bytes"
  cr_marshal :: "sessionData \<Rightarrow> bytes option"
  cr_unmarshal :: "bytes \<Rightarrow> sessionData option"
  cr_scopes :: "string \<Rightarrow> scope list"

text \<open>\<open>oi_claims\<close> verifies a raw token and gives its claims; \<open>oi_exchange\<close> trades a code for an answer of the
  provider, with the raw ID token when the answer has one.\<close>

record oidc_provider =
  oi_claims :: "string \<Rightarrow> doc option"
  oi_exchange :: "string \<Rightarrow> string option option"
  oi_auth_url :: "string \<Rightarrow> string"
  oi_username_claim :: string
  oi_groups_claim :: string

record auth_service =
  sv_crypto :: crypto
  sv_ttl :: duration
  sv_oidc :: "oidc_provider option"
  sv_anonymous_read :: bool
  sv_default_role :: string
  sv_bootstrap_admin :: string

section \<open>Credentials\<close>

abbreviation patPrefix :: string where "patPrefix \<equiv> ''flpat_''"
abbreviation (input) MaxFailedLogins :: int where "MaxFailedLogins \<equiv> 5"

datatype credential_error = ErrInvalidCredential | ErrAccountLocked

definition IsPAT :: "string \<Rightarrow> bool" where
  "IsPAT s \<longleftrightarrow> length patPrefix < length s \<and> take (length patPrefix) s = patPrefix"

definition HashToken :: "crypto \<Rightarrow> string \<Rightarrow> string" where
  "HashToken cr plaintext = cr_sha256 cr plaintext"

definition hex_digit :: "nat \<Rightarrow> char" where
  "hex_digit n = (if n < 10 then char_of (48 + n) else char_of (87 + n))"

definition hex_encode :: "bytes \<Rightarrow> string" where
  "hex_encode b = concat (map (\<lambda>c. [hex_digit (of_char c div 16), hex_digit (of_char c mod 16)]) b)"

text \<open>The random bytes are an argument; \<open>None\<close> is a failing source of randomness.\<close>

definition GenerateToken :: "crypto \<Rightarrow> bytes option \<Rightarrow> (string \<times> string) option" where
  "GenerateToken cr rand =
     (case rand of None \<Rightarrow> None
      | Some buf \<Rightarrow> let plaintext = patPrefix @ hex_encode buf in Some (plaintext, HashToken cr plaintext))"

definition RandomPassword :: "bytes option \<Rightarrow> string option" where
  "RandomPassword rand = map_option RawURL_Encode rand"

section \<open>Sessions\<close>

datatype session_error = MalformedSession | BadSignature | BadEncoding | BadPayload | SessionExpired

definition unix :: "instant \<Rightarrow> int" where
  "unix t = t div Second - 62135596800"

definition sign :: "crypto \<Rightarrow> string \<Rightarrow> string" where
  "sign cr body = RawURL_Encode (cr_hmac cr body)"

definition session_Encode :: "crypto \<Rightarrow> duration \<Rightarrow> instant \<Rightarrow> string \<Rightarrow> string \<Rightarrow> string list \<Rightarrow> string option" where
  "session_Encode cr ttl now username source groups =
     (case cr_marshal cr \<lparr>sd_username = username, sd_source = source, sd_groups = groups,
                          sd_expires = unix (now + ttl)\<rparr> of
        None \<Rightarrow> None
      | Some payload \<Rightarrow> let body = RawURL_Encode payload in Some (body @ ''.'' @ sign cr body))"

definition session_Decode :: "crypto \<Rightarrow> instant \<Rightarrow> string \<Rightarrow> session_error + sessionData" where
  "session_Decode cr now v =
     (case cut_at (CHR ''.'') v of
        None \<Rightarrow> Inl MalformedSession
      | Some (body, sig) \<Rightarrow>
          if sig \<noteq> sign cr body then Inl BadSignature
          else case RawURL_Decode body of
                 None \<Rightarrow> Inl BadEncoding
               | Some raw \<Rightarrow>
                   (case cr_unmarshal cr raw of
                      None \<Rightarrow> Inl BadPayload
                    | Some d \<Rightarrow> if sd_expires d < unix now then Inl SessionExpired else Inr d))"

definition IssueSession :: "auth_service \<Rightarrow> instant \<Rightarrow> string \<Rightarrow> string \<Rightarrow> string list \<Rightarrow> string option" where
  "IssueSession sv now username source groups = session_Encode (sv_crypto sv) (sv_ttl sv) now username source groups"

text \<open>A lifetime that is not positive is twelve hours.\<close>

definition NewService ::
  "crypto \<Rightarrow> duration \<Rightarrow> oidc_provider option \<Rightarrow> bool \<Rightarrow> string \<Rightarrow> string \<Rightarrow> auth_service" where
  "NewService cr ttl oidc anon role admin =
     \<lparr>sv_crypto = cr, sv_ttl = (if ttl \<le> 0 then 12 * Hour else ttl), sv_oidc = oidc,
      sv_anonymous_read = anon, sv_default_role = role, sv_bootstrap_admin = admin\<rparr>"

section \<open>Passwords\<close>

definition IsProtectedAdmin :: "auth_service \<Rightarrow> string \<Rightarrow> bool" where
  "IsProtectedAdmin sv username \<longleftrightarrow> sv_bootstrap_admin sv \<noteq> [] \<and> username = sv_bootstrap_admin sv"

definition AuthenticateLocal ::
  "auth_service \<Rightarrow> instant \<Rightarrow> string \<Rightarrow> string \<Rightarrow> store \<Rightarrow> (credential_error + user) \<times> store" where
  "AuthenticateLocal sv now username password st =
     (case GetUserByUsername st username of
        Inl e \<Rightarrow> (Inl ErrInvalidCredential, st)
      | Inr u \<Rightarrow>
          if u_disabled u \<or> u_source u \<noteq> SourceLocal \<or> u_password_hash u = [] then (Inl ErrInvalidCredential, st)
          else let protected = IsProtectedAdmin sv (u_username u) in
            if Locked u \<and> \<not> protected then (Inl ErrAccountLocked, st)
            else if \<not> cr_verify (sv_crypto sv) (u_password_hash u) password then
              (Inl ErrInvalidCredential,
               if \<not> protected then snd (RegisterFailedLogin now (u_id u) MaxFailedLogins st) else st)
            else if 0 < u_failed_login_count u \<or> Locked u then (Inr u, snd (ResetFailedLogin now (u_id u) st))
            else (Inr u, st))"

section \<open>Principals\<close>

definition add_perms :: "store_error + permission list \<Rightarrow> permission list \<Rightarrow> store_error + permission list" where
  "add_perms extra perms = (case extra of Inl e \<Rightarrow> Inl e | Inr ps \<Rightarrow> Inr (perms @ ps))"

definition group_perms :: "store \<Rightarrow> string list \<Rightarrow> store_error + permission list" where
  "group_perms st groups =
     (case RoleNamesForGroups st groups of
        Inl e \<Rightarrow> Inl e | Inr rnames \<Rightarrow> PermissionsForRoleNames st rnames)"

definition buildPrincipal ::
  "auth_service \<Rightarrow> store \<Rightarrow> user \<Rightarrow> string list \<Rightarrow> bool \<Rightarrow> scope list \<Rightarrow> store_error + principal" where
  "buildPrincipal sv st u groups viaToken scopes =
     (case PermissionsForUser st (u_id u) of
        Inl e \<Rightarrow> Inl e
      | Inr perms \<Rightarrow>
          (case (if 0 < length groups then add_perms (group_perms st groups) perms else Inr perms) of
             Inl e \<Rightarrow> Inl e
           | Inr perms1 \<Rightarrow>
               (case (if sv_default_role sv \<noteq> []
                      then add_perms (PermissionsForRoleNames st [sv_default_role sv]) perms1 else Inr perms1) of
                  Inl e \<Rightarrow> Inl e
                | Inr perms2 \<Rightarrow>
                    Inr \<lparr>pr_username = u_username u, pr_source = u_source u, pr_perms = perms2,
                         pr_via_token = viaToken, pr_token_scopes = scopes\<rparr>)))"

type_synonym resolution = "(store_error + principal option) \<times> store"

abbreviation anonymous :: "store \<Rightarrow> resolution" where
  "anonymous st \<equiv> (Inr None, st)"

definition principalFromSession :: "auth_service \<Rightarrow> sessionData \<Rightarrow> store \<Rightarrow> resolution" where
  "principalFromSession sv d st =
     (case GetUserByUsername st (sd_username d) of
        Inl e \<Rightarrow> anonymous st
      | Inr u \<Rightarrow> if u_disabled u then anonymous st
                 else (map_sum id Some (buildPrincipal sv st u (sd_groups d) False []), st))"

definition principalFromPassword :: "auth_service \<Rightarrow> instant \<Rightarrow> string \<Rightarrow> string \<Rightarrow> store \<Rightarrow> resolution" where
  "principalFromPassword sv now username password st =
     (case AuthenticateLocal sv now username password st of
        (Inl e, st1) \<Rightarrow> anonymous st1
      | (Inr u, st1) \<Rightarrow> (map_sum id Some (buildPrincipal sv st1 u [] False []), st1))"

definition principalFromToken :: "auth_service \<Rightarrow> instant \<Rightarrow> string \<Rightarrow> store \<Rightarrow> resolution" where
  "principalFromToken sv now plaintext st =
     (case GetTokenByHash st (HashToken (sv_crypto sv) plaintext) of
        Inl e \<Rightarrow> anonymous st
      | Inr t \<Rightarrow>
          if (case t_expires_at t of None \<Rightarrow> False | Some e \<Rightarrow> e < now) then anonymous st
          else case GetUser st (t_user_id t) of
                 Inl e \<Rightarrow> anonymous st
               | Inr u \<Rightarrow>
                   if u_disabled u then anonymous st
                   else let scopes = (if t_scopes_json t \<noteq> [] then cr_scopes (sv_crypto sv) (t_scopes_json t) else []);
                            st1 = snd (TouchToken now (t_id t) st)
                        in (map_sum id Some (buildPrincipal sv st1 u [] True scopes), st1))"

definition claim_groups :: "json option \<Rightarrow> string list" where
  "claim_groups v = (case as_array v of None \<Rightarrow> [] | Some raw \<Rightarrow> List.map_filter (\<lambda>g. as_string (Some g)) raw)"

definition extractClaims :: "oidc_provider \<Rightarrow> doc \<Rightarrow> (string \<times> string \<times> string list) option" where
  "extractClaims o' claims =
     (let username = (case as_string (doc_get claims (oi_username_claim o')) of Some s \<Rightarrow> s | None \<Rightarrow> []);
          email = (case as_string (doc_get claims ''email'') of Some s \<Rightarrow> s | None \<Rightarrow> [])
      in if username = [] then None
         else Some (username, email, claim_groups (doc_get claims (oi_groups_claim o'))))"

definition oidc_Verify :: "oidc_provider \<Rightarrow> string \<Rightarrow> (string \<times> string \<times> string list) option" where
  "oidc_Verify o' raw = (case oi_claims o' raw of None \<Rightarrow> None | Some claims \<Rightarrow> extractClaims o' claims)"

definition principalFromBearerJWT :: "auth_service \<Rightarrow> oidc_provider \<Rightarrow> string \<Rightarrow> store \<Rightarrow> resolution" where
  "principalFromBearerJWT sv o' raw st =
     (case oidc_Verify o' raw of
        None \<Rightarrow> anonymous st
      | Some (username, email, groups) \<Rightarrow>
          (case GetUserByUsername st username of
             Inl e \<Rightarrow> anonymous st
           | Inr u \<Rightarrow> (map_sum id Some (buildPrincipal sv st u groups False []), st)))"

text \<open>\<^verbatim>\<open>Request.BasicAuth\<close>, the scheme in any case.\<close>

definition BasicAuth :: "string \<Rightarrow> (string \<times> string) option" where
  "BasicAuth auth =
     (if length auth < 6 \<or> to_lower (take 6 auth) \<noteq> ''basic '' then None
      else case Std_Decode (drop 6 auth) of None \<Rightarrow> None | Some cs \<Rightarrow> cut_at (CHR '':'') cs)"

abbreviation sessionCookie :: string where "sessionCookie \<equiv> ''forklift_session''"

text \<open>The cookies of the request by name, and its \<^verbatim>\<open>Authorization\<close> header.\<close>

definition resolve_header :: "auth_service \<Rightarrow> instant \<Rightarrow> string \<Rightarrow> store \<Rightarrow> resolution" where
  "resolve_header sv now authz st =
     (if has_prefix authz ''Bearer '' then
        let tok = trim_prefix authz ''Bearer '' in
        if IsPAT tok then principalFromToken sv now tok st
        else case sv_oidc sv of None \<Rightarrow> anonymous st | Some o' \<Rightarrow> principalFromBearerJWT sv o' tok st
      else if has_prefix authz ''Basic '' then
        case BasicAuth authz of
          None \<Rightarrow> anonymous st
        | Some (user, pass) \<Rightarrow>
            if IsPAT pass then principalFromToken sv now pass st
            else if IsPAT user then principalFromToken sv now user st
            else principalFromPassword sv now user pass st
      else anonymous st)"

definition Resolve :: "auth_service \<Rightarrow> instant \<Rightarrow> (string \<times> string) list \<Rightarrow> string \<Rightarrow> store \<Rightarrow> resolution" where
  "Resolve sv now cookies authz st =
     (case map_of cookies sessionCookie of
        None \<Rightarrow> resolve_header sv now authz st
      | Some v \<Rightarrow>
          (case session_Decode (sv_crypto sv) now v of
             Inl e \<Rightarrow> resolve_header sv now authz st
           | Inr d \<Rightarrow> principalFromSession sv d st))"

definition approver :: "auth_service \<Rightarrow> store \<Rightarrow> string \<Rightarrow> user \<Rightarrow> store_error + string list" where
  "approver sv st repo u =
     (if u_disabled u then Inr []
      else case buildPrincipal sv st u [] False [] of
             Inl e \<Rightarrow> Inl e | Inr p \<Rightarrow> Inr (if Can p repo ActionApprove then [u_username u] else []))"

definition ApproversFor :: "auth_service \<Rightarrow> store \<Rightarrow> string \<Rightarrow> store_error + string list" where
  "ApproversFor sv st repo =
     (case ListUsers st of
        Inl e \<Rightarrow> Inl e
      | Inr users \<Rightarrow> each (\<lambda>u out. map_sum id (\<lambda>ns. out @ ns) (approver sv st repo u)) users [])"

section \<open>Middleware\<close>

definition auth_Middleware ::
  "auth_service \<Rightarrow> instant \<Rightarrow> (string \<times> string) list \<Rightarrow> request \<Rightarrow> store \<Rightarrow> request \<times> store" where
  "auth_Middleware sv now cookies r st =
     (case Resolve sv now cookies (header_get (rq_headers r) ''Authorization'') st of
        (Inr (Some p), st1) \<Rightarrow> (r\<lparr>rq_principal := Some p\<rparr>, st1)
      | (x, st1) \<Rightarrow> (r, st1))"

definition Unauthorized :: "wop list" where
  "Unauthorized = http_Error ''unauthorized'' 401"

text \<open>The guards: \<open>None\<close> lets the request through.\<close>

definition require :: "(principal \<Rightarrow> bool) \<Rightarrow> request \<Rightarrow> wop list option" where
  "require ok r =
     (case rq_principal r of
        None \<Rightarrow> Some Unauthorized
      | Some p \<Rightarrow> if \<not> ok p then Some (http_Error ''forbidden'' 403) else None)"

definition RequireAdmin :: "request \<Rightarrow> wop list option" where
  "RequireAdmin = require IsAdmin"

definition RequireApprover :: "request \<Rightarrow> wop list option" where
  "RequireApprover = require (\<lambda>p. IsAdmin p \<or> CanApproveAny p)"

definition RequireAuditor :: "request \<Rightarrow> wop list option" where
  "RequireAuditor = require (\<lambda>p. IsAdmin p \<or> CanAuditAny p)"

definition RequireAuth :: "request \<Rightarrow> wop list option" where
  "RequireAuth = require (\<lambda>p. True)"

section \<open>Signing in through the identity provider\<close>

definition isSecure :: "request \<Rightarrow> bool" where
  "isSecure r \<longleftrightarrow> rq_tls r \<or> header_get (rq_headers r) ''X-Forwarded-Proto'' = ''https''"

text \<open>A cookie as \<^verbatim>\<open>http.SetCookie\<close> writes it: a positive lifetime, a negative one that deletes it, or none.\<close>

definition cookie_op :: "string \<Rightarrow> string \<Rightarrow> int \<Rightarrow> bool \<Rightarrow> bool \<Rightarrow> wop" where
  "cookie_op name v maxAge secure lax =
     SetHeader ''Set-Cookie'' (name @ ''='' @ v @ ''; Path=/'' @
       (if 0 < maxAge then ''; Max-Age='' @ Itoa maxAge else if maxAge < 0 then ''; Max-Age=0'' else []) @
       ''; HttpOnly'' @ (if secure then ''; Secure'' else []) @ (if lax then ''; SameSite=Lax'' else []))"

definition SetSessionCookie :: "string \<Rightarrow> bool \<Rightarrow> wop list" where
  "SetSessionCookie v secure = [cookie_op sessionCookie v 0 secure True]"

definition ClearSessionCookie :: "wop list" where
  "ClearSessionCookie = [cookie_op sessionCookie [] (- 1) False False]"

abbreviation oidcStateCookie :: string where "oidcStateCookie \<equiv> ''forklift_oidc_state''"

text \<open>\<^verbatim>\<open>http.Redirect\<close> with status 302; \<open>page\<close> is the link it writes for a GET.\<close>

definition found :: "(string \<Rightarrow> bytes) \<Rightarrow> request \<Rightarrow> string \<Rightarrow> wop list" where
  "found page r url =
     [SetHeader ''Location'' url] @
     (if rq_method r = MethodGet \<or> rq_method r = MethodHead
      then [SetHeader ''Content-Type'' ''text/html; charset=utf-8''] else []) @
     [WriteHeader 302] @ (if rq_method r = MethodGet then [WriteBytes (page url)] else [])"

definition HandleLogin :: "auth_service \<Rightarrow> (string \<Rightarrow> bytes) \<Rightarrow> string \<Rightarrow> request \<Rightarrow> wop list" where
  "HandleLogin sv page state r =
     (case sv_oidc sv of
        None \<Rightarrow> http_Error ''oidc not configured'' 404
      | Some o' \<Rightarrow> cookie_op oidcStateCookie state 300 (isSecure r) True # found page r (oi_auth_url o' state))"

text \<open>What the callback does once the provider has named the user.\<close>

definition sign_in ::
  "auth_service \<Rightarrow> instant \<Rightarrow> (string \<Rightarrow> bytes) \<Rightarrow> request \<Rightarrow> string \<times> string \<times> string list \<Rightarrow> store \<Rightarrow>
   wop list \<times> store" where
  "sign_in sv now page r ident st =
     (case ident of (username, email, groups) \<Rightarrow>
      (case EnsureUser now username email SourceOIDC st of
         (Inl e, st1) \<Rightarrow> (http_Error ''user provisioning failed'' 500, st1)
       | (Inr u, st1) \<Rightarrow>
           let st2 = snd (SyncOIDCGroupRoles (u_id u) groups st1);
               st3 = snd (TouchLastLogin now (u_id u) st2)
           in case IssueSession sv now username SourceOIDC groups of
                None \<Rightarrow> (http_Error ''session issue failed'' 500, st3)
              | Some v \<Rightarrow> (SetSessionCookie v (isSecure r) @ found page r ''/'', st3)))"

definition HandleCallback ::
  "auth_service \<Rightarrow> instant \<Rightarrow> (string \<Rightarrow> bytes) \<Rightarrow> (string \<times> string) list \<Rightarrow> (string \<times> string) list \<Rightarrow> request \<Rightarrow>
   store \<Rightarrow> wop list \<times> store" where
  "HandleCallback sv now page cookies query r st =
     (case sv_oidc sv of
        None \<Rightarrow> (http_Error ''oidc not configured'' 404, st)
      | Some o' \<Rightarrow>
          let state = header_get query ''state'' in
          if map_of cookies oidcStateCookie \<noteq> Some state \<or> state = []
          then (http_Error ''invalid oauth state'' 400, st)
          else case oi_exchange o' (header_get query ''code'') of
                 None \<Rightarrow> (http_Error ''token exchange failed'' 502, st)
               | Some None \<Rightarrow> (http_Error ''no id_token in response'' 502, st)
               | Some (Some rawID) \<Rightarrow>
                   (case oidc_Verify o' rawID of
                      None \<Rightarrow> (http_Error ''id token verification failed'' 401, st)
                    | Some ident \<Rightarrow> sign_in sv now page r ident st))"

definition HandleLogout :: "wop list" where
  "HandleLogout = ClearSessionCookie @ [WriteHeader 204]"

section \<open>The first administrator\<close>

datatype bootstrap_error = BootStore store_error | BootRandom | BootHash

definition admin_role :: "instant \<Rightarrow> store \<Rightarrow> (store_error + role) \<times> store" where
  "admin_role now st =
     (case GetRoleByName st ''administrator'' of
        Inr r \<Rightarrow> (Inr r, st)
      | Inl e \<Rightarrow>
          if e \<noteq> ErrNotFound then (Inl e, st)
          else case CreateRole now (new_role 0 ''administrator'' ''Full administrative access'' 0 False) st of
                 (Inl e1, st1) \<Rightarrow> (Inl e1, st1)
               | (Inr r, st1) \<Rightarrow>
                   (case AddPermission \<lparr>p_id = 0, p_role_id = ro_id r, p_repo_pattern = ''*'',
                                        p_actions = ActionAdmin, p_managed = False\<rparr> st1 of
                      (Inl e2, st2) \<Rightarrow> (Inl e2, st2)
                    | (Inr p, st2) \<Rightarrow> (Inr r, st2)))"

definition BootstrapAdmin ::
  "auth_service \<Rightarrow> instant \<Rightarrow> bytes option \<Rightarrow> string \<Rightarrow> string \<Rightarrow> store \<Rightarrow> (bootstrap_error + unit) \<times> store" where
  "BootstrapAdmin sv now rand username0 password0 st =
     (let username = (if username0 = [] then ''admin'' else username0) in
      case CountUsers st of
        Inl e \<Rightarrow> (Inl (BootStore e), st)
      | Inr n \<Rightarrow>
          if 0 < n then (Inr (), st)
          else case (if password0 = [] then RandomPassword rand else Some password0) of
                 None \<Rightarrow> (Inl BootRandom, st)
               | Some password \<Rightarrow>
                   (case cr_hash (sv_crypto sv) password of
                      None \<Rightarrow> (Inl BootHash, st)
                    | Some hash \<Rightarrow>
                        (case CreateUser now (blank_user\<lparr>u_username := username, u_password_hash := hash,
                                                          u_source := SourceLocal\<rparr>) st of
                           (Inl e, st1) \<Rightarrow> (if e = ErrUnique then Inr () else Inl (BootStore e), st1)
                         | (Inr u, st1) \<Rightarrow>
                             (case admin_role now st1 of
                                (Inl e, st2) \<Rightarrow> (Inl (BootStore e), st2)
                              | (Inr role, st2) \<Rightarrow>
                                  (case AssignRole (u_id u) (ro_id role) st2 of
                                     (Inl e, st3) \<Rightarrow> (Inl (BootStore e), st3)
                                   | (Inr x, st3) \<Rightarrow> (Inr (), st3))))))"

section \<open>The policy file\<close>

datatype file_read = FileMissing | FileFails | FileHas bytes

record dir_entry =
  de_name :: string
  de_dir :: bool
  de_read :: "bytes option"

datatype reconcile_error = ReadPolicy | BadPolicy nat policy_error | LoadAccounts | ApplyPolicy rbac_error

fun load_entries :: "crypto \<Rightarrow> dir_entry list \<Rightarrow> managed_local_user list option" where
  "load_entries cr [] = Some []"
| "load_entries cr (e # es) =
     (if de_dir e \<or> has_prefix (de_name e) ''.'' then load_entries cr es
      else case de_read e of
             None \<Rightarrow> None
           | Some raw \<Rightarrow>
               let password = trim_space raw in
               if password = [] then load_entries cr es
               else case cr_hash cr password of
                      None \<Rightarrow> None
                    | Some hash \<Rightarrow>
                        map_option (Cons \<lparr>ml_username = de_name e, ml_password_hash = hash, ml_email = []\<rparr>)
                          (load_entries cr es))"

text \<open>The directory: \<open>None\<close> when no directory is configured or it does not exist, an error, or its entries.\<close>

definition loadAccounts :: "crypto \<Rightarrow> (unit + dir_entry list) option \<Rightarrow> managed_local_user list option" where
  "loadAccounts cr dir =
     (case dir of None \<Rightarrow> Some [] | Some (Inl u) \<Rightarrow> None | Some (Inr es) \<Rightarrow> load_entries cr es)"

definition ReconcileRBAC ::
  "crypto \<Rightarrow> instant \<Rightarrow> string \<Rightarrow> file_read \<Rightarrow> (unit + dir_entry list) option \<Rightarrow> store \<Rightarrow>
   (reconcile_error + unit) \<times> store" where
  "ReconcileRBAC cr now policyFile content dir st =
     (if policyFile = [] then (Inr (), st)
      else case content of
             FileMissing \<Rightarrow> (Inr (), st)
           | FileFails \<Rightarrow> (Inl ReadPolicy, st)
           | FileHas body \<Rightarrow>
               (case ParsePolicy body of
                  Inl (n, e) \<Rightarrow> (Inl (BadPolicy n e), st)
                | Inr desired \<Rightarrow>
                    (case loadAccounts cr dir of
                       None \<Rightarrow> (Inl LoadAccounts, st)
                     | Some accounts \<Rightarrow>
                         (case ApplyManagedRBAC now (desired\<lparr>rb_local_users := accounts\<rparr>) st of
                            (Inl e, st1) \<Rightarrow> (Inl (ApplyPolicy e), st1)
                          | (Inr u, st1) \<Rightarrow> (Inr (), st1)))))"

end
