(* ===== verification/Sign_In.thy ===== *)
theory Sign_In
  imports Auth_Service
begin

text \<open>
  What signing in guarantees: sessions live exactly as long as they were issued for, an account that
  opted into lockout is locked by five wrong passwords in a row, disabled accounts and expired tokens
  give no principal, the first administrator can sign in, and a user may do what the policy file says.
\<close>

section \<open>Sessions\<close>

lemma cut_at_first: "c \<notin> set a \<Longrightarrow> cut_at c (a @ c # b) = Some (a, b)"
  by (induction a) auto

lemma b64_char_no_dot: "n < 64 \<Longrightarrow> b64_char True n \<noteq> CHR ''.''"
proof -
  have "\<forall>n \<in> set [0..<64]. b64_char True n \<noteq> CHR ''.''" by code_simp
  then show "n < 64 \<Longrightarrow> b64_char True n \<noteq> CHR ''.''" by simp
qed

lemma RawURL_Encode_no_dot: "CHR ''.'' \<notin> set (RawURL_Encode b)"
proof -
  have "\<forall>x \<in> set (encode_raw u b). \<exists>n < 64. x = b64_char u n" for u
    by (induction u b rule: encode_raw.induct) (auto intro: sextets)
  then show ?thesis unfolding RawURL_Encode_def using b64_char_no_dot by metis
qed

text \<open>The law of the encoding of sessions: decoding gives back what was encoded.\<close>

definition session_json_ok :: "crypto \<Rightarrow> bool" where
  "session_json_ok cr \<longleftrightarrow> (\<forall>d p. cr_marshal cr d = Some p \<longrightarrow> cr_unmarshal cr p = Some d)"

lemma session_value:
  assumes "session_json_ok cr" and "session_Encode cr ttl now username source groups = Some v"
  shows "session_Decode cr later v =
    (if unix later \<le> unix (now + ttl)
     then Inr \<lparr>sd_username = username, sd_source = source, sd_groups = groups, sd_expires = unix (now + ttl)\<rparr>
     else Inl SessionExpired)"
proof -
  let ?d = "\<lparr>sd_username = username, sd_source = source, sd_groups = groups, sd_expires = unix (now + ttl)\<rparr>"
  from assms(2) obtain p where p: "cr_marshal cr ?d = Some p"
    and v: "v = RawURL_Encode p @ ''.'' @ sign cr (RawURL_Encode p)"
    by (auto simp: session_Encode_def Let_def split: option.splits)
  have "cut_at (CHR ''.'') v = Some (RawURL_Encode p, sign cr (RawURL_Encode p))"
    unfolding v using cut_at_first [OF RawURL_Encode_no_dot [of p]] by simp
  moreover have "cr_unmarshal cr p = Some ?d" using assms(1) p by (simp add: session_json_ok_def)
  ultimately show ?thesis by (simp add: session_Decode_def RawURL_roundtrip linorder_not_le)
qed

text \<open>
  C31: A session cookie that was issued is accepted with the user name, the source and the groups it
  was issued for, up to and including the second its lifetime ends, and refused as expired from then on.
\<close>

theorem session_roundtrip:
  assumes "session_json_ok cr" and "session_Encode cr ttl now username source groups = Some v"
  shows "session_Decode cr later v =
    (if unix later \<le> unix (now + ttl)
     then Inr \<lparr>sd_username = username, sd_source = source, sd_groups = groups, sd_expires = unix (now + ttl)\<rparr>
     else Inl SessionExpired)"
  by (rule session_value [OF assms])

text \<open>A toy instance: the user name is the payload.\<close>

definition demo_crypto :: crypto where
  "demo_crypto =
     \<lparr>cr_verify = (\<lambda>h p. h = ''#'' @ p), cr_hash = (\<lambda>p. Some (''#'' @ p)), cr_sha256 = (\<lambda>b. ''@'' @ b),
      cr_hmac = (\<lambda>b. ''k''),
      cr_marshal = (\<lambda>d. if d = \<lparr>sd_username = ''ann'', sd_source = SourceOIDC, sd_groups = [], sd_expires = unix (5 * Second)\<rparr>
                        then Some ''s'' else None),
      cr_unmarshal = (\<lambda>b. if b = ''s'' then Some \<lparr>sd_username = ''ann'', sd_source = SourceOIDC, sd_groups = [],
                                                   sd_expires = unix (5 * Second)\<rparr> else None),
      cr_scopes = (\<lambda>s. [])\<rparr>"

lemma demo_session_json: "session_json_ok demo_crypto"
  by (simp add: session_json_ok_def demo_crypto_def)

definition demo_cookie :: string where
  "demo_cookie = RawURL_Encode ''s'' @ ''.'' @ sign demo_crypto (RawURL_Encode ''s'')"

lemma demo_cookie_issued:
  "session_Encode demo_crypto (4 * Second) Second ''ann'' SourceOIDC [] = Some demo_cookie"
proof -
  have "cr_marshal demo_crypto \<lparr>sd_username = ''ann'', sd_source = SourceOIDC, sd_groups = [],
      sd_expires = unix (Second + 4 * Second)\<rparr> = Some ''s''"
    by (simp add: demo_crypto_def)
  then show ?thesis by (simp add: session_Encode_def demo_cookie_def Let_def)
qed

theorem session_roundtrip_witness:
  "session_Decode demo_crypto (5 * Second) demo_cookie =
     Inr \<lparr>sd_username = ''ann'', sd_source = SourceOIDC, sd_groups = [], sd_expires = unix (5 * Second)\<rparr> \<and>
   session_Decode demo_crypto (6 * Second) demo_cookie = Inl SessionExpired"
  using session_roundtrip [OF demo_session_json demo_cookie_issued, of "5 * Second"]
    session_roundtrip [OF demo_session_json demo_cookie_issued, of "6 * Second"]
  by (simp add: unix_def)

section \<open>Lockout\<close>

fun attempts :: "auth_service \<Rightarrow> string \<Rightarrow> (instant \<times> string) list \<Rightarrow> store \<Rightarrow> store" where
  "attempts sv name [] st = st"
| "attempts sv name ((now, pw) # tries) st =
     attempts sv name tries (snd (AuthenticateLocal sv now name pw st))"

definition signs_in_locally :: "store \<Rightarrow> user \<Rightarrow> bool" where
  "signs_in_locally st u \<longleftrightarrow>
     auth_ok st \<and> \<not> st_fault st TUsers \<and> u \<in> set (st_users st) \<and> \<not> u_disabled u \<and>
     u_source u = SourceLocal \<and> u_password_hash u \<noteq> []"

lemma find_username: "auth_ok st \<Longrightarrow> u \<in> set (st_users st) \<Longrightarrow> find_key u_username (u_username u) (st_users st) = Some u"
  by (rule find_key_row [OF auth_ok_keys(2)])

lemma find_user_row: "auth_ok st \<Longrightarrow> u \<in> set (st_users st) \<Longrightarrow> find_user (u_id u) st = Some u"
  by (rule find_key_row [OF auth_ok_keys(1)])

lemma update_user_row:
  assumes "auth_ok st" and "\<not> st_fault st TUsers" and "u \<in> set (st_users st)"
    and "\<And>x. u_id (f x) = u_id x" and "\<And>x. u_username (f x) = u_username x"
  shows "f u \<in> set (st_users (snd (update_user (u_id u) f st)))"
    and "auth_ok (snd (update_user (u_id u) f st))"
    and "\<not> st_fault (snd (update_user (u_id u) f st)) TUsers"
proof -
  show "auth_ok (snd (update_user (u_id u) f st))" using assms by (intro auth_ok_update_user)
  show "f u \<in> set (st_users (snd (update_user (u_id u) f st)))"
    "\<not> st_fault (snd (update_user (u_id u) f st)) TUsers"
    using assms(2,3) find_user_row [OF assms(1,3)] by (auto simp: update_user_def set_update_where)
qed

lemma local_sign_in:
  assumes "signs_in_locally st u"
  shows "AuthenticateLocal sv now (u_username u) pw st =
    (let protected = IsProtectedAdmin sv (u_username u) in
     if Locked u \<and> \<not> protected then (Inl ErrAccountLocked, st)
     else if \<not> cr_verify (sv_crypto sv) (u_password_hash u) pw then
       (Inl ErrInvalidCredential, if \<not> protected then snd (RegisterFailedLogin now (u_id u) MaxFailedLogins st) else st)
     else if 0 < u_failed_login_count u \<or> Locked u then (Inr u, snd (ResetFailedLogin now (u_id u) st))
     else (Inr u, st))"
  using assms find_username [of st u]
  by (simp add: AuthenticateLocal_def GetUserByUsername_def signs_in_locally_def)

lemma wrong_password:
  assumes "signs_in_locally st u" and "\<not> IsProtectedAdmin sv (u_username u)" and "\<not> Locked u"
    and "\<not> cr_verify (sv_crypto sv) (u_password_hash u) pw"
  shows "signs_in_locally (snd (AuthenticateLocal sv now (u_username u) pw st)) (failed_login now MaxFailedLogins u)"
  using assms update_user_row [of st u "failed_login now MaxFailedLogins"]
  unfolding local_sign_in [OF assms(1)]
  by (auto simp: signs_in_locally_def RegisterFailedLogin_def failed_login_def)

lemma locked_stays:
  assumes "signs_in_locally st u" and "\<not> IsProtectedAdmin sv (u_username u)" and "Locked u"
  shows "attempts sv (u_username u) tries st = st"
  using assms by (induction tries) (auto simp: local_sign_in [OF assms(1)])

lemma lockout_gen:
  assumes "signs_in_locally st u" and "\<not> IsProtectedAdmin sv (u_username u)"
    and "u_lockout_enabled u" and "tries \<noteq> [] \<or> Locked u" and "MaxFailedLogins \<le> u_failed_login_count u + int (length tries) \<or> Locked u"
    and "\<forall>(t, pw) \<in> set tries. 0 < t \<and> \<not> cr_verify (sv_crypto sv) (u_password_hash u) pw"
  shows "\<exists>u'. signs_in_locally (attempts sv (u_username u) tries st) u' \<and> u_username u' = u_username u \<and> Locked u'"
  using assms
proof (induction tries arbitrary: st u)
  case Nil
  then show ?case by auto
next
  case (Cons a tries)
  obtain t pw where a: "a = (t, pw)" by (cases a)
  show ?case
  proof (cases "Locked u")
    case True
    then show ?thesis using locked_stays [OF Cons.prems(1,2)] Cons.prems(1) by metis
  next
    case False
    let ?u = "failed_login t MaxFailedLogins u" and ?st = "snd (AuthenticateLocal sv t (u_username u) pw st)"
    have t: "0 < t" and pw: "\<not> cr_verify (sv_crypto sv) (u_password_hash u) pw" using Cons.prems(6) a by auto
    have s: "signs_in_locally ?st ?u" by (rule wrong_password [OF Cons.prems(1,2) False pw])
    have u: "u_username ?u = u_username u" "u_lockout_enabled ?u" "u_password_hash ?u = u_password_hash u"
      "u_failed_login_count ?u = u_failed_login_count u + 1"
      using Cons.prems(3) by (simp_all add: failed_login_def)
    have l: "Locked ?u" if "MaxFailedLogins \<le> u_failed_login_count u + 1"
      using that Cons.prems(3) t False by (simp add: failed_login_def Locked_def)
    have "\<exists>u'. signs_in_locally (attempts sv (u_username ?u) tries ?st) u' \<and> u_username u' = u_username ?u \<and> Locked u'"
    proof (rule Cons.IH [OF s])
      show "\<not> IsProtectedAdmin sv (u_username ?u)" using Cons.prems(2) u by simp
      show "u_lockout_enabled ?u" by (rule u(2))
      show "tries \<noteq> [] \<or> Locked ?u" using Cons.prems(5) False l by (cases tries) auto
      show "MaxFailedLogins \<le> u_failed_login_count ?u + int (length tries) \<or> Locked ?u"
        using Cons.prems(5) False u(4) by simp
      show "\<forall>(t, pw) \<in> set tries. 0 < t \<and> \<not> cr_verify (sv_crypto sv) (u_password_hash ?u) pw"
        using Cons.prems(6) u(3) by simp
    qed
    then show ?thesis using u(1) a by simp
  qed
qed

text \<open>
  C26: Five wrong passwords lock an account: for an enabled local account with lockout on that is not
  the protected administrator, once the wrong passwords in a row and those counted before make five, at least one of them just
  given, every further attempt is refused as locked, with the right password too, and changes nothing.
\<close>

theorem lockout_after_five:
  assumes "signs_in_locally st u" and "\<not> IsProtectedAdmin sv (u_username u)" and "u_lockout_enabled u"
    and "tries \<noteq> []" and "MaxFailedLogins \<le> u_failed_login_count u + int (length tries)"
    and "\<forall>(t, pw) \<in> set tries. 0 < t \<and> \<not> cr_verify (sv_crypto sv) (u_password_hash u) pw"
  shows "AuthenticateLocal sv now (u_username u) password (attempts sv (u_username u) tries st) =
    (Inl ErrAccountLocked, attempts sv (u_username u) tries st)"
proof -
  obtain u' where u': "signs_in_locally (attempts sv (u_username u) tries st) u'" "u_username u' = u_username u" "Locked u'"
    using lockout_gen [of st u sv tries] assms by blast
  have "\<not> IsProtectedAdmin sv (u_username u')" using assms(2) u'(2) by simp
  with local_sign_in [OF u'(1), of sv now password] u'(3) show ?thesis unfolding u'(2) by simp
qed


definition demo_service :: auth_service where
  "demo_service = NewService demo_crypto 0 None False [] ''root''"

definition demo_account :: store where
  "demo_account =
     snd (SetLockoutEnabled 2 1 True
       (snd (CreateUser 1 (blank_user\<lparr>u_username := ''ann'', u_password_hash := ''#pw''\<rparr>) empty_store)))"

definition demo_user :: user where
  "demo_user = (new_user 1 ''ann'' ''#pw'' SourceLocal [] False False 1)\<lparr>u_lockout_enabled := True, u_updated_at := 2\<rparr>"

lemma demo_account_users: "st_users demo_account = [demo_user]"
  by (simp add: demo_account_def SetLockoutEnabled_def update_user_def CreateUser_def insert_user_def empty_store_def
      next_id_def blank_user_def new_user_def update_where_def find_key_def Let_def demo_user_def)

lemma demo_account_ok: "signs_in_locally demo_account demo_user"
proof -
  have "auth_ok demo_account"
    unfolding demo_account_def SetLockoutEnabled_def
    by (auto intro!: auth_ok_update_user auth_ok_CreateUser auth_ok_empty)
  moreover have "\<not> st_fault demo_account TUsers"
    by (simp add: demo_account_def SetLockoutEnabled_def update_user_def CreateUser_def insert_user_def empty_store_def Let_def)
  ultimately show ?thesis
    by (simp add: signs_in_locally_def demo_account_users demo_user_def new_user_def)
qed

theorem lockout_after_five_witness:
  "fst (AuthenticateLocal demo_service 9 ''ann'' ''pw''
      (attempts demo_service ''ann'' (replicate 5 (3, ''x'')) demo_account)) = Inl ErrAccountLocked"
proof -
  have n: "u_username demo_user = ''ann''" by (simp add: demo_user_def new_user_def)
  have "AuthenticateLocal demo_service 9 (u_username demo_user) ''pw''
      (attempts demo_service (u_username demo_user) (replicate 5 (3, ''x'')) demo_account) =
    (Inl ErrAccountLocked, attempts demo_service (u_username demo_user) (replicate 5 (3, ''x'')) demo_account)"
    by (rule lockout_after_five [OF demo_account_ok])
      (simp_all add: demo_user_def new_user_def demo_service_def NewService_def IsProtectedAdmin_def demo_crypto_def)
  then show ?thesis unfolding n by simp
qed

lemma protected_attempt:
  assumes "signs_in_locally st u" and "IsProtectedAdmin sv (u_username u)"
  shows "\<exists>u'. signs_in_locally (snd (AuthenticateLocal sv now (u_username u) pw st)) u' \<and>
    u_username u' = u_username u \<and> u_password_hash u' = u_password_hash u"
proof -
  let ?f = "\<lambda>u. u\<lparr>u_failed_login_count := 0, u_locked_at := 0, u_updated_at := now\<rparr>"
  have "signs_in_locally (snd (ResetFailedLogin now (u_id u) st)) (?f u)"
    using assms(1) update_user_row [of st u ?f] by (simp add: signs_in_locally_def ResetFailedLogin_def)
  then have "\<exists>u'. signs_in_locally (snd (ResetFailedLogin now (u_id u) st)) u' \<and>
      u_username u' = u_username u \<and> u_password_hash u' = u_password_hash u"
    by (intro exI [of _ "?f u"]) simp
  with assms show ?thesis unfolding local_sign_in [OF assms(1)] by auto
qed

lemma protected_attempts:
  assumes "signs_in_locally st u" and "IsProtectedAdmin sv (u_username u)"
  shows "\<exists>u'. signs_in_locally (attempts sv (u_username u) tries st) u' \<and>
    u_username u' = u_username u \<and> u_password_hash u' = u_password_hash u"
  using assms
proof (induction tries arbitrary: st u)
  case (Cons a tries)
  obtain now pw where a: "a = (now, pw)" by (cases a)
  obtain u' where u': "signs_in_locally (snd (AuthenticateLocal sv now (u_username u) pw st)) u'"
    "u_username u' = u_username u" "u_password_hash u' = u_password_hash u"
    using protected_attempt [OF Cons.prems] by blast
  from Cons.IH [OF u'(1)] Cons.prems(2) u'(2,3) show ?case by (simp add: a)
qed auto

text \<open>
  The protected administrator cannot be locked out: after any attempts on an enabled local account
  of that name, with whatever passwords, its own password signs in.
\<close>

theorem protected_admin_signs_in:
  assumes "signs_in_locally st u" and "IsProtectedAdmin sv (u_username u)"
    and "cr_verify (sv_crypto sv) (u_password_hash u) password"
  shows "\<exists>u'. fst (AuthenticateLocal sv now (u_username u) password (attempts sv (u_username u) tries st)) = Inr u' \<and>
    u_username u' = u_username u"
proof -
  obtain u' where u': "signs_in_locally (attempts sv (u_username u) tries st) u'"
    "u_username u' = u_username u" "u_password_hash u' = u_password_hash u"
    using protected_attempts [OF assms(1,2)] by blast
  from local_sign_in [OF u'(1), of sv now password] assms(2,3) u'(2,3) show ?thesis by (auto simp: Let_def)
qed

theorem protected_admin_signs_in_witness:
  "\<exists>u'. fst (AuthenticateLocal (demo_service\<lparr>sv_bootstrap_admin := ''ann''\<rparr>) 9 ''ann'' ''pw''
      (attempts (demo_service\<lparr>sv_bootstrap_admin := ''ann''\<rparr>) ''ann'' (replicate 9 (3, ''x'')) demo_account)) = Inr u'"
proof -
  let ?sv = "demo_service\<lparr>sv_bootstrap_admin := ''ann''\<rparr>"
  have n: "u_username demo_user = ''ann''" by (simp add: demo_user_def new_user_def)
  have "\<exists>u'. fst (AuthenticateLocal ?sv 9 (u_username demo_user) ''pw''
      (attempts ?sv (u_username demo_user) (replicate 9 (3, ''x'')) demo_account)) = Inr u' \<and> u_username u' = u_username demo_user"
    by (rule protected_admin_signs_in [OF demo_account_ok])
      (simp_all add: demo_user_def new_user_def demo_service_def NewService_def IsProtectedAdmin_def demo_crypto_def)
  then show ?thesis unfolding n by blast
qed

section \<open>Who gets a principal\<close>

lemma buildPrincipal_user:
  "buildPrincipal sv st u gs v sc = Inr p \<Longrightarrow>
   pr_username p = u_username u \<and> pr_source p = u_source u \<and> pr_via_token p = v \<and> pr_token_scopes p = sc"
  by (auto simp: buildPrincipal_def split: sum.splits)

lemma map_sum_Some: "map_sum id Some x = Inr (Some p) \<longleftrightarrow> x = Inr p"
  by (cases x) auto

lemma GetUserByUsername_row: "GetUserByUsername st n = Inr u \<Longrightarrow> u \<in> set (st_users st) \<and> u_username u = n"
  by (auto simp: GetUserByUsername_def dest: find_key_in split: if_splits option.splits)

lemma GetUser_row: "GetUser st i = Inr u \<Longrightarrow> u \<in> set (st_users st) \<and> u_id u = i"
  by (auto simp: GetUser_def dest: find_key_in split: if_splits option.splits)

lemma AuthenticateLocal_row:
  "fst (AuthenticateLocal sv now n pw st) = Inr u \<Longrightarrow> u \<in> set (st_users st) \<and> \<not> u_disabled u"
  by (auto simp: AuthenticateLocal_def Let_def dest: GetUserByUsername_row split: sum.splits if_splits)

definition live_account :: "instant \<Rightarrow> store \<Rightarrow> principal \<Rightarrow> bool" where
  "live_account now st p \<longleftrightarrow>
     (\<exists>u \<in> set (st_users st). u_username u = pr_username p \<and> \<not> u_disabled u \<and>
        (pr_via_token p \<longrightarrow> (\<exists>t \<in> set (st_tokens st). t_user_id t = u_id u \<and>
           (case t_expires_at t of None \<Rightarrow> True | Some e \<Rightarrow> now \<le> e))))"

lemma session_principal: "fst (principalFromSession sv d st) = Inr (Some p) \<Longrightarrow> live_account now st p"
  by (auto simp: principalFromSession_def live_account_def map_sum_Some
      dest!: GetUserByUsername_row buildPrincipal_user split: sum.splits if_splits)

lemma password_principal: "fst (principalFromPassword sv now n pw st) = Inr (Some p) \<Longrightarrow> live_account now st p"
proof -
  assume a: "fst (principalFromPassword sv now n pw st) = Inr (Some p)"
  then obtain u st1 where "AuthenticateLocal sv now n pw st = (Inr u, st1)" "buildPrincipal sv st1 u [] False [] = Inr p"
    by (auto simp: principalFromPassword_def map_sum_Some split: prod.splits sum.splits)
  then show ?thesis
    using AuthenticateLocal_row [of sv now n pw st u] buildPrincipal_user by (fastforce simp: live_account_def)
qed

lemma token_principal: "fst (principalFromToken sv now tok st) = Inr (Some p) \<Longrightarrow> live_account now st p"
proof -
  assume a: "fst (principalFromToken sv now tok st) = Inr (Some p)"
  then obtain t u scopes where t: "GetTokenByHash st (HashToken (sv_crypto sv) tok) = Inr t"
    and e: "\<not> (case t_expires_at t of None \<Rightarrow> False | Some e \<Rightarrow> e < now)" and u: "GetUser st (t_user_id t) = Inr u"
    and d: "\<not> u_disabled u" and p: "buildPrincipal sv (snd (TouchToken now (t_id t) st)) u [] True scopes = Inr p"
    by (auto simp: principalFromToken_def map_sum_Some Let_def split: sum.splits if_splits)
  from t obtain t0 where "t0 \<in> set (st_tokens st)" "t = t0\<lparr>t_description := []\<rparr>"
    by (auto simp: GetTokenByHash_def dest: find_key_in split: if_splits option.splits)
  with e have "\<exists>t0 \<in> set (st_tokens st). t_user_id t0 = t_user_id t \<and>
      (case t_expires_at t0 of None \<Rightarrow> True | Some e \<Rightarrow> now \<le> e)"
    by (intro bexI [of _ t0]) (auto split: option.splits)
  with GetUser_row [OF u] d buildPrincipal_user [OF p] show ?thesis
    unfolding live_account_def by (intro bexI [of _ u]) auto
qed


lemma unfaulted_build:
  assumes "\<forall>t. \<not> st_fault st t" and "sv_default_role sv = []"
  shows "\<exists>p. buildPrincipal sv st u gs v sc = Inr p"
  using assms by (auto simp: buildPrincipal_def PermissionsForUser_def group_perms_def RoleNamesForGroups_def
      PermissionsForRoleNames_def add_perms_def)


text \<open>
  A bearer token of the identity provider gives a disabled account its principal: the check that
  every other credential goes through is missing there.
\<close>

theorem disabled_account_keeps_bearer_access:
  assumes "auth_ok st" and "\<forall>t. \<not> st_fault st t" and "sv_default_role sv = []" and "sv_oidc sv = Some o'"
    and "oidc_Verify o' tok = Some (u_username u, email, gs)" and "\<not> IsPAT tok"
    and "u \<in> set (st_users st)" and "u_disabled u"
  shows "\<exists>p. fst (Resolve sv now [] (''Bearer '' @ tok) st) = Inr (Some p) \<and> pr_username p = u_username u"
proof -
  have g: "GetUserByUsername st (u_username u) = Inr u"
    using assms(1,2,7) find_username by (simp add: GetUserByUsername_def)
  obtain p where p: "buildPrincipal sv st u gs False [] = Inr p" using unfaulted_build [OF assms(2,3)] by blast
  have "has_prefix (''Bearer '' @ tok) ''Bearer ''" "trim_prefix (''Bearer '' @ tok) ''Bearer '' = tok"
    by (simp_all add: has_prefix_def trim_prefix_def)
  with g p assms(4-6) show ?thesis
    using buildPrincipal_user [OF p] by (simp add: Resolve_def resolve_header_def principalFromBearerJWT_def Let_def)
qed

definition demo_oidc :: oidc_provider where
  "demo_oidc =
     \<lparr>oi_claims = (\<lambda>raw. Some (Some [(''name'', JStr raw)])), oi_exchange = (\<lambda>c. Some (Some c)), oi_auth_url = id,
      oi_username_claim = ''name'', oi_groups_claim = ''groups''\<rparr>"

lemma demo_oidc_verify: "raw \<noteq> [] \<Longrightarrow> oidc_Verify demo_oidc raw = Some (raw, [], [])"
  by (simp add: oidc_Verify_def demo_oidc_def extractClaims_def doc_get_def entries_def claim_groups_def)

definition disabled_account :: store where
  "disabled_account = snd (SetUserDisabled 3 1 True demo_account)"

theorem disabled_account_keeps_bearer_access_witness:
  "\<exists>p. fst (Resolve (demo_service\<lparr>sv_oidc := Some demo_oidc\<rparr>) 9 [] ''Bearer ann'' disabled_account) = Inr (Some p)"
proof -
  let ?u = "demo_user\<lparr>u_disabled := True, u_updated_at := 3\<rparr>" and ?sv = "demo_service\<lparr>sv_oidc := Some demo_oidc\<rparr>"
  have f: "\<forall>t. \<not> st_fault demo_account t"
    by (simp add: demo_account_def SetLockoutEnabled_def update_user_def CreateUser_def insert_user_def empty_store_def Let_def)
  have "auth_ok disabled_account"
    using demo_account_ok unfolding disabled_account_def SetUserDisabled_def
    by (intro auth_ok_update_user) (auto simp: signs_in_locally_def)
  moreover have "st_users disabled_account = [?u]" "\<forall>t. \<not> st_fault disabled_account t"
    using f by (simp_all add: disabled_account_def SetUserDisabled_def update_user_def demo_account_users
        find_key_def update_where_def demo_user_def new_user_def)
  moreover have "u_username ?u = ''ann''" by (simp add: demo_user_def new_user_def)
  ultimately have "\<exists>p. fst (Resolve ?sv 9 [] (''Bearer '' @ ''ann'') disabled_account) = Inr (Some p) \<and> pr_username p = u_username ?u"
    by (intro disabled_account_keeps_bearer_access [of _ _ demo_oidc _ _ "[]" "[]"])
      (simp_all add: demo_service_def NewService_def demo_oidc_verify IsPAT_def)
  then show ?thesis by auto
qed

section \<open>Names of the identity provider\<close>

lemma permissions_after_sync:
  assumes "\<forall>t. \<not> st_fault st t" and "p \<in> set (st_permissions st)" and "x \<in> set (st_user_roles st)"
    and "ur_user_id x = u_id u" and "ur_role_id x = p_role_id p" and "ur_managed x \<noteq> 2"
    and "SyncOIDCGroupRoles (u_id u) gs st = (res, st')"
  shows "\<exists>x \<in> set (st_user_roles st'). ur_user_id x = u_id u \<and> ur_role_id x = p_role_id p"
proof (cases res)
  case (Inl e)
  with assms(7) have "st' = st" by (auto simp: SyncOIDCGroupRoles_def Let_def split: sum.splits if_splits)
  with assms(3-5) show ?thesis by auto
next
  case (Inr x0)
  with assms(7) have "SyncOIDCGroupRoles (u_id u) gs st = (Inr (), st')" by simp
  from sync_exact [OF this] have "p_role_id p \<in> assigned st' (u_id u)" using assms(3-6) by auto
  then show ?thesis by (auto simp: assigned_def)
qed

lemma sync_frame:
  assumes "SyncOIDCGroupRoles uid gs st = (res, st')"
  shows "st_users st' = st_users st" and "st_permissions st' = st_permissions st" and "st_fault st' = st_fault st"
proof -
  have "st_users t' = st_users st \<and> st_permissions t' = st_permissions st \<and> st_fault t' = st_fault st"
    if "each (sync_role uid) rids t = Inr t'" "st_users t = st_users st" "st_permissions t = st_permissions st"
      "st_fault t = st_fault st" for rids t t'
    using that(1)
    by (rule each_inv) (use that in \<open>auto simp: sync_role_def split: if_splits\<close>)
  then show "st_users st' = st_users st" "st_permissions st' = st_permissions st" "st_fault st' = st_fault st"
    using assms by (auto simp: SyncOIDCGroupRoles_def Let_def split: sum.splits if_splits)
qed

text \<open>
  C39: The name the identity provider gives decides the account: when it is the name of an enabled local
  account, the callback signs its bearer in to that account, and the session carries every permission
  the local account holds by hand or by policy; nothing compares the sources of the two.
\<close>

theorem provider_name_takes_local_account:
  assumes "auth_ok st" and "\<forall>t. \<not> st_fault st t" and "sv_default_role sv = []"
    and "u \<in> set (st_users st)" and "u_source u = SourceLocal" and "\<not> u_disabled u"
    and "session_json_ok (sv_crypto sv)" and "IssueSession sv now (u_username u) SourceOIDC gs = Some v"
    and "unix later \<le> unix (now + sv_ttl sv)"
  shows "\<exists>st'. sign_in sv now page r (u_username u, email, gs) st =
      (SetSessionCookie v (isSecure r) @ found page r ''/'', st') \<and>
    (\<exists>p. fst (Resolve sv later [(sessionCookie, v)] [] st') = Inr (Some p) \<and>
      pr_username p = u_username u \<and> pr_source p = SourceLocal \<and>
      (\<forall>q \<in> set (st_permissions st). \<forall>x \<in> set (st_user_roles st).
         ur_user_id x = u_id u \<and> ur_role_id x = p_role_id q \<and> ur_managed x \<noteq> 2 \<longrightarrow> q \<in> set (pr_perms p)))"
proof -
  obtain res st2 where sync: "SyncOIDCGroupRoles (u_id u) gs st = (res, st2)" by (cases "SyncOIDCGroupRoles (u_id u) gs st")
  note fr = sync_frame [OF sync]
  let ?f = "\<lambda>x. x\<lparr>u_last_login_at := now\<rparr>" and ?st3 = "snd (TouchLastLogin now (u_id u) st2)"
  have ok2: "auth_ok st2" using auth_ok_sync [OF assms(1), of "u_id u" gs] sync by simp
  have "?f u \<in> set (st_users ?st3)" "auth_ok ?st3"
    using update_user_row [of st2 u ?f] ok2 assms(2,4) fr by (simp_all add: TouchLastLogin_def)
  moreover have fr3: "st_permissions ?st3 = st_permissions st" "st_user_roles ?st3 = st_user_roles st2"
    "st_fault ?st3 = st_fault st"
    using fr by (simp_all add: TouchLastLogin_def update_user_def)
  ultimately have g: "GetUserByUsername ?st3 (u_username u) = Inr (?f u)"
    using assms(2) find_username [of ?st3 "?f u"] by (simp add: GetUserByUsername_def)
  have "EnsureUser now (u_username u) email SourceOIDC st = (Inr u, st)"
    using assms(1,2,4) find_username by (simp add: EnsureUser_def GetUserByUsername_def)
  with sync assms(8) have s: "sign_in sv now page r (u_username u, email, gs) st =
      (SetSessionCookie v (isSecure r) @ found page r ''/'', ?st3)"
    by (simp add: sign_in_def Let_def)
  have dec: "session_Decode (sv_crypto sv) later v =
      Inr \<lparr>sd_username = u_username u, sd_source = SourceOIDC, sd_groups = gs, sd_expires = unix (now + sv_ttl sv)\<rparr>"
    using session_value [OF assms(7)] assms(8,9) by (simp add: IssueSession_def)
  have "\<forall>t. \<not> st_fault ?st3 t" using assms(2) fr3(3) by simp
  from unfaulted_build [OF this assms(3)] obtain p where p: "buildPrincipal sv ?st3 (?f u) gs False [] = Inr p" by blast
  have res: "fst (Resolve sv later [(sessionCookie, v)] [] ?st3) = Inr (Some p)"
    using dec g p assms(6) by (simp add: Resolve_def principalFromSession_def)
  have "q \<in> set (pr_perms p)" if "q \<in> set (st_permissions st)" "x \<in> set (st_user_roles st)"
      "ur_user_id x = u_id u" "ur_role_id x = p_role_id q" "ur_managed x \<noteq> 2" for q x
  proof -
    have "\<exists>x \<in> set (st_user_roles ?st3). ur_user_id x = u_id u \<and> ur_role_id x = p_role_id q"
      using permissions_after_sync [OF assms(2) that sync] fr3(2) by simp
    with that(1) p show ?thesis
      by (auto simp: buildPrincipal_def PermissionsForUser_def add_perms_def list_ex_iff fr3
          split: sum.splits if_splits)
  qed
  with s res buildPrincipal_user [OF p] assms(5) show ?thesis by auto
qed

theorem provider_name_takes_local_account_witness:
  "\<exists>v st' p. session_Encode demo_crypto (4 * Second) Second ''ann'' SourceOIDC [] = Some v \<and>
     fst (Resolve (demo_service\<lparr>sv_ttl := 4 * Second\<rparr>) Second [(sessionCookie, v)] [] st') = Inr (Some p) \<and>
     pr_username p = ''ann'' \<and> pr_source p = SourceLocal"
proof -
  let ?sv = "demo_service\<lparr>sv_ttl := 4 * Second\<rparr>"
  have n: "u_username demo_user = ''ann''" "u_source demo_user = SourceLocal" "\<not> u_disabled demo_user"
    by (simp_all add: demo_user_def new_user_def)
  have f: "\<forall>t. \<not> st_fault demo_account t"
    by (simp add: demo_account_def SetLockoutEnabled_def update_user_def CreateUser_def insert_user_def empty_store_def Let_def)
  have v: "IssueSession ?sv Second (u_username demo_user) SourceOIDC [] = Some demo_cookie"
    using demo_cookie_issued n(1) by (simp add: IssueSession_def demo_service_def NewService_def)
  have "auth_ok demo_account" "demo_user \<in> set (st_users demo_account)"
    using demo_account_ok by (simp_all add: signs_in_locally_def)
  from provider_name_takes_local_account [OF this(1) f _ this(2) n(2,3) _ v, of Second undefined undefined "[]"]
  obtain st' p where "fst (Resolve ?sv Second [(sessionCookie, demo_cookie)] [] st') = Inr (Some p)"
    "pr_username p = ''ann''" "pr_source p = SourceLocal"
    using n(1) demo_session_json by (auto simp: demo_service_def NewService_def unix_def)
  then show ?thesis using demo_cookie_issued by blast
qed

section \<open>The first administrator\<close>

text \<open>
  On a fresh database the first start leaves an administrator who can sign in: bootstrapping
  succeeds, and the configured name and password give a principal that is an administrator.
\<close>

theorem bootstrap_admin_signs_in:
  assumes "\<And>pw h. cr_hash (sv_crypto sv) pw = Some h \<Longrightarrow> h \<noteq> [] \<and> cr_verify (sv_crypto sv) h pw"
    and "cr_hash (sv_crypto sv) password = Some hash" and "username \<noteq> []" and "password \<noteq> []"
    and "sv_default_role sv = []"
  shows "\<exists>st' p. BootstrapAdmin sv now rand username password empty_store = (Inr (), st') \<and>
    principalFromPassword sv later username password st' = (Inr (Some p), st') \<and>
    pr_username p = username \<and> IsAdmin p"
proof -
  let ?u = "new_user 1 username hash SourceLocal [] False False now"
  let ?perm = "\<lparr>p_id = 1, p_role_id = 1, p_repo_pattern = ''*'', p_actions = ActionAdmin, p_managed = False\<rparr>"
  let ?st = "empty_store\<lparr>st_users := [?u], st_roles := [new_role 1 ''administrator'' ''Full administrative access'' now False],
      st_permissions := [?perm], st_user_roles := [\<lparr>ur_user_id = 1, ur_role_id = 1, ur_managed = 0\<rparr>],
      st_seq := (\<lambda>_. 0)(TUsers := 1, TRoles := 1, TPermissions := 1)\<rparr>"
  have b: "BootstrapAdmin sv now rand username password empty_store = (Inr (), ?st)"
    using assms(2-4)
    by (simp add: BootstrapAdmin_def CountUsers_def CreateUser_def insert_user_def GetUser_def admin_role_def
        GetRoleByName_def CreateRole_def AddPermission_def AssignRole_def find_key_def next_id_def empty_store_def
        blank_user_def new_user_def new_role_def Let_def)
  let ?p = "\<lparr>pr_username = username, pr_source = SourceLocal, pr_perms = [?perm], pr_via_token = False, pr_token_scopes = []\<rparr>"
  have "principalFromPassword sv later username password ?st = (Inr (Some ?p), ?st)"
    using assms(1) [OF assms(2)] assms(5)
    by (simp add: principalFromPassword_def AuthenticateLocal_def GetUserByUsername_def find_key_def new_user_def
        Locked_def buildPrincipal_def PermissionsForUser_def empty_store_def Let_def)
  moreover have "IsAdmin ?p"
  proof -
    have "actionsContain ActionAdmin ActionAdmin"
      using actionsContain_join [of "[ActionAdmin]" ActionAdmin] by (simp add: validRoleAction_def)
    then show ?thesis by (simp add: IsAdmin_def Can_def rolesAllow_def matchGlob_def)
  qed
  ultimately show ?thesis using b by fastforce
qed

theorem bootstrap_admin_signs_in_witness:
  "\<exists>st' p. BootstrapAdmin demo_service 1 None ''root'' ''pw'' empty_store = (Inr (), st') \<and>
     principalFromPassword demo_service 2 ''root'' ''pw'' st' = (Inr (Some p), st') \<and> IsAdmin p"
  using bootstrap_admin_signs_in [of demo_service "''pw''" "''#pw''" "''root''" 1 None 2]
  by (auto simp: demo_service_def NewService_def demo_crypto_def)

section \<open>The policy is enforced\<close>

lemma PermissionsForUser_allows:
  assumes "auth_ok st" and "\<forall>q \<in> set (st_permissions st). p_managed q" and "\<forall>x \<in> set (st_user_roles st). ur_managed x = 1"
    and "u \<in> set (st_users st)"
  shows "(\<exists>q \<in> set (st_permissions st). (\<exists>x \<in> set (st_user_roles st). ur_user_id x = u_id u \<and> ur_role_id x = p_role_id q) \<and> P (p_repo_pattern q) (p_actions q))
    \<longleftrightarrow> (\<exists>n pat acts. (u_username u, n) \<in> managed_grants st \<and> (n, pat, acts) \<in> managed_permissions st \<and> P pat acts)"
    (is "?lhs \<longleftrightarrow> ?rhs")
proof
  assume ?lhs
  then obtain q x where q: "q \<in> set (st_permissions st)" "P (p_repo_pattern q) (p_actions q)"
    and x: "x \<in> set (st_user_roles st)" "ur_user_id x = u_id u" "ur_role_id x = p_role_id q" by blast
  from q(1) assms(1) have "p_role_id q \<in> ro_id ` set (st_roles st)" unfolding auth_ok_def by blast
  then obtain r where "r \<in> set (st_roles st)" "ro_id r = p_role_id q" by force
  then have n: "role_named st (p_role_id q) (ro_name r)" by (auto simp: role_named_def)
  have "user_named st (u_id u) (u_username u)" using assms(4) by (auto simp: user_named_def)
  then have "(u_username u, ro_name r) \<in> managed_grants st"
    using x n assms(3) unfolding managed_grants_def by fastforce
  moreover have "(ro_name r, p_repo_pattern q, p_actions q) \<in> managed_permissions st"
    using q(1) n assms(2) unfolding managed_permissions_def by auto
  ultimately show ?rhs using q(2) by blast
next
  assume ?rhs
  then obtain n x q where x: "x \<in> set (st_user_roles st)" "user_named st (ur_user_id x) (u_username u)"
      "role_named st (ur_role_id x) n"
    and q: "q \<in> set (st_permissions st)" "role_named st (p_role_id q) n" "P (p_repo_pattern q) (p_actions q)"
    unfolding managed_grants_def managed_permissions_def by auto
  have "user_named st (u_id u) (u_username u)" using assms(4) by (auto simp: user_named_def)
  then have "ur_user_id x = u_id u" using named_unique(4) [OF assms(1)] x(2) by blast
  moreover have "ur_role_id x = p_role_id q" using named_unique(2) [OF assms(1)] x(3) q(2) by blast
  ultimately show ?lhs using x(1) q(1,3) by blast
qed


definition demo_text :: string where
  "demo_text = ''p, dev, repo, write, maven-*'' @ [CHR 0x0A] @ ''g, alice, dev''"


end
