(* ===== verification/Receivers.thy ===== *)
theory Receivers
  imports Users
begin

text \<open>
  Notification receivers and audit rows (\<^verbatim>\<open>internal/meta/receiver.go\<close>, \<^verbatim>\<open>audit.go\<close>), and what the audit
  recorder's background writer and retention loop do to the database (\<^verbatim>\<open>internal/audit/audit.go\<close>).
\<close>

section \<open>Receivers\<close>

abbreviation find_receiver :: "nat \<Rightarrow> store \<Rightarrow> receiver option" where
  "find_receiver i st \<equiv> find_key rv_id i (st_receivers st)"

definition CreateReceiver :: "instant \<Rightarrow> receiver \<Rightarrow> store \<Rightarrow> (store_error + receiver) \<times> store" where
  "CreateReceiver now r st =
     (let i = next_id TReceivers st;
          row = r\<lparr>rv_id := i, rv_created_at := now, rv_updated_at := now\<rparr>
      in if st_fault st TReceivers then (Inl ErrDB, st)
         else if find_key rv_name (rv_name r) (st_receivers st) \<noteq> None then (Inl ErrConflict, st)
         else (Inr row, st\<lparr>st_receivers := st_receivers st @ [row], st_seq := (st_seq st)(TReceivers := i)\<rparr>))"

definition GetReceiver :: "store \<Rightarrow> nat \<Rightarrow> store_error + receiver" where
  "GetReceiver st i =
     (if st_fault st TReceivers then Inl ErrDB
      else case find_receiver i st of None \<Rightarrow> Inl ErrNotFound | Some r \<Rightarrow> Inr r)"

definition queryReceivers :: "store \<Rightarrow> (receiver \<Rightarrow> bool) \<Rightarrow> store_error + receiver list" where
  "queryReceivers st P =
     (if st_fault st TReceivers then Inl ErrDB
      else Inr (order_by (\<lambda>a b. rv_id a < rv_id b) (filter P (st_receivers st))))"

definition ListReceivers :: "store \<Rightarrow> store_error + receiver list" where
  "ListReceivers st = queryReceivers st (\<lambda>r. True)"

definition ListEnabledReceivers :: "store \<Rightarrow> store_error + receiver list" where
  "ListEnabledReceivers st = queryReceivers st rv_enabled"

text \<open>The creator and the creation time stay; a name that another row has is refused.\<close>

definition UpdateReceiver :: "instant \<Rightarrow> receiver \<Rightarrow> store \<Rightarrow> (store_error + receiver) \<times> store" where
  "UpdateReceiver now r st =
     (let edit = (\<lambda>x. x\<lparr>rv_name := rv_name r, rv_description := rv_description r, rv_webhook_url := rv_webhook_url r,
                        rv_enabled := rv_enabled r, rv_updated_at := now\<rparr>);
          st1 = st\<lparr>st_receivers := update_where (\<lambda>x. rv_id x = rv_id r) edit (st_receivers st)\<rparr>
      in if st_fault st TReceivers then (Inl ErrDB, st)
         else if find_receiver (rv_id r) st = None then (Inl ErrNotFound, st)
         else if \<exists>x \<in> set (st_receivers st). rv_name x = rv_name r \<and> rv_id x \<noteq> rv_id r then (Inl ErrConflict, st)
         else (GetReceiver st1 (rv_id r), st1))"

definition DeleteReceiver :: "nat \<Rightarrow> store \<Rightarrow> (store_error + unit) \<times> store" where
  "DeleteReceiver i st =
     (if st_fault st TReceivers then (Inl ErrDB, st)
      else if find_receiver i st = None then (Inl ErrNotFound, st)
      else (Inr (), st\<lparr>st_receivers := delete_where (\<lambda>r. rv_id r = i) (st_receivers st)\<rparr>))"

section \<open>Audit rows\<close>

abbreviation EventRepoCreate :: string where "EventRepoCreate \<equiv> ''repo.create''"
abbreviation EventRepoUpdate :: string where "EventRepoUpdate \<equiv> ''repo.update''"
abbreviation EventRepoDelete :: string where "EventRepoDelete \<equiv> ''repo.delete''"

text \<open>The zero time stands for a creation time that is not set.\<close>

definition InsertAuditLog :: "instant \<Rightarrow> audit_log \<Rightarrow> store \<Rightarrow> (store_error + unit) \<times> store" where
  "InsertAuditLog now l st =
     (let i = next_id TAuditLogs st;
          created = (if al_created_at l = 0 then now else al_created_at l)
      in if st_fault st TAuditLogs then (Inl ErrDB, st)
         else (Inr (), st\<lparr>st_audit_logs := st_audit_logs st @ [l\<lparr>al_id := i, al_created_at := created\<rparr>],
                          st_seq := (st_seq st)(TAuditLogs := i)\<rparr>))"

definition log_matches :: "string \<Rightarrow> string \<Rightarrow> audit_log \<Rightarrow> bool" where
  "log_matches repo event l \<longleftrightarrow> al_repo_name l = repo \<and> (event = [] \<or> al_event l = event)"

definition ListAuditLogs :: "store \<Rightarrow> string \<Rightarrow> string \<Rightarrow> nat \<Rightarrow> nat \<Rightarrow> store_error + audit_log list" where
  "ListAuditLogs st repo event lim off =
     (if st_fault st TAuditLogs then Inl ErrDB
      else Inr (take lim (drop off
             (order_by (\<lambda>a b. al_id b < al_id a) (filter (log_matches repo event) (st_audit_logs st))))))"

definition CountAuditLogs :: "store \<Rightarrow> string \<Rightarrow> string \<Rightarrow> store_error + nat" where
  "CountAuditLogs st repo event =
     (if st_fault st TAuditLogs then Inl ErrDB
      else Inr (length (filter (log_matches repo event) (st_audit_logs st))))"

definition PruneAuditLogs :: "instant \<Rightarrow> store \<Rightarrow> (store_error + nat) \<times> store" where
  "PruneAuditLogs before st =
     (let old = (\<lambda>l. text_less (format_time (al_created_at l)) (format_time before))
      in if st_fault st TAuditLogs then (Inl ErrDB, st)
         else (Inr (length (filter old (st_audit_logs st))),
               st\<lparr>st_audit_logs := delete_where old (st_audit_logs st)\<rparr>))"

text \<open>One pass of the retention loop, which does nothing when no retention is configured.\<close>

definition pruneOnce :: "duration \<Rightarrow> instant \<Rightarrow> store \<Rightarrow> store" where
  "pruneOnce retention now st = snd (PruneAuditLogs (now - retention) st)"

definition RunRetention_pass :: "duration \<Rightarrow> instant \<Rightarrow> store \<Rightarrow> store" where
  "RunRetention_pass retention now st = (if retention \<le> 0 then st else pruneOnce retention now st)"

section \<open>Lemmas\<close>

definition receivers_ok :: "store \<Rightarrow> bool" where
  "receivers_ok st \<longleftrightarrow> ids_ok rv_id (st_receivers st) (st_seq st TReceivers) \<and> distinct (map rv_name (st_receivers st))"

lemma receivers_ok_create: "receivers_ok st \<Longrightarrow> receivers_ok (snd (CreateReceiver now r st))"
  by (auto simp: CreateReceiver_def receivers_ok_def Let_def find_key_None next_id_def ids_ok_append)

lemma receivers_ok_update:
  assumes "receivers_ok st"
  shows "receivers_ok (snd (UpdateReceiver now r st))"
proof (cases "\<exists>x \<in> set (st_receivers st). rv_name x = rv_name r \<and> rv_id x \<noteq> rv_id r")
  case True
  with assms show ?thesis by (simp add: UpdateReceiver_def Let_def)
next
  case False
  let ?edit = "\<lambda>x. x\<lparr>rv_name := rv_name r, rv_description := rv_description r, rv_webhook_url := rv_webhook_url r,
                     rv_enabled := rv_enabled r, rv_updated_at := now\<rparr>"
  let ?rows = "update_where (\<lambda>x. rv_id x = rv_id r) ?edit (st_receivers st)"
  have ids: "map rv_id ?rows = map rv_id (st_receivers st)" by (rule update_where_map_id) simp
  have key: "rv_name (if rv_id x = rv_id r then ?edit x else x) = (if rv_id x = rv_id r then rv_name r else rv_name x)" for x
    by simp
  have d: "distinct (map rv_id (st_receivers st))" "distinct (map rv_name (st_receivers st))"
    using assms by (auto simp: receivers_ok_def ids_ok_def)
  have "distinct (map (\<lambda>x. if rv_id x = rv_id r then rv_name r else rv_name x) (st_receivers st))"
    unfolding distinct_map
  proof (intro conjI inj_onI)
    show "distinct (st_receivers st)" using d(1) by (simp add: distinct_map)
    fix x y
    assume "x \<in> set (st_receivers st)" "y \<in> set (st_receivers st)"
      "(if rv_id x = rv_id r then rv_name r else rv_name x) = (if rv_id y = rv_id r then rv_name r else rv_name y)"
    then show "x = y"
      using distinct_key_eq [OF d(1), of x y] distinct_key_eq [OF d(2), of x y] False by (auto split: if_splits)
  qed
  then have "distinct (map rv_name ?rows)" by (simp add: update_where_def comp_def key)
  moreover have "ids_ok rv_id ?rows n" if "ids_ok rv_id (st_receivers st) n" for n
    using that ids unfolding ids_ok_def by (metis (no_types, lifting) image_iff list.set_map)
  ultimately show ?thesis using assms by (simp add: UpdateReceiver_def Let_def receivers_ok_def)
qed

lemma receivers_ok_delete: "receivers_ok st \<Longrightarrow> receivers_ok (snd (DeleteReceiver i st))"
  by (auto simp: DeleteReceiver_def receivers_ok_def ids_ok_def distinct_delete_where)

text \<open>Pruning removes no row that is younger than the retention, and every row a second older than it.\<close>

lemma prune_window:
  assumes "\<not> st_fault st TAuditLogs" and "l \<in> set (st_audit_logs st)"
  shows "now - retention \<le> al_created_at l - Second \<Longrightarrow> l \<in> set (st_audit_logs (pruneOnce retention now st))"
    and "al_created_at l < now - retention - Second \<Longrightarrow> l \<notin> set (st_audit_logs (pruneOnce retention now st))"
proof -
  have row: "l \<in> set (st_audit_logs (pruneOnce retention now st)) \<longleftrightarrow>
      \<not> text_less (format_time (al_created_at l)) (format_time (now - retention))"
    using assms by (simp add: pruneOnce_def PruneAuditLogs_def Let_def)
  show "l \<in> set (st_audit_logs (pruneOnce retention now st))" if "now - retention \<le> al_created_at l - Second"
    using text_less_bound [of "al_created_at l" "now - retention"] that row by linarith
  show "l \<notin> set (st_audit_logs (pruneOnce retention now st))" if "al_created_at l < now - retention - Second"
  proof -
    have "al_created_at l div Second \<noteq> (now - retention) div Second" using that by linarith
    then show ?thesis using text_less_seconds that row by force
  qed
qed

end
