(* ===== verification/Api.thy ===== *)
theory Api
  imports Sign_In Receivers Audit_Log
begin

text \<open>
  The frame of the management API (\<^verbatim>\<open>internal/api/api.go\<close>): the handler's dependencies, the responses, the
  names it accepts, and the way every handler turns a store error into a response and stops.

  A handler takes the decoded body of its request, \<open>None\<close> when decoding fails, and the state: the
  store and the audit recorder. JSON documents are built as values; their encoding, the text of times
  and of database errors, and the parser of durations are parameters. Row identifiers start at 1, so an
  identifier that is not positive names no row.
\<close>

section \<open>The handler\<close>

record api =
  hd_authz :: "auth_service option"
  hd_encode :: "json \<Rightarrow> bytes"
  hd_error_text :: "store_error \<Rightarrow> string"
  hd_other_error :: string
  hd_crypto :: crypto
  hd_time :: "instant \<Rightarrow> string"
  hd_duration :: "string \<Rightarrow> duration option"
  hd_scopes_json :: "scope list \<Rightarrow> string"
  hd_now :: instant
  hd_rand :: "bytes option"

record api_state =
  as_store :: store
  as_rec :: "recorder option"

text \<open>A request with the URL parameters \<open>id\<close> and the second one of the nested routes, and its query.\<close>

record api_call =
  ac_req :: request
  ac_id :: string
  ac_sub :: string
  ac_query :: headers

type_synonym answer = "wop list \<times> api_state"

section \<open>Responses\<close>

definition writeJSON :: "api \<Rightarrow> int \<Rightarrow> json \<Rightarrow> wop list" where
  "writeJSON h status v =
     [SetHeader ''Content-Type'' ''application/json; charset=utf-8'', WriteHeader status, WriteBytes (hd_encode h v)]"

definition writeError :: "api \<Rightarrow> int \<Rightarrow> string \<Rightarrow> wop list" where
  "writeError h status msg = writeJSON h status (JObj [(''error'', JStr msg)])"

definition mapError :: "api \<Rightarrow> store_error \<Rightarrow> wop list" where
  "mapError h e =
     (if e = ErrNotFound then writeError h 404 ''not found''
      else if e = ErrConflict then writeError h 409 ''already exists''
      else writeError h 500 (hd_error_text h e))"

abbreviation noContent :: "wop list" where "noContent \<equiv> [WriteHeader 204]"

text \<open>An error that does not come from the store is answered with 500 and its text.\<close>

definition otherError :: "api \<Rightarrow> wop list" where
  "otherError h = writeError h 500 (hd_other_error h)"

section \<open>Names and numbers\<close>

text \<open>The range over the string decodes runes; a byte beyond ASCII never decodes to one of the letters.\<close>

definition name_char :: "char \<Rightarrow> bool" where
  "name_char c \<longleftrightarrow>
     (let n = (of_char c :: nat) in 97 \<le> n \<and> n \<le> 122 \<or> 65 \<le> n \<and> n \<le> 90 \<or> 48 \<le> n \<and> n \<le> 57 \<or> c = CHR ''-'' \<or> c = CHR ''_'')"

definition validName :: "string \<Rightarrow> bool" where
  "validName name \<longleftrightarrow> name \<noteq> [] \<and> \<not> 64 < length name \<and> list_all name_char name"

abbreviation nameRuleMsg :: string where
  "nameRuleMsg \<equiv> ''may only contain letters, digits, '' @ [CHR 0x27] @ ''-'' @ [CHR 0x27] @ '' and '' @ [CHR 0x27] @ ''_'' @ [CHR 0x27] @ '' (max 64 chars)''"

definition parseID :: "string \<Rightarrow> int option" where
  "parseID s = Atoi s"

definition row_id :: "int \<Rightarrow> nat" where
  "row_id i = (if i \<le> 0 then 0 else nat i)"

definition intParam :: "string \<Rightarrow> int \<Rightarrow> int" where
  "intParam s d = (if s = [] then d else case Atoi s of None \<Rightarrow> d | Some n \<Rightarrow> n)"

text \<open>The page a listing asks for: between 1 and 500 rows, 100 otherwise, from an offset that is not negative.\<close>

definition page_limit :: "headers \<Rightarrow> nat" where
  "page_limit q = (let n = intParam (header_get q ''limit'') 100 in if n < 1 \<or> 500 < n then 100 else nat n)"

definition page_offset :: "headers \<Rightarrow> nat" where
  "page_offset q = nat (max (intParam (header_get q ''offset'') 0) 0)"

definition principalName :: "request \<Rightarrow> string" where
  "principalName r = (case rq_principal r of None \<Rightarrow> [] | Some p \<Rightarrow> pr_username p)"

section \<open>Steps of a handler\<close>

text \<open>
  \<open>query\<close> and \<open>act\<close> are a read and a write of the store followed by \<^verbatim>\<open>if err != nil { mapError(w, err);
  return }\<close>; \<open>with_id\<close> is \<^verbatim>\<open>pathID\<close>, \<open>with_body\<close> the decoding of the body with its message.
\<close>

definition query :: "api \<Rightarrow> (store \<Rightarrow> store_error + 'a) \<Rightarrow> ('a \<Rightarrow> api_state \<Rightarrow> answer) \<Rightarrow> api_state \<Rightarrow> answer" where
  "query h q k s = (case q (as_store s) of Inl e \<Rightarrow> (mapError h e, s) | Inr x \<Rightarrow> k x s)"

definition act :: "api \<Rightarrow> (store \<Rightarrow> (store_error + 'a) \<times> store) \<Rightarrow> ('a \<Rightarrow> api_state \<Rightarrow> answer) \<Rightarrow> api_state \<Rightarrow> answer" where
  "act h f k s =
     (case f (as_store s) of
        (Inl e, st) \<Rightarrow> (mapError h e, s\<lparr>as_store := st\<rparr>)
      | (Inr x, st) \<Rightarrow> k x (s\<lparr>as_store := st\<rparr>))"

definition pathID :: "api \<Rightarrow> api_call \<Rightarrow> (nat \<Rightarrow> api_state \<Rightarrow> answer) \<Rightarrow> api_state \<Rightarrow> answer" where
  "pathID h c k s =
     (case parseID (ac_id c) of None \<Rightarrow> (writeError h 400 ''invalid id'', s) | Some i \<Rightarrow> k (row_id i) s)"

definition with_body :: "api \<Rightarrow> string \<Rightarrow> 'r option \<Rightarrow> ('r \<Rightarrow> api_state \<Rightarrow> answer) \<Rightarrow> api_state \<Rightarrow> answer" where
  "with_body h msg body k s =
     (case body of None \<Rightarrow> (writeError h 400 msg, s) | Some req \<Rightarrow> k req s)"

definition refuse :: "api \<Rightarrow> int \<Rightarrow> string \<Rightarrow> api_state \<Rightarrow> answer" where
  "refuse h status msg s = (writeError h status msg, s)"

definition reply :: "wop list \<Rightarrow> api_state \<Rightarrow> answer" where
  "reply ops s = (ops, s)"

text \<open>Recording goes to the recorder's queue; without a recorder it does nothing.\<close>

definition record_audit :: "api \<Rightarrow> audit_event \<Rightarrow> api_state \<Rightarrow> api_state" where
  "record_audit h ev s = (case as_rec s of None \<Rightarrow> s | Some rc \<Rightarrow> s\<lparr>as_rec := Some (Record (hd_now h) ev rc)\<rparr>)"

definition api_event :: "request \<Rightarrow> string \<Rightarrow> string \<Rightarrow> string \<Rightarrow> int \<Rightarrow> audit_event" where
  "api_event r repo action path status =
     \<lparr>ae_repo = repo, ae_action = action, ae_path = path, ae_username = principalName r, ae_method = rq_method r,
      ae_status = status, ae_client_ip = ClientIP r, ae_user_agent = UserAgent r\<rparr>"

definition api_audit :: "api \<Rightarrow> request \<Rightarrow> string \<Rightarrow> string \<Rightarrow> int \<Rightarrow> api_state \<Rightarrow> api_state" where
  "api_audit h r repo event status = record_audit h (api_event r repo event [] status)"

text \<open>\<^verbatim>\<open>GET /version\<close>; the build's version and commit are arguments.\<close>

definition api_version :: "api \<Rightarrow> string \<Rightarrow> string \<Rightarrow> api_state \<Rightarrow> answer" where
  "api_version h ver commit =
     reply (writeJSON h 200 (JObj
       [(''version'', JStr ver), (''commit'', JStr commit),
        (''oidc_enabled'', JBool (case hd_authz h of None \<Rightarrow> False | Some sv \<Rightarrow> sv_oidc sv \<noteq> None))]))"

section \<open>What the steps keep\<close>

lemma store_record_audit [simp]: "as_store (record_audit h ev s) = as_store s"
  by (simp add: record_audit_def split: option.splits)

lemma store_api_audit [simp]: "as_store (api_audit h r repo ev st s) = as_store s"
  by (simp add: api_audit_def)

text \<open>
  A reflexive and transitive relation between the store before and after: a handler keeps it when each of
  its writes does. The rules take a handler apart into its writes, with what its reads have shown.
\<close>

locale store_preorder =
  fixes R :: "store \<Rightarrow> store \<Rightarrow> bool"
  assumes R_refl: "R st st"
    and R_trans: "R st st1 \<Longrightarrow> R st1 st2 \<Longrightarrow> R st st2"
begin

definition keeps :: "api_state \<Rightarrow> answer \<Rightarrow> bool" where
  "keeps s a \<longleftrightarrow> R (as_store s) (as_store (snd a))"

lemma keeps_same: "as_store (snd a) = as_store s \<Longrightarrow> keeps s a"
  by (simp add: keeps_def R_refl)

lemma keeps_reply: "R (as_store s) (as_store s') \<Longrightarrow> keeps s (reply ops s')"
  by (simp add: keeps_def reply_def)

lemma keeps_reply_same: "keeps s (reply ops s)"
  by (simp add: keeps_def reply_def R_refl)

lemma keeps_refuse: "keeps s (refuse h code msg s)"
  by (simp add: keeps_def refuse_def R_refl)

lemma keeps_query:
  assumes "\<And>x. q (as_store s) = Inr x \<Longrightarrow> keeps s (k x s)"
  shows "keeps s (query h q k s)"
  using assms by (cases "q (as_store s)") (simp_all add: query_def keeps_def R_refl)

lemma keeps_act:
  assumes "R (as_store s) (snd (f (as_store s)))"
    and "\<And>x st'. f (as_store s) = (Inr x, st') \<Longrightarrow> keeps (s\<lparr>as_store := st'\<rparr>) (k x (s\<lparr>as_store := st'\<rparr>))"
  shows "keeps s (act h f k s)"
proof (cases "f (as_store s)")
  case (Pair res st')
  show ?thesis
  proof (cases res)
    case (Inl e)
    with Pair assms(1) show ?thesis by (simp add: act_def keeps_def)
  next
    case (Inr x)
    with Pair assms(2) [of x st'] assms(1) show ?thesis by (auto simp: act_def keeps_def intro: R_trans)
  qed
qed

lemma keeps_pathID: "(\<And>i. keeps s (k i s)) \<Longrightarrow> keeps s (pathID h c k s)"
  by (simp add: pathID_def keeps_def R_refl split: option.splits)

lemma keeps_with_body: "(\<And>req. body = Some req \<Longrightarrow> keeps s (k req s)) \<Longrightarrow> keeps s (with_body h msg body k s)"
  by (simp add: with_body_def keeps_def R_refl split: option.splits)

lemma keeps_if: "(P \<Longrightarrow> keeps s (a s)) \<Longrightarrow> (\<not> P \<Longrightarrow> keeps s (b s)) \<Longrightarrow> keeps s ((if P then a else b) s)"
  by simp

lemma keeps_option:
  "(x = None \<Longrightarrow> keeps s (a s)) \<Longrightarrow> (\<And>y. x = Some y \<Longrightarrow> keeps s (b y s)) \<Longrightarrow>
   keeps s ((case x of None \<Rightarrow> a | Some y \<Rightarrow> b y) s)"
  by (simp split: option.splits)

lemma keeps_sum:
  "(\<And>e. x = Inl e \<Longrightarrow> keeps s (a e s)) \<Longrightarrow> (\<And>y. x = Inr y \<Longrightarrow> keeps s (b y s)) \<Longrightarrow>
   keeps s ((case x of Inl e \<Rightarrow> a e | Inr y \<Rightarrow> b y) s)"
  by (simp split: sum.splits)

lemma keeps_prod: "(\<And>y z. x = (y, z) \<Longrightarrow> keeps s (b y z s)) \<Longrightarrow> keeps s ((case x of (y, z) \<Rightarrow> b y z) s)"
  by (simp split: prod.splits)

lemmas keeps_rules = keeps_reply_same keeps_refuse keeps_query keeps_pathID keeps_with_body keeps_if keeps_option keeps_sum keeps_prod

end

end
