(* ===== verification/Api_Accounts.thy ===== *)
theory Api_Accounts
  imports Api
begin

text \<open>
  The handlers of sessions, personal access tokens, users, roles, permissions and group mappings
  (\<^verbatim>\<open>internal/api/auth.go\<close>).
\<close>

section \<open>Documents\<close>

definition j_int :: "int \<Rightarrow> json" where "j_int n = JNum (Itoa n)"

definition j_nat :: "nat \<Rightarrow> json" where "j_nat n = j_int (int n)"

definition j_time :: "api \<Rightarrow> instant \<Rightarrow> json" where "j_time h t = JStr (hd_time h t)"

definition j_time_opt :: "api \<Rightarrow> instant option \<Rightarrow> json" where
  "j_time_opt h t = (case t of None \<Rightarrow> JNull | Some t \<Rightarrow> j_time h t)"

definition j_strings :: "string list \<Rightarrow> json" where "j_strings ss = JArr (map JStr ss)"

definition tokenSummary :: "api \<Rightarrow> token \<Rightarrow> json" where
  "tokenSummary h t =
     JObj [(''id'', j_nat (t_id t)), (''name'', JStr (t_name t)), (''description'', JStr (t_description t)),
           (''scopes_json'', JStr (t_scopes_json t)), (''expires_at'', j_time_opt h (t_expires_at t)),
           (''last_used_at'', j_time_opt h (t_last_used_at t)), (''created_at'', j_time h (t_created_at t))]"

definition protected :: "api \<Rightarrow> string \<Rightarrow> bool" where
  "protected h name = (case hd_authz h of None \<Rightarrow> False | Some sv \<Rightarrow> IsProtectedAdmin sv name)"

definition toUserDTO :: "api \<Rightarrow> user \<Rightarrow> role list \<Rightarrow> json" where
  "toUserDTO h u roles =
     JObj [(''id'', j_nat (u_id u)), (''username'', JStr (u_username u)), (''source'', JStr (u_source u)),
           (''email'', JStr (u_email u)), (''disabled'', JBool (u_disabled u)), (''created_at'', j_time h (u_created_at u)),
           (''last_login_at'', if u_last_login_at u = 0 then JNull else j_time h (u_last_login_at u)),
           (''roles'', JArr (map (\<lambda>r. JObj [(''id'', j_nat (ro_id r)), (''name'', JStr (ro_name r))]) roles)),
           (''lockout_enabled'', JBool (u_lockout_enabled u)), (''locked'', JBool (Locked u)),
           (''protected'', JBool (protected h (u_username u)))]"

definition permissionDTO :: "permission \<Rightarrow> json" where
  "permissionDTO p =
     JObj [(''id'', j_nat (p_id p)), (''repo_pattern'', JStr (p_repo_pattern p)),
           (''actions'', j_strings (split_on (CHR '','') (p_actions p)))]"

definition toRoleDTO :: "api \<Rightarrow> role \<Rightarrow> permission list \<Rightarrow> nat \<Rightarrow> json" where
  "toRoleDTO h r perms users =
     JObj [(''id'', j_nat (ro_id r)), (''name'', JStr (ro_name r)), (''description'', JStr (ro_description r)),
           (''created_at'', j_time h (ro_created_at r)), (''managed'', JBool (ro_managed r)),
           (''permissions'', JArr (map permissionDTO perms)), (''user_count'', j_nat users)]"

section \<open>Sessions\<close>

record loginReq =
  lr_username :: string
  lr_password :: string

definition login :: "api \<Rightarrow> api_call \<Rightarrow> loginReq option \<Rightarrow> api_state \<Rightarrow> answer" where
  "login h c body =
     (case hd_authz h of
        None \<Rightarrow> refuse h 404 ''auth disabled''
      | Some sv \<Rightarrow> with_body h ''invalid json body'' body (\<lambda>req s.
          case AuthenticateLocal sv (hd_now h) (lr_username req) (lr_password req) (as_store s) of
            (Inl e, st1) \<Rightarrow>
              (if e = ErrAccountLocked
               then refuse h 403 ''account locked: too many failed attempts, contact an administrator''
               else refuse h 401 ''invalid credentials'') (s\<lparr>as_store := st1\<rparr>)
          | (Inr u, st1) \<Rightarrow>
              let s2 = s\<lparr>as_store := snd (TouchLastLogin (hd_now h) (u_id u) st1)\<rparr> in
              (case IssueSession sv (hd_now h) (u_username u) (u_source u) [] of
                 None \<Rightarrow> (otherError h, s2)
               | Some v \<Rightarrow> (SetSessionCookie v (isSecure (ac_req c)) @
                   writeJSON h 200 (JObj [(''username'', JStr (u_username u)), (''source'', JStr (u_source u))]), s2))))"

definition logout :: "api_state \<Rightarrow> answer" where
  "logout = reply (ClearSessionCookie @ noContent)"

definition me :: "api \<Rightarrow> api_call \<Rightarrow> api_state \<Rightarrow> answer" where
  "me h c =
     reply (writeJSON h 200 (case rq_principal (ac_req c) of
        None \<Rightarrow> JObj [(''authenticated'', JBool False)]
      | Some p \<Rightarrow> JObj [(''authenticated'', JBool True), (''username'', JStr (pr_username p)), (''source'', JStr (pr_source p)),
          (''admin'', JBool (IsAdmin p)), (''approver'', JBool (IsAdmin p \<or> CanApproveAny p)),
          (''auditor'', JBool (IsAdmin p \<or> CanAuditAny p))]))"

text \<open>The account of the principal; any error of the lookup is answered 401.\<close>

definition currentUser :: "api \<Rightarrow> api_call \<Rightarrow> (user \<Rightarrow> api_state \<Rightarrow> answer) \<Rightarrow> api_state \<Rightarrow> answer" where
  "currentUser h c k s =
     (case rq_principal (ac_req c) of
        None \<Rightarrow> (Unauthorized, s)
      | Some p \<Rightarrow>
          (case GetUserByUsername (as_store s) (pr_username p) of
             Inl e \<Rightarrow> refuse h 401 ''unknown user'' s
           | Inr u \<Rightarrow> k u s))"

section \<open>Personal access tokens\<close>

record createTokenReq =
  tr_name :: string
  tr_description :: string
  tr_scopes :: "scope list"
  tr_expires_in :: string

definition maxTokenTTL :: duration where "maxTokenTTL = 365 * 24 * Hour"

fun bad_action :: "string list \<Rightarrow> string option" where
  "bad_action [] = None"
| "bad_action (a # as) =
     (if a = ActionRead \<or> a = ActionWrite \<or> a = ActionDelete then bad_action as
      else Some (''invalid scope action: '' @ a))"

fun bad_scope :: "scope list \<Rightarrow> string option" where
  "bad_scope [] = None"
| "bad_scope (sc # scs) =
     (if trim_space (s_repo_pattern sc) = [] then Some ''scope repo_pattern required''
      else if s_actions sc = [] then Some ''scope actions required''
      else case bad_action (s_actions sc) of Some msg \<Rightarrow> Some msg | None \<Rightarrow> bad_scope scs)"

text \<open>\<open>Inl\<close> is the message of a refused request.\<close>

definition validateTokenReq :: "api \<Rightarrow> createTokenReq \<Rightarrow> string + instant \<times> string" where
  "validateTokenReq h req =
     (if \<not> validName (trim_space (tr_name req)) then Inl (''invalid token name: '' @ nameRuleMsg)
      else if trim_space (tr_description req) = [] then Inl ''token description required''
      else if tr_scopes req = [] then Inl ''at least one scope required''
      else case bad_scope (tr_scopes req) of
             Some msg \<Rightarrow> Inl msg
           | None \<Rightarrow>
               if tr_expires_in req = [] then Inl ''expires_in required''
               else case hd_duration h (tr_expires_in req) of
                      None \<Rightarrow> Inl ''invalid expires_in''
                    | Some d \<Rightarrow>
                        if d \<le> 0 then Inl ''invalid expires_in''
                        else if maxTokenTTL < d then Inl ''expires_in exceeds the one year maximum''
                        else Inr (hd_now h + d, hd_scopes_json h (tr_scopes req)))"

definition issueToken :: "api \<Rightarrow> nat \<Rightarrow> createTokenReq option \<Rightarrow> api_state \<Rightarrow> answer" where
  "issueToken h uid body =
     with_body h ''invalid json body'' body (\<lambda>req.
       case validateTokenReq h req of
         Inl msg \<Rightarrow> refuse h 400 msg
       | Inr (expiresAt, scopesJSON) \<Rightarrow>
           (case GenerateToken (hd_crypto h) (hd_rand h) of
              None \<Rightarrow> reply (otherError h)
            | Some (plaintext, hash) \<Rightarrow>
                act h (CreateToken (hd_now h)
                    \<lparr>t_id = 0, t_user_id = uid, t_name = tr_name req, t_description = tr_description req, t_hash = hash,
                     t_scopes_json = scopesJSON, t_expires_at = Some expiresAt, t_last_used_at = None, t_created_at = 0\<rparr>)
                  (\<lambda>t. reply (writeJSON h 201 (JObj
                     [(''id'', j_nat (t_id t)), (''name'', JStr (t_name t)), (''description'', JStr (t_description t)),
                      (''token'', JStr plaintext), (''expires_at'', j_time_opt h (t_expires_at t))])))))"

definition list_tokens_of :: "api \<Rightarrow> nat \<Rightarrow> api_state \<Rightarrow> answer" where
  "list_tokens_of h uid =
     query h (\<lambda>st. ListTokens st uid) (\<lambda>tokens. reply (writeJSON h 200 (JArr (map (tokenSummary h) tokens))))"

definition listTokens :: "api \<Rightarrow> api_call \<Rightarrow> api_state \<Rightarrow> answer" where
  "listTokens h c = currentUser h c (\<lambda>u. list_tokens_of h (u_id u))"

definition createToken :: "api \<Rightarrow> api_call \<Rightarrow> createTokenReq option \<Rightarrow> api_state \<Rightarrow> answer" where
  "createToken h c body = currentUser h c (\<lambda>u. issueToken h (u_id u) body)"

definition deleteToken :: "api \<Rightarrow> api_call \<Rightarrow> api_state \<Rightarrow> answer" where
  "deleteToken h c =
     currentUser h c (\<lambda>u. pathID h c (\<lambda>i. act h (DeleteToken (u_id u) i) (\<lambda>x. reply noContent)))"

definition listUserTokens :: "api \<Rightarrow> api_call \<Rightarrow> api_state \<Rightarrow> answer" where
  "listUserTokens h c = pathID h c (\<lambda>i. query h (\<lambda>st. GetUser st i) (\<lambda>u. list_tokens_of h i))"

definition createUserToken :: "api \<Rightarrow> api_call \<Rightarrow> createTokenReq option \<Rightarrow> api_state \<Rightarrow> answer" where
  "createUserToken h c body = pathID h c (\<lambda>i. query h (\<lambda>st. GetUser st i) (\<lambda>u. issueToken h i body))"

text \<open>The second parameter of the URL.\<close>

definition sub_id :: "api \<Rightarrow> api_call \<Rightarrow> string \<Rightarrow> (nat \<Rightarrow> api_state \<Rightarrow> answer) \<Rightarrow> api_state \<Rightarrow> answer" where
  "sub_id h c msg k =
     (case parseID (ac_sub c) of None \<Rightarrow> refuse h 400 msg | Some i \<Rightarrow> k (row_id i))"

definition deleteUserToken :: "api \<Rightarrow> api_call \<Rightarrow> api_state \<Rightarrow> answer" where
  "deleteUserToken h c =
     pathID h c (\<lambda>i. sub_id h c ''invalid token id'' (\<lambda>t. act h (DeleteToken i t) (\<lambda>x. reply noContent)))"

section \<open>Users\<close>

record createUserReq =
  cu_username :: string
  cu_password :: string
  cu_email :: string
  cu_role_ids :: "int list"

definition roles_of :: "(nat \<times> role list) list \<Rightarrow> nat \<Rightarrow> role list" where
  "roles_of rolesBy i = (case map_of rolesBy i of None \<Rightarrow> [] | Some rs \<Rightarrow> rs)"

definition listUsers :: "api \<Rightarrow> api_state \<Rightarrow> answer" where
  "listUsers h =
     query h ListUsers (\<lambda>users. query h RolesByUser (\<lambda>rolesBy.
       reply (writeJSON h 200 (JArr (map (\<lambda>u. toUserDTO h u (roles_of rolesBy (u_id u))) users)))))"

text \<open>The roles of the request are looked up before anything is written.\<close>

definition known_roles :: "api \<Rightarrow> int list \<Rightarrow> (api_state \<Rightarrow> answer) \<Rightarrow> api_state \<Rightarrow> answer" where
  "known_roles h rids k =
     (if rids = [] then k
      else query h ListRoles (\<lambda>roles.
        if list_all (\<lambda>rid. list_ex (\<lambda>r. int (ro_id r) = rid) roles) rids then k
        else refuse h 400 ''unknown role id''))"

fun assign_all :: "api \<Rightarrow> nat \<Rightarrow> int list \<Rightarrow> (api_state \<Rightarrow> answer) \<Rightarrow> api_state \<Rightarrow> answer" where
  "assign_all h uid [] k = k"
| "assign_all h uid (rid # rids) k = act h (AssignRole uid (row_id rid)) (\<lambda>x. assign_all h uid rids k)"

text \<open>\<open>act\<close> for an insert whose UNIQUE failure has an answer of its own.\<close>

definition act_unique ::
  "api \<Rightarrow> string \<Rightarrow> (store \<Rightarrow> (store_error + 'a) \<times> store) \<Rightarrow> ('a \<Rightarrow> api_state \<Rightarrow> answer) \<Rightarrow> api_state \<Rightarrow> answer" where
  "act_unique h msg f k s =
     (case f (as_store s) of
        (Inl e, st) \<Rightarrow>
          (if e = ErrUnique then refuse h 409 msg else reply (mapError h e)) (s\<lparr>as_store := st\<rparr>)
      | (Inr x, st) \<Rightarrow> k x (s\<lparr>as_store := st\<rparr>))"

definition createUser :: "api \<Rightarrow> createUserReq option \<Rightarrow> api_state \<Rightarrow> answer" where
  "createUser h body =
     with_body h ''invalid json body'' body (\<lambda>req.
       if cu_password req = [] then refuse h 400 ''username and password required''
       else if \<not> validName (trim_space (cu_username req)) then refuse h 400 (''invalid username: '' @ nameRuleMsg)
       else known_roles h (cu_role_ids req)
         (case cr_hash (hd_crypto h) (cu_password req) of
            None \<Rightarrow> reply (otherError h)
          | Some hash \<Rightarrow>
              act_unique h ''username already exists''
                (CreateUser (hd_now h) (blank_user\<lparr>u_username := cu_username req, u_password_hash := hash,
                                                  u_source := SourceLocal, u_email := cu_email req\<rparr>))
                (\<lambda>u. let finish = assign_all h (u_id u) (cu_role_ids req)
                            (reply (writeJSON h 201 (JObj [(''id'', j_nat (u_id u)), (''username'', JStr (u_username u))])))
                     in if \<not> protected h (u_username u)
                        then act h (SetLockoutEnabled (hd_now h) (u_id u) True) (\<lambda>x. finish) else finish)))"

record updateUserReq =
  up_password :: "string option"
  up_disabled :: "bool option"
  up_lockout_enabled :: "bool option"
  up_unlock :: "bool option"

definition isSelf :: "request \<Rightarrow> nat \<Rightarrow> store \<Rightarrow> bool" where
  "isSelf r i st =
     (case rq_principal r of
        None \<Rightarrow> False
      | Some p \<Rightarrow> (case GetUserByUsername st (pr_username p) of Inl e \<Rightarrow> False | Inr u \<Rightarrow> u_id u = i))"

text \<open>The edits, one after the other; each is written before the next is looked at.\<close>

definition edit_disabled ::
  "api \<Rightarrow> api_call \<Rightarrow> user \<Rightarrow> nat \<Rightarrow> bool option \<Rightarrow> (api_state \<Rightarrow> answer) \<Rightarrow> api_state \<Rightarrow> answer" where
  "edit_disabled h c target i d k s =
     (case d of
        None \<Rightarrow> k s
      | Some b \<Rightarrow>
          if b \<and> protected h (u_username target) then refuse h 400 ''cannot disable the default admin account'' s
          else if isSelf (ac_req c) i (as_store s) \<and> b then refuse h 400 ''cannot disable your own account'' s
          else act h (SetUserDisabled (hd_now h) i b) (\<lambda>x. k) s)"

definition edit_password ::
  "api \<Rightarrow> user \<Rightarrow> nat \<Rightarrow> string option \<Rightarrow> (api_state \<Rightarrow> answer) \<Rightarrow> api_state \<Rightarrow> answer" where
  "edit_password h target i pw k =
     (case pw of
        None \<Rightarrow> k
      | Some p \<Rightarrow>
          if u_source target \<noteq> SourceLocal then refuse h 400 ''cannot set a password for an OIDC user''
          else if p = [] then refuse h 400 ''password must not be empty''
          else case cr_hash (hd_crypto h) p of
                 None \<Rightarrow> reply (otherError h)
               | Some hash \<Rightarrow> act h (SetPassword (hd_now h) i hash) (\<lambda>x. k))"

definition edit_lockout ::
  "api \<Rightarrow> user \<Rightarrow> nat \<Rightarrow> bool option \<Rightarrow> (api_state \<Rightarrow> answer) \<Rightarrow> api_state \<Rightarrow> answer" where
  "edit_lockout h target i lo k =
     (case lo of
        None \<Rightarrow> k
      | Some b \<Rightarrow>
          if b \<and> u_source target \<noteq> SourceLocal then refuse h 400 ''lockout applies only to local-password accounts''
          else if b \<and> protected h (u_username target) then refuse h 400 ''cannot enable lockout for the default admin account''
          else act h (SetLockoutEnabled (hd_now h) i b) (\<lambda>x. k))"

definition edit_unlock :: "api \<Rightarrow> nat \<Rightarrow> bool option \<Rightarrow> (api_state \<Rightarrow> answer) \<Rightarrow> api_state \<Rightarrow> answer" where
  "edit_unlock h i u k = (if u = Some True then act h (ResetFailedLogin (hd_now h) i) (\<lambda>x. k) else k)"

definition updateUser :: "api \<Rightarrow> api_call \<Rightarrow> updateUserReq option \<Rightarrow> api_state \<Rightarrow> answer" where
  "updateUser h c body =
     pathID h c (\<lambda>i. with_body h ''invalid json body'' body (\<lambda>req.
       query h (\<lambda>st. GetUser st i) (\<lambda>target.
         edit_disabled h c target i (up_disabled req)
         (edit_password h target i (up_password req)
         (edit_lockout h target i (up_lockout_enabled req)
         (edit_unlock h i (up_unlock req)
           (query h (\<lambda>st. GetUser st i) (\<lambda>u. query h RolesByUser (\<lambda>rolesBy.
              reply (writeJSON h 200 (toUserDTO h u (roles_of rolesBy i))))))))))))"

definition deleteUser :: "api \<Rightarrow> api_call \<Rightarrow> api_state \<Rightarrow> answer" where
  "deleteUser h c =
     pathID h c (\<lambda>i s.
       if isSelf (ac_req c) i (as_store s) then refuse h 400 ''cannot delete your own account'' s
       else act h (DeleteUser i) (\<lambda>x. reply noContent) s)"

text \<open>The body of an assignment is the role's identifier.\<close>

definition api_assignRole :: "api \<Rightarrow> api_call \<Rightarrow> int option \<Rightarrow> api_state \<Rightarrow> answer" where
  "api_assignRole h c body =
     pathID h c (\<lambda>i. with_body h ''invalid json body'' body (\<lambda>rid.
       act h (AssignRole i (row_id rid)) (\<lambda>x. reply noContent)))"

abbreviation managedRoleMsg :: string where
  "managedRoleMsg \<equiv> ''managed by declarative RBAC policy; edit the chart values instead''"

definition unless_managed :: "api \<Rightarrow> (store \<Rightarrow> store_error + bool) \<Rightarrow> (api_state \<Rightarrow> answer) \<Rightarrow> api_state \<Rightarrow> answer" where
  "unless_managed h q k = query h q (\<lambda>managed. if managed then refuse h 409 managedRoleMsg else k)"

definition api_removeRole :: "api \<Rightarrow> api_call \<Rightarrow> api_state \<Rightarrow> answer" where
  "api_removeRole h c =
     pathID h c (\<lambda>i. sub_id h c ''invalid role id'' (\<lambda>rid.
       unless_managed h (\<lambda>st. IsManagedUserRole st i rid) (act h (RemoveRole i rid) (\<lambda>x. reply noContent))))"

section \<open>Roles and permissions\<close>

record addPermissionReq =
  pq_repo_pattern :: string
  pq_actions :: "string list"

record createRoleReq =
  cq_name :: string
  cq_description :: string
  cq_permissions :: "addPermissionReq list"

definition user_count :: "(nat \<times> role list) list \<Rightarrow> nat \<Rightarrow> nat" where
  "user_count rolesBy rid = length (filter (\<lambda>r. ro_id r = rid) (concat (map snd rolesBy)))"

definition listRoles :: "api \<Rightarrow> api_state \<Rightarrow> answer" where
  "listRoles h =
     query h ListRoles (\<lambda>roles. query h ListPermissions (\<lambda>perms. query h RolesByUser (\<lambda>rolesBy.
       reply (writeJSON h 200 (JArr (map (\<lambda>r.
         toRoleDTO h r (filter (\<lambda>p. p_role_id p = ro_id r) perms) (user_count rolesBy (ro_id r))) roles))))))"

fun bad_role_action :: "string list \<Rightarrow> string option" where
  "bad_role_action [] = None"
| "bad_role_action (a # as) = (if validRoleAction a then bad_role_action as else Some (''invalid action: '' @ a))"

fun bad_permission :: "addPermissionReq list \<Rightarrow> string option" where
  "bad_permission [] = None"
| "bad_permission (p # ps) =
     (if trim_space (pq_repo_pattern p) = [] \<or> pq_actions p = [] then Some ''repo_pattern and actions required''
      else case bad_role_action (pq_actions p) of Some msg \<Rightarrow> Some msg | None \<Rightarrow> bad_permission ps)"

definition role_permission :: "nat \<Rightarrow> string \<Rightarrow> string list \<Rightarrow> permission" where
  "role_permission rid pattern actions =
     \<lparr>p_id = 0, p_role_id = rid, p_repo_pattern = pattern, p_actions = join_with '','' actions, p_managed = False\<rparr>"

fun add_all :: "api \<Rightarrow> nat \<Rightarrow> addPermissionReq list \<Rightarrow> permission list \<Rightarrow> (permission list \<Rightarrow> api_state \<Rightarrow> answer) \<Rightarrow> api_state \<Rightarrow> answer" where
  "add_all h rid [] added k = k added"
| "add_all h rid (p # ps) added k =
     act h (AddPermission (role_permission rid (trim_space (pq_repo_pattern p)) (pq_actions p)))
       (\<lambda>x. add_all h rid ps (added @ [x]) k)"

definition createRole :: "api \<Rightarrow> createRoleReq option \<Rightarrow> api_state \<Rightarrow> answer" where
  "createRole h body =
     with_body h (''invalid role name: '' @ nameRuleMsg) body (\<lambda>req.
       if \<not> validName (trim_space (cq_name req)) then refuse h 400 (''invalid role name: '' @ nameRuleMsg)
       else case bad_permission (cq_permissions req) of
              Some msg \<Rightarrow> refuse h 400 msg
            | None \<Rightarrow>
                act_unique h ''role already exists''
                  (CreateRole (hd_now h) (new_role 0 (cq_name req) (cq_description req) 0 False))
                  (\<lambda>role. add_all h (ro_id role) (cq_permissions req) []
                     (\<lambda>perms. reply (writeJSON h 201 (toRoleDTO h role perms 0)))))"

definition deleteRole :: "api \<Rightarrow> api_call \<Rightarrow> api_state \<Rightarrow> answer" where
  "deleteRole h c =
     pathID h c (\<lambda>i. unless_managed h (\<lambda>st. RoleManaged st i) (act h (DeleteRole i) (\<lambda>x. reply noContent)))"

definition addPermission :: "api \<Rightarrow> api_call \<Rightarrow> addPermissionReq option \<Rightarrow> api_state \<Rightarrow> answer" where
  "addPermission h c body =
     pathID h c (\<lambda>i. unless_managed h (\<lambda>st. RoleManaged st i)
       (with_body h ''repo_pattern and actions required'' body (\<lambda>req.
          if pq_repo_pattern req = [] \<or> pq_actions req = [] then refuse h 400 ''repo_pattern and actions required''
          else case bad_role_action (pq_actions req) of
                 Some msg \<Rightarrow> refuse h 400 msg
               | None \<Rightarrow>
                   act h (AddPermission (role_permission i (pq_repo_pattern req) (pq_actions req)))
                     (\<lambda>p. reply (writeJSON h 201 (JObj [(''id'', j_nat (p_id p)),
                        (''repo_pattern'', JStr (p_repo_pattern p)), (''actions'', j_strings (pq_actions req))]))))))"

definition deletePermission :: "api \<Rightarrow> api_call \<Rightarrow> api_state \<Rightarrow> answer" where
  "deletePermission h c =
     pathID h c (\<lambda>i. sub_id h c ''invalid permission id'' (\<lambda>pid.
       unless_managed h (\<lambda>st. PermissionManaged st pid) (act h (DeletePermission i pid) (\<lambda>x. reply noContent))))"

section \<open>Group mappings\<close>

record createGroupMappingReq =
  gq_group_name :: string
  gq_role_id :: int

definition listGroupMappings :: "api \<Rightarrow> api_state \<Rightarrow> answer" where
  "listGroupMappings h =
     query h ListGroupMappings (\<lambda>gm. reply (writeJSON h 200 (JArr (map (\<lambda>m.
       JObj [(''ID'', j_nat (gm_id m)), (''GroupName'', JStr (gm_group_name m)), (''RoleID'', j_nat (gm_role_id m)),
             (''Managed'', JBool (gm_managed m))]) gm))))"

definition createGroupMapping :: "api \<Rightarrow> createGroupMappingReq option \<Rightarrow> api_state \<Rightarrow> answer" where
  "createGroupMapping h body =
     with_body h ''group_name and role_id required'' body (\<lambda>req.
       if trim_space (gq_group_name req) = [] then refuse h 400 ''group_name and role_id required''
       else act h (CreateGroupMapping (gq_group_name req) (row_id (gq_role_id req))) (\<lambda>x. reply [WriteHeader 201]))"

definition deleteGroupMapping :: "api \<Rightarrow> api_call \<Rightarrow> api_state \<Rightarrow> answer" where
  "deleteGroupMapping h c =
     pathID h c (\<lambda>i. unless_managed h (\<lambda>st. GroupMappingManaged st i)
       (act h (DeleteGroupMapping i) (\<lambda>x. reply noContent)))"

end
