(* ===== verification/Api_Approvals.thy ===== *)
theory Api_Approvals
  imports Api_Accounts Coordinates
begin

text \<open>
  The handlers of approvals, version denies and the high-availability status (\<^verbatim>\<open>internal/api/approvals.go\<close>,
  \<^verbatim>\<open>denies.go\<close>, \<^verbatim>\<open>ha.go\<close>). Approvers share the queue; each decision asks for the approve action on the
  repository it is about.
\<close>

section \<open>Documents\<close>

abbreviation EventApprovalApprove :: string where "EventApprovalApprove \<equiv> ''approval.approve''"
abbreviation EventApprovalReject :: string where "EventApprovalReject \<equiv> ''approval.reject''"
abbreviation EventDenyCreate :: string where "EventDenyCreate \<equiv> ''deny.create''"
abbreviation EventDenyDelete :: string where "EventDenyDelete \<equiv> ''deny.delete''"

definition approvalToDTO :: "api \<Rightarrow> package_approval \<Rightarrow> object" where
  "approvalToDTO h a =
     [(''id'', j_nat (ap_id a)), (''repo_name'', JStr (ap_repo_name a)), (''package'', JStr (ap_package a)),
      (''status'', JStr (ap_status a)), (''requested_by'', JStr (ap_requested_by a)), (''decided_by'', JStr (ap_decided_by a)),
      (''note'', JStr (ap_note a)), (''request_count'', j_int (ap_request_count a)),
      (''last_requested_version'', JStr (ap_last_requested_version a)),
      (''first_requested_at'', j_time h (ap_first_requested_at a)), (''last_requested_at'', j_time h (ap_last_requested_at a)),
      (''decided_at'', j_time_opt h (ap_decided_at a))]"

text \<open>Fields marked \<^verbatim>\<open>omitempty\<close> are left out when empty.\<close>

definition omit_empty :: "bool \<Rightarrow> string \<Rightarrow> json \<Rightarrow> object" where
  "omit_empty unset k v = (if unset then [] else [(k, v)])"

definition annotateApprovalVuln :: "api \<Rightarrow> store \<Rightarrow> package_approval \<Rightarrow> string \<Rightarrow> object" where
  "annotateApprovalVuln h st a eco =
     (if eco = [] then []
      else let scope = (if ap_last_requested_version a = [] then ''package'' else ''version'') in
           case GetVulnScan st eco (ap_package a) (ap_last_requested_version a) of
             Inl e \<Rightarrow> []
           | Inr scan \<Rightarrow>
               omit_empty (vs_max_severity scan = []) ''vuln_severity'' (JStr (vs_max_severity scan)) @
               omit_empty (vs_vuln_ids scan = []) ''vuln_ids'' (j_strings (vs_vuln_ids scan)) @
               [(''vuln_scope'', JStr scope)] @
               omit_empty (vs_severity_counts scan = []) ''vuln_counts''
                 (JObj (map (\<lambda>(k, n). (k, j_int n)) (vs_severity_counts scan))) @
               omit_empty (vs_advisories scan = []) ''vuln_advisories''
                 (JArr (map (\<lambda>(i, sev, score). JObj ([(''id'', JStr i), (''severity'', JStr sev)] @
                    omit_empty (score = []) ''score'' (JStr score))) (vs_advisories scan))) @
               omit_empty (vs_source scan = []) ''vuln_source'' (JStr (vs_source scan)) @
               [(''vuln_scanned_at'', j_time h (vs_scanned_at scan))] @
               omit_empty (vs_duration_ms scan = 0) ''vuln_scan_ms'' (j_int (vs_duration_ms scan)))"

section \<open>Approvals\<close>

definition validApprovalStatus :: "string \<Rightarrow> bool" where
  "validApprovalStatus s \<longleftrightarrow> s = ApprovalPending \<or> s = ApprovalApproved \<or> s = ApprovalRejected"

definition canApprove :: "api \<Rightarrow> api_call \<Rightarrow> string \<Rightarrow> (api_state \<Rightarrow> answer) \<Rightarrow> api_state \<Rightarrow> answer" where
  "canApprove h c repo k =
     (if hd_authz h = None then k
      else case rq_principal (ac_req c) of
             None \<Rightarrow> refuse h 403 (''approve permission required for repository '' @ repo)
           | Some p \<Rightarrow> if \<not> Can p repo ActionApprove
                       then refuse h 403 (''approve permission required for repository '' @ repo) else k)"

definition auditApproval :: "api \<Rightarrow> request \<Rightarrow> int \<Rightarrow> package_approval \<Rightarrow> api_state \<Rightarrow> api_state" where
  "auditApproval h r status a =
     record_audit h (api_event r (ap_repo_name a)
       (if ap_status a = ApprovalRejected then EventApprovalReject else EventApprovalApprove) (ap_package a) status)"

definition bad_status :: "headers \<Rightarrow> bool" where
  "bad_status q \<longleftrightarrow> header_get q ''status'' \<noteq> [] \<and> \<not> validApprovalStatus (header_get q ''status'')"

text \<open>The ecosystem of a repository's name; the last row of a name wins, and no name has two.\<close>

definition eco_of :: "store \<Rightarrow> string \<Rightarrow> string" where
  "eco_of st repo =
     (case ListRepositories st of
        Inl e \<Rightarrow> []
      | Inr repos \<Rightarrow> (case List.find (\<lambda>r. r_name r = repo) (rev repos) of
                       None \<Rightarrow> [] | Some r \<Rightarrow> osvEcosystem (r_format r)))"

definition listApprovals :: "api \<Rightarrow> api_call \<Rightarrow> api_state \<Rightarrow> answer" where
  "listApprovals h c =
     (let q = ac_query c; repo = header_get q ''repo''; status = header_get q ''status'' in
      if bad_status q then refuse h 400 ''invalid status (pending|approved|rejected)''
      else query h (\<lambda>st. ListApprovals st repo status (page_limit q) (page_offset q)) (\<lambda>rows.
             query h (\<lambda>st. CountApprovals st repo status) (\<lambda>count s.
               reply (writeJSON h 200 (JObj [(''count'', j_nat count), (''approvals'', JArr (map (\<lambda>a.
                 JObj (approvalToDTO h a @ annotateApprovalVuln h (as_store s) a (eco_of (as_store s) (ap_repo_name a)))) rows))])) s)))"

definition getApproval :: "api \<Rightarrow> api_call \<Rightarrow> api_state \<Rightarrow> answer" where
  "getApproval h c =
     pathID h c (\<lambda>i. query h (\<lambda>st. GetApproval st i) (\<lambda>a s.
       let st = as_store s;
           vuln = (case GetRepositoryByName st (ap_repo_name a) of
                     Inl e \<Rightarrow> [] | Inr repo \<Rightarrow> annotateApprovalVuln h st a (osvEcosystem (r_format repo)));
           reviewers = (case hd_authz h of
                          None \<Rightarrow> []
                        | Some sv \<Rightarrow> (case ApproversFor sv st (ap_repo_name a) of
                                       Inl e \<Rightarrow> [] | Inr us \<Rightarrow> omit_empty (us = []) ''reviewers'' (j_strings us)))
       in reply (writeJSON h 200 (JObj (approvalToDTO h a @ vuln @ reviewers))) s))"

definition countApprovals :: "api \<Rightarrow> api_call \<Rightarrow> api_state \<Rightarrow> answer" where
  "countApprovals h c =
     (let q = ac_query c in
      if bad_status q then refuse h 400 ''invalid status (pending|approved|rejected)''
      else query h (\<lambda>st. CountApprovals st (header_get q ''repo'') (header_get q ''status''))
             (\<lambda>count. reply (writeJSON h 200 (JObj [(''count'', j_nat count)]))))"

text \<open>The proxy repository of the name in the request, once the principal may approve there.\<close>

definition approvable :: "api \<Rightarrow> api_call \<Rightarrow> string \<Rightarrow> string \<Rightarrow> (repository \<Rightarrow> api_state \<Rightarrow> answer) \<Rightarrow> api_state \<Rightarrow> answer" where
  "approvable h c name msg k =
     query h (\<lambda>st. GetRepositoryByName st (trim_space name)) (\<lambda>repo.
       if r_type repo \<noteq> TypeProxy then refuse h 400 msg
       else canApprove h c (r_name repo) (k repo))"

record createApprovalReq =
  aq_repo :: string
  aq_package :: string
  aq_status :: string
  aq_note :: string

definition createApproval :: "api \<Rightarrow> api_call \<Rightarrow> createApprovalReq option \<Rightarrow> api_state \<Rightarrow> answer" where
  "createApproval h c body =
     with_body h ''invalid json body'' body (\<lambda>req.
       let pkg = trim_space (aq_package req) in
       if pkg = [] then refuse h 400 ''package is required''
       else if aq_status req \<noteq> ApprovalApproved \<and> aq_status req \<noteq> ApprovalRejected
       then refuse h 400 ''status must be approved or rejected''
       else approvable h c (aq_repo req) ''approval is only valid for proxy repositories'' (\<lambda>repo.
              act h (UpsertApprovalDecision (hd_now h) (r_name repo) pkg (aq_status req) (principalName (ac_req c)) (aq_note req))
                (\<lambda>a s. reply (writeJSON h 201 (JObj (approvalToDTO h a))) (auditApproval h (ac_req c) 201 a s))))"

text \<open>The repository's name and the note.\<close>

definition approveAllPending :: "api \<Rightarrow> api_call \<Rightarrow> (string \<times> string) option \<Rightarrow> api_state \<Rightarrow> answer" where
  "approveAllPending h c body =
     with_body h ''invalid json body'' body (\<lambda>(name, note).
       approvable h c name ''approval is only valid for proxy repositories'' (\<lambda>repo.
         act h (ApproveAllPending (hd_now h) (r_name repo) (principalName (ac_req c)) note)
           (\<lambda>approved s. reply (writeJSON h 200 (JObj [(''approved'', j_nat (length approved))]))
              (fold (auditApproval h (ac_req c) 200) approved s))))"

text \<open>The note of the optional body; empty when there is none or it does not decode.\<close>

definition decideApproval :: "api \<Rightarrow> api_call \<Rightarrow> string \<Rightarrow> string \<Rightarrow> api_state \<Rightarrow> answer" where
  "decideApproval h c note status =
     pathID h c (\<lambda>i. query h (\<lambda>st. GetApproval st i) (\<lambda>existing.
       canApprove h c (ap_repo_name existing)
         (act h (DecideApproval (hd_now h) i status (principalName (ac_req c)) note) (\<lambda>x.
            query h (\<lambda>st. GetApproval st i) (\<lambda>a s.
              reply (writeJSON h 200 (JObj (approvalToDTO h a))) (auditApproval h (ac_req c) 200 a s))))))"

definition approveApproval :: "api \<Rightarrow> api_call \<Rightarrow> string \<Rightarrow> api_state \<Rightarrow> answer" where
  "approveApproval h c note = decideApproval h c note ApprovalApproved"

definition rejectApproval :: "api \<Rightarrow> api_call \<Rightarrow> string \<Rightarrow> api_state \<Rightarrow> answer" where
  "rejectApproval h c note = decideApproval h c note ApprovalRejected"

section \<open>Version denies\<close>

definition versionDenyToDTO :: "api \<Rightarrow> version_deny \<Rightarrow> json" where
  "versionDenyToDTO h d =
     JObj [(''id'', j_nat (vd_id d)), (''repo_name'', JStr (vd_repo_name d)), (''package'', JStr (vd_package d)),
           (''version'', JStr (vd_version d)), (''reason'', JStr (vd_reason d)), (''created_by'', JStr (vd_created_by d)),
           (''created_at'', j_time h (vd_created_at d))]"

definition auditVersionDeny :: "api \<Rightarrow> request \<Rightarrow> string \<Rightarrow> int \<Rightarrow> version_deny \<Rightarrow> api_state \<Rightarrow> api_state" where
  "auditVersionDeny h r event status d =
     record_audit h (api_event r (vd_repo_name d) event (vd_package d @ ''@'' @ vd_version d) status)"

definition listVersionDenies :: "api \<Rightarrow> api_call \<Rightarrow> api_state \<Rightarrow> answer" where
  "listVersionDenies h c =
     (let q = ac_query c; repo = header_get q ''repo'' in
      query h (\<lambda>st. ListVersionDenies st repo (page_limit q) (page_offset q)) (\<lambda>rows.
        query h (\<lambda>st. CountVersionDenies st repo) (\<lambda>count.
          reply (writeJSON h 200 (JObj [(''count'', j_nat count), (''denies'', JArr (map (versionDenyToDTO h) rows))])))))"

record createVersionDenyReq =
  dq_repo :: string
  dq_package :: string
  dq_version :: string
  dq_reason :: string

definition createVersionDeny :: "api \<Rightarrow> api_call \<Rightarrow> createVersionDenyReq option \<Rightarrow> api_state \<Rightarrow> answer" where
  "createVersionDeny h c body =
     with_body h ''invalid json body'' body (\<lambda>req.
       let pkg = trim_space (dq_package req); version = trim_space (dq_version req) in
       if pkg = [] \<or> version = [] then refuse h 400 ''package and version are required''
       else approvable h c (dq_repo req) ''version denies are only valid for proxy repositories'' (\<lambda>repo.
              act h (UpsertVersionDeny (hd_now h) (r_name repo) pkg version (dq_reason req) (principalName (ac_req c)))
                (\<lambda>d s. reply (writeJSON h 201 (versionDenyToDTO h d)) (auditVersionDeny h (ac_req c) EventDenyCreate 201 d s))))"

definition deleteVersionDeny :: "api \<Rightarrow> api_call \<Rightarrow> api_state \<Rightarrow> answer" where
  "deleteVersionDeny h c =
     pathID h c (\<lambda>i. query h (\<lambda>st. GetVersionDeny st i) (\<lambda>d.
       canApprove h c (vd_repo_name d)
         (act h (DeleteVersionDeny i) (\<lambda>x s. reply noContent (auditVersionDeny h (ac_req c) EventDenyDelete 204 d s)))))"

section \<open>High availability\<close>

text \<open>The provider of the status and the trigger of a failover, when they are wired.\<close>

definition getHAStatus :: "api \<Rightarrow> json option \<Rightarrow> api_state \<Rightarrow> answer" where
  "getHAStatus h haStatus =
     reply (writeJSON h 200 (case haStatus of
        Some v \<Rightarrow> v
      | None \<Rightarrow> JObj [(''enabled'', JBool False), (''mode'', JStr ''single''), (''backend'', JStr ''fs''), (''identity'', JStr []),
          (''leader'', JStr []), (''is_leader'', JBool True), (''role'', JStr ''leader'')]))"

definition stepDownHA :: "api \<Rightarrow> bool option \<Rightarrow> api_state \<Rightarrow> answer" where
  "stepDownHA h haStepDown =
     (case haStepDown of
        None \<Rightarrow> refuse h 409 ''manual failover is unavailable in single-instance mode''
      | Some stepped \<Rightarrow>
          if \<not> stepped then refuse h 409 ''this instance is not the leader; nothing to step down''
          else reply (writeJSON h 200 (JObj [(''status'', JStr ''stepping down'')])))"

end
