(* ===== verification/Api_Repositories.thy ===== *)
theory Api_Repositories
  imports Api_Approvals Listings Group
begin

text \<open>
  The repository handlers (\<^verbatim>\<open>internal/api/repositories.go\<close>): listing and reading for everyone who may read
  a repository, views of permissions, tokens and audit rows for auditors, changes for administrators.
  The JSON of configurations, the texts of their errors, the parser of URLs and the probe of an
  upstream are parameters.
\<close>

section \<open>Parameters and documents\<close>

datatype probe = ProbeBadURL | ProbeFails int string | ProbeStatus int int

record repo_deps =
  rd_unmarshal :: unmarshal
  rd_config_json :: "config \<Rightarrow> string option"
  rd_config_dto :: "config \<Rightarrow> json"
  rd_config_text :: "config_error \<Rightarrow> string"
  rd_member_text :: "member_error \<Rightarrow> string"
  rd_probe :: "string \<Rightarrow> probe"
  rd_url :: "string \<Rightarrow> (string \<times> string) option"

definition toDTO :: "api \<Rightarrow> repo_deps \<Rightarrow> repository \<Rightarrow> config_error + object" where
  "toDTO h d r =
     (case Parse (rd_unmarshal d) (r_config_json r) of
        Inl e \<Rightarrow> Inl e
      | Inr cfg \<Rightarrow> Inr
          [(''id'', j_nat (r_id r)), (''name'', JStr (r_name r)), (''format'', JStr (r_format r)), (''type'', JStr (r_type r)),
           (''upstream_url'', JStr (r_upstream_url r)), (''config'', rd_config_dto d cfg), (''disabled'', JBool (r_disabled r)),
           (''created_at'', j_time h (r_created_at r)), (''updated_at'', j_time h (r_updated_at r))])"

definition config_failed :: "api \<Rightarrow> repo_deps \<Rightarrow> config_error \<Rightarrow> wop list" where
  "config_failed h d e = writeError h 500 (rd_config_text d e)"

definition write_repo :: "api \<Rightarrow> repo_deps \<Rightarrow> int \<Rightarrow> repository \<Rightarrow> api_state \<Rightarrow> answer" where
  "write_repo h d status r =
     (case toDTO h d r of Inl e \<Rightarrow> reply (config_failed h d e) | Inr ob \<Rightarrow> reply (writeJSON h status (JObj ob)))"

section \<open>Reading\<close>

definition may_read :: "api \<Rightarrow> request \<Rightarrow> string \<Rightarrow> bool" where
  "may_read h r repo \<longleftrightarrow>
     hd_authz h = None \<or> (case rq_principal r of None \<Rightarrow> False | Some p \<Rightarrow> Can p repo ActionRead)"

definition canReadRepo :: "api \<Rightarrow> api_call \<Rightarrow> string \<Rightarrow> (api_state \<Rightarrow> answer) \<Rightarrow> api_state \<Rightarrow> answer" where
  "canReadRepo h c repo k = (if may_read h (ac_req c) repo then k else refuse h 403 ''forbidden'')"

fun list_items ::
  "api \<Rightarrow> repo_deps \<Rightarrow> request \<Rightarrow> (nat \<times> nat \<times> int) list \<Rightarrow> (string \<times> nat) list \<Rightarrow> repository list \<Rightarrow> json list \<Rightarrow>
   config_error + json list" where
  "list_items h d r stats pending [] out = Inr out"
| "list_items h d r stats pending (repo # repos) out =
     (if \<not> may_read h r (r_name repo) then list_items h d r stats pending repos out
      else case toDTO h d repo of
             Inl e \<Rightarrow> Inl e
           | Inr ob \<Rightarrow>
               let (count, size) = (case map_of stats (r_id repo) of None \<Rightarrow> (0, 0) | Some x \<Rightarrow> x);
                   waiting = (case map_of pending (r_name repo) of None \<Rightarrow> 0 | Some n \<Rightarrow> n)
               in list_items h d r stats pending repos (out @ [JObj (ob @
                    [(''artifact_count'', j_nat count), (''total_size'', j_int size), (''pending_approval_count'', j_nat waiting)])]))"

definition listRepositories :: "api \<Rightarrow> repo_deps \<Rightarrow> api_call \<Rightarrow> api_state \<Rightarrow> answer" where
  "listRepositories h d c =
     query h ListRepositories (\<lambda>repos. query h AllRepoStats (\<lambda>stats. query h PendingApprovalCountByRepo (\<lambda>pending.
       case list_items h d (ac_req c) stats pending repos [] of
         Inl e \<Rightarrow> reply (config_failed h d e)
       | Inr out \<Rightarrow> reply (writeJSON h 200 (JArr out)))))"

definition listRepositoryNames :: "api \<Rightarrow> api_state \<Rightarrow> answer" where
  "listRepositoryNames h =
     query h ListRepositories (\<lambda>repos. reply (writeJSON h 200 (JArr (map (\<lambda>r.
       JObj [(''name'', JStr (r_name r)), (''format'', JStr (r_format r)), (''type'', JStr (r_type r))]) repos))))"

definition getRepository :: "api \<Rightarrow> repo_deps \<Rightarrow> api_call \<Rightarrow> api_state \<Rightarrow> answer" where
  "getRepository h d c =
     pathID h c (\<lambda>i. query h (\<lambda>st. GetRepository st i) (\<lambda>repo.
       canReadRepo h c (r_name repo) (write_repo h d 200 repo)))"

definition vuln_fields :: "api \<Rightarrow> store \<Rightarrow> repository \<Rightarrow> artifact \<Rightarrow> object" where
  "vuln_fields h st repo a =
     (case VulnCoordinate (r_format repo) (a_path a) of (eco, pkg) \<Rightarrow>
        if pkg = [] then []
        else case GetVulnScan st eco pkg (a_version a) of
               Inl e \<Rightarrow> []
             | Inr scan \<Rightarrow>
                 omit_empty (vs_max_severity scan = []) ''max_severity'' (JStr (vs_max_severity scan)) @
                 omit_empty (vs_vuln_ids scan = []) ''vuln_ids'' (j_strings (vs_vuln_ids scan)) @
                 omit_empty (vs_severity_counts scan = []) ''vuln_counts''
                   (JObj (map (\<lambda>(k, n). (k, j_int n)) (vs_severity_counts scan))) @
                 omit_empty (vs_source scan = []) ''vuln_source'' (JStr (vs_source scan)) @
                 omit_empty (vs_scanned_at scan = 0) ''vuln_scanned_at'' (j_time h (vs_scanned_at scan)))"

definition license_fields :: "api \<Rightarrow> store \<Rightarrow> repository \<Rightarrow> artifact \<Rightarrow> object" where
  "license_fields h st repo a =
     (case LicenseCoordinate (r_format repo) (a_path a) of (system, pkg) \<Rightarrow>
        if pkg = [] then []
        else case GetLicenseScan st system pkg (a_version a) of
               Inl e \<Rightarrow> []
             | Inr ls \<Rightarrow>
                 omit_empty (ls_licenses ls = []) ''licenses'' (j_strings (ls_licenses ls)) @
                 omit_empty (ls_source ls = []) ''license_source'' (JStr (ls_source ls)) @
                 omit_empty (ls_resolved_at ls = 0) ''license_resolved_at'' (j_time h (ls_resolved_at ls)))"

definition artifactDTO :: "api \<Rightarrow> store \<Rightarrow> repository \<Rightarrow> artifact \<Rightarrow> json" where
  "artifactDTO h st repo a =
     JObj ([(''path'', JStr (a_path a)), (''version'', JStr (a_version a)), (''size'', j_int (a_size a)),
            (''content_type'', JStr (a_content_type a)), (''published_at'', j_time_opt h (a_published_at a)),
            (''cached_at'', j_time h (a_cached_at a)), (''last_accessed_at'', j_time h (a_last_accessed_at a))] @
           (if a_version a \<noteq> [] then vuln_fields h st repo a @ license_fields h st repo a else []))"

definition listArtifacts :: "api \<Rightarrow> api_call \<Rightarrow> api_state \<Rightarrow> answer" where
  "listArtifacts h c =
     pathID h c (\<lambda>i. query h (\<lambda>st. GetRepository st i) (\<lambda>repo.
       canReadRepo h c (r_name repo)
         (query h (\<lambda>st. ListRepoArtifacts st i (header_get (ac_query c) ''prefix'') 500) (\<lambda>arts s.
            let st = as_store s;
                count = (case CountArtifacts st i of Inl e \<Rightarrow> 0 | Inr n \<Rightarrow> n);
                size = (case RepoSize st i of Inl e \<Rightarrow> 0 | Inr n \<Rightarrow> n)
            in reply (writeJSON h 200 (JObj [(''count'', j_nat count), (''total_size'', j_int size),
                 (''artifacts'', JArr (map (artifactDTO h st repo) arts))])) s))))"

section \<open>Views for auditors\<close>

definition repositoryPermissions :: "api \<Rightarrow> api_call \<Rightarrow> api_state \<Rightarrow> answer" where
  "repositoryPermissions h c =
     pathID h c (\<lambda>i. query h (\<lambda>st. GetRepository st i) (\<lambda>repo. query h ListRoles (\<lambda>roles.
       query h ListPermissions (\<lambda>perms. query h RolesByUser (\<lambda>rolesBy.
         reply (writeJSON h 200 (JArr (map (\<lambda>p.
           JObj [(''role_id'', j_nat (p_role_id p)),
                 (''role'', JStr (case List.find (\<lambda>r. ro_id r = p_role_id p) roles of None \<Rightarrow> [] | Some r \<Rightarrow> ro_name r)),
                 (''repo_pattern'', JStr (p_repo_pattern p)), (''actions'', j_strings (split_on (CHR '','') (p_actions p))),
                 (''user_count'', j_nat (user_count rolesBy (p_role_id p)))])
           (filter (\<lambda>p. MatchRepoPattern (p_repo_pattern p) (r_name repo)) perms)))))))))"

definition token_entry :: "api \<Rightarrow> (nat \<Rightarrow> string) \<Rightarrow> string \<Rightarrow> token \<Rightarrow> json list" where
  "token_entry h owner repo t =
     (let scopes = (if t_scopes_json t = [] then [] else cr_scopes (hd_crypto h) (t_scopes_json t));
          hits = filter (\<lambda>sc. MatchRepoPattern (s_repo_pattern sc) repo) scopes;
          matched = (if hits = [] then [] else s_repo_pattern (last hits));
          actions = remdups (rev (concat (map s_actions hits)));
          entry = (\<lambda>pat as unscoped. JObj
            [(''token_id'', j_nat (t_id t)), (''name'', JStr (t_name t)), (''owner'', JStr (owner (t_user_id t))),
             (''repo_pattern'', JStr pat), (''actions'', as), (''unscoped'', JBool unscoped),
             (''expires_at'', j_time_opt h (t_expires_at t)), (''last_used_at'', j_time_opt h (t_last_used_at t))])
      in if scopes = [] then [entry ''*'' JNull True]
         else if matched = [] then []
         else [entry matched (if actions = [] then JNull else j_strings (rev actions)) False])"

definition repositoryTokens :: "api \<Rightarrow> api_call \<Rightarrow> api_state \<Rightarrow> answer" where
  "repositoryTokens h c =
     pathID h c (\<lambda>i. query h (\<lambda>st. GetRepository st i) (\<lambda>repo. query h ListAllTokens (\<lambda>tokens. query h ListUsers (\<lambda>users.
       let owner = (\<lambda>uid. case List.find (\<lambda>u. u_id u = uid) users of None \<Rightarrow> [] | Some u \<Rightarrow> u_username u)
       in reply (writeJSON h 200 (JArr (concat (map (token_entry h owner (r_name repo)) tokens))))))))"

definition listAuditLogs :: "api \<Rightarrow> api_call \<Rightarrow> api_state \<Rightarrow> answer" where
  "listAuditLogs h c =
     pathID h c (\<lambda>i. query h (\<lambda>st. GetRepository st i) (\<lambda>repo.
       let q = ac_query c; event = header_get q ''event'' in
       query h (\<lambda>st. ListAuditLogs st (r_name repo) event (page_limit q) (page_offset q)) (\<lambda>logs.
         query h (\<lambda>st. CountAuditLogs st (r_name repo) event) (\<lambda>count.
           reply (writeJSON h 200 (JObj [(''count'', j_nat count), (''logs'', JArr (map (\<lambda>l.
             JObj [(''id'', j_nat (al_id l)), (''event'', JStr (al_event l)), (''path'', JStr (al_path l)),
                   (''username'', JStr (al_username l)), (''method'', JStr (al_method l)), (''status'', j_int (al_status l)),
                   (''client_ip'', JStr (al_client_ip l)), (''user_agent'', JStr (al_user_agent l)),
                   (''created_at'', j_time h (al_created_at l))]) logs))]))))))"

definition probeUpstream :: "repo_deps \<Rightarrow> string \<Rightarrow> json" where
  "probeUpstream d url =
     (case rd_probe d url of
        ProbeBadURL \<Rightarrow> JObj [(''applicable'', JBool True), (''reachable'', JBool False), (''error'', JStr ''bad upstream url'')]
      | ProbeFails ms err \<Rightarrow> JObj [(''applicable'', JBool True), (''reachable'', JBool False), (''latency_ms'', j_int ms), (''error'', JStr err)]
      | ProbeStatus code ms \<Rightarrow> JObj [(''applicable'', JBool True), (''reachable'', JBool True), (''status'', j_int code), (''latency_ms'', j_int ms)])"

definition upstreamHealth :: "api \<Rightarrow> repo_deps \<Rightarrow> api_call \<Rightarrow> api_state \<Rightarrow> answer" where
  "upstreamHealth h d c =
     pathID h c (\<lambda>i. query h (\<lambda>st. GetRepository st i) (\<lambda>repo.
       if r_type repo \<noteq> TypeProxy \<or> r_upstream_url repo = []
       then reply (writeJSON h 200 (JObj [(''applicable'', JBool False)]))
       else reply (writeJSON h 200 (probeUpstream d (r_upstream_url repo)))))"

section \<open>Changes\<close>

record createRepositoryReq =
  rq_c_name :: string
  rq_c_format :: string
  rq_c_type :: string
  rq_c_upstream_url :: string
  rq_c_config :: "config option"

definition validFormats :: "string \<Rightarrow> bool" where
  "validFormats f \<longleftrightarrow> f \<in> {FormatMaven, FormatNPM, FormatCargo, FormatGo, FormatPyPI}"

text \<open>The checks a configuration passes before it is stored with a repository of a format and a type.\<close>

definition check_config ::
  "api \<Rightarrow> repo_deps \<Rightarrow> string \<Rightarrow> string \<Rightarrow> config \<Rightarrow> (api_state \<Rightarrow> answer) \<Rightarrow> api_state \<Rightarrow> answer" where
  "check_config h d format typ cfg k s =
     (if typ = TypeGroup then
        (case ValidateGroupMembers (as_store s) format (c_group_members cfg) of
           Some e \<Rightarrow> refuse h 400 (rd_member_text d e) s
         | None \<Rightarrow> if apc_enabled (c_approval cfg) then refuse h 400 ''approval is only valid for proxy repositories'' s
                   else k s)
      else if c_group_members cfg \<noteq> [] then refuse h 400 ''group members are only valid for group repositories'' s
      else if apc_enabled (c_approval cfg) \<and> typ \<noteq> TypeProxy
      then refuse h 400 ''approval is only valid for proxy repositories'' s
      else k s)"

definition createRepository :: "api \<Rightarrow> repo_deps \<Rightarrow> api_call \<Rightarrow> createRepositoryReq option \<Rightarrow> api_state \<Rightarrow> answer" where
  "createRepository h d c body =
     with_body h ''invalid json body'' body (\<lambda>req.
       let name = trim_space (rq_c_name req); typ = rq_c_type req;
           cfg = (case rq_c_config req of None \<Rightarrow> Default | Some x \<Rightarrow> x);
           url = (if typ = TypeGroup then [] else rq_c_upstream_url req)
       in if \<not> validName name then refuse h 400 (''invalid repository name: '' @ nameRuleMsg)
          else if \<not> validFormats (rq_c_format req) then refuse h 400 ''invalid format''
          else if typ \<noteq> TypeHosted \<and> typ \<noteq> TypeProxy \<and> typ \<noteq> TypeGroup then refuse h 400 ''invalid type (hosted|proxy|group)''
          else if typ = TypeProxy \<and> trim_space (rq_c_upstream_url req) = []
          then refuse h 400 ''proxy repository requires upstream_url''
          else case Validate cfg of
                 Some e \<Rightarrow> refuse h 400 (rd_config_text d e)
               | None \<Rightarrow> check_config h d (rq_c_format req) typ cfg
                   (case rd_config_json d cfg of
                      None \<Rightarrow> reply (otherError h)
                    | Some cfgJSON \<Rightarrow>
                        act_unique h ''repository name already exists''
                          (CreateRepository (hd_now h)
                             \<lparr>r_id = 0, r_name = name, r_format = rq_c_format req, r_type = typ, r_upstream_url = trim_space url,
                              r_config_json = cfgJSON, r_created_at = 0, r_updated_at = 0, r_disabled = False\<rparr>)
                          (\<lambda>repo. case toDTO h d repo of
                              Inl e \<Rightarrow> reply (config_failed h d e)
                            | Inr ob \<Rightarrow> (\<lambda>s. reply (writeJSON h 201 (JObj ob))
                                (api_audit h (ac_req c) (r_name repo) EventRepoCreate 201 s)))))"

text \<open>The decoded body: the upstream and the configuration.\<close>

definition updateRepository :: "api \<Rightarrow> repo_deps \<Rightarrow> api_call \<Rightarrow> (string \<times> config) option \<Rightarrow> api_state \<Rightarrow> answer" where
  "updateRepository h d c body =
     pathID h c (\<lambda>i. with_body h ''invalid json body'' body (\<lambda>(url, cfg).
       case Validate cfg of
         Some e \<Rightarrow> refuse h 400 (rd_config_text d e)
       | None \<Rightarrow> query h (\<lambda>st. GetRepository st i) (\<lambda>existing.
           check_config h d (r_format existing) (r_type existing) cfg
             (if r_type existing = TypeProxy \<and> trim_space url = []
              then refuse h 400 ''proxy repository requires upstream_url''
              else case rd_config_json d cfg of
                     None \<Rightarrow> reply (otherError h)
                   | Some cfgJSON \<Rightarrow>
                       act h (UpdateRepositoryConfig (hd_now h) i (trim_space url) cfgJSON) (\<lambda>x.
                         query h (\<lambda>st. GetRepository st i) (\<lambda>repo.
                           case toDTO h d repo of
                             Inl e \<Rightarrow> reply (config_failed h d e)
                           | Inr ob \<Rightarrow> (\<lambda>s. reply (writeJSON h 200 (JObj ob))
                               (api_audit h (ac_req c) (r_name repo) EventRepoUpdate 200 s))))))))"

definition setRepositoryDisabled :: "api \<Rightarrow> repo_deps \<Rightarrow> api_call \<Rightarrow> bool option \<Rightarrow> api_state \<Rightarrow> answer" where
  "setRepositoryDisabled h d c body =
     pathID h c (\<lambda>i. with_body h ''invalid json body'' body (\<lambda>disabled.
       query h (\<lambda>st. GetRepository st i) (\<lambda>repo.
         act h (SetRepositoryDisabled (hd_now h) i disabled) (\<lambda>x s.
           query h (\<lambda>st. GetRepository st i) (write_repo h d 200)
             (api_audit h (ac_req c) (r_name repo) EventRepoUpdate 200 s)))))"

definition auditArtifact :: "api \<Rightarrow> request \<Rightarrow> string \<Rightarrow> string \<Rightarrow> int \<Rightarrow> api_state \<Rightarrow> api_state" where
  "auditArtifact h r repo path status = record_audit h (api_event r repo EventDelete path status)"

definition deleteArtifact :: "api \<Rightarrow> api_call \<Rightarrow> api_state \<Rightarrow> answer" where
  "deleteArtifact h c =
     pathID h c (\<lambda>i. query h (\<lambda>st. GetRepository st i) (\<lambda>repo.
       let path = trim_space (header_get (ac_query c) ''path'') in
       if path = [] then
         act h (PurgeArtifacts i) (\<lambda>n s. reply (writeJSON h 200 (JObj [(''deleted'', j_nat n)]))
           (auditArtifact h (ac_req c) (r_name repo) ''(all artifacts)'' 200 s))
       else act h (DeleteArtifact i path) (\<lambda>x s. reply noContent (auditArtifact h (ac_req c) (r_name repo) path 204 s))))"

definition checkUpstream :: "api \<Rightarrow> repo_deps \<Rightarrow> string option \<Rightarrow> api_state \<Rightarrow> answer" where
  "checkUpstream h d body =
     with_body h ''invalid json body'' body (\<lambda>url.
       let raw = trim_space url in
       if raw = [] then refuse h 400 ''url is required''
       else if (case rd_url d raw of None \<Rightarrow> True | Some (scheme, host) \<Rightarrow> scheme \<notin> {''http'', ''https''} \<or> host = [])
       then reply (writeJSON h 200 (JObj [(''applicable'', JBool True), (''reachable'', JBool False),
              (''error'', JStr ''url must be http(s) with a host'')]))
       else reply (writeJSON h 200 (probeUpstream d raw)))"

text \<open>Failures to remove the approvals and the denies are logged only.\<close>

definition forget_decisions :: "string \<Rightarrow> store \<Rightarrow> store" where
  "forget_decisions name st = snd (DeleteVersionDeniesForRepo name (snd (DeleteApprovalsForRepo name st)))"

definition deleteRepository :: "api \<Rightarrow> api_call \<Rightarrow> api_state \<Rightarrow> answer" where
  "deleteRepository h c =
     pathID h c (\<lambda>i. query h (\<lambda>st. GetRepository st i) (\<lambda>repo.
       act h (DeleteRepository i) (\<lambda>x s.
         reply noContent (api_audit h (ac_req c) (r_name repo) EventRepoDelete 204
           (s\<lparr>as_store := forget_decisions (r_name repo) (as_store s)\<rparr>)))))"

end
