(* ===== verification/Api_Notifications.thy ===== *)
theory Api_Notifications
  imports Api_Repositories
begin

text \<open>
  Outgoing alarms (\<^verbatim>\<open>internal/notify/webhook.go\<close>, the callback of \<^verbatim>\<open>cmd/forklift/main.go\<close>) and the handlers
  that manage and test their receivers (\<^verbatim>\<open>internal/api/notifications.go\<close>). The network is a function from
  an address and a document to a transport error or a status; quoting a string as \<^verbatim>\<open>%q\<close> does is a
  parameter.
\<close>

section \<open>The notifier\<close>

record notifier =
  nt_post :: "string \<Rightarrow> json \<Rightarrow> string + int"
  nt_quote :: "string \<Rightarrow> string"
  nt_time :: "instant \<Rightarrow> string"
  nt_status_error :: "int \<Rightarrow> string"

type_synonym target = "string \<times> string"

definition package_sign :: string where
  "package_sign = [CHR 0xF0, CHR 0x9F, CHR 0x93, CHR 0xA6]"

definition check_sign :: string where
  "check_sign = [CHR 0xE2, CHR 0x9C, CHR 0x85]"

definition who :: "string \<Rightarrow> string" where
  "who requestedBy = (if requestedBy = [] then ''anonymous'' else requestedBy)"

definition ApprovalPayload :: "notifier \<Rightarrow> instant \<Rightarrow> string \<Rightarrow> string \<Rightarrow> string \<Rightarrow> string \<Rightarrow> string \<Rightarrow> json" where
  "ApprovalPayload n now txt repo pkg version requestedBy =
     JObj ([(''text'', JStr txt), (''event'', JStr ''approval.request''), (''repository'', JStr repo), (''package'', JStr pkg)] @
           omit_empty (version = []) ''version'' (JStr version) @
           omit_empty (requestedBy = []) ''requested_by'' (JStr requestedBy) @ [(''timestamp'', JStr (nt_time n now))])"

definition request_text :: "notifier \<Rightarrow> string \<Rightarrow> string \<Rightarrow> string \<Rightarrow> string \<Rightarrow> string" where
  "request_text n repo pkg version requestedBy =
     package_sign @ '' Package pending approval: '' @ (if version \<noteq> [] then pkg @ ''@'' @ version else pkg) @ '' in repo '' @
     nt_quote n repo @ '' (requested by '' @ who requestedBy @ '')''"

text \<open>The deliveries that are started, one per target with an address; their outcome is logged only.\<close>

definition NotifyApprovalRequest ::
  "notifier option \<Rightarrow> instant \<Rightarrow> target list \<Rightarrow> string \<Rightarrow> string \<Rightarrow> string \<Rightarrow> string \<Rightarrow> (string \<times> json) list" where
  "NotifyApprovalRequest n now targets repo pkg version requestedBy =
     (case n of
        None \<Rightarrow> []
      | Some nt \<Rightarrow>
          map (\<lambda>t. (snd t, ApprovalPayload nt now (request_text nt repo pkg version requestedBy) repo pkg version requestedBy))
            (filter (\<lambda>t. snd t \<noteq> []) targets))"

text \<open>The callback the manager is given: the selected receivers that are enabled.\<close>

definition approval_targets :: "string list \<Rightarrow> receiver list \<Rightarrow> target list" where
  "approval_targets receivers enabled =
     map (\<lambda>r. (rv_name r, rv_webhook_url r)) (filter (\<lambda>r. rv_name r \<in> set receivers) enabled)"

definition on_approval ::
  "notifier option \<Rightarrow> instant \<Rightarrow> store \<Rightarrow> string \<Rightarrow> string \<Rightarrow> string \<Rightarrow> string \<Rightarrow> string list \<Rightarrow> (string \<times> json) list" where
  "on_approval n now st repo pkg version requestedBy receivers =
     (if receivers = [] then []
      else case ListEnabledReceivers st of
             Inl e \<Rightarrow> []
           | Inr recs \<Rightarrow> NotifyApprovalRequest n now (approval_targets receivers recs) repo pkg version requestedBy)"

text \<open>A synchronous delivery: \<open>None\<close> is success.\<close>

definition deliver :: "notifier \<Rightarrow> string \<Rightarrow> json \<Rightarrow> string option" where
  "deliver n url payload =
     (case nt_post n url payload of
        Inl err \<Rightarrow> Some err
      | Inr code \<Rightarrow> if 300 \<le> code then Some (nt_status_error n code) else None)"

definition SendTest :: "notifier \<Rightarrow> instant \<Rightarrow> string \<Rightarrow> string \<Rightarrow> string option" where
  "SendTest n now name url =
     deliver n url (JObj [(''text'', JStr (check_sign @ '' Forklift test notification for receiver '' @ nt_quote n name @ ''.'')),
       (''event'', JStr ''test''), (''timestamp'', JStr (nt_time n now))])"

definition BuildApprovalSample :: "notifier \<Rightarrow> instant \<Rightarrow> string \<Rightarrow> string \<Rightarrow> json" where
  "BuildApprovalSample n now repo requestedBy =
     ApprovalPayload n now
       (package_sign @ '' [SAMPLE] Package pending approval: com.example:sample@1.0.0 in repo '' @ nt_quote n repo @
        '' (requested by '' @ who requestedBy @ ''). This is a forklift notification test.'')
       repo ''com.example:sample'' ''1.0.0'' requestedBy"

definition SendApprovalPayload :: "notifier \<Rightarrow> string \<Rightarrow> json \<Rightarrow> string option" where
  "SendApprovalPayload n url payload = deliver n url payload"

section \<open>Receivers\<close>

text \<open>The address is never shown, only whether there is one.\<close>

definition toReceiverDTO :: "api \<Rightarrow> (instant \<Rightarrow> string) \<Rightarrow> receiver \<Rightarrow> json" where
  "toReceiverDTO h fmt r =
     JObj [(''id'', j_nat (rv_id r)), (''name'', JStr (rv_name r)), (''description'', JStr (rv_description r)),
           (''webhook_configured'', JBool (rv_webhook_url r \<noteq> [])), (''enabled'', JBool (rv_enabled r)),
           (''created_by'', JStr (rv_created_by r)), (''created_at'', JStr (fmt (rv_created_at r))),
           (''updated_at'', JStr (fmt (rv_updated_at r)))]"

record receiverReq =
  vq_name :: string
  vq_description :: string
  vq_webhook_url :: string
  vq_enabled :: "bool option"

definition validWebhookURL :: "(string \<Rightarrow> (string \<times> string) option) \<Rightarrow> string \<Rightarrow> bool" where
  "validWebhookURL parse s \<longleftrightarrow>
     (case parse (trim_space s) of None \<Rightarrow> False | Some (scheme, host) \<Rightarrow> scheme \<in> {''http'', ''https''} \<and> host \<noteq> [])"

text \<open>The parser of request addresses, the layout of times, and the notifier when there is one.\<close>

record notify_deps =
  nd_url :: "string \<Rightarrow> (string \<times> string) option"
  nd_time :: "instant \<Rightarrow> string"
  nd_notifier :: "notifier option"

definition listReceivers :: "api \<Rightarrow> notify_deps \<Rightarrow> api_state \<Rightarrow> answer" where
  "listReceivers h n =
     query h ListReceivers (\<lambda>recs. reply (writeJSON h 200 (JArr (map (toReceiverDTO h (nd_time n)) recs))))"

definition given_enabled :: "receiverReq \<Rightarrow> bool" where
  "given_enabled req = (case vq_enabled req of None \<Rightarrow> True | Some b \<Rightarrow> b)"

definition receiver_row :: "nat \<Rightarrow> receiverReq \<Rightarrow> string \<Rightarrow> string \<Rightarrow> receiver" where
  "receiver_row i req url by =
     \<lparr>rv_id = i, rv_name = trim_space (vq_name req), rv_description = trim_space (vq_description req), rv_webhook_url = url,
      rv_enabled = given_enabled req, rv_created_by = by, rv_created_at = 0, rv_updated_at = 0\<rparr>"

definition createReceiver :: "api \<Rightarrow> notify_deps \<Rightarrow> api_call \<Rightarrow> receiverReq option \<Rightarrow> api_state \<Rightarrow> answer" where
  "createReceiver h n c body =
     with_body h ''invalid body'' body (\<lambda>req.
       if \<not> validName (trim_space (vq_name req)) then refuse h 400 (''invalid receiver name: '' @ nameRuleMsg)
       else if \<not> validWebhookURL (nd_url n) (vq_webhook_url req)
       then refuse h 400 ''webhook_url must be an absolute http(s) URL''
       else act h (CreateReceiver (hd_now h) (receiver_row 0 req (trim_space (vq_webhook_url req)) (principalName (ac_req c))))
              (\<lambda>rec. reply (writeJSON h 201 (toReceiverDTO h (nd_time n) rec))))"

definition updateReceiver :: "api \<Rightarrow> notify_deps \<Rightarrow> api_call \<Rightarrow> receiverReq option \<Rightarrow> api_state \<Rightarrow> answer" where
  "updateReceiver h n c body =
     pathID h c (\<lambda>i. with_body h ''invalid body'' body (\<lambda>req.
       if \<not> validName (trim_space (vq_name req)) then refuse h 400 (''invalid receiver name: '' @ nameRuleMsg)
       else query h (\<lambda>st. GetReceiver st i) (\<lambda>existing.
         let v = trim_space (vq_webhook_url req) in
         if v \<noteq> [] \<and> \<not> validWebhookURL (nd_url n) v then refuse h 400 ''webhook_url must be an absolute http(s) URL''
         else act h (UpdateReceiver (hd_now h) (receiver_row i req (if v \<noteq> [] then v else rv_webhook_url existing) []))
                (\<lambda>rec. reply (writeJSON h 200 (toReceiverDTO h (nd_time n) rec))))))"

definition deleteReceiver :: "api \<Rightarrow> api_call \<Rightarrow> api_state \<Rightarrow> answer" where
  "deleteReceiver h c = pathID h c (\<lambda>i. act h (DeleteReceiver i) (\<lambda>x. reply noContent))"

text \<open>The answer to a delivery that was asked for.\<close>

definition test_result :: "api \<Rightarrow> notify_deps \<Rightarrow> string \<Rightarrow> string \<Rightarrow> api_state \<Rightarrow> answer" where
  "test_result h n name url =
     (case nd_notifier n of
        None \<Rightarrow> refuse h 503 ''notifications are not configured''
      | Some nt \<Rightarrow>
          (case SendTest nt (hd_now h) name url of
             Some err \<Rightarrow> refuse h 502 (''test delivery failed: '' @ err)
           | None \<Rightarrow> reply (writeJSON h 200 (JObj [(''status'', JStr ''sent'')]))))"

definition testReceiver :: "api \<Rightarrow> notify_deps \<Rightarrow> api_call \<Rightarrow> api_state \<Rightarrow> answer" where
  "testReceiver h n c =
     pathID h c (\<lambda>i. query h (\<lambda>st. GetReceiver st i) (\<lambda>rec.
       if rv_webhook_url rec = [] then refuse h 400 ''this receiver has no webhook URL configured''
       else test_result h n (rv_name rec) (rv_webhook_url rec)))"

text \<open>The body holds the address and a name.\<close>

definition testWebhookAdhoc :: "api \<Rightarrow> notify_deps \<Rightarrow> (string \<times> string) option \<Rightarrow> api_state \<Rightarrow> answer" where
  "testWebhookAdhoc h n body =
     with_body h ''invalid body'' body (\<lambda>(addr, name0).
       let url = trim_space addr; name = trim_space name0 in
       if \<not> validWebhookURL (nd_url n) url then refuse h 400 ''webhook_url must be an absolute http(s) URL''
       else test_result h n (if name = [] then ''new receiver'' else name) url)"

section \<open>Samples\<close>

definition receiver_named :: "receiver list \<Rightarrow> string \<Rightarrow> receiver option" where
  "receiver_named recs name = List.find (\<lambda>r. rv_name r = name) (rev recs)"

definition sample_info :: "receiver list \<Rightarrow> string \<Rightarrow> json" where
  "sample_info recs name =
     (let rec = receiver_named recs name in
      JObj [(''name'', JStr name), (''exists'', JBool (rec \<noteq> None)),
            (''enabled'', JBool (case rec of None \<Rightarrow> False | Some r \<Rightarrow> rv_enabled r))])"

definition sample_targets :: "receiver list \<Rightarrow> string list \<Rightarrow> target list" where
  "sample_targets recs sel =
     map (\<lambda>r. (rv_name r, rv_webhook_url r))
       (filter (\<lambda>r. rv_enabled r \<and> rv_webhook_url r \<noteq> []) (List.map_filter (receiver_named recs) sel))"

definition repoSampleTargets ::
  "api \<Rightarrow> repo_deps \<Rightarrow> nat \<Rightarrow> (string \<times> json list \<times> target list \<Rightarrow> api_state \<Rightarrow> answer) \<Rightarrow> api_state \<Rightarrow> answer" where
  "repoSampleTargets h d i k =
     query h (\<lambda>st. GetRepository st i) (\<lambda>repo.
       case Parse (rd_unmarshal d) (r_config_json repo) of
         Inl e \<Rightarrow> reply (config_failed h d e)
       | Inr cfg \<Rightarrow> query h ListReceivers (\<lambda>recs.
           k (r_name repo, map (sample_info recs) (c_notify_receivers cfg), sample_targets recs (c_notify_receivers cfg))))"

definition previewRepoSample :: "api \<Rightarrow> repo_deps \<Rightarrow> notify_deps \<Rightarrow> api_call \<Rightarrow> api_state \<Rightarrow> answer" where
  "previewRepoSample h d n c =
     pathID h c (\<lambda>i.
       case nd_notifier n of
         None \<Rightarrow> refuse h 503 ''notifications are not configured''
       | Some nt \<Rightarrow> repoSampleTargets h d i (\<lambda>(name, info, targets).
           reply (writeJSON h 200 (JObj [(''payload'', BuildApprovalSample nt (hd_now h) name (principalName (ac_req c))),
             (''receivers'', if info = [] then JNull else JArr info)]))))"

definition sample_result :: "notifier \<Rightarrow> json \<Rightarrow> target \<Rightarrow> json" where
  "sample_result nt payload t =
     (case SendApprovalPayload nt (snd t) payload of
        Some err \<Rightarrow> JObj ([(''name'', JStr (fst t)), (''ok'', JBool False)] @ omit_empty (err = []) ''error'' (JStr err))
      | None \<Rightarrow> JObj [(''name'', JStr (fst t)), (''ok'', JBool True)])"

definition sendRepoSample :: "api \<Rightarrow> repo_deps \<Rightarrow> notify_deps \<Rightarrow> api_call \<Rightarrow> api_state \<Rightarrow> answer" where
  "sendRepoSample h d n c =
     pathID h c (\<lambda>i.
       case nd_notifier n of
         None \<Rightarrow> refuse h 503 ''notifications are not configured''
       | Some nt \<Rightarrow> repoSampleTargets h d i (\<lambda>(name, info, targets).
           if targets = [] then refuse h 400 ''no enabled receivers are selected for this repository''
           else let payload = BuildApprovalSample nt (hd_now h) name (principalName (ac_req c))
                in reply (writeJSON h 200 (JObj [(''results'', JArr (map (sample_result nt payload) targets))]))))"

end
