(* ===== verification/Api_Routes.thy ===== *)
theory Api_Routes
  imports Api_Notifications
begin

text \<open>
  The routes of the management API (\<^verbatim>\<open>Handler.Routes\<close> of \<^verbatim>\<open>internal/api/api.go\<close>): every endpoint with the
  group of guards it is registered under, and what the guards and handlers together allow. An endpoint
  carries the decoded body of its request.
\<close>

section \<open>Endpoints\<close>

text \<open>One type per group of routes: public, authenticated, approvers, auditors, administrators.\<close>

datatype public_endpoint =
    EpLogin "loginReq option" | EpLogout | EpMe | EpVersion string string

datatype user_endpoint =
    EpListTokens | EpCreateToken "createTokenReq option" | EpDeleteToken | EpRepositoryNames | EpListRepositories
  | EpGetRepository | EpListArtifacts

datatype approver_endpoint =
    EpListApprovals | EpCountApprovals | EpGetApproval | EpCreateApproval "createApprovalReq option"
  | EpApproveAll "(string \<times> string) option" | EpApprove string | EpReject string | EpListDenies
  | EpCreateDeny "createVersionDenyReq option" | EpDeleteDeny

datatype auditor_endpoint =
    EpUpstreamHealth | EpAuditLogs | EpRepoPermissions | EpRepoTokens | EpListUsers | EpListUserTokens
  | EpListRoles | EpListMappings | EpListReceivers

datatype admin_endpoint =
    EpHAStatus "json option" | EpStepDown "bool option" | EpCreateRepository "createRepositoryReq option"
  | EpCheckUpstream "string option" | EpUpdateRepository "(string \<times> config) option"
  | EpSetDisabled "bool option" | EpDeleteRepository | EpDeleteArtifact | EpCreateUser "createUserReq option"
  | EpUpdateUser "updateUserReq option" | EpDeleteUser | EpAssignRole "int option" | EpRemoveRole
  | EpCreateUserToken "createTokenReq option" | EpDeleteUserToken | EpCreateRole "createRoleReq option"
  | EpDeleteRole | EpAddPermission "addPermissionReq option" | EpDeletePermission
  | EpCreateMapping "createGroupMappingReq option" | EpDeleteMapping | EpCreateReceiver "receiverReq option"
  | EpUpdateReceiver "receiverReq option" | EpDeleteReceiver | EpTestReceiver
  | EpTestWebhook "(string \<times> string) option" | EpPreviewSample | EpSendSample

datatype api_endpoint =
    PublicEp public_endpoint | UserEp user_endpoint | ApproverEp approver_endpoint | AuditorEp auditor_endpoint
  | AdminEp admin_endpoint

definition guard_check :: "api \<Rightarrow> api_endpoint \<Rightarrow> request \<Rightarrow> wop list option" where
  "guard_check h ep r =
     (if hd_authz h = None then None
      else case ep of
             PublicEp e \<Rightarrow> None | UserEp e \<Rightarrow> RequireAuth r | ApproverEp e \<Rightarrow> RequireApprover r
           | AuditorEp e \<Rightarrow> RequireAuditor r | AdminEp e \<Rightarrow> RequireAdmin r)"

fun public_handle :: "api \<Rightarrow> api_call \<Rightarrow> public_endpoint \<Rightarrow> api_state \<Rightarrow> answer" where
  "public_handle h c (EpLogin b) = login h c b"
| "public_handle h c EpLogout = logout"
| "public_handle h c EpMe = me h c"
| "public_handle h c (EpVersion v w) = api_version h v w"

fun user_handle :: "api \<Rightarrow> repo_deps \<Rightarrow> api_call \<Rightarrow> user_endpoint \<Rightarrow> api_state \<Rightarrow> answer" where
  "user_handle h d c EpListTokens = listTokens h c"
| "user_handle h d c (EpCreateToken b) = createToken h c b"
| "user_handle h d c EpDeleteToken = deleteToken h c"
| "user_handle h d c EpRepositoryNames = listRepositoryNames h"
| "user_handle h d c EpListRepositories = listRepositories h d c"
| "user_handle h d c EpGetRepository = getRepository h d c"
| "user_handle h d c EpListArtifacts = listArtifacts h c"

fun approver_handle :: "api \<Rightarrow> api_call \<Rightarrow> approver_endpoint \<Rightarrow> api_state \<Rightarrow> answer" where
  "approver_handle h c EpListApprovals = listApprovals h c"
| "approver_handle h c EpCountApprovals = countApprovals h c"
| "approver_handle h c EpGetApproval = getApproval h c"
| "approver_handle h c (EpCreateApproval b) = createApproval h c b"
| "approver_handle h c (EpApproveAll b) = approveAllPending h c b"
| "approver_handle h c (EpApprove note) = approveApproval h c note"
| "approver_handle h c (EpReject note) = rejectApproval h c note"
| "approver_handle h c EpListDenies = listVersionDenies h c"
| "approver_handle h c (EpCreateDeny b) = createVersionDeny h c b"
| "approver_handle h c EpDeleteDeny = deleteVersionDeny h c"

fun auditor_handle :: "api \<Rightarrow> repo_deps \<Rightarrow> notify_deps \<Rightarrow> api_call \<Rightarrow> auditor_endpoint \<Rightarrow> api_state \<Rightarrow> answer" where
  "auditor_handle h d n c EpUpstreamHealth = upstreamHealth h d c"
| "auditor_handle h d n c EpAuditLogs = listAuditLogs h c"
| "auditor_handle h d n c EpRepoPermissions = repositoryPermissions h c"
| "auditor_handle h d n c EpRepoTokens = repositoryTokens h c"
| "auditor_handle h d n c EpListUsers = listUsers h"
| "auditor_handle h d n c EpListUserTokens = listUserTokens h c"
| "auditor_handle h d n c EpListRoles = listRoles h"
| "auditor_handle h d n c EpListMappings = listGroupMappings h"
| "auditor_handle h d n c EpListReceivers = listReceivers h n"

fun admin_handle :: "api \<Rightarrow> repo_deps \<Rightarrow> notify_deps \<Rightarrow> api_call \<Rightarrow> admin_endpoint \<Rightarrow> api_state \<Rightarrow> answer" where
  "admin_handle h d n c (EpHAStatus v) = getHAStatus h v"
| "admin_handle h d n c (EpStepDown b) = stepDownHA h b"
| "admin_handle h d n c (EpCreateRepository b) = createRepository h d c b"
| "admin_handle h d n c (EpCheckUpstream b) = checkUpstream h d b"
| "admin_handle h d n c (EpUpdateRepository b) = updateRepository h d c b"
| "admin_handle h d n c (EpSetDisabled b) = setRepositoryDisabled h d c b"
| "admin_handle h d n c EpDeleteRepository = deleteRepository h c"
| "admin_handle h d n c EpDeleteArtifact = deleteArtifact h c"
| "admin_handle h d n c (EpCreateUser b) = createUser h b"
| "admin_handle h d n c (EpUpdateUser b) = updateUser h c b"
| "admin_handle h d n c EpDeleteUser = deleteUser h c"
| "admin_handle h d n c (EpAssignRole b) = api_assignRole h c b"
| "admin_handle h d n c EpRemoveRole = api_removeRole h c"
| "admin_handle h d n c (EpCreateUserToken b) = createUserToken h c b"
| "admin_handle h d n c EpDeleteUserToken = deleteUserToken h c"
| "admin_handle h d n c (EpCreateRole b) = createRole h b"
| "admin_handle h d n c EpDeleteRole = deleteRole h c"
| "admin_handle h d n c (EpAddPermission b) = addPermission h c b"
| "admin_handle h d n c EpDeletePermission = deletePermission h c"
| "admin_handle h d n c (EpCreateMapping b) = createGroupMapping h b"
| "admin_handle h d n c EpDeleteMapping = deleteGroupMapping h c"
| "admin_handle h d n c (EpCreateReceiver b) = createReceiver h n c b"
| "admin_handle h d n c (EpUpdateReceiver b) = updateReceiver h n c b"
| "admin_handle h d n c EpDeleteReceiver = deleteReceiver h c"
| "admin_handle h d n c EpTestReceiver = testReceiver h n c"
| "admin_handle h d n c (EpTestWebhook b) = testWebhookAdhoc h n b"
| "admin_handle h d n c EpPreviewSample = previewRepoSample h d n c"
| "admin_handle h d n c EpSendSample = sendRepoSample h d n c"

definition api_serve :: "api \<Rightarrow> repo_deps \<Rightarrow> notify_deps \<Rightarrow> api_call \<Rightarrow> api_endpoint \<Rightarrow> api_state \<Rightarrow> answer" where
  "api_serve h d n c ep s =
     (case guard_check h ep (ac_req c) of
        Some ops \<Rightarrow> (ops, s)
      | None \<Rightarrow>
          (case ep of
             PublicEp e \<Rightarrow> public_handle h c e s
           | UserEp e \<Rightarrow> user_handle h d c e s
           | ApproverEp e \<Rightarrow> approver_handle h c e s
           | AuditorEp e \<Rightarrow> auditor_handle h d n c e s
           | AdminEp e \<Rightarrow> admin_handle h d n c e s))"

section \<open>Rules for the shared steps\<close>

context store_preorder
begin

lemma keeps_currentUser:
  assumes "\<And>p u. rq_principal (ac_req c) = Some p \<Longrightarrow> GetUserByUsername (as_store s) (pr_username p) = Inr u \<Longrightarrow> keeps s (k u s)"
  shows "keeps s (currentUser h c k s)"
  using assms by (auto simp: currentUser_def keeps_refuse keeps_same split: option.splits sum.splits)

lemma keeps_sub_id: "(\<And>i. keeps s (k i s)) \<Longrightarrow> keeps s (sub_id h c msg k s)"
  by (simp add: sub_id_def keeps_refuse split: option.splits)

lemma keeps_canApprove:
  assumes "\<And>p. hd_authz h \<noteq> None \<Longrightarrow> rq_principal (ac_req c) = Some p \<Longrightarrow> Can p repo ActionApprove \<Longrightarrow> keeps s (k s)"
    and "hd_authz h = None \<Longrightarrow> keeps s (k s)"
  shows "keeps s (canApprove h c repo k s)"
  using assms by (auto simp: canApprove_def keeps_refuse split: option.splits)

lemma keeps_approvable:
  assumes "\<And>repo. GetRepositoryByName (as_store s) (trim_space name) = Inr repo \<Longrightarrow> keeps s (canApprove h c (r_name repo) (k repo) s)"
  shows "keeps s (approvable h c name msg k s)"
  using assms by (auto simp: approvable_def keeps_refuse intro!: keeps_query)

lemma keeps_canReadRepo: "keeps s (k s) \<Longrightarrow> keeps s (canReadRepo h c repo k s)"
  by (simp add: canReadRepo_def keeps_refuse)

lemma keeps_write_repo: "keeps s (write_repo h d status r s)"
  by (simp add: write_repo_def keeps_reply_same split: sum.splits)

lemma keeps_list_tokens: "keeps s (list_tokens_of h uid s)"
  by (auto simp: list_tokens_of_def intro!: keeps_query keeps_reply_same)

lemma keeps_issueToken:
  assumes "\<And>t. t_user_id t = uid \<Longrightarrow> R (as_store s) (snd (CreateToken (hd_now h) t (as_store s)))"
  shows "keeps s (issueToken h uid body s)"
  unfolding issueToken_def
  by (intro keeps_rules keeps_act assms) simp

lemma keeps_act_unique:
  assumes "R (as_store s) (snd (f (as_store s)))"
    and "\<And>x st'. f (as_store s) = (Inr x, st') \<Longrightarrow> keeps (s\<lparr>as_store := st'\<rparr>) (k x (s\<lparr>as_store := st'\<rparr>))"
  shows "keeps s (act_unique h msg f k s)"
proof (cases "f (as_store s)")
  case (Pair res st')
  show ?thesis
  proof (cases res)
    case (Inl e)
    with Pair assms(1) show ?thesis by (simp add: act_unique_def keeps_def refuse_def reply_def)
  next
    case (Inr x)
    with Pair assms(2) [of x st'] assms(1) show ?thesis by (auto simp: act_unique_def keeps_def intro: R_trans)
  qed
qed

lemma keeps_unless_managed: "(q (as_store s) = Inr False \<Longrightarrow> keeps s (k s)) \<Longrightarrow> keeps s (unless_managed h q k s)"
  by (auto simp: unless_managed_def keeps_refuse intro!: keeps_query)

lemma keeps_known_roles: "keeps s (k s) \<Longrightarrow> keeps s (known_roles h rids k s)"
  by (auto simp: known_roles_def keeps_refuse intro!: keeps_query)

lemma keeps_check_config: "keeps s (k s) \<Longrightarrow> keeps s (check_config h d format typ cfg k s)"
  by (simp add: check_config_def keeps_refuse split: option.splits)

lemma keeps_assign_all:
  assumes "\<And>st i. R st (snd (AssignRole uid i st))" and "\<And>s. keeps s (k s)"
  shows "keeps s (assign_all h uid rids k s)"
  using assms by (induction rids arbitrary: s) (auto intro!: keeps_act)

lemma keeps_add_all:
  assumes "\<And>st p. R st (snd (AddPermission p st))" and "\<And>ps s. keeps s (k ps s)"
  shows "keeps s (add_all h rid reqs ps k s)"
  using assms by (induction reqs arbitrary: ps s) (auto intro!: keeps_act)

lemma keeps_edits:
  assumes "\<And>s. keeps s (k s)" and "\<And>st b. R st (snd (SetUserDisabled (hd_now h) i b st))"
    and "\<And>st x. R st (snd (SetPassword (hd_now h) i x st))" and "\<And>st b. R st (snd (SetLockoutEnabled (hd_now h) i b st))"
    and "\<And>st. R st (snd (ResetFailedLogin (hd_now h) i st))"
  shows "keeps s (edit_disabled h c target i d k s)" and "keeps s (edit_password h target i pw k s)"
    and "keeps s (edit_lockout h target i lo k s)" and "keeps s (edit_unlock h i u k s)"
  using assms
  by (auto simp: edit_disabled_def edit_password_def edit_lockout_def edit_unlock_def keeps_refuse keeps_reply_same
      intro!: keeps_act split: option.splits)

lemma keeps_test_result: "keeps s (test_result h n name url s)"
  by (simp add: test_result_def keeps_refuse keeps_reply_same split: option.splits)

lemma keeps_sample:
  assumes "\<And>x. keeps s (k x s)"
  shows "keeps s (repoSampleTargets h d i k s)"
  using assms by (auto simp: repoSampleTargets_def intro!: keeps_query keeps_sum keeps_reply_same)

text \<open>What auditors reach only reads.\<close>

lemma keeps_auditor: "keeps s (auditor_handle h d n c e s)"
  by (cases e)
    (auto simp: upstreamHealth_def listAuditLogs_def repositoryPermissions_def repositoryTokens_def listUsers_def
      listUserTokens_def listRoles_def listGroupMappings_def listReceivers_def Let_def
      intro!: keeps_rules keeps_list_tokens)

lemma keeps_login:
  assumes auth: "\<And>sv name pw. R (as_store s) (snd (AuthenticateLocal sv (hd_now h) name pw (as_store s)))"
    and touch: "\<And>i st. R st (snd (TouchLastLogin (hd_now h) i st))"
  shows "keeps s (login h c b s)"
proof (cases "hd_authz h")
  case None
  then show ?thesis by (simp add: login_def keeps_refuse)
next
  case (Some sv)
  have "R (as_store s) st1" "R (as_store s) (snd (TouchLastLogin (hd_now h) i st1))"
    if "AuthenticateLocal sv (hd_now h) name pw (as_store s) = (res, st1)" for name pw res st1 i
  proof -
    show "R (as_store s) st1" using auth [of sv name pw] that by simp
    then show "R (as_store s) (snd (TouchLastLogin (hd_now h) i st1))" using touch by (rule R_trans)
  qed
  then show ?thesis
    unfolding login_def Some option.case
    by (intro keeps_with_body)
      (auto simp: keeps_def refuse_def Let_def split: prod.splits sum.splits option.splits)
qed

lemma keeps_public:
  assumes "\<And>sv name pw. R (as_store s) (snd (AuthenticateLocal sv (hd_now h) name pw (as_store s)))"
    and "\<And>i st. R st (snd (TouchLastLogin (hd_now h) i st))"
  shows "keeps s (public_handle h c e s)"
  using keeps_login [OF assms] by (cases e) (auto simp: logout_def me_def api_version_def intro!: keeps_reply_same)

lemma keeps_user:
  assumes "\<And>p u t. rq_principal (ac_req c) = Some p \<Longrightarrow> GetUserByUsername (as_store s) (pr_username p) = Inr u \<Longrightarrow> t_user_id t = u_id u \<Longrightarrow>
      R (as_store s) (snd (CreateToken (hd_now h) t (as_store s)))"
    and "\<And>p u i. rq_principal (ac_req c) = Some p \<Longrightarrow> GetUserByUsername (as_store s) (pr_username p) = Inr u \<Longrightarrow>
      R (as_store s) (snd (DeleteToken (u_id u) i (as_store s)))"
  shows "keeps s (user_handle h d c e s)"
proof (cases e)
  case (EpCreateToken b)
  then show ?thesis using assms(1)
    by (auto simp: createToken_def intro!: keeps_currentUser keeps_issueToken)
next
  case EpDeleteToken
  then show ?thesis using assms(2)
    by (auto simp: deleteToken_def intro!: keeps_currentUser keeps_pathID keeps_act keeps_reply_same)
qed (auto simp: listTokens_def listRepositoryNames_def listRepositories_def getRepository_def listArtifacts_def Let_def
    intro!: keeps_rules keeps_currentUser keeps_list_tokens keeps_canReadRepo keeps_write_repo)

end

end
