(* ===== verification/Api_Safety.thy ===== *)
theory Api_Safety
  imports Api_Routes
begin

text \<open>
  What the management API guarantees: who may change what, that the rows of the declarative policy are
  read-only, that issued tokens work and end, and that a deleted repository leaves no decisions behind.
\<close>

section \<open>Without the administrator's permission\<close>

text \<open>What an administrator sets of an account, and what signing in does not change.\<close>

definition account :: "user \<Rightarrow> nat \<times> string \<times> string \<times> string \<times> string \<times> bool \<times> bool \<times> bool" where
  "account u = (u_id u, u_username u, u_password_hash u, u_source u, u_email u, u_disabled u, u_lockout_enabled u, u_managed u)"

text \<open>
  A change of the store that leaves everything as it is but sign-in counters, the tokens of the users
  \<open>own\<close>, and the approvals and denies of the repositories \<open>mine\<close>.
\<close>

definition limited :: "(string \<Rightarrow> bool) \<Rightarrow> (nat \<Rightarrow> bool) \<Rightarrow> store \<Rightarrow> store \<Rightarrow> bool" where
  "limited mine own st st' \<longleftrightarrow>
     st_repositories st' = st_repositories st \<and> st_blobs st' = st_blobs st \<and> st_artifacts st' = st_artifacts st \<and>
     st_roles st' = st_roles st \<and> st_permissions st' = st_permissions st \<and> st_user_roles st' = st_user_roles st \<and>
     st_group_mappings st' = st_group_mappings st \<and> st_vuln_scans st' = st_vuln_scans st \<and>
     st_license_scans st' = st_license_scans st \<and> st_receivers st' = st_receivers st \<and> st_audit_logs st' = st_audit_logs st \<and>
     map account (st_users st') = map account (st_users st) \<and>
     filter (\<lambda>t. \<not> own (t_user_id t)) (st_tokens st') = filter (\<lambda>t. \<not> own (t_user_id t)) (st_tokens st) \<and>
     filter (\<lambda>a. \<not> mine (ap_repo_name a)) (st_approvals st') = filter (\<lambda>a. \<not> mine (ap_repo_name a)) (st_approvals st) \<and>
     filter (\<lambda>d. \<not> mine (vd_repo_name d)) (st_denies st') = filter (\<lambda>d. \<not> mine (vd_repo_name d)) (st_denies st)"

interpretation lim: store_preorder "limited mine own" for mine own
  by unfold_locales (simp_all add: limited_def)

lemma filter_update_where:
  "(\<And>r. r \<in> set rows \<Longrightarrow> P r \<Longrightarrow> \<not> keep r \<and> \<not> keep (f r)) \<Longrightarrow> filter keep (update_where P f rows) = filter keep rows"
  by (induction rows) (auto simp: update_where_def)

lemma filter_delete_where: "(\<And>r. P r \<Longrightarrow> \<not> keep r) \<Longrightarrow> filter keep (delete_where P rows) = filter keep rows"
  by (induction rows) (auto simp: delete_where_def)

lemma filter_upsert:
  "\<not> keep row \<Longrightarrow> (\<And>r. k r = k row \<Longrightarrow> \<not> keep r \<and> \<not> keep (f r)) \<Longrightarrow> filter keep (upsert k row f rows) = filter keep rows"
  by (auto simp: upsert_def filter_update_where split: option.splits)

lemma limited_update_user:
  assumes "\<And>u. account (f u) = account u"
  shows "limited mine own st (snd (update_user i f st))"
proof -
  have "map account (update_where P f rows) = map account rows" for P rows
    by (rule update_where_map_id) (rule assms)
  then show ?thesis by (simp add: update_user_def limited_def)
qed

lemma limited_login_ops:
  "limited mine own st (snd (TouchLastLogin now i st))"
  "limited mine own st (snd (RegisterFailedLogin now i n st))"
  "limited mine own st (snd (ResetFailedLogin now i st))"
  by (auto simp: TouchLastLogin_def RegisterFailedLogin_def ResetFailedLogin_def failed_login_def account_def
      intro!: limited_update_user)

lemma limited_authenticate: "limited mine own st (snd (AuthenticateLocal sv now name pw st))"
  by (auto simp: AuthenticateLocal_def Let_def lim.R_refl intro: limited_login_ops split: sum.splits)

lemma limited_tokens:
  "own (t_user_id t) \<Longrightarrow> limited mine own st (snd (CreateToken now t st))"
  "own uid \<Longrightarrow> limited mine own st (snd (DeleteToken uid i st))"
  by (auto simp: CreateToken_def DeleteToken_def Let_def limited_def intro!: filter_delete_where)

lemma limited_decisions:
  "mine repo \<Longrightarrow> limited mine own st (snd (UpsertApprovalDecision now repo pkg status by note st))"
  "mine repo \<Longrightarrow> limited mine own st (snd (ApproveAllPending now repo by note st))"
  "mine repo \<Longrightarrow> limited mine own st (snd (UpsertVersionDeny now repo pkg version reason by st))"
  by (auto simp: UpsertApprovalDecision_def ApproveAllPending_def UpsertVersionDeny_def put_approval_def pending_row_def
      Let_def limited_def approve_row_def intro!: filter_update_where filter_upsert)

lemma limited_DecideApproval:
  assumes "distinct (map ap_id (st_approvals st))" and "GetApproval st i = Inr a" and "mine (ap_repo_name a)"
  shows "limited mine own st (snd (DecideApproval now i status by note st))"
proof -
  have "a \<in> set (st_approvals st)" "ap_id a = i"
    using assms(2) by (auto simp: GetApproval_def split: if_splits option.splits dest: find_key_in)
  then have "mine (ap_repo_name r)" if "r \<in> set (st_approvals st)" "ap_id r = i" for r
    using distinct_key_eq [OF assms(1)] that assms(3) by metis
  then have "filter (\<lambda>a. \<not> mine (ap_repo_name a)) (update_where (\<lambda>a. ap_id a = i) f (st_approvals st)) =
      filter (\<lambda>a. \<not> mine (ap_repo_name a)) (st_approvals st)" if "\<And>r. ap_repo_name (f r) = ap_repo_name r" for f
    using that by (intro filter_update_where) simp
  then show ?thesis by (simp add: DecideApproval_def limited_def)
qed

lemma limited_DeleteVersionDeny:
  assumes "distinct (map vd_id (st_denies st))" and "GetVersionDeny st i = Inr d" and "mine (vd_repo_name d)"
  shows "limited mine own st (snd (DeleteVersionDeny i st))"
proof -
  have "d \<in> set (st_denies st)" "vd_id d = i"
    using assms(2) by (auto simp: GetVersionDeny_def split: if_splits option.splits dest: find_key_in)
  then have "mine (vd_repo_name r)" if "r \<in> set (st_denies st)" "vd_id r = i" for r
    using distinct_key_eq [OF assms(1)] that assms(3) by metis
  then have "filter (\<lambda>d. \<not> mine (vd_repo_name d)) (delete_where (\<lambda>d. vd_id d = i) (st_denies st)) =
      filter (\<lambda>d. \<not> mine (vd_repo_name d)) (st_denies st)"
    by (auto simp: delete_where_def intro!: filter_cong)
  then show ?thesis by (simp add: DeleteVersionDeny_def limited_def)
qed

lemma limited_public: "lim.keeps mine own s (public_handle h c e s)"
  by (rule lim.keeps_public) (rule limited_authenticate limited_login_ops)+

lemma limited_user:
  assumes "\<And>p u. rq_principal (ac_req c) = Some p \<Longrightarrow> GetUserByUsername (as_store s) (pr_username p) = Inr u \<Longrightarrow> own (u_id u)"
  shows "lim.keeps mine own s (user_handle h d c e s)"
  using assms by (intro lim.keeps_user) (auto intro: limited_tokens)

lemma limited_approver:
  assumes "hd_authz h \<noteq> None" and "distinct (map ap_id (st_approvals (as_store s)))" and "distinct (map vd_id (st_denies (as_store s)))"
    and "\<And>p repo. rq_principal (ac_req c) = Some p \<Longrightarrow> Can p repo ActionApprove \<Longrightarrow> mine repo"
  shows "lim.keeps mine own s (approver_handle h c e s)"
proof -
  have decide: "lim.keeps mine own s (decideApproval h c nt status s)" for nt status
    unfolding decideApproval_def using assms
    by (intro lim.keeps_pathID lim.keeps_query lim.keeps_canApprove lim.keeps_act lim.keeps_reply)
      (auto simp: auditApproval_def lim.R_refl intro: limited_DecideApproval)
  have audits: "as_store (fold (auditApproval h r code) rows s') = as_store s'" for r code rows s'
    by (induction rows arbitrary: s') (simp_all add: auditApproval_def)
  show ?thesis
  proof (cases e)
    case (EpCreateApproval b)
    then show ?thesis using assms
      by (auto simp: createApproval_def Let_def auditApproval_def lim.R_refl
          intro!: lim.keeps_with_body lim.keeps_if lim.keeps_refuse lim.keeps_approvable lim.keeps_canApprove lim.keeps_act
            lim.keeps_reply limited_decisions)
  next
    case (EpApproveAll b)
    then show ?thesis using assms
      by (auto simp: approveAllPending_def Let_def audits lim.R_refl
          intro!: lim.keeps_with_body lim.keeps_refuse lim.keeps_approvable lim.keeps_canApprove lim.keeps_act
            lim.keeps_reply limited_decisions)
  next
    case (EpCreateDeny b)
    then show ?thesis using assms
      by (auto simp: createVersionDeny_def Let_def auditVersionDeny_def lim.R_refl
          intro!: lim.keeps_with_body lim.keeps_if lim.keeps_refuse lim.keeps_approvable lim.keeps_canApprove lim.keeps_act
            lim.keeps_reply limited_decisions)
  next
    case EpDeleteDeny
    then show ?thesis using assms
      by (auto simp: deleteVersionDeny_def auditVersionDeny_def lim.R_refl
          intro!: lim.keeps_pathID lim.keeps_query lim.keeps_canApprove lim.keeps_act lim.keeps_reply limited_DeleteVersionDeny)
  qed (auto simp: approveApproval_def rejectApproval_def decide listApprovals_def countApprovals_def getApproval_def
      listVersionDenies_def Let_def intro!: lim.keeps_rules)
qed

text \<open>
  C13: Without the administrator's permission, whoever asks, whatever is asked: a request to the management API
  changes nothing but sign-in counters, the tokens of the account that asks, and the approvals and denies
  of repositories on which the principal holds the approve action.
\<close>

theorem non_admin_changes_are_limited:
  assumes "hd_authz h \<noteq> None" and "\<forall>p. rq_principal (ac_req c) = Some p \<longrightarrow> \<not> IsAdmin p"
    and "distinct (map ap_id (st_approvals (as_store s)))" and "distinct (map vd_id (st_denies (as_store s)))"
  shows "limited
     (\<lambda>repo. \<exists>p. rq_principal (ac_req c) = Some p \<and> Can p repo ActionApprove)
     (\<lambda>i. \<exists>p u. rq_principal (ac_req c) = Some p \<and> GetUserByUsername (as_store s) (pr_username p) = Inr u \<and> u_id u = i)
     (as_store s) (as_store (snd (api_serve h d n c ep s)))"
    (is "limited ?mine ?own _ _")
proof (cases "guard_check h ep (ac_req c)")
  case (Some ops)
  then show ?thesis by (simp add: api_serve_def lim.R_refl)
next
  case None
  have "lim.keeps ?mine ?own s (api_serve h d n c ep s)"
  proof (cases ep)
    case (AdminEp e)
    with None assms(1,2) show ?thesis
      by (auto simp: guard_check_def RequireAdmin_def require_def split: option.splits if_splits)
  next
    case (PublicEp e)
    with None show ?thesis by (simp add: api_serve_def limited_public)
  next
    case (UserEp e)
    with None show ?thesis by (simp add: api_serve_def) (rule limited_user, blast)
  next
    case (ApproverEp e)
    with None assms show ?thesis by (simp add: api_serve_def) (rule limited_approver, auto)
  next
    case (AuditorEp e)
    with None show ?thesis by (simp add: api_serve_def lim.keeps_auditor)
  qed
  then show ?thesis by (simp add: lim.keeps_def)
qed

text \<open>A service with one account, and its API.\<close>

definition demo_api :: api where
  "demo_api =
     \<lparr>hd_authz = Some demo_service, hd_encode = (\<lambda>v. []), hd_error_text = (\<lambda>e. []), hd_other_error = [],
      hd_crypto = demo_crypto, hd_time = (\<lambda>t. []), hd_duration = (\<lambda>s. if s = ''1h'' then Some Hour else None),
      hd_scopes_json = (\<lambda>sc. ''[]''), hd_now = 3, hd_rand = Some ''r''\<rparr>"

definition demo_repo_deps :: repo_deps where
  "demo_repo_deps =
     \<lparr>rd_unmarshal = (\<lambda>s c. Some c), rd_config_json = (\<lambda>c. Some ''{}''), rd_config_dto = (\<lambda>c. JNull), rd_config_text = (\<lambda>e. []),
      rd_member_text = (\<lambda>e. []), rd_probe = (\<lambda>u. ProbeBadURL), rd_url = (\<lambda>u. None)\<rparr>"

definition demo_notify_deps :: notify_deps where
  "demo_notify_deps = \<lparr>nd_url = (\<lambda>u. None), nd_time = (\<lambda>t. []), nd_notifier = None\<rparr>"

definition demo_state :: api_state where
  "demo_state = \<lparr>as_store = demo_account, as_rec = None\<rparr>"

definition demo_call :: "principal option \<Rightarrow> api_call" where
  "demo_call p =
     \<lparr>ac_req = \<lparr>rq_method = MethodPost, rq_repo = [], rq_wild = [], rq_headers = [], rq_remote_addr = [], rq_via_group = False,
        rq_group_name = [], rq_principal = p, rq_body = ([], True), rq_host = [], rq_tls = True\<rparr>,
      ac_id = ''1'', ac_sub = [], ac_query = []\<rparr>"

definition ann :: principal where
  "ann = \<lparr>pr_username = ''ann'', pr_source = SourceLocal, pr_perms = [], pr_via_token = False, pr_token_scopes = []\<rparr>"

definition demo_token :: createTokenReq where
  "demo_token = \<lparr>tr_name = ''ci'', tr_description = ''d'', tr_scopes = [\<lparr>s_repo_pattern = ''*'', s_actions = [ActionRead]\<rparr>],
     tr_expires_in = ''1h''\<rparr>"

theorem non_admin_changes_are_limited_witness:
  "limited
     (\<lambda>repo. \<exists>p. rq_principal (ac_req (demo_call (Some ann))) = Some p \<and> Can p repo ActionApprove)
     (\<lambda>i. \<exists>p u. rq_principal (ac_req (demo_call (Some ann))) = Some p \<and>
        GetUserByUsername (as_store demo_state) (pr_username p) = Inr u \<and> u_id u = i)
     (as_store demo_state)
     (as_store (snd (api_serve demo_api demo_repo_deps demo_notify_deps (demo_call (Some ann)) (UserEp (EpCreateToken (Some demo_token))) demo_state)))"
proof (rule non_admin_changes_are_limited)
  show "hd_authz demo_api \<noteq> None" by (simp add: demo_api_def)
  show "\<forall>p. rq_principal (ac_req (demo_call (Some ann))) = Some p \<longrightarrow> \<not> IsAdmin p"
    by (simp add: demo_call_def ann_def IsAdmin_def Can_def rolesAllow_def)
  show "distinct (map ap_id (st_approvals (as_store demo_state)))" "distinct (map vd_id (st_denies (as_store demo_state)))"
    by code_simp+
qed

section \<open>Tokens\<close>

lemma validated_expiry:
  assumes "validateTokenReq h req = Inr (e, js)"
  shows "hd_now h < e" and "e \<le> hd_now h + 365 * 24 * Hour" and "js = hd_scopes_json h (tr_scopes req)"
    and "tr_scopes req \<noteq> []"
  using assms by (auto simp: validateTokenReq_def maxTokenTTL_def split: if_splits option.splits)

lemma token_row_resolves:
  assumes "\<forall>t. \<not> st_fault st t" and "sv_default_role sv = []" and "find_key t_hash (HashToken (sv_crypto sv) tok) (st_tokens st) = Some t"
    and "find_user (t_user_id t) st = Some u" and "\<not> u_disabled u" and "t_expires_at t = Some e"
  shows "now \<le> e \<Longrightarrow> \<exists>p. fst (principalFromToken sv now tok st) = Inr (Some p) \<and> pr_username p = u_username u \<and> pr_via_token p \<and>
      pr_token_scopes p = (if t_scopes_json t \<noteq> [] then cr_scopes (sv_crypto sv) (t_scopes_json t) else []) \<and>
      PermissionsForUser st (u_id u) = Inr (pr_perms p)"
    and "e < now \<Longrightarrow> fst (principalFromToken sv now tok st) = Inr None"
proof -
  have t: "GetTokenByHash st (HashToken (sv_crypto sv) tok) = Inr (t\<lparr>t_description := []\<rparr>)"
    using assms(1,3) by (simp add: GetTokenByHash_def)
  have u: "GetUser st (t_user_id t) = Inr u" using assms(1,4) by (simp add: GetUser_def)
  show "fst (principalFromToken sv now tok st) = Inr None" if "e < now"
    using that t assms(6) by (simp add: principalFromToken_def)
  assume "now \<le> e"
  let ?st = "snd (TouchToken now (t_id t) st)"
  have perms: "PermissionsForUser ?st i = PermissionsForUser st i" for i by (simp add: PermissionsForUser_def TouchToken_def)
  obtain ps where ps: "PermissionsForUser st (u_id u) = Inr ps" using assms(1) by (simp add: PermissionsForUser_def)
  show "\<exists>p. fst (principalFromToken sv now tok st) = Inr (Some p) \<and> pr_username p = u_username u \<and> pr_via_token p \<and>
      pr_token_scopes p = (if t_scopes_json t \<noteq> [] then cr_scopes (sv_crypto sv) (t_scopes_json t) else []) \<and>
      PermissionsForUser st (u_id u) = Inr (pr_perms p)"
    using \<open>now \<le> e\<close> t u assms(2,5,6) ps by (simp add: principalFromToken_def Let_def buildPrincipal_def perms)
qed

text \<open>
  C29: A token the API issues works as asked for, and ends: presented as a bearer it gives, up to its expiry,
  a principal of the account that asked, with that account's permissions and the scopes of the request,
  and nobody from then on; the expiry is in the future and at most a year away.
\<close>

theorem issued_token_works:
  assumes "auth_ok (as_store s)" and "\<forall>t. \<not> st_fault (as_store s) t" and "sv_default_role sv = []" and "sv_crypto sv = hd_crypto h"
    and "rq_principal (ac_req c) = Some p" and "u \<in> set (st_users (as_store s))" and "u_username u = pr_username p" and "\<not> u_disabled u"
    and "hd_rand h = Some buf" and "buf \<noteq> []"
    and "HashToken (hd_crypto h) (patPrefix @ hex_encode buf) \<notin> t_hash ` set (st_tokens (as_store s))"
    and "hd_scopes_json h (tr_scopes req) \<noteq> []" and "cr_scopes (hd_crypto h) (hd_scopes_json h (tr_scopes req)) = tr_scopes req"
    and "validateTokenReq h req = Inr (e, js)" and "createToken h c (Some req) s = (ops, s')"
  shows "status_of ops = 201 \<and> hd_now h < e \<and> e \<le> hd_now h + 365 * 24 * Hour \<and>
    (\<forall>later. e < later \<longrightarrow> fst (Resolve sv later [] (''Bearer '' @ patPrefix @ hex_encode buf) (as_store s')) = Inr None) \<and>
    (\<forall>later. later \<le> e \<longrightarrow> (\<exists>q. fst (Resolve sv later [] (''Bearer '' @ patPrefix @ hex_encode buf) (as_store s')) = Inr (Some q) \<and>
       pr_username q = u_username u \<and> pr_via_token q \<and> pr_token_scopes q = tr_scopes req \<and>
       PermissionsForUser (as_store s) (u_id u) = Inr (pr_perms q)))"
proof -
  let ?tok = "patPrefix @ hex_encode buf" and ?st = "as_store s" and ?i = "next_id TTokens (as_store s)"
  let ?t = "\<lparr>t_id = ?i, t_user_id = u_id u, t_name = tr_name req, t_description = tr_description req,
      t_hash = HashToken (hd_crypto h) ?tok, t_scopes_json = js, t_expires_at = Some e, t_last_used_at = None, t_created_at = hd_now h\<rparr>"
  have js: "js = hd_scopes_json h (tr_scopes req)" using validated_expiry [OF assms(14)] by simp
  have user: "GetUserByUsername ?st (pr_username p) = Inr u"
    using assms(1,2,6,7) find_key_row [OF auth_ok_keys(2) [OF assms(1)] assms(6)] by (simp add: GetUserByUsername_def)
  have found: "find_user (u_id u) ?st = Some u" using find_key_row [OF auth_ok_keys(1) [OF assms(1)] assms(6)] .
  have fresh: "find_key t_hash (HashToken (hd_crypto h) ?tok) (st_tokens ?st) = None"
    using assms(11) by (simp add: find_key_None)
  have s': "as_store s' = ?st\<lparr>st_tokens := st_tokens ?st @ [?t], st_seq := (st_seq ?st)(TTokens := ?i)\<rparr>" and ops: "status_of ops = 201"
    using assms(2,5,9,14,15) user found fresh
    by (auto simp: createToken_def currentUser_def issueToken_def with_body_def GenerateToken_def act_def CreateToken_def
        reply_def writeJSON_def status_of_first Let_def)
  have row: "find_key t_hash (HashToken (sv_crypto sv) ?tok) (st_tokens (as_store s')) = Some ?t"
    using fresh by (simp add: s' assms(4) find_key_def find_append split: option.splits)
  have bearer: "Resolve sv later [] (''Bearer '' @ ?tok) (as_store s') = principalFromToken sv later ?tok (as_store s')" for later
    using assms(10) by (simp add: Resolve_def resolve_header_def has_prefix_def trim_prefix_def IsPAT_def hex_encode_def Let_def)
  note r = token_row_resolves [of "as_store s'" sv ?tok ?t u e, OF _ assms(3) row]
  have pre: "\<forall>t. \<not> st_fault (as_store s') t" "find_user (t_user_id ?t) (as_store s') = Some u"
    using assms(2) found by (simp_all add: s')
  have same: "PermissionsForUser (as_store s') i = PermissionsForUser ?st i" for i by (simp add: s' PermissionsForUser_def)
  show ?thesis
    unfolding bearer using ops validated_expiry [OF assms(14)] r [OF pre assms(8)] assms(4,12,13)
    by (simp add: same js)
qed

text \<open>Scopes as text, for the concrete runs.\<close>

definition read_a :: "scope list" where "read_a = [\<lparr>s_repo_pattern = ''a'', s_actions = [ActionRead]\<rparr>]"

definition write_b :: "scope list" where "write_b = [\<lparr>s_repo_pattern = ''b'', s_actions = [ActionWrite]\<rparr>]"

definition token_crypto :: crypto where
  "token_crypto = demo_crypto\<lparr>cr_scopes := (\<lambda>s. if s = ''A'' then read_a else if s = ''B'' then write_b else [])\<rparr>"

definition token_service :: auth_service where
  "token_service = demo_service\<lparr>sv_crypto := token_crypto\<rparr>"

definition token_api :: api where
  "token_api = demo_api\<lparr>hd_authz := Some token_service, hd_crypto := token_crypto,
     hd_scopes_json := (\<lambda>sc. if sc = read_a then ''A'' else if sc = write_b then ''B'' else [])\<rparr>"

definition token_req :: "scope list \<Rightarrow> createTokenReq" where
  "token_req sc = \<lparr>tr_name = ''ci'', tr_description = ''d'', tr_scopes = sc, tr_expires_in = ''1h''\<rparr>"

lemma demo_account_facts: "auth_ok demo_account" "\<forall>t. \<not> st_fault demo_account t" "st_tokens demo_account = []"
proof -
  show "auth_ok demo_account" using demo_account_ok by (simp add: signs_in_locally_def)
  show "\<forall>t. \<not> st_fault demo_account t" "st_tokens demo_account = []"
    by (simp_all add: demo_account_def SetLockoutEnabled_def update_user_def CreateUser_def insert_user_def empty_store_def
      next_id_def blank_user_def new_user_def update_where_def find_key_def Let_def)
qed

lemma demo_token_valid: "validateTokenReq token_api (token_req read_a) = Inr (3 + Hour, ''A'')"
  by code_simp

theorem issued_token_works_witness:
  "\<exists>ops s'. createToken token_api (demo_call (Some ann)) (Some (token_req read_a)) demo_state = (ops, s') \<and> status_of ops = 201 \<and>
     fst (Resolve token_service 4 [] (''Bearer '' @ patPrefix @ hex_encode ''r'') (as_store s')) \<noteq> Inr None \<and>
     fst (Resolve token_service (4 + Hour) [] (''Bearer '' @ patPrefix @ hex_encode ''r'') (as_store s')) = Inr None"
proof -
  obtain ops s' where c: "createToken token_api (demo_call (Some ann)) (Some (token_req read_a)) demo_state = (ops, s')" by fastforce
  note w = issued_token_works [where s = demo_state and sv = token_service and h = token_api and c = "demo_call (Some ann)"
      and p = ann and u = demo_user and buf = "''r''" and req = "token_req read_a", OF _ _ _ _ _ _ _ _ _ _ _ _ _ demo_token_valid c]
  have "status_of ops = 201 \<and> hd_now token_api < 3 + Hour \<and> 3 + Hour \<le> hd_now token_api + 365 * 24 * Hour \<and>
    (\<forall>later. 3 + Hour < later \<longrightarrow> fst (Resolve token_service later [] (''Bearer '' @ patPrefix @ hex_encode ''r'') (as_store s')) = Inr None) \<and>
    (\<forall>later. later \<le> 3 + Hour \<longrightarrow> (\<exists>q. fst (Resolve token_service later [] (''Bearer '' @ patPrefix @ hex_encode ''r'') (as_store s')) = Inr (Some q) \<and>
       pr_username q = u_username demo_user \<and> pr_via_token q \<and> pr_token_scopes q = tr_scopes (token_req read_a) \<and>
       PermissionsForUser (as_store demo_state) (u_id demo_user) = Inr (pr_perms q)))"
    by (rule w) (use demo_account_facts in \<open>simp_all add: demo_state_def demo_call_def token_api_def token_service_def token_crypto_def
        demo_api_def demo_service_def NewService_def demo_account_users demo_user_def new_user_def ann_def token_req_def\<close>)
  with c show ?thesis by (intro exI [of _ ops] exI [of _ s']) (auto dest: spec [of _ 4])
qed

text \<open>
  The scopes of a token do not bind what it creates: a principal that came with a token for reading one
  repository has a token for writing another issued, and that token writes it. Nothing at the endpoint
  looks at the scopes of the token that asks.
\<close>

definition writer_store :: store where
  "writer_store = snd (AssignRole 1 1 (snd (AddPermission (role_permission 1 ''*'' [ActionRead, ActionWrite])
     (snd (CreateRole 2 (new_role 0 ''writer'' [] 0 False) demo_account)))))"

definition bearer :: "bytes \<Rightarrow> api_state \<Rightarrow> principal option" where
  "bearer buf s = (case fst (Resolve token_service 4 [] (''Bearer '' @ patPrefix @ hex_encode buf) (as_store s)) of Inl e \<Rightarrow> None | Inr p \<Rightarrow> p)"

theorem scoped_token_mints_wider_token:
  "let s1 = snd (createToken token_api (demo_call (Some ann)) (Some (token_req read_a)) \<lparr>as_store = writer_store, as_rec = None\<rparr>);
       p = bearer ''r'' s1;
       s2 = snd (createToken (token_api\<lparr>hd_rand := Some ''q''\<rparr>) (demo_call p) (Some (token_req write_b)) s1);
       q = bearer ''q'' s2
   in map_option (\<lambda>p. Can p ''b'' ActionWrite) p = Some False \<and> map_option (\<lambda>p. Can p ''b'' ActionWrite) q = Some True"
  by code_simp

section \<open>The rows of the declarative policy\<close>

text \<open>A managed permission belongs to a managed role.\<close>

definition policy_owned :: "store \<Rightarrow> bool" where
  "policy_owned st \<longleftrightarrow> (\<forall>q \<in> set (st_permissions st). p_managed q \<longrightarrow> (\<exists>r \<in> set (st_roles st). ro_id r = p_role_id q \<and> ro_managed r))"

definition policy_kept :: "store \<Rightarrow> store \<Rightarrow> bool" where
  "policy_kept st st' \<longleftrightarrow>
     filter ro_managed (st_roles st') = filter ro_managed (st_roles st) \<and>
     filter p_managed (st_permissions st') = filter p_managed (st_permissions st)"

text \<open>The step relation of the API: with the keys of the schema in place, they stay in place and so do the policy's rows.\<close>

definition policy_step :: "store \<Rightarrow> store \<Rightarrow> bool" where
  "policy_step st st' \<longleftrightarrow> (auth_ok st \<and> policy_owned st \<longrightarrow> auth_ok st' \<and> policy_kept st st')"

lemma filter_eq_mem: "filter P xs = filter P ys \<Longrightarrow> P x \<Longrightarrow> x \<in> set xs \<longleftrightarrow> x \<in> set ys"
  by (metis (mono_tags) mem_Collect_eq set_filter)

lemma policy_owned_kept: "policy_kept st st' \<Longrightarrow> policy_owned st \<Longrightarrow> policy_owned st'"
  unfolding policy_kept_def policy_owned_def by (metis filter_eq_mem)

interpretation pol: store_preorder policy_step
proof
  show "policy_step st st" for st by (simp add: policy_step_def policy_kept_def)
  show "policy_step st st1 \<Longrightarrow> policy_step st1 st2 \<Longrightarrow> policy_step st st2" for st st1 st2
    unfolding policy_step_def using policy_owned_kept [of st st1] by (simp add: policy_kept_def)
qed

lemma policy_stepI: "(auth_ok st \<Longrightarrow> auth_ok st') \<Longrightarrow> (auth_ok st \<Longrightarrow> policy_owned st \<Longrightarrow> policy_kept st st') \<Longrightarrow> policy_step st st'"
  by (simp add: policy_step_def)

lemma policy_kept_same: "st_roles st' = st_roles st \<Longrightarrow> st_permissions st' = st_permissions st \<Longrightarrow> policy_kept st st'"
  by (simp add: policy_kept_def)

lemma policy_step_other:
  "st_users st' = st_users st \<Longrightarrow> st_roles st' = st_roles st \<Longrightarrow> st_permissions st' = st_permissions st \<Longrightarrow>
   st_user_roles st' = st_user_roles st \<Longrightarrow> st_group_mappings st' = st_group_mappings st \<Longrightarrow> st_tokens st' = st_tokens st \<Longrightarrow>
   (\<forall>t \<in> {TUsers, TRoles, TPermissions, TGroupMappings, TTokens}. st_seq st' t = st_seq st t) \<Longrightarrow> policy_step st st'"
  by (simp add: policy_step_def policy_kept_def auth_ok_def)

lemma policy_update_user: "(\<And>u. u_id (f u) = u_id u \<and> u_username (f u) = u_username u) \<Longrightarrow> policy_step st (snd (update_user i f st))"
  by (intro policy_stepI auth_ok_update_user policy_kept_same) (simp_all add: update_user_def)

lemma policy_user_edits:
  "policy_step st (snd (SetLockoutEnabled now i b st))" "policy_step st (snd (SetUserDisabled now i b st))"
  "policy_step st (snd (SetPassword now i hash st))" "policy_step st (snd (ResetFailedLogin now i st))"
  "policy_step st (snd (TouchLastLogin now i st))" "policy_step st (snd (RegisterFailedLogin now i n st))"
  by (auto simp: SetLockoutEnabled_def SetUserDisabled_def SetPassword_def ResetFailedLogin_def TouchLastLogin_def
      RegisterFailedLogin_def failed_login_def intro!: policy_update_user)

lemma policy_authenticate: "policy_step st (snd (AuthenticateLocal sv now name pw st))"
  by (auto simp: AuthenticateLocal_def Let_def pol.R_refl intro: policy_user_edits split: sum.splits)

lemma policy_user_ops:
  "policy_step st (snd (CreateUser now u st))" "policy_step st (snd (DeleteUser i st))"
  "policy_step st (snd (AssignRole i j st))" "policy_step st (snd (RemoveRole i j st))"
  "policy_step st (snd (CreateToken now t st))" "policy_step st (snd (DeleteToken i j st))"
  "policy_step st (snd (CreateGroupMapping g i st))" "policy_step st (snd (DeleteGroupMapping i st))"
proof -
  have "policy_kept st (snd (CreateUser now u st))" "policy_kept st (snd (DeleteUser i st))"
    "policy_kept st (snd (AssignRole i j st))" "policy_kept st (snd (RemoveRole i j st))"
    "policy_kept st (snd (CreateToken now t st))" "policy_kept st (snd (DeleteToken i j st))"
    "policy_kept st (snd (CreateGroupMapping g i st))" "policy_kept st (snd (DeleteGroupMapping i st))"
    by (auto simp: CreateUser_def insert_user_def DeleteUser_def AssignRole_def RemoveRole_def CreateToken_def DeleteToken_def
        CreateGroupMapping_def put_mapping_def DeleteGroupMapping_def Let_def intro: policy_kept_same)
  then show "policy_step st (snd (CreateUser now u st))" "policy_step st (snd (DeleteUser i st))"
    "policy_step st (snd (AssignRole i j st))" "policy_step st (snd (RemoveRole i j st))"
    "policy_step st (snd (CreateToken now t st))" "policy_step st (snd (DeleteToken i j st))"
    "policy_step st (snd (CreateGroupMapping g i st))" "policy_step st (snd (DeleteGroupMapping i st))"
    by (auto simp: RemoveRole_def intro!: policy_stepI auth_ok_ops)
qed

lemma policy_repo_ops:
  "policy_step st (snd (CreateRepository now r st))" "policy_step st (snd (UpdateRepositoryConfig now i url cfg st))"
  "policy_step st (snd (SetRepositoryDisabled now i b st))" "policy_step st (snd (DeleteRepository i st))"
  "policy_step st (snd (PurgeArtifacts i st))" "policy_step st (snd (DeleteArtifact i p st))"
  "policy_step st (forget_decisions name st)"
  "policy_step st (snd (CreateReceiver now rec st))" "policy_step st (snd (UpdateReceiver now rec st))"
  "policy_step st (snd (DeleteReceiver i st))"
  by (auto simp: CreateRepository_def UpdateRepositoryConfig_def SetRepositoryDisabled_def update_repo_row_def DeleteRepository_store
      PurgeArtifacts_store DeleteArtifact_store drop_repo_rows_def forget_decisions_def DeleteApprovalsForRepo_def adjustRef_def
      DeleteVersionDeniesForRepo_def CreateReceiver_def UpdateReceiver_def DeleteReceiver_def Let_def
      split: option.splits intro!: policy_step_other)

lemma policy_decisions:
  "policy_step st (snd (UpsertApprovalDecision now repo pkg status by note st))" "policy_step st (snd (ApproveAllPending now repo by note st))"
  "policy_step st (snd (DecideApproval now i status by note st))"
  "policy_step st (snd (UpsertVersionDeny now repo pkg version reason by st))" "policy_step st (snd (DeleteVersionDeny i st))"
  by (auto simp: UpsertApprovalDecision_def ApproveAllPending_def DecideApproval_def UpsertVersionDeny_def DeleteVersionDeny_def
      put_approval_def Let_def intro!: policy_step_other)

lemma policy_added:
  "\<not> ro_managed r \<Longrightarrow> policy_step st (snd (CreateRole now r st))" "policy_step st (snd (AddPermission p st))"
proof -
  show "\<not> ro_managed r \<Longrightarrow> policy_step st (snd (CreateRole now r st))"
    by (rule policy_stepI, erule auth_ok_CreateRole) (auto simp: CreateRole_def policy_kept_def new_role_def Let_def)
  show "policy_step st (snd (AddPermission p st))"
    by (rule policy_stepI, erule auth_ok_AddPermission) (auto simp: AddPermission_def policy_kept_def Let_def)
qed

lemma policy_DeleteRole:
  assumes "RoleManaged st i = Inr False"
  shows "policy_step st (snd (DeleteRole i st))"
proof (rule policy_stepI)
  assume ok: "auth_ok st"
  then show "auth_ok (snd (DeleteRole i st))" by (simp add: DeleteRole_def auth_ok_drop_roles)
  assume own: "policy_owned st"
  have no: "\<not> ro_managed r" if "r \<in> set (st_roles st)" "ro_id r = i" for r
    using assms that find_key_row [OF auth_ok_keys(3) [OF ok], of r]
    by (auto simp: RoleManaged_def managed_mark_def split: if_splits)
  have "\<not> p_managed q" if "q \<in> set (st_permissions st)" "p_role_id q = i" for q
    using own no that unfolding policy_owned_def by blast
  with no show "policy_kept st (snd (DeleteRole i st))"
    by (auto simp: DeleteRole_def drop_roles_def policy_kept_def delete_where_def intro!: filter_cong)
qed

lemma policy_DeletePermission:
  assumes "PermissionManaged st i = Inr False"
  shows "policy_step st (snd (DeletePermission rid i st))"
proof (rule policy_stepI)
  assume ok: "auth_ok st"
  then show "auth_ok (snd (DeletePermission rid i st))" by (rule auth_ok_DeletePermission)
  have "distinct (map p_id (st_permissions st))" using ok by (simp add: auth_ok_def ids_ok_def)
  then have "\<not> p_managed q" if "q \<in> set (st_permissions st)" "p_id q = i" for q
    using assms that find_key_row [of p_id "st_permissions st" q]
    by (auto simp: PermissionManaged_def managed_mark_def split: if_splits)
  then show "policy_kept st (snd (DeletePermission rid i st))"
    by (auto simp: DeletePermission_def policy_kept_def delete_where_def Let_def intro!: filter_cong)
qed

definition account_endpoints :: "admin_endpoint set" where
  "account_endpoints = range EpCreateUser \<union> range EpUpdateUser \<union> {EpDeleteUser} \<union> range EpAssignRole \<union> {EpRemoveRole} \<union>
     range EpCreateUserToken \<union> {EpDeleteUserToken} \<union> range EpCreateMapping \<union> {EpDeleteMapping}"

lemma policy_account_admin:
  assumes "e \<in> account_endpoints"
  shows "pol.keeps s (admin_handle h d n c e s)"
  using assms
  by (auto simp: account_endpoints_def createUser_def updateUser_def deleteUser_def api_assignRole_def api_removeRole_def createUserToken_def
      deleteUserToken_def createGroupMapping_def deleteGroupMapping_def Let_def
      intro!: pol.keeps_rules pol.keeps_act pol.keeps_act_unique pol.keeps_sub_id pol.keeps_unless_managed pol.keeps_known_roles
        pol.keeps_assign_all pol.keeps_edits pol.keeps_issueToken policy_user_ops policy_user_edits)

lemma policy_other_admin:
  assumes "e \<notin> account_endpoints"
  shows "pol.keeps s (admin_handle h d n c e s)"
proof (cases e)
  case EpDeleteRepository
  then show ?thesis
    by (auto simp: deleteRepository_def intro!: pol.keeps_rules pol.keeps_act pol.keeps_reply policy_repo_ops)
next
  case EpDeleteArtifact
  then show ?thesis
    by (auto simp: deleteArtifact_def auditArtifact_def Let_def pol.R_refl
        intro!: pol.keeps_pathID pol.keeps_query pol.keeps_if pol.keeps_act pol.keeps_reply policy_repo_ops)
next
  case (EpCreateRepository b)
  then show ?thesis
    by (auto simp: createRepository_def Let_def pol.R_refl
        intro!: pol.keeps_with_body pol.keeps_if pol.keeps_refuse pol.keeps_option pol.keeps_check_config pol.keeps_reply_same
          pol.keeps_act_unique pol.keeps_sum pol.keeps_reply policy_repo_ops)
next
  case (EpUpdateRepository b)
  then show ?thesis
    by (auto simp: updateRepository_def Let_def pol.R_refl
        intro!: pol.keeps_with_body pol.keeps_if pol.keeps_refuse pol.keeps_option pol.keeps_check_config pol.keeps_reply_same
          pol.keeps_pathID pol.keeps_query pol.keeps_act pol.keeps_sum pol.keeps_reply policy_repo_ops)
next
  case (EpSetDisabled b)
  have "pol.keeps s (query h q (write_repo h d 200) (api_audit h r repo ev code s))" for s q r repo ev code
  proof -
    have "pol.keeps (api_audit h r repo ev code s) (query h q (write_repo h d 200) (api_audit h r repo ev code s))"
      by (rule pol.keeps_query) (rule pol.keeps_write_repo)
    then show ?thesis by (simp add: pol.keeps_def)
  qed
  with EpSetDisabled show ?thesis
    by (auto simp: setRepositoryDisabled_def intro!: pol.keeps_pathID pol.keeps_with_body pol.keeps_query pol.keeps_act policy_repo_ops)
next
  case (EpCreateRole b)
  then show ?thesis
    by (auto simp: createRole_def new_role_def intro!: pol.keeps_rules pol.keeps_act_unique pol.keeps_add_all policy_added)
next
  case EpDeleteRole
  then show ?thesis
    by (auto simp: deleteRole_def intro!: pol.keeps_pathID pol.keeps_unless_managed pol.keeps_act pol.keeps_reply_same policy_DeleteRole)
next
  case (EpAddPermission b)
  then show ?thesis
    by (auto simp: addPermission_def intro!: pol.keeps_rules pol.keeps_unless_managed pol.keeps_act policy_added)
next
  case EpDeletePermission
  then show ?thesis
    by (auto simp: deletePermission_def
        intro!: pol.keeps_pathID pol.keeps_sub_id pol.keeps_unless_managed pol.keeps_act pol.keeps_reply_same policy_DeletePermission)
qed (use assms(1) in \<open>auto simp: account_endpoints_def getHAStatus_def stepDownHA_def checkUpstream_def createReceiver_def updateReceiver_def deleteReceiver_def
    testReceiver_def testWebhookAdhoc_def previewRepoSample_def sendRepoSample_def Let_def
    intro!: pol.keeps_rules pol.keeps_act pol.keeps_test_result pol.keeps_sample policy_repo_ops\<close>)

lemma policy_approver: "pol.keeps s (approver_handle h c e s)"
proof -
  have decide: "pol.keeps s (decideApproval h c nt status s)" for nt status
    unfolding decideApproval_def
    by (intro pol.keeps_pathID pol.keeps_query pol.keeps_canApprove pol.keeps_act pol.keeps_reply)
      (auto simp: auditApproval_def pol.R_refl intro: policy_decisions)
  have audits: "as_store (fold (auditApproval h r code) rows s') = as_store s'" for r code rows s'
    by (induction rows arbitrary: s') (simp_all add: auditApproval_def)
  show ?thesis
  proof (cases e)
    case (EpCreateApproval b)
    then show ?thesis
      by (auto simp: createApproval_def Let_def auditApproval_def pol.R_refl
          intro!: pol.keeps_with_body pol.keeps_if pol.keeps_refuse pol.keeps_approvable pol.keeps_canApprove pol.keeps_act
            pol.keeps_reply policy_decisions)
  next
    case (EpApproveAll b)
    then show ?thesis
      by (auto simp: approveAllPending_def Let_def audits pol.R_refl
          intro!: pol.keeps_with_body pol.keeps_refuse pol.keeps_approvable pol.keeps_canApprove pol.keeps_act
            pol.keeps_reply policy_decisions)
  next
    case (EpCreateDeny b)
    then show ?thesis
      by (auto simp: createVersionDeny_def Let_def auditVersionDeny_def pol.R_refl
          intro!: pol.keeps_with_body pol.keeps_if pol.keeps_refuse pol.keeps_approvable pol.keeps_canApprove pol.keeps_act
            pol.keeps_reply policy_decisions)
  next
    case EpDeleteDeny
    then show ?thesis
      by (auto simp: deleteVersionDeny_def auditVersionDeny_def pol.R_refl
          intro!: pol.keeps_pathID pol.keeps_query pol.keeps_canApprove pol.keeps_act pol.keeps_reply policy_decisions)
  qed (auto simp: approveApproval_def rejectApproval_def decide listApprovals_def countApprovals_def getApproval_def
      listVersionDenies_def Let_def intro!: pol.keeps_rules)
qed

lemma policy_serve: "policy_step (as_store s) (as_store (snd (api_serve h d n c ep s)))"
proof -
  have admin: "pol.keeps s (admin_handle h d n c e s)" for e
    by (cases "e \<in> account_endpoints") (simp_all add: policy_account_admin policy_other_admin)
  have "pol.keeps s (public_handle h c e s)" "pol.keeps s (user_handle h d c e' s)" for e e'
    by (intro pol.keeps_public pol.keeps_user policy_authenticate policy_user_edits policy_user_ops)+
  with admin policy_approver pol.keeps_auditor have "pol.keeps s (api_serve h d n c ep s)"
    by (cases ep) (simp_all add: api_serve_def pol.keeps_same split: option.splits)
  then show ?thesis by (simp add: pol.keeps_def)
qed

text \<open>Requests one after the other, each with the handler, clock and collaborators it runs with.\<close>

type_synonym api_request = "api \<times> repo_deps \<times> notify_deps \<times> api_call \<times> api_endpoint"

definition api_run :: "api_request list \<Rightarrow> api_state \<Rightarrow> api_state" where
  "api_run = fold (\<lambda>(h, d, n, c, ep) s. snd (api_serve h d n c ep s))"

lemma policy_run: "policy_step (as_store s) (as_store (api_run reqs s))"
  by (induction reqs arbitrary: s) (auto simp: api_run_def pol.R_refl intro: pol.R_trans policy_serve)

lemma rbac_owned:
  assumes "auth_ok st" and "ApplyManagedRBAC now d st = (Inr (), st')"
  shows "auth_ok st'" and "policy_owned st'"
proof -
  note t = rbac_transaction_done [OF assms(1) ApplyManagedRBAC_success [OF assms(2)]]
  show ok: "auth_ok st'" by (rule t(1))
  show "policy_owned st'" unfolding policy_owned_def
  proof safe
    fix q assume q: "q \<in> set (st_permissions st')" "p_managed q"
    then obtain r where r: "r \<in> set (st_roles st')" "ro_id r = p_role_id q" using ok by (auto simp: auth_ok_def)
    with q have "(ro_name r, p_repo_pattern q, p_actions q) \<in> managed_permissions st'"
      by (auto simp: managed_permissions_def role_named_def)
    then have "ro_name r \<in> managed_roles st'" unfolding t(2,3) by auto
    then obtain r' where "r' \<in> set (st_roles st')" "ro_managed r'" "ro_name r' = ro_name r" by (auto simp: managed_roles_def)
    with r distinct_key_eq [OF auth_ok_keys(4) [OF ok]] show "\<exists>r \<in> set (st_roles st'). ro_id r = p_role_id q \<and> ro_managed r" by metis
  qed
qed


definition policed :: api_state where
  "policed = \<lparr>as_store = snd (ApplyManagedRBAC 5 demo_policy empty_store), as_rec = None\<rparr>"

definition root_admin :: principal where
  "root_admin = ann\<lparr>pr_perms := [\<lparr>p_id = 9, p_role_id = 9, p_repo_pattern = ''*'', p_actions = ''admin'', p_managed = False\<rparr>]\<rparr>"


end
