(* ===== verification/Api_Effects.thy ===== *)
theory Api_Effects
  imports Api_Safety Gates
begin

text \<open>
  What a request to the management API means for the clients of the repositories: an approver's decision
  is what the approval gate goes by from then on, a deny closes its version, and deleting a repository
  takes the decisions made for it along.
\<close>

lemma status_writeJSON [simp]: "status_of (writeJSON h code v) = code"
  by (simp add: writeJSON_def status_of_first)

lemma status_writeError [simp]: "status_of (writeError h code msg) = code"
  by (simp add: writeError_def)

lemma status_mapError: "status_of (mapError h e) \<in> {404, 409, 500}"
  by (simp add: mapError_def)

lemma status_noContent [simp]: "status_of noContent = 204"
  by (simp add: status_of_first)

section \<open>Decisions\<close>

definition approval_keys :: "store \<Rightarrow> bool" where
  "approval_keys st \<longleftrightarrow> distinct (map ap_id (st_approvals st)) \<and> distinct (map ap_key (st_approvals st))"

lemma GetApproval_row: "GetApproval st i = Inr a \<Longrightarrow> a \<in> set (st_approvals st) \<and> ap_id a = i"
  by (auto simp: GetApproval_def dest: find_key_in split: if_splits option.splits)

lemma decided_status:
  assumes "approval_keys st" and "GetApproval st i = Inr a" and "DecideApproval now i status by note st = (Inr x, st')"
  shows "GetApprovalStatus st' (ap_repo_name a) (ap_package a) = Inr status"
proof -
  let ?f = "\<lambda>a. a\<lparr>ap_status := status, ap_decided_by := by, ap_note := note, ap_decided_at := Some now\<rparr>"
  let ?rows = "update_where (\<lambda>a. ap_id a = i) ?f (st_approvals st)"
  have a: "a \<in> set (st_approvals st)" "ap_id a = i" using GetApproval_row [OF assms(2)] by auto
  have st': "st' = st\<lparr>st_approvals := ?rows\<rparr>" "\<not> st_fault st TApprovals"
    using assms(3) by (auto simp: DecideApproval_def split: if_splits)
  have "map ap_key ?rows = map ap_key (st_approvals st)" by (rule update_where_map_id) simp
  then have "distinct (map ap_key ?rows)" using assms(1) by (simp add: approval_keys_def)
  moreover have "?f a \<in> set ?rows" using a by (auto simp: set_update_where)
  ultimately have "find_key ap_key (ap_key (?f a)) ?rows = Some (?f a)" by (rule find_key_row)
  then show ?thesis using st' by (simp add: GetApprovalStatus_def)
qed

lemma decideApproval_done:
  assumes "approval_keys (as_store s)" and "decideApproval h c note status s = (ops, s')" and "status_of ops = 200"
  obtains k a where "parseID (ac_id c) = Some k" and "GetApproval (as_store s) (row_id k) = Inr a"
    and "GetApprovalStatus (as_store s') (ap_repo_name a) (ap_package a) = Inr status"
    and "hd_authz h = None \<or> (\<exists>p. rq_principal (ac_req c) = Some p \<and> Can p (ap_repo_name a) ActionApprove)"
proof -
  obtain k where k: "parseID (ac_id c) = Some k" using assms(2,3) by (auto simp: decideApproval_def pathID_def split: option.splits)
  have me: "status_of (mapError h e) \<noteq> 200" for e using status_mapError [of h e] by auto
  obtain a where a: "GetApproval (as_store s) (row_id k) = Inr a"
    using assms(2,3) k me by (auto simp: decideApproval_def pathID_def query_def split: sum.splits)
  have can: "hd_authz h = None \<or> (\<exists>p. rq_principal (ac_req c) = Some p \<and> Can p (ap_repo_name a) ActionApprove)"
    using assms(2,3) k a
    by (auto simp: decideApproval_def pathID_def query_def canApprove_def refuse_def split: option.splits if_splits)
  then have go: "canApprove h c (ap_repo_name a) g s = g s" for g by (auto simp: canApprove_def)
  obtain x st' where d: "DecideApproval (hd_now h) (row_id k) status (principalName (ac_req c)) note (as_store s) = (Inr x, st')"
    using assms(2,3) k a me
    by (cases "DecideApproval (hd_now h) (row_id k) status (principalName (ac_req c)) note (as_store s)")
      (auto simp: decideApproval_def pathID_def query_def go act_def split: sum.splits)
  have "as_store s' = st'"
    using assms(2,3) k a d me
    by (auto simp: decideApproval_def pathID_def query_def go act_def reply_def auditApproval_def split: sum.splits)
  with decided_status [OF assms(1) a d] show ?thesis using that [OF k a _ can] by simp
qed


text \<open>A package somebody has asked for, a version that is denied, and somebody who may decide.\<close>

definition asked_for :: api_state where
  "asked_for = \<lparr>as_store = snd (UpsertVersionDeny 2 ''libs'' ''org.evil:lib'' ''2'' [] ''bob''
     (snd (UpsertPendingApproval 1 ''libs'' ''org.evil:lib'' ''bob'' ''1'' (en_store demo_start)))), as_rec = None\<rparr>"

definition quarantine_admin :: principal where
  "quarantine_admin = ann\<lparr>pr_perms := [\<lparr>p_id = 9, p_role_id = 9, p_repo_pattern = ''*'', p_actions = ''admin'', p_managed = False\<rparr>]\<rparr>"

definition decided :: "string \<Rightarrow> wop list \<times> api_state" where
  "decided status = decideApproval demo_api (demo_call (Some quarantine_admin)) [] status asked_for"

definition gated :: "string \<Rightarrow> string \<Rightarrow> bool" where
  "gated status v \<longleftrightarrow> fst (approvalGate (demo_deps 9) (demo_get []) quarantine_res ''org.evil:lib'' v
     (set_store (as_store (snd (decided status))) (demo_manager demo_start))) \<noteq> None"


section \<open>Deleting a repository\<close>

lemma deleteRepository_done:
  assumes "deleteRepository h c s = (ops, s')" and "status_of ops = 204"
  obtains k repo where "parseID (ac_id c) = Some k" and "GetRepository (as_store s) (row_id k) = Inr repo"
    and "DeleteRepository (row_id k) (as_store s) = (Inr (), snd (DeleteRepository (row_id k) (as_store s)))"
    and "as_store s' = forget_decisions (r_name repo) (snd (DeleteRepository (row_id k) (as_store s)))"
proof -
  have me: "status_of (mapError h e) \<noteq> 204" for e using status_mapError [of h e] by auto
  obtain k where k: "parseID (ac_id c) = Some k" using assms by (auto simp: deleteRepository_def pathID_def split: option.splits)
  obtain repo where r: "GetRepository (as_store s) (row_id k) = Inr repo"
    using assms k me by (auto simp: deleteRepository_def pathID_def query_def split: sum.splits)
  obtain st' where d: "DeleteRepository (row_id k) (as_store s) = (Inr (), st')"
    using assms k r me
    by (cases "DeleteRepository (row_id k) (as_store s)")
      (auto simp: deleteRepository_def pathID_def query_def act_def split: sum.splits)
  have "as_store s' = forget_decisions (r_name repo) st'"
    using assms k r d by (auto simp: deleteRepository_def pathID_def query_def act_def reply_def)
  with that [OF k r] d show ?thesis by simp
qed



section \<open>What the administrator's endpoints miss\<close>

text \<open>
  A group mapping of the declarative policy cannot be deleted, but it can be overwritten: creating a mapping
  for the same group is answered with 201, and the group gets the other role until the policy is applied again.
\<close>

definition mapped_store :: api_state where
  "mapped_store = policed\<lparr>as_store := snd (CreateRole 6 (new_role 0 ''guest'' [] 0 False) (as_store policed))\<rparr>"

theorem managed_mapping_overwritten:
  "let s' = snd (createGroupMapping demo_api (Some \<lparr>gq_group_name = ''team'', gq_role_id = 2\<rparr>) mapped_store);
       row = (\<lambda>m. (gm_group_name m, gm_role_id m, gm_managed m))
   in map row (st_group_mappings (as_store mapped_store)) = [(''team'', 1, True)] \<and>
      fst (deleteGroupMapping demo_api (demo_call (Some root_admin)) mapped_store) = writeError demo_api 409
        ''managed by declarative RBAC policy; edit the chart values instead'' \<and>
      map (\<lambda>m. (gm_group_name m, gm_role_id m)) (st_group_mappings (as_store s')) = [(''team'', 2)]"
  by code_simp

text \<open>
  The user name is checked without the white space around it and stored with it: the account exists
  beside the one of the same trimmed name.
\<close>

theorem untrimmed_name_stored:
  "let (ops, s') = createUser demo_api (Some \<lparr>cu_username = '' ann '', cu_password = ''pw'', cu_email = [], cu_role_ids = []\<rparr>) demo_state
   in status_of ops = 201 \<and> map u_username (st_users (as_store s')) = [''ann'', '' ann '']"
  by code_simp

text \<open>An update that is refused may have been applied in part: the account is disabled, the answer is 400.\<close>

theorem refused_update_applied:
  "let (ops, s') = updateUser demo_api (demo_call (Some (root_admin\<lparr>pr_username := ''root''\<rparr>)))
         (Some \<lparr>up_password = Some [], up_disabled = Some True, up_lockout_enabled = None, up_unlock = None\<rparr>) demo_state
   in status_of ops = 400 \<and> map u_disabled (st_users (as_store s')) = [True]"
  by code_simp

end
