(* ===== verification/Durations.thy ===== *)
theory Durations
  imports Strconv Complex_Main
begin

text \<open>
  Durations as text: \<^verbatim>\<open>time.ParseDuration\<close>, \<^verbatim>\<open>Duration.String\<close> and \<^verbatim>\<open>strconv.ParseFloat\<close> of the Go library, and
  on top of them the duration of \<^verbatim>\<open>internal/repoconfig/repoconfig.go\<close> with its days and weeks. Every duration
  that is written is read back as the same one; a number of days or weeks outside of 64 bits of
  nanoseconds is not refused.
\<close>

section \<open>time.ParseDuration\<close>

text \<open>
  The fraction of a number is scaled in 64-bit floating point: \<open>fl\<close> rounds a positive number to 53 bits,
  half to even. The numbers here are far from the limits of the exponent.
\<close>

definition round_even :: "rat \<Rightarrow> int" where
  "round_even q =
     (let n = \<lfloor>q\<rfloor>; r = q - of_int n
      in if r > 1 / 2 \<or> r = 1 / 2 \<and> odd n then n + 1 else n)"

definition two_to :: "int \<Rightarrow> rat" where
  "two_to e = (if 0 \<le> e then of_int (2 ^ nat e) else 1 / of_int (2 ^ nat (- e)))"

function bits :: "int \<Rightarrow> nat" where
  "bits n = (if n \<le> 0 then 0 else Suc (bits (n div 2)))"
  by pat_completeness auto
termination
  by (relation "measure nat") auto

declare bits.simps [simp del]

definition fl :: "rat \<Rightarrow> rat" where
  "fl x =
     (if x \<le> 0 then 0
      else let (a, b) = quotient_of x;
               e = int (bits a) - int (bits b) - 53;
               e' = (if x / two_to e \<ge> of_int (2 ^ 53) then e + 1 else e)
           in of_int (round_even (x / two_to e')) * two_to e')"

text \<open>The limit the code compares with, 2 to the power 63.\<close>

abbreviation (input) limit63 :: int where
  "limit63 \<equiv> 9223372036854775808"

fun leadingInt :: "int \<Rightarrow> string \<Rightarrow> (int \<times> string) option" where
  "leadingInt x [] = Some (x, [])"
| "leadingInt x (c # s) =
     (if \<not> is_digit c then Some (x, c # s)
      else if x > limit63 div 10 then None
      else let y = x * 10 + digit_val c in if y > limit63 then None else leadingInt y s)"

fun leadingFraction :: "int \<Rightarrow> int \<Rightarrow> bool \<Rightarrow> string \<Rightarrow> int \<times> int \<times> string" where
  "leadingFraction x scale over [] = (x, scale, [])"
| "leadingFraction x scale over (c # s) =
     (if \<not> is_digit c then (x, scale, c # s)
      else if over \<or> x > (limit63 - 1) div 10 then leadingFraction x scale True s
      else let y = x * 10 + digit_val c
           in if y > limit63 then leadingFraction x scale True s else leadingFraction y (scale * 10) False s)"

definition unitMap :: "string \<Rightarrow> int option" where
  "unitMap = map_of
     [(''ns'', 1), (''us'', 1000), ([CHR 0xC2, CHR 0xB5, CHR ''s''], 1000), ([CHR 0xCE, CHR 0xBC, CHR ''s''], 1000),
      (''ms'', 1000000), (''s'', 1000000000), (''m'', 60000000000), (''h'', 3600000000000)]"

definition unit_end :: "char \<Rightarrow> bool" where
  "unit_end c \<longleftrightarrow> c = CHR ''.'' \<or> is_digit c"

text \<open>One number with its unit.\<close>

definition duration_part :: "string \<Rightarrow> (int \<times> string) option" where
  "duration_part s =
     (if s = [] \<or> \<not> unit_end (hd s) then None
      else case leadingInt 0 s of
             None \<Rightarrow> None
           | Some (v, s1) \<Rightarrow>
               let pre = (s1 \<noteq> s);
                   dot = (s1 \<noteq> [] \<and> hd s1 = CHR ''.'');
                   (f, scale, s2) = (if dot then leadingFraction 0 1 False (tl s1) else (0, 1, s1));
                   post = (dot \<and> s2 \<noteq> tl s1);
                   u = takeWhile (\<lambda>c. \<not> unit_end c) s2;
                   s3 = dropWhile (\<lambda>c. \<not> unit_end c) s2
               in if \<not> pre \<and> \<not> post \<or> u = [] then None
                  else case unitMap u of
                         None \<Rightarrow> None
                       | Some unit \<Rightarrow>
                           if v > limit63 div unit then None
                           else let v1 = v * unit + (if f > 0 then \<lfloor>fl (fl (of_int f) * fl (of_int unit / of_int scale))\<rfloor> else 0)
                                in if f > 0 \<and> v1 > limit63 then None else Some (v1, s3))"

lemma leadingInt_shorter: "leadingInt x s = Some (v, s') \<Longrightarrow> length s' \<le> length s"
proof (induction x s rule: leadingInt.induct)
  case (2 x c s)
  then show ?case by (cases "is_digit c") (auto simp: Let_def split: if_splits)
qed simp

lemma leadingFraction_shorter: "leadingFraction x sc ov s = (f, sc', s') \<Longrightarrow> length s' \<le> length s"
proof (induction x sc ov s rule: leadingFraction.induct)
  case (2 x sc ov c s)
  then show ?case by (auto simp: Let_def split: if_splits)
qed simp

lemma duration_part_shorter:
  assumes "duration_part s = Some (v, s')"
  shows "length s' < length s"
proof -
  obtain v1 s1 where s1: "leadingInt 0 s = Some (v1, s1)"
    using assms by (auto simp: duration_part_def split: if_splits option.splits)
  obtain f sc s2 where s2: "(if s1 \<noteq> [] \<and> hd s1 = CHR ''.'' then leadingFraction 0 1 False (tl s1) else (0, 1, s1)) = (f, sc, s2)"
    by (metis prod_cases3)
  have "length s2 \<le> length s1"
    using s2 leadingFraction_shorter [of 0 1 False "tl s1" f sc s2] by (auto split: if_splits)
  moreover have "takeWhile (\<lambda>c. \<not> unit_end c) s2 \<noteq> []" and "s' = dropWhile (\<lambda>c. \<not> unit_end c) s2"
    using assms s1 s2 by (auto simp: duration_part_def Let_def split: if_splits option.splits)
  moreover from this have "length s' < length s2"
    by (metis length_append length_greater_0_conv less_add_same_cancel2 takeWhile_dropWhile_id)
  ultimately show ?thesis using leadingInt_shorter [OF s1] by simp
qed

function duration_parts :: "int \<Rightarrow> string \<Rightarrow> int option" where
  "duration_parts d s =
     (if s = [] then Some d
      else case duration_part s of
             None \<Rightarrow> None
           | Some (v, s') \<Rightarrow> if d + v > limit63 then None else duration_parts (d + v) s')"
  by pat_completeness auto
termination
  by (relation "measure (\<lambda>(d, s). length s)") (auto simp: duration_part_shorter)

declare duration_parts.simps [simp del]

definition ParseDuration :: "string \<Rightarrow> duration option" where
  "ParseDuration text =
     (let neg = (text \<noteq> [] \<and> hd text = CHR ''-'');
          s = (if text \<noteq> [] \<and> (hd text = CHR ''-'' \<or> hd text = CHR ''+'') then tl text else text)
      in if s = ''0'' then Some 0
         else if s = [] then None
         else case duration_parts 0 s of
                None \<Rightarrow> None
              | Some d \<Rightarrow> if neg then Some (- d) else if d > limit63 - 1 then None else Some d)"

section \<open>Duration.String\<close>

text \<open>The digits of the fraction from the right, without trailing zeros, and the number that is left.\<close>

fun fmtFrac :: "nat \<Rightarrow> bool \<Rightarrow> int \<Rightarrow> string \<Rightarrow> string \<times> int" where
  "fmtFrac 0 printing v buf = (if printing then CHR ''.'' # buf else buf, v)"
| "fmtFrac (Suc prec) printing v buf =
     (let p = (printing \<or> v mod 10 \<noteq> 0)
      in fmtFrac prec p (v div 10) (if p then digit (v mod 10) # buf else buf))"

definition duration_body :: "int \<Rightarrow> string" where
  "duration_body u =
     (if u < 1000000000 then
        (if u = 0 then ''0s''
         else let (prec, unit) = (if u < 1000 then (0, ''ns'') else if u < 1000000 then (3, [CHR 0xC2, CHR 0xB5, CHR ''s'']) else (6, ''ms''));
                  (frac, v) = fmtFrac prec False u []
              in Itoa v @ frac @ unit)
      else let (frac, v) = fmtFrac 9 False u [];
               secs = Itoa (v mod 60) @ frac @ ''s'';
               mins = v div 60
           in if mins = 0 then secs
              else (if mins div 60 = 0 then [] else Itoa (mins div 60) @ ''h'') @ Itoa (mins mod 60) @ ''m'' @ secs)"

definition Duration_String :: "duration \<Rightarrow> string" where
  "Duration_String d = (if d < 0 then CHR ''-'' # duration_body (- d) else duration_body d)"

section \<open>Reading back\<close>

lemma dec_val_Cons: "dec_val (c # ds) = digit_val c * 10 ^ length ds + dec_val ds"
proof (induction ds rule: rev_induct)
  case (snoc e ds)
  have "dec_val (c # ds @ [e]) = dec_val (c # ds) * 10 + digit_val e" using dec_val_snoc [of "c # ds" e] by simp
  with snoc show ?case by (simp add: dec_val_snoc algebra_simps)
qed (simp add: dec_val_def)

lemma digit_val_range: "is_digit c \<Longrightarrow> 0 \<le> digit_val c \<and> digit_val c \<le> 9"
  by (auto simp: is_digit_def digit_val_def)

lemma dec_val_range: "list_all is_digit ds \<Longrightarrow> 0 \<le> dec_val ds \<and> dec_val ds < 10 ^ length ds"
proof (induction ds)
  case (Cons c ds)
  then have "digit_val c * 10 ^ length ds \<le> 9 * 10 ^ length ds" using digit_val_range [of c] by simp
  moreover have "0 \<le> digit_val c * 10 ^ length ds" using Cons digit_val_range [of c] by simp
  moreover have "0 \<le> dec_val ds" "dec_val ds < 10 ^ length ds" using Cons by auto
  ultimately show ?case by (simp only: dec_val_Cons length_Cons power_Suc) linarith
qed (simp add: dec_val_def)

lemma digits_step:
  assumes "is_digit c" and "list_all is_digit ds" and "0 \<le> x"
  shows "x * 10 + digit_val c \<le> x * 10 ^ length (c # ds) + dec_val (c # ds)"
    and "(x * 10 + digit_val c) * 10 ^ length ds + dec_val ds = x * 10 ^ length (c # ds) + dec_val (c # ds)"
proof -
  show e: "(x * 10 + digit_val c) * 10 ^ length ds + dec_val ds = x * 10 ^ length (c # ds) + dec_val (c # ds)"
    by (simp add: dec_val_Cons algebra_simps)
  have "0 \<le> x * 10 + digit_val c" using assms digit_val_range [of c] by simp
  then have "(x * 10 + digit_val c) * 1 \<le> (x * 10 + digit_val c) * 10 ^ length ds"
    by (intro mult_left_mono) auto
  also have "\<dots> \<le> (x * 10 + digit_val c) * 10 ^ length ds + dec_val ds" using dec_val_range [OF assms(2)] by simp
  also note e
  finally show "x * 10 + digit_val c \<le> x * 10 ^ length (c # ds) + dec_val (c # ds)" by simp
qed

lemma leadingInt_digits:
  assumes "list_all is_digit ds" and "r = [] \<or> \<not> is_digit (hd r)" and "0 \<le> x"
    and "x * 10 ^ length ds + dec_val ds \<le> limit63"
  shows "leadingInt x (ds @ r) = Some (x * 10 ^ length ds + dec_val ds, r)"
  using assms
proof (induction ds arbitrary: x)
  case Nil
  then show ?case by (cases r) (auto simp: dec_val_def)
next
  case (Cons c ds)
  then have c: "is_digit c" "list_all is_digit ds" by auto
  note st = digits_step [OF c Cons.prems(3)]
  have "0 \<le> x * 10 + digit_val c" "x * 10 + digit_val c \<le> limit63" "\<not> x > limit63 div 10"
    using st(1) Cons.prems(3,4) digit_val_range [OF c(1)] by linarith+
  then show ?case using Cons.IH [of "x * 10 + digit_val c"] Cons.prems(2,4) c st(2) by (simp add: Let_def)
qed

lemma leadingFraction_digits:
  assumes "list_all is_digit ds" and "r = [] \<or> \<not> is_digit (hd r)" and "0 \<le> x"
    and "x * 10 ^ length ds + dec_val ds < limit63"
  shows "leadingFraction x sc False (ds @ r) = (x * 10 ^ length ds + dec_val ds, sc * 10 ^ length ds, r)"
  using assms
proof (induction ds arbitrary: x sc)
  case Nil
  then show ?case by (cases r) (auto simp: dec_val_def)
next
  case (Cons c ds)
  then have c: "is_digit c" "list_all is_digit ds" by auto
  note st = digits_step [OF c Cons.prems(3)]
  have "0 \<le> x * 10 + digit_val c" "x * 10 + digit_val c \<le> limit63" "\<not> x > (limit63 - 1) div 10"
    using st(1) Cons.prems(3,4) digit_val_range [OF c(1)] by linarith+
  then show ?case using Cons.IH [of "x * 10 + digit_val c" "sc * 10"] Cons.prems(2,4) c st(2) by (simp add: Let_def)
qed

text \<open>Integers below 2 to the power 53 are floating-point numbers.\<close>

lemma round_even_int: "round_even (of_int n) = n"
  by (simp add: round_even_def)

lemma two_to_neg: "e \<le> 0 \<Longrightarrow> two_to e = 1 / of_int (2 ^ nat (- e))"
  by (cases "e = 0") (simp_all add: two_to_def)

lemma bits_bounds: "0 < n \<Longrightarrow> 1 \<le> bits n \<and> 2 ^ (bits n - 1) \<le> n \<and> n < 2 ^ bits n"
proof (induction n rule: bits.induct)
  case (1 n)
  show ?case
  proof (cases "n = 1")
    case True
    then show ?thesis by (simp add: bits.simps)
  next
    case False
    with 1 have IH: "1 \<le> bits (n div 2)" "2 ^ (bits (n div 2) - 1) \<le> n div 2" "n div 2 < 2 ^ bits (n div 2)" by auto
    then obtain j where j: "bits (n div 2) = Suc j" by (cases "bits (n div 2)") auto
    with IH have "2 ^ j \<le> n div 2" "n div 2 < 2 * 2 ^ j" by auto
    then have "2 * 2 ^ j \<le> n" "n < 4 * 2 ^ j" by linarith+
    with 1(2) j show ?thesis by (subst (1 2 3) bits.simps) simp
  qed
qed

lemma fl_int:
  assumes "0 < n" and "n < 2 ^ 53"
  shows "fl (of_int n) = of_int n"
proof -
  define k where "k = bits n"
  have lo: "2 ^ (k - 1) \<le> n" and k1: "1 \<le> k" using bits_bounds [OF assms(1)] by (auto simp: k_def)
  from lo assms(2) have "2 ^ (k - 1) < (2 :: int) ^ 53" by (rule le_less_trans)
  then have k53: "k \<le> 53" using k1 power_less_imp_less_exp [of "2 :: int" "k - 1" 53] by simp
  have f1: "bits 1 = 1" by (simp add: bits.simps)
  have e: "int k - 1 - 53 \<le> 0" "int k - 53 \<le> 0" using k53 by simp_all
  have "(2 :: int) ^ 53 = 2 ^ (k - 1) * 2 ^ (54 - k)" using k1 k53 by (simp add: power_add [symmetric])
  also have "\<dots> \<le> n * 2 ^ (54 - k)" using lo assms(1) by (intro mult_right_mono) auto
  finally have big: "(2 :: int) ^ 53 \<le> n * 2 ^ (54 - k)" .
  have scale: "(of_int n :: rat) / two_to (int k - int j) = of_int (n * 2 ^ (j - k))" if "k \<le> j" for j
    using two_to_neg [of "int k - int j"] that by (simp add: nat_diff_distrib')
  have "(of_int (2 ^ 53) :: rat) \<le> of_int n / two_to (int k - 1 - 53)"
  proof -
    have "k \<le> 54" and "int k - 1 - 53 = int k - int 54" using k53 by simp_all
    then show ?thesis using scale [of 54] big by (simp only: of_int_le_iff)
  qed
  moreover have "of_int (round_even (of_int n / two_to (int k - 53))) * two_to (int k - 53) = (of_int n :: rat)"
  proof -
    have "round_even (of_int n / two_to (int k - 53)) = n * 2 ^ (53 - k)"
      using scale [of 53] k53 by (simp only: of_nat_numeral round_even_int)
    then show ?thesis using two_to_neg [OF e(2)] k53 by (simp add: nat_diff_distrib')
  qed
  moreover have "quotient_of (of_int n) = (n, 1)" by (rule quotient_of_rat_of_int)
  ultimately show ?thesis using assms(1) k_def by (simp add: fl_def Let_def f1)
qed

lemma fraction_exact:
  assumes "0 < f" and "0 < q" and "f * q < 2 ^ 53" and "0 < sc"
  shows "\<lfloor>fl (fl (of_int f) * fl (of_int (sc * q) / of_int sc))\<rfloor> = f * q"
proof -
  have "f * 1 \<le> f * q" "1 * q \<le> f * q" using assms by (intro mult_left_mono mult_right_mono; simp)+
  with assms(3) have "f < 2 ^ 53" "q < 2 ^ 53" by (simp_all only: mult_1 mult_1_right)
  then have "fl (of_int f) = of_int f" "fl (of_int q) = of_int q" "fl (of_int (f * q)) = of_int (f * q)"
    using assms fl_int [of f] fl_int [of q] fl_int [of "f * q"] by simp_all
  with assms(4) have "fl (fl (of_int f) * fl (of_int (sc * q) / of_int sc)) = of_int (f * q)" by simp
  then show ?thesis by (simp only: floor_of_int)
qed

lemma Itoa_digits:
  assumes "0 \<le> n"
  shows "list_all is_digit (Itoa n)" and "dec_val (Itoa n) = n" and "Itoa n \<noteq> []"
proof -
  have "is_digit (CHR ''0'')" "dec_val ''0'' = 0" by (simp_all add: is_digit_def dec_val_def digit_val_def)
  then show "list_all is_digit (Itoa n)" and "dec_val (Itoa n) = n" and "Itoa n \<noteq> []"
    using assms by (auto simp: Itoa_def digits_are_digits dec_val_digits digits_Nil)
qed

definition dotted :: "string \<Rightarrow> string" where
  "dotted ds = (if ds = [] then [] else CHR ''.'' # ds)"

lemma duration_part_text:
  assumes "0 \<le> n" and u: "unitMap u = Some unit" "u \<noteq> []" "list_all (\<lambda>c. \<not> unit_end c) u"
    and rest: "rest = [] \<or> unit_end (hd rest)"
    and ds: "list_all is_digit ds" "unit = 10 ^ length ds * q" "0 < q" "unit < 2 ^ 53"
    and fits: "n * unit + dec_val ds * q \<le> limit63"
  shows "duration_part (Itoa n @ dotted ds @ u @ rest) = Some (n * unit + dec_val ds * q, rest)"
proof -
  let ?s = "Itoa n @ dotted ds @ u @ rest"
  note I = Itoa_digits [OF assms(1)]
  note dv = dec_val_range [OF ds(1)]
  have unit: "0 < unit" using ds(2,3) by simp
  have "n * 1 \<le> n * unit" using unit assms(1) by (intro mult_left_mono) auto
  then have n: "n \<le> limit63" "n * unit \<le> limit63" using fits dv ds(3) by (smt (verit) zero_le_mult_iff)+
  have "n = n * unit div unit" using unit by simp
  also have "\<dots> \<le> limit63 div unit" using n(2) unit by (intro zdiv_mono1) auto
  finally have over: "\<not> n > limit63 div unit" by simp
  have hd: "?s \<noteq> []" "unit_end (hd ?s)" using I by (cases "Itoa n"; simp add: unit_end_def)+
  have u0: "\<not> unit_end (hd u)" using u by (cases u) auto
  then have stop: "\<not> is_digit (hd (u @ rest))" "hd (u @ rest) \<noteq> CHR ''.''" using u(2) by (auto simp: unit_end_def)
  have li: "leadingInt 0 ?s = Some (n, dotted ds @ u @ rest)"
  proof -
    have "\<not> is_digit (hd (dotted ds @ u @ rest))" using stop by (auto simp: dotted_def is_digit_def)
    with leadingInt_digits [of "Itoa n" "dotted ds @ u @ rest" 0] I n(1) show ?thesis by simp
  qed
  have units: "takeWhile (\<lambda>c. \<not> unit_end c) (u @ rest) = u" "dropWhile (\<lambda>c. \<not> unit_end c) (u @ rest) = rest"
    using u(3) rest by (cases rest; auto simp: list_all_iff takeWhile_append dropWhile_append)+
  show ?thesis
  proof (cases "ds = []")
    case True
    then have "dec_val ds = 0" "dotted ds = []" by (simp_all add: dec_val_def dotted_def)
    with hd li stop units u over True show ?thesis
      by (auto simp: duration_part_def Let_def I(3))
  next
    case False
    have "dec_val ds * q < 2 ^ 53"
      using dv ds(2-4) mult_strict_right_mono [of "dec_val ds" "10 ^ length ds" q] by linarith
    then have frac: "(if dec_val ds > 0 then \<lfloor>fl (fl (of_int (dec_val ds)) * fl (of_int unit / of_int (10 ^ length ds)))\<rfloor> else 0) = dec_val ds * q"
      using fraction_exact [of "dec_val ds" q "10 ^ length ds"] ds(2,3) dv by (auto simp del: of_int_mult)
    have "10 ^ length ds * 1 \<le> 10 ^ length ds * q" using ds(3) by (intro mult_left_mono) auto
    with dv ds(2,4) have "dec_val ds < 2 ^ 53" by (simp only: mult_1_right) linarith
    then have "dec_val ds < limit63" by simp
    then have lf: "leadingFraction 0 1 False (ds @ u @ rest) = (dec_val ds, 10 ^ length ds, u @ rest)"
      using leadingFraction_digits [of ds "u @ rest" 0 1] ds(1) stop(1) u(2) by auto
    show ?thesis
      using hd li lf frac fits stop units u over False I(3) by (simp add: duration_part_def dotted_def Let_def)
  qed
qed

lemma mod_ten: "0 \<le> v \<Longrightarrow> v mod 10 ^ Suc n = 10 * (v div 10 mod 10 ^ n) + v mod (10 :: int)"
  by (simp add: zmod_zmult2_eq)

lemma div_ten: "v div 10 ^ Suc n = v div 10 div (10 :: int) ^ n"
  by (simp add: zdiv_zmult2_eq)

lemma is_digit_mod: "is_digit (digit (v mod 10))" "digit_val (digit (v mod 10)) = v mod 10"
  by (simp_all add: is_digit_digit digit_val_digit)

lemma fmtFrac_printing:
  "0 \<le> v \<Longrightarrow> \<exists>ds. fmtFrac n True v buf = (CHR ''.'' # ds @ buf, v div 10 ^ n) \<and>
     list_all is_digit ds \<and> length ds = n \<and> dec_val ds = v mod 10 ^ n"
proof (induction n arbitrary: v buf)
  case 0
  then show ?case by (simp add: dec_val_def)
next
  case (Suc n)
  then have "0 \<le> v div 10" by simp
  from Suc.IH [OF this, of "digit (v mod 10) # buf"] obtain ds where
    ds: "fmtFrac n True (v div 10) (digit (v mod 10) # buf) = (CHR ''.'' # ds @ digit (v mod 10) # buf, v div 10 div 10 ^ n)"
      "list_all is_digit ds" "length ds = n" "dec_val ds = v div 10 mod 10 ^ n" by auto
  then show ?case using Suc.prems is_digit_mod mod_ten [of v n] div_ten [of v n]
    by (intro exI [of _ "ds @ [digit (v mod 10)]"]) (simp add: dec_val_snoc Let_def)
qed

lemma fmtFrac_text:
  "0 \<le> v \<Longrightarrow> \<exists>ds. fmtFrac n False v [] = (dotted ds, v div 10 ^ n) \<and>
     list_all is_digit ds \<and> length ds \<le> n \<and> dec_val ds * 10 ^ (n - length ds) = v mod 10 ^ n"
proof (induction n arbitrary: v)
  case 0
  then show ?case by (intro exI [of _ "[]"]) (simp add: dec_val_def dotted_def)
next
  case (Suc n)
  then have v: "0 \<le> v div 10" by simp
  show ?case
  proof (cases "v mod 10 = 0")
    case True
    from Suc.IH [OF v] obtain ds where ds: "fmtFrac n False (v div 10) [] = (dotted ds, v div 10 div 10 ^ n)"
      "list_all is_digit ds" "length ds \<le> n" "dec_val ds * 10 ^ (n - length ds) = v div 10 mod 10 ^ n" by auto
    have "v mod 10 ^ Suc n = dec_val ds * 10 ^ (Suc n - length ds)"
      using mod_ten [OF Suc.prems, of n] ds(3,4) True by (simp add: Suc_diff_le)
    with ds True div_ten [of v n] show ?thesis by (intro exI [of _ ds]) (simp add: Let_def)
  next
    case False
    from fmtFrac_printing [OF v, of n "[digit (v mod 10)]"] obtain ds where
      ds: "fmtFrac n True (v div 10) [digit (v mod 10)] = (CHR ''.'' # ds @ [digit (v mod 10)], v div 10 div 10 ^ n)"
        "list_all is_digit ds" "length ds = n" "dec_val ds = v div 10 mod 10 ^ n" by auto
    then show ?thesis using Suc.prems False is_digit_mod mod_ten [of v n] div_ten [of v n]
      by (intro exI [of _ "ds @ [digit (v mod 10)]"]) (simp add: dec_val_snoc dotted_def Let_def)
  qed
qed

text \<open>A number with its fraction of \<open>prec\<close> digits, read back in units of \<open>10 ^ prec\<close>.\<close>

lemma part_of_frac:
  assumes "0 \<le> v" and "unitMap u = Some (10 ^ prec)" and "prec \<le> 9" and "u \<noteq> []" and "list_all (\<lambda>c. \<not> unit_end c) u"
    and "rest = [] \<or> unit_end (hd rest)" and "0 \<le> m" and "m * 10 ^ prec + v mod 10 ^ prec \<le> limit63"
  shows "duration_part (Itoa m @ fst (fmtFrac prec False v []) @ u @ rest) = Some (m * 10 ^ prec + v mod 10 ^ prec, rest)"
proof -
  from fmtFrac_text [OF assms(1), of prec] obtain ds where ds: "fmtFrac prec False v [] = (dotted ds, v div 10 ^ prec)"
    "list_all is_digit ds" "length ds \<le> prec" "dec_val ds * 10 ^ (prec - length ds) = v mod 10 ^ prec" by auto
  have "(10 :: int) ^ prec \<le> 10 ^ 9" using assms(3) by (intro power_increasing) auto
  then have "(10 :: int) ^ prec < 2 ^ 53" by simp
  moreover have "(10 :: int) ^ prec = 10 ^ length ds * 10 ^ (prec - length ds)" using ds(3) by (simp add: power_add [symmetric])
  ultimately show ?thesis
    using duration_part_text [OF assms(7,2,4,5,6) ds(2), of "10 ^ (prec - length ds)"] ds(1,4) assms(8) by simp
qed

lemma parts_step:
  assumes "duration_part s = Some (v, s')" and "s \<noteq> []" and "d + v \<le> limit63"
  shows "duration_parts d s = duration_parts (d + v) s'"
  using assms by (subst duration_parts.simps) simp

lemma parts_end: "duration_parts d [] = Some d"
  by (subst duration_parts.simps) simp

lemma unit_names:
  "unitMap ''ns'' = Some (10 ^ 0)" "unitMap [CHR 0xC2, CHR 0xB5, CHR ''s''] = Some (10 ^ 3)" "unitMap ''ms'' = Some (10 ^ 6)"
  "unitMap ''s'' = Some (10 ^ 9)" "unitMap ''m'' = Some 60000000000" "unitMap ''h'' = Some 3600000000000"
  by (simp_all add: unitMap_def)

lemma not_unit_end: "list_all (\<lambda>c. \<not> unit_end c) ''ns''" "list_all (\<lambda>c. \<not> unit_end c) [CHR 0xC2, CHR 0xB5, CHR ''s'']"
  "list_all (\<lambda>c. \<not> unit_end c) ''ms''" "list_all (\<lambda>c. \<not> unit_end c) ''s''" "list_all (\<lambda>c. \<not> unit_end c) ''m''"
  "list_all (\<lambda>c. \<not> unit_end c) ''h''"
  by (simp_all add: unit_end_def is_digit_def)

lemma fmtFrac_rest: "0 \<le> v \<Longrightarrow> snd (fmtFrac n False v []) = v div 10 ^ n"
  using fmtFrac_text [of v n] by auto

lemma Itoa_starts: "0 \<le> n \<Longrightarrow> unit_end (hd (Itoa n @ s))"
  using Itoa_digits [of n] by (cases "Itoa n") (auto simp: unit_end_def)

lemma small_part:
  assumes "0 < u" and "u \<le> limit63" and "unitMap name = Some (10 ^ prec)" and "prec \<le> 9" and "name \<noteq> []"
    and "list_all (\<lambda>c. \<not> unit_end c) name"
  shows "duration_parts 0 (Itoa (u div 10 ^ prec) @ fst (fmtFrac prec False u []) @ name) = Some u"
proof -
  have "duration_part (Itoa (u div 10 ^ prec) @ fst (fmtFrac prec False u []) @ name @ []) = Some (u, [])"
    using part_of_frac [OF _ assms(3-6), of u "[]" "u div 10 ^ prec"] assms(1,2) div_mult_mod_eq [of u "10 ^ prec"]
    by (simp add: pos_imp_zdiv_nonneg_iff)
  then show ?thesis using parts_step [of _ u "[]" 0] assms(2,5) by (simp add: parts_end)
qed

lemma seconds_part:
  assumes "0 \<le> u" and "d + v mod 60 * 10 ^ 9 + u mod 10 ^ 9 \<le> limit63" and "0 \<le> d"
  shows "duration_parts d (Itoa (v mod 60) @ fst (fmtFrac 9 False u []) @ ''s'') = Some (d + v mod 60 * 10 ^ 9 + u mod 10 ^ 9)"
proof -
  have "duration_part (Itoa (v mod 60) @ fst (fmtFrac 9 False u []) @ ''s'' @ []) = Some (v mod 60 * 10 ^ 9 + u mod 10 ^ 9, [])"
    using assms by (intro part_of_frac [OF assms(1) unit_names(4)]) (auto simp: unit_end_def is_digit_def)
  then show ?thesis using assms(2) parts_step by (simp add: parts_end add.assoc)
qed

lemma whole_part:
  assumes "0 \<le> n" and "unitMap name = Some unit" and "name \<noteq> []" and "list_all (\<lambda>c. \<not> unit_end c) name"
    and "0 < unit" and "unit < 2 ^ 53" and "unit_end (hd rest)" and "d + n * unit \<le> limit63" and "0 \<le> d"
  shows "duration_parts d (Itoa n @ name @ rest) = duration_parts (d + n * unit) rest"
proof -
  have "duration_part (Itoa n @ dotted [] @ name @ rest) = Some (n * unit + dec_val [] * unit, rest)"
    using assms by (intro duration_part_text) (auto simp: dec_val_def)
  then show ?thesis using parts_step assms(3,8) by (simp add: dotted_def dec_val_def)
qed

lemma clock_sum:
  "m = h * 60 + a \<Longrightarrow> v = m * 60 + b \<Longrightarrow> u = v * 10 ^ 9 + c \<Longrightarrow>
   h * 3600000000000 + a * 60000000000 + b * 10 ^ 9 + c = (u :: int)"
  by simp

lemma minutes_part:
  assumes "0 \<le> u" and "0 \<le> d" and "0 \<le> a" and "d + a * 60000000000 + v mod 60 * 10 ^ 9 + u mod 10 ^ 9 \<le> limit63"
  shows "duration_parts d (Itoa a @ ''m'' @ Itoa (v mod 60) @ fst (fmtFrac 9 False u []) @ ''s'') =
    Some (d + a * 60000000000 + v mod 60 * 10 ^ 9 + u mod 10 ^ 9)"
proof -
  have pos: "0 \<le> v mod 60 * 10 ^ 9" "0 \<le> u mod 10 ^ 9" "0 \<le> a * 60000000000" using assms(3) by simp_all
  have "d + a * 60000000000 \<le> limit63" "0 \<le> d + a * 60000000000" using assms(2,4) pos by linarith+
  with whole_part [OF assms(3) unit_names(5) _ not_unit_end(5), of _ d] seconds_part [OF assms(1,4)] Itoa_starts [of "v mod 60"] assms(2)
  show ?thesis by simp
qed

lemma hours_part:
  assumes "0 \<le> u" and "0 \<le> h" and "0 \<le> a" and "h * 3600000000000 + a * 60000000000 + v mod 60 * 10 ^ 9 + u mod 10 ^ 9 \<le> limit63"
  shows "duration_parts 0 (Itoa h @ ''h'' @ Itoa a @ ''m'' @ Itoa (v mod 60) @ fst (fmtFrac 9 False u []) @ ''s'') =
    Some (h * 3600000000000 + a * 60000000000 + v mod 60 * 10 ^ 9 + u mod 10 ^ 9)"
proof -
  have pos: "0 \<le> v mod 60 * 10 ^ 9" "0 \<le> u mod 10 ^ 9" "0 \<le> a * 60000000000" "0 \<le> h * 3600000000000" using assms(2,3) by simp_all
  have "0 + h * 3600000000000 \<le> limit63" using assms(4) pos by linarith
  with whole_part [OF assms(2) unit_names(6) _ not_unit_end(6), of _ 0] minutes_part [OF assms(1) pos(4) assms(3,4)] Itoa_starts [OF assms(3)]
  show ?thesis by simp
qed

lemma duration_body_read:
  assumes "0 < u" and "u \<le> limit63"
  shows "duration_parts 0 (duration_body u) = Some u"
proof (cases "u < 1000000000")
  case True
  then show ?thesis
    using small_part [OF assms unit_names(1) _ _ not_unit_end(1)] small_part [OF assms unit_names(2) _ _ not_unit_end(2)]
      small_part [OF assms unit_names(3) _ _ not_unit_end(3)] assms(1)
      fmtFrac_rest [of u 0] fmtFrac_rest [of u 3] fmtFrac_rest [of u 6]
    by (simp add: duration_body_def case_prod_beta)
next
  case False
  define v where "v = u div 10 ^ 9"
  define m where "m = v div 60"
  have u: "0 \<le> u" using assms(1) by simp
  let ?secs = "Itoa (v mod 60) @ fst (fmtFrac 9 False u []) @ ''s''"
  have body: "duration_body u = (if m = 0 then ?secs
      else (if m div 60 = 0 then [] else Itoa (m div 60) @ ''h'') @ Itoa (m mod 60) @ ''m'' @ ?secs)"
    using False fmtFrac_rest [OF u, of 9] by (simp add: duration_body_def Let_def v_def m_def case_prod_beta)
  have total: "m div 60 * 3600000000000 + m mod 60 * 60000000000 + v mod 60 * 10 ^ 9 + u mod 10 ^ 9 = u"
    by (rule clock_sum [of m _ _ v]) (simp_all only: m_def v_def div_mult_mod_eq)
  have "0 \<le> v" unfolding v_def using u by (simp add: pos_imp_zdiv_nonneg_iff)
  then have "0 \<le> m" by (simp add: m_def)
  then have pos: "0 \<le> m div 60" "0 \<le> m mod 60" by simp_all
  have fits: "m div 60 * 3600000000000 + m mod 60 * 60000000000 + v mod 60 * 10 ^ 9 + u mod 10 ^ 9 \<le> limit63"
    unfolding total by (rule assms(2))
  consider "m = 0" | "m \<noteq> 0" "m div 60 = 0" | "m div 60 \<noteq> 0" by blast
  then show ?thesis
  proof cases
    case 1
    have "0 + v mod 60 * 10 ^ 9 + u mod 10 ^ 9 = u" using total 1 by simp
    then show ?thesis using seconds_part [OF u, of 0 v] assms(2) 1 by (simp only: body if_True order_refl simp_thms)
  next
    case 2
    have "0 + m mod 60 * 60000000000 + v mod 60 * 10 ^ 9 + u mod 10 ^ 9 = u" using total 2(2) by simp
    then show ?thesis using minutes_part [OF u _ pos(2), of 0 v] assms(2) 2 by (simp only: body if_True if_False order_refl simp_thms append_Nil)
  next
    case 3
    then have "m \<noteq> 0" by auto
    with 3 have "duration_body u = Itoa (m div 60) @ ''h'' @ Itoa (m mod 60) @ ''m'' @ ?secs" by (simp only: body if_False append_assoc)
    with hours_part [OF u pos fits] total show ?thesis by (simp only:)
  qed
qed

lemma duration_body_shape:
  assumes "0 \<le> u"
  shows "\<exists>n mid. 0 \<le> n \<and> duration_body u = Itoa n @ mid @ ''s''"
proof -
  have q: "0 \<le> u div 10 ^ k" for k using assms by (simp add: pos_imp_zdiv_nonneg_iff)
  note r = fmtFrac_rest [OF assms]
  define v where "v = u div 10 ^ 9"
  consider "u = 0" | "0 < u" "u < 1000" | "1000 \<le> u" "u < 1000000" | "1000000 \<le> u" "u < 1000000000" | "1000000000 \<le> u"
    using assms by linarith
  then show ?thesis
  proof cases
    case 1
    then show ?thesis by (intro exI [of _ 0] exI [of _ "[]"]) (simp add: duration_body_def Itoa_def)
  next
    case 2
    then show ?thesis by (intro exI [of _ u] exI [of _ "''n''"]) (simp add: duration_body_def)
  next
    case 3
    then show ?thesis using q [of 3] r [of 3]
      by (intro exI [of _ "u div 10 ^ 3"] exI [of _ "fst (fmtFrac 3 False u []) @ [CHR 0xC2, CHR 0xB5]"])
        (simp add: duration_body_def case_prod_beta)
  next
    case 4
    then show ?thesis using q [of 6] r [of 6]
      by (intro exI [of _ "u div 10 ^ 6"] exI [of _ "fst (fmtFrac 6 False u []) @ ''m''"])
        (simp add: duration_body_def case_prod_beta)
  next
    case 5
    let ?f = "fst (fmtFrac 9 False u [])"
    have body: "duration_body u = (if v div 60 = 0 then Itoa (v mod 60) @ ?f @ ''s''
        else (if v div 60 div 60 = 0 then [] else Itoa (v div 60 div 60) @ ''h'') @ Itoa (v div 60 mod 60) @ ''m'' @ Itoa (v mod 60) @ ?f @ ''s'')"
      using 5 r [of 9] by (simp add: duration_body_def Let_def v_def case_prod_beta)
    have v: "0 \<le> v mod 60" "0 \<le> v div 60 mod 60" "0 \<le> v div 60 div 60" using q [of 9] by (simp_all add: v_def)
    consider "v div 60 = 0" | "v div 60 \<noteq> 0" "v div 60 div 60 = 0" | "v div 60 \<noteq> 0" "v div 60 div 60 \<noteq> 0" by blast
    then show ?thesis
    proof cases
      case 1
      with v show ?thesis by (intro exI [of _ "v mod 60"] exI [of _ ?f]) (simp add: body)
    next
      case 2
      with v show ?thesis by (intro exI [of _ "v div 60 mod 60"] exI [of _ "''m'' @ Itoa (v mod 60) @ ?f"]) (simp add: body)
    next
      case 3
      with v show ?thesis
        by (intro exI [of _ "v div 60 div 60"] exI [of _ "''h'' @ Itoa (v div 60 mod 60) @ ''m'' @ Itoa (v mod 60) @ ?f"]) (simp add: body)
    qed
  qed
qed

lemma duration_body_ends:
  assumes "0 \<le> u"
  shows "is_digit (hd (duration_body u))" and "last (duration_body u) = CHR ''s''" and "2 \<le> length (duration_body u)"
proof -
  obtain n mid where b: "0 \<le> n" "duration_body u = Itoa n @ mid @ ''s''" using duration_body_shape [OF assms] by blast
  then show "is_digit (hd (duration_body u))" and "last (duration_body u) = CHR ''s''" and "2 \<le> length (duration_body u)"
    using Itoa_digits [OF b(1)] by (cases "Itoa n"; simp)+
qed

lemma ParseDuration_String:
  assumes "min_int64 \<le> d" and "d \<le> max_int64"
  shows "ParseDuration (Duration_String d) = Some d"
proof -
  have z: "duration_parts 0 ''0s'' = Some 0" by code_simp
  have read: "duration_parts 0 (duration_body u) = Some u" if "0 \<le> u" "u \<le> limit63" for u
    using duration_body_read [of u] that z by (cases "u = 0") (auto simp: duration_body_def)
  have plain: "duration_body u \<noteq> []" "duration_body u \<noteq> ''0''" "hd (duration_body u) \<noteq> CHR ''-''" "hd (duration_body u) \<noteq> CHR ''+''"
    if "0 \<le> u" for u
    using duration_body_ends [OF that] not_sign [of "hd (duration_body u)"] by auto
  show ?thesis
  proof (cases "d < 0")
    case True
    with plain [of "- d"] read [of "- d"] assms(1) show ?thesis
      by (simp add: Duration_String_def ParseDuration_def Let_def min_int64_def)
  next
    case False
    with plain [of d] read [of d] assms(2) show ?thesis
      by (simp add: Duration_String_def ParseDuration_def Let_def max_int64_def)
  qed
qed

section \<open>strconv.ParseFloat\<close>

datatype go_float = Finite rat | PosInf | NegInf | NaN

text \<open>
  \<open>read_mantissa\<close> takes the digits before and after the point, \<open>hex\<close> for the base; underscores are skipped here
  and checked over the whole text by \<open>underscoreOK\<close>. \<open>saw\<close> is the last character that was seen: a digit, an
  underscore or something else.
\<close>

definition hex_digit_of :: "char \<Rightarrow> int option" where
  "hex_digit_of c =
     (let n = int (of_char (lower_char c)) in
      if is_digit c then Some (digit_val c) else if 97 \<le> n \<and> n \<le> 102 then Some (n - 87) else None)"

definition float_digit :: "bool \<Rightarrow> char \<Rightarrow> int option" where
  "float_digit hex c = (if hex then hex_digit_of c else if is_digit c then Some (digit_val c) else None)"

fun read_mantissa :: "bool \<Rightarrow> bool \<Rightarrow> string \<Rightarrow> int list \<times> int list \<times> string" where
  "read_mantissa hex dot [] = ([], [], [])"
| "read_mantissa hex dot (c # s) =
     (if c = CHR ''_'' then read_mantissa hex dot s
      else if c = CHR ''.'' then (if dot then ([], [], c # s) else read_mantissa hex True s)
      else case float_digit hex c of
             None \<Rightarrow> ([], [], c # s)
           | Some d \<Rightarrow>
               (case read_mantissa hex dot s of
                  (is, fs, r) \<Rightarrow> if dot then (is, d # fs, r) else (d # is, fs, r)))"

fun read_exponent :: "int \<Rightarrow> string \<Rightarrow> int \<times> string" where
  "read_exponent e [] = (e, [])"
| "read_exponent e (c # s) =
     (if c = CHR ''_'' then read_exponent e s
      else if is_digit c then read_exponent (if e < 10000 then e * 10 + digit_val c else e) s
      else (e, c # s))"

datatype underscore_seen = SawStart | SawDigit | SawUnderscore | SawOther

fun underscore_scan :: "bool \<Rightarrow> underscore_seen \<Rightarrow> string \<Rightarrow> bool" where
  "underscore_scan hex saw [] = (saw \<noteq> SawUnderscore)"
| "underscore_scan hex saw (c # s) =
     (if float_digit hex c \<noteq> None then underscore_scan hex SawDigit s
      else if c = CHR ''_'' then saw = SawDigit \<and> underscore_scan hex SawUnderscore s
      else saw \<noteq> SawUnderscore \<and> underscore_scan hex SawOther s)"

definition unsigned :: "string \<Rightarrow> string" where
  "unsigned s = (if s \<noteq> [] \<and> (hd s = CHR ''-'' \<or> hd s = CHR ''+'') then tl s else s)"

definition underscoreOK :: "string \<Rightarrow> bool" where
  "underscoreOK s =
     (let t = unsigned s;
          based = (2 \<le> length t \<and> hd t = CHR ''0'' \<and> lower_char (t ! 1) \<in> set ''box'')
      in if based then underscore_scan (lower_char (t ! 1) = CHR ''x'') SawDigit (drop 2 t)
         else underscore_scan False SawStart t)"

definition digits_value :: "int \<Rightarrow> int list \<Rightarrow> int" where
  "digits_value base ds = foldl (\<lambda>n d. n * base + d) 0 ds"

text \<open>The exact value of a decimal or hexadecimal number; the whole text has to be one.\<close>

definition readFloat :: "string \<Rightarrow> rat option" where
  "readFloat s =
     (let t = unsigned s;
          hex = (3 \<le> length t \<and> hd t = CHR ''0'' \<and> lower_char (t ! 1) = CHR ''x'');
          base = (if hex then 16 else 10 :: int);
          (is, fs, r) = read_mantissa hex False (if hex then drop 2 t else t);
          m = of_int (digits_value base (is @ fs)) / of_int (base ^ length fs) :: rat;
          signed = (\<lambda>x :: rat. if s \<noteq> [] \<and> hd s = CHR ''-'' then - x else x);
          good = (\<lambda>x :: rat. if CHR ''_'' \<in> set s \<and> \<not> underscoreOK s then None else Some (signed x))
      in if is @ fs = [] then None
         else if r = [] then (if hex then None else good m)
         else if lower_char (hd r) \<noteq> (if hex then CHR ''p'' else CHR ''e'') then None
         else let x = unsigned (tl r); neg = (tl r \<noteq> [] \<and> hd (tl r) = CHR ''-'') in
           if x = [] \<or> \<not> is_digit (hd x) then None
           else case read_exponent 0 x of
                  (e, left) \<Rightarrow>
                    let p = of_int ((if hex then 2 else 10) ^ nat e) :: rat in
                    if left \<noteq> [] then None else good (if neg then m / p else m * p))"

definition flo :: "rat \<Rightarrow> rat" where
  "flo x = (if x < 0 then - fl (- x) else fl x)"

text \<open>A value that rounds to 2 to the power 1024 or more is out of range, which is an error.\<close>

definition ParseFloat :: "string \<Rightarrow> go_float option" where
  "ParseFloat s =
     (if to_lower (unsigned s) \<in> {''inf'', ''infinity''} then Some (if hd s = CHR ''-'' then NegInf else PosInf)
      else if to_lower s = ''nan'' then Some NaN
      else case readFloat s of
             None \<Rightarrow> None
           | Some x \<Rightarrow> if bits \<lfloor>\<bar>flo x\<bar>\<rfloor> > 1024 then None else Some (Finite (flo x)))"

section \<open>Durations of the repository configuration\<close>

text \<open>
  The conversion of a floating-point number outside of 64 bits (or of none) to an integer is left to the
  implementation: \<open>wild\<close> is what it gives.
\<close>

definition to_int64 :: "(go_float \<Rightarrow> int) \<Rightarrow> go_float \<Rightarrow> int" where
  "to_int64 wild x =
     (case x of
        Finite q \<Rightarrow>
          let n = (if q < 0 then - \<lfloor>- q\<rfloor> else \<lfloor>q\<rfloor>)
          in if min_int64 \<le> n \<and> n \<le> max_int64 then n else wild x
      | _ \<Rightarrow> wild x)"

definition times_unit :: "go_float \<Rightarrow> int \<Rightarrow> go_float" where
  "times_unit x unit =
     (case x of
        Finite q \<Rightarrow>
          let p = flo (q * of_int unit)
          in if bits \<lfloor>\<bar>p\<bar>\<rfloor> > 1024 then (if p < 0 then NegInf else PosInf) else Finite p
      | _ \<Rightarrow> x)"

definition repo_ParseDuration :: "(go_float \<Rightarrow> int) \<Rightarrow> string \<Rightarrow> duration option" where
  "repo_ParseDuration wild text =
     (let s = trim_space text in
      if s = [] \<or> s = ''0'' then Some 0
      else if 2 \<le> length s \<and> last s = CHR ''d'' then
        map_option (\<lambda>v. to_int64 wild (times_unit v 86400000000000)) (ParseFloat (butlast s))
      else if 2 \<le> length s \<and> last s = CHR ''w'' then
        map_option (\<lambda>v. to_int64 wild (times_unit v 604800000000000)) (ParseFloat (butlast s))
      else ParseDuration s)"

text \<open>The text of a duration has no character that JSON escapes; \<open>json_string\<close> and \<open>json_int\<close> read a value.\<close>

definition Duration_MarshalJSON :: "duration \<Rightarrow> bytes" where
  "Duration_MarshalJSON d = CHR 0x22 # Duration_String d @ [CHR 0x22]"

definition Duration_UnmarshalJSON ::
  "(bytes \<Rightarrow> string option) \<Rightarrow> (bytes \<Rightarrow> int option) \<Rightarrow> (go_float \<Rightarrow> int) \<Rightarrow> bytes \<Rightarrow> duration option" where
  "Duration_UnmarshalJSON json_string json_int wild b =
     (if b \<noteq> [] \<and> hd b = CHR 0x22 then Option.bind (json_string b) (repo_ParseDuration wild) else json_int b)"

lemma visible_not_space:
  assumes "33 \<le> (of_char c :: nat)" and "(of_char c :: nat) < 128"
  shows "\<not> ascii_space c" and "\<not> latin_space c x" and "\<not> latin_space x c" and "\<not> wide_space c x y" and "\<not> wide_space x y c"
  using assms by (auto simp: ascii_space_def latin_space_def wide_space_def)

lemma trim_space_ends:
  assumes "s \<noteq> []" and "33 \<le> (of_char (hd s) :: nat)" and "(of_char (hd s) :: nat) < 128"
    and "33 \<le> (of_char (last s) :: nat)" and "(of_char (last s) :: nat) < 128"
  shows "trim_space s = s"
proof -
  note h = visible_not_space [OF assms(2,3)] and l = visible_not_space [OF assms(4,5)]
  have head: "space_head s = 0"
    using assms(1) h by (cases s rule: space_head.cases) auto
  obtain r where r: "rev s = last s # r" using assms(1) by (metis append_butlast_last_id rev_eq_Cons_iff rev_rev_ident)
  have tail: "space_last (last s # r) = 0"
    using l by (cases "last s # r" rule: space_last.cases) auto
  have "drop_spaces space_head s = s" using head by (subst drop_spaces.simps) simp
  moreover have "drop_spaces space_last (rev s) = rev s" unfolding r by (subst drop_spaces.simps) (simp add: tail)
  ultimately show ?thesis by (simp add: trim_space_def)
qed

text \<open>
  C36: What is written is read back: every 64-bit duration of a repository's configuration, from the shortest to
  the longest and the negative ones, comes back as the same duration, whatever its text (hours, minutes
  and seconds with a fraction, or smaller units) and however the platform converts numbers out of range.
\<close>

theorem duration_json_roundtrip:
  assumes "min_int64 \<le> d" and "d \<le> max_int64"
    and "json_string (Duration_MarshalJSON d) = Some (Duration_String d)"
  shows "Duration_UnmarshalJSON json_string json_int wild (Duration_MarshalJSON d) = Some d"
proof -
  let ?s = "Duration_String d"
  obtain u sign where s: "?s = sign @ duration_body u" "0 \<le> u" "sign = [] \<or> sign = ''-''"
    unfolding Duration_String_def by (metis append_Cons append_Nil less_eq_int_code(1) linorder_not_less neg_0_le_iff_le order_less_imp_le)
  note e = duration_body_ends [OF s(2)]
  have "33 \<le> (of_char (hd ?s) :: nat) \<and> (of_char (hd ?s) :: nat) < 128"
    using s(1,3) e by (auto simp: is_digit_def hd_append)
  moreover have l: "last ?s = CHR ''s''" "2 \<le> length ?s" using s(1) e by (cases "duration_body u"; auto)+
  ultimately have "trim_space ?s = ?s" by (intro trim_space_ends) auto
  moreover have "?s \<noteq> []" "?s \<noteq> ''0''" using l(2) by auto
  ultimately have "repo_ParseDuration wild ?s = Some d"
    using l(1) ParseDuration_String [OF assms(1,2)] by (simp add: repo_ParseDuration_def Let_def)
  with assms(3) show ?thesis by (simp add: Duration_UnmarshalJSON_def Duration_MarshalJSON_def)
qed

theorem duration_json_roundtrip_witness:
  "Duration_UnmarshalJSON (\<lambda>b. Some (butlast (tl b))) (\<lambda>b. None) (\<lambda>x. 0) (Duration_MarshalJSON (-9223372036854775808)) =
     Some (-9223372036854775808)"
  by (rule duration_json_roundtrip) (simp_all add: min_int64_def max_int64_def Duration_MarshalJSON_def)

text \<open>
  Days and weeks go through floating point and an unchecked conversion: 300000 days, which are more
  nanoseconds than 64 bits hold, are accepted, and mean whatever the platform makes of them (the least
  integer on amd64), where \<^verbatim>\<open>time.ParseDuration\<close> refuses the same time in hours.
\<close>

theorem long_days_are_not_refused:
  "repo_ParseDuration (\<lambda>x. -9223372036854775808) ''300000d'' = Some (-9223372036854775808) \<and>
   repo_ParseDuration (\<lambda>x. -9223372036854775808) ''infd'' = Some (-9223372036854775808) \<and>
   repo_ParseDuration (\<lambda>x. -9223372036854775808) ''7200000h'' = None \<and>
   repo_ParseDuration (\<lambda>x. -9223372036854775808) ''1.5d'' = Some 129600000000000"
  by code_simp

end
