(* ===== verification/App_Config.thy ===== *)
theory App_Config
  imports Durations
begin

text \<open>
  Configuration from the environment (\<^verbatim>\<open>internal/config/config.go\<close>). The environment is a function from names
  to values, the host's name the answer of \<^verbatim>\<open>os.Hostname\<close>. What \<open>validate\<close> lets through is what the process
  relies on; which values it does not look at is shown at the end.
\<close>

section \<open>The structs\<close>

record s3_config =
  s3c_Bucket :: string
  s3c_Prefix :: string
  s3c_Region :: string
  s3c_Endpoint :: string
  s3c_ForcePathStyle :: bool
  s3c_AccessKeyID :: string
  s3c_SecretAccessKey :: string

record storage_config =
  stc_Backend :: string
  stc_MetaSyncInterval :: duration
  stc_S3 :: s3_config

record scan_config =
  scn_URL :: string
  scn_RescanInterval :: duration
  scn_TTL :: duration
  scn_Workers :: int

record rbac_config =
  rbc_PolicyFile :: string
  rbc_DefaultRole :: string
  rbc_AccountsDir :: string

record oidc_config =
  oic_Enabled :: bool
  oic_IssuerURL :: string
  oic_ClientID :: string
  oic_ClientSecret :: string
  oic_RedirectURL :: string
  oic_UsernameClaim :: string
  oic_GroupsClaim :: string

record auth_config =
  auc_SessionSecret :: string
  auc_SessionTTL :: duration
  auc_AnonymousRead :: bool
  auc_BootstrapAdminUser :: string
  auc_BootstrapAdminPassword :: string
  auc_OIDC :: oidc_config
  auc_RBAC :: rbac_config

record audit_config =
  adc_Enabled :: bool
  adc_Retention :: duration

record replication_config =
  rpc_Enabled :: bool
  rpc_Token :: string
  rpc_PeerService :: string
  rpc_PeerPort :: int
  rpc_Interval :: duration
  rpc_LeaderURL :: string
  rpc_PodName :: string
  rpc_PodNamespace :: string

record ha_config =
  hac_Enabled :: bool
  hac_LeaseName :: string
  hac_LeaseNamespace :: string
  hac_Identity :: string
  hac_LeaseDuration :: duration
  hac_RenewDeadline :: duration
  hac_RetryPeriod :: duration

text \<open>The structs of the vulnerability and the license scanner have the same fields; \<open>scan_config\<close> is both.\<close>

record app_config =
  cf_DataDir :: string
  cf_Storage :: storage_config
  cf_HTTPAddr :: string
  cf_MetricsAddr :: string
  cf_ExternalURL :: string
  cf_LogLevel :: string
  cf_LogFormat :: string
  cf_ShutdownTimeout :: duration
  cf_HA :: ha_config
  cf_Replication :: replication_config
  cf_Auth :: auth_config
  cf_Audit :: audit_config
  cf_Vuln :: scan_config
  cf_License :: scan_config
  cf_WebhookTimeout :: duration
  cf_SeedDefaultRepos :: bool

section \<open>Reading the environment\<close>

type_synonym environment = "string \<Rightarrow> string option"

definition ParseBool :: "string \<Rightarrow> bool option" where
  "ParseBool s =
     (if s \<in> {''1'', ''t'', ''T'', ''TRUE'', ''true'', ''True''} then Some True
      else if s \<in> {''0'', ''f'', ''F'', ''FALSE'', ''false'', ''False''} then Some False
      else None)"

definition env_str :: "environment \<Rightarrow> string \<Rightarrow> string \<Rightarrow> string" where
  "env_str e key def = (case e key of Some v \<Rightarrow> if trim_space v \<noteq> [] then v else def | None \<Rightarrow> def)"

text \<open>The three readers of other types differ in the parser.\<close>

definition env_parsed :: "(string \<Rightarrow> 'a option) \<Rightarrow> environment \<Rightarrow> string \<Rightarrow> 'a \<Rightarrow> 'a" where
  "env_parsed parse e key def =
     (case e key of
        None \<Rightarrow> def
      | Some v \<Rightarrow> (case parse (trim_space v) of Some x \<Rightarrow> x | None \<Rightarrow> def))"

definition envBool :: "environment \<Rightarrow> string \<Rightarrow> bool \<Rightarrow> bool" where
  "envBool = env_parsed ParseBool"

definition envInt :: "environment \<Rightarrow> string \<Rightarrow> int \<Rightarrow> int" where
  "envInt = env_parsed Atoi"

definition envDuration :: "environment \<Rightarrow> string \<Rightarrow> duration \<Rightarrow> duration" where
  "envDuration = env_parsed ParseDuration"

definition hostname :: "string option \<Rightarrow> string" where
  "hostname host = (case host of None \<Rightarrow> ''forklift'' | Some h \<Rightarrow> h)"

definition Load_config :: "environment \<Rightarrow> string option \<Rightarrow> app_config" where
  "Load_config e host =
     \<lparr>cf_DataDir = env_str e ''FORKLIFT_DATA_DIR'' ''/data'',
      cf_Storage = \<lparr>stc_Backend = env_str e ''FORKLIFT_STORAGE_BACKEND'' ''fs'',
        stc_MetaSyncInterval = envDuration e ''FORKLIFT_STORAGE_META_SYNC_INTERVAL'' 30000000000,
        stc_S3 = \<lparr>s3c_Bucket = env_str e ''FORKLIFT_STORAGE_S3_BUCKET'' [],
          s3c_Prefix = env_str e ''FORKLIFT_STORAGE_S3_PREFIX'' [],
          s3c_Region = env_str e ''FORKLIFT_STORAGE_S3_REGION'' [],
          s3c_Endpoint = env_str e ''FORKLIFT_STORAGE_S3_ENDPOINT'' [],
          s3c_ForcePathStyle = envBool e ''FORKLIFT_STORAGE_S3_FORCE_PATH_STYLE'' False,
          s3c_AccessKeyID = env_str e ''FORKLIFT_STORAGE_S3_ACCESS_KEY_ID'' [],
          s3c_SecretAccessKey = env_str e ''FORKLIFT_STORAGE_S3_SECRET_ACCESS_KEY'' []\<rparr>\<rparr>,
      cf_HTTPAddr = env_str e ''FORKLIFT_HTTP_ADDR'' '':8080'',
      cf_MetricsAddr = env_str e ''FORKLIFT_METRICS_ADDR'' '':8081'',
      cf_ExternalURL = env_str e ''FORKLIFT_EXTERNAL_URL'' [],
      cf_LogLevel = env_str e ''FORKLIFT_LOG_LEVEL'' ''info'',
      cf_LogFormat = env_str e ''FORKLIFT_LOG_FORMAT'' ''json'',
      cf_ShutdownTimeout = envDuration e ''FORKLIFT_SHUTDOWN_TIMEOUT'' 15000000000,
      cf_HA = \<lparr>hac_Enabled = envBool e ''FORKLIFT_HA_ENABLED'' False,
        hac_LeaseName = env_str e ''FORKLIFT_HA_LEASE_NAME'' ''forklift-leader'',
        hac_LeaseNamespace = env_str e ''FORKLIFT_HA_LEASE_NAMESPACE'' (env_str e ''POD_NAMESPACE'' ''default''),
        hac_Identity = env_str e ''FORKLIFT_HA_IDENTITY'' (env_str e ''POD_NAME'' (hostname host)),
        hac_LeaseDuration = envDuration e ''FORKLIFT_HA_LEASE_DURATION'' 15000000000,
        hac_RenewDeadline = envDuration e ''FORKLIFT_HA_RENEW_DEADLINE'' 10000000000,
        hac_RetryPeriod = envDuration e ''FORKLIFT_HA_RETRY_PERIOD'' 2000000000\<rparr>,
      cf_Replication = \<lparr>rpc_Enabled = envBool e ''FORKLIFT_REPLICATION_ENABLED'' False,
        rpc_Token = env_str e ''FORKLIFT_REPLICATION_TOKEN'' [],
        rpc_PeerService = env_str e ''FORKLIFT_REPLICATION_PEER_SERVICE'' [],
        rpc_PeerPort = envInt e ''FORKLIFT_REPLICATION_PEER_PORT'' 8080,
        rpc_Interval = envDuration e ''FORKLIFT_REPLICATION_INTERVAL'' 30000000000,
        rpc_LeaderURL = env_str e ''FORKLIFT_REPLICATION_LEADER_URL'' [],
        rpc_PodName = env_str e ''POD_NAME'' [],
        rpc_PodNamespace = env_str e ''POD_NAMESPACE'' []\<rparr>,
      cf_Auth = \<lparr>auc_SessionSecret = env_str e ''FORKLIFT_SESSION_SECRET'' [],
        auc_SessionTTL = envDuration e ''FORKLIFT_SESSION_TTL'' 43200000000000,
        auc_AnonymousRead = envBool e ''FORKLIFT_ANONYMOUS_READ'' False,
        auc_BootstrapAdminUser = env_str e ''FORKLIFT_BOOTSTRAP_ADMIN_USER'' ''admin'',
        auc_BootstrapAdminPassword = env_str e ''FORKLIFT_BOOTSTRAP_ADMIN_PASSWORD'' [],
        auc_OIDC = \<lparr>oic_Enabled = envBool e ''FORKLIFT_OIDC_ENABLED'' False,
          oic_IssuerURL = env_str e ''FORKLIFT_OIDC_ISSUER_URL'' [],
          oic_ClientID = env_str e ''FORKLIFT_OIDC_CLIENT_ID'' [],
          oic_ClientSecret = env_str e ''FORKLIFT_OIDC_CLIENT_SECRET'' [],
          oic_RedirectURL = env_str e ''FORKLIFT_OIDC_REDIRECT_URL'' [],
          oic_UsernameClaim = env_str e ''FORKLIFT_OIDC_USERNAME_CLAIM'' ''preferred_username'',
          oic_GroupsClaim = env_str e ''FORKLIFT_OIDC_GROUPS_CLAIM'' ''groups''\<rparr>,
        auc_RBAC = \<lparr>rbc_PolicyFile = env_str e ''FORKLIFT_RBAC_POLICY_FILE'' [],
          rbc_DefaultRole = env_str e ''FORKLIFT_RBAC_DEFAULT_ROLE'' [],
          rbc_AccountsDir = env_str e ''FORKLIFT_RBAC_ACCOUNTS_DIR'' []\<rparr>\<rparr>,
      cf_Audit = \<lparr>adc_Enabled = envBool e ''FORKLIFT_AUDIT_ENABLED'' True,
        adc_Retention = envDuration e ''FORKLIFT_AUDIT_RETENTION'' 7776000000000000\<rparr>,
      cf_Vuln = \<lparr>scn_URL = env_str e ''FORKLIFT_OSV_URL'' ''https://api.osv.dev'',
        scn_RescanInterval = envDuration e ''FORKLIFT_VULN_RESCAN_INTERVAL'' 21600000000000,
        scn_TTL = envDuration e ''FORKLIFT_VULN_TTL'' 86400000000000,
        scn_Workers = envInt e ''FORKLIFT_VULN_WORKERS'' 6\<rparr>,
      cf_License = \<lparr>scn_URL = env_str e ''FORKLIFT_DEPSDEV_URL'' ''https://api.deps.dev'',
        scn_RescanInterval = envDuration e ''FORKLIFT_LICENSE_RESCAN_INTERVAL'' 86400000000000,
        scn_TTL = envDuration e ''FORKLIFT_LICENSE_TTL'' 604800000000000,
        scn_Workers = envInt e ''FORKLIFT_LICENSE_WORKERS'' 6\<rparr>,
      cf_WebhookTimeout = envDuration e ''FORKLIFT_NOTIFY_WEBHOOK_TIMEOUT'' 5000000000,
      cf_SeedDefaultRepos = envBool e ''FORKLIFT_SEED_DEFAULT_REPOS'' True\<rparr>"

section \<open>Validation\<close>

datatype app_config_error =
    NoDataDir | BadLogLevel string | BadLogFormat string | NoBucket | HalfCredentials | BadMetaSyncInterval
  | S3WithReplication | BadBackend string | NoIdentity | ReplicationWithoutHA | NoToken | NoPeer | BadInterval

definition check_storage :: "app_config \<Rightarrow> app_config_error option" where
  "check_storage c =
     (let st = cf_Storage c; s3 = stc_S3 st in
      if stc_Backend st = ''fs'' then None
      else if stc_Backend st = ''s3'' then
        (if s3c_Bucket s3 = [] then Some NoBucket
         else if (s3c_AccessKeyID s3 = []) \<noteq> (s3c_SecretAccessKey s3 = []) then Some HalfCredentials
         else if stc_MetaSyncInterval st \<le> 0 then Some BadMetaSyncInterval
         else if rpc_Enabled (cf_Replication c) then Some S3WithReplication
         else None)
      else Some (BadBackend (stc_Backend st)))"

definition check_replication :: "app_config \<Rightarrow> app_config_error option" where
  "check_replication c =
     (let r = cf_Replication c in
      if \<not> rpc_Enabled r then None
      else if \<not> hac_Enabled (cf_HA c) then Some ReplicationWithoutHA
      else if rpc_Token r = [] then Some NoToken
      else if rpc_PeerService r = [] \<and> rpc_LeaderURL r = [] then Some NoPeer
      else if rpc_Interval r \<le> 0 then Some BadInterval
      else None)"

definition validate :: "app_config \<Rightarrow> app_config_error option" where
  "validate c =
     (if cf_DataDir c = [] then Some NoDataDir
      else if cf_LogLevel c \<notin> {''debug'', ''info'', ''warn'', ''error''} then Some (BadLogLevel (cf_LogLevel c))
      else if cf_LogFormat c \<notin> {''json'', ''text''} then Some (BadLogFormat (cf_LogFormat c))
      else case check_storage c of
             Some err \<Rightarrow> Some err
           | None \<Rightarrow>
               if hac_Enabled (cf_HA c) \<and> hac_Identity (cf_HA c) = [] then Some NoIdentity
               else check_replication c)"

definition Load :: "environment \<Rightarrow> string option \<Rightarrow> app_config \<times> app_config_error option" where
  "Load e host = (let c = Load_config e host in (c, validate c))"

section \<open>What is checked and what is not\<close>

definition environment_of :: "(string \<times> string) list \<Rightarrow> environment" where
  "environment_of kvs = map_of kvs"

lemma env_str_ne: "def \<noteq> [] \<Longrightarrow> env_str e key def \<noteq> []"
proof -
  assume def: "def \<noteq> []"
  have "trim_space [] = []" by (simp add: trim_space_def drop_spaces.simps)
  with def show ?thesis by (auto simp: env_str_def split: option.splits)
qed

text \<open>
  The URLs of the advisory and of the metadata service are never empty, whatever the environment: an empty
  value of \<^verbatim>\<open>FORKLIFT_OSV_URL\<close> or \<^verbatim>\<open>FORKLIFT_DEPSDEV_URL\<close> reads as the default, so it does not turn the
  scanner off.
\<close>

theorem scanners_stay_on:
  "scn_URL (cf_Vuln (fst (Load e host))) \<noteq> [] \<and> scn_URL (cf_License (fst (Load e host))) \<noteq> []"
  by (simp add: Load_def Load_config_def Let_def env_str_ne)

text \<open>
  The intervals of the background scans are not looked at: a zero, which stops the process when the ticker
  is made, passes; an interval that does not parse is the default.
\<close>

theorem rescan_interval_not_checked:
  "let c = Load (environment_of [(''FORKLIFT_VULN_RESCAN_INTERVAL'', ''0s''), (''FORKLIFT_VULN_TTL'', ''1 day'')]) None
   in snd c = None \<and> scn_RescanInterval (cf_Vuln (fst c)) = 0 \<and> scn_TTL (cf_Vuln (fst c)) = 86400000000000"
  by code_simp

lemma valid_storage:
  assumes "validate c = None"
  shows "stc_Backend (cf_Storage c) = ''fs'' \<or>
    stc_Backend (cf_Storage c) = ''s3'' \<and> s3c_Bucket (stc_S3 (cf_Storage c)) \<noteq> [] \<and>
    stc_MetaSyncInterval (cf_Storage c) > 0 \<and> \<not> rpc_Enabled (cf_Replication c)"
  using assms by (auto simp: validate_def check_storage_def Let_def split: if_splits option.splits)

lemma valid_replication:
  assumes "validate c = None" and "rpc_Enabled (cf_Replication c)"
  shows "hac_Enabled (cf_HA c)" and "rpc_Token (cf_Replication c) \<noteq> []" and "rpc_Interval (cf_Replication c) > 0"
  using assms by (auto simp: validate_def check_replication_def Let_def split: if_splits option.splits)

lemma valid_identity: "validate c = None \<Longrightarrow> hac_Enabled (cf_HA c) \<Longrightarrow> hac_Identity (cf_HA c) \<noteq> []"
  by (auto simp: validate_def split: if_splits option.splits)

section \<open>Flags\<close>

text \<open>
  The flags of \<^verbatim>\<open>main\<close> that were given, after the environment was read and validated; \<open>flag_scan\<close> are the four of
  one scanner. The flag package has parsed them.
\<close>

record scan_flags =
  sf_url :: "string option"
  sf_rescan :: "duration option"
  sf_ttl :: "duration option"
  sf_workers :: "int option"

definition given :: "'a option \<Rightarrow> 'a \<Rightarrow> 'a" where
  "given f def = (case f of Some v \<Rightarrow> v | None \<Rightarrow> def)"

definition flag_scan :: "scan_flags \<Rightarrow> scan_config \<Rightarrow> scan_config" where
  "flag_scan f c = \<lparr>scn_URL = given (sf_url f) (scn_URL c), scn_RescanInterval = given (sf_rescan f) (scn_RescanInterval c),
     scn_TTL = given (sf_ttl f) (scn_TTL c), scn_Workers = given (sf_workers f) (scn_Workers c)\<rparr>"

definition main_config :: "environment \<Rightarrow> string option \<Rightarrow> scan_flags \<Rightarrow> scan_flags \<Rightarrow> app_config_error + app_config" where
  "main_config e host osv depsdev =
     (case Load e host of
        (c, Some err) \<Rightarrow> Inl err
      | (c, None) \<Rightarrow> Inr (c\<lparr>cf_Vuln := flag_scan osv (cf_Vuln c), cf_License := flag_scan depsdev (cf_License c)\<rparr>))"

text \<open>What the process runs with has passed the validation, flags and all; only a flag turns a scanner off.\<close>

lemma validate_scan: "validate (c\<lparr>cf_Vuln := v, cf_License := l\<rparr>) = validate c"
  by (simp add: validate_def check_storage_def check_replication_def Let_def)

lemma main_config_valid:
  assumes "main_config e host osv depsdev = Inr c"
  shows "validate c = None"
proof -
  have "validate (Load_config e host) = None"
    using assms by (cases "validate (Load_config e host)") (simp_all add: main_config_def Load_def Let_def)
  with assms show ?thesis by (auto simp: main_config_def Load_def Let_def validate_scan)
qed

lemma scanner_off_by_flag:
  assumes "main_config e host osv depsdev = Inr c" and "scn_URL (cf_Vuln c) = []"
  shows "sf_url osv = Some []"
proof -
  have "c = (fst (Load e host))\<lparr>cf_Vuln := flag_scan osv (cf_Vuln (fst (Load e host))), cf_License := flag_scan depsdev (cf_License (fst (Load e host)))\<rparr>"
    using assms(1) by (auto simp: main_config_def split: prod.splits option.splits)
  with assms(2) have "given (sf_url osv) (scn_URL (cf_Vuln (fst (Load e host)))) = []" by (simp add: flag_scan_def)
  moreover have "scn_URL (cf_Vuln (fst (Load e host))) \<noteq> []" by (simp add: Load_def Load_config_def Let_def env_str_ne)
  ultimately show ?thesis by (auto simp: given_def split: option.splits)
qed

end
