(* ===== verification/Election.thy ===== *)
theory Election
  imports App_Config
begin

text \<open>
  Leader election (\<^verbatim>\<open>internal/cluster/election.go\<close>) and the role labels of the pods
  (\<^verbatim>\<open>internal/cluster/podlabel.go\<close>). The Kubernetes API is a parameter: the answer to a read of the lease, which
  patches fail. The election library calls back when a term starts and when it ends; the step relation
  \<open>el_step\<close> runs these callbacks, the loop of \<^verbatim>\<open>Run\<close> and requests to step down in any order. The library
  starts the first callback in a goroutine of its own: \<open>prompt\<close> says that it runs before the term ends.
\<close>

section \<open>The lease\<close>

datatype k8s_error = K8sNotFound | K8sOther

record lease =
  ls_holder :: "string option"
  ls_transitions :: "int option"

definition LeaderIdentity :: "k8s_error + lease \<Rightarrow> k8s_error + string" where
  "LeaderIdentity answer =
     (case answer of
        Inl K8sNotFound \<Rightarrow> Inr []
      | Inl err \<Rightarrow> Inl err
      | Inr l \<Rightarrow> Inr (case ls_holder l of None \<Rightarrow> [] | Some h \<Rightarrow> h))"

definition FencingToken :: "k8s_error + lease \<Rightarrow> k8s_error + int" where
  "FencingToken answer =
     (case answer of
        Inl K8sNotFound \<Rightarrow> Inr 0
      | Inl err \<Rightarrow> Inl err
      | Inr l \<Rightarrow> Inr (case ls_transitions l of None \<Rightarrow> 0 | Some n \<Rightarrow> n))"

section \<open>Terms\<close>

record elector =
  el_leading :: bool
  el_steppingDown :: bool
  el_termCancel :: bool

definition new_elector :: elector where
  "new_elector = \<lparr>el_leading = False, el_steppingDown = False, el_termCancel = False\<rparr>"

definition begin_term :: "elector \<Rightarrow> elector" where
  "begin_term e = e\<lparr>el_termCancel := True\<rparr>"

definition OnStartedLeading :: "elector \<Rightarrow> elector" where
  "OnStartedLeading e = e\<lparr>el_leading := True\<rparr>"

definition OnStoppedLeading :: "elector \<Rightarrow> elector" where
  "OnStoppedLeading e = e\<lparr>el_leading := False\<rparr>"

text \<open>What the loop does after a term: the pause before it contends again, and the state.\<close>

definition end_term :: "ha_config \<Rightarrow> elector \<Rightarrow> duration \<times> elector" where
  "end_term cfg e =
     (if el_steppingDown e
      then (wrap64 (hac_LeaseDuration cfg + hac_RetryPeriod cfg), e\<lparr>el_termCancel := False, el_steppingDown := False\<rparr>)
      else (hac_RetryPeriod cfg, e\<lparr>el_termCancel := False\<rparr>))"

definition StepDown :: "elector \<Rightarrow> bool \<times> elector" where
  "StepDown e =
     (if \<not> el_leading e \<or> \<not> el_termCancel e then (False, e) else (True, e\<lparr>el_steppingDown := True\<rparr>))"

text \<open>Where the loop is, and whether a started callback has yet to run.\<close>

datatype el_phase = Between | Contending | Holding | Ended

record election =
  en_elector :: elector
  en_phase :: el_phase
  en_starting :: bool

datatype el_event = BeginTerm | Acquire | Started | Lose | EndTerm duration | Asked bool

inductive el_step :: "ha_config \<Rightarrow> bool \<Rightarrow> election \<Rightarrow> el_event \<Rightarrow> election \<Rightarrow> bool" for cfg :: ha_config and prompt :: bool where
  begins: "en_phase s = Between \<Longrightarrow>
    el_step cfg prompt s BeginTerm (s\<lparr>en_elector := begin_term (en_elector s), en_phase := Contending\<rparr>)"
| acquire: "en_phase s = Contending \<Longrightarrow> \<not> en_starting s \<Longrightarrow> el_step cfg prompt s Acquire (s\<lparr>en_phase := Holding, en_starting := True\<rparr>)"
| started: "en_starting s \<Longrightarrow>
    el_step cfg prompt s Started (s\<lparr>en_elector := OnStartedLeading (en_elector s), en_starting := False\<rparr>)"
| lose: "en_phase s = Holding \<or> en_phase s = Contending \<Longrightarrow> prompt \<longrightarrow> \<not> en_starting s \<Longrightarrow>
    el_step cfg prompt s Lose (s\<lparr>en_elector := OnStoppedLeading (en_elector s), en_phase := Ended\<rparr>)"
| ends: "en_phase s = Ended \<Longrightarrow> end_term cfg (en_elector s) = (pause, e) \<Longrightarrow>
    el_step cfg prompt s (EndTerm pause) (s\<lparr>en_elector := e, en_phase := Between\<rparr>)"
| asked: "StepDown (en_elector s) = (answer, e) \<Longrightarrow> el_step cfg prompt s (Asked answer) (s\<lparr>en_elector := e\<rparr>)"

inductive_cases el_stepE: "el_step cfg prompt s ev t"

inductive el_run :: "ha_config \<Rightarrow> bool \<Rightarrow> election \<Rightarrow> el_event list \<Rightarrow> election \<Rightarrow> bool" for cfg :: ha_config and prompt :: bool where
  el_none: "el_run cfg prompt s [] s"
| el_more: "el_step cfg prompt s ev t \<Longrightarrow> el_run cfg prompt t evs u \<Longrightarrow> el_run cfg prompt s (ev # evs) u"

definition new_election :: election where
  "new_election = \<lparr>en_elector = new_elector, en_phase = Between, en_starting = False\<rparr>"

text \<open>
  With prompt callbacks: the flags say what the loop is doing. A request to step down that was granted in a
  term marks exactly this term.
\<close>

definition el_inv :: "election \<Rightarrow> bool" where
  "el_inv s \<longleftrightarrow>
     (el_termCancel (en_elector s) \<longleftrightarrow> en_phase s \<noteq> Between) \<and>
     (el_leading (en_elector s) \<or> en_starting s \<longrightarrow> en_phase s = Holding) \<and>
     (el_steppingDown (en_elector s) \<longrightarrow> en_phase s = Holding \<or> en_phase s = Ended)"

lemmas el_defs = begin_term_def OnStartedLeading_def OnStoppedLeading_def end_term_def StepDown_def

lemma el_inv_step: "el_step cfg True s ev t \<Longrightarrow> el_inv s \<Longrightarrow> el_inv t"
  by (erule el_stepE) (auto simp: el_inv_def el_defs split: if_splits)

lemma el_inv_run: "el_run cfg True s evs t \<Longrightarrow> el_inv s \<Longrightarrow> el_inv t"
  by (induction rule: el_run.induct) (auto dest: el_inv_step)

lemma marked_step:
  "el_step cfg prompt s ev t \<Longrightarrow> el_steppingDown (en_elector s) \<Longrightarrow> \<forall>p. ev \<noteq> EndTerm p \<Longrightarrow> el_steppingDown (en_elector t)"
  by (erule el_stepE) (auto simp: el_defs split: if_splits)

lemma marked_run:
  "el_run cfg prompt s evs t \<Longrightarrow> el_steppingDown (en_elector s) \<Longrightarrow> \<forall>p. EndTerm p \<notin> set evs \<Longrightarrow> el_steppingDown (en_elector t)"
  by (induction rule: el_run.induct) (auto dest: marked_step)


definition demo_ha :: ha_config where
  "demo_ha = \<lparr>hac_Enabled = True, hac_LeaseName = ''l'', hac_LeaseNamespace = ''n'', hac_Identity = ''a'',
     hac_LeaseDuration = 15, hac_RenewDeadline = 10, hac_RetryPeriod = 2\<rparr>"

definition el_at :: "bool \<Rightarrow> bool \<Rightarrow> bool \<Rightarrow> el_phase \<Rightarrow> bool \<Rightarrow> election" where
  "el_at leading stepping cancel phase starting =
     \<lparr>en_elector = \<lparr>el_leading = leading, el_steppingDown = stepping, el_termCancel = cancel\<rparr>, en_phase = phase, en_starting = starting\<rparr>"

lemma el_at_steps:
  "el_step cfg p (el_at l m k Between b) BeginTerm (el_at l m True Contending b)"
  "el_step cfg p (el_at l m k Contending False) Acquire (el_at l m k Holding True)"
  "el_step cfg p (el_at l m k ph True) Started (el_at True m k ph False)"
  "el_step cfg p (el_at l m k Holding False) Lose (el_at False m k Ended False)"
  "el_step cfg False (el_at l m k Holding b) Lose (el_at False m k Ended b)"
  "el_step cfg p (el_at l True k Ended b) (EndTerm (wrap64 (hac_LeaseDuration cfg + hac_RetryPeriod cfg))) (el_at l False False Between b)"
  "el_step cfg p (el_at l False k Ended b) (EndTerm (hac_RetryPeriod cfg)) (el_at l False False Between b)"
  "el_step cfg p (el_at True m True ph b) (Asked True) (el_at True True True ph b)"
  using begins [of "el_at l m k Between b" cfg p] acquire [of "el_at l m k Contending False" cfg p]
    started [of "el_at l m k ph True" cfg p] lose [of "el_at l m k Holding False" p cfg]
    lose [of "el_at l m k Holding b" False cfg] ends [of "el_at l True k Ended b" cfg _ _ p]
    ends [of "el_at l False k Ended b" cfg _ _ p] asked [of "el_at True m True ph b" _ _ cfg p]
  by (simp_all add: el_at_def el_defs)

lemma new_election_at: "new_election = el_at False False False Between False"
  by (simp add: new_election_def new_elector_def el_at_def)


text \<open>
  The library starts the callback of a new term in a goroutine. When the term is lost before it runs, it
  marks the instance as leading although the term is over; in the next term, which it spends waiting for the
  lease as a standby, a request to step down is granted.
\<close>

theorem late_start_grants_standby:
  "\<exists>s s1. el_run demo_ha False new_election [BeginTerm, Acquire, Lose, Started, EndTerm 2, BeginTerm] s \<and>
     en_phase s = Contending \<and> el_step demo_ha False s (Asked True) s1"
proof (intro exI conjI)
  show "el_run demo_ha False new_election [BeginTerm, Acquire, Lose, Started, EndTerm 2, BeginTerm] (el_at True False True Contending False)"
  proof -
    have "el_step demo_ha False (el_at True False True Ended False) (EndTerm 2) (el_at True False False Between False)"
      using el_at_steps(7) [of demo_ha False True True False] by (simp add: demo_ha_def)
    note e = el_more [OF this el_more [OF el_at_steps(1) el_none]]
    show ?thesis unfolding new_election_at
      by (rule el_more [OF el_at_steps(1) el_more [OF el_at_steps(2) el_more [OF el_at_steps(5) el_more [OF el_at_steps(3) e]]]])
  qed
  show "en_phase (el_at True False True Contending False) = Contending" by (simp add: el_at_def)
  show "el_step demo_ha False (el_at True False True Contending False) (Asked True) (el_at True True True Contending False)"
    by (rule el_at_steps)
qed

section \<open>Role labels\<close>

abbreviation RoleLeader :: string where "RoleLeader \<equiv> ''leader''"
abbreviation RoleStandby :: string where "RoleStandby \<equiv> ''standby''"

text \<open>The pods of the namespace with their role labels; \<open>fails\<close> says which patches fail.\<close>

type_synonym pods = "(string \<times> string) list"

definition SetPodRole :: "(string \<Rightarrow> bool) \<Rightarrow> string \<Rightarrow> string \<Rightarrow> pods \<Rightarrow> bool \<times> pods" where
  "SetPodRole fails name role ps =
     (if fails name \<or> name \<notin> set (map fst ps) then (False, ps)
      else (True, map (\<lambda>p. if fst p = name then (fst p, role) else p) ps))"

fun demote_each :: "(string \<Rightarrow> bool) \<Rightarrow> string \<Rightarrow> string list \<Rightarrow> pods \<Rightarrow> string list \<times> pods" where
  "demote_each fails self [] ps = ([], ps)"
| "demote_each fails self (n # ns) ps =
     (if n = self then demote_each fails self ns ps
      else case SetPodRole fails n RoleStandby ps of
             (ok, ps1) \<Rightarrow>
               (case demote_each fails self ns ps1 of (errs, ps2) \<Rightarrow> (if ok then errs else n # errs, ps2)))"

text \<open>\<open>None\<close> when the pods cannot be listed; otherwise the pods whose patch failed.\<close>

definition DemotePeers :: "bool \<Rightarrow> (string \<Rightarrow> bool) \<Rightarrow> string \<Rightarrow> pods \<Rightarrow> string list option \<times> pods" where
  "DemotePeers listed_ok fails self ps =
     (if \<not> listed_ok then (None, ps)
      else case demote_each fails self (map fst (filter (\<lambda>p. snd p = RoleLeader) ps)) ps of (errs, ps') \<Rightarrow> (Some errs, ps'))"

definition labelled :: "string \<Rightarrow> pods \<Rightarrow> string set" where
  "labelled role ps = {n. (n, role) \<in> set ps}"

lemma names_SetPodRole [simp]: "map fst (snd (SetPodRole fails n role ps)) = map fst ps"
  by (auto simp: SetPodRole_def)

lemma leaders_SetPodRole_standby:
  "labelled RoleLeader (snd (SetPodRole fails n RoleStandby ps)) =
     labelled RoleLeader ps - (if fails n then {} else {n})"
  by (auto simp: SetPodRole_def labelled_def image_iff split: if_splits)

lemma leaders_SetPodRole_leader:
  "\<not> fails n \<Longrightarrow> n \<in> set (map fst ps) \<Longrightarrow>
   labelled RoleLeader (snd (SetPodRole fails n RoleLeader ps)) = insert n (labelled RoleLeader ps)"
  by (auto simp: SetPodRole_def labelled_def image_iff split: if_splits)

lemma leaders_demote_each:
  "labelled RoleLeader (snd (demote_each fails self ns ps)) =
     labelled RoleLeader ps - {n \<in> set ns. n \<noteq> self \<and> \<not> fails n}"
proof (induction ns arbitrary: ps)
  case (Cons n ns)
  show ?case
  proof (cases "n = self")
    case True
    with Cons show ?thesis by auto
  next
    case False
    obtain ok ps1 where ps1: "SetPodRole fails n RoleStandby ps = (ok, ps1)" by fastforce
    with leaders_SetPodRole_standby [of fails n ps] Cons [of ps1] False show ?thesis
      by (auto simp: case_prod_beta)
  qed
qed simp

lemma leaders_DemotePeers:
  "labelled RoleLeader (snd (DemotePeers True fails self ps)) = labelled RoleLeader ps - {n. n \<noteq> self \<and> \<not> fails n}"
proof -
  have "set (map fst (filter (\<lambda>p. snd p = RoleLeader) ps)) = labelled RoleLeader ps" by (force simp: labelled_def)
  with leaders_demote_each [of fails self "map fst (filter (\<lambda>p. snd p = RoleLeader) ps)" ps] show ?thesis
    by (auto simp: DemotePeers_def case_prod_beta)
qed

end
