(* ===== verification/S3_Store.thy ===== *)
theory S3_Store
  imports Blob_Safety
begin

text \<open>
  The blob store on an object store (\<^verbatim>\<open>internal/storage/s3.go\<close>). The service is a parameter: the record
  \<open>s3_api\<close> of the calls the code makes, and the locale \<open>object_store_laws\<close> of what its documentation says
  of them: reads see the last write, a listing is complete and sorted, a conditional write happens only
  under its condition, and a call whose answer is an error may or may not have taken effect. Under these
  laws \<open>S3BlobStore\<close> is a blob store in the sense of \<open>blob_store_laws\<close>, so what is shown of the engine over
  any such store holds of the engine over a bucket. A bucket that keeps the laws stands at the end.
\<close>

section \<open>path.Join\<close>

fun clean_parts :: "bool \<Rightarrow> string list \<Rightarrow> string list \<Rightarrow> string list" where
  "clean_parts rooted [] st = st"
| "clean_parts rooted (c # cs) st =
     (if c = [] \<or> c = ''.'' then clean_parts rooted cs st
      else if c = ''..'' then
        (case st of
           [] \<Rightarrow> clean_parts rooted cs (if rooted then [] else [c])
         | t # ts \<Rightarrow> clean_parts rooted cs (if t = ''..'' then c # st else ts))
      else clean_parts rooted cs (c # st))"

definition path_Clean :: "string \<Rightarrow> string" where
  "path_Clean p =
     (if p = [] then ''.''
      else let rooted = (hd p = CHR ''/'');
               out = join_with ''/'' (rev (clean_parts rooted (split_on (CHR ''/'') p) []))
           in if rooted then CHR ''/'' # out else if out = [] then ''.'' else out)"

definition path_Join :: "string list \<Rightarrow> string" where
  "path_Join elems =
     (let es = dropWhile (\<lambda>e. e = []) elems in if es = [] then [] else path_Clean (join_with ''/'' es))"

lemma clean_parts_append: "clean_parts r (xs @ ys) st = clean_parts r ys (clean_parts r xs st)"
  by (induction r xs st rule: clean_parts.induct) (auto split: list.splits)

definition plain_part :: "string \<Rightarrow> bool" where
  "plain_part c \<longleftrightarrow> c \<noteq> [] \<and> c \<noteq> ''.'' \<and> c \<noteq> ''..'' \<and> CHR ''/'' \<notin> set c"

lemma clean_parts_plain: "plain_part c \<Longrightarrow> clean_parts r (split_on (CHR ''/'') c) st = c # st"
  by (simp add: plain_part_def split_on_free)

text \<open>An element without separators or dots ends up at the end of the cleaned path as it is.\<close>

definition cleaned :: "string \<Rightarrow> string list" where
  "cleaned p = clean_parts (hd p = CHR ''/'') (split_on (CHR ''/'') p) []"

definition solid :: "string \<Rightarrow> bool" where
  "solid p \<longleftrightarrow> p \<noteq> [] \<and> cleaned p \<noteq> [] \<and> join_with ''/'' (rev (cleaned p)) \<noteq> []"

lemma solid_extend:
  assumes "solid p" and "plain_part c"
  shows "path_Clean (p @ ''/'' @ c) = path_Clean p @ ''/'' @ c" and "solid (p @ ''/'' @ c)"
proof -
  have h: "hd (p @ ''/'' @ c) = hd p" using assms(1) by (simp add: solid_def)
  have c: "cleaned (p @ ''/'' @ c) = c # cleaned p"
    unfolding cleaned_def h using split_on_parts [of "CHR ''/''" p c] clean_parts_plain [OF assms(2)]
    by (simp add: clean_parts_append)
  have j: "join_with ''/'' (rev (cleaned (p @ ''/'' @ c))) = join_with ''/'' (rev (cleaned p)) @ ''/'' @ c"
    using assms(1) unfolding c by (simp add: solid_def join_with_snoc)
  have Clean: "path_Clean q = (if hd q = CHR ''/'' then CHR ''/'' # join_with ''/'' (rev (cleaned q))
      else join_with ''/'' (rev (cleaned q)))" if "q \<noteq> []" "join_with ''/'' (rev (cleaned q)) \<noteq> []" for q
    using that by (cases "hd q = CHR ''/''") (simp_all add: path_Clean_def cleaned_def)
  show "path_Clean (p @ ''/'' @ c) = path_Clean p @ ''/'' @ c"
    using assms(1) Clean [of p] Clean [of "p @ ''/'' @ c"] unfolding j h by (simp add: solid_def)
  show "solid (p @ ''/'' @ c)" using j c by (simp add: solid_def)
qed

section \<open>The service\<close>

datatype s3_error = NoSuchKey | NotFound | ResponseError int | OtherError

definition isNotFound :: "s3_error \<Rightarrow> bool" where
  "isNotFound err = (case err of NoSuchKey \<Rightarrow> True | NotFound \<Rightarrow> True | ResponseError code \<Rightarrow> code = 404 | OtherError \<Rightarrow> False)"

definition IsPreconditionFailed :: "s3_error \<Rightarrow> bool" where
  "IsPreconditionFailed err = (case err of ResponseError code \<Rightarrow> code = 412 | _ \<Rightarrow> False)"

record s3_object =
  ob_body :: bytes
  ob_metadata :: "(string \<times> string) list"
  ob_etag :: string

text \<open>The condition of a write: none, If-Match with an entity tag, or If-None-Match with a star.\<close>

datatype s3_condition = Always | IfMatch string | IfNoneMatch

record s3_input =
  pi_key :: string
  pi_body :: bytes
  pi_metadata :: "(string \<times> string) list"
  pi_cond :: s3_condition

text \<open>
  The calls. \<open>s3_get\<close> also gives the content length, which the SDK leaves out when the header is missing;
  \<open>s3_head\<close> gives metadata and entity tag; \<open>s3_pages\<close> the pages of a listing and whether an error follows.
\<close>

record 'w s3_api =
  s3_get :: "string \<Rightarrow> 'w \<Rightarrow> s3_error + bytes \<times> int option"
  s3_head :: "string \<Rightarrow> 'w \<Rightarrow> s3_error + (string \<times> string) list \<times> string"
  s3_put :: "s3_input \<Rightarrow> 'w \<Rightarrow> (s3_error + unit) \<times> 'w"
  s3_delete :: "string \<Rightarrow> 'w \<Rightarrow> (s3_error + unit) \<times> 'w"
  s3_pages :: "string \<Rightarrow> 'w \<Rightarrow> string list list \<times> bool"

definition cond_holds :: "s3_condition \<Rightarrow> s3_object option \<Rightarrow> bool" where
  "cond_holds c cur =
     (case c of
        Always \<Rightarrow> True
      | IfMatch tag \<Rightarrow> (case cur of None \<Rightarrow> False | Some ob \<Rightarrow> ob_etag ob = tag)
      | IfNoneMatch \<Rightarrow> cur = None)"

definition written :: "s3_input \<Rightarrow> (string \<Rightarrow> s3_object option) \<Rightarrow> (string \<Rightarrow> s3_object option) \<Rightarrow> bool" where
  "written inp old new \<longleftrightarrow>
     cond_holds (pi_cond inp) (old (pi_key inp)) \<and>
     (\<exists>tag. new = old(pi_key inp \<mapsto> \<lparr>ob_body = pi_body inp, ob_metadata = pi_metadata inp, ob_etag = tag\<rparr>))"

locale object_store_laws =
  fixes api :: "'w s3_api"
    and objs :: "'w \<Rightarrow> string \<Rightarrow> s3_object option"
  assumes get_done: "s3_get api k w = Inr (b, n) \<Longrightarrow> (\<exists>ob. objs w k = Some ob \<and> ob_body ob = b) \<and> n = Some (int (length b))"
    and get_missing: "s3_get api k w = Inl err \<Longrightarrow> isNotFound err \<Longrightarrow> objs w k = None"
    and head_done: "s3_head api k w = Inr (md, tag) \<Longrightarrow> \<exists>ob. objs w k = Some ob \<and> ob_metadata ob = md \<and> ob_etag ob = tag"
    and head_missing: "s3_head api k w = Inl err \<Longrightarrow> isNotFound err \<Longrightarrow> objs w k = None"
    and put_done: "s3_put api inp w = (Inr u, w') \<Longrightarrow> written inp (objs w) (objs w')"
    and put_unknown: "s3_put api inp w = (Inl err, w') \<Longrightarrow> objs w' = objs w \<or> written inp (objs w) (objs w')"
    and delete_done: "s3_delete api k w = (Inr u, w') \<Longrightarrow> objs w' = (objs w)(k := None)"
    and delete_missing: "s3_delete api k w = (Inl err, w') \<Longrightarrow> isNotFound err \<Longrightarrow> objs w' = (objs w)(k := None)"
    and delete_unknown: "s3_delete api k w = (Inl err, w') \<Longrightarrow> objs w' = objs w \<or> objs w' = (objs w)(k := None)"
    and listed: "s3_pages api p w = (pages, False) \<Longrightarrow>
        sorted_wrt str_less (concat pages) \<and> set (concat pages) = {k. objs w k \<noteq> None \<and> has_prefix k p}"

section \<open>The store\<close>

datatype tmp_step = TmpCreate | TmpWrite | TmpSeek

record 'w s3_blobs =
  sb_bucket :: 'w
  sb_fault :: "tmp_step \<Rightarrow> bool"

definition s3_key :: "string \<Rightarrow> string \<Rightarrow> string" where
  "s3_key prefix digest = path_Join [prefix, ''blobs'', take 2 digest, take 2 (drop 2 digest), digest]"

definition blobsPrefix :: "string \<Rightarrow> string" where
  "blobsPrefix prefix = path_Join [prefix, ''blobs''] @ ''/''"

definition existsKey :: "'w s3_api \<Rightarrow> string \<Rightarrow> 'w \<Rightarrow> blob_error + bool" where
  "existsKey api key w =
     (case s3_head api key w of
        Inr h \<Rightarrow> Inr True
      | Inl err \<Rightarrow> if isNotFound err then Inr False else Inl BlobIO)"

definition s3_Put :: "'w s3_api \<Rightarrow> (bytes \<Rightarrow> string) \<Rightarrow> string \<Rightarrow> reader \<Rightarrow> 'w s3_blobs \<Rightarrow> (blob_error + string \<times> int) \<times> 'w s3_blobs" where
  "s3_Put api sha prefix r s =
     (if sb_fault s TmpCreate then (Inl BlobIO, s)
      else if \<not> snd r then (Inl BlobRead, s)
      else if sb_fault s TmpWrite then (Inl BlobIO, s)
      else let n = int (length (fst r)); digest = sha (fst r); key = s3_key prefix digest in
        case existsKey api key (sb_bucket s) of
          Inl err \<Rightarrow> (Inl err, s)
        | Inr found \<Rightarrow>
            if found then (Inr (digest, n), s)
            else if sb_fault s TmpSeek then (Inl BlobIO, s)
            else case s3_put api \<lparr>pi_key = key, pi_body = fst r, pi_metadata = [], pi_cond = Always\<rparr> (sb_bucket s) of
                   (Inl err, w) \<Rightarrow> (Inl BlobIO, s\<lparr>sb_bucket := w\<rparr>)
                 | (Inr u, w) \<Rightarrow> (Inr (digest, n), s\<lparr>sb_bucket := w\<rparr>))"

definition s3_Open :: "'w s3_api \<Rightarrow> string \<Rightarrow> string \<Rightarrow> 'w s3_blobs \<Rightarrow> blob_error + bytes \<times> int" where
  "s3_Open api prefix digest s =
     (if \<not> validDigest digest then Inl BlobNotFound
      else case s3_get api (s3_key prefix digest) (sb_bucket s) of
             Inl err \<Rightarrow> Inl (if isNotFound err then BlobNotFound else BlobIO)
           | Inr (b, n) \<Rightarrow> Inr (b, case n of None \<Rightarrow> 0 | Some k \<Rightarrow> k))"

definition s3_Exists :: "'w s3_api \<Rightarrow> string \<Rightarrow> string \<Rightarrow> 'w s3_blobs \<Rightarrow> blob_error + bool" where
  "s3_Exists api prefix digest s =
     (if \<not> validDigest digest then Inr False else existsKey api (s3_key prefix digest) (sb_bucket s))"

definition s3_Delete :: "'w s3_api \<Rightarrow> string \<Rightarrow> string \<Rightarrow> 'w s3_blobs \<Rightarrow> (blob_error + unit) \<times> 'w s3_blobs" where
  "s3_Delete api prefix digest s =
     (if \<not> validDigest digest then (Inr (), s)
      else case s3_delete api (s3_key prefix digest) (sb_bucket s) of
             (Inr u, w) \<Rightarrow> (Inr (), s\<lparr>sb_bucket := w\<rparr>)
           | (Inl err, w) \<Rightarrow> (if isNotFound err then Inr () else Inl BlobIO, s\<lparr>sb_bucket := w\<rparr>))"

definition S3BlobStore :: "'w s3_api \<Rightarrow> (bytes \<Rightarrow> string) \<Rightarrow> string \<Rightarrow> 'w s3_blobs blob_store" where
  "S3BlobStore api sha prefix =
     \<lparr>bs_put = s3_Put api sha prefix, bs_open = s3_Open api prefix, bs_exists = s3_Exists api prefix, bs_delete = s3_Delete api prefix\<rparr>"

text \<open>The pages of a listing, the callback along each of them.\<close>

fun walk_pages :: "(string \<Rightarrow> 's \<Rightarrow> 'e option \<times> 's) \<Rightarrow> string list list \<Rightarrow> bool \<Rightarrow> 's \<Rightarrow> 'e walk_error option \<times> 's" where
  "walk_pages fn [] failed acc = (if failed then Some DirError else None, acc)"
| "walk_pages fn (page # pages) failed acc =
     (case walk_names fn (map path_base page) acc of
        (None, acc') \<Rightarrow> walk_pages fn pages failed acc'
      | (Some err, acc') \<Rightarrow> (Some err, acc'))"

definition s3_WalkDigests ::
  "'w s3_api \<Rightarrow> string \<Rightarrow> 'w s3_blobs \<Rightarrow> (string \<Rightarrow> 's \<Rightarrow> 'e option \<times> 's) \<Rightarrow> 's \<Rightarrow> 'e walk_error option \<times> 's" where
  "s3_WalkDigests api prefix s fn acc =
     (case s3_pages api (blobsPrefix prefix) (sb_bucket s) of (pages, failed) \<Rightarrow> walk_pages fn pages failed acc)"

text \<open>\<^verbatim>\<open>NewS3BlobStore\<close>: \<open>client\<close> and \<open>mkdir\<close> are whether the client and the temporary directory can be made.\<close>

definition NewS3BlobStore ::
  "'w s3_api \<Rightarrow> (bytes \<Rightarrow> string) \<Rightarrow> string \<Rightarrow> string \<Rightarrow> bool \<Rightarrow> bool \<Rightarrow> 'w s3_blobs blob_store option" where
  "NewS3BlobStore api sha bucket prefix client mkdir =
     (if bucket = [] \<or> \<not> client \<or> \<not> mkdir then None
      else Some (S3BlobStore api sha (trim_both (CHR ''/'') prefix)))"

section \<open>Keys\<close>

lemma digest_chars: "validDigest d \<Longrightarrow> c \<in> set d \<Longrightarrow> c \<noteq> CHR ''/'' \<and> c \<noteq> CHR ''.''"
  by (auto simp: validDigest_def list_all_iff is_hex_def Let_def)

lemma plain_hex: "list_all is_hex c \<Longrightarrow> c \<noteq> [] \<Longrightarrow> plain_part c"
  by (auto simp: plain_part_def list_all_iff is_hex_def Let_def)

lemma plain_digest:
  assumes "validDigest d"
  shows "plain_part (take 2 d)" "plain_part (take 2 (drop 2 d))" "plain_part d"
proof -
  have "list_all is_hex (take 2 d)" "list_all is_hex (take 2 (drop 2 d))" "list_all is_hex d" "length d = 64"
    using assms by (auto simp: validDigest_def list_all_iff dest!: in_set_takeD in_set_dropD)
  then show "plain_part (take 2 d)" "plain_part (take 2 (drop 2 d))" "plain_part d"
    by (auto intro!: plain_hex)
qed

definition blobs_dir :: "string \<Rightarrow> string" where
  "blobs_dir prefix = (if prefix = [] then ''blobs'' else prefix @ ''/'' @ ''blobs'')"

lemma solid_blobs_dir: "solid (blobs_dir prefix)"
proof (cases "prefix = []")
  case True
  then show ?thesis by (simp add: blobs_dir_def solid_def cleaned_def)
next
  case False
  have "cleaned (prefix @ ''/'' @ ''blobs'') =
      ''blobs'' # clean_parts (hd prefix = CHR ''/'') (split_on (CHR ''/'') prefix) []"
    using split_on_parts [of "CHR ''/''" prefix "''blobs''"] False by (simp add: cleaned_def clean_parts_append)
  moreover have "join_with ''/'' (xs @ [''blobs'']) \<noteq> []" for xs by (cases "xs = []") (simp_all add: join_with_snoc)
  ultimately show ?thesis using False by (simp add: blobs_dir_def solid_def)
qed

lemma blobs_base: "path_Join [prefix, ''blobs''] = path_Clean (blobs_dir prefix)"
  by (simp add: path_Join_def blobs_dir_def)

lemma s3_key_layout:
  assumes "validDigest d"
  shows "s3_key prefix d = blobsPrefix prefix @ take 2 d @ ''/'' @ take 2 (drop 2 d) @ ''/'' @ d"
proof -
  note p = plain_digest [OF assms]
  note e1 = solid_extend [OF solid_blobs_dir [of prefix] p(1)]
  note e2 = solid_extend [OF e1(2) p(2)]
  note e3 = solid_extend [OF e2(2) p(3)]
  have "s3_key prefix d = path_Clean (((blobs_dir prefix @ ''/'' @ take 2 d) @ ''/'' @ take 2 (drop 2 d)) @ ''/'' @ d)"
    by (simp add: s3_key_def path_Join_def blobs_dir_def)
  also have "\<dots> = path_Clean (blobs_dir prefix) @ ''/'' @ take 2 d @ ''/'' @ take 2 (drop 2 d) @ ''/'' @ d"
    using e1(1) e2(1) e3(1) by simp
  finally show ?thesis by (simp add: blobsPrefix_def blobs_base)
qed

lemma s3_key_prefix: "validDigest d \<Longrightarrow> has_prefix (s3_key prefix d) (blobsPrefix prefix)"
  by (simp add: s3_key_layout has_prefix_def)

lemma s3_key_inj: "validDigest d \<Longrightarrow> validDigest e \<Longrightarrow> s3_key prefix d = s3_key prefix e \<longleftrightarrow> d = e"
  by (auto simp: s3_key_layout validDigest_def)

lemma s3_key_base:
  assumes "validDigest d"
  shows "path_base (s3_key prefix d) = d"
proof -
  let ?p = "blobsPrefix prefix @ take 2 d @ ''/'' @ take 2 (drop 2 d) @ ''/''"
  have k: "s3_key prefix d = ?p @ d" using s3_key_layout [OF assms] by simp
  have d: "d \<noteq> []" "\<forall>c \<in> set d. c \<noteq> CHR ''/''" using assms digest_chars [OF assms] by (auto simp: validDigest_def)
  then have "trim_right (CHR ''/'') (?p @ d) = ?p @ d"
    by (cases d rule: rev_cases) (auto simp: trim_right_def)
  moreover have "rev (takeWhile (\<lambda>c. c \<noteq> CHR ''/'') (rev (?p @ d))) = d"
    using d(2) by (simp add: takeWhile_append)
  ultimately show ?thesis using d(1) unfolding k path_base_def by (simp add: Let_def)
qed

lemma str_less_split:
  "length p = length q \<Longrightarrow> str_less (p @ s) (q @ t) \<longleftrightarrow> str_less p q \<or> p = q \<and> str_less s t"
  by (induction p q rule: list_induct2) auto

lemma s3_key_order:
  assumes "validDigest d" and "validDigest e"
  shows "str_less (s3_key prefix d) (s3_key prefix e) \<longleftrightarrow> str_less d e"
proof -
  have len: "length (take 2 d) = length (take 2 e)" "length (take 2 (drop 2 d)) = length (take 2 (drop 2 e))"
    using assms by (simp_all add: validDigest_def)
  have parts: "d = take 2 d @ take 2 (drop 2 d) @ drop 4 d" "e = take 2 e @ take 2 (drop 2 e) @ drop 4 e"
    by (metis append.assoc append_take_drop_id drop_drop numeral_Bit0 one_add_one take_add)+
  have "str_less d e \<longleftrightarrow> str_less (take 2 d) (take 2 e) \<or> take 2 d = take 2 e \<and>
      (str_less (take 2 (drop 2 d)) (take 2 (drop 2 e)) \<or> take 2 (drop 2 d) = take 2 (drop 2 e) \<and> str_less (drop 4 d) (drop 4 e))"
    unfolding str_less_split [OF len(1), symmetric] str_less_split [OF len(2), symmetric] parts [symmetric] ..
  moreover have "str_less (s3_key prefix d) (s3_key prefix e) \<longleftrightarrow> str_less (take 2 d) (take 2 e) \<or> take 2 d = take 2 e \<and>
      (str_less (take 2 (drop 2 d)) (take 2 (drop 2 e)) \<or> take 2 (drop 2 d) = take 2 (drop 2 e) \<and> str_less d e)"
    using assms by (simp add: s3_key_layout str_less_append str_less_split [OF len(1)] str_less_split [OF len(2)])
  ultimately show ?thesis by (metis (no_types, lifting) str_less_irrefl)
qed

section \<open>A blob store\<close>

definition s3_view :: "('w \<Rightarrow> string \<Rightarrow> s3_object option) \<Rightarrow> string \<Rightarrow> 'w s3_blobs \<Rightarrow> string \<Rightarrow> bytes option" where
  "s3_view objs prefix s d = (if validDigest d then map_option ob_body (objs (sb_bucket s) (s3_key prefix d)) else None)"

text \<open>Under the prefix of the blobs there is nothing but blobs at their keys; elsewhere there may be anything.\<close>

definition s3_ok :: "('w \<Rightarrow> string \<Rightarrow> s3_object option) \<Rightarrow> (bytes \<Rightarrow> string) \<Rightarrow> string \<Rightarrow> 'w s3_blobs \<Rightarrow> bool" where
  "s3_ok objs sha prefix s \<longleftrightarrow> hex_digest sha \<and>
     (\<forall>k ob. objs (sb_bucket s) k = Some ob \<and> has_prefix k (blobsPrefix prefix) \<longrightarrow> k = s3_key prefix (sha (ob_body ob)))"

context object_store_laws
begin

lemma exists_known: "existsKey api k w = Inr found \<Longrightarrow> found \<longleftrightarrow> objs w k \<noteq> None"
  using head_done [of k w] head_missing [of k w] by (auto simp: existsKey_def split: sum.splits if_splits)

lemma ok_written:
  assumes "s3_ok objs sha prefix s" and "written \<lparr>pi_key = s3_key prefix (sha b), pi_body = b, pi_metadata = md, pi_cond = c\<rparr> (objs (sb_bucket s)) (objs w)"
  shows "s3_ok objs sha prefix (s\<lparr>sb_bucket := w\<rparr>)"
    and "s3_view objs prefix (s\<lparr>sb_bucket := w\<rparr>) = (s3_view objs prefix s)(sha b \<mapsto> b)"
proof -
  have v: "validDigest (sha b)" using assms(1) by (simp add: s3_ok_def hex_digest_def)
  from assms(2) obtain ob where w: "objs w = (objs (sb_bucket s))(s3_key prefix (sha b) \<mapsto> ob)" "ob_body ob = b"
    by (auto simp: written_def)
  show "s3_ok objs sha prefix (s\<lparr>sb_bucket := w\<rparr>)" using assms(1) w by (auto simp: s3_ok_def)
  show "s3_view objs prefix (s\<lparr>sb_bucket := w\<rparr>) = (s3_view objs prefix s)(sha b \<mapsto> b)"
    using v w by (auto simp: s3_view_def fun_eq_iff s3_key_inj)
qed

lemma ok_removed:
  assumes "s3_ok objs sha prefix s" and "validDigest d" and "objs w = (objs (sb_bucket s))(s3_key prefix d := None)"
  shows "s3_ok objs sha prefix (s\<lparr>sb_bucket := w\<rparr>)"
    and "s3_view objs prefix (s\<lparr>sb_bucket := w\<rparr>) = (s3_view objs prefix s)(d := None)"
  using assms by (auto simp: s3_ok_def s3_view_def fun_eq_iff s3_key_inj split: if_splits)

lemma ok_same:
  assumes "objs w = objs (sb_bucket s)"
  shows "s3_ok objs sha prefix (s\<lparr>sb_bucket := w\<rparr>) = s3_ok objs sha prefix s"
    and "s3_view objs prefix (s\<lparr>sb_bucket := w\<rparr>) = s3_view objs prefix s"
  using assms by (simp_all add: s3_ok_def s3_view_def fun_eq_iff)

lemma s3_Put_cases:
  assumes "s3_ok objs sha prefix s" and "s3_Put api sha prefix r s = (res, s')"
  obtains e where "res = Inl e" and "s' = s"
  | e where "res = Inl e" and "s3_ok objs sha prefix s'"
      and "s3_view objs prefix s' = s3_view objs prefix s \<or> s3_view objs prefix s' = (s3_view objs prefix s)(sha (fst r) \<mapsto> fst r)"
  | "snd r" and "res = Inr (sha (fst r), int (length (fst r)))" and "s' = s" and "s3_view objs prefix s (sha (fst r)) \<noteq> None"
  | "snd r" and "res = Inr (sha (fst r), int (length (fst r)))" and "s3_ok objs sha prefix s'"
      and "s3_view objs prefix s' = (s3_view objs prefix s)(sha (fst r) \<mapsto> fst r)"
proof -
  let ?key = "s3_key prefix (sha (fst r))" and ?w = "sb_bucket s"
  let ?inp = "\<lparr>pi_key = ?key, pi_body = fst r, pi_metadata = [], pi_cond = Always\<rparr>"
  have v: "validDigest (sha (fst r))" using assms(1) by (simp add: s3_ok_def hex_digest_def)
  show thesis
  proof (cases "sb_fault s TmpCreate \<or> \<not> snd r \<or> sb_fault s TmpWrite")
    case True
    then have "s3_Put api sha prefix r s = (Inl (if sb_fault s TmpCreate \<or> snd r then BlobIO else BlobRead), s)"
      by (cases "sb_fault s TmpCreate"; cases "snd r") (simp_all add: s3_Put_def)
    with assms(2) show ?thesis by (intro that(1)) auto
  next
    case False
    then have r: "snd r" by simp
    show ?thesis
    proof (cases "existsKey api ?key ?w")
      case (Inl e)
      with False assms(2) show ?thesis by (intro that(1)) (auto simp: s3_Put_def Let_def)
    next
      case (Inr found)
      show ?thesis
      proof (cases "found \<or> sb_fault s TmpSeek")
        case True
        show ?thesis
        proof (cases found)
          case True
          with False Inr assms(2) r exists_known [OF Inr] v show ?thesis
            by (intro that(3)) (auto simp: s3_Put_def Let_def s3_view_def)
        next
          case found: False
          with False True Inr assms(2) show ?thesis by (intro that(1)) (auto simp: s3_Put_def Let_def)
        qed
      next
        case put: False
        obtain x w where x: "s3_put api ?inp ?w = (x, w)" by fastforce
        show ?thesis
        proof (cases x)
          case (Inl err)
          have res: "res = Inl BlobIO" "s' = s\<lparr>sb_bucket := w\<rparr>"
            using False Inr put x Inl assms(2) by (simp_all add: s3_Put_def Let_def)
          have "objs w = objs ?w \<or> written ?inp (objs ?w) (objs w)" using put_unknown x Inl by blast
          then show ?thesis
            using res assms(1) ok_same [of w s] ok_written [OF assms(1), of "fst r" "[]" Always w] by (intro that(2)) auto
        next
          case (Inr u)
          have res: "res = Inr (sha (fst r), int (length (fst r)))" "s' = s\<lparr>sb_bucket := w\<rparr>"
            using False \<open>existsKey api ?key ?w = Inr found\<close> put x Inr assms(2) by (simp_all add: s3_Put_def Let_def)
          have "written ?inp (objs ?w) (objs w)" using put_done x Inr by blast
          then show ?thesis
            using res r ok_written [OF assms(1), of "fst r" "[]" Always w] by (intro that(4)) auto
        qed
      qed
    qed
  qed
qed

lemma s3_Delete_cases:
  assumes "s3_ok objs sha prefix s" and "s3_Delete api prefix d s = (res, s')"
  shows "s3_ok objs sha prefix s' \<and>
    (s3_view objs prefix s' = (s3_view objs prefix s)(d := None) \<or> isl res \<and> s3_view objs prefix s' = s3_view objs prefix s)"
proof (cases "validDigest d")
  case False
  with assms show ?thesis by (auto simp: s3_Delete_def s3_view_def fun_eq_iff)
next
  case True
  obtain x w where w: "s3_delete api (s3_key prefix d) (sb_bucket s) = (x, w)" by fastforce
  have s': "s' = s\<lparr>sb_bucket := w\<rparr>" using assms(2) True w by (auto simp: s3_Delete_def split: sum.splits)
  consider "objs w = (objs (sb_bucket s))(s3_key prefix d := None)" | "isl res" "objs w = objs (sb_bucket s)"
    using assms(2) True w delete_done [of "s3_key prefix d" "sb_bucket s" _ w] delete_missing [of "s3_key prefix d" "sb_bucket s" _ w]
      delete_unknown [of "s3_key prefix d" "sb_bucket s" _ w]
    by (cases x) (auto simp: s3_Delete_def split: if_splits)
  then show ?thesis
    using assms(1) ok_removed [OF assms(1) True] ok_same [of w s] unfolding s' by cases simp_all
qed

sublocale s3: blob_store_laws "S3BlobStore api sha prefix" sha "s3_view objs prefix" "s3_ok objs sha prefix" for sha prefix
proof (unfold_locales, goal_cases)
  case (1 s d b)
  then obtain ob where d: "validDigest d" "objs (sb_bucket s) (s3_key prefix d) = Some ob" "ob_body ob = b"
    by (auto simp: s3_view_def split: if_splits)
  then have "s3_key prefix d = s3_key prefix (sha b)" using 1(1) s3_key_prefix [OF d(1)] by (auto simp: s3_ok_def)
  then show ?case using d(1) 1(1) by (simp add: s3_key_inj s3_ok_def hex_digest_def)
next
  case (2 s r)
  then show ?case
    by (cases rule: s3_Put_cases [OF 2, of r "fst (s3_Put api sha prefix r s)" "snd (s3_Put api sha prefix r s)"])
      (simp_all add: S3BlobStore_def)
next
  case (3 s d)
  then show ?case
    using s3_Delete_cases [OF 3, of d "fst (s3_Delete api prefix d s)" "snd (s3_Delete api prefix d s)"] by (simp add: S3BlobStore_def)
next
  case (4 s r d n s')
  then show ?case
    by (cases rule: s3_Put_cases [OF 4(1), of r "Inr (d, n)" s']) (auto simp: S3BlobStore_def)
next
  case (5 s r e s')
  then show ?case
    by (cases rule: s3_Put_cases [OF 5(1), of r "Inl e" s']) (auto simp: S3BlobStore_def)
next
  case (6 s d b n)
  then show ?case
    using get_done [of "s3_key prefix d" "sb_bucket s"]
    by (fastforce simp: S3BlobStore_def s3_Open_def s3_view_def split: if_splits sum.splits prod.splits)
next
  case (7 s d found)
  then show ?case
    using exists_known [of "s3_key prefix d" "sb_bucket s" found]
    by (auto simp: S3BlobStore_def s3_Exists_def s3_view_def split: if_splits)
next
  case (8 s d u s')
  then show ?case using s3_Delete_cases [OF 8(1), of d "Inr u" s'] by (simp add: S3BlobStore_def)
next
  case (9 s d e s')
  then show ?case using s3_Delete_cases [OF 9(1), of d "Inl e" s'] by (auto simp: S3BlobStore_def)
qed

text \<open>The walk visits exactly the stored digests, in their order.\<close>

lemma walk_visits:
  assumes "s3_ok objs sha prefix s" and "s3_pages api (blobsPrefix prefix) (sb_bucket s) = (pages, False)"
  shows "filter validDigest (map path_base (concat pages)) = map path_base (concat pages)"
    and "sorted_wrt str_less (map path_base (concat pages))"
    and "set (map path_base (concat pages)) = dom (s3_view objs prefix s)"
proof -
  note l = listed [OF assms(2)]
  have v: "validDigest (sha b)" for b using assms(1) by (simp add: s3_ok_def hex_digest_def)
  have k: "\<exists>d. validDigest d \<and> k = s3_key prefix d" if k: "k \<in> set (concat pages)" for k
  proof -
    obtain ob where "objs (sb_bucket s) k = Some ob" "has_prefix k (blobsPrefix prefix)" using l k by blast
    then have "k = s3_key prefix (sha (ob_body ob))" using assms(1) unfolding s3_ok_def by blast
    with v show ?thesis by blast
  qed
  show "filter validDigest (map path_base (concat pages)) = map path_base (concat pages)"
    using k by (auto simp: filter_id_conv s3_key_base simp del: set_concat dest!: k)
  have "sorted_wrt (\<lambda>x y. str_less (path_base x) (path_base y)) (concat pages)"
  proof (rule sorted_wrt_mono_rel [rotated])
    show "sorted_wrt str_less (concat pages)" using l by blast
    show "str_less (path_base x) (path_base y)" if "x \<in> set (concat pages)" "y \<in> set (concat pages)" "str_less x y" for x y
      using k [OF that(1)] k [OF that(2)] that(3) by (auto simp: s3_key_base s3_key_order)
  qed
  then show "sorted_wrt str_less (map path_base (concat pages))" by (simp add: sorted_wrt_map)
  show "set (map path_base (concat pages)) = dom (s3_view objs prefix s)"
  proof (intro set_eqI iffI)
    fix d assume "d \<in> set (map path_base (concat pages))"
    then obtain k' where "k' \<in> set (concat pages)" "d = path_base k'" by auto
    with k [OF this(1)] l show "d \<in> dom (s3_view objs prefix s)" by (auto simp: s3_view_def s3_key_base)
  next
    fix d assume "d \<in> dom (s3_view objs prefix s)"
    then have d: "validDigest d" "objs (sb_bucket s) (s3_key prefix d) \<noteq> None" by (auto simp: s3_view_def split: if_splits)
    then have "s3_key prefix d \<in> set (concat pages)" using l s3_key_prefix [OF d(1)] by blast
    then show "d \<in> set (map path_base (concat pages))" using s3_key_base [OF d(1)] by (metis imageI image_set)
  qed
qed

lemma s3_engine_safe:
  assumes "hex_digest sha" and "\<forall>k. has_prefix k (blobsPrefix prefix) \<longrightarrow> objs (sb_bucket s) k = None"
    and "engine_runs (S3BlobStore api sha prefix) (empty_engine s) e" and "a \<in> set (st_artifacts (en_store e))"
  shows "\<exists>ob. objs (sb_bucket (en_blobs e)) (s3_key prefix (a_blob_sha256 a)) = Some ob \<and> sha (ob_body ob) = a_blob_sha256 a"
proof -
  have "s3_ok objs sha prefix s" using assms(1,2) by (auto simp: s3_ok_def)
  then have "engine_inv (s3_view objs prefix) (s3_ok objs sha prefix) (empty_engine s)" by (rule empty_engine_inv)
  with assms(3) have inv: "engine_inv (s3_view objs prefix) (s3_ok objs sha prefix) e" by (rule s3.engine_runs_inv)
  moreover have "a_blob_sha256 a \<in> used_shas (en_store e)" using assms(4) by (simp add: used_shas_def)
  ultimately obtain b where b: "s3_view objs prefix (en_blobs e) (a_blob_sha256 a) = Some b"
    and ok: "s3_ok objs sha prefix (en_blobs e)" unfolding engine_inv_def by blast
  from s3.addressed [OF ok b] b show ?thesis by (auto simp: s3_view_def split: if_splits)
qed

end

lemma walk_pages_list:
  "walk_pages fn pages False acc =
     map_prod (map_option FnError) id (until_error fn (filter validDigest (map path_base (concat pages))) acc)"
  by (induction pages arbitrary: acc) (auto simp: walk_names_list until_error_append split: prod.splits option.splits)


text \<open>
  Walking the bucket with a callback that does not fail calls it once for each stored digest and for
  nothing else, in the order of the digests, which replication relies on.
\<close>

theorem s3_walk_enumerates:
  assumes "object_store_laws api objs" and "s3_ok objs sha prefix s"
    and "s3_pages api (blobsPrefix prefix) (sb_bucket s) = (pages, False)"
  shows "\<exists>ds. s3_WalkDigests api prefix s (\<lambda>d acc. (None :: unit option, acc @ [d])) [] = (None, ds) \<and>
    sorted_wrt str_less ds \<and> set ds = dom (s3_view objs prefix s)"
proof -
  have "until_error (\<lambda>d acc. (None :: unit option, acc @ [d])) xs acc = (None, acc @ xs)" for xs acc
    by (induction xs arbitrary: acc) auto
  with object_store_laws.walk_visits [OF assms] assms(3) show ?thesis
    by (simp add: s3_WalkDigests_def walk_pages_list)
qed

section \<open>A bucket\<close>

text \<open>
  Objects under their keys, a count of the writes, and how each call fares: it works, is refused, or
  is carried out while its answer gets lost. \<open>tag\<close> makes an entity tag from the bytes and the count.
\<close>

datatype s3_call = CallGet | CallHead | CallPut | CallDelete | CallList

datatype s3_fate = Works | Refused | AnswerLost

record bucket =
  bk_objects :: "(string \<times> s3_object) list"
  bk_writes :: nat
  bk_fate :: "s3_call \<Rightarrow> s3_fate"

definition find_object :: "bucket \<Rightarrow> string \<Rightarrow> s3_object option" where
  "find_object w k = map_of (bk_objects w) k"

definition bucket_get :: "string \<Rightarrow> bucket \<Rightarrow> s3_error + bytes \<times> int option" where
  "bucket_get k w =
     (if bk_fate w CallGet \<noteq> Works then Inl OtherError
      else case find_object w k of None \<Rightarrow> Inl NoSuchKey | Some ob \<Rightarrow> Inr (ob_body ob, Some (int (length (ob_body ob)))))"

definition bucket_head :: "string \<Rightarrow> bucket \<Rightarrow> s3_error + (string \<times> string) list \<times> string" where
  "bucket_head k w =
     (if bk_fate w CallHead \<noteq> Works then Inl OtherError
      else case find_object w k of None \<Rightarrow> Inl NotFound | Some ob \<Rightarrow> Inr (ob_metadata ob, ob_etag ob))"

definition bucket_put :: "(bytes \<Rightarrow> nat \<Rightarrow> string) \<Rightarrow> s3_input \<Rightarrow> bucket \<Rightarrow> (s3_error + unit) \<times> bucket" where
  "bucket_put tag inp w =
     (if bk_fate w CallPut = Refused then (Inl OtherError, w)
      else if \<not> cond_holds (pi_cond inp) (find_object w (pi_key inp)) then (Inl (ResponseError 412), w)
      else (if bk_fate w CallPut = Works then Inr () else Inl OtherError,
            w\<lparr>bk_objects := (pi_key inp, \<lparr>ob_body = pi_body inp, ob_metadata = pi_metadata inp,
                 ob_etag = tag (pi_body inp) (bk_writes w)\<rparr>) # filter (\<lambda>e. fst e \<noteq> pi_key inp) (bk_objects w),
              bk_writes := Suc (bk_writes w)\<rparr>))"

definition bucket_delete :: "string \<Rightarrow> bucket \<Rightarrow> (s3_error + unit) \<times> bucket" where
  "bucket_delete k w =
     (if bk_fate w CallDelete = Refused then (Inl OtherError, w)
      else (if bk_fate w CallDelete = Works then Inr () else Inl OtherError,
            w\<lparr>bk_objects := filter (\<lambda>e. fst e \<noteq> k) (bk_objects w)\<rparr>))"

definition bucket_pages :: "string \<Rightarrow> bucket \<Rightarrow> string list list \<times> bool" where
  "bucket_pages p w =
     (if bk_fate w CallList \<noteq> Works then ([], True)
      else ([str_sort (remdups (filter (\<lambda>k. has_prefix k p) (map fst (bk_objects w))))], False))"

definition bucket_api :: "(bytes \<Rightarrow> nat \<Rightarrow> string) \<Rightarrow> bucket s3_api" where
  "bucket_api tag = \<lparr>s3_get = bucket_get, s3_head = bucket_head, s3_put = bucket_put tag, s3_delete = bucket_delete, s3_pages = bucket_pages\<rparr>"

lemma find_object_put:
  "bucket_put tag inp w = (res, w') \<Longrightarrow>
   res = Inr () \<and> written inp (find_object w) (find_object w') \<or>
   isl res \<and> (find_object w' = find_object w \<or> written inp (find_object w) (find_object w'))"
  by (auto simp: bucket_put_def written_def find_object_def [abs_def] map_of_filter_key fun_eq_iff split: if_splits)

lemma find_object_delete:
  "bucket_delete k w = (res, w') \<Longrightarrow>
   res = Inr () \<and> find_object w' = (find_object w)(k := None) \<or>
   res = Inl OtherError \<and> (find_object w' = find_object w \<or> find_object w' = (find_object w)(k := None))"
  by (auto simp: bucket_delete_def find_object_def [abs_def] map_of_filter_key split: if_splits)

interpretation bucket: object_store_laws "bucket_api tag" find_object for tag
proof (unfold_locales, goal_cases)
  case (1 k w b n)
  then show ?case by (auto simp: bucket_api_def bucket_get_def split: if_splits option.splits)
next
  case (2 k w err)
  then show ?case by (auto simp: bucket_api_def bucket_get_def isNotFound_def split: if_splits option.splits)
next
  case (3 k w md t)
  then show ?case by (auto simp: bucket_api_def bucket_head_def split: if_splits option.splits)
next
  case (4 k w err)
  then show ?case by (auto simp: bucket_api_def bucket_head_def isNotFound_def split: if_splits option.splits)
next
  case (5 inp w u w')
  then show ?case using find_object_put [of tag inp w "Inr u" w'] by (simp add: bucket_api_def)
next
  case (6 inp w err w')
  then show ?case using find_object_put [of tag inp w "Inl err" w'] by (simp add: bucket_api_def)
next
  case (7 k w u w')
  then show ?case using find_object_delete [of k w "Inr u" w'] by (simp add: bucket_api_def)
next
  case (8 k w err w')
  then show ?case using find_object_delete [of k w "Inl err" w'] by (auto simp: bucket_api_def isNotFound_def)
next
  case (9 k w err w')
  then show ?case using find_object_delete [of k w "Inl err" w'] by (simp add: bucket_api_def)
next
  case (10 p w pages)
  have "find_object w k \<noteq> None \<longleftrightarrow> k \<in> fst ` set (bk_objects w)" for k
    unfolding find_object_def by (simp add: map_of_eq_None_iff)
  with 10 show ?case by (auto simp: bucket_api_def bucket_pages_def sorted_str_sort split: if_splits)
qed

text \<open>An upload to an empty bucket.\<close>

definition fresh_bucket :: "bucket s3_blobs" where
  "fresh_bucket = \<lparr>sb_bucket = \<lparr>bk_objects = [], bk_writes = 0, bk_fate = (\<lambda>c. Works)\<rparr>, sb_fault = (\<lambda>t. False)\<rparr>"

definition count_tag :: "bytes \<Rightarrow> nat \<Rightarrow> string" where
  "count_tag b n = replicate n (CHR ''x'')"

definition bucket_store :: "bucket s3_blobs blob_store" where
  "bucket_store = S3BlobStore (bucket_api count_tag) toy_sha ''forklift''"

definition bucket_env :: "bucket s3_blobs env" where
  "bucket_env = \<lparr>ev_blobs = bucket_store, ev_fetch = (\<lambda>_ _. None), ev_parse_date = (\<lambda>_. None), ev_now = 5\<rparr>"

definition bucket_run :: "bucket s3_blobs engine" where
  "bucket_run = snd (engine_put bucket_env demo_repo ''a'' ''1'' [] None (''x'', True)
     ((empty_engine fresh_bucket)\<lparr>en_store := snd (CreateRepository 1 demo_repo empty_store)\<rparr>))"

lemma bucket_run_runs: "engine_runs bucket_store (empty_engine fresh_bucket) bucket_run"
proof -
  have "engine_step bucket_store (empty_engine fresh_bucket) ((empty_engine fresh_bucket)\<lparr>en_store := snd (CreateRepository 1 demo_repo empty_store)\<rparr>)"
    using st_meta [of "OpCreateRepo 1 demo_repo" bucket_store "empty_engine fresh_bucket"] by (simp add: empty_engine_def)
  moreover have "engine_step bucket_store ((empty_engine fresh_bucket)\<lparr>en_store := snd (CreateRepository 1 demo_repo empty_store)\<rparr>) bucket_run"
    unfolding bucket_run_def by (rule st_put) (simp add: bucket_env_def)
  ultimately show ?thesis unfolding engine_runs_def by (meson converse_rtranclp_into_rtranclp rtranclp.rtrancl_refl)
qed


theorem s3_walk_enumerates_witness:
  "\<exists>ds. s3_WalkDigests (bucket_api count_tag) ''forklift'' (en_blobs bucket_run) (\<lambda>d acc. (None :: unit option, acc @ [d])) [] = (None, ds) \<and>
     sorted_wrt str_less ds"
proof -
  have "s3_ok find_object toy_sha ''forklift'' fresh_bucket"
    using hex_digest_toy by (simp add: s3_ok_def fresh_bucket_def find_object_def)
  then have "engine_inv (s3_view find_object ''forklift'') (s3_ok find_object toy_sha ''forklift'') (empty_engine fresh_bucket)"
    by (rule empty_engine_inv)
  with bucket_run_runs [unfolded bucket_store_def] have "s3_ok find_object toy_sha ''forklift'' (en_blobs bucket_run)"
    using bucket.s3.engine_runs_inv unfolding engine_inv_def by blast
  moreover have "snd (s3_pages (bucket_api count_tag) (blobsPrefix ''forklift'') (sb_bucket (en_blobs bucket_run))) = False" by code_simp
  then obtain pages where "s3_pages (bucket_api count_tag) (blobsPrefix ''forklift'') (sb_bucket (en_blobs bucket_run)) = (pages, False)"
    by (metis prod.collapse)
  ultimately show ?thesis using s3_walk_enumerates [OF bucket.object_store_laws_axioms] by blast
qed

end
