(* ===== verification/Replication.thy ===== *)
theory Replication
  imports Listings Http
begin

text \<open>
  Active/standby replication (\<^verbatim>\<open>internal/replication\<close>: \<^verbatim>\<open>source.go\<close>, \<^verbatim>\<open>replicator.go\<close>, and the snapshot
  functions of \<^verbatim>\<open>internal/meta/meta.go\<close>). The leader serves its database, pages of its blob digests and
  the blobs; the standby downloads the database, mirrors the blobs by merging two sorted listings, and
  keeps the snapshot for the day it is promoted.

  Within one cycle the standby asks for each page and each blob once, so the leader's answers are
  functions of the request, whatever the leader does meanwhile. The local walk is pulled step by step
  while the merge stores and deletes blobs, all of them at or before the digest the walk has reached, so
  the walk gives the digests that were there at the start. The merge loop follows the leader's pages,
  which need not end: it is a partial function, and ends whenever the pages are a finite sorted listing.
\<close>

section \<open>The leader\<close>

abbreviation (input) defaultPageSize :: nat where "defaultPageSize \<equiv> 1000"

definition requireToken :: "string \<Rightarrow> request \<Rightarrow> wop list option" where
  "requireToken token r =
     (if token = [] \<or> header_get (rq_headers r) ''Authorization'' \<noteq> ''Bearer '' @ token
      then Some (http_Error ''unauthorized'' 401) else None)"

text \<open>\<open>snapshot\<close> is the file \<^verbatim>\<open>VACUUM INTO\<close> wrote, \<open>None\<close> when making or opening it fails.\<close>

definition handleDB :: "bytes option \<Rightarrow> wop list" where
  "handleDB snapshot =
     (case snapshot of
        None \<Rightarrow> http_Error ''snapshot failed'' 500
      | Some b \<Rightarrow> [SetHeader ''Content-Type'' ''application/octet-stream'',
                   SetHeader ''Content-Length'' (Itoa (int (length b))), WriteBytes b])"

definition list_limit :: "string \<Rightarrow> nat option" where
  "list_limit v =
     (if v = [] then Some defaultPageSize
      else case Atoi v of
             None \<Rightarrow> None
           | Some n \<Rightarrow> if n \<le> 0 \<or> int defaultPageSize < n then None else Some (nat n))"

definition handleListBlobs :: "(string list \<Rightarrow> bytes) \<Rightarrow> store \<Rightarrow> string \<Rightarrow> string \<Rightarrow> wop list" where
  "handleListBlobs encode st after lim =
     (case list_limit lim of
        None \<Rightarrow> http_Error ''invalid limit'' 400
      | Some n \<Rightarrow>
          (case ListBlobDigests st after n of
             Inl e \<Rightarrow> http_Error ''list failed'' 500
           | Inr digests \<Rightarrow> [SetHeader ''Content-Type'' ''application/json'', WriteBytes (encode digests)]))"

definition handleGetBlob :: "'b blob_store \<Rightarrow> string \<Rightarrow> 'b \<Rightarrow> wop list" where
  "handleGetBlob bs digest s =
     (case bs_open bs digest s of
        Inl e \<Rightarrow> if e = BlobNotFound then http_Error ''not found'' 404 else http_Error ''open failed'' 500
      | Inr (b, n) \<Rightarrow> [SetHeader ''Content-Type'' ''application/octet-stream'', SetHeader ''Content-Length'' (Itoa n), WriteBytes b])"

section \<open>What the standby sees of it\<close>

datatype blob_answer = BlobUnreachable | BlobStatus int | BlobBody reader

text \<open>
  \<open>ld_db\<close> is the answer to the request for the database: no response, or a status and the database the
  body holds.
\<close>

record leader =
  ld_db :: "(int \<times> store) option"
  ld_page :: "string \<Rightarrow> string list option"
  ld_blob :: "string \<Rightarrow> blob_answer"

text \<open>A blob store that can be walked: the digests it visits, and whether the walk fails after them.\<close>

record 'b walkable =
  wk_blobs :: "'b blob_store"
  wk_walk :: "'b \<Rightarrow> string list \<times> bool"

datatype disk_step = MkReplicaDir | CreateTmp | CopyBody | SyncTmp | CloseTmp | CommitRename

definition downloadSnapshot :: "(disk_step \<Rightarrow> bool) \<Rightarrow> (int \<times> store) option \<Rightarrow> store option" where
  "downloadSnapshot fault resp =
     (if fault MkReplicaDir then None
      else case resp of
             None \<Rightarrow> None
           | Some (code, db) \<Rightarrow>
               if code \<noteq> 200 then None
               else if fault CreateTmp \<or> fault CopyBody \<or> fault SyncTmp \<or> fault CloseTmp then None
               else Some db)"

datatype repl_error =
    ResolveLeader | SyncDB | WalkLocal | ListLeader | FetchFailed string | StoreFailed string
  | DigestMismatch string string | DeleteFailed string | CommitSnapshot | ApplySnapshot

definition get_request :: "string \<Rightarrow> request" where
  "get_request token = \<lparr>rq_method = MethodGet, rq_repo = [], rq_wild = [],
     rq_headers = [(''Authorization'', ''Bearer '' @ token)], rq_remote_addr = [], rq_via_group = False,
     rq_group_name = [], rq_principal = None, rq_body = ([], True), rq_host = [], rq_tls = False\<rparr>"

text \<open>\<open>decode\<close> is the JSON decoder of a page; no response is a transport error.\<close>

definition fetchBlobPage :: "(bytes \<Rightarrow> string list option) \<Rightarrow> response option \<Rightarrow> string list option" where
  "fetchBlobPage decode resp =
     (case resp of
        None \<Rightarrow> None
      | Some r \<Rightarrow> if rs_status r \<noteq> Some 200 then None else decode (rs_body r))"

definition blob_answer_of :: "response option \<Rightarrow> blob_answer" where
  "blob_answer_of resp =
     (case resp of
        None \<Rightarrow> BlobUnreachable
      | Some r \<Rightarrow> if rs_status r = Some 200 then BlobBody (rs_body r, True) else BlobStatus (the (rs_status r)))"

definition fetchBlob :: "'b blob_store \<Rightarrow> leader \<Rightarrow> string \<Rightarrow> 'b \<Rightarrow> (repl_error + unit) \<times> 'b" where
  "fetchBlob bs ld digest s =
     (case ld_blob ld digest of
        BlobUnreachable \<Rightarrow> (Inl (FetchFailed digest), s)
      | BlobStatus code \<Rightarrow> if code = 404 then (Inr (), s) else (Inl (FetchFailed digest), s)
      | BlobBody r \<Rightarrow>
          (case bs_put bs r s of
             (Inl e, s1) \<Rightarrow> (Inl (StoreFailed digest), s1)
           | (Inr (got, n), s1) \<Rightarrow>
               if got \<noteq> digest then (Inl (DigestMismatch digest got), snd (bs_delete bs got s1))
               else (Inr (), s1)))"

text \<open>The pages as a sequence: what is left of the current page, and the cursor of the next.\<close>

datatype remote_head = RFailed | REnd | RDigest string

type_synonym remote = "string list \<times> string"

definition next_remote :: "leader \<Rightarrow> remote \<Rightarrow> remote_head \<times> remote" where
  "next_remote ld = (\<lambda>(pending, after).
     case pending of
       d # ds \<Rightarrow> (RDigest d, ds, after)
     | [] \<Rightarrow>
         (case ld_page ld after of
            None \<Rightarrow> (RFailed, [], after)
          | Some [] \<Rightarrow> (REnd, [], after)
          | Some (d # ds) \<Rightarrow> (RDigest d, ds, last (d # ds))))"

partial_function (option) mirror_loop ::
  "'b blob_store \<Rightarrow> leader \<Rightarrow> string list \<Rightarrow> bool \<Rightarrow> remote_head \<Rightarrow> remote \<Rightarrow> 'b \<Rightarrow> ((repl_error + unit) \<times> 'b) option" where
  "mirror_loop bs ld ls lerr rd rm s =
     (if ls = [] \<and> lerr then Some (Inl WalkLocal, s)
      else if rd = RFailed then Some (Inl ListLeader, s)
      else case (ls, rd) of
             ([], REnd) \<Rightarrow> Some (Inr (), s)
           | ([], RDigest r) \<Rightarrow>
               (case fetchBlob bs ld r s of
                  (Inl e, s1) \<Rightarrow> Some (Inl e, s1)
                | (Inr u, s1) \<Rightarrow> mirror_loop bs ld [] lerr (fst (next_remote ld rm)) (snd (next_remote ld rm)) s1)
           | (l # ls1, REnd) \<Rightarrow>
               (case bs_delete bs l s of
                  (Inl e, s1) \<Rightarrow> Some (Inl (DeleteFailed l), s1)
                | (Inr u, s1) \<Rightarrow> mirror_loop bs ld ls1 lerr rd rm s1)
           | (l # ls1, RDigest r) \<Rightarrow>
               if str_less r l then
                 (case fetchBlob bs ld r s of
                    (Inl e, s1) \<Rightarrow> Some (Inl e, s1)
                  | (Inr u, s1) \<Rightarrow> mirror_loop bs ld (l # ls1) lerr (fst (next_remote ld rm)) (snd (next_remote ld rm)) s1)
               else if str_less l r then
                 (case bs_delete bs l s of
                    (Inl e, s1) \<Rightarrow> Some (Inl (DeleteFailed l), s1)
                  | (Inr u, s1) \<Rightarrow> mirror_loop bs ld ls1 lerr rd rm s1)
               else mirror_loop bs ld ls1 lerr (fst (next_remote ld rm)) (snd (next_remote ld rm)) s
           | (x, RFailed) \<Rightarrow> None)"

declare mirror_loop.simps [code]

definition syncBlobs :: "'b walkable \<Rightarrow> leader \<Rightarrow> 'b \<Rightarrow> ((repl_error + unit) \<times> 'b) option" where
  "syncBlobs w ld s =
     (case wk_walk w s of (ls, lerr) \<Rightarrow>
        case next_remote ld ([], []) of (rd, rm) \<Rightarrow> mirror_loop (wk_blobs w) ld ls lerr rd rm s)"

section \<open>Cycles and promotion\<close>

text \<open>The committed snapshot is \<open>None\<close> until a cycle of this standby phase has succeeded.\<close>

record replicator =
  rp_is_leader :: bool
  rp_snapshot :: "store option"

definition LeaseLeaderURL :: "string option \<Rightarrow> string \<Rightarrow> string \<Rightarrow> int \<Rightarrow> string option" where
  "LeaseLeaderURL holder self peerService port =
     (case holder of
        None \<Rightarrow> None
      | Some i \<Rightarrow> if i = [] \<or> i = self then Some []
                  else Some (''http://'' @ i @ ''.'' @ peerService @ '':'' @ Itoa port))"

text \<open>\<open>leader_at\<close> are the answers of the instance at an address; \<open>fault\<close> the steps on the local disk that fail.\<close>

definition sync ::
  "'b walkable \<Rightarrow> string option \<Rightarrow> (string \<Rightarrow> leader) \<Rightarrow> (disk_step \<Rightarrow> bool) \<Rightarrow> replicator \<Rightarrow> 'b \<Rightarrow>
   ((repl_error + unit) \<times> replicator \<times> 'b) option" where
  "sync w url leader_at fault rp s =
     (if rp_is_leader rp then Some (Inr (), rp, s)
      else case url of
             None \<Rightarrow> Some (Inl ResolveLeader, rp, s)
           | Some leader \<Rightarrow>
               if leader = [] then Some (Inr (), rp, s)
               else let ld = leader_at leader in
                 case downloadSnapshot fault (ld_db ld) of
                   None \<Rightarrow> Some (Inl SyncDB, rp, s)
                 | Some db \<Rightarrow>
                     (case syncBlobs w ld s of
                        None \<Rightarrow> None
                      | Some (Inl e, s1) \<Rightarrow> Some (Inl e, rp, s1)
                      | Some (Inr u, s1) \<Rightarrow>
                          if fault CommitRename then Some (Inl CommitSnapshot, rp, s1)
                          else Some (Inr (), rp\<lparr>rp_snapshot := Some db\<rparr>, s1)))"

text \<open>
  \<^verbatim>\<open>SwapFromSnapshot\<close>: once the current handle is closed, a failing step leaves the store on a closed
  handle, where every query fails.
\<close>

datatype swap_step = CloseDB | RemoveWAL | RemoveSHM | RenameSnapshot | Reopen

definition closed :: "store \<Rightarrow> store" where
  "closed st = st\<lparr>st_fault := (\<lambda>t. True)\<rparr>"

definition SwapFromSnapshot :: "(swap_step \<Rightarrow> bool) \<Rightarrow> store \<Rightarrow> store \<Rightarrow> bool \<times> store" where
  "SwapFromSnapshot fault snapshot st =
     (if fault CloseDB then (False, closed st)
      else if fault RemoveWAL \<or> fault RemoveSHM then (False, closed st)
      else if fault RenameSnapshot then (False, closed st)
      else if fault Reopen then (False, closed st)
      else (True, snapshot))"

definition Promote :: "(swap_step \<Rightarrow> bool) \<Rightarrow> replicator \<Rightarrow> store \<Rightarrow> (repl_error + unit) \<times> replicator \<times> store" where
  "Promote fault rp st =
     (let rp1 = rp\<lparr>rp_is_leader := True, rp_snapshot := None\<rparr> in
      case rp_snapshot rp of
        None \<Rightarrow> (Inr (), rp1, st)
      | Some snap \<Rightarrow>
          (case SwapFromSnapshot fault snap st of
             (False, st1) \<Rightarrow> (Inl ApplySnapshot, rp1, st1)
           | (True, st1) \<Rightarrow> (Inr (), rp1, st1)))"

definition Demote :: "replicator \<Rightarrow> replicator" where
  "Demote rp = rp\<lparr>rp_is_leader := False\<rparr>"

section \<open>Listings\<close>

text \<open>The iterator yields exactly these digests and then ends.\<close>

fun streams :: "leader \<Rightarrow> remote_head \<Rightarrow> remote \<Rightarrow> string list \<Rightarrow> bool" where
  "streams ld rd rm [] = (rd = REnd)"
| "streams ld rd rm (d # rs) = (rd = RDigest d \<and> streams ld (fst (next_remote ld rm)) (snd (next_remote ld rm)) rs)"

text \<open>Pages cut from a sorted listing, after the cursor.\<close>

definition pages_of :: "nat \<Rightarrow> string list \<Rightarrow> string \<Rightarrow> string list option" where
  "pages_of n ds after = Some (take n (filter (str_less after) ds))"

lemma sorted_filter_after:
  assumes "sorted_wrt str_less (xs @ ys)" and "xs \<noteq> []"
  shows "filter (str_less (last xs)) (xs @ ys) = ys"
proof -
  have "\<not> str_less (last xs) x" if "x \<in> set xs" for x
  proof (cases "x = last xs")
    case False
    have "sorted_wrt str_less xs" using assms(1) by (simp add: sorted_wrt_append)
    with assms(2) have "\<forall>y \<in> set (butlast xs). str_less y (last xs)"
      by (metis append_butlast_last_id sorted_wrt_append list.set_intros(1))
    moreover have "x \<in> set (butlast xs)"
      using that False assms(2) by (metis append_butlast_last_id in_set_butlast_appendI rotate1.simps(2) set_ConsD set_rotate1)
    ultimately show ?thesis using str_less_asym by blast
  qed simp
  then have "filter (str_less (last xs)) xs = []" by (simp add: filter_empty_conv)
  moreover have "filter (str_less (last xs)) ys = ys"
    using assms by (intro filter_True) (auto simp: sorted_wrt_append)
  ultimately show ?thesis by simp
qed

lemma pages_stream:
  assumes "sorted_wrt str_less ds" and "ld_page ld = pages_of (Suc k) ds"
    and "ds = xs @ pending @ rest" and "filter (str_less after) ds = rest"
  shows "streams ld (fst (next_remote ld (pending, after))) (snd (next_remote ld (pending, after))) (pending @ rest)"
  using assms(3,4)
proof (induction "length pending + length rest" arbitrary: xs pending rest after rule: less_induct)
  case less
  show ?case
  proof (cases pending)
    case (Cons d pend)
    with less.prems less.hyps [of pend rest "xs @ [d]" after] show ?thesis by (simp add: next_remote_def)
  next
    case Nil
    show ?thesis
    proof (cases rest)
      case Nil
      with \<open>pending = []\<close> less.prems(2) show ?thesis by (simp add: next_remote_def assms(2) pages_of_def)
    next
      case (Cons d rest')
      let ?page = "take (Suc k) rest"
      have page: "?page = d # take k rest'" by (simp add: Cons)
      have split: "ds = (xs @ ?page) @ drop (Suc k) rest" using less.prems(1) \<open>pending = []\<close> by simp
      have "filter (str_less (last ?page)) ds = drop (Suc k) rest"
      proof -
        have "sorted_wrt str_less ((xs @ ?page) @ drop (Suc k) rest)" using assms(1) split by simp
        moreover have "last (xs @ ?page) = last ?page" by (simp add: page)
        ultimately show ?thesis using sorted_filter_after [of "xs @ ?page" "drop (Suc k) rest"] split by (simp add: page)
      qed
      then have "streams ld (fst (next_remote ld (take k rest', last ?page))) (snd (next_remote ld (take k rest', last ?page)))
          (take k rest' @ drop (Suc k) rest)"
        using less.hyps [of "take k rest'" "drop (Suc k) rest" "xs @ [d]" "last ?page"] split page
        by (simp add: Cons \<open>pending = []\<close>)
      moreover have "next_remote ld (pending, after) = (RDigest d, take k rest', last ?page)"
        using \<open>pending = []\<close> less.prems(2) page by (simp add: next_remote_def assms(2) pages_of_def)
      ultimately show ?thesis using \<open>pending = []\<close> by (simp add: Cons)
    qed
  qed
qed

section \<open>The mirror\<close>

text \<open>The leader's whole bodies are what their digests say; it may refuse a blob or no longer have it.\<close>

definition honest :: "(bytes \<Rightarrow> string) \<Rightarrow> leader \<Rightarrow> string \<Rightarrow> bool" where
  "honest sha ld d \<longleftrightarrow> (\<forall>b. ld_blob ld d = BlobBody (b, True) \<longrightarrow> sha b = d)"

definition serves :: "leader \<Rightarrow> string set" where
  "serves ld = {d. \<exists>b. ld_blob ld d = BlobBody (b, True)}"

definition gone :: "leader \<Rightarrow> string set" where
  "gone ld = {d. ld_blob ld d = BlobStatus 404}"

locale walkable_laws = blob_store_laws bs sha view ok
  for bs :: "'b blob_store" and sha view ok +
  fixes walk :: "'b \<Rightarrow> string list \<times> bool"
  assumes walk_result: "ok s \<Longrightarrow> walk s = (ds, False) \<Longrightarrow> sorted_wrt str_less ds \<and> set ds = dom (view s)"
    and put_atomic: "ok s \<Longrightarrow> bs_put bs r s = (Inl e, s') \<Longrightarrow> view s' = view s"
    and delete_atomic: "ok s \<Longrightarrow> bs_delete bs d s = (Inl e, s') \<Longrightarrow> view s' = view s"
begin

abbreviation stored :: "'b \<Rightarrow> string set" where
  "stored s \<equiv> dom (view s)"

lemma fetch_known:
  assumes "ok s" and "honest sha ld d"
  obtains res s' where "fetchBlob bs ld d s = (res, s')" and "ok s'"
    and "res = Inr () \<longrightarrow> stored s' = stored s \<union> ({d} \<inter> serves ld) \<and> d \<in> stored s' \<union> gone ld" and "isl res \<longrightarrow> stored s' = stored s"
proof (cases "ld_blob ld d")
  case BlobUnreachable
  then show thesis using assms(1) by (intro that [of "Inl (FetchFailed d)" s]) (simp_all add: fetchBlob_def)
next
  case (BlobStatus code)
  then have "{d} \<inter> serves ld = {}" by (simp add: serves_def)
  then show thesis using assms(1) BlobStatus
    by (intro that [of "if code = 404 then Inr () else Inl (FetchFailed d)" s]) (auto simp: fetchBlob_def gone_def)
next
  case (BlobBody r)
  obtain res s' where put: "bs_put bs r s = (res, s')" by (cases "bs_put bs r s")
  have ok': "ok s'" using put_ok [OF assms(1), of r] put by simp
  show thesis
  proof (cases res)
    case (Inl e)
    with put put_atomic [OF assms(1)] ok' that [of "Inl (StoreFailed d)" s'] show thesis by (simp add: fetchBlob_def BlobBody)
  next
    case (Inr v)
    obtain got n where v: "v = (got, n)" by (cases v)
    from put_result [OF assms(1) put [unfolded Inr v]]
    have p: "snd r" "got = sha (fst r)" "view s' got \<noteq> None" "\<And>x. x \<noteq> got \<Longrightarrow> view s' x = view s x" by auto
    have body: "ld_blob ld d = BlobBody (fst r, True)" using BlobBody p(1) by (cases r) simp
    then have "got = d" and "d \<in> serves ld" using assms(2) p(2) by (auto simp: honest_def serves_def)
    moreover have "stored s' = insert got (stored s)" using p(3,4) by (auto simp: dom_def) (metis option.distinct(1))+
    ultimately show thesis using put ok' that [of "Inr ()" s'] by (simp add: fetchBlob_def BlobBody Inr v)
  qed
qed

lemma delete_known:
  assumes "ok s"
  obtains res s' where "bs_delete bs d s = (res, s')" and "ok s'"
    and "\<not> isl res \<longrightarrow> stored s' = stored s - {d}" and "isl res \<longrightarrow> stored s' = stored s"
proof -
  obtain res s' where del: "bs_delete bs d s = (res, s')" by (cases "bs_delete bs d s")
  have "ok s'" using delete_ok [OF assms, of d] del by simp
  moreover have "\<not> isl res \<Longrightarrow> view s' = (view s)(d := None)"
    using delete_result [OF assms, of d] del by (cases res) auto
  moreover have "isl res \<Longrightarrow> view s' = view s" using delete_atomic [OF assms, of d] del by (cases res) auto
  ultimately show ?thesis using del that [of res s'] by (auto split: if_splits)
qed

text \<open>What a run of the merge leaves, from the two listings still ahead of it.\<close>

definition mirrors :: "leader \<Rightarrow> string list \<Rightarrow> string list \<Rightarrow> 'b \<Rightarrow> ((repl_error + unit) \<times> 'b) option \<Rightarrow> bool" where
  "mirrors ld ls rs s out \<longleftrightarrow>
     (\<exists>res s'. out = Some (res, s') \<and> ok s' \<and>
        (res = Inr () \<longrightarrow> stored s' = stored s - (set ls - set rs) \<union> (set rs \<inter> serves ld)) \<and>
        (res = Inr () \<longrightarrow> set rs \<subseteq> stored s' \<union> gone ld) \<and> stored s - (set ls - set rs) \<subseteq> stored s')"

lemma mirrorsE:
  assumes "mirrors ld ls rs s out"
  obtains res s' where "out = Some (res, s')" and "ok s'"
    and "res = Inr () \<longrightarrow> stored s' = stored s - (set ls - set rs) \<union> (set rs \<inter> serves ld)"
    and "res = Inr () \<longrightarrow> set rs \<subseteq> stored s' \<union> gone ld" and "stored s - (set ls - set rs) \<subseteq> stored s'"
  using assms unfolding mirrors_def by blast

lemma mirrors_fetch:
  assumes "ok s" and "honest sha ld r" and "r \<notin> set ls"
    and "\<And>s1. ok s1 \<Longrightarrow> stored s \<subseteq> stored s1 \<Longrightarrow> mirrors ld ls rs s1 (next s1)"
  shows "mirrors ld ls (r # rs) s (case fetchBlob bs ld r s of (Inl e, s1) \<Rightarrow> Some (Inl e, s1) | (Inr u, s1) \<Rightarrow> next s1)"
proof -
  obtain res s1 where f: "fetchBlob bs ld r s = (res, s1)" "ok s1"
    "res = Inr () \<longrightarrow> stored s1 = stored s \<union> ({r} \<inter> serves ld) \<and> r \<in> stored s1 \<union> gone ld" "isl res \<longrightarrow> stored s1 = stored s"
    using fetch_known [OF assms(1,2)] by blast
  show ?thesis
  proof (cases res)
    case (Inl e)
    with f show ?thesis by (auto simp: mirrors_def)
  next
    case (Inr u)
    then have s1: "stored s1 = stored s \<union> ({r} \<inter> serves ld)" and r: "r \<in> stored s1 \<union> gone ld" using f(3) by auto
    from s1 have "mirrors ld ls rs s1 (next s1)" using assms(4) [OF f(2)] by blast
    then obtain res' s' where n: "next s1 = Some (res', s')" "ok s'"
      "res' = Inr () \<longrightarrow> stored s' = stored s1 - (set ls - set rs) \<union> (set rs \<inter> serves ld)"
      "res' = Inr () \<longrightarrow> set rs \<subseteq> stored s' \<union> gone ld" "stored s1 - (set ls - set rs) \<subseteq> stored s'" by (rule mirrorsE)
    have "res' = Inr () \<longrightarrow> stored s' = stored s - (set ls - set (r # rs)) \<union> (set (r # rs) \<inter> serves ld)"
      using n(3) s1 assms(3) by auto
    moreover have "res' = Inr () \<longrightarrow> set (r # rs) \<subseteq> stored s' \<union> gone ld" using n(4,5) r assms(3) by auto
    moreover have "stored s - (set ls - set (r # rs)) \<subseteq> stored s'" using n(5) s1 assms(3) by auto
    ultimately show ?thesis using n(1,2) f(1) Inr by (simp add: mirrors_def)
  qed
qed

lemma mirrors_delete:
  assumes "ok s" and "l \<notin> set rs" and "l \<notin> set ls"
    and "\<And>s1. ok s1 \<Longrightarrow> stored s - {l} \<subseteq> stored s1 \<Longrightarrow> mirrors ld ls rs s1 (next s1)"
  shows "mirrors ld (l # ls) rs s
    (case bs_delete bs l s of (Inl e, s1) \<Rightarrow> Some (Inl (DeleteFailed l), s1) | (Inr u, s1) \<Rightarrow> next s1)"
proof -
  obtain res s1 where f: "bs_delete bs l s = (res, s1)" "ok s1"
    "\<not> isl res \<longrightarrow> stored s1 = stored s - {l}" "isl res \<longrightarrow> stored s1 = stored s"
    using delete_known [OF assms(1)] by blast
  show ?thesis
  proof (cases res)
    case (Inl e)
    with f show ?thesis by (auto simp: mirrors_def)
  next
    case (Inr u)
    then have s1: "stored s1 = stored s - {l}" using f(3) by simp
    then have "mirrors ld ls rs s1 (next s1)" using assms(4) [OF f(2)] by blast
    then obtain res' s' where n: "next s1 = Some (res', s')" "ok s'"
      "res' = Inr () \<longrightarrow> stored s' = stored s1 - (set ls - set rs) \<union> (set rs \<inter> serves ld)"
      "res' = Inr () \<longrightarrow> set rs \<subseteq> stored s' \<union> gone ld" "stored s1 - (set ls - set rs) \<subseteq> stored s'" by (rule mirrorsE)
    have "res' = Inr () \<longrightarrow> stored s' = stored s - (set (l # ls) - set rs) \<union> (set rs \<inter> serves ld)"
      using n(3) s1 assms(2) by auto
    moreover have "stored s - (set (l # ls) - set rs) \<subseteq> stored s'" using n(5) s1 assms(2) by auto
    ultimately show ?thesis using n(1,2,4) f(1) Inr by (simp add: mirrors_def)
  qed
qed

lemma mirrors_both:
  assumes "mirrors ld ls rs s out" and "d \<in> stored s" and "d \<notin> set ls"
  shows "mirrors ld (d # ls) (d # rs) s out"
proof -
  obtain res s' where n: "out = Some (res, s')" "ok s'"
    "res = Inr () \<longrightarrow> stored s' = stored s - (set ls - set rs) \<union> (set rs \<inter> serves ld)"
    "res = Inr () \<longrightarrow> set rs \<subseteq> stored s' \<union> gone ld" "stored s - (set ls - set rs) \<subseteq> stored s'" using assms(1) by (rule mirrorsE)
  have "res = Inr () \<longrightarrow> stored s' = stored s - (set (d # ls) - set (d # rs)) \<union> (set (d # rs) \<inter> serves ld)"
    using n(3) assms(2,3) by auto
  moreover have "stored s - (set (d # ls) - set (d # rs)) \<subseteq> stored s'" using n(5) assms(3) by auto
  moreover have "res = Inr () \<longrightarrow> set (d # rs) \<subseteq> stored s' \<union> gone ld" using n(4,5) assms(2,3) by auto
  ultimately show ?thesis using n(1,2) by (simp add: mirrors_def)
qed

lemma mirror_run:
  assumes "ok s" and "streams ld rd rm rs" and "sorted_wrt str_less ls" and "sorted_wrt str_less rs"
    and "set ls \<subseteq> stored s" and "\<And>d. d \<in> set rs \<Longrightarrow> honest sha ld d"
  shows "mirrors ld ls rs s (mirror_loop bs ld ls False rd rm s)"
  using assms
proof (induction "length ls + length rs" arbitrary: ls rs rd rm s rule: less_induct)
  case less
  note hyp = less.hyps and prems = less.prems
  let ?nr = "fst (next_remote ld rm)" and ?ns = "snd (next_remote ld rm)"
  have fetch: "mirrors ld ls rs s (case fetchBlob bs ld r s of (Inl e, s1) \<Rightarrow> Some (Inl e, s1)
      | (Inr u, s1) \<Rightarrow> mirror_loop bs ld ls False ?nr ?ns s1)"
    if "rs = r # rs1" and "r \<notin> set ls" for r rs1
    unfolding that(1)
  proof (rule mirrors_fetch [OF prems(1)])
    show "mirrors ld ls rs1 s1 (mirror_loop bs ld ls False ?nr ?ns s1)" if "ok s1" "stored s \<subseteq> stored s1" for s1
      using that prems(2-6) \<open>rs = r # rs1\<close> by (intro hyp) auto
  qed (use prems(6) that in simp_all)
  have del: "mirrors ld ls rs s (case bs_delete bs l s of (Inl e, s1) \<Rightarrow> Some (Inl (DeleteFailed l), s1)
      | (Inr u, s1) \<Rightarrow> mirror_loop bs ld ls1 False rd rm s1)"
    if "ls = l # ls1" and "l \<notin> set rs" for l ls1
    unfolding that(1)
  proof (rule mirrors_delete [OF prems(1)])
    show l: "l \<notin> set ls1" using prems(3) that(1) by auto
    show "mirrors ld ls1 rs s1 (mirror_loop bs ld ls1 False rd rm s1)" if "ok s1" "stored s - {l} \<subseteq> stored s1" for s1
    proof (rule hyp)
      show "set ls1 \<subseteq> stored s1" using prems(5) that(2) \<open>ls = l # ls1\<close> l by auto blast
    qed (use that prems(2-6) \<open>ls = l # ls1\<close> in auto)
  qed (use that in simp_all)
  show ?case
  proof (cases ls)
    case Nil
    show ?thesis
    proof (cases rs)
      case Nil
      with \<open>ls = []\<close> prems show ?thesis by (subst mirror_loop.simps) (simp add: mirrors_def)
    next
      case (Cons r rs1)
      with prems(2) have rd: "rd = RDigest r" by simp
      show ?thesis using fetch [OF Cons, unfolded \<open>ls = []\<close>] unfolding \<open>ls = []\<close> rd by (subst mirror_loop.simps) simp
    qed
  next
    case (Cons l ls1)
    note ls = this
    show ?thesis
    proof (cases rs)
      case Nil
      with prems(2) have "rd = REnd" by simp
      with del [OF ls] Nil ls show ?thesis by (subst mirror_loop.simps) simp
    next
      case (Cons r rs1)
      with prems(2) have rd: "rd = RDigest r" by simp
      consider "str_less r l" | "str_less l r" "\<not> str_less r l" | "l = r" "\<not> str_less r l" "\<not> str_less l r"
        using str_less_linear [of l r] str_less_asym by blast
      then show ?thesis
      proof cases
        case 1
        have "r \<notin> set ls" using 1 prems(3) ls str_less_asym by (auto dest: str_less_trans)
        from fetch [OF Cons this, unfolded ls] 1 show ?thesis unfolding ls rd by (subst mirror_loop.simps) simp
      next
        case 2
        have "l \<notin> set rs" using 2 prems(4) Cons str_less_asym by (auto dest: str_less_trans)
        from del [OF ls this] 2 show ?thesis by (subst mirror_loop.simps) (simp add: ls rd)
      next
        case 3
        have "l \<notin> set ls1" using prems(3) ls by auto
        have "mirrors ld ls1 rs1 s (mirror_loop bs ld ls1 False ?nr ?ns s)"
          by (rule hyp) (use prems ls Cons in auto)
        then have "mirrors ld ls rs s (mirror_loop bs ld ls1 False ?nr ?ns s)"
          unfolding ls Cons 3(1) using mirrors_both \<open>l \<notin> set ls1\<close> prems(5) ls 3(1) by auto
        with 3 show ?thesis by (subst mirror_loop.simps) (simp add: ls rd)
      qed
    qed
  qed
qed

end

section \<open>A leader and its standby\<close>

text \<open>\<^verbatim>\<open>Routes\<close>: every endpoint behind the token.\<close>

definition behind_token :: "string \<Rightarrow> request \<Rightarrow> wop list \<Rightarrow> wop list" where
  "behind_token token r ops = (case requireToken token r of Some refused \<Rightarrow> refused | None \<Rightarrow> ops)"

text \<open>
  The answers of a leader with the database \<open>st\<close> and the blobs \<open>s\<close> to a standby with the token \<open>tok\<close>,
  once it has sent \<open>db\<close>.
\<close>

definition source_leader ::
  "(string list \<Rightarrow> bytes) \<Rightarrow> (bytes \<Rightarrow> string list option) \<Rightarrow> string \<Rightarrow> string \<Rightarrow> (int \<times> store) option \<Rightarrow>
   'b blob_store \<Rightarrow> store \<Rightarrow> 'b \<Rightarrow> leader" where
  "source_leader encode decode token tok db bs st s =
     \<lparr>ld_db = db,
      ld_page = (\<lambda>after. fetchBlobPage decode (Some (net_response
        (behind_token token (get_request tok) (handleListBlobs encode st after (Itoa (int defaultPageSize))))))),
      ld_blob = (\<lambda>d. blob_answer_of (Some (net_response
        (behind_token token (get_request tok) (handleGetBlob bs d s)))))\<rparr>"

definition fs_walk :: "fs \<Rightarrow> string list \<times> bool" where
  "fs_walk s = (if fs_fault s ReadDir then ([], True) else (walk_list s, False))"

definition FSWalkable :: "(bytes \<Rightarrow> string) \<Rightarrow> fs walkable" where
  "FSWalkable sha = \<lparr>wk_blobs = FSStore sha, wk_walk = fs_walk\<rparr>"

interpretation fsw: walkable_laws "FSStore sha" sha fs_view "fs_ok sha" fs_walk for sha
proof
  show "sorted_wrt str_less ds \<and> set ds = dom (fs_view s)" if "fs_ok sha s" "fs_walk s = (ds, False)" for s ds
    using that walk_list_sorted [OF fs_ok_layout [OF that(1)]] walk_list_set [OF fs_ok_layout [OF that(1)]]
    by (auto simp: fs_walk_def dom_def split: if_splits)
  show "fs_view s' = fs_view s" if "bs_put (FSStore sha) r s = (Inl e, s')" for s r e s'
    using that by (auto simp: FSStore_def dest: fs_Put_failed)
  show "fs_view s' = fs_view s" if "bs_delete (FSStore sha) d s = (Inl e, s')" for s d e s'
    using that by (auto simp: FSStore_def fs_Delete_def split: if_splits)
qed

lemma limit_sent: "list_limit (Itoa 1000) = Some 1000"
  unfolding list_limit_def by code_simp

lemma digest_pages:
  assumes "distinct (map b_sha256 (st_blobs st))"
  shows "ListBlobDigests st after n =
    (if st_fault st TBlobs then Inl ErrDB
     else Inr (take n (filter (str_less after) (str_sort (map b_sha256 (st_blobs st))))))"
proof -
  let ?ds = "map b_sha256 (st_blobs st)"
  have "str_sort (filter (str_less after) ?ds) = filter (str_less after) (str_sort ?ds)"
    by (rule str_sorted_unique) (use assms in \<open>simp_all add: sorted_str_sort sorted_wrt_filter\<close>)
  then show ?thesis by (simp add: ListBlobDigests_def)
qed

lemma source_page:
  assumes "\<And>ds. decode (encode ds) = Some ds" and "distinct (map b_sha256 (st_blobs st))" and "\<not> st_fault st TBlobs"
    and "token \<noteq> []"
  shows "ld_page (source_leader encode decode token token db bs st s) = pages_of defaultPageSize (str_sort (map b_sha256 (st_blobs st)))"
  using assms
  by (simp add: fun_eq_iff source_leader_def handleListBlobs_def limit_sent digest_pages pages_of_def fetchBlobPage_def
      behind_token_def requireToken_def get_request_def header_get_def net_response_def net_run_def fresh_response_def Let_def
      del: One_nat_def)

lemma source_blob:
  assumes "token \<noteq> []"
  shows "ld_blob (source_leader encode decode token token db bs st s) d =
    (case bs_open bs d s of
       Inl e \<Rightarrow> BlobStatus (if e = BlobNotFound then 404 else 500)
     | Inr (b, n) \<Rightarrow> BlobBody (b, True))"
  using assms
  by (simp add: source_leader_def handleGetBlob_def blob_answer_of_def http_Error_def
      behind_token_def requireToken_def get_request_def header_get_def net_response_def net_run_def fresh_response_def Let_def
      split: sum.splits prod.splits)

abbreviation listed :: "store \<Rightarrow> string set" where
  "listed st \<equiv> b_sha256 ` set (st_blobs st)"

lemma source_honest:
  assumes "token \<noteq> []" and "fs_ok sha l"
  shows "honest sha (source_leader encode decode token token db (FSStore sha) st l) d"
    and "serves (source_leader encode decode token token db (FSStore sha) st l) \<subseteq> dom (fs_view l)"
    and "gone (source_leader encode decode token token db (FSStore sha) st l) \<inter> dom (fs_view l) = {}"
proof -
  let ?ld = "source_leader encode decode token token db (FSStore sha) st l"
  have blob: "fs_view l d = Some b" if "ld_blob ?ld d = BlobBody (b, True)" for d b
    using that fs.open_result [OF assms(2), of d] by (auto simp: source_blob assms(1) split: sum.splits)
  show "honest sha ?ld d" using blob fs.addressed [OF assms(2)] by (auto simp: honest_def)
  show "serves ?ld \<subseteq> dom (fs_view l)" using blob by (auto simp: serves_def)
  show "gone ?ld \<inter> dom (fs_view l) = {}"
    by (auto simp: gone_def source_blob assms(1) FSStore_def fs_Open_def fs_view_def split: sum.splits if_splits option.splits)
qed

lemma str_less_Nil: "str_less [] s \<longleftrightarrow> s \<noteq> []"
  by (cases s) simp_all

lemma mirror_sets:
  "S' = S - (S - L) \<union> (L \<inter> V) \<Longrightarrow> L \<subseteq> S' \<union> G \<Longrightarrow> V \<subseteq> K \<Longrightarrow> G \<inter> K = {} \<Longrightarrow> S' = L \<inter> (S \<union> K)"
  by blast

lemma mirror_leader:
  fixes db :: "(int \<times> store) option"
  assumes "fs_ok sha s" and "fs_ok sha l" and "distinct (map b_sha256 (st_blobs st))" and "[] \<notin> listed st"
    and "token \<noteq> []" and "\<And>ds. decode (encode ds) = Some ds"
  defines "ld \<equiv> source_leader encode decode token token db (FSStore sha) st l"
  obtains res s' where "syncBlobs (FSWalkable sha) ld s = Some (res, s')" and "fs_ok sha s'"
    and "dom (fs_view s) \<inter> listed st \<subseteq> dom (fs_view s')"
    and "res = Inr () \<longrightarrow> dom (fs_view s') = listed st \<inter> (dom (fs_view s) \<union> dom (fs_view l))"
proof (cases "fs_fault s ReadDir \<or> st_fault st TBlobs")
  case True
  let ?r = "if fs_fault s ReadDir then WalkLocal else ListLeader"
  have "syncBlobs (FSWalkable sha) ld s = Some (Inl ?r, s)"
  proof (cases "fs_fault s ReadDir")
    case True
    then show ?thesis
      by (simp add: syncBlobs_def FSWalkable_def fs_walk_def mirror_loop.simps split: prod.splits)
  next
    case False
    with True have "ld_page ld [] = None"
      by (simp add: ld_def source_leader_def handleListBlobs_def limit_sent ListBlobDigests_def fetchBlobPage_def
          behind_token_def requireToken_def get_request_def header_get_def net_response_def net_run_def
          fresh_response_def http_Error_def assms(5))
    with False show ?thesis
      by (simp add: syncBlobs_def FSWalkable_def fs_walk_def next_remote_def mirror_loop.simps)
  qed
  then show thesis using that assms(1) by auto
next
  case False
  let ?ds = "str_sort (map b_sha256 (st_blobs st))"
  have sorted: "sorted_wrt str_less ?ds" using assms(3) by (rule sorted_str_sort)
  have all: "filter (str_less []) ?ds = ?ds"
    using assms(4) by (intro filter_True) (auto simp: str_less_Nil image_iff)
  have "ld_page ld = pages_of (Suc 999) ?ds"
    using source_page [OF assms(6) assms(3) _ assms(5)] False by (simp add: ld_def eval_nat_numeral)
  from pages_stream [OF sorted this, of "[]" "[]" ?ds "[]"]
  have "streams ld (fst (next_remote ld ([], []))) (snd (next_remote ld ([], []))) ?ds" using all by simp
  moreover have walk: "fs_walk s = (walk_list s, False)" using False by (simp add: fs_walk_def)
  note w = fsw.walk_result [OF assms(1) walk]
  ultimately have "fsw.mirrors sha ld (walk_list s) ?ds s
      (mirror_loop (FSStore sha) ld (walk_list s) False (fst (next_remote ld ([], []))) (snd (next_remote ld ([], []))) s)"
    using w sorted source_honest(1) [OF assms(5,2)] by (intro fsw.mirror_run [OF assms(1)]) (auto simp: ld_def)
  then have "fsw.mirrors sha ld (walk_list s) ?ds s (syncBlobs (FSWalkable sha) ld s)"
    by (simp add: syncBlobs_def FSWalkable_def walk case_prod_beta)
  then obtain res s' where r: "syncBlobs (FSWalkable sha) ld s = Some (res, s')" "fs_ok sha s'"
    "res = Inr () \<longrightarrow> dom (fs_view s') = dom (fs_view s) - (set (walk_list s) - set ?ds) \<union> (set ?ds \<inter> serves ld)"
    "res = Inr () \<longrightarrow> set ?ds \<subseteq> dom (fs_view s') \<union> gone ld"
    "dom (fs_view s) - (set (walk_list s) - set ?ds) \<subseteq> dom (fs_view s')"
    by (rule fsw.mirrorsE)
  have "dom (fs_view s) \<inter> listed st \<subseteq> dom (fs_view s')" using r(5) by auto
  moreover have "res = Inr () \<longrightarrow> dom (fs_view s') = listed st \<inter> (dom (fs_view s) \<union> dom (fs_view l))"
  proof
    assume "res = Inr ()"
    then show "dom (fs_view s') = listed st \<inter> (dom (fs_view s) \<union> dom (fs_view l))"
      using r(3,4) w source_honest(2,3) [OF assms(5,2), of encode decode db st, folded ld_def]
      by (intro mirror_sets [of _ _ _ "serves ld" "gone ld"]) simp_all
  qed
  ultimately show thesis using that r(1,2) by blast
qed

section \<open>What a standby has\<close>


text \<open>A JSON array of digests, cut at the quotes, for the concrete runs.\<close>

definition toy_encode :: "string list \<Rightarrow> bytes" where
  "toy_encode ds = concat (map (\<lambda>d. concat (map (\<lambda>c. [CHR ''.'', c]) d) @ [CHR '';'']) ds)"

fun toy_decode :: "string \<Rightarrow> bytes \<Rightarrow> string list option" where
  "toy_decode acc [] = Some []"
| "toy_decode acc (x # xs) =
     (if x = CHR '';'' then map_option (Cons acc) (toy_decode [] xs)
      else case xs of [] \<Rightarrow> None | c # ys \<Rightarrow> toy_decode (acc @ [c]) ys)"

lemma toy_decode_digest:
  "toy_decode acc (concat (map (\<lambda>c. [CHR ''.'', c]) d) @ CHR '';'' # ys) = map_option (Cons (acc @ d)) (toy_decode [] ys)"
  by (induction d arbitrary: acc) simp_all

lemma toy_codec: "toy_decode [] (toy_encode ds) = Some ds"
  by (induction ds) (simp_all add: toy_encode_def toy_decode_digest)

text \<open>A leader with one artifact, and a standby with a blob of its own.\<close>

definition leader_blobs :: fs where
  "leader_blobs = snd (fs_Put toy_sha ([], True) no_files)"

definition standby_blobs :: fs where
  "standby_blobs = snd (fs_Put toy_sha (''x'', True) no_files)"

definition leader_db :: store where
  "leader_db = run_ops [OpCreateRepo 1 (Ref_Counts.demo_repo ''a''), OpPut 2 (demo_artifact 1 ''p'' (toy_sha []))] empty_store"

abbreviation (input) demo_leader :: "store \<Rightarrow> store \<Rightarrow> fs \<Rightarrow> leader" where
  "demo_leader db st l \<equiv> source_leader toy_encode (toy_decode []) ''t'' ''t'' (Some (200, db)) (FSStore toy_sha) st l"

lemma demo_blobs_ok: "fs_ok toy_sha leader_blobs" "fs_ok toy_sha standby_blobs"
  by (simp_all add: leader_blobs_def standby_blobs_def fs_Put_ok fs_ok_no_files hex_digest_toy)

lemma leader_db_ok: "schema_ok leader_db"
  unfolding leader_db_def using run_ops_ok [OF empty_store_ok(1,2)] by blast

lemma leader_db_rows: "map b_sha256 (st_blobs leader_db) = [toy_sha []]" "map a_blob_sha256 (st_artifacts leader_db) = [toy_sha []]"
  by code_simp+

lemma leader_db_listed: "b_sha256 ` set (st_blobs leader_db) = {toy_sha []}" "a_blob_sha256 ` set (st_artifacts leader_db) = {toy_sha []}"
  using leader_db_rows by (metis list.set_map list.simps(15) empty_set)+

lemma toy_sha_nonempty: "toy_sha b \<noteq> []"
  by (simp add: toy_sha_def)


lemma promoted_store:
  assumes "sync w (Some u) leader_at fault rp s = Some (Inr (), rp', s')" and "\<not> rp_is_leader rp" and "u \<noteq> []"
    and "ld_db (leader_at u) = Some (200, db)"
  shows "syncBlobs w (leader_at u) s = Some (Inr (), s')" and "rp' = rp\<lparr>rp_snapshot := Some db\<rparr>"
  using assms by (auto simp: sync_def Let_def downloadSnapshot_def split: option.splits prod.splits sum.splits if_splits)

text \<open>
  C19: A promoted standby serves complete data. When a cycle succeeds against a leader that still records and
  stores every blob the snapshot names, promoting the standby replaces its database by the snapshot, and
  every artifact of that database has its blob on the standby's own disk, with the right digest. A
  leader at rest between the snapshot and the listing is such a leader.
\<close>

theorem promoted_snapshot_complete:
  assumes "fs_ok sha s" and "fs_ok sha l" and "schema_ok st" and "[] \<notin> b_sha256 ` set (st_blobs st)"
    and "token \<noteq> []" and "\<And>ds. decode (encode ds) = Some ds"
    and "\<And>a. a \<in> set (st_artifacts db) \<Longrightarrow> a_blob_sha256 a \<in> b_sha256 ` set (st_blobs st) \<and> fs_view l (a_blob_sha256 a) \<noteq> None"
    and "leader_at u = source_leader encode decode token token (Some (200, db)) (FSStore sha) st l" and "u \<noteq> []"
    and "\<not> rp_is_leader rp" and "sync (FSWalkable sha) (Some u) leader_at fault rp s = Some (Inr (), rp', s')"
  shows "Promote (\<lambda>step. False) rp' mine = (Inr (), \<lparr>rp_is_leader = True, rp_snapshot = None\<rparr>, db) \<and>
    (\<forall>a \<in> set (st_artifacts db). \<exists>b. fs_view s' (a_blob_sha256 a) = Some b \<and> sha b = a_blob_sha256 a)"
proof
  have db: "ld_db (leader_at u) = Some (200, db)" by (simp add: assms(8) source_leader_def)
  note p = promoted_store [OF assms(11,10,9) db]
  show "Promote (\<lambda>step. False) rp' mine = (Inr (), \<lparr>rp_is_leader = True, rp_snapshot = None\<rparr>, db)"
    by (simp add: Promote_def p(2) SwapFromSnapshot_def)
  from assms(3) have distinct: "distinct (map b_sha256 (st_blobs st))" by (simp add: schema_ok_def)
  obtain res s1 where r: "syncBlobs (FSWalkable sha) (leader_at u) s = Some (res, s1)" "fs_ok sha s1"
    "res = Inr () \<longrightarrow> dom (fs_view s1) = listed st \<inter> (dom (fs_view s) \<union> dom (fs_view l))"
    using mirror_leader [OF assms(1,2) distinct assms(4,5,6), where db = "Some (200, db)"] by (metis (no_types, lifting) assms(8))
  with p(1) have ok: "fs_ok sha s'" and dom: "dom (fs_view s') = listed st \<inter> (dom (fs_view s) \<union> dom (fs_view l))" by auto
  show "\<forall>a \<in> set (st_artifacts db). \<exists>b. fs_view s' (a_blob_sha256 a) = Some b \<and> sha b = a_blob_sha256 a"
  proof
    fix a assume "a \<in> set (st_artifacts db)"
    from assms(7) [OF this] have "a_blob_sha256 a \<in> dom (fs_view s')" by (auto simp: dom)
    then obtain b where "fs_view s' (a_blob_sha256 a) = Some b" by blast
    with fs.addressed [OF ok this] show "\<exists>b. fs_view s' (a_blob_sha256 a) = Some b \<and> sha b = a_blob_sha256 a" by blast
  qed
qed

definition new_standby :: replicator where
  "new_standby = \<lparr>rp_is_leader = False, rp_snapshot = None\<rparr>"

text \<open>
  The snapshot can name a blob the standby never gets. When the leader deletes the artifact and the
  sweeper reclaims its blob after the snapshot was taken and before the blobs are listed, the cycle
  succeeds, the snapshot is committed, and promotion serves a database whose artifact has no blob.
\<close>

theorem snapshot_can_dangle:
  "let st = snd (DeleteBlobRecord (toy_sha []) (snd (DeleteArtifact 1 ''p'' leader_db)));
       l = snd (fs_Delete (toy_sha []) leader_blobs);
       out = sync (FSWalkable toy_sha) (Some ''http://l'') (\<lambda>u. demo_leader leader_db st l) (\<lambda>step. False) new_standby no_files;
       promoted = Promote (\<lambda>step. False) (fst (snd (the out))) empty_store
   in ListUnreferencedBlobs (snd (DeleteArtifact 1 ''p'' leader_db)) 256 = Inr [toy_sha []] \<and>
      map_option fst out = Some (Inr ()) \<and> fst promoted = Inr () \<and>
      map a_blob_sha256 (st_artifacts (snd (snd promoted))) = [toy_sha []] \<and>
      fs_view (snd (snd (the out))) (toy_sha []) = None"
  by code_simp

lemma demo_cycle:
  "map_option (\<lambda>x. (fst x, rp_is_leader (fst (snd x)), map fst (fs_files (snd (snd x)))))
     (sync (FSWalkable toy_sha) (Some ''http://l'') (\<lambda>u. demo_leader leader_db leader_db leader_blobs) (\<lambda>step. False) new_standby standby_blobs) =
   Some (Inr (), False, [path_of (toy_sha [])])"
  by code_simp

theorem promoted_snapshot_complete_witness:
  "\<exists>rp' s'. sync (FSWalkable toy_sha) (Some ''http://l'') (\<lambda>u. demo_leader leader_db leader_db leader_blobs) (\<lambda>step. False) new_standby standby_blobs =
      Some (Inr (), rp', s') \<and>
    Promote (\<lambda>step. False) rp' empty_store = (Inr (), \<lparr>rp_is_leader = True, rp_snapshot = None\<rparr>, leader_db) \<and>
    (\<forall>a \<in> set (st_artifacts leader_db). \<exists>b. fs_view s' (a_blob_sha256 a) = Some b \<and> toy_sha b = a_blob_sha256 a)"
proof -
  obtain rp' s' where c: "sync (FSWalkable toy_sha) (Some ''http://l'') (\<lambda>u. demo_leader leader_db leader_db leader_blobs) (\<lambda>step. False)
      new_standby standby_blobs = Some (Inr (), rp', s')"
    using demo_cycle by auto
  have rows: "a_blob_sha256 a = toy_sha []" if "a \<in> set (st_artifacts leader_db)" for a
    using that leader_db_listed(2) by blast
  have held: "fs_view leader_blobs (toy_sha []) \<noteq> None" by code_simp
  have "Promote (\<lambda>step. False) rp' empty_store = (Inr (), \<lparr>rp_is_leader = True, rp_snapshot = None\<rparr>, leader_db) \<and>
    (\<forall>a \<in> set (st_artifacts leader_db). \<exists>b. fs_view s' (a_blob_sha256 a) = Some b \<and> toy_sha b = a_blob_sha256 a)"
    using demo_blobs_ok leader_db_ok c leader_db_listed(1) held
    by (intro promoted_snapshot_complete [where leader_at = "\<lambda>u. demo_leader leader_db leader_db leader_blobs"
          and u = "''http://l''" and rp = new_standby and s = standby_blobs and l = leader_blobs and st = leader_db
          and encode = toy_encode and decode = "toy_decode []" and token = "''t''"])
      (auto simp: toy_codec toy_sha_nonempty [symmetric] new_standby_def rows)
  with c show ?thesis by blast
qed

end
