(* ===== verification/Meta_Sync.thy ===== *)
theory Meta_Sync
  imports S3_Store Replication
begin

text \<open>
  The copy of the metadata database in an object store (\<^verbatim>\<open>internal/objstore/metasync.go\<close>) and
  \<^verbatim>\<open>Store.Snapshot\<close> of \<^verbatim>\<open>internal/meta/meta.go\<close>. The leader uploads snapshots under a fencing token, a
  standby downloads them and takes over from the last one. The operations come first, each run alone; then
  the step relation \<open>ms_step\<close> of several instances and their requests to the service in any order, with an
  upload in the pieces between which others get in. The locale \<open>versioned_store\<close> adds to the laws of the
  service that an entity tag is not given out twice; under it the fence of the stored snapshot never
  decreases as long as no instance gets a new term in the middle of its own upload.

  The database file is bytes: \<open>vac\<close> is what \<^verbatim>\<open>VACUUM INTO\<close> writes (\<open>None\<close> when the statement fails), \<open>opn\<close>
  what opening and migrating a file gives. \<open>fault\<close> says which steps on the local disk fail.
\<close>

section \<open>Operations\<close>

datatype snapshot_step = MkWorkDir | RemoveStale | VacuumInto | OpenSnapshot | StatSnapshot

datatype ms_error =
    LocalFailed snapshot_step | HeadFailed | Stale int int | Raced | PutFailed
  | GetFailed | DiskFailed disk_step | ApplyFailed

record meta_sync =
  ms_leader :: bool
  ms_fence :: int
  ms_snapshot :: "bytes option"
  ms_store :: store

definition Snapshot :: "(snapshot_step \<Rightarrow> bool) \<Rightarrow> (store \<Rightarrow> bytes option) \<Rightarrow> store \<Rightarrow> ms_error + bytes" where
  "Snapshot fault vac st =
     (if fault RemoveStale then Inl (LocalFailed RemoveStale)
      else case if fault VacuumInto then None else vac st of
             None \<Rightarrow> Inl (LocalFailed VacuumInto)
           | Some b \<Rightarrow> Inr b)"

definition fenceMetaKey :: string where
  "fenceMetaKey = ''fence''"

fun parseFence :: "(string \<times> string) list \<Rightarrow> int" where
  "parseFence [] = 0"
| "parseFence ((k, v) # md) =
     (if to_lower k = fenceMetaKey then (case Atoi v of Some n \<Rightarrow> n | None \<Rightarrow> parseFence md) else parseFence md)"

text \<open>The pieces of an upload: the snapshot file, the request, the check of the answer to HEAD, the write.\<close>

definition take_snapshot :: "(snapshot_step \<Rightarrow> bool) \<Rightarrow> (store \<Rightarrow> bytes option) \<Rightarrow> store \<Rightarrow> ms_error + bytes" where
  "take_snapshot fault vac st =
     (if fault MkWorkDir then Inl (LocalFailed MkWorkDir)
      else case Snapshot fault vac st of
             Inl e \<Rightarrow> Inl e
           | Inr b \<Rightarrow>
               if fault OpenSnapshot then Inl (LocalFailed OpenSnapshot)
               else if fault StatSnapshot then Inl (LocalFailed StatSnapshot)
               else Inr b)"

definition build_put :: "string \<Rightarrow> bytes \<Rightarrow> int \<Rightarrow> s3_input" where
  "build_put key b fence = \<lparr>pi_key = key, pi_body = b, pi_metadata = [(fenceMetaKey, Itoa fence)], pi_cond = Always\<rparr>"

definition check_fence :: "int \<Rightarrow> s3_input \<Rightarrow> s3_error + (string \<times> string) list \<times> string \<Rightarrow> ms_error + s3_input" where
  "check_fence fence inp head =
     (case head of
        Inr (md, tag) \<Rightarrow>
          let stored = parseFence md in
          if stored > fence then Inl (Stale fence stored) else Inr (inp\<lparr>pi_cond := IfMatch tag\<rparr>)
      | Inl err \<Rightarrow> if isNotFound err then Inr (inp\<lparr>pi_cond := IfNoneMatch\<rparr>) else Inl HeadFailed)"

definition put_snapshot :: "'w s3_api \<Rightarrow> s3_input \<Rightarrow> 'w \<Rightarrow> (ms_error + unit) \<times> 'w" where
  "put_snapshot api inp w =
     (case s3_put api inp w of
        (Inl err, w') \<Rightarrow> (Inl (if IsPreconditionFailed err then Raced else PutFailed), w')
      | (Inr u, w') \<Rightarrow> (Inr (), w'))"

definition upload ::
  "'w s3_api \<Rightarrow> string \<Rightarrow> (store \<Rightarrow> bytes option) \<Rightarrow> (snapshot_step \<Rightarrow> bool) \<Rightarrow> meta_sync \<Rightarrow> 'w \<Rightarrow> (ms_error + unit) \<times> 'w" where
  "upload api key vac fault m w =
     (case take_snapshot fault vac (ms_store m) of
        Inl e \<Rightarrow> (Inl e, w)
      | Inr b \<Rightarrow>
          (case check_fence (ms_fence m) (build_put key b (ms_fence m)) (s3_head api key w) of
             Inl e \<Rightarrow> (Inl e, w)
           | Inr inp \<Rightarrow> put_snapshot api inp w))"

definition download :: "'w s3_api \<Rightarrow> string \<Rightarrow> (disk_step \<Rightarrow> bool) \<Rightarrow> 'w \<Rightarrow> ms_error + bytes option" where
  "download api key fault w =
     (case s3_get api key w of
        Inl err \<Rightarrow> if isNotFound err then Inr None else Inl GetFailed
      | Inr (b, n) \<Rightarrow>
          (case filter fault [MkReplicaDir, CreateTmp, CopyBody, SyncTmp, CloseTmp, CommitRename] of
             e # es \<Rightarrow> Inl (DiskFailed e)
           | [] \<Rightarrow> Inr (Some b)))"

definition ms_sync ::
  "'w s3_api \<Rightarrow> string \<Rightarrow> (store \<Rightarrow> bytes option) \<Rightarrow> (snapshot_step \<Rightarrow> bool) \<Rightarrow> (disk_step \<Rightarrow> bool) \<Rightarrow> meta_sync \<Rightarrow> 'w \<Rightarrow>
   (ms_error + unit) \<times> meta_sync \<times> 'w" where
  "ms_sync api key vac sfault dfault m w =
     (if ms_leader m then (case upload api key vac sfault m w of (res, w') \<Rightarrow> (res, m, w'))
      else case download api key dfault w of
             Inl e \<Rightarrow> (Inl e, m, w)
           | Inr None \<Rightarrow> (Inr (), m, w)
           | Inr (Some b) \<Rightarrow> (Inr (), m\<lparr>ms_snapshot := Some b\<rparr>, w))"

text \<open>A file that cannot be opened or migrated fails where the swap reopens the database.\<close>

definition swap_file :: "(bytes \<Rightarrow> store option) \<Rightarrow> (swap_step \<Rightarrow> bool) \<Rightarrow> bytes \<Rightarrow> store \<Rightarrow> bool \<times> store" where
  "swap_file opn fault b st =
     (case opn b of
        None \<Rightarrow> SwapFromSnapshot (\<lambda>s. s = Reopen \<or> fault s) st st
      | Some db \<Rightarrow> SwapFromSnapshot fault db st)"

definition RestoreOnBoot ::
  "'w s3_api \<Rightarrow> string \<Rightarrow> (bytes \<Rightarrow> store option) \<Rightarrow> (disk_step \<Rightarrow> bool) \<Rightarrow> (swap_step \<Rightarrow> bool) \<Rightarrow> meta_sync \<Rightarrow> 'w \<Rightarrow>
   (ms_error + unit) \<times> meta_sync" where
  "RestoreOnBoot api key opn dfault fault m w =
     (case download api key dfault w of
        Inl e \<Rightarrow> (Inl e, m)
      | Inr None \<Rightarrow> (Inr (), m)
      | Inr (Some b) \<Rightarrow>
          (case swap_file opn fault b (ms_store m) of
             (False, st) \<Rightarrow> (Inl ApplyFailed, m\<lparr>ms_store := st\<rparr>)
           | (True, st) \<Rightarrow> (Inr (), m\<lparr>ms_store := st\<rparr>)))"

text \<open>The part of a promotion under the mutex.\<close>

definition apply_snapshot :: "(bytes \<Rightarrow> store option) \<Rightarrow> (swap_step \<Rightarrow> bool) \<Rightarrow> meta_sync \<Rightarrow> (ms_error + unit) \<times> meta_sync" where
  "apply_snapshot opn fault m =
     (case ms_snapshot m of
        None \<Rightarrow> (Inr (), m)
      | Some b \<Rightarrow>
          (case swap_file opn fault b (ms_store m) of
             (False, st) \<Rightarrow> (Inl ApplyFailed, m\<lparr>ms_snapshot := None, ms_store := st\<rparr>)
           | (True, st) \<Rightarrow> (Inr (), m\<lparr>ms_snapshot := None, ms_store := st\<rparr>)))"

definition ms_Promote :: "(bytes \<Rightarrow> store option) \<Rightarrow> (swap_step \<Rightarrow> bool) \<Rightarrow> int \<Rightarrow> meta_sync \<Rightarrow> (ms_error + unit) \<times> meta_sync" where
  "ms_Promote opn fault fence m = apply_snapshot opn fault (m\<lparr>ms_leader := True, ms_fence := fence\<rparr>)"

definition ms_Demote :: "meta_sync \<Rightarrow> meta_sync" where
  "ms_Demote m = m\<lparr>ms_leader := False\<rparr>"

definition NewMetaSync :: "store \<Rightarrow> meta_sync" where
  "NewMetaSync st = \<lparr>ms_leader = False, ms_fence = 0, ms_snapshot = None, ms_store = st\<rparr>"

section \<open>Several instances\<close>

text \<open>
  Where a sync of an instance stands. It holds the instance's mutex unless it is \<open>Idle\<close>. The tokens are read
  where the code reads them: once for the metadata of the request, once more for the comparison.
\<close>

datatype sync_pc =
    Idle
  | Snapped bytes
  | Built s3_input
  | Headed s3_input "s3_error + (string \<times> string) list \<times> string"
  | Guarded s3_input
  | Fetching

record 'w cluster =
  cl_bucket :: 'w
  cl_sync :: "nat \<Rightarrow> meta_sync"
  cl_pc :: "nat \<Rightarrow> sync_pc"

abbreviation to_pc :: "nat \<Rightarrow> sync_pc \<Rightarrow> 'w cluster \<Rightarrow> 'w cluster" where
  "to_pc i p c \<equiv> c\<lparr>cl_pc := (cl_pc c)(i := p)\<rparr>"

abbreviation to_sync :: "nat \<Rightarrow> meta_sync \<Rightarrow> 'w cluster \<Rightarrow> 'w cluster" where
  "to_sync i m c \<equiv> c\<lparr>cl_sync := (cl_sync c)(i := m)\<rparr>"

definition building :: "sync_pc \<Rightarrow> bool" where
  "building p = (case p of Built inp \<Rightarrow> True | Headed inp head \<Rightarrow> True | _ \<Rightarrow> False)"

text \<open>
  \<open>calm\<close> excludes a new term between the two reads of the token by the instance's own upload. \<open>abort\<close> is any
  failure or cancellation; \<open>serving\<close> is what the instance's own requests do to its database; \<open>other_put\<close>
  and \<open>other_delete\<close> are the blobs in the same bucket.
\<close>

inductive ms_step ::
  "'w s3_api \<Rightarrow> string \<Rightarrow> (store \<Rightarrow> bytes option) \<Rightarrow> (bytes \<Rightarrow> store option) \<Rightarrow> bool \<Rightarrow> 'w cluster \<Rightarrow> 'w cluster \<Rightarrow> bool"
  for api :: "'w s3_api" and key :: string and vac :: "store \<Rightarrow> bytes option" and opn :: "bytes \<Rightarrow> store option" and calm :: bool
where
  snap: "cl_pc c i = Idle \<Longrightarrow> ms_leader (cl_sync c i) \<Longrightarrow> take_snapshot fault vac (ms_store (cl_sync c i)) = Inr b \<Longrightarrow>
    ms_step api key vac opn calm c (to_pc i (Snapped b) c)"
| build: "cl_pc c i = Snapped b \<Longrightarrow>
    ms_step api key vac opn calm c (to_pc i (Built (build_put key b (ms_fence (cl_sync c i)))) c)"
| ask: "cl_pc c i = Built inp \<Longrightarrow>
    ms_step api key vac opn calm c (to_pc i (Headed inp (s3_head api key (cl_bucket c))) c)"
| check: "cl_pc c i = Headed inp head \<Longrightarrow> check_fence (ms_fence (cl_sync c i)) inp head = Inr inp' \<Longrightarrow>
    ms_step api key vac opn calm c (to_pc i (Guarded inp') c)"
| writes: "cl_pc c i = Guarded inp \<Longrightarrow> s3_put api inp (cl_bucket c) = (res, w) \<Longrightarrow>
    ms_step api key vac opn calm c (to_pc i Idle (c\<lparr>cl_bucket := w\<rparr>))"
| fetch: "cl_pc c i = Idle \<Longrightarrow> \<not> ms_leader (cl_sync c i) \<Longrightarrow> ms_step api key vac opn calm c (to_pc i Fetching c)"
| fetched: "cl_pc c i = Fetching \<Longrightarrow> download api key dfault (cl_bucket c) = Inr (Some b) \<Longrightarrow>
    ms_step api key vac opn calm c (to_pc i Idle (to_sync i ((cl_sync c i)\<lparr>ms_snapshot := Some b\<rparr>) c))"
| abort: "ms_step api key vac opn calm c (to_pc i Idle c)"
| lead: "ms_step api key vac opn calm c (to_sync i ((cl_sync c i)\<lparr>ms_leader := True\<rparr>) c)"
| new_term: "min_int64 \<le> fence \<Longrightarrow> fence \<le> max_int64 \<Longrightarrow> calm \<longrightarrow> \<not> building (cl_pc c i) \<Longrightarrow>
    ms_step api key vac opn calm c (to_sync i ((cl_sync c i)\<lparr>ms_fence := fence\<rparr>) c)"
| swap: "cl_pc c i = Idle \<Longrightarrow> ms_step api key vac opn calm c (to_sync i (snd (apply_snapshot opn sfault (cl_sync c i))) c)"
| demote: "ms_step api key vac opn calm c (to_sync i (ms_Demote (cl_sync c i)) c)"
| serving: "ms_step api key vac opn calm c (to_sync i ((cl_sync c i)\<lparr>ms_store := st\<rparr>) c)"
| boot: "RestoreOnBoot api key opn dfault sfault (NewMetaSync st) (cl_bucket c) = (Inr (), m) \<Longrightarrow>
    ms_step api key vac opn calm c (to_pc i Idle (to_sync i m c))"
| other_put: "pi_key inp \<noteq> key \<Longrightarrow> s3_put api inp (cl_bucket c) = (res, w) \<Longrightarrow>
    ms_step api key vac opn calm c (c\<lparr>cl_bucket := w\<rparr>)"
| other_delete: "k \<noteq> key \<Longrightarrow> s3_delete api k (cl_bucket c) = (res', w) \<Longrightarrow>
    ms_step api key vac opn calm c (c\<lparr>cl_bucket := w\<rparr>)"

definition ms_runs ::
  "'w s3_api \<Rightarrow> string \<Rightarrow> (store \<Rightarrow> bytes option) \<Rightarrow> (bytes \<Rightarrow> store option) \<Rightarrow> bool \<Rightarrow> 'w cluster \<Rightarrow> 'w cluster \<Rightarrow> bool" where
  "ms_runs api key vac opn calm = (ms_step api key vac opn calm)\<^sup>*\<^sup>*"

section \<open>The fence of the stored snapshot\<close>

lemma parseFence_build_put: "min_int64 \<le> f \<Longrightarrow> f \<le> max_int64 \<Longrightarrow> parseFence (pi_metadata (build_put key b f)) = f"
  by (simp add: build_put_def fenceMetaKey_def Atoi_Itoa to_lower_def lower_char_def)

text \<open>
  Entity tags that are not given out twice: \<open>seen\<close> are the tags given out so far, \<open>fine\<close> what the service
  keeps of its own state.
\<close>

locale versioned_store = object_store_laws api objs
  for api :: "'w s3_api" and objs :: "'w \<Rightarrow> string \<Rightarrow> s3_object option" +
  fixes seen :: "'w \<Rightarrow> string set"
    and fine :: "'w \<Rightarrow> bool"
  assumes tag_seen: "fine w \<Longrightarrow> objs w k = Some ob \<Longrightarrow> ob_etag ob \<in> seen w"
    and put_fine: "fine w \<Longrightarrow> s3_put api inp w = (res, w') \<Longrightarrow> fine w' \<and> seen w \<subseteq> seen w'"
    and put_tag: "fine w \<Longrightarrow> s3_put api inp w = (res, w') \<Longrightarrow>
        objs w' = objs w \<or> (\<exists>ob. objs w' (pi_key inp) = Some ob \<and> ob_etag ob \<notin> seen w)"
    and delete_fine: "fine w \<Longrightarrow> s3_delete api k w = (res', w') \<Longrightarrow> fine w' \<and> seen w \<subseteq> seen w'"
begin

definition checked :: "string \<Rightarrow> 'w \<Rightarrow> string \<Rightarrow> int \<Rightarrow> bool" where
  "checked key w tag fence \<longleftrightarrow>
     tag \<in> seen w \<and> (\<forall>ob. objs w key = Some ob \<and> ob_etag ob = tag \<longrightarrow> parseFence (ob_metadata ob) \<le> fence)"

text \<open>What is known at each point of an upload.\<close>

definition pc_ok :: "string \<Rightarrow> 'w \<Rightarrow> int \<Rightarrow> sync_pc \<Rightarrow> bool" where
  "pc_ok key w fence p =
     (case p of
        Built inp \<Rightarrow> pi_key inp = key \<and> parseFence (pi_metadata inp) = fence
      | Headed inp head \<Rightarrow> pi_key inp = key \<and> parseFence (pi_metadata inp) = fence \<and>
          (\<forall>md tag. head = Inr (md, tag) \<longrightarrow> checked key w tag (parseFence md))
      | Guarded inp \<Rightarrow> pi_key inp = key \<and>
          (case pi_cond inp of
             Always \<Rightarrow> False
           | IfMatch tag \<Rightarrow> checked key w tag (parseFence (pi_metadata inp))
           | IfNoneMatch \<Rightarrow> True)
      | _ \<Rightarrow> True)"

definition ms_inv :: "string \<Rightarrow> 'w cluster \<Rightarrow> bool" where
  "ms_inv key c \<longleftrightarrow> fine (cl_bucket c) \<and>
     (\<forall>i. min_int64 \<le> ms_fence (cl_sync c i) \<and> ms_fence (cl_sync c i) \<le> max_int64 \<and>
          pc_ok key (cl_bucket c) (ms_fence (cl_sync c i)) (cl_pc c i))"

text \<open>How the bucket may change under an upload: what is at the key is what was there, or has a tag of its own.\<close>

definition moved :: "string \<Rightarrow> 'w \<Rightarrow> 'w \<Rightarrow> bool" where
  "moved key w w' \<longleftrightarrow> fine w' \<and> seen w \<subseteq> seen w' \<and>
     (objs w' key = objs w key \<or> (\<exists>ob. objs w' key = Some ob \<and> ob_etag ob \<notin> seen w))"

lemma moved_put:
  assumes "fine w" and "s3_put api inp w = (res, w')"
  shows "moved key w w'"
proof -
  have "objs w' = objs w \<or> written inp (objs w) (objs w')"
    using put_done [of inp w _ w'] put_unknown [of inp w _ w'] assms(2) by (cases res) auto
  with put_fine [OF assms] put_tag [OF assms] show ?thesis by (auto simp: moved_def written_def)
qed

lemma moved_delete:
  assumes "fine w" and "s3_delete api k w = (res, w')" and "k \<noteq> key"
  shows "moved key w w'"
proof -
  have "objs w' = objs w \<or> objs w' = (objs w)(k := None)"
    using delete_done [of k w _ w'] delete_unknown [of k w _ w'] assms(2) by (cases res) auto
  with delete_fine [OF assms(1,2)] assms(3) show ?thesis by (auto simp: moved_def)
qed

lemma checked_moved: "moved key w w' \<Longrightarrow> checked key w tag fence \<Longrightarrow> checked key w' tag fence"
  unfolding moved_def checked_def by (elim conjE disjE exE) auto

lemma pc_ok_moved: "moved key w w' \<Longrightarrow> pc_ok key w fence p \<Longrightarrow> pc_ok key w' fence p"
  by (auto simp: pc_ok_def checked_moved split: sync_pc.splits s3_condition.splits)

lemma head_checked:
  assumes "fine w" and "s3_head api key w = Inr (md, tag)"
  shows "checked key w tag (parseFence md)"
  using head_done [OF assms(2)] tag_seen [OF assms(1)] by (auto simp: checked_def)

lemma check_fence_ok:
  assumes "pc_ok key w fence (Headed inp head)" and "check_fence fence inp head = Inr inp'"
  shows "pc_ok key w fence' (Guarded inp')"
proof (cases head)
  case (Inl err)
  with assms show ?thesis by (auto simp: pc_ok_def check_fence_def split: if_splits)
next
  case (Inr x)
  with assms show ?thesis
    by (cases x) (force simp: pc_ok_def check_fence_def checked_def Let_def split: if_splits)
qed

lemma ms_inv_sync:
  assumes "ms_inv key c" and "ms_fence m = ms_fence (cl_sync c i)"
  shows "ms_inv key (to_sync i m c)"
  using assms by (simp add: ms_inv_def)

lemma ms_inv_pc:
  assumes "ms_inv key c" and "pc_ok key (cl_bucket c) (ms_fence (cl_sync c i)) p"
  shows "ms_inv key (to_pc i p c)"
  using assms by (simp add: ms_inv_def)

lemma ms_inv_bucket:
  assumes "ms_inv key c" and "moved key (cl_bucket c) w"
  shows "ms_inv key (c\<lparr>cl_bucket := w\<rparr>)"
  using assms pc_ok_moved [OF assms(2)] by (simp add: ms_inv_def moved_def)

lemma fence_swapped: "ms_fence (snd (apply_snapshot opn fault m)) = ms_fence m"
  by (auto simp: apply_snapshot_def split: option.splits prod.splits bool.splits)

lemma fence_restored:
  assumes "RestoreOnBoot api key opn dfault sfault m w = (res, m')"
  shows "ms_fence m' = ms_fence m"
  using assms by (auto simp: RestoreOnBoot_def split: sum.splits option.splits prod.splits bool.splits)

lemma pc_ok_idle [simp]: "pc_ok key w fence Idle" "pc_ok key w fence (Snapped b)" "pc_ok key w fence Fetching"
  by (simp_all add: pc_ok_def)

lemma ms_inv_step:
  assumes "ms_step api key vac opn True c c'" and inv: "ms_inv key c"
  shows "ms_inv key c'"
proof -
  have f: "fine (cl_bucket c)" and range: "min_int64 \<le> ms_fence (cl_sync c i)" "ms_fence (cl_sync c i) \<le> max_int64"
    and pc: "pc_ok key (cl_bucket c) (ms_fence (cl_sync c i)) (cl_pc c i)" for i
    using inv by (simp_all add: ms_inv_def)
  from assms(1) show ?thesis
  proof cases
    case (build i b)
    have "pc_ok key (cl_bucket c) (ms_fence (cl_sync c i)) (Built (build_put key b (ms_fence (cl_sync c i))))"
      using range [of i] by (simp add: pc_ok_def parseFence_build_put) (simp add: build_put_def)
    with build ms_inv_pc [OF inv] show ?thesis by simp
  next
    case (ask i inp)
    with pc [of i] have "pc_ok key (cl_bucket c) (ms_fence (cl_sync c i)) (Headed inp (s3_head api key (cl_bucket c)))"
      by (auto simp: pc_ok_def head_checked [OF f])
    with ask ms_inv_pc [OF inv] show ?thesis by simp
  next
    case (check i inp head inp')
    with pc [of i] check_fence_ok ms_inv_pc [OF inv] show ?thesis by metis
  next
    case (writes i inp res w)
    with ms_inv_bucket [OF inv moved_put [OF f]] have "ms_inv key (c\<lparr>cl_bucket := w\<rparr>)" by simp
    from ms_inv_pc [OF this, of i Idle] writes show ?thesis by simp
  next
    case (fetched i dfault b)
    have "ms_inv key (to_sync i ((cl_sync c i)\<lparr>ms_snapshot := Some b\<rparr>) c)" by (rule ms_inv_sync [OF inv]) simp
    from ms_inv_pc [OF this, of i Idle] fetched show ?thesis by simp
  next
    case (new_term fence i)
    then show ?thesis using inv pc [of i]
      by (auto simp: ms_inv_def pc_ok_def building_def split: sync_pc.splits)
  next
    case (boot dfault sfault st m i)
    then have "ms_fence m = 0" using fence_restored by (fastforce simp: NewMetaSync_def)
    with boot inv show ?thesis by (auto simp: ms_inv_def min_int64_def max_int64_def)
  next
    case (other_put inp res w)
    with ms_inv_bucket [OF inv moved_put [OF f]] show ?thesis by simp
  next
    case (other_delete k res w)
    with ms_inv_bucket [OF inv moved_delete [OF f]] show ?thesis by simp
  qed (use inv in \<open>auto intro!: ms_inv_pc ms_inv_sync simp: fence_swapped ms_Demote_def\<close>)
qed

text \<open>One step: the object at the key stays, or is replaced by one of at least its fence.\<close>

definition later :: "string \<Rightarrow> 'w \<Rightarrow> 'w \<Rightarrow> bool" where
  "later key w w' \<longleftrightarrow> (\<forall>ob. objs w key = Some ob \<longrightarrow>
     (\<exists>ob'. objs w' key = Some ob' \<and> parseFence (ob_metadata ob) \<le> parseFence (ob_metadata ob')))"

lemma later_refl: "later key w w"
  by (auto simp: later_def)

lemma later_trans: "later key w w' \<Longrightarrow> later key w' w'' \<Longrightarrow> later key w w''"
  unfolding later_def by (meson order_trans)

lemma write_later:
  assumes "pc_ok key w fence (Guarded inp)" and "s3_put api inp w = (res, w')"
  shows "later key w w'"
proof -
  have "objs w' = objs w \<or> written inp (objs w) (objs w')"
    using put_done [of inp w _ w'] put_unknown [of inp w _ w'] assms(2) by (cases res) auto
  with assms(1) show ?thesis
    by (auto simp: later_def written_def pc_ok_def checked_def cond_holds_def split: s3_condition.splits)
qed

lemma other_later:
  assumes "objs w' key = objs w key"
  shows "later key w w'"
  using assms by (auto simp: later_def)

lemma step_later:
  assumes "ms_step api key vac opn True c c'" and "ms_inv key c"
  shows "later key (cl_bucket c) (cl_bucket c')"
  using assms(1)
proof cases
  case (writes i inp res w)
  with assms(2) have "pc_ok key (cl_bucket c) (ms_fence (cl_sync c i)) (Guarded inp)" by (metis ms_inv_def)
  with writes write_later show ?thesis by simp
next
  case (other_put inp res w)
  then have "objs w = objs (cl_bucket c) \<or> written inp (objs (cl_bucket c)) (objs w)"
    using put_done [of inp "cl_bucket c" _ w] put_unknown [of inp "cl_bucket c" _ w] by (cases res) auto
  with other_put show ?thesis by (auto simp: written_def intro!: other_later)
next
  case (other_delete k res w)
  then have "objs w = objs (cl_bucket c) \<or> objs w = (objs (cl_bucket c))(k := None)"
    using delete_done [of k "cl_bucket c" _ w] delete_unknown [of k "cl_bucket c" _ w] by (cases res) auto
  with other_delete show ?thesis by (auto intro!: other_later)
qed (simp_all add: later_refl)

lemma runs_later:
  assumes "ms_runs api key vac opn True c c'" and "ms_inv key c"
  shows "later key (cl_bucket c) (cl_bucket c') \<and> ms_inv key c'"
  using assms unfolding ms_runs_def
proof (induction rule: rtranclp_induct)
  case base
  then show ?case by (simp add: later_refl)
next
  case (step c1 c2)
  then show ?case using step_later ms_inv_step later_trans by blast
qed

end


section \<open>Failover\<close>

lemma download_done:
  assumes "object_store_laws api objs" and "download api key fault w = Inr x"
  shows "x = map_option ob_body (objs w key)"
proof (cases "s3_get api key w")
  case (Inl err)
  then have "isNotFound err" "x = None" using assms(2) by (auto simp: download_def split: if_splits)
  with object_store_laws.get_missing [OF assms(1) Inl] show ?thesis by simp
next
  case (Inr y)
  obtain b n where y: "y = (b, n)" by fastforce
  with Inr assms(2) have "x = Some b" by (auto simp: download_def split: list.splits)
  with object_store_laws.get_done [OF assms(1)] Inr y show ?thesis by fastforce
qed

lemma upload_done:
  assumes "object_store_laws api objs" and "upload api key vac fault m w = (Inr (), w')"
  obtains b ob where "vac (ms_store m) = Some b" and "objs w' key = Some ob" and "ob_body ob = b"
    and "ob_metadata ob = [(fenceMetaKey, Itoa (ms_fence m))]"
proof -
  obtain b where b: "take_snapshot fault vac (ms_store m) = Inr b"
    using assms(2) by (cases "take_snapshot fault vac (ms_store m)") (auto simp: upload_def)
  obtain inp where inp: "check_fence (ms_fence m) (build_put key b (ms_fence m)) (s3_head api key w) = Inr inp"
    using assms(2) b by (cases "check_fence (ms_fence m) (build_put key b (ms_fence m)) (s3_head api key w)") (auto simp: upload_def)
  have "s3_put api inp w = (Inr (), w')"
    using assms(2) b inp by (auto simp: upload_def put_snapshot_def split: prod.splits sum.splits)
  then have "written inp (objs w) (objs w')" by (rule object_store_laws.put_done [OF assms(1)])
  moreover have "pi_key inp = key" "pi_body inp = b" "pi_metadata inp = [(fenceMetaKey, Itoa (ms_fence m))]"
    using inp by (auto simp: check_fence_def build_put_def Let_def split: sum.splits if_splits)
  moreover have "vac (ms_store m) = Some b"
    using b by (auto simp: take_snapshot_def Snapshot_def split: if_splits option.splits sum.splits)
  ultimately show thesis using that unfolding written_def by fastforce
qed

lemma swap_file_done:
  assumes "swap_file opn fault b st = (True, st')"
  shows "opn b = Some st'"
  using assms by (auto simp: swap_file_def SwapFromSnapshot_def split: option.splits if_splits)


text \<open>A leader of an older term than the stored snapshot's writes nothing, whether or not it knows.\<close>

lemma stale_leader_refused:
  assumes "object_store_laws api objs" and "objs w key = Some ob" and "ms_fence m < parseFence (ob_metadata ob)"
  shows "snd (upload api key vac fault m w) = w \<and> fst (upload api key vac fault m w) \<noteq> Inr ()"
proof (cases "s3_head api key w")
  case (Inl err)
  with object_store_laws.head_missing [OF assms(1) Inl] assms(2) have "\<not> isNotFound err" by auto
  with Inl show ?thesis by (auto simp: upload_def check_fence_def split: sum.splits)
next
  case (Inr x)
  obtain md tag where x: "x = (md, tag)" by fastforce
  with Inr object_store_laws.head_done [OF assms(1)] assms(2) have "ob_metadata ob = md" by fastforce
  with assms(3) Inr x show ?thesis by (auto simp: upload_def check_fence_def Let_def split: sum.splits)
qed

section \<open>Schedules\<close>

text \<open>Steps chosen by name, so that a run can be computed.\<close>

datatype action =
    Snap nat | Build nat | Ask nat | Check nat | Write nat | Fetch nat | Fetched nat
  | Lead nat | Term nat int | Swap nat | Serve nat store | Boot nat

definition perform ::
  "'w s3_api \<Rightarrow> string \<Rightarrow> (store \<Rightarrow> bytes option) \<Rightarrow> (bytes \<Rightarrow> store option) \<Rightarrow> action \<Rightarrow> 'w cluster \<Rightarrow> 'w cluster option" where
  "perform api key vac opn act c =
     (case act of
        Snap i \<Rightarrow>
          (case (cl_pc c i, take_snapshot (\<lambda>s. False) vac (ms_store (cl_sync c i))) of
             (Idle, Inr b) \<Rightarrow> if ms_leader (cl_sync c i) then Some (to_pc i (Snapped b) c) else None
           | _ \<Rightarrow> None)
      | Build i \<Rightarrow> (case cl_pc c i of Snapped b \<Rightarrow> Some (to_pc i (Built (build_put key b (ms_fence (cl_sync c i)))) c) | _ \<Rightarrow> None)
      | Ask i \<Rightarrow> (case cl_pc c i of Built inp \<Rightarrow> Some (to_pc i (Headed inp (s3_head api key (cl_bucket c))) c) | _ \<Rightarrow> None)
      | Check i \<Rightarrow>
          (case cl_pc c i of
             Headed inp head \<Rightarrow>
               (case check_fence (ms_fence (cl_sync c i)) inp head of Inr inp' \<Rightarrow> Some (to_pc i (Guarded inp') c) | Inl e \<Rightarrow> None)
           | _ \<Rightarrow> None)
      | Write i \<Rightarrow>
          (case cl_pc c i of
             Guarded inp \<Rightarrow> Some (to_pc i Idle (c\<lparr>cl_bucket := snd (s3_put api inp (cl_bucket c))\<rparr>))
           | _ \<Rightarrow> None)
      | Fetch i \<Rightarrow> (case cl_pc c i of Idle \<Rightarrow> if ms_leader (cl_sync c i) then None else Some (to_pc i Fetching c) | _ \<Rightarrow> None)
      | Fetched i \<Rightarrow>
          (case (cl_pc c i, download api key (\<lambda>s. False) (cl_bucket c)) of
             (Fetching, Inr (Some b)) \<Rightarrow> Some (to_pc i Idle (to_sync i ((cl_sync c i)\<lparr>ms_snapshot := Some b\<rparr>) c))
           | _ \<Rightarrow> None)
      | Lead i \<Rightarrow> Some (to_sync i ((cl_sync c i)\<lparr>ms_leader := True\<rparr>) c)
      | Term i f \<Rightarrow>
          if min_int64 \<le> f \<and> f \<le> max_int64 \<and> \<not> building (cl_pc c i)
          then Some (to_sync i ((cl_sync c i)\<lparr>ms_fence := f\<rparr>) c) else None
      | Swap i \<Rightarrow> (case cl_pc c i of Idle \<Rightarrow> Some (to_sync i (snd (apply_snapshot opn (\<lambda>s. False) (cl_sync c i))) c) | _ \<Rightarrow> None)
      | Serve i st \<Rightarrow> Some (to_sync i ((cl_sync c i)\<lparr>ms_store := st\<rparr>) c)
      | Boot i \<Rightarrow>
          (case RestoreOnBoot api key opn (\<lambda>s. False) (\<lambda>s. False) (NewMetaSync empty_store) (cl_bucket c) of
             (Inr u, m) \<Rightarrow> Some (to_pc i Idle (to_sync i m c))
           | (Inl e, m) \<Rightarrow> None))"

fun schedule ::
  "'w s3_api \<Rightarrow> string \<Rightarrow> (store \<Rightarrow> bytes option) \<Rightarrow> (bytes \<Rightarrow> store option) \<Rightarrow> action list \<Rightarrow> 'w cluster \<Rightarrow> 'w cluster option" where
  "schedule api key vac opn [] c = Some c"
| "schedule api key vac opn (a # as) c =
     (case perform api key vac opn a c of None \<Rightarrow> None | Some c' \<Rightarrow> schedule api key vac opn as c')"

lemma perform_step:
  assumes "perform api key vac opn a c = Some c'"
  shows "ms_step api key vac opn calm c c'"
proof (cases a)
  case (Snap i)
  with assms show ?thesis by (auto simp: perform_def intro: snap split: sync_pc.splits sum.splits if_splits)
next
  case (Build i)
  with assms show ?thesis by (auto simp: perform_def intro: build split: sync_pc.splits)
next
  case (Ask i)
  with assms show ?thesis by (auto simp: perform_def intro: ask split: sync_pc.splits)
next
  case (Check i)
  with assms show ?thesis by (auto simp: perform_def intro: check split: sync_pc.splits sum.splits)
next
  case (Write i)
  with assms obtain inp where "cl_pc c i = Guarded inp" "c' = to_pc i Idle (c\<lparr>cl_bucket := snd (s3_put api inp (cl_bucket c))\<rparr>)"
    by (auto simp: perform_def split: sync_pc.splits)
  with writes [OF this(1) prod.collapse [symmetric]] show ?thesis by simp
next
  case (Fetch i)
  with assms show ?thesis by (auto simp: perform_def intro: fetch split: sync_pc.splits if_splits)
next
  case (Fetched i)
  with assms obtain b where "cl_pc c i = Fetching" "download api key (\<lambda>s. False) (cl_bucket c) = Inr (Some b)"
    "c' = to_pc i Idle (to_sync i ((cl_sync c i)\<lparr>ms_snapshot := Some b\<rparr>) c)"
    by (auto simp: perform_def split: sync_pc.splits sum.splits option.splits)
  with fetched [OF this(1,2)] show ?thesis by simp
next
  case (Lead i)
  with assms show ?thesis by (auto simp: perform_def intro: lead)
next
  case (Term i f)
  with assms show ?thesis by (auto simp: perform_def intro: new_term split: if_splits)
next
  case (Swap i)
  with assms show ?thesis by (auto simp: perform_def intro: swap split: sync_pc.splits)
next
  case (Serve i st)
  with assms show ?thesis by (auto simp: perform_def intro: serving)
next
  case (Boot i)
  with assms obtain m where "RestoreOnBoot api key opn (\<lambda>s. False) (\<lambda>s. False) (NewMetaSync empty_store) (cl_bucket c) = (Inr (), m)"
    "c' = to_pc i Idle (to_sync i m c)"
    by (auto simp: perform_def split: sum.splits prod.splits)
  with boot [OF this(1)] show ?thesis by simp
qed

lemma schedule_runs: "schedule api key vac opn as c = Some c' \<Longrightarrow> ms_runs api key vac opn calm c c'"
proof (induction as arbitrary: c)
  case (Cons a as)
  then obtain c1 where "perform api key vac opn a c = Some c1" "ms_runs api key vac opn calm c1 c'"
    by (auto split: option.splits)
  then show ?case unfolding ms_runs_def by (meson converse_rtranclp_into_rtranclp perform_step)
qed (simp add: ms_runs_def)

section \<open>Runs\<close>

text \<open>The bucket that numbers its writes gives out no tag twice.\<close>

definition numbered :: "bucket \<Rightarrow> string set" where
  "numbered w = {tag. length tag < bk_writes w}"

interpretation counted: versioned_store "bucket_api count_tag" find_object numbered
  "\<lambda>w. \<forall>e \<in> set (bk_objects w). ob_etag (snd e) \<in> numbered w"
proof (unfold_locales, goal_cases)
  case (1 w k ob)
  then show ?case by (fastforce simp: find_object_def dest: map_of_SomeD)
next
  case (2 w inp res w')
  then show ?case
    by (auto simp: bucket_api_def bucket_put_def numbered_def count_tag_def split: if_splits) (metis less_SucI snd_conv)+
next
  case (3 w inp res w')
  then show ?case
    by (auto simp: bucket_api_def bucket_put_def numbered_def count_tag_def find_object_def split: if_splits)
next
  case (4 w k res' w')
  then show ?case by (auto simp: bucket_api_def bucket_delete_def numbered_def split: if_splits) (metis snd_conv)+
qed

text \<open>
  Two instances and a bucket. A database is stood for by its repositories, its file by the names of them.
\<close>

definition db_of :: "string \<Rightarrow> store" where
  "db_of name = empty_store\<lparr>st_repositories := [demo_repo\<lparr>r_name := name\<rparr>]\<rparr>"

definition toy_vac :: "store \<Rightarrow> bytes option" where
  "toy_vac st = Some (concat (map r_name (st_repositories st)))"

definition toy_opn :: "bytes \<Rightarrow> store option" where
  "toy_opn b = Some (db_of b)"

definition two_instances :: "bucket cluster" where
  "two_instances = \<lparr>cl_bucket = sb_bucket fresh_bucket,
     cl_sync = (\<lambda>i. NewMetaSync (db_of ''old'')), cl_pc = (\<lambda>i. Idle)\<rparr>"

definition upload_by :: "nat \<Rightarrow> action list" where
  "upload_by i = [Snap i, Build i, Ask i, Check i, Write i]"

definition stored_in :: "bucket cluster \<Rightarrow> (bytes \<times> int) option" where
  "stored_in c = map_option (\<lambda>ob. (ob_body ob, parseFence (ob_metadata ob))) (find_object (cl_bucket c) ''db'')"

text \<open>
  Entity tags of the contents alone (the MD5 sums of plain uploads): the former leader reads the tag, its
  successor uploads the same bytes under its own term, and the former leader's conditional write goes
  through. The stored term falls back from 2 to 1.
\<close>

theorem content_tags_defeat_fence:
  "let api = bucket_api (\<lambda>b n. b);
       before = schedule api ''db'' toy_vac toy_opn
         ([Lead 0, Term 0 1] @ upload_by 0 @
          [Serve 0 (db_of ''new''), Snap 0, Build 0, Ask 0, Check 0,
           Fetch 1, Fetched 1, Lead 1, Term 1 2, Swap 1] @ upload_by 1) two_instances
   in map_option stored_in before = Some (Some (''old'', 2)) \<and>
      map_option stored_in (schedule api ''db'' toy_vac toy_opn [Write 0] (the before)) = Some (Some (''new'', 1))"
  by code_simp

text \<open>
  \<^verbatim>\<open>Promote\<close> marks the instance as the leader before it waits for the mutex. A sync that starts in between
  uploads the local database, which the promotion is about to discard, over the newer snapshot and under
  the new term. An instance that starts then gets the old database.
\<close>

theorem promotion_uploads_discarded_database:
  "let run = schedule (bucket_api count_tag) ''db'' toy_vac toy_opn
         ([Lead 0, Term 0 1, Serve 0 (db_of ''new'')] @ upload_by 0 @
          [Fetch 1, Fetched 1, Lead 1, Term 1 2] @ upload_by 1 @ [Swap 1, Boot 2]) two_instances
   in map_option stored_in run = Some (Some (''old'', 2)) \<and>
      map_option (\<lambda>c. map r_name (st_repositories (ms_store (cl_sync c 1)))) run = Some [''new''] \<and>
      map_option (\<lambda>c. map r_name (st_repositories (ms_store (cl_sync c 2)))) run = Some [''old'']"
  by code_simp

text \<open>
  The token is read once for the metadata of the request and again for the comparison. An instance that
  loses and regains the leadership in between passes the comparison with the new term and writes the old one.
\<close>

theorem second_read_of_fence_passes_old_term:
  "let api = bucket_api count_tag; run = schedule api ''db'' toy_vac toy_opn;
       built = run ([Lead 0, Term 0 1, Snap 0, Build 0, Lead 1, Term 1 2] @ upload_by 1) two_instances;
       c = the built;
       again = to_sync 0 ((cl_sync c 0)\<lparr>ms_fence := 3\<rparr>) c
   in map_option stored_in built = Some (Some (''old'', 2)) \<and>
      ms_step api ''db'' toy_vac toy_opn False c again \<and>
      map_option stored_in (run [Ask 0, Check 0, Write 0] again) = Some (Some (''old'', 1))"
proof -
  let ?api = "bucket_api count_tag"
  let ?built = "schedule ?api ''db'' toy_vac toy_opn ([Lead 0, Term 0 1, Snap 0, Build 0, Lead 1, Term 1 2] @ upload_by 1) two_instances"
  have "ms_step ?api ''db'' toy_vac toy_opn False c (to_sync 0 ((cl_sync c 0)\<lparr>ms_fence := 3\<rparr>) c)" for c
    by (rule new_term) (simp_all add: min_int64_def max_int64_def)
  moreover have "map_option stored_in ?built = Some (Some (''old'', 2))" by code_simp
  moreover have "map_option stored_in (schedule ?api ''db'' toy_vac toy_opn [Ask 0, Check 0, Write 0]
      (to_sync 0 ((cl_sync (the ?built) 0)\<lparr>ms_fence := 3\<rparr>) (the ?built))) = Some (Some (''old'', 1))" by code_simp
  ultimately show ?thesis by (simp only: Let_def)
qed

lemma two_instances_fences: "min_int64 \<le> ms_fence (cl_sync two_instances i) \<and> ms_fence (cl_sync two_instances i) \<le> max_int64"
  by (simp add: two_instances_def NewMetaSync_def min_int64_def max_int64_def)

definition first_term :: "bucket cluster option" where
  "first_term = schedule (bucket_api count_tag) ''db'' toy_vac toy_opn ([Lead 0, Term 0 1] @ upload_by 0) two_instances"

definition second_term :: "bucket cluster option" where
  "second_term = schedule (bucket_api count_tag) ''db'' toy_vac toy_opn
     ([Snap 0, Build 0, Ask 0, Check 0, Fetch 1, Fetched 1, Lead 1, Term 1 2, Swap 1] @ upload_by 1 @ [Write 0]) (the first_term)"


definition demo_leader_sync :: meta_sync where
  "demo_leader_sync = (NewMetaSync (db_of ''new''))\<lparr>ms_leader := True, ms_fence := 1\<rparr>"


end
