(* ===== verification/Migrations.thy ===== *)
theory Migrations
  imports Strconv
begin

text \<open>
  Opening the database file and bringing its schema up to date (\<^verbatim>\<open>internal/meta/meta.go\<close>). The contents of the
  database are a parameter type, a migration script is run by the parameter \<open>exec\<close>, which gives nothing when a
  statement fails. \<open>fault\<close> says which of the other steps fail. A migration and the row that records it are one
  transaction.
\<close>

record 'd database =
  db_versions :: "int list"
  db_content :: 'd

datatype mig_step =
    OpenFile | PingFile | CreateTable | ReadVersions | ReadDir | ReadFile string | BeginTx string | InsertVersion string | Commit string

datatype mig_error = StepFailed mig_step | BadName string | ApplyScript string

text \<open>
  \<^verbatim>\<open>fmt.Sscanf(s, "%d", &v)\<close>: blanks, a sign and as many digits as there are; what follows is left.
\<close>

definition scan_int :: "string \<Rightarrow> int option" where
  "scan_int s =
     (let t = dropWhile ascii_space s;
          sign = (if t \<noteq> [] \<and> (hd t = CHR ''-'' \<or> hd t = CHR ''+'') then [hd t] else []);
          ds = takeWhile is_digit (drop (length sign) t)
      in if ds = [] then None else Atoi (sign @ ds))"

definition migrationVersion :: "string \<Rightarrow> int option" where
  "migrationVersion name =
     (case index_of name ''_'' of
        None \<Rightarrow> None
      | Some i \<Rightarrow> if i = 0 then None else scan_int (take i name))"

text \<open>The names of the scripts: the plain files of the directory that end in .sql, sorted.\<close>

definition migration_names :: "(string \<times> bool) list \<Rightarrow> string list" where
  "migration_names entries = str_sort (map fst (filter (\<lambda>e. \<not> snd e \<and> has_suffix (fst e) ''.sql'') entries))"

fun run_migrations ::
  "(string \<Rightarrow> 'd \<Rightarrow> 'd option) \<Rightarrow> (mig_step \<Rightarrow> bool) \<Rightarrow> int list \<Rightarrow> string list \<Rightarrow> 'd database \<Rightarrow> mig_error option \<times> 'd database" where
  "run_migrations exec fault applied [] db = (None, db)"
| "run_migrations exec fault applied (name # ns) db =
     (case migrationVersion name of
        None \<Rightarrow> (Some (BadName name), db)
      | Some v \<Rightarrow>
          if v \<in> set applied then run_migrations exec fault applied ns db
          else if fault (ReadFile name) then (Some (StepFailed (ReadFile name)), db)
          else if fault (BeginTx name) then (Some (StepFailed (BeginTx name)), db)
          else case exec name (db_content db) of
                 None \<Rightarrow> (Some (ApplyScript name), db)
               | Some d \<Rightarrow>
                   if fault (InsertVersion name) \<or> v \<in> set (db_versions db) then (Some (StepFailed (InsertVersion name)), db)
                   else if fault (Commit name) then (Some (StepFailed (Commit name)), db)
                   else run_migrations exec fault applied ns (db\<lparr>db_versions := db_versions db @ [v], db_content := d\<rparr>))"

definition migrate ::
  "(string \<Rightarrow> 'd \<Rightarrow> 'd option) \<Rightarrow> (string \<times> bool) list \<Rightarrow> (mig_step \<Rightarrow> bool) \<Rightarrow> 'd database \<Rightarrow> mig_error option \<times> 'd database" where
  "migrate exec entries fault db =
     (if fault CreateTable then (Some (StepFailed CreateTable), db)
      else if fault ReadVersions then (Some (StepFailed ReadVersions), db)
      else if fault ReadDir then (Some (StepFailed ReadDir), db)
      else run_migrations exec fault (db_versions db) (migration_names entries) db)"

definition openAndMigrate ::
  "(string \<Rightarrow> 'd \<Rightarrow> 'd option) \<Rightarrow> (string \<times> bool) list \<Rightarrow> (mig_step \<Rightarrow> bool) \<Rightarrow> 'd database \<Rightarrow> mig_error option \<times> 'd database" where
  "openAndMigrate exec entries fault db =
     (if fault OpenFile then (Some (StepFailed OpenFile), db)
      else if fault PingFile then (Some (StepFailed PingFile), db)
      else migrate exec entries fault db)"

section \<open>Runs of the loop\<close>

abbreviation smooth :: "mig_step \<Rightarrow> bool" where
  "smooth \<equiv> \<lambda>s. False"

definition versions_of_names :: "string list \<Rightarrow> int list" where
  "versions_of_names ns = map (\<lambda>n. the (migrationVersion n)) ns"

definition recorded :: "int \<Rightarrow> 'd \<Rightarrow> 'd database \<Rightarrow> 'd database" where
  "recorded v d db = db\<lparr>db_versions := db_versions db @ [v], db_content := d\<rparr>"

lemma run_migrations_cases:
  assumes "run_migrations exec fault applied (name # ns) db = (res, db')"
  obtains (failed) "res \<noteq> None" and "db' = db"
  | (skipped) v where "migrationVersion name = Some v" and "v \<in> set applied" and "run_migrations exec fault applied ns db = (res, db')"
  | (ran) v d where "migrationVersion name = Some v" and "v \<notin> set applied" and "v \<notin> set (db_versions db)"
      and "exec name (db_content db) = Some d" and "run_migrations exec fault applied ns (recorded v d db) = (res, db')"
proof (cases "migrationVersion name")
  case None
  with assms show thesis by (intro failed) auto
next
  case (Some v)
  show thesis
  proof (cases "v \<in> set applied")
    case True
    with Some assms show thesis by (intro skipped) auto
  next
    case False
    show thesis
    proof (cases "exec name (db_content db)")
      case None
      with Some False assms show thesis by (intro failed) (auto split: if_splits)
    next
      case (Some d)
      with \<open>migrationVersion name = Some v\<close> False assms show thesis
        by (cases "fault (ReadFile name) \<or> fault (BeginTx name) \<or> fault (InsertVersion name) \<or> v \<in> set (db_versions db) \<or> fault (Commit name)")
          (auto simp: recorded_def intro: failed ran split: if_splits)
    qed
  qed
qed

lemma run_migrations_grows:
  "run_migrations exec fault applied ns db = (res, db') \<Longrightarrow> set (db_versions db) \<subseteq> set (db_versions db')"
proof (induction ns arbitrary: db)
  case (Cons name ns)
  from Cons.prems show ?case
  proof (cases rule: run_migrations_cases)
    case (ran v d)
    with Cons.IH show ?thesis by (fastforce simp: recorded_def)
  qed (use Cons.IH in auto)
qed simp

lemma run_migrations_done:
  "run_migrations exec fault applied ns db = (None, db') \<Longrightarrow>
   list_all (\<lambda>n. migrationVersion n \<noteq> None) ns \<and>
   db_versions db' = db_versions db @ filter (\<lambda>v. v \<notin> set applied) (versions_of_names ns)"
proof (induction ns arbitrary: db)
  case (Cons name ns)
  from Cons.prems show ?case
  proof (cases rule: run_migrations_cases)
    case (skipped v)
    with Cons.IH [of db] show ?thesis by (simp add: versions_of_names_def)
  next
    case (ran v d)
    with Cons.IH [of "recorded v d db"] show ?thesis by (simp add: versions_of_names_def recorded_def)
  qed simp
qed (simp add: versions_of_names_def)

lemma run_migrations_distinct:
  "run_migrations exec fault applied ns db = (res, db') \<Longrightarrow> distinct (db_versions db) \<Longrightarrow> distinct (db_versions db')"
proof (induction ns arbitrary: db)
  case (Cons name ns)
  from Cons.prems(1) show ?case
  proof (cases rule: run_migrations_cases)
    case (ran v d)
    with Cons.prems(2) Cons.IH [of "recorded v d db"] show ?thesis by (simp add: recorded_def)
  qed (use Cons in auto)
qed simp

text \<open>Skipping what is recorded by now instead of what was recorded at the start makes no difference.\<close>

lemma run_migrations_recorded:
  assumes "run_migrations exec smooth applied ns db = (None, db')"
    and "set applied \<subseteq> set known" and "set known \<subseteq> set (db_versions db)"
  shows "run_migrations exec smooth known ns db = (None, db')"
  using assms
proof (induction ns arbitrary: db)
  case (Cons name ns)
  from Cons.prems(1) show ?case
  proof (cases rule: run_migrations_cases)
    case (skipped v)
    with Cons show ?thesis by auto
  next
    case (ran v d)
    then have "run_migrations exec smooth known ns (recorded v d db) = (None, db')"
      using Cons.prems(2,3) by (intro Cons.IH) (auto simp: recorded_def)
    with ran Cons.prems(3) show ?thesis by (auto simp: recorded_def)
  qed simp
qed simp

lemma run_migrations_resumes:
  assumes "run_migrations exec smooth applied ns db = (None, db2)" and "run_migrations exec fault applied ns db = (res, db1)"
    and "set applied \<subseteq> set (db_versions db)"
  shows "run_migrations exec smooth (db_versions db1) ns db1 = (None, db2)"
  using assms
proof (induction ns arbitrary: db)
  case (Cons name ns)
  note known = run_migrations_grows [OF Cons.prems(2)]
  from Cons.prems(2) show ?case
  proof (cases rule: run_migrations_cases)
    case failed
    with run_migrations_recorded [OF Cons.prems(1,3) order_refl] show ?thesis by simp
  next
    case (skipped v)
    with Cons.prems(1) have "run_migrations exec smooth applied ns db = (None, db2)" by simp
    from Cons.IH [OF this skipped(3) Cons.prems(3)] skipped known Cons.prems(3) show ?thesis by auto
  next
    case (ran v d)
    from Cons.prems(1) ran(1-4) have "run_migrations exec smooth applied ns (recorded v d db) = (None, db2)"
      by (auto simp: recorded_def)
    from Cons.IH [OF this ran(5)] Cons.prems(3)
    have "run_migrations exec smooth (db_versions db1) ns db1 = (None, db2)" by (auto simp: recorded_def)
    moreover have "v \<in> set (db_versions db1)" using run_migrations_grows [OF ran(5)] by (auto simp: recorded_def)
    ultimately show ?thesis using ran(1) by simp
  qed
qed simp

section \<open>What opening a database does\<close>

text \<open>
  C25: Migrations run once, in the order of their names, and an interrupted upgrade resumes: whatever step of
  opening the database failed before (reading, a script's transaction, the commit), opening it again without
  failures gives the database that an undisturbed upgrade would have given, and records the versions of
  the scripts that were missing, in order and each once. Opening it once more changes nothing.
\<close>

theorem interrupted_upgrade_resumes:
  assumes "openAndMigrate exec entries (\<lambda>s. False) db = (None, db2)"
    and "openAndMigrate exec entries fault db = (res, db1)" and "distinct (db_versions db)"
  shows "openAndMigrate exec entries (\<lambda>s. False) db1 = (None, db2) \<and>
    openAndMigrate exec entries (\<lambda>s. False) db2 = (None, db2) \<and>
    db_versions db2 = db_versions db @ filter (\<lambda>v. v \<notin> set (db_versions db)) (versions_of_names (migration_names entries)) \<and>
    distinct (db_versions db2)"
proof -
  let ?ns = "migration_names entries"
  have smooth: "run_migrations exec smooth (db_versions db) ?ns db = (None, db2)"
    using assms(1) by (simp add: openAndMigrate_def migrate_def)
  have "db1 = db \<or> run_migrations exec fault (db_versions db) ?ns db = (res, db1)"
    using assms(2) by (auto simp: openAndMigrate_def migrate_def split: if_splits)
  then have "run_migrations exec smooth (db_versions db1) ?ns db1 = (None, db2)"
    using smooth run_migrations_resumes [OF smooth _ order_refl] by auto
  moreover have "run_migrations exec smooth (db_versions db2) ?ns db2 = (None, db2)"
    using run_migrations_resumes [OF smooth smooth order_refl] .
  ultimately have "openAndMigrate exec entries (\<lambda>s. False) db1 = (None, db2)" "openAndMigrate exec entries (\<lambda>s. False) db2 = (None, db2)"
    by (simp_all add: openAndMigrate_def migrate_def)
  with run_migrations_done [OF smooth] run_migrations_distinct [OF smooth assms(3)] show ?thesis by blast
qed

text \<open>The scripts of the repository, as they lie in the directory.\<close>

definition embedded_migrations :: "(string \<times> bool) list" where
  "embedded_migrations = map (\<lambda>n. (n, False))
     [''0001_init.sql'', ''0002_audit_logs.sql'', ''0003_hosted_type.sql'', ''0004_user_last_login.sql'',
      ''0005_token_description.sql'', ''0006_package_approvals.sql'', ''0007_version_denies.sql'', ''0008_declarative_rbac.sql'',
      ''0009_approval_requested_version.sql'', ''0010_user_lockout.sql'', ''0011_vuln_scans.sql'', ''0012_repository_disabled.sql'',
      ''0013_vuln_severity_counts.sql'', ''0014_vuln_scan_duration.sql'', ''0015_vuln_advisories.sql'', ''0016_vuln_source.sql'',
      ''0017_license_scans.sql'', ''0018_notification_receivers.sql'']"

lemma embedded_versions: "map migrationVersion (migration_names embedded_migrations) = map Some [1..18]"
  by code_simp

definition demo_exec :: "string \<Rightarrow> string list \<Rightarrow> string list option" where
  "demo_exec name d = Some (d @ [name])"

definition demo_db :: "string list database" where
  "demo_db = \<lparr>db_versions = [1, 2], db_content = [''0001_init.sql'', ''0002_audit_logs.sql'']\<rparr>"

theorem interrupted_upgrade_resumes_witness:
  "\<exists>db1 db2. openAndMigrate demo_exec embedded_migrations (\<lambda>s. s = Commit ''0005_token_description.sql'') demo_db =
       (Some (StepFailed (Commit ''0005_token_description.sql'')), db1) \<and>
     db_versions db1 = [1, 2, 3, 4] \<and>
     openAndMigrate demo_exec embedded_migrations (\<lambda>s. False) db1 = (None, db2) \<and> distinct (db_versions db2)"
proof -
  let ?stop = "\<lambda>s. s = Commit ''0005_token_description.sql''"
  have ok: "fst (openAndMigrate demo_exec embedded_migrations (\<lambda>s. False) demo_db) = None" by code_simp
  then obtain db2 where db2: "openAndMigrate demo_exec embedded_migrations (\<lambda>s. False) demo_db = (None, db2)"
    by (metis prod.collapse)
  have "fst (openAndMigrate demo_exec embedded_migrations ?stop demo_db) = Some (StepFailed (Commit ''0005_token_description.sql''))"
    and v: "db_versions (snd (openAndMigrate demo_exec embedded_migrations ?stop demo_db)) = [1, 2, 3, 4]" by code_simp+
  then obtain db1 where db1: "openAndMigrate demo_exec embedded_migrations ?stop demo_db = (Some (StepFailed (Commit ''0005_token_description.sql'')), db1)"
    by (metis prod.collapse)
  with v have "db_versions db1 = [1, 2, 3, 4]" by simp
  with interrupted_upgrade_resumes [OF db2 db1] db1 show ?thesis by (auto simp: demo_db_def)
qed

end
