(* ===== verification/Seeding.thy ===== *)
theory Seeding
  imports Group
begin

text \<open>
  The default repositories (\<^verbatim>\<open>internal/repo/seed.go\<close>): a proxy of each public registry, a hosted repository per
  format and a group of the two. \<open>marshal\<close> is the JSON text of a configuration, \<open>None\<close> when it cannot be written.
  Seeding adds what is missing and changes nothing else.
\<close>

record defaultRepo =
  dr_name :: string
  dr_format :: string
  dr_typ :: string
  dr_upstream :: string
  dr_members :: "string list"

definition proxy_of :: "string \<Rightarrow> string \<Rightarrow> string \<Rightarrow> defaultRepo" where
  "proxy_of name format upstream = \<lparr>dr_name = name, dr_format = format, dr_typ = TypeProxy, dr_upstream = upstream, dr_members = []\<rparr>"

definition hosted_of :: "string \<Rightarrow> string \<Rightarrow> defaultRepo" where
  "hosted_of name format = \<lparr>dr_name = name, dr_format = format, dr_typ = TypeHosted, dr_upstream = [], dr_members = []\<rparr>"

definition group_of :: "string \<Rightarrow> string \<Rightarrow> string list \<Rightarrow> defaultRepo" where
  "group_of name format members = \<lparr>dr_name = name, dr_format = format, dr_typ = TypeGroup, dr_upstream = [], dr_members = members\<rparr>"

definition DefaultRepositories :: "defaultRepo list" where
  "DefaultRepositories =
     [proxy_of ''maven-central'' FormatMaven ''https://repo1.maven.org/maven2'',
      proxy_of ''npmjs'' FormatNPM ''https://registry.npmjs.org'',
      proxy_of ''crates-io'' FormatCargo ''https://index.crates.io'',
      proxy_of ''goproxy'' FormatGo ''https://proxy.golang.org'',
      proxy_of ''pypi'' FormatPyPI ''https://pypi.org/simple'',
      hosted_of ''maven-hosted'' FormatMaven,
      hosted_of ''npm-hosted'' FormatNPM,
      hosted_of ''cargo-hosted'' FormatCargo,
      hosted_of ''go-hosted'' FormatGo,
      hosted_of ''pypi-hosted'' FormatPyPI,
      group_of ''maven-public'' FormatMaven [''maven-hosted'', ''maven-central''],
      group_of ''npm-public'' FormatNPM [''npm-hosted'', ''npmjs''],
      group_of ''cargo-public'' FormatCargo [''cargo-hosted'', ''crates-io''],
      group_of ''go-public'' FormatGo [''go-hosted'', ''goproxy''],
      group_of ''pypi-public'' FormatPyPI [''pypi-hosted'', ''pypi'']]"

datatype seed_error = SeedStore store_error | SeedConfig

definition seed_row :: "string \<Rightarrow> defaultRepo \<Rightarrow> repository" where
  "seed_row cfgJSON r = \<lparr>r_id = 0, r_name = dr_name r, r_format = dr_format r, r_type = dr_typ r, r_upstream_url = dr_upstream r,
     r_config_json = cfgJSON, r_created_at = 0, r_updated_at = 0, r_disabled = False\<rparr>"

fun seed_each :: "instant \<Rightarrow> (config \<Rightarrow> string option) \<Rightarrow> defaultRepo list \<Rightarrow> store \<Rightarrow> seed_error option \<times> store" where
  "seed_each now marshal [] st = (None, st)"
| "seed_each now marshal (r # rs) st =
     (case GetRepositoryByName st (dr_name r) of
        Inr row \<Rightarrow> seed_each now marshal rs st
      | Inl err \<Rightarrow>
          if err \<noteq> ErrNotFound then (Some (SeedStore err), st)
          else case marshal (Default\<lparr>c_group_members := dr_members r\<rparr>) of
                 None \<Rightarrow> (Some SeedConfig, st)
               | Some cfgJSON \<Rightarrow>
                   (case CreateRepository now (seed_row cfgJSON r) st of
                      (Inr row, st1) \<Rightarrow> seed_each now marshal rs st1
                    | (Inl err, st1) \<Rightarrow> if err = ErrUnique then seed_each now marshal rs st1 else (Some (SeedStore err), st1)))"

definition SeedDefaults :: "instant \<Rightarrow> (config \<Rightarrow> string option) \<Rightarrow> store \<Rightarrow> seed_error option \<times> store" where
  "SeedDefaults now marshal st = seed_each now marshal DefaultRepositories st"

section \<open>What seeding leaves\<close>

text \<open>The rows that are added: the defaults without a repository of their name, in order.\<close>

definition seeded_like :: "(config \<Rightarrow> string option) \<Rightarrow> repository \<Rightarrow> defaultRepo \<Rightarrow> bool" where
  "seeded_like marshal row r \<longleftrightarrow> r_name row = dr_name r \<and> r_format row = dr_format r \<and> r_type row = dr_typ r \<and>
     r_upstream_url row = dr_upstream r \<and> \<not> r_disabled row \<and>
     (\<exists>text. marshal (Default\<lparr>c_group_members := dr_members r\<rparr>) = Some text \<and> r_config_json row = (if text = [] then ''{}'' else text))"

definition repo_names :: "store \<Rightarrow> string set" where
  "repo_names st = r_name ` set (st_repositories st)"

lemma find_by_name: "\<not> st_fault st TRepositories \<Longrightarrow>
  GetRepositoryByName st n = (case List.find (\<lambda>r. r_name r = n) (st_repositories st) of None \<Rightarrow> Inl ErrNotFound | Some r \<Rightarrow> Inr r)"
  by (simp add: GetRepositoryByName_def)

lemma by_name_missing: "\<not> st_fault st TRepositories \<Longrightarrow> n \<notin> repo_names st \<Longrightarrow> GetRepositoryByName st n = Inl ErrNotFound"
  by (auto simp: find_by_name repo_names_def find_None_iff split: option.splits)

lemma by_name_present:
  assumes "\<not> st_fault st TRepositories" and "n \<in> repo_names st"
  shows "\<exists>row. GetRepositoryByName st n = Inr row"
  using assms by (cases "List.find (\<lambda>r. r_name r = n) (st_repositories st)") (auto simp: find_by_name repo_names_def find_None_iff)

lemma create_missing:
  assumes "\<not> st_fault st TRepositories" and "r_name r \<notin> repo_names st"
  shows "\<exists>row row'. CreateRepository now r st = (Inr row',
      st\<lparr>st_repositories := st_repositories st @ [row], st_seq := (st_seq st)(TRepositories := Suc (st_seq st TRepositories))\<rparr>) \<and>
    row = r\<lparr>r_id := Suc (st_seq st TRepositories), r_config_json := (if r_config_json r = [] then ''{}'' else r_config_json r),
      r_created_at := now, r_updated_at := now, r_disabled := False\<rparr>"
proof -
  let ?i = "Suc (st_seq st TRepositories)"
  let ?row = "r\<lparr>r_id := ?i, r_config_json := (if r_config_json r = [] then ''{}'' else r_config_json r),
    r_created_at := now, r_updated_at := now, r_disabled := False\<rparr>"
  let ?st' = "st\<lparr>st_repositories := st_repositories st @ [?row], st_seq := (st_seq st)(TRepositories := ?i)\<rparr>"
  have "\<not> (\<exists>x \<in> set (st_repositories st). r_name x = r_name r)" using assms(2) unfolding repo_names_def by (metis imageI)
  with assms(1) have c: "CreateRepository now r st = (GetRepository ?st' ?i, ?st')" by (simp add: CreateRepository_def Let_def)
  have "?row \<in> set (st_repositories ?st')" "r_id ?row = ?i" by simp_all
  then have "find_repo ?st' ?i \<noteq> None" unfolding find_repo_def find_None_iff by blast
  then obtain row' where "GetRepository ?st' ?i = Inr row'" using assms(1) by (auto simp: GetRepository_def)
  with c have "CreateRepository now r st = (Inr row', ?st')" by (simp only:)
  then show ?thesis by (intro exI [of _ ?row] exI [of _ row'] conjI refl)
qed

lemma seed_each_result:
  assumes "\<not> st_fault st TRepositories" and "\<forall>c. marshal c \<noteq> None" and "distinct (map dr_name rs)"
  shows "\<exists>rows seq. seed_each now marshal rs st = (None, st\<lparr>st_repositories := st_repositories st @ rows, st_seq := seq\<rparr>) \<and>
    list_all2 (seeded_like marshal) rows (filter (\<lambda>r. dr_name r \<notin> repo_names st) rs)"
  using assms
proof (induction rs arbitrary: st)
  case Nil
  then show ?case by (intro exI [of _ "[]"] exI [of _ "st_seq st"]) simp
next
  case (Cons r rs)
  show ?case
  proof (cases "dr_name r \<in> repo_names st")
    case True
    obtain rows seq where "seed_each now marshal rs st = (None, st\<lparr>st_repositories := st_repositories st @ rows, st_seq := seq\<rparr>)"
      "list_all2 (seeded_like marshal) rows (filter (\<lambda>r. dr_name r \<notin> repo_names st) rs)"
      using Cons.IH [OF Cons.prems(1,2)] Cons.prems(3) by auto
    with by_name_present [OF Cons.prems(1) True] True show ?thesis
      by (intro exI [of _ rows] exI [of _ seq]) auto
  next
    case False
    obtain js where js: "marshal (Default\<lparr>c_group_members := dr_members r\<rparr>) = Some js" using Cons.prems(2) by auto
    have name: "r_name (seed_row js r) \<notin> repo_names st" using False by (simp add: seed_row_def)
    from create_missing [OF Cons.prems(1) name, of now] obtain row row' where
      c: "CreateRepository now (seed_row js r) st = (Inr row',
        st\<lparr>st_repositories := st_repositories st @ [row], st_seq := (st_seq st)(TRepositories := Suc (st_seq st TRepositories))\<rparr>)"
      and row: "seeded_like marshal row r"
      using js by (auto simp: seeded_like_def seed_row_def)
    let ?st1 = "st\<lparr>st_repositories := st_repositories st @ [row], st_seq := (st_seq st)(TRepositories := Suc (st_seq st TRepositories))\<rparr>"
    have names: "repo_names ?st1 = insert (dr_name r) (repo_names st)" using row by (auto simp: repo_names_def seeded_like_def)
    obtain rows seq where IH: "seed_each now marshal rs ?st1 = (None, ?st1\<lparr>st_repositories := st_repositories ?st1 @ rows, st_seq := seq\<rparr>)"
      "list_all2 (seeded_like marshal) rows (filter (\<lambda>r. dr_name r \<notin> repo_names ?st1) rs)"
      using Cons.IH [of ?st1] Cons.prems by auto
    have "filter (\<lambda>x. dr_name x \<notin> repo_names ?st1) rs = filter (\<lambda>x. dr_name x \<notin> repo_names st) rs"
      unfolding names using Cons.prems(3) by (intro filter_cong) (auto simp: image_iff)
    with IH row False js c by_name_missing [OF Cons.prems(1) False] show ?thesis
      by (intro exI [of _ "row # rows"] exI [of _ seq]) simp
  qed
qed

lemma default_names: "distinct (map dr_name DefaultRepositories)"
  by code_simp

lemma all_present_seed:
  assumes "\<not> st_fault st TRepositories" and "dr_name ` set rs \<subseteq> repo_names st"
  shows "seed_each now marshal rs st = (None, st)"
  using assms(2)
proof (induction rs)
  case (Cons r rs)
  with by_name_present [OF assms(1), of "dr_name r"] show ?case by auto
qed simp

lemma seeded_names: "list_all2 (seeded_like marshal) rows rs \<Longrightarrow> r_name ` set rows = dr_name ` set rs"
  by (induction rule: list_all2_induct) (auto simp: seeded_like_def)

text \<open>
  Seeding adds one repository for each default whose name is not taken, as the default describes it, after
  the repositories that exist, and changes nothing else of the store; every default name is taken
  afterwards, so that seeding again, now or at the next start, changes nothing.
\<close>

theorem SeedDefaults_adds_missing:
  assumes "\<not> st_fault st TRepositories" and "\<forall>c. marshal c \<noteq> None"
  shows "\<exists>rows seq st'. st' = st\<lparr>st_repositories := st_repositories st @ rows, st_seq := seq\<rparr> \<and>
    SeedDefaults now marshal st = (None, st') \<and>
    list_all2 (seeded_like marshal) rows (filter (\<lambda>r. dr_name r \<notin> repo_names st) DefaultRepositories) \<and>
    dr_name ` set DefaultRepositories \<subseteq> repo_names st' \<and>
    SeedDefaults later marshal' st' = (None, st')"
proof -
  obtain rows seq where r: "SeedDefaults now marshal st = (None, st\<lparr>st_repositories := st_repositories st @ rows, st_seq := seq\<rparr>)"
    "list_all2 (seeded_like marshal) rows (filter (\<lambda>r. dr_name r \<notin> repo_names st) DefaultRepositories)"
    using seed_each_result [OF assms default_names, of now] by (auto simp: SeedDefaults_def)
  let ?st' = "st\<lparr>st_repositories := st_repositories st @ rows, st_seq := seq\<rparr>"
  have "repo_names ?st' = repo_names st \<union> r_name ` set rows" by (auto simp: repo_names_def)
  then have all: "dr_name ` set DefaultRepositories \<subseteq> repo_names ?st'" using seeded_names [OF r(2)] by auto
  have "SeedDefaults later marshal' ?st' = (None, ?st')"
    unfolding SeedDefaults_def by (rule all_present_seed) (use assms(1) all in auto)
  with r all show ?thesis by blast
qed

definition plain_marshal :: "config \<Rightarrow> string option" where
  "plain_marshal c = Some (join_with '','' (c_group_members c))"

theorem SeedDefaults_adds_missing_witness:
  "\<exists>st'. SeedDefaults 7 plain_marshal empty_store = (None, st') \<and> length (st_repositories st') = 15 \<and>
     SeedDefaults 8 plain_marshal st' = (None, st')"
proof -
  have "\<not> st_fault empty_store TRepositories" by (simp add: empty_store_def)
  from SeedDefaults_adds_missing [OF this, of plain_marshal 7 8 plain_marshal] obtain st' where
    st': "SeedDefaults 7 plain_marshal empty_store = (None, st')" "SeedDefaults 8 plain_marshal st' = (None, st')"
    by (auto simp: plain_marshal_def)
  moreover have "length (st_repositories (snd (SeedDefaults 7 plain_marshal empty_store))) = 15" by code_simp
  ultimately show ?thesis by simp
qed

text \<open>On an empty store every group that is seeded passes the check of its members.\<close>

theorem seeded_groups_valid:
  "let st = snd (SeedDefaults now plain_marshal empty_store)
   in list_all (\<lambda>r. dr_typ r = TypeGroup \<longrightarrow> ValidateGroupMembers st (dr_format r) (dr_members r) = None) DefaultRepositories"
  by code_simp

text \<open>
  The check is not made when seeding: a repository of another kind that has the name of a default's member
  ends up in the group. And a default that was deleted is back after the next start.
\<close>

theorem seeding_skips_checks:
  "let taken = snd (CreateRepository 1 (seed_row [] (group_of ''npmjs'' FormatMaven [])) empty_store);
       seeded = snd (SeedDefaults 2 plain_marshal taken);
       deleted = snd (DeleteRepository (r_id (the (List.find (\<lambda>r. r_name r = ''goproxy'') (st_repositories seeded)))) seeded)
   in GetRepositoryByName seeded ''npm-public'' \<noteq> Inl ErrNotFound \<and>
      ValidateGroupMembers seeded FormatNPM [''npm-hosted'', ''npmjs''] = Some (FormatMismatch ''npmjs'') \<and>
      GetRepositoryByName deleted ''goproxy'' = Inl ErrNotFound \<and>
      GetRepositoryByName (snd (SeedDefaults 3 plain_marshal deleted)) ''goproxy'' \<noteq> Inl ErrNotFound"
  by code_simp

end
