(* ===== verification/Process.thy ===== *)
theory Process
  imports Election Meta_Sync Migrations Seeding Sign_In
begin

text \<open>
  The process (\<^verbatim>\<open>cmd/forklift/main.go\<close>): what happens to the database before it serves, what an instance does
  when it gets and when it loses the leadership, the status it reports, and the server around it
  (\<^verbatim>\<open>internal/server/health.go\<close>, \<^verbatim>\<open>middleware.go\<close>). A nil pointer that is dereferenced is \<open>None\<close>. Listeners,
  signals, metrics and the log are left out.
\<close>

section \<open>Topology\<close>

definition haMode :: "app_config \<Rightarrow> string" where
  "haMode cfg =
     (if rpc_Enabled (cf_Replication cfg) then ''replication''
      else if stc_Backend (cf_Storage cfg) = ''s3'' then ''object-storage''
      else if hac_Enabled (cf_HA cfg) then ''shared-volume''
      else ''single'')"

definition metaKey :: "app_config \<Rightarrow> string" where
  "metaKey cfg = path_Join [trim_both (CHR ''/'') (s3c_Prefix (stc_S3 (cf_Storage cfg))), ''meta'', ''forklift.db'']"

definition labelRouting :: "app_config \<Rightarrow> bool" where
  "labelRouting cfg \<longleftrightarrow> rpc_Enabled (cf_Replication cfg) \<or> stc_Backend (cf_Storage cfg) = ''s3'' \<and> hac_Enabled (cf_HA cfg)"

section \<open>Before serving\<close>

datatype boot_error = BootRestore ms_error | BootAdmin bootstrap_error | BootPolicy reconcile_error | BootSeed seed_error

record 'w boot_env =
  be_api :: "'w s3_api"
  be_bucket :: 'w
  be_opn :: "bytes \<Rightarrow> store option"
  be_dfault :: "disk_step \<Rightarrow> bool"
  be_sfault :: "swap_step \<Rightarrow> bool"
  be_auth :: auth_service
  be_now :: instant
  be_rand :: "bytes option"
  be_policy :: file_read
  be_accounts :: "(unit + dir_entry list) option"
  be_marshal :: "config \<Rightarrow> string option"

definition boot_store :: "app_config \<Rightarrow> 'w boot_env \<Rightarrow> store \<Rightarrow> (boot_error + unit) \<times> store" where
  "boot_store cfg e st =
     (case (if stc_Backend (cf_Storage cfg) = ''s3''
            then RestoreOnBoot (be_api e) (metaKey cfg) (be_opn e) (be_dfault e) (be_sfault e) (NewMetaSync st) (be_bucket e)
            else (Inr (), NewMetaSync st)) of
        (Inl err, m) \<Rightarrow> (Inl (BootRestore err), ms_store m)
      | (Inr u, m) \<Rightarrow>
          (case BootstrapAdmin (be_auth e) (be_now e) (be_rand e) (auc_BootstrapAdminUser (cf_Auth cfg))
                  (auc_BootstrapAdminPassword (cf_Auth cfg)) (ms_store m) of
             (Inl err, st1) \<Rightarrow> (Inl (BootAdmin err), st1)
           | (Inr u, st1) \<Rightarrow>
               (case ReconcileRBAC (sv_crypto (be_auth e)) (be_now e) (rbc_PolicyFile (auc_RBAC (cf_Auth cfg))) (be_policy e) (be_accounts e) st1 of
                  (Inl err, st2) \<Rightarrow> (Inl (BootPolicy err), st2)
                | (Inr u, st2) \<Rightarrow>
                    if cf_SeedDefaultRepos cfg
                    then (case SeedDefaults (be_now e) (be_marshal e) st2 of
                            (Some err, st3) \<Rightarrow> (Inl (BootSeed err), st3)
                          | (None, st3) \<Rightarrow> (Inr (), st3))
                    else (Inr (), st2))))"

section \<open>Leading\<close>

datatype task =
    RunSweeper duration | RunIdleReaper duration | RunVulnWorker | RunVulnBackfill duration | RunVulnRescanner duration duration
  | RunLicenseWorker | RunLicenseBackfill duration | RunLicenseRescanner duration duration | RunRetention duration duration

record process =
  pr_leader :: bool
  pr_ready :: bool
  pr_store :: store
  pr_replicator :: "replicator option"
  pr_sync :: "meta_sync option"
  pr_pods :: pods
  pr_tasks :: "task list"

text \<open>What the outside answers while the instance changes its role.\<close>

record lead_env =
  le_lease :: "k8s_error + lease"
  le_opn :: "bytes \<Rightarrow> store option"
  le_sfault :: "swap_step \<Rightarrow> bool"
  le_patch_fails :: "string \<Rightarrow> bool"
  le_pods_listed :: bool

definition start_process :: "app_config \<Rightarrow> store \<Rightarrow> pods \<Rightarrow> process" where
  "start_process cfg st ps =
     \<lparr>pr_leader = False,
      pr_ready = labelRouting cfg,
      pr_store = st,
      pr_replicator = (if rpc_Enabled (cf_Replication cfg) then Some \<lparr>rp_is_leader = False, rp_snapshot = None\<rparr> else None),
      pr_sync = (if stc_Backend (cf_Storage cfg) = ''s3'' then Some (NewMetaSync st) else None),
      pr_pods = ps, pr_tasks = []\<rparr>"

definition setPodRole :: "app_config \<Rightarrow> (string \<Rightarrow> bool) \<Rightarrow> string \<Rightarrow> pods \<Rightarrow> pods" where
  "setPodRole cfg fails role ps =
     (if \<not> labelRouting cfg \<or> \<not> hac_Enabled (cf_HA cfg) \<or> rpc_PodName (cf_Replication cfg) = [] then ps
      else snd (SetPodRole fails (rpc_PodName (cf_Replication cfg)) role ps))"

definition promote_replicator :: "lead_env \<Rightarrow> process \<Rightarrow> process" where
  "promote_replicator e p =
     (case pr_replicator p of
        None \<Rightarrow> p
      | Some rp \<Rightarrow> (case Promote (le_sfault e) rp (pr_store p) of (res, rp', st') \<Rightarrow> p\<lparr>pr_replicator := Some rp', pr_store := st'\<rparr>))"

definition lead_fence :: "app_config \<Rightarrow> lead_env \<Rightarrow> int" where
  "lead_fence cfg e =
     (if hac_Enabled (cf_HA cfg) then (case FencingToken (le_lease e) of Inl err \<Rightarrow> 0 | Inr t \<Rightarrow> t) else 0)"

definition promote_sync :: "app_config \<Rightarrow> lead_env \<Rightarrow> process \<Rightarrow> process" where
  "promote_sync cfg e p =
     (case pr_sync p of
        None \<Rightarrow> p
      | Some m \<Rightarrow>
          (case ms_Promote (le_opn e) (le_sfault e) (lead_fence cfg e) (m\<lparr>ms_store := pr_store p\<rparr>) of
             (res, m') \<Rightarrow> p\<lparr>pr_sync := Some m', pr_store := ms_store m'\<rparr>))"

definition lead_tasks :: "app_config \<Rightarrow> task list" where
  "lead_tasks cfg =
     [RunSweeper 300000000000, RunIdleReaper 3600000000000] @
     replicate (nat (max 1 (scn_Workers (cf_Vuln cfg)))) RunVulnWorker @
     [RunVulnBackfill (scn_RescanInterval (cf_Vuln cfg)), RunVulnRescanner (scn_RescanInterval (cf_Vuln cfg)) (scn_TTL (cf_Vuln cfg))] @
     replicate (nat (max 1 (scn_Workers (cf_License cfg)))) RunLicenseWorker @
     [RunLicenseBackfill (scn_RescanInterval (cf_License cfg)), RunLicenseRescanner (scn_RescanInterval (cf_License cfg)) (scn_TTL (cf_License cfg))] @
     (if adc_Enabled (cf_Audit cfg) \<and> adc_Retention (cf_Audit cfg) > 0 then [RunRetention 3600000000000 (adc_Retention (cf_Audit cfg))] else [])"

definition startLeading :: "app_config \<Rightarrow> lead_env \<Rightarrow> process \<Rightarrow> process option" where
  "startLeading cfg e p =
     (let p1 = promote_sync cfg e (promote_replicator e (p\<lparr>pr_leader := True\<rparr>));
          p2 = p1\<lparr>pr_ready := True, pr_pods := setPodRole cfg (le_patch_fails e) RoleLeader (pr_pods p1)\<rparr>;
          self = rpc_PodName (cf_Replication cfg)
      in if labelRouting cfg \<and> self \<noteq> []
         then if \<not> hac_Enabled (cf_HA cfg) then None
              else Some (p2\<lparr>pr_pods := snd (DemotePeers (le_pods_listed e) (le_patch_fails e) self (pr_pods p2)), pr_tasks := lead_tasks cfg\<rparr>)
         else Some (p2\<lparr>pr_tasks := lead_tasks cfg\<rparr>))"

definition stopLeading :: "app_config \<Rightarrow> lead_env \<Rightarrow> process \<Rightarrow> process" where
  "stopLeading cfg e p =
     (let p1 = p\<lparr>pr_leader := False, pr_sync := map_option ms_Demote (pr_sync p), pr_replicator := map_option Demote (pr_replicator p), pr_tasks := []\<rparr>
      in if labelRouting cfg then p1\<lparr>pr_pods := setPodRole cfg (le_patch_fails e) RoleStandby (pr_pods p1)\<rparr>
         else p1\<lparr>pr_ready := False\<rparr>)"

section \<open>The status\<close>

record ha_status =
  hs_Enabled :: bool
  hs_Mode :: string
  hs_Backend :: string
  hs_StorageEndpoint :: string
  hs_Identity :: string
  hs_Leader :: string
  hs_IsLeader :: bool
  hs_Role :: string
  hs_LeaseName :: string
  hs_FencingToken :: int
  hs_StartedAt :: string
  hs_Version :: string

definition storage_endpoint :: "app_config \<Rightarrow> string" where
  "storage_endpoint cfg =
     (let s3 = stc_S3 (cf_Storage cfg);
          bucket = s3c_Bucket s3 @ (if s3c_Prefix s3 = [] then [] else ''/'' @ trim_left (CHR ''/'') (s3c_Prefix s3));
          ep = trim_right (CHR ''/'') (s3c_Endpoint s3)
      in if stc_Backend (cf_Storage cfg) \<noteq> ''s3'' then cf_DataDir cfg
         else if ep \<noteq> [] then ep @ ''/'' @ bucket else ''s3://'' @ bucket)"

definition haStatus :: "app_config \<Rightarrow> string \<Rightarrow> string \<Rightarrow> k8s_error + lease \<Rightarrow> bool \<Rightarrow> ha_status" where
  "haStatus cfg startedAt vers answer leader =
     (let ha = cf_HA cfg;
          st = \<lparr>hs_Enabled = hac_Enabled ha, hs_Mode = haMode cfg, hs_Backend = stc_Backend (cf_Storage cfg),
                hs_StorageEndpoint = storage_endpoint cfg, hs_Identity = hac_Identity ha, hs_Leader = [], hs_IsLeader = leader,
                hs_Role = [], hs_LeaseName = hac_LeaseName ha, hs_FencingToken = 0,
                hs_StartedAt = startedAt, hs_Version = vers\<rparr>
      in if \<not> hac_Enabled ha then st\<lparr>hs_IsLeader := True, hs_Leader := hac_Identity ha, hs_Role := RoleLeader\<rparr>
         else st\<lparr>hs_Role := (if leader then RoleLeader else RoleStandby),
                 hs_Leader := (case LeaderIdentity answer of Inr l \<Rightarrow> l | Inl err \<Rightarrow> []),
                 hs_FencingToken := (if stc_Backend (cf_Storage cfg) = ''s3''
                                     then (case FencingToken answer of Inr t \<Rightarrow> t | Inl err \<Rightarrow> 0) else 0)\<rparr>)"

section \<open>The server\<close>

definition handleHealthz :: "wop list" where
  "handleHealthz = [SetHeader ''Content-Type'' ''text/plain; charset=utf-8'', WriteHeader 200, WriteBytes ''ok'']"

definition handleReadyz :: "bool \<Rightarrow> bool \<Rightarrow> wop list" where
  "handleReadyz ready ping =
     (if \<not> ready then http_Error ''not leader'' 503
      else if \<not> ping then http_Error ''database unavailable'' 503
      else [SetHeader ''Content-Type'' ''text/plain; charset=utf-8'', WriteHeader 200, WriteBytes ''ready''])"

text \<open>The recording writer of the request log, as the operations reach it.\<close>

fun recorder_op :: "wop \<Rightarrow> int \<times> bool \<Rightarrow> int \<times> bool" where
  "recorder_op (WriteHeader code) (status, wrote) = (if wrote then (status, wrote) else (code, True))"
| "recorder_op (WriteBytes b) (status, wrote) = (if wrote then (status, wrote) else (200, True))"
| "recorder_op (SetHeader k v) s = s"
| "recorder_op (DelHeader k) s = s"

text \<open>
  A handler's operations, and whether it panicked after them. \<open>logRequests\<close> also gives the status it counts;
  after a panic nothing of it runs. \<open>recoverer\<close> is around it.
\<close>

definition logRequests :: "wop list \<times> bool \<Rightarrow> wop list \<times> bool \<times> int option" where
  "logRequests h = (case h of (ops, panicked) \<Rightarrow> (ops, panicked, if panicked then None else Some (fst (fold recorder_op ops (200, False)))))"

definition server_recoverer :: "wop list \<times> bool \<times> int option \<Rightarrow> wop list \<times> int option" where
  "server_recoverer h = (case h of (ops, panicked, counted) \<Rightarrow>
     (if panicked then ops @ http_Error ''internal server error'' 500 else ops, counted))"

definition serve_request :: "wop list \<times> bool \<Rightarrow> wop list \<times> int option" where
  "serve_request h = server_recoverer (logRequests h)"

section \<open>Roles and readiness\<close>

inductive process_step :: "app_config \<Rightarrow> process \<Rightarrow> process \<Rightarrow> bool" for cfg :: app_config where
  leads: "startLeading cfg e p = Some q \<Longrightarrow> process_step cfg p q"
| stops: "process_step cfg p (stopLeading cfg e p)"
| works: "process_step cfg p (p\<lparr>pr_store := st, pr_sync := sy, pr_replicator := rp, pr_pods := ps\<rparr>)"

definition process_runs :: "app_config \<Rightarrow> process \<Rightarrow> process \<Rightarrow> bool" where
  "process_runs cfg = (process_step cfg)\<^sup>*\<^sup>*"

lemma promote_frame:
  "pr_leader (promote_sync cfg e p) = pr_leader p" "pr_ready (promote_sync cfg e p) = pr_ready p" "pr_pods (promote_sync cfg e p) = pr_pods p"
  "pr_leader (promote_replicator e p) = pr_leader p" "pr_ready (promote_replicator e p) = pr_ready p" "pr_pods (promote_replicator e p) = pr_pods p"
  "pr_sync (promote_replicator e p) = pr_sync p"
  by (simp_all add: promote_sync_def promote_replicator_def split: option.splits prod.splits)

lemma startLeading_role: "startLeading cfg e p = Some q \<Longrightarrow> pr_leader q \<and> pr_ready q \<and> pr_tasks q = lead_tasks cfg"
  by (auto simp: startLeading_def Let_def promote_frame split: if_splits)

lemma stopLeading_role:
  "\<not> pr_leader (stopLeading cfg e p)" "pr_tasks (stopLeading cfg e p) = []"
  "pr_ready (stopLeading cfg e p) = (labelRouting cfg \<and> pr_ready p)"
  by (simp_all add: stopLeading_def Let_def)

definition roles_ok :: "app_config \<Rightarrow> process \<Rightarrow> bool" where
  "roles_ok cfg p \<longleftrightarrow> (pr_ready p \<longleftrightarrow> labelRouting cfg \<or> pr_leader p) \<and> pr_tasks p = (if pr_leader p then lead_tasks cfg else [])"

lemma roles_step: "process_step cfg p q \<Longrightarrow> roles_ok cfg p \<Longrightarrow> roles_ok cfg q"
proof (induction rule: process_step.induct)
  case (leads e p q)
  then show ?case using startLeading_role by (simp add: roles_ok_def)
next
  case (stops p e)
  then show ?case using stopLeading_role [of cfg e p] by (auto simp: roles_ok_def)
qed (simp add: roles_ok_def)

lemma roles_runs: "process_runs cfg (start_process cfg st ps) p \<Longrightarrow> roles_ok cfg p"
  unfolding process_runs_def
proof (induction rule: rtranclp_induct)
  case base
  then show ?case by (simp add: roles_ok_def start_process_def)
next
  case (step p q)
  then show ?case using roles_step by blast
qed


text \<open>
  C22: A configuration that passed validation never leads into the missing elector, and leading with the
  patches of the pods' labels going through leaves the label on this pod alone.
\<close>

theorem valid_config_leads_alone:
  assumes "validate cfg = None"
  shows "\<exists>q. startLeading cfg e p = Some q \<and> pr_leader q \<and> pr_ready q \<and>
    (labelRouting cfg \<and> le_pods_listed e \<and> (\<forall>n. \<not> le_patch_fails e n) \<and> rpc_PodName (cf_Replication cfg) \<in> fst ` set (pr_pods p) \<and>
     rpc_PodName (cf_Replication cfg) \<noteq> [] \<longrightarrow>
     labelled RoleLeader (pr_pods q) = {rpc_PodName (cf_Replication cfg)})"
proof -
  let ?self = "rpc_PodName (cf_Replication cfg)"
  have ha: "labelRouting cfg \<Longrightarrow> hac_Enabled (cf_HA cfg)"
    using valid_replication(1) [OF assms] by (auto simp: labelRouting_def)
  then have "startLeading cfg e p \<noteq> None" by (simp add: startLeading_def Let_def)
  then obtain q where q: "startLeading cfg e p = Some q" by blast
  have "labelled RoleLeader (pr_pods q) = {?self}"
    if "labelRouting cfg" "le_pods_listed e" "\<forall>n. \<not> le_patch_fails e n" "?self \<in> fst ` set (pr_pods p)" "?self \<noteq> []"
  proof -
    let ?ps = "snd (SetPodRole (le_patch_fails e) ?self RoleLeader (pr_pods p))"
    have "pr_pods q = snd (DemotePeers True (le_patch_fails e) ?self ?ps)"
      using q that ha by (auto simp: startLeading_def Let_def setPodRole_def promote_frame)
    moreover have "labelled RoleLeader ?ps = insert ?self (labelled RoleLeader (pr_pods p))"
      using that by (intro leaders_SetPodRole_leader) auto
    ultimately show ?thesis using that(3) by (auto simp: leaders_DemotePeers)
  qed
  with q startLeading_role [OF q] show ?thesis by blast
qed

section \<open>Restarts\<close>

text \<open>
  C21: An instance on an empty volume. When the leader's last upload succeeded, a new instance comes up with the
  leader's database: restoring it brings the users back, so no administrator is made, and with no policy
  file and the default repositories there (or seeding turned off) nothing is added.
\<close>

theorem restart_restores_database:
  assumes "object_store_laws (be_api e) objs" and "stc_Backend (cf_Storage cfg) = ''s3''"
    and "\<forall>b. vac (ms_store ld) = Some b \<longrightarrow> be_opn e b = Some (ms_store ld)"
    and "upload (be_api e) (metaKey cfg) vac sfault ld w = (Inr (), be_bucket e)"
    and "RestoreOnBoot (be_api e) (metaKey cfg) (be_opn e) (be_dfault e) (be_sfault e) (NewMetaSync st0) (be_bucket e) = (Inr (), m)"
    and "CountUsers (ms_store ld) = Inr n" and "0 < n" and "rbc_PolicyFile (auc_RBAC (cf_Auth cfg)) = []"
    and "\<not> cf_SeedDefaultRepos cfg \<or> \<not> st_fault (ms_store ld) TRepositories \<and> dr_name ` set DefaultRepositories \<subseteq> repo_names (ms_store ld)"
  shows "boot_store cfg e st0 = (Inr (), ms_store ld)"
proof -
  from upload_done [OF assms(1,4)] obtain b ob where b: "vac (ms_store ld) = Some b" "objs (be_bucket e) (metaKey cfg) = Some ob" "ob_body ob = b"
    by metis
  obtain x where x: "download (be_api e) (metaKey cfg) (be_dfault e) (be_bucket e) = Inr x"
    using assms(5) by (cases "download (be_api e) (metaKey cfg) (be_dfault e) (be_bucket e)") (auto simp: RestoreOnBoot_def)
  with download_done [OF assms(1) x] b have "x = Some b" by simp
  with x assms(5) have "be_opn e b = Some (ms_store m)"
    by (auto simp: RestoreOnBoot_def dest!: swap_file_done split: prod.splits bool.splits)
  with assms(3) b(1) have m: "ms_store m = ms_store ld" by simp
  have "SeedDefaults (be_now e) (be_marshal e) (ms_store ld) = (None, ms_store ld)" if "cf_SeedDefaultRepos cfg"
    unfolding SeedDefaults_def using assms(9) that by (intro all_present_seed) auto
  with assms(2,5-8) m show ?thesis by (auto simp: boot_store_def BootstrapAdmin_def ReconcileRBAC_def)
qed

section \<open>What can go wrong\<close>

text \<open>
  When the fencing token cannot be read, the new leader takes 0 for it. The snapshot of an earlier term is
  newer than that, so every upload of this term is refused, while the instance serves and is ready: what it
  writes is in no snapshot.
\<close>

theorem unread_token_stops_uploads:
  assumes "object_store_laws api objs" and "le_lease e = Inl K8sOther" and "pr_sync p = Some m"
    and "startLeading cfg e p = Some q" and "objs w key = Some ob" and "0 < parseFence (ob_metadata ob)"
  shows "\<exists>m'. pr_sync q = Some m' \<and> pr_leader q \<and> pr_ready q \<and>
    snd (upload api key vac fault m' w) = w \<and> fst (upload api key vac fault m' w) \<noteq> Inr ()"
proof -
  let ?p = "promote_replicator e (p\<lparr>pr_leader := True\<rparr>)"
  let ?m = "snd (ms_Promote (le_opn e) (le_sfault e) (lead_fence cfg e) (m\<lparr>ms_store := pr_store ?p\<rparr>))"
  have "pr_sync q = pr_sync (promote_sync cfg e ?p)" using assms(4) by (auto simp: startLeading_def Let_def split: if_splits)
  then have s: "pr_sync q = Some ?m" using assms(3) by (simp add: promote_sync_def promote_frame case_prod_beta)
  have "lead_fence cfg e = 0" using assms(2) by (simp add: lead_fence_def FencingToken_def)
  moreover have "ms_fence (snd (ms_Promote opn sf f mm)) = f" for opn sf f mm
    by (auto simp: ms_Promote_def apply_snapshot_def split: option.splits prod.splits bool.splits)
  ultimately have "ms_fence ?m < parseFence (ob_metadata ob)" using assms(6) by simp
  from stale_leader_refused [OF assms(1,5) this] s startLeading_role [OF assms(4)] show ?thesis by blast
qed

text \<open>
  A request that panics is answered with a 500 (or with what was sent before, and the error text after it), and
  it is not counted; every other request is counted under the status its client got.
\<close>

lemma recorder_wrote: "fst (fold recorder_op ops (s, True)) = s"
proof (induction ops)
  case (Cons x ops)
  then show ?case by (cases x) auto
qed simp

lemma recorder_first: "fst (fold recorder_op ops (s, w)) = (if w then s else case first_status ops of None \<Rightarrow> s | Some c \<Rightarrow> c)"
  by (induction ops arbitrary: s w rule: first_status.induct) (auto simp: recorder_wrote)

theorem counted_status_is_sent:
  "snd (serve_request (ops, panicked)) = (if panicked then None else Some (status_of (fst (serve_request (ops, panicked))))) \<and>
   (panicked \<and> first_status ops = None \<longrightarrow> status_of (fst (serve_request (ops, panicked))) = 500)"
  by (auto simp: serve_request_def server_recoverer_def logRequests_def recorder_first status_of_first first_status_append http_Error_def
    split: option.splits)

section \<open>Witnesses\<close>

definition ha_environment :: "(string \<times> string) list" where
  "ha_environment = [(''FORKLIFT_HA_ENABLED'', ''true''), (''FORKLIFT_STORAGE_BACKEND'', ''s3''), (''FORKLIFT_STORAGE_S3_BUCKET'', ''b''),
     (''POD_NAME'', ''fork-0''), (''FORKLIFT_SEED_DEFAULT_REPOS'', ''0'')]"

definition ha_config_s3 :: app_config where
  "ha_config_s3 = Load_config (environment_of ha_environment) None"

definition calm_env :: lead_env where
  "calm_env = \<lparr>le_lease = Inr \<lparr>ls_holder = Some ''fork-0'', ls_transitions = Some 4\<rparr>, le_opn = toy_opn, le_sfault = (\<lambda>s. False),
     le_patch_fails = (\<lambda>n. False), le_pods_listed = True\<rparr>"

definition ha_start :: process where
  "ha_start = start_process ha_config_s3 empty_store [(''fork-0'', RoleStandby), (''fork-1'', RoleLeader)]"

lemma ha_config_s3_valid: "validate ha_config_s3 = None"
  by code_simp

theorem valid_config_leads_alone_witness:
  "\<exists>q. startLeading ha_config_s3 calm_env ha_start = Some q \<and> labelled RoleLeader (pr_pods q) = {''fork-0''}"
proof -
  have c: "labelRouting ha_config_s3" "rpc_PodName (cf_Replication ha_config_s3) = ''fork-0''" by code_simp+
  have e: "le_pods_listed calm_env" "\<forall>n. \<not> le_patch_fails calm_env n" by (simp_all add: calm_env_def)
  have p: "''fork-0'' \<in> fst ` set (pr_pods ha_start)" by (simp add: ha_start_def start_process_def)
  from valid_config_leads_alone [OF ha_config_s3_valid, of calm_env ha_start, unfolded c(2)] c(1) e p show ?thesis by blast
qed


text \<open>A leader with a user uploads; another instance starts on an empty volume.\<close>

definition user_store :: store where
  "user_store = (db_of ''new'')\<lparr>st_users := [blank_user]\<rparr>"

definition user_opn :: "bytes \<Rightarrow> store option" where
  "user_opn b = Some ((db_of b)\<lparr>st_users := [blank_user]\<rparr>)"

definition user_sync :: meta_sync where
  "user_sync = (NewMetaSync user_store)\<lparr>ms_leader := True, ms_fence := 1\<rparr>"

definition restart_env :: "bucket boot_env" where
  "restart_env = \<lparr>be_api = bucket_api count_tag,
     be_bucket = snd (upload (bucket_api count_tag) (metaKey ha_config_s3) toy_vac (\<lambda>s. False) user_sync (sb_bucket fresh_bucket)),
     be_opn = user_opn, be_dfault = (\<lambda>s. False), be_sfault = (\<lambda>s. False), be_auth = demo_service, be_now = 9, be_rand = None,
     be_policy = FileMissing, be_accounts = None, be_marshal = plain_marshal\<rparr>"

theorem restart_restores_database_witness:
  "boot_store ha_config_s3 restart_env empty_store = (Inr (), user_store)"
proof -
  have s3: "stc_Backend (cf_Storage ha_config_s3) = ''s3''" "rbc_PolicyFile (auc_RBAC (cf_Auth ha_config_s3)) = []"
    "\<not> cf_SeedDefaultRepos ha_config_s3" by code_simp+
  have st: "ms_store user_sync = user_store" by (simp add: user_sync_def NewMetaSync_def)
  have up: "fst (upload (bucket_api count_tag) (metaKey ha_config_s3) toy_vac (\<lambda>s. False) user_sync (sb_bucket fresh_bucket)) = Inr ()"
    by code_simp
  have rb: "fst (RestoreOnBoot (bucket_api count_tag) (metaKey ha_config_s3) user_opn (\<lambda>s. False) (\<lambda>s. False) (NewMetaSync empty_store)
    (snd (upload (bucket_api count_tag) (metaKey ha_config_s3) toy_vac (\<lambda>s. False) user_sync (sb_bucket fresh_bucket)))) = Inr ()"
    by code_simp
  have users: "CountUsers user_store = Inr 1" by code_simp
  have "boot_store ha_config_s3 restart_env empty_store = (Inr (), ms_store user_sync)"
  proof (rule restart_restores_database)
    show "object_store_laws (be_api restart_env) find_object" using bucket.object_store_laws_axioms by (simp add: restart_env_def)
    show "upload (be_api restart_env) (metaKey ha_config_s3) toy_vac (\<lambda>s. False) user_sync (sb_bucket fresh_bucket) = (Inr (), be_bucket restart_env)"
      using up by (simp add: restart_env_def prod_eq_iff)
    show "RestoreOnBoot (be_api restart_env) (metaKey ha_config_s3) (be_opn restart_env) (be_dfault restart_env) (be_sfault restart_env)
        (NewMetaSync empty_store) (be_bucket restart_env) = (Inr (), snd (RestoreOnBoot (be_api restart_env) (metaKey ha_config_s3)
        (be_opn restart_env) (be_dfault restart_env) (be_sfault restart_env) (NewMetaSync empty_store) (be_bucket restart_env)))"
      using rb by (simp add: restart_env_def prod_eq_iff)
    show "\<forall>b. toy_vac (ms_store user_sync) = Some b \<longrightarrow> be_opn restart_env b = Some (ms_store user_sync)"
      by (simp add: st restart_env_def user_opn_def toy_vac_def user_store_def db_of_def)
  qed (use s3 users st in auto)
  then show ?thesis by (simp add: st)
qed

end
