(* ===== verification/Advisories.thy ===== *)
theory Advisories
  imports Npm Durations
begin

text \<open>
  The clients of the advisory service (\<^verbatim>\<open>internal/vuln/osv.go\<close>, \<^verbatim>\<open>cvss.go\<close>) and of the license service
  (\<^verbatim>\<open>internal/license/depsdev.go\<close>). The services and the JSON decoder are parameters: the answer to the request
  (nothing for a transport error) and the fields the code reads from a document. Scores are 64-bit
  floating-point numbers, computed with one rounding per operation as on a platform that does not fuse them.
\<close>

section \<open>CVSS base scores\<close>

text \<open>The decimal literals of the code, as the nearest floating-point number.\<close>

definition lit :: "int \<Rightarrow> rat" where
  "lit thousandths = flo (of_int thousandths / 1000)"

definition cvssAV :: "(string \<times> rat) list" where
  "cvssAV = [(''N'', lit 850), (''A'', lit 620), (''L'', lit 550), (''P'', lit 200)]"

definition cvssAC :: "(string \<times> rat) list" where
  "cvssAC = [(''L'', lit 770), (''H'', lit 440)]"

definition cvssUI :: "(string \<times> rat) list" where
  "cvssUI = [(''N'', lit 850), (''R'', lit 620)]"

definition cvssCIA :: "(string \<times> rat) list" where
  "cvssCIA = [(''H'', lit 560), (''L'', lit 220), (''N'', 0)]"

definition cvssPR :: "string \<Rightarrow> bool \<Rightarrow> rat option" where
  "cvssPR v scopeChanged =
     (if v = ''N'' then Some (lit 850)
      else if v = ''L'' then Some (if scopeChanged then lit 680 else lit 620)
      else if v = ''H'' then Some (if scopeChanged then lit 500 else lit 270)
      else None)"

text \<open>The operations with their rounding; \<open>pow15\<close> is \<^verbatim>\<open>math.Pow\<close> with the exponent 15, by repeated squaring.\<close>

definition fmul :: "rat \<Rightarrow> rat \<Rightarrow> rat" where "fmul x y = flo (x * y)"
definition fadd :: "rat \<Rightarrow> rat \<Rightarrow> rat" where "fadd x y = flo (x + y)"
definition fsub :: "rat \<Rightarrow> rat \<Rightarrow> rat" where "fsub x y = flo (x - y)"

definition pow15 :: "rat \<Rightarrow> rat" where
  "pow15 x = (let x2 = fmul x x; x4 = fmul x2 x2; x8 = fmul x4 x4 in fmul (fmul (fmul x x2) x4) x8)"

definition cvssRoundup :: "rat \<Rightarrow> rat" where
  "cvssRoundup x =
     (let i = \<lfloor>fmul x 100000 + 1 / 2\<rfloor> in
      if i mod 10000 = 0 then flo (of_int i / 100000)
      else flo (fadd (of_int \<lfloor>flo (of_int i / 10000)\<rfloor>) 1 / 10))"

definition vector_fields :: "string \<Rightarrow> (string \<times> string) list" where
  "vector_fields vector = rev (List.map_filter (cut_at (CHR '':'')) (split_on (CHR ''/'') vector))"

definition vector_field :: "string \<Rightarrow> string \<Rightarrow> string" where
  "vector_field vector k = (case map_of (vector_fields vector) k of None \<Rightarrow> [] | Some v \<Rightarrow> v)"

definition score_of_metrics :: "bool \<Rightarrow> rat \<Rightarrow> rat \<Rightarrow> rat \<Rightarrow> rat \<Rightarrow> rat \<Rightarrow> rat \<Rightarrow> rat \<Rightarrow> rat" where
  "score_of_metrics scopeChanged av ac pr ui c i a =
     (let iss = fsub 1 (fmul (fmul (fsub 1 c) (fsub 1 i)) (fsub 1 a));
          impact = (if scopeChanged then fsub (fmul (lit 7520) (fsub iss (lit 29))) (fmul (lit 3250) (pow15 (fsub iss (lit 20))))
                    else fmul (lit 6420) iss)
      in if impact \<le> 0 then 0
         else let expl = fmul (fmul (fmul (fmul (lit 8220) av) ac) pr) ui
              in if scopeChanged then cvssRoundup (min (fmul (lit 1080) (fadd impact expl)) 10)
                 else cvssRoundup (min (fadd impact expl) 10))"

definition cvssBaseScore :: "string \<Rightarrow> rat option" where
  "cvssBaseScore vector =
     (if \<not> has_prefix vector ''CVSS:3'' then None
      else let m = vector_field vector; scopeChanged = (m ''S'' = ''C'') in
        case (map_of cvssAV (m ''AV''), map_of cvssAC (m ''AC''), cvssPR (m ''PR'') scopeChanged, map_of cvssUI (m ''UI''),
              map_of cvssCIA (m ''C''), map_of cvssCIA (m ''I''), map_of cvssCIA (m ''A'')) of
          (Some av, Some ac, Some pr, Some ui, Some c, Some i, Some a) \<Rightarrow> Some (score_of_metrics scopeChanged av ac pr ui c i a)
        | _ \<Rightarrow> None)"

section \<open>Advisories\<close>

record osv_vuln =
  ov_id :: string
  ov_aliases :: "string list"
  ov_withdrawn :: string
  ov_severity :: "(string \<times> string) list"
  ov_label :: string

text \<open>\<^verbatim>\<open>FormatFloat(x, 'f', 1, 64)\<close> of a number that is not negative.\<close>

definition format1 :: "rat \<Rightarrow> string" where
  "format1 x = (let n = round_even (x * 10) in Itoa (n div 10) @ ''.'' @ Itoa (n mod 10))"

fun scoreOf_list :: "(string \<times> string) list \<Rightarrow> string" where
  "scoreOf_list [] = []"
| "scoreOf_list ((t, score) # ss) =
     (let raw = trim_space score in
      if raw = [] then scoreOf_list ss
      else case cvssBaseScore raw of
             Some bs \<Rightarrow> format1 bs
           | None \<Rightarrow> if ParseFloat raw \<noteq> None then raw else scoreOf_list ss)"

definition scoreOf :: "osv_vuln \<Rightarrow> string" where
  "scoreOf v = scoreOf_list (ov_severity v)"

definition bucketCVSS :: "go_float \<Rightarrow> int" where
  "bucketCVSS score =
     (let at_least = (\<lambda>q. case score of Finite x \<Rightarrow> x \<ge> q | PosInf \<Rightarrow> True | _ \<Rightarrow> False);
          positive = (case score of Finite x \<Rightarrow> x > 0 | PosInf \<Rightarrow> True | _ \<Rightarrow> False)
      in if at_least 9 then SevCritical else if at_least 7 then SevHigh else if at_least 4 then SevMedium
         else if positive then SevLow else SevNone)"

fun first_score :: "(string \<times> string) list \<Rightarrow> go_float option" where
  "first_score [] = None"
| "first_score ((t, score) # ss) = (case ParseFloat score of Some x \<Rightarrow> Some x | None \<Rightarrow> first_score ss)"

definition severityOf :: "osv_vuln \<Rightarrow> int" where
  "severityOf v =
     (let label = to_upper (ov_label v) in
      if label = ''CRITICAL'' then SevCritical
      else if label = ''HIGH'' then SevHigh
      else if label = ''MODERATE'' \<or> label = ''MEDIUM'' then SevMedium
      else if label = ''LOW'' then SevLow
      else case first_score (ov_severity v) of
             Some x \<Rightarrow> bucketCVSS x
           | None \<Rightarrow> if has_prefix (ov_id v) ''MAL-'' then SevCritical else SevHigh)"

definition advisory_id :: "osv_vuln \<Rightarrow> string" where
  "advisory_id v = (case List.find (\<lambda>a. has_prefix a ''CVE-'') (ov_aliases v) of Some a \<Rightarrow> a | None \<Rightarrow> ov_id v)"

definition no_finding :: finding where
  "no_finding = \<lparr>fi_ids = [], fi_advisories = [], fi_max = SevNone, fi_counts = [0, 0, 0, 0, 0]\<rparr>"

definition add_vuln :: "osv_vuln \<Rightarrow> finding \<Rightarrow> finding" where
  "add_vuln v f =
     (let id = advisory_id v in
      if ov_withdrawn v \<noteq> [] \<or> id = [] \<or> id \<in> set (fi_ids f) then f
      else let sev = severityOf v in
        \<lparr>fi_ids = fi_ids f @ [id],
         fi_advisories = fi_advisories f @ [(id, Severity_String sev, scoreOf v)],
         fi_max = (if sev > fi_max f then sev else fi_max f),
         fi_counts = (if sev > SevNone \<and> nat sev < length (fi_counts f)
                      then (fi_counts f)[nat sev := fi_counts f ! nat sev + 1] else fi_counts f)\<rparr>)"

text \<open>The answer: the status and the body. \<open>decode\<close> reads the document.\<close>

definition Query :: "(bytes \<Rightarrow> osv_vuln list option) \<Rightarrow> (string \<Rightarrow> string \<Rightarrow> string \<Rightarrow> string \<Rightarrow> (int \<times> reader) option) \<Rightarrow>
  string \<Rightarrow> string \<Rightarrow> string \<Rightarrow> string \<Rightarrow> finding option" where
  "Query decode post url ecosystem pkg version =
     (if pkg = [] then Some no_finding
      else case post (url @ ''/v1/query'') ecosystem pkg version of
             None \<Rightarrow> None
           | Some (code, body) \<Rightarrow>
               if code < 200 \<or> 300 \<le> code then None
               else let raw = LimitReader 8388608 body in
                 if \<not> snd raw then None
                 else case decode (fst raw) of
                        None \<Rightarrow> None
                      | Some vulns \<Rightarrow> Some (fold add_vuln vulns no_finding))"

definition NewOSV :: "(bytes \<Rightarrow> osv_vuln list option) \<Rightarrow> (string \<Rightarrow> string \<Rightarrow> string \<Rightarrow> string \<Rightarrow> (int \<times> reader) option) \<Rightarrow> string \<Rightarrow> scanner" where
  "NewOSV decode post baseURL = \<lparr>sc_query = Query decode post (trim_right (CHR ''/'') baseURL), sc_source = ''OSV''\<rparr>"

section \<open>Licenses\<close>

definition unreserved :: "char \<Rightarrow> bool" where
  "unreserved c =
     (let n = (of_char c :: nat) in
      65 \<le> n \<and> n \<le> 90 \<or> 97 \<le> n \<and> n \<le> 122 \<or> 48 \<le> n \<and> n \<le> 57 \<or> c \<in> set ''-._~'')"

definition upperhex :: "nat \<Rightarrow> char" where
  "upperhex n = ''0123456789ABCDEF'' ! n"

fun escapeSegment :: "string \<Rightarrow> string" where
  "escapeSegment [] = []"
| "escapeSegment (c # s) =
     (if unreserved c then c # escapeSegment s
      else let n = (of_char c :: nat) in CHR ''%'' # upperhex (n div 16) # upperhex (n mod 16) # escapeSegment s)"

definition version_url :: "string \<Rightarrow> string \<Rightarrow> string \<Rightarrow> string \<Rightarrow> string" where
  "version_url base system pkg version =
     base @ ''/v3/systems/'' @ escapeSegment system @ ''/packages/'' @ escapeSegment pkg @ ''/versions/'' @ escapeSegment version"

fun keep_licenses :: "string list \<Rightarrow> string list \<Rightarrow> string list" where
  "keep_licenses kept [] = kept"
| "keep_licenses kept (l # ls) =
     (let t = trim_space l in if t = [] \<or> t \<in> set kept then keep_licenses kept ls else keep_licenses (kept @ [t]) ls)"

definition depsdev_Resolve :: "(bytes \<Rightarrow> string list option) \<Rightarrow> (string \<Rightarrow> (int \<times> reader) option) \<Rightarrow> string \<Rightarrow>
  string \<Rightarrow> string \<Rightarrow> string \<Rightarrow> string list option" where
  "depsdev_Resolve decode fetch url system pkg version =
     (if system = [] \<or> pkg = [] \<or> version = [] then Some []
      else case fetch (version_url url system pkg version) of
             None \<Rightarrow> None
           | Some (code, body) \<Rightarrow>
               if code = 404 then Some []
               else if code < 200 \<or> 300 \<le> code then None
               else let raw = LimitReader 4194304 body in
                 if \<not> snd raw then None
                 else map_option (keep_licenses []) (decode (fst raw)))"

definition NewDepsDev :: "(bytes \<Rightarrow> string list option) \<Rightarrow> (string \<Rightarrow> (int \<times> reader) option) \<Rightarrow> string \<Rightarrow> resolver" where
  "NewDepsDev decode fetch baseURL = \<lparr>rs_resolve = depsdev_Resolve decode fetch (trim_right (CHR ''/'') baseURL), rs_source = ''deps.dev''\<rparr>"

section \<open>What a finding says\<close>

lemma bucket_range: "0 \<le> bucketCVSS x \<and> bucketCVSS x \<le> 4"
  by (simp add: bucketCVSS_def Let_def)

lemma severity_range: "0 \<le> severityOf v \<and> severityOf v \<le> 4"
  using bucket_range by (simp add: severityOf_def Let_def split: option.splits)

lemma severity_label:
  assumes "0 \<le> s" and "s \<le> 4"
  shows "ParseSeverity (Severity_String s) = s"
proof -
  consider "s = 0" | "s = 1" | "s = 2" | "s = 3" | "s = 4" using assms by linarith
  then show ?thesis by cases (simp_all add: Severity_String_def ParseSeverity_def)
qed

lemma severity_label_eq:
  assumes "0 \<le> s" and "s \<le> 4" and "0 \<le> t" and "t \<le> 4"
  shows "Severity_String s = Severity_String t \<longleftrightarrow> s = t"
  using severity_label [OF assms(1,2)] severity_label [OF assms(3,4)] by metis

abbreviation adv_severity :: "string \<times> string \<times> string \<Rightarrow> int" where
  "adv_severity a \<equiv> ParseSeverity (fst (snd a))"

definition live_ids :: "osv_vuln list \<Rightarrow> string set" where
  "live_ids vs = {advisory_id v | v. v \<in> set vs \<and> ov_withdrawn v = [] \<and> advisory_id v \<noteq> []}"

definition finding_ok :: "osv_vuln list \<Rightarrow> finding \<Rightarrow> bool" where
  "finding_ok vs f \<longleftrightarrow>
     distinct (fi_ids f) \<and> map fst (fi_advisories f) = fi_ids f \<and> set (fi_ids f) = live_ids vs \<and>
     (\<forall>a \<in> set (fi_advisories f). adv_severity a \<le> fi_max f) \<and>
     (fi_max f = SevNone \<or> (\<exists>a \<in> set (fi_advisories f). adv_severity a = fi_max f)) \<and> 0 \<le> fi_max f \<and>
     length (fi_counts f) = 5 \<and>
     (\<forall>k \<in> {1..4}. fi_counts f ! k = int (length (filter (\<lambda>a. adv_severity a = int k) (fi_advisories f))))"

lemma finding_ok_add:
  assumes "finding_ok vs f"
  shows "finding_ok (vs @ [v]) (add_vuln v f)"
proof (cases "ov_withdrawn v \<noteq> [] \<or> advisory_id v = [] \<or> advisory_id v \<in> set (fi_ids f)")
  case True
  have "live_ids (vs @ [v]) = live_ids vs"
    using True assms by (auto simp: live_ids_def finding_ok_def)
  with True assms show ?thesis by (simp add: add_vuln_def Let_def finding_ok_def)
next
  case False
  let ?s = "severityOf v"
  have s: "0 \<le> ?s" "?s \<le> 4" "ParseSeverity (Severity_String ?s) = ?s"
    using severity_range [of v] severity_label [of ?s] by auto
  have live: "live_ids (vs @ [v]) = insert (advisory_id v) (live_ids vs)" using False by (auto simp: live_ids_def)
  have "(if ?s > SevNone \<and> nat ?s < length (fi_counts f) then (fi_counts f)[nat ?s := fi_counts f ! nat ?s + 1] else fi_counts f) ! k =
      int (length (filter (\<lambda>a. adv_severity a = int k) (fi_advisories f @ [(advisory_id v, Severity_String ?s, scoreOf v)])))"
    if "k \<in> {1..4}" for k
    using that assms s by (auto simp: finding_ok_def nth_list_update)
  with assms False live s show ?thesis
    by (auto simp: add_vuln_def Let_def finding_ok_def intro: order_trans)
qed

lemma finding_ok_fold: "finding_ok vs f \<Longrightarrow> finding_ok (vs @ ws) (fold add_vuln ws f)"
proof (induction ws arbitrary: vs f)
  case (Cons w ws)
  from Cons.IH [OF finding_ok_add [OF Cons.prems]] show ?case by simp
qed simp

lemma finding_ok_none: "finding_ok [] no_finding"
  by (auto simp: finding_ok_def no_finding_def live_ids_def numeral_eq_Suc less_Suc_eq nth_Cons')


definition demo_vulns :: "osv_vuln list" where
  "demo_vulns =
     [\<lparr>ov_id = ''GHSA-1'', ov_aliases = [''X-1'', ''CVE-1''], ov_withdrawn = [], ov_severity = [], ov_label = ''Moderate''\<rparr>,
      \<lparr>ov_id = ''OSV-2'', ov_aliases = [], ov_withdrawn = ''2024'', ov_severity = [], ov_label = ''CRITICAL''\<rparr>,
      \<lparr>ov_id = ''MAL-3'', ov_aliases = [], ov_withdrawn = [], ov_severity = [], ov_label = []\<rparr>,
      \<lparr>ov_id = ''OSV-4'', ov_aliases = [''CVE-1''], ov_withdrawn = [], ov_severity = [], ov_label = ''CRITICAL''\<rparr>]"

definition demo_post :: "string \<Rightarrow> string \<Rightarrow> string \<Rightarrow> string \<Rightarrow> (int \<times> reader) option" where
  "demo_post url ecosystem pkg version = Some (200, [], True)"


text \<open>
  The score of a vector is computed for display only: \<^verbatim>\<open>severityOf\<close> wants a number. Advisories without a label
  count as high, whether their vector describes a critical or a harmless problem, and a score with a
  blank in front of it is shown and not used.
\<close>

definition vector_vuln :: "string \<Rightarrow> osv_vuln" where
  "vector_vuln score = \<lparr>ov_id = ''OSV-1'', ov_aliases = [], ov_withdrawn = [], ov_severity = [(''CVSS_V3'', score)], ov_label = []\<rparr>"

lemma no_impact_scores_zero:
  "vector_field v ''C'' = ''N'' \<Longrightarrow> vector_field v ''I'' = ''N'' \<Longrightarrow> vector_field v ''A'' = ''N'' \<Longrightarrow> vector_field v ''S'' \<noteq> ''C'' \<Longrightarrow>
   cvssBaseScore v = None \<or> cvssBaseScore v = Some 0"
proof -
  have "fl 1 = 1" using fl_int [of 1] by simp
  then have one: "flo 1 = 1" by (simp add: flo_def)
  have zero: "flo 0 = 0" by (simp add: flo_def fl_def)
  have "score_of_metrics False av ac pr ui 0 0 0 = 0" for av ac pr ui
    by (simp add: score_of_metrics_def fsub_def fmul_def one zero Let_def)
  then show "vector_field v ''C'' = ''N'' \<Longrightarrow> vector_field v ''I'' = ''N'' \<Longrightarrow> vector_field v ''A'' = ''N'' \<Longrightarrow> vector_field v ''S'' \<noteq> ''C'' \<Longrightarrow>
    cvssBaseScore v = None \<or> cvssBaseScore v = Some 0"
    by (auto simp: cvssBaseScore_def Let_def cvssCIA_def split: option.splits)
qed

theorem vector_scores_are_not_used:
  "severityOf (vector_vuln ''CVSS:3.1/AV:N/AC:L/PR:N/UI:N/S:U/C:H/I:H/A:H'') = SevHigh \<and>
   severityOf (vector_vuln ''CVSS:3.1/AV:P/AC:H/PR:H/UI:R/S:U/C:N/I:N/A:N'') = SevHigh \<and>
   scoreOf (vector_vuln '' 9.8'') = ''9.8'' \<and> severityOf (vector_vuln '' 9.8'') = SevHigh \<and> severityOf (vector_vuln ''9.8'') = SevCritical"
  by code_simp

text \<open>
  Of several records with one CVE number only the first counts: the worst severity of the result can be below
  that of a record the service listed.
\<close>

theorem first_record_of_cve_counts:
  "map_option (\<lambda>f. (fi_ids f, fi_max f))
     (Query (\<lambda>b. Some [hd demo_vulns, demo_vulns ! 3]) demo_post ''http://osv'' ''npm'' ''left-pad'' ''1'') = Some ([''CVE-1''], SevMedium) \<and>
   severityOf (demo_vulns ! 3) = SevCritical"
  by code_simp

section \<open>Coordinates in the URL\<close>

lemma unhex_upperhex: "n < 16 \<Longrightarrow> unhex (upperhex n) = Some n"
proof -
  have "\<forall>n \<in> {0..<16}. unhex (upperhex n) = Some n" by code_simp
  then show "n < 16 \<Longrightarrow> unhex (upperhex n) = Some n" by auto
qed

lemma unreserved_plain: "unreserved c \<Longrightarrow> c \<noteq> CHR ''%'' \<and> c \<noteq> CHR ''/''"
  by (auto simp: unreserved_def)

lemma upperhex_plain: "n < 16 \<Longrightarrow> upperhex n \<noteq> CHR ''/''"
  using unhex_upperhex [of n] by (auto simp: unhex_def Let_def)

lemma half_bytes: "of_char c div 16 < (16 :: nat)" "of_char c mod 16 < (16 :: nat)"
proof -
  have "of_char c < (16 * 16 :: nat)" using nat_of_char_less_256 [of c] by simp
  then show "of_char c div 16 < (16 :: nat)" by (rule less_mult_imp_div_less)
qed simp

lemma unescape_segment: "PathUnescape (escapeSegment s) = Some s"
proof (induction s)
  case (Cons c s)
  show ?case
  proof (cases "unreserved c")
    case True
    with Cons unreserved_plain show ?thesis by simp
  next
    case False
    have "unhex (upperhex (of_char c div 16)) = Some (of_char c div 16)" "unhex (upperhex (of_char c mod 16)) = Some (of_char c mod 16)"
      using half_bytes [of c] by (simp_all add: unhex_upperhex)
    with False Cons show ?thesis by (simp add: Let_def)
  qed
qed simp

lemma segment_plain: "CHR ''/'' \<notin> set (escapeSegment s)"
proof (induction s)
  case (Cons c s)
  have "upperhex (of_char c div 16) \<noteq> CHR ''/''" "upperhex (of_char c mod 16) \<noteq> CHR ''/''"
    using half_bytes [of c] upperhex_plain by blast+
  with Cons unreserved_plain [of c] show ?case by (auto simp: Let_def)
qed simp

lemma segment_inj: "escapeSegment s = escapeSegment t \<longleftrightarrow> s = t"
  using unescape_segment by (metis option.inject)

lemma cut_at_slash:
  "CHR ''/'' \<notin> set a \<Longrightarrow> CHR ''/'' \<notin> set b \<Longrightarrow> a @ CHR ''/'' # x = b @ CHR ''/'' # y \<longleftrightarrow> a = b \<and> x = y"
  by (induction a arbitrary: b; case_tac b) auto

text \<open>
  C35: Every coordinate has an address of its own at the license service: names with slashes, colons, percent signs
  or any other bytes are escaped so that the service reads back the very name, and two coordinates never
  share an address, so that no package is judged by another one's licenses.
\<close>

theorem license_address_unambiguous:
  "(version_url base system pkg version = version_url base system' pkg' version' \<longleftrightarrow>
    system = system' \<and> pkg = pkg' \<and> version = version') \<and>
   PathUnescape (escapeSegment pkg) = Some pkg \<and> CHR ''/'' \<notin> set (escapeSegment pkg)"
  by (simp add: version_url_def cut_at_slash segment_plain segment_inj unescape_segment)

lemma keep_licenses_ok:
  "distinct kept \<Longrightarrow> [] \<notin> set kept \<Longrightarrow>
   distinct (keep_licenses kept ls) \<and> set (keep_licenses kept ls) = set kept \<union> {trim_space l | l. l \<in> set ls \<and> trim_space l \<noteq> []}"
  by (induction kept ls rule: keep_licenses.induct) (auto simp: Let_def)

end
