(* ===== verification/Rewrite_Gate.thy ===== *)
theory Rewrite_Gate
  imports Prelude
begin

text \<open>
  The semaphore around the rewriting of package indexes (\<^verbatim>\<open>acquireRewrite\<close> and \<^verbatim>\<open>releaseRewrite\<close> of
  \<^verbatim>\<open>internal/repo/engine.go\<close>), a channel of capacity \<open>maxConcurrentRewrites\<close>, as a step relation over any number
  of requests. A request that has a slot gives it back when its handler returns or panics, which the handlers
  do in a deferred call; none asks for a second one. A request that waits gives up when its client is gone.
\<close>

abbreviation maxConcurrentRewrites :: nat where "maxConcurrentRewrites \<equiv> 4"

datatype rewrite_pc = Outside | Queued | Rewriting | Left

record rewrite_gate =
  rg_slots :: nat
  rg_pc :: "nat \<Rightarrow> rewrite_pc"

definition new_gate :: rewrite_gate where
  "new_gate = \<lparr>rg_slots = 0, rg_pc = (\<lambda>i. Outside)\<rparr>"

text \<open>
  The send on the channel: \<open>None\<close> while it blocks. The receive of the release never blocks for a request that
  has a slot, as the invariant shows.
\<close>

definition acquireRewrite :: "nat \<Rightarrow> rewrite_gate \<Rightarrow> rewrite_gate option" where
  "acquireRewrite i g =
     (if rg_slots g < maxConcurrentRewrites
      then Some (g\<lparr>rg_slots := Suc (rg_slots g), rg_pc := (rg_pc g)(i := Rewriting)\<rparr>)
      else None)"

definition releaseRewrite :: "nat \<Rightarrow> rewrite_gate \<Rightarrow> rewrite_gate option" where
  "releaseRewrite i g =
     (case rg_slots g of
        0 \<Rightarrow> None
      | Suc n \<Rightarrow> Some (g\<lparr>rg_slots := n, rg_pc := (rg_pc g)(i := Left)\<rparr>))"

inductive rewrite_step :: "rewrite_gate \<Rightarrow> rewrite_gate \<Rightarrow> bool" where
  arrives: "rg_pc g i = Outside \<Longrightarrow> rewrite_step g (g\<lparr>rg_pc := (rg_pc g)(i := Queued)\<rparr>)"
| acquires: "rg_pc g i = Queued \<Longrightarrow> acquireRewrite i g = Some g' \<Longrightarrow> rewrite_step g g'"
| gives_up: "rg_pc g i = Queued \<Longrightarrow> rewrite_step g (g\<lparr>rg_pc := (rg_pc g)(i := Left)\<rparr>)"
| releases: "rg_pc g i = Rewriting \<Longrightarrow> releaseRewrite i g = Some g' \<Longrightarrow> rewrite_step g g'"

definition rewrite_runs :: "rewrite_gate \<Rightarrow> rewrite_gate \<Rightarrow> bool" where
  "rewrite_runs = rewrite_step\<^sup>*\<^sup>*"

definition holders :: "rewrite_gate \<Rightarrow> nat set" where
  "holders g = {i. rg_pc g i = Rewriting}"

section \<open>The slots are the requests that rewrite\<close>

definition gate_inv :: "rewrite_gate \<Rightarrow> bool" where
  "gate_inv g \<longleftrightarrow> finite (holders g) \<and> card (holders g) = rg_slots g \<and> rg_slots g \<le> maxConcurrentRewrites"

lemma holders_upd: "holders (g\<lparr>rg_slots := n, rg_pc := (rg_pc g)(i := pc)\<rparr>) = (if pc = Rewriting then insert i (holders g) else holders g - {i})"
  "holders (g\<lparr>rg_pc := (rg_pc g)(i := pc)\<rparr>) = (if pc = Rewriting then insert i (holders g) else holders g - {i})"
  by (auto simp: holders_def)

lemma gate_inv_step: "rewrite_step g g' \<Longrightarrow> gate_inv g \<Longrightarrow> gate_inv g'"
proof (induction rule: rewrite_step.induct)
  case (arrives g i)
  then have "i \<notin> holders g" by (simp add: holders_def)
  with arrives show ?case by (simp add: gate_inv_def holders_upd)
next
  case (acquires g i g')
  then have "i \<notin> holders g" by (simp add: holders_def)
  with acquires show ?case by (auto simp: gate_inv_def acquireRewrite_def holders_upd split: if_splits)
next
  case (gives_up g i)
  then have "i \<notin> holders g" by (simp add: holders_def)
  with gives_up show ?case by (simp add: gate_inv_def holders_upd)
next
  case (releases g i g')
  then have "i \<in> holders g" by (simp add: holders_def)
  with releases show ?case by (auto simp: gate_inv_def releaseRewrite_def holders_upd split: nat.splits)
qed

lemma gate_inv_runs: "rewrite_runs new_gate g \<Longrightarrow> gate_inv g"
  unfolding rewrite_runs_def
proof (induction rule: rtranclp_induct)
  case base
  then show ?case by (simp add: gate_inv_def new_gate_def holders_def)
next
  case (step g g')
  then show ?case using gate_inv_step by blast
qed

text \<open>
  C37: The bound and progress. However requests come, give up, panic and finish, at most four rewrite at the same time;
  every one of them can give its slot back; a request that waits gets a slot at once or as soon as one of
  the four gives its own back.
\<close>

theorem rewrite_gate_bounded:
  assumes "rewrite_runs new_gate g"
  shows "finite (holders g) \<and> card (holders g) \<le> maxConcurrentRewrites \<and>
    (\<forall>j \<in> holders g. \<exists>g'. releaseRewrite j g = Some g' \<and> card (holders g') = card (holders g) - 1 \<and>
       (\<forall>i. rg_pc g i = Queued \<longrightarrow> acquireRewrite i g' \<noteq> None)) \<and>
    (\<forall>i. rg_pc g i = Queued \<longrightarrow> acquireRewrite i g \<noteq> None \<or> card (holders g) = maxConcurrentRewrites)"
proof -
  from gate_inv_runs [OF assms] have inv: "finite (holders g)" "card (holders g) = rg_slots g" "rg_slots g \<le> maxConcurrentRewrites"
    by (simp_all add: gate_inv_def)
  have "\<exists>g'. releaseRewrite j g = Some g' \<and> card (holders g') = card (holders g) - 1 \<and>
       (\<forall>i. rg_pc g i = Queued \<longrightarrow> acquireRewrite i g' \<noteq> None)" if j: "j \<in> holders g" for j
  proof -
    have "0 < card (holders g)" using inv(1) j card_gt_0_iff by blast
    then have "rg_slots g \<noteq> 0" using inv(2) by simp
    then obtain n where n: "rg_slots g = Suc n" by (cases "rg_slots g") auto
    with inv j show ?thesis by (auto simp: releaseRewrite_def acquireRewrite_def holders_upd)
  qed
  with inv show ?thesis by (auto simp: acquireRewrite_def)
qed

text \<open>
  A slot is held while the request's body is read or the answer is written, and the server sets no time limit
  on either. Four clients that stop reading (or, when they may publish, sending) keep every other
  request for an index waiting until they go away.
\<close>

definition four_stalled :: rewrite_gate where
  "four_stalled = \<lparr>rg_slots = 4, rg_pc = (\<lambda>i. Outside)(0 := Rewriting, 1 := Rewriting, 2 := Rewriting, 3 := Rewriting, 4 := Queued)\<rparr>"

lemma enter_gate:
  assumes "rewrite_runs g0 g" and "rg_pc g i = Outside" and "rg_slots g < maxConcurrentRewrites"
  shows "rewrite_runs g0 (g\<lparr>rg_slots := Suc (rg_slots g), rg_pc := (rg_pc g)(i := Rewriting)\<rparr>)"
proof -
  let ?q = "g\<lparr>rg_pc := (rg_pc g)(i := Queued)\<rparr>"
  have "rewrite_step g ?q" using assms(2) by (rule arrives)
  moreover have "rewrite_step ?q (g\<lparr>rg_slots := Suc (rg_slots g), rg_pc := (rg_pc g)(i := Rewriting)\<rparr>)"
    by (rule acquires [where i = i]) (use assms(3) in \<open>simp_all add: acquireRewrite_def\<close>)
  ultimately show ?thesis using assms(1) unfolding rewrite_runs_def by (meson rtranclp.rtrancl_into_rtrancl)
qed

lemma four_stalled_reachable: "rewrite_runs new_gate four_stalled"
proof -
  have "rewrite_runs new_gate new_gate" by (simp add: rewrite_runs_def)
  note a = enter_gate [OF this, of 0, simplified new_gate_def, simplified]
  note b = enter_gate [OF a, of 1, simplified]
  note c = enter_gate [OF b, of 2, simplified]
  note d = enter_gate [OF c, of 3, simplified]
  have "rewrite_step \<lparr>rg_slots = 4, rg_pc = (\<lambda>i. Outside)(0 := Rewriting, 1 := Rewriting, 2 := Rewriting, 3 := Rewriting)\<rparr> four_stalled"
    using arrives [of "\<lparr>rg_slots = 4, rg_pc = (\<lambda>i. Outside)(0 := Rewriting, 1 := Rewriting, 2 := Rewriting, 3 := Rewriting)\<rparr>" 4]
    by (simp add: four_stalled_def)
  with d show ?thesis unfolding rewrite_runs_def new_gate_def by (simp add: eval_nat_numeral rtranclp.rtrancl_into_rtrancl)
qed

theorem rewrite_gate_bounded_witness:
  "card (holders four_stalled) \<le> maxConcurrentRewrites \<and> (\<exists>g'. releaseRewrite 2 four_stalled = Some g' \<and> acquireRewrite 4 g' \<noteq> None)"
proof -
  have "2 \<in> holders four_stalled" "rg_pc four_stalled 4 = Queued" by (simp_all add: holders_def four_stalled_def)
  with rewrite_gate_bounded [OF four_stalled_reachable] show ?thesis by blast
qed

theorem stalled_clients_block_rewrites:
  "rewrite_runs new_gate four_stalled \<and> rg_pc four_stalled 4 = Queued \<and> acquireRewrite 4 four_stalled = None"
  using four_stalled_reachable by (simp add: four_stalled_def acquireRewrite_def)

end
