(* ===== verification/Monitoring.thy ===== *)
theory Monitoring
  imports Listings Durations S3_Store
begin

text \<open>
  The gauges of the store (\<^verbatim>\<open>internal/metrics/metrics.go\<close>), computed for each scrape, and the memory limit
  taken from the container (\<^verbatim>\<open>internal/memlimit/memlimit.go\<close>). A gauge's value is the number the code converts to
  floating point. The gauges add up; the limit keeps below the container's.
\<close>

section \<open>Gauges\<close>

datatype metric =
    Repositories string string nat
  | ArtifactsTotal nat
  | RepoArtifacts string string string nat
  | RepoSizeBytes string string string int
  | BlobsTotal nat
  | StorageBytes int

text \<open>The counts by format and type, and the row of a repository, which is zero without artifacts.\<close>

definition repo_counts :: "repository list \<Rightarrow> ((string \<times> string) \<times> nat) list" where
  "repo_counts repos =
     (let kind = (\<lambda>r. (r_format r, r_type r))
      in map (\<lambda>k. (k, length (filter (\<lambda>r. kind r = k) repos))) (remdups (map kind repos)))"

definition stats_of :: "(nat \<times> nat \<times> int) list \<Rightarrow> nat \<Rightarrow> nat \<times> int" where
  "stats_of stats rid = (case map_of stats rid of None \<Rightarrow> (0, 0) | Some s \<Rightarrow> s)"

definition repo_gauges :: "(nat \<times> nat \<times> int) list \<Rightarrow> repository \<Rightarrow> metric list" where
  "repo_gauges stats r =
     [RepoArtifacts (r_name r) (r_format r) (r_type r) (fst (stats_of stats (r_id r))),
      RepoSizeBytes (r_name r) (r_format r) (r_type r) (snd (stats_of stats (r_id r)))]"

definition metrics_Collect :: "store \<Rightarrow> metric list" where
  "metrics_Collect st =
     (case ListRepositories st of
        Inr repos \<Rightarrow> map (\<lambda>kn. Repositories (fst (fst kn)) (snd (fst kn)) (snd kn)) (repo_counts repos)
      | Inl err \<Rightarrow> []) @
     (case AllRepoStats st of
        Inr stats \<Rightarrow> [ArtifactsTotal (sum_list (map (\<lambda>s. fst (snd s)) stats))]
      | Inl err \<Rightarrow> []) @
     (case (ListRepositories st, AllRepoStats st) of
        (Inr repos, Inr stats) \<Rightarrow> concat (map (repo_gauges stats) repos)
      | _ \<Rightarrow> []) @
     (case BlobStats st of
        Inr s \<Rightarrow> [BlobsTotal (fst s), StorageBytes (snd s)]
      | Inl err \<Rightarrow> [])"

section \<open>The gauges add up\<close>

fun repositories_in :: "metric \<Rightarrow> nat" where
  "repositories_in (Repositories f t n) = n"
| "repositories_in _ = 0"

fun artifacts_in :: "metric \<Rightarrow> nat" where
  "artifacts_in (RepoArtifacts r f t n) = n"
| "artifacts_in _ = 0"

fun bytes_in :: "metric \<Rightarrow> int" where
  "bytes_in (RepoSizeBytes r f t n) = n"
| "bytes_in _ = 0"

lemma one_of_keys: "distinct ks \<Longrightarrow> (\<Sum>k\<leftarrow>ks. if y = k then v else 0) = (if y \<in> set ks then v else (0 :: 'b :: comm_monoid_add))"
  by (induction ks) auto

lemma sum_by_key:
  fixes v :: "'a \<Rightarrow> 'b :: comm_monoid_add"
  assumes "distinct ks" and "f ` set xs \<subseteq> set ks"
  shows "(\<Sum>k\<leftarrow>ks. \<Sum>x\<leftarrow>filter (\<lambda>x. f x = k) xs. v x) = (\<Sum>x\<leftarrow>xs. v x)"
  using assms(2)
proof (induction xs)
  case (Cons x xs)
  have split: "(\<Sum>y\<leftarrow>filter (\<lambda>y. f y = k) (x # xs). v y) = (if f x = k then v x else 0) + (\<Sum>y\<leftarrow>filter (\<lambda>y. f y = k) xs. v y)" for k
    by simp
  have "(\<Sum>k\<leftarrow>ks. \<Sum>y\<leftarrow>filter (\<lambda>y. f y = k) (x # xs). v y) =
      (\<Sum>k\<leftarrow>ks. if f x = k then v x else 0) + (\<Sum>k\<leftarrow>ks. \<Sum>y\<leftarrow>filter (\<lambda>y. f y = k) xs. v y)"
    by (simp only: split sum_list_addf)
  with Cons assms(1) show ?case by (simp add: one_of_keys)
qed simp

lemma length_as_sum: "length xs = (\<Sum>x\<leftarrow>xs. 1 :: nat)"
  by (induction xs) auto

lemma stats_of_all:
  assumes "AllRepoStats st = Inr stats"
  shows "stats_of stats rid = (length (repo_artifacts st rid), sum_list (map a_size (repo_artifacts st rid)))"
proof -
  let ?f = "\<lambda>rid. (length (repo_artifacts st rid), sum_list (map a_size (repo_artifacts st rid)))"
  have stats: "stats = map (\<lambda>rid. (rid, ?f rid)) (remdups (map a_repo_id (st_artifacts st)))"
    using assms by (auto simp: AllRepoStats_def split: if_splits)
  have "map_of stats rid = (if rid \<in> a_repo_id ` set (st_artifacts st) then Some (?f rid) else None)"
    unfolding stats by (simp add: map_of_map_restrict restrict_map_def)
  moreover have "repo_artifacts st rid = []" if "rid \<notin> a_repo_id ` set (st_artifacts st)"
    using that by (auto simp: repo_artifacts_def filter_empty_conv)
  ultimately show ?thesis by (simp add: stats_of_def)
qed

lemma total_artifacts:
  assumes "AllRepoStats st = Inr stats"
  shows "sum_list (map (\<lambda>s. fst (snd s)) stats) = length (st_artifacts st)"
proof -
  have "map (\<lambda>s. fst (snd s)) stats =
      map (\<lambda>k. \<Sum>x\<leftarrow>filter (\<lambda>a. a_repo_id a = k) (st_artifacts st). 1) (remdups (map a_repo_id (st_artifacts st)))"
    using assms by (auto simp: AllRepoStats_def repo_artifacts_def length_as_sum split: if_splits)
  then show ?thesis by (simp add: sum_by_key length_as_sum del: sum_list_replicate)
qed

lemma gauges_of_repos:
  assumes "\<And>r. r \<in> set rs \<Longrightarrow> stats_of stats (r_id r) = (length (g (r_id r)), sum_list (map a_size (g (r_id r))))"
  shows "sum_list (map artifacts_in (concat (map (repo_gauges stats) rs))) = (\<Sum>r\<leftarrow>rs. length (g (r_id r)))"
    and "sum_list (map bytes_in (concat (map (repo_gauges stats) rs))) = (\<Sum>r\<leftarrow>rs. sum_list (map a_size (g (r_id r))))"
    and "sum_list (map repositories_in (concat (map (repo_gauges stats) rs))) = 0"
  using assms by (induction rs) (auto simp: repo_gauges_def)

lemma other_gauges:
  fixes f :: "metric \<Rightarrow> 'z :: comm_monoid_add"
  assumes "\<And>n. f (BlobsTotal n) = 0" and "\<And>n. f (StorageBytes n) = 0"
  shows "sum_list (map f (case BlobStats st of Inr s \<Rightarrow> [BlobsTotal (fst s), StorageBytes (snd s)] | Inl err \<Rightarrow> [])) = 0"
  using assms by (simp split: sum.splits)

text \<open>
  When the queries succeed, the gauges agree with the tables and with each other: the repositories by format
  and type add up to the repositories, the artifacts of the repositories to the total and to the rows of the table, their sizes
  to the sizes of all rows. A query that fails takes only its own gauges away.
\<close>

theorem gauges_add_up:
  assumes "schema_ok st" and "\<not> st_fault st TRepositories" and "\<not> st_fault st TArtifacts"
  shows "sum_list (map repositories_in (metrics_Collect st)) = length (st_repositories st) \<and>
    sum_list (map artifacts_in (metrics_Collect st)) = length (st_artifacts st) \<and>
    ArtifactsTotal (length (st_artifacts st)) \<in> set (metrics_Collect st) \<and>
    sum_list (map bytes_in (metrics_Collect st)) = sum_list (map a_size (st_artifacts st)) \<and>
    (st_fault st TBlobs \<longrightarrow> metrics_Collect (st\<lparr>st_fault := (st_fault st)(TBlobs := False)\<rparr>) =
       metrics_Collect st @ [BlobsTotal (length (st_blobs st)), StorageBytes (sum_list (map b_size (st_blobs st)))])"
proof -
  define repos where "repos = order_by (\<lambda>a b. str_less (r_name a) (r_name b)) (st_repositories st)"
  obtain stats where stats: "AllRepoStats st = Inr stats" using assms(3) by (simp add: AllRepoStats_def)
  have lr: "ListRepositories st = Inr repos" using assms(2) by (simp add: ListRepositories_def repos_def)
  have keys: "distinct (map r_id repos)" "a_repo_id ` set (st_artifacts st) \<subseteq> set (map r_id repos)"
    using assms(1) by (auto simp: schema_ok_def repos_def distinct_order_by)
  note sums = gauges_of_repos [of repos stats "repo_artifacts st", OF stats_of_all [OF stats]]
  have len: "(\<Sum>r\<leftarrow>repos. length (repo_artifacts st (r_id r))) = length (st_artifacts st)"
    using sum_by_key [OF keys, of "\<lambda>_. 1 :: nat"] by (simp add: repo_artifacts_def length_as_sum comp_def del: sum_list_replicate)
  have size: "(\<Sum>r\<leftarrow>repos. sum_list (map a_size (repo_artifacts st (r_id r)))) = sum_list (map a_size (st_artifacts st))"
    using sum_by_key [OF keys, of a_size] by (simp add: repo_artifacts_def comp_def)
  have kinds: "sum_list (map snd (repo_counts repos)) = length repos"
    using sum_by_key [of "remdups (map (\<lambda>r. (r_format r, r_type r)) repos)" "\<lambda>r. (r_format r, r_type r)" repos "\<lambda>_. 1 :: nat"]
    by (simp add: repo_counts_def Let_def comp_def length_as_sum del: sum_list_replicate)
  have out: "metrics_Collect st = map (\<lambda>kn. Repositories (fst (fst kn)) (snd (fst kn)) (snd kn)) (repo_counts repos) @
      [ArtifactsTotal (length (st_artifacts st))] @ concat (map (repo_gauges stats) repos) @
      (case BlobStats st of Inr s \<Rightarrow> [BlobsTotal (fst s), StorageBytes (snd s)] | Inl err \<Rightarrow> [])"
    unfolding metrics_Collect_def lr stats by (simp add: total_artifacts [OF stats])
  have "sum_list (map repositories_in (metrics_Collect st)) = length (st_repositories st)"
    unfolding out map_append sum_list_append sums(3) using kinds by (simp add: other_gauges comp_def repos_def)
  moreover have "sum_list (map artifacts_in (metrics_Collect st)) = length (st_artifacts st)"
    unfolding out map_append sum_list_append sums(1) len by (simp add: other_gauges comp_def)
  moreover have "sum_list (map bytes_in (metrics_Collect st)) = sum_list (map a_size (st_artifacts st))"
    unfolding out map_append sum_list_append sums(2) size by (simp add: other_gauges comp_def)
  moreover have "metrics_Collect (st\<lparr>st_fault := (st_fault st)(TBlobs := False)\<rparr>) =
       metrics_Collect st @ [BlobsTotal (length (st_blobs st)), StorageBytes (sum_list (map b_size (st_blobs st)))]" if "st_fault st TBlobs"
    using that by (simp add: metrics_Collect_def ListRepositories_def AllRepoStats_def BlobStats_def repo_artifacts_def repo_gauges_def)
  ultimately show ?thesis by (simp add: out)
qed

theorem gauges_add_up_witness:
  "sum_list (map artifacts_in (metrics_Collect (run_ops shared_ops empty_store))) = 2 \<and>
   ArtifactsTotal 2 \<in> set (metrics_Collect (run_ops shared_ops empty_store))"
proof -
  let ?st = "run_ops shared_ops empty_store"
  have ok: "schema_ok ?st" using run_ops_ok [OF empty_store_ok(1,2)] by blast
  have f: "\<not> st_fault ?st TRepositories" "\<not> st_fault ?st TArtifacts" by code_simp+
  have n: "length (st_artifacts ?st) = 2" by code_simp
  from gauges_add_up [OF ok f] show ?thesis by (simp add: n)
qed

section \<open>The memory limit\<close>

abbreviation minLimit :: int where "minLimit \<equiv> 67108864"

text \<open>\<open>readFile\<close> gives the content of a file, \<open>None\<close> when it cannot be read.\<close>

definition finite_limit :: "bytes \<Rightarrow> int option" where
  "finite_limit raw =
     (let s = trim_space raw in
      if s = ''max'' then None
      else case Atoi s of
             None \<Rightarrow> None
           | Some n \<Rightarrow> if n \<le> 0 then None else if n \<ge> 4611686018427387904 then None else Some n)"

fun first_limit :: "(string \<Rightarrow> bytes option) \<Rightarrow> string list \<Rightarrow> int option" where
  "first_limit readFile [] = None"
| "first_limit readFile (p # ps) = (case readFile p of None \<Rightarrow> first_limit readFile ps | Some raw \<Rightarrow> finite_limit raw)"

definition cgroupLimit :: "(string \<Rightarrow> bytes option) \<Rightarrow> string \<Rightarrow> int option" where
  "cgroupLimit readFile dir = first_limit readFile [path_Join [dir, ''memory.max''], path_Join [dir, ''memory'', ''memory.limit_in_bytes'']]"

text \<open>The limit that is set, if one is; the product is positive and in the range of the conversion.\<close>

definition soft_limit :: "int \<Rightarrow> int" where
  "soft_limit n = (let soft = \<lfloor>flo (flo (of_int n) * flo (9 / 10))\<rfloor> in if soft < minLimit then minLimit else soft)"

definition memlimit_Apply :: "string \<Rightarrow> (string \<Rightarrow> bytes option) \<Rightarrow> int option" where
  "memlimit_Apply gomemlimit readFile =
     (if gomemlimit \<noteq> [] then None else map_option soft_limit (cgroupLimit readFile ''/sys/fs/cgroup''))"

text \<open>Rounding to 53 bits changes a number by at most one part in 2 to the power 53.\<close>

lemma two_to_pos [simp]: "0 < two_to e"
  by (simp add: two_to_def)

lemma two_to_Suc: "two_to (e + 1) = 2 * two_to e"
proof (cases "0 \<le> e")
  case True
  then show ?thesis by (simp add: two_to_def nat_add_distrib)
next
  case False
  then have "nat (- e) = Suc (nat (- (e + 1)))" by simp
  with False show ?thesis by (cases "e = - 1") (simp_all add: two_to_def)
qed

lemma two_to_diff: "two_to (int a - int b) = 2 ^ a / 2 ^ b"
proof (cases "b \<le> a")
  case True
  then obtain c where "a = b + c" using le_Suc_ex by blast
  then show ?thesis by (simp add: two_to_def power_add)
next
  case False
  then obtain c where "b = a + c" using le_Suc_ex [of a b] by auto
  with False show ?thesis by (simp add: two_to_def power_add)
qed

lemma round_even_near: "of_int (round_even q) \<le> q + 1 / 2"
  by (auto simp: round_even_def Let_def; linarith)

lemma fl_nonneg: "0 \<le> fl x"
  by (auto simp: fl_def Let_def round_even_def less_imp_le case_prod_beta)

lemma fl_above:
  assumes "0 < x"
  shows "fl x \<le> x * (1 + 1 / 2 ^ 53)"
proof -
  obtain a b where ab: "quotient_of x = (a, b)" by fastforce
  then have x: "x = of_int a / of_int b" and b: "0 < b" by (auto simp: quotient_of_div quotient_of_denom_pos)
  with assms have a: "0 < a" by (simp add: zero_less_divide_iff)
  define e where "e = int (bits a) - int (bits b) - 53"
  define e' where "e' = (if x / two_to e \<ge> of_int (2 ^ 53) then e + 1 else e)"
  have "2 ^ 52 * two_to e \<le> x"
  proof -
    from bits_bounds [OF a] obtain k where k: "bits a = Suc k" "2 ^ k \<le> a" by (cases "bits a") auto
    from bits_bounds [OF b] have kb: "b \<le> 2 ^ bits b" by simp
    have "two_to e = 2 ^ Suc k / 2 ^ (bits b + 53)" using two_to_diff [of "Suc k" "bits b + 53"] by (simp add: e_def k(1) algebra_simps)
    then have "2 ^ 52 * two_to e = of_int (2 ^ k) / of_int (2 ^ bits b)" by (simp add: power_add)
    also have "\<dots> \<le> of_int a / of_int b" using k(2) kb a b by (intro frac_le) (simp_all only: of_int_le_iff of_int_0_le_iff of_int_0_less_iff)
    finally show ?thesis by (simp add: x)
  qed
  then have "2 ^ 52 * two_to e' \<le> x"
    by (auto simp: e'_def two_to_Suc pos_le_divide_eq)
  then have "two_to e' * (1 / 2) \<le> x / 2 ^ 53" by simp
  moreover have "fl x = of_int (round_even (x / two_to e')) * two_to e'"
    unfolding fl_def ab e'_def e_def using assms by (simp add: Let_def)
  moreover have "of_int (round_even (x / two_to e')) * two_to e' \<le> (x / two_to e' + 1 / 2) * two_to e'"
    by (rule mult_right_mono [OF round_even_near]) (simp add: less_imp_le)
  moreover have "(x / two_to e' + 1 / 2) * two_to e' = x + two_to e' * (1 / 2)"
    by (simp add: distrib_right less_imp_neq [OF two_to_pos, symmetric])
  ultimately show ?thesis by (simp add: algebra_simps)
qed

lemma flo_above:
  assumes "x \<le> y" and "0 \<le> y"
  shows "flo x \<le> y * (1 + 1 / 2 ^ 53)"
proof (cases "0 < x")
  case True
  then have "flo x \<le> x * (1 + 1 / 2 ^ 53)" using fl_above [of x] by (simp add: flo_def)
  also have "\<dots> \<le> y * (1 + 1 / 2 ^ 53)" using assms(1) by (rule mult_right_mono) simp
  finally show ?thesis .
next
  case False
  then have "flo x \<le> 0" using fl_nonneg [of "- x"] by (auto simp: flo_def fl_def)
  also have "0 \<le> y * (1 + 1 / 2 ^ 53)" using assms(2) by simp
  finally show ?thesis .
qed

text \<open>
  C38: The limit that is set is at least the minimum and does not exceed the container's unless that one is below the
  minimum. Nothing is set when the operator has set one, when neither file can be read, and when the one that is read first
  gives no finite limit.
\<close>

theorem memory_limit_bounded:
  assumes "memlimit_Apply gomemlimit readFile = Some soft"
  shows "gomemlimit = [] \<and> minLimit \<le> soft \<and> soft < 4611686018427387904 \<and>
    (\<exists>n. cgroupLimit readFile ''/sys/fs/cgroup'' = Some n \<and> 0 < n \<and> soft \<le> max minLimit n)"
proof -
  from assms obtain n where n: "cgroupLimit readFile ''/sys/fs/cgroup'' = Some n" "soft = soft_limit n" and g: "gomemlimit = []"
    by (auto simp: memlimit_Apply_def split: if_splits)
  have range: "0 < m \<and> m < 4611686018427387904" if "first_limit readFile ps = Some m" for ps m
    using that by (induction ps) (auto simp: finite_limit_def Let_def split: option.splits if_splits)
  from n(1) have r: "0 < n" "n < 4611686018427387904" using range by (simp_all only: cgroupLimit_def)
  have tenth: "flo (9 / 10) = 8106479329266893 / 9007199254740992" by code_simp
  have "flo (of_int n) * flo (9 / 10) \<le> of_int n * (1 + 1 / 2 ^ 53) * (8106479329266893 / 9007199254740992)"
    unfolding tenth using r(1) by (intro mult_right_mono flo_above) simp_all
  then have "flo (flo (of_int n) * flo (9 / 10)) \<le> of_int n * (1 + 1 / 2 ^ 53) * (8106479329266893 / 9007199254740992) * (1 + 1 / 2 ^ 53)"
    using r(1) by (intro flo_above) simp_all
  also have "\<dots> \<le> of_int n" using r(1) by simp
  finally have "flo (flo (of_int n) * flo (9 / 10)) \<le> of_int n" .
  then have "\<lfloor>flo (flo (of_int n) * flo (9 / 10))\<rfloor> \<le> n" by (simp add: floor_le_iff)
  then have "minLimit \<le> soft_limit n" "soft_limit n \<le> max minLimit n" by (auto simp: soft_limit_def Let_def)
  with r have "minLimit \<le> soft \<and> soft < 4611686018427387904 \<and> 0 < n \<and> soft \<le> max minLimit n" by (simp add: n(2) max_def split: if_splits)
  with n(1) g show ?thesis by blast
qed

definition container_files :: "string \<Rightarrow> bytes option" where
  "container_files p = (if p = ''/sys/fs/cgroup/memory.max'' then Some ''1073741824 '' else None)"

theorem memory_limit_bounded_witness:
  "\<exists>soft. memlimit_Apply [] container_files = Some soft \<and> minLimit \<le> soft \<and> soft \<le> 1073741824"
proof -
  have lim: "cgroupLimit container_files ''/sys/fs/cgroup'' = Some 1073741824" by code_simp
  then obtain soft where s: "memlimit_Apply [] container_files = Some soft" by (simp add: memlimit_Apply_def)
  from memory_limit_bounded [OF s] lim s show ?thesis by auto
qed

end
