(* ===== verification/Spec2Isabelle.thy ===== *)
theory Spec2Isabelle
  imports Serving Flight Safedial Endpoints Api_Effects Process Advisories Rewrite_Gate Monitoring
begin

text \<open>
  forklift is a package registry and caching proxy for Maven, npm, PyPI, Cargo and Go modules. A
  request for a package enters at a route of one of the formats, is audited, perhaps fanned out over
  the members of a group repository, resolved to a repository, authorized, checked against the deny
  list, the approval workflow and the vulnerability and license policies, and then answered by the
  engine from its cache, from the upstream registry or from what was uploaded. The engine keeps the
  bytes in a content-addressed blob store and everything else in an SQL database; a sweeper, a reaper
  and an evictor reclaim space behind it. Who asks is settled by sessions, passwords, API tokens or an
  OpenID Connect provider; what they may do comes from roles, which administrators edit and a policy file
  can declare. Of several instances one is elected the leader; a standby copies its database and blobs, or both
  share an object store, and takes over when promoted.

  \<^bold>\<open>The parts and their theories\<close>

  \<^item> \<open>Prelude\<close>, \<open>Strconv\<close>, \<open>Netip\<close>, \<open>Path_Match\<close>, \<open>Base64\<close>, \<open>Json\<close>, \<open>Http\<close>: what the source uses of the
    Go library: byte strings, 64-bit durations with their wrap-around, decimal numbers, IP addresses
    and prefixes, \<^verbatim>\<open>path.Match\<close>, base64, JSON values, requests and the operations on a response writer.
  \<^item> \<open>Authz\<close> (\<^verbatim>\<open>auth/authz.go\<close>): the glob matcher, the permissions of a principal and the scopes of its
    token. The matcher is equivalent to a declarative specification and ends; a token only restricts.
  \<^item> \<open>Meta_Schema\<close>, \<open>Artifacts\<close>, \<open>Ref_Counts\<close>, \<open>Approvals\<close>, \<open>Listings\<close> (\<^verbatim>\<open>meta/*.go\<close>): the tables as lists
    of records and one function per store operation; a fault per table stands for a database error.
    Reference counts never fall below the number of rows that use a blob, whatever operations run.
  \<^item> \<open>Users\<close>, \<open>Rbac\<close>, \<open>Policy\<close>, \<open>Auth_Service\<close>, \<open>Sign_In\<close> (\<^verbatim>\<open>meta/auth.go\<close>, \<^verbatim>\<open>meta/rbac.go\<close>, \<^verbatim>\<open>auth/*.go\<close>):
    accounts, roles, tokens and group mappings as tables, the declarative policy and its parser,
    sessions, sign-in and the middleware. Applying a policy leaves exactly the managed rows it asks
    for; what it permits is what the principal it resolves may do; the lockout counts; the identifiers
    and references of the tables stay sound whatever runs.
  \<^item> \<open>Storage\<close> (\<^verbatim>\<open>storage/storage.go\<close>): the store on disk, its laws as the locale \<open>blob_store_laws\<close>, the
    walk over it, and concurrent uploads and deletions as a step relation.
  \<^item> \<open>S3_Store\<close> (\<^verbatim>\<open>storage/s3.go\<close>): the blob store on an object store, over the laws
    \<open>object_store_laws\<close> of the service; it keeps \<open>blob_store_laws\<close> too, so the engine loses nothing there
    either, and its walk is complete and sorted.
  \<^item> \<open>Repoconfig\<close> (\<^verbatim>\<open>repoconfig/repoconfig.go\<close>): defaults, validation and the client address list.
  \<^item> \<open>Cache_Policy\<close>, \<open>Engine\<close>, \<open>Blob_Safety\<close>, \<open>Serving\<close>, \<open>Retention\<close> (\<^verbatim>\<open>repo/engine.go\<close>, \<^verbatim>\<open>negcache.go\<close>,
    \<^verbatim>\<open>agepolicy.go\<close>, \<^verbatim>\<open>sweeper.go\<close>, \<^verbatim>\<open>reaper.go\<close>): the engine over any blob store that keeps the laws. No
    run of requests, uploads, evictions and sweeps loses the blob of a row; what was uploaded is what
    is downloaded; a blocked age is not served on any path; a negative answer or a cooldown keeps
    requests away from the upstream; the reaper and the evictor remove exactly the rows they should.
  \<^item> \<open>Flight\<close> (\<^verbatim>\<open>repo/flight.go\<close>): concurrent fetches of a key as a step relation; they coalesce and nobody
    waits for ever unless a fetch panics.
  \<^item> \<open>Rewrite_Gate\<close> (\<^verbatim>\<open>repo/engine.go\<close>): the semaphore around the rewriting of indexes as a step relation; at most four
    requests rewrite, and one that waits gets a slot when one of them ends.
  \<^item> \<open>Monitoring\<close> (\<^verbatim>\<open>metrics/metrics.go\<close>, \<^verbatim>\<open>memlimit/memlimit.go\<close>): the gauges of a scrape, which add up to the tables,
    and the memory limit, which stays within the container's.
  \<^item> \<open>Safedial\<close> (\<^verbatim>\<open>repo/safedial.go\<close>), \<open>Audit_Log\<close> (\<^verbatim>\<open>audit/audit.go\<close>): the guard against requests to the
    inside and the recorder's bounded queue.
  \<^item> \<open>Coordinates\<close>, \<open>Manager\<close>, \<open>Gates\<close>, \<open>Handlers\<close>, \<open>Group\<close>, \<open>Npm\<close>, \<open>Pypi\<close>, \<open>Endpoints\<close> (\<^verbatim>\<open>repo/router.go\<close>,
    \<^verbatim>\<open>vulnscan.go\<close>, \<^verbatim>\<open>licensescan.go\<close>, \<^verbatim>\<open>approvalgate.go\<close>, \<^verbatim>\<open>vulngate.go\<close>, \<^verbatim>\<open>licensegate.go\<close>, \<^verbatim>\<open>group.go\<close> and
    the formats): the manager's state, the scan queues, the gates and the handlers. The locale
    \<open>policy_gate\<close> says what a gate may do, \<open>format_handler\<close> what a handler promises; the properties of
    \<open>Endpoints\<close> hold of every handler that keeps the contract, directly and through a group.
  \<^item> \<open>Receivers\<close>, \<open>Api\<close>, \<open>Api_Accounts\<close>, \<open>Api_Approvals\<close>, \<open>Api_Repositories\<close>, \<open>Api_Notifications\<close>,
    \<open>Api_Routes\<close>, \<open>Api_Safety\<close>, \<open>Api_Effects\<close> (\<^verbatim>\<open>api/*.go\<close>, \<^verbatim>\<open>notify/webhook.go\<close>, \<^verbatim>\<open>meta/receiver.go\<close>,
    \<^verbatim>\<open>meta/audit.go\<close>): the management API, a handler per endpoint, the routes with their guards, and the
    webhooks. The locale \<open>store_preorder\<close> takes a handler apart into its writes; interpreted on two
    relations it shows that without the administrator's permission only the asker's own tokens and the
    decisions it may take change, and that no request changes a role or permission of the declarative
    policy. An approver's decision is what the gates go by, an issued token works and ends, and a
    deleted repository leaves no decision behind.
  \<^item> \<open>Replication\<close> (\<^verbatim>\<open>replication/*.go\<close>, \<^verbatim>\<open>meta/meta.go\<close>): the leader's endpoints, the standby's cycle and
    promotion. \<open>walkable_laws\<close> extends the blob store's laws by the walk; over it the merge of the two
    listings is shown to end and to leave exactly the leader's blobs.
  \<^item> \<open>Meta_Sync\<close> (\<^verbatim>\<open>objstore/metasync.go\<close>, \<^verbatim>\<open>meta/meta.go\<close>): the database in an object store. Several instances with
    their requests to the service in any order are the relation \<open>ms_step\<close>; over \<open>versioned_store\<close>, which extends
    the service's laws by fresh entity tags, the stored fence never decreases, and a standby that takes over has
    the database of the last upload.
  \<^item> \<open>Durations\<close>, \<open>App_Config\<close> (\<^verbatim>\<open>repoconfig/repoconfig.go\<close>, \<^verbatim>\<open>config/config.go\<close>): durations with their texts,
    floating-point numbers read from text, the configuration from environment and flags and what its validation
    guarantees. A duration survives the way through JSON.
  \<^item> \<open>Election\<close> (\<^verbatim>\<open>cluster/*.go\<close>): the loop of the leader election with the library's callbacks as a step
    relation, stepping down, and the labels that route requests to the leader.
  \<^item> \<open>Migrations\<close> (\<^verbatim>\<open>meta/meta.go\<close>), \<open>Seeding\<close> (\<^verbatim>\<open>repo/seed.go\<close>): an upgrade of the database that was cut short
    is completed by the next start; seeding adds what is missing and nothing else.
  \<^item> \<open>Process\<close> (\<^verbatim>\<open>cmd/forklift/main.go\<close>, \<^verbatim>\<open>server/*.go\<close>, \<^verbatim>\<open>api/ha.go\<close>): the database before serving, getting and losing the
    leadership, the reported status, the probes and the middleware. A validated configuration leads with the
    routing label to itself, readiness follows leadership, and a restart on an empty volume restores the database.
  \<^item> \<open>Advisories\<close> (\<^verbatim>\<open>vuln/osv.go\<close>, \<^verbatim>\<open>cvss.go\<close>, \<^verbatim>\<open>license/depsdev.go\<close>): the clients of the advisory and the license service.
    A finding lists each live advisory once with its severity; the address asked determines the coordinates.

  \<^bold>\<open>State and effects\<close>

  A handler takes the manager's state (the engine with its store, blobs and caches, the scan queues, the
  marks of the gates, the events counted and audited) and gives back the operations on the response
  writer, in order, and the new state. A store operation gives an error or a value beside the new
  store. The clock is read once per request. Loops are recursive functions with termination proofs, so no
  fuel is needed; the exception is the standby's merge, which follows the pages the leader sends and may
  never end: it is a partial function with the value \<open>None\<close> for that case, and the theorem about it
  shows that it returns for every leader that answers through the modelled endpoints.

  \<^bold>\<open>Parameters\<close>

  Code outside the repository is an argument of the definitions: the digest function, password hashing and
  signatures, upstream registries, the identity provider, the advisory and license services, webhooks, the
  parsers and printers of JSON, URLs, times and multipart bodies. What the properties need of them are their
  hypotheses, and witnesses instantiate them. Lower-casing maps ASCII letters and leaves the other bytes as
  they are. A panic in a handler unwinds to the server's recoverer, which answers 500. A floating-point number
  is a rational rounded to 53 bits after every operation, as on platforms that do not fuse operations; converting
  one that does not fit an integer gives an unspecified value, a parameter.

  \<^bold>\<open>Not modelled\<close>

  The clients of the object store and of Kubernetes and the election library, SQLite and the text of the
  migrations, listeners, signals and the shutdown, the monitoring client, logging, the embedded pages and the API's
  description: libraries, the operating system, and files served as they are. Tickers run the passes that are
  modelled.
\<close>

end
